(* ===== verification/Prelude.thy ===== *)
theory Prelude
  imports Main "HOL-Library.Sublist"
begin

text \<open>
  Shared vocabulary of the development.

  The web app is TypeScript, so this theory fixes how the JavaScript values and library
  functions the sources use are read in HOL, together with the lemmas every component needs:
  \<^item> \<open>undefined\<close>/\<open>null\<close> are \<open>None\<close>; \<open>x ?? d\<close> is \<open>nullish x d\<close> and \<open>x || d\<close> on an optional
    string is \<open>or_str x d\<close> (the empty string is falsy);
  \<^item> a string is a \<^typ>\<open>string\<close>, that is a list of code units; units beyond 255 are outside the
    model. \<open>toLowerCase\<close>, \<open>trim\<close>, \<open>split\<close>, \<open>join\<close>, \<open>includes\<close>, \<open>startsWith\<close>, \<open>endsWith\<close> and
    \<open>Number.prototype.toString\<close> are exact on that range;
  \<^item> a \<open>Set\<close> that guards a loop is the list of the keys seen so far;
  \<^item> a stateful component is a step function over events, and the locale \<open>machine\<close> lifts a
    one-step invariant to every run.
\<close>

named_theorems js_defs \<open>definitions of the JavaScript library functions\<close>
named_theorems js_str \<open>facts about the JavaScript string functions\<close>

subsection \<open>Optional values\<close>

definition nullish :: "'a option \<Rightarrow> 'a \<Rightarrow> 'a" where
  "nullish x d = (case x of None \<Rightarrow> d | Some v \<Rightarrow> v)"

lemma nullish_simps [simp]: "nullish None d = d" "nullish (Some v) d = v"
  by (simp_all add: nullish_def)

definition truthy_str :: "string option \<Rightarrow> bool" where
  "truthy_str x = (case x of None \<Rightarrow> False | Some s \<Rightarrow> s \<noteq> [])"

lemma truthy_str_simps [simp]: "\<not> truthy_str None" "truthy_str (Some s) = (s \<noteq> [])"
  by (simp_all add: truthy_str_def)

definition or_str :: "string option \<Rightarrow> string \<Rightarrow> string" where
  "or_str x d = (if truthy_str x then the x else d)"

lemma or_str_simps [simp]: "or_str None d = d" "or_str (Some s) d = (if s = [] then d else s)"
  by (simp_all add: or_str_def)

definition or_opt :: "string option \<Rightarrow> string option \<Rightarrow> string option" where
  "or_opt x y = (if truthy_str x then x else y)"

definition truthy_bool :: "bool option \<Rightarrow> bool" where
  "truthy_bool x = (x = Some True)"

lemma truthy_bool_simps [simp]: "\<not> truthy_bool None" "truthy_bool (Some b) = b"
  by (simp_all add: truthy_bool_def)

subsection \<open>Strings\<close>

definition js_lower_char :: "char \<Rightarrow> char" where
  "js_lower_char c =
     (let n = of_char c :: nat
      in if (65 \<le> n \<and> n \<le> 90) \<or> (192 \<le> n \<and> n \<le> 222 \<and> n \<noteq> 215) then char_of (n + 32) else c)"

definition js_toLowerCase :: "string \<Rightarrow> string" where
  "js_toLowerCase s = map js_lower_char s"

lemma js_toLowerCase_simps [simp]:
  "js_toLowerCase [] = []" "js_toLowerCase (c # s) = js_lower_char c # js_toLowerCase s"
  "js_toLowerCase (s @ t) = js_toLowerCase s @ js_toLowerCase t"
  "length (js_toLowerCase s) = length s" "js_toLowerCase s = [] \<longleftrightarrow> s = []"
  by (simp_all add: js_toLowerCase_def)

lemma of_char_js_lower:
  "of_char (js_lower_char c) =
     (let n = of_char c :: nat
      in if (65 \<le> n \<and> n \<le> 90) \<or> (192 \<le> n \<and> n \<le> 222 \<and> n \<noteq> 215) then n + 32 else n)"
  by (auto simp: js_lower_char_def Let_def of_char_of)

lemma js_lower_char_idem [simp]: "js_lower_char (js_lower_char c) = js_lower_char c"
proof -
  have "(of_char (js_lower_char (js_lower_char c)) :: nat) = of_char (js_lower_char c)"
    by (auto simp: of_char_js_lower Let_def)
  then show ?thesis by simp
qed

lemma js_toLowerCase_idem [simp]: "js_toLowerCase (js_toLowerCase s) = js_toLowerCase s"
  by (induction s) simp_all

definition js_space :: "char \<Rightarrow> bool" where
  "js_space c = (let n = of_char c :: nat in (9 \<le> n \<and> n \<le> 13) \<or> n = 32 \<or> n = 160)"

definition js_trim :: "string \<Rightarrow> string" where
  "js_trim s = rev (dropWhile js_space (rev (dropWhile js_space s)))"

fun js_join :: "string \<Rightarrow> string list \<Rightarrow> string" where
  "js_join sep [] = []"
| "js_join sep [x] = x"
| "js_join sep (x # y # r) = x @ sep @ js_join sep (y # r)"

fun js_split :: "char \<Rightarrow> string \<Rightarrow> string list" where
  "js_split c [] = [[]]"
| "js_split c (x # s) =
     (if x = c then [] # js_split c s
      else case js_split c s of [] \<Rightarrow> [[x]] | p # ps \<Rightarrow> (x # p) # ps)"

definition js_startsWith :: "string \<Rightarrow> string \<Rightarrow> bool" where
  "js_startsWith s t = (take (length t) s = t)"

definition js_endsWith :: "string \<Rightarrow> string \<Rightarrow> bool" where
  "js_endsWith s t = js_startsWith (rev s) (rev t)"

fun js_includes :: "string \<Rightarrow> string \<Rightarrow> bool" where
  "js_includes [] t = (t = [])"
| "js_includes (c # s) t = (js_startsWith (c # s) t \<or> js_includes s t)"

lemma js_startsWith_iff [js_str]: "js_startsWith s t \<longleftrightarrow> (\<exists>r. s = t @ r)"
  unfolding js_startsWith_def by (metis append_eq_conv_conj append_take_drop_id)

lemma js_includes_iff [js_str]: "js_includes s t \<longleftrightarrow> (\<exists>a b. s = a @ t @ b)"
proof (induction s)
  case (Cons c s)
  show ?case (is "?L \<longleftrightarrow> ?R")
  proof
    assume ?L
    then consider r where "c # s = t @ r" | a b where "s = a @ t @ b"
      using Cons.IH by (auto simp: js_startsWith_iff)
    then show ?R by cases (metis append_Nil, metis append_Cons)
  next
    assume ?R
    then obtain a b where eq: "c # s = a @ t @ b" by blast
    show ?L
    proof (cases a)
      case Nil
      with eq have "js_startsWith (c # s) t" by (auto simp: js_startsWith_iff)
      then show ?thesis by simp
    next
      case (Cons d a')
      with eq have "s = a' @ t @ b" by simp
      with Cons.IH show ?thesis by auto
    qed
  qed
qed simp

lemma js_endsWith_iff [js_str]: "js_endsWith s t \<longleftrightarrow> (\<exists>r. s = r @ t)"
  unfolding js_endsWith_def js_startsWith_iff by (metis rev_append rev_rev_ident)

lemma js_endsWith_append [simp]: "js_endsWith (r @ t) t"
  by (auto simp: js_endsWith_iff)

lemma js_includes_append [simp]: "js_includes (a @ t @ b) t"
  by (auto simp: js_includes_iff)

lemma sorted_map_const [simp]: "sorted (map (\<lambda>x. c) xs)"
  by (induction xs) auto

lemma js_split_not_Nil [simp]: "js_split c s \<noteq> []"
  by (induction s) (auto split: list.splits)

lemma js_join_split [simp]: "js_join [c] (js_split c s) = s"
proof (induction s)
  case (Cons x s)
  then show ?case
    by (cases "js_split c s"; cases "tl (js_split c s)") (auto)
qed simp

lemma js_split_no_sep: "p \<in> set (js_split c s) \<Longrightarrow> c \<notin> set p"
  by (induction s arbitrary: p) (auto split: list.splits if_splits)

lemma js_split_plain: "c \<notin> set p \<Longrightarrow> js_split c p = [p]"
  by (induction p) auto

lemma js_split_append: "c \<notin> set p \<Longrightarrow> js_split c (p @ c # s) = p # js_split c s"
  by (induction p) auto

lemma js_split_join:
  "ps \<noteq> [] \<Longrightarrow> \<forall>p \<in> set ps. c \<notin> set p \<Longrightarrow> js_split c (js_join [c] ps) = ps"
  by (induction "[c]" ps rule: js_join.induct) (auto simp: js_split_plain js_split_append)

text \<open>Text cut at its first separator: what lies before it is determined by the whole.\<close>

lemma first_sep_inj:
  assumes "c \<notin> set a" "c \<notin> set a'" and "a @ c # r = a' @ c # r'"
  shows "a = a' \<and> r = r'"
  using assms
proof (induction a arbitrary: a')
  case Nil
  then show ?case by (cases a') auto
next
  case (Cons x a)
  then show ?case by (cases a') auto
qed

lemma last_sep_inj:
  assumes "c \<notin> set a" "c \<notin> set a'" and "r @ c # a = r' @ c # a'"
  shows "a = a' \<and> r = r'"
proof -
  have "rev a @ c # rev r = rev a' @ c # rev r'"
    using arg_cong [OF assms(3), of rev] by simp
  with first_sep_inj [of c "rev a" "rev a'"] assms(1,2) show ?thesis by auto
qed

subsection \<open>Numbers as text\<close>

definition digit_char :: "nat \<Rightarrow> char" where
  "digit_char d = char_of (if d < 10 then 48 + d else 87 + d)"

function show_base :: "nat \<Rightarrow> nat \<Rightarrow> string" where
  "show_base b n =
     (if b \<le> 1 \<or> n < b then [digit_char n] else show_base b (n div b) @ [digit_char (n mod b)])"
  by pat_completeness auto
termination
  by (relation "measure snd") auto

declare show_base.simps [simp del]

abbreviation show_nat :: "nat \<Rightarrow> string" where
  "show_nat \<equiv> show_base 10"

definition show_int :: "int \<Rightarrow> string" where
  "show_int i = (if i < 0 then CHR ''-'' # show_nat (nat (- i)) else show_nat (nat i))"

lemma of_digit_char: "d < 36 \<Longrightarrow> of_char (digit_char d) = (if d < 10 then 48 + d else 87 + d)"
  by (auto simp: digit_char_def)

lemma digit_char_inj:
  assumes "d < 36" "e < 36"
  shows "digit_char d = digit_char e \<longleftrightarrow> d = e"
proof
  assume "digit_char d = digit_char e"
  then have "(of_char (digit_char d) :: nat) = of_char (digit_char e)" by simp
  with assms show "d = e" by (auto simp: of_digit_char split: if_splits)
qed simp

lemma digit_char_not_dash: "d < 36 \<Longrightarrow> digit_char d \<noteq> CHR ''-''"
proof
  assume "d < 36" "digit_char d = CHR ''-''"
  then have "(of_char (CHR ''-'') :: nat) = (if d < 10 then 48 + d else 87 + d)"
    using of_digit_char by metis
  then show False by (auto split: if_splits)
qed

lemma show_base_nonempty [simp]: "show_base b n \<noteq> []" "[] \<noteq> show_base b n"
  by (simp_all add: show_base.simps [of b n])

lemma show_base_chars:
  "2 \<le> b \<Longrightarrow> b \<le> 36 \<Longrightarrow> c \<in> set (show_base b n) \<Longrightarrow> \<exists>d < 36. c = digit_char d"
proof (induction b n rule: show_base.induct)
  case (1 b n)
  show ?case
  proof (cases "n < b")
    case True
    then have "n < 36" using 1(3) by simp
    with True 1(4) show ?thesis by (auto simp: show_base.simps [of b n])
  next
    case False
    have "n mod b < 36" using 1(2,3) by (meson mod_less_divisor order_less_le_trans zero_less_numeral)
    with False 1 show ?thesis by (auto simp: show_base.simps [of b n])
  qed
qed

lemma show_base_inj:
  "2 \<le> b \<Longrightarrow> b \<le> 36 \<Longrightarrow> show_base b m = show_base b n \<Longrightarrow> m = n"
proof (induction b m arbitrary: n rule: show_base.induct)
  case (1 b m)
  have lt: "k mod b < 36" for k
    using 1(2,3) by (meson mod_less_divisor order_less_le_trans zero_less_numeral)
  show ?case
  proof (cases "m < b"; cases "n < b")
    assume "m < b" "n < b"
    with 1 show ?thesis
      by (auto simp: show_base.simps [of b m] show_base.simps [of b n] digit_char_inj)
  next
    assume a: "\<not> m < b" "\<not> n < b"
    with "1.prems" have "show_base b (m div b) = show_base b (n div b)"
      and "digit_char (m mod b) = digit_char (n mod b)"
      by (auto simp: show_base.simps [of b m] show_base.simps [of b n])
    with a 1 lt have "m div b = n div b" "m mod b = n mod b"
      by (auto simp: digit_char_inj)
    then show ?thesis by (metis div_mult_mod_eq)
  next
    assume "m < b" "\<not> n < b"
    with 1 show ?thesis
      by (auto simp: show_base.simps [of b m] show_base.simps [of b n] append_eq_Cons_conv)
  next
    assume "\<not> m < b" "n < b"
    with 1 show ?thesis
      by (auto simp: show_base.simps [of b m] show_base.simps [of b n] append_eq_Cons_conv)
  qed
qed

lemma show_nat_eq_iff [simp]: "show_nat m = show_nat n \<longleftrightarrow> m = n"
  using show_base_inj [of 10] by auto

lemma show_base_no_dash: "2 \<le> b \<Longrightarrow> b \<le> 36 \<Longrightarrow> CHR ''-'' \<notin> set (show_base b n)"
  using show_base_chars digit_char_not_dash by (metis (full_types))

subsection \<open>Loops guarded by a set of keys already seen\<close>

fun dedup_by :: "('a \<Rightarrow> 'k) \<Rightarrow> 'k list \<Rightarrow> 'a list \<Rightarrow> 'a list" where
  "dedup_by key seen [] = []"
| "dedup_by key seen (x # xs) =
     (if key x \<in> set seen then dedup_by key seen xs
      else x # dedup_by key (key x # seen) xs)"

lemma dedup_by_keys: "key ` set (dedup_by key seen xs) = key ` set xs - set seen"
  by (induction xs arbitrary: seen) auto

lemma dedup_by_distinct: "distinct (map key (dedup_by key seen xs))"
proof (induction xs arbitrary: seen)
  case (Cons x xs)
  have "key x \<notin> key ` set (dedup_by key (key x # seen) xs)" by (simp add: dedup_by_keys)
  with Cons show ?case by auto
qed simp

lemma dedup_by_subseq: "subseq (dedup_by key seen xs) xs"
  by (induction xs arbitrary: seen) auto

lemma dedup_by_map: "map f (dedup_by (g \<circ> f) seen xs) = dedup_by g seen (map f xs)"
  by (induction xs arbitrary: seen) auto

lemma dedup_by_snoc:
  "dedup_by key seen (xs @ [x]) =
     (if key x \<in> set seen \<union> key ` set (dedup_by key seen xs) then dedup_by key seen xs
      else dedup_by key seen xs @ [x])"
  by (induction xs arbitrary: seen) auto

lemma dedup_by_subset: "set (dedup_by key seen xs) \<subseteq> set xs"
  by (induction xs arbitrary: seen) auto

lemma dedup_by_key_cong_gen:
  assumes "\<And>x y. x \<in> A \<Longrightarrow> y \<in> A \<Longrightarrow> key x = key y \<longleftrightarrow> key' x = key' y"
    and "set xs \<subseteq> A" "set ss \<subseteq> A"
  shows "dedup_by key (map key ss) xs = dedup_by key' (map key' ss) xs"
  using assms(2,3)
proof (induction xs arbitrary: ss)
  case (Cons x xs)
  have "key x \<in> key ` set ss \<longleftrightarrow> key' x \<in> key' ` set ss"
    using assms(1) Cons.prems by (auto simp: image_iff)
  then show ?case
    using Cons.IH [of ss] Cons.IH [of "x # ss"] Cons.prems by simp
qed simp

lemma dedup_by_key_cong:
  assumes "\<And>x y. x \<in> set xs \<Longrightarrow> y \<in> set xs \<Longrightarrow> key x = key y \<longleftrightarrow> key' x = key' y"
  shows "dedup_by key [] xs = dedup_by key' [] xs"
  using dedup_by_key_cong_gen [of "set xs" key key' xs "[]"] assms by simp

lemma dedup_by_id_set: "set (dedup_by (\<lambda>x. x) seen xs) = set xs - set seen"
  using dedup_by_keys [of "\<lambda>x. x"] by simp

lemma dedup_by_id_distinct: "distinct (dedup_by (\<lambda>x. x) seen xs)"
  using dedup_by_distinct [of "\<lambda>x. x"] by simp

lemma dedup_by_cong_seen:
  "set seen = set seen' \<Longrightarrow> dedup_by key seen xs = dedup_by key seen' xs"
proof (induction xs arbitrary: seen seen')
  case (Cons x xs)
  from Cons.prems have "set (key x # seen) = set (key x # seen')" by simp
  from Cons.IH [OF this] Cons.IH [OF Cons.prems] Cons.prems show ?case by simp
qed simp

lemma find_by_key:
  "x \<in> set xs \<Longrightarrow> distinct (map f xs) \<Longrightarrow> find (\<lambda>y. f y = f x) xs = Some x"
  by (induction xs) auto

lemma same_key: "x \<in> set xs \<Longrightarrow> y \<in> set xs \<Longrightarrow> distinct (map f xs) \<Longrightarrow> f x = f y \<Longrightarrow> x = y"
  by (simp add: distinct_map inj_on_def)

subsection \<open>Cutting a list into runs\<close>

text \<open>
  Reference definition for a loop that extends a run while the next element relates to the run's
  first one: the runs are maximal, in order, and together are the list.
\<close>

function split_runs :: "('a \<Rightarrow> 'a \<Rightarrow> bool) \<Rightarrow> 'a list \<Rightarrow> 'a list list" where
  "split_runs P [] = []"
| "split_runs P (x # xs) = (x # takeWhile (P x) xs) # split_runs P (dropWhile (P x) xs)"
  by pat_completeness auto
termination
  by (relation "measure (length \<circ> snd)") (auto simp: le_imp_less_Suc length_dropWhile_le)

lemma split_runs_concat: "concat (split_runs P xs) = xs"
  by (induction P xs rule: split_runs.induct) simp_all

lemma split_runs_nonempty: "r \<in> set (split_runs P xs) \<Longrightarrow> r \<noteq> []"
  by (induction P xs rule: split_runs.induct) auto

lemma split_runs_related: "r \<in> set (split_runs P xs) \<Longrightarrow> y \<in> set (tl r) \<Longrightarrow> P (hd r) y"
  by (induction P xs rule: split_runs.induct) (auto dest: set_takeWhileD)

lemma split_runs_hd: "xs \<noteq> [] \<Longrightarrow> split_runs P xs \<noteq> [] \<and> hd (hd (split_runs P xs)) = hd xs"
  by (cases xs) simp_all

lemma split_runs_maximal:
  "Suc i < length (split_runs P xs) \<Longrightarrow>
     \<not> P (hd (split_runs P xs ! i)) (hd (split_runs P xs ! Suc i))"
proof (induction P xs arbitrary: i rule: split_runs.induct)
  case (2 P x xs)
  let ?d = "dropWhile (P x) xs"
  show ?case
  proof (cases i)
    case 0
    with "2.prems" have "split_runs P ?d \<noteq> []" by auto
    then have ne: "?d \<noteq> []" by (cases ?d) auto
    with split_runs_hd [OF ne, of P] have "hd (split_runs P ?d ! 0) = hd ?d"
      by (metis hd_conv_nth)
    with hd_dropWhile [OF ne] 0 show ?thesis by simp
  next
    case (Suc j)
    with 2 show ?thesis by simp
  qed
qed simp

subsection \<open>Step functions and their runs\<close>

text \<open>
  A component that reacts to events is a function from a state and an event to the next state.
  Whatever one step keeps, every run keeps.
\<close>

lemma takeWhile_before:
  "i < length xs \<Longrightarrow> \<not> P (xs ! i) \<Longrightarrow> set (takeWhile P xs) \<subseteq> set (take i xs)"
proof (induction xs arbitrary: i)
  case (Cons x xs)
  then show ?case by (cases i) auto
qed simp

lemma less_div_iff_int: "0 < w \<Longrightarrow> q < t div w \<longleftrightarrow> w * q + w \<le> (t :: int)"
proof
  assume w: "0 < w" and "q < t div w"
  then have "w * (q + 1) \<le> w * (t div w)" by (intro mult_left_mono) auto
  also have "\<dots> \<le> t" using w mult_div_mod_eq [of w t] pos_mod_sign [OF w, of t] by linarith
  finally show "w * q + w \<le> t" by (simp add: distrib_left)
next
  assume w: "0 < w" and "w * q + w \<le> t"
  then have "(w * (q + 1)) div w \<le> t div w" by (intro zdiv_mono1) (simp_all add: distrib_left)
  then show "q < t div w" using w by simp
qed

subsection \<open>Sorting with a comparator\<close>

text \<open>
  \<open>Array.prototype.sort\<close> is stable; \<open>le a b\<close> says that the comparator does not put \<open>a\<close> after \<open>b\<close>.
\<close>

fun insert_by :: "('a \<Rightarrow> 'a \<Rightarrow> bool) \<Rightarrow> 'a \<Rightarrow> 'a list \<Rightarrow> 'a list" where
  "insert_by le x [] = [x]"
| "insert_by le x (y # ys) = (if le x y then x # y # ys else y # insert_by le x ys)"

definition js_sort :: "('a \<Rightarrow> 'a \<Rightarrow> bool) \<Rightarrow> 'a list \<Rightarrow> 'a list" where
  "js_sort le xs = foldr (insert_by le) xs []"

lemma js_sort_simps [simp]: "js_sort le [] = []" "js_sort le (x # xs) = insert_by le x (js_sort le xs)"
  by (simp_all add: js_sort_def)

lemma insert_by_set [simp]: "set (insert_by le x ys) = insert x (set ys)"
  by (induction ys) auto

lemma js_sort_set [simp]: "set (js_sort le xs) = set xs"
  by (induction xs) simp_all

lemma insert_by_length [simp]: "length (insert_by le x ys) = Suc (length ys)"
  by (induction ys) simp_all

lemma js_sort_length [simp]: "length (js_sort le xs) = length xs"
  by (induction xs) simp_all

lemma js_sort_Nil [simp]: "js_sort le xs = [] \<longleftrightarrow> xs = []"
  by (metis js_sort_length length_0_conv)

lemma insert_by_distinct: "distinct (insert_by le x ys) \<longleftrightarrow> x \<notin> set ys \<and> distinct ys"
  by (induction ys) auto

lemma js_sort_distinct [simp]: "distinct (js_sort le xs) = distinct xs"
  by (induction xs) (auto simp: insert_by_distinct)

lemma insert_by_sorted:
  assumes "\<And>a b. le a b \<or> le b a" "\<And>a b c. le a b \<Longrightarrow> le b c \<Longrightarrow> le a c"
  shows "sorted_wrt le ys \<Longrightarrow> sorted_wrt le (insert_by le x ys)"
proof (induction ys)
  case (Cons y ys)
  then have "\<forall>z \<in> set ys. le x y \<longrightarrow> le x z" using assms(2) by auto
  with Cons show ?case using assms(1) by auto
qed simp

lemma js_sort_sorted:
  assumes "\<And>a b. le a b \<or> le b a" "\<And>a b c. le a b \<Longrightarrow> le b c \<Longrightarrow> le a c"
  shows "sorted_wrt le (js_sort le xs)"
  by (induction xs) (simp_all add: insert_by_sorted [OF assms])

lemma insert_by_map: "map f (insert_by (\<lambda>a b. le (f a) (f b)) x ys) = insert_by le (f x) (map f ys)"
  by (induction ys) simp_all

lemma js_sort_map: "map f (js_sort (\<lambda>a b. le (f a) (f b)) xs) = js_sort le (map f xs)"
  by (induction xs) (simp_all add: insert_by_map)

lemma insert_by_cong: "(\<And>y. y \<in> set ys \<Longrightarrow> le x y = le' x y) \<Longrightarrow> insert_by le x ys = insert_by le' x ys"
  by (induction ys) auto

lemma js_sort_cong:
  "(\<And>x y. x \<in> set xs \<Longrightarrow> y \<in> set xs \<Longrightarrow> le x y = le' x y) \<Longrightarrow> js_sort le xs = js_sort le' xs"
proof (induction xs)
  case (Cons x xs)
  then have "js_sort le xs = js_sort le' xs" by auto
  then show ?case using Cons.prems by (auto intro!: insert_by_cong)
qed simp

locale machine =
  fixes step :: "'s \<Rightarrow> 'e \<Rightarrow> 's"
    and inv :: "'s \<Rightarrow> bool"
  assumes step_inv: "inv s \<Longrightarrow> inv (step s e)"
begin

lemma run_inv: "inv s \<Longrightarrow> inv (foldl step s es)"
  by (induction es arbitrary: s) (auto intro: step_inv)

lemma run_prefix_inv: "inv s \<Longrightarrow> inv (foldl step s (take n es))"
  by (rule run_inv)

end

end
