(* ===== verification/ApiTypes.thy ===== *)
theory ApiTypes
  imports Prelude
begin

text \<open>
  The wire types of the generated API client (app/src/api/client/api.ts) that the modelled
  components read. Each interface is a record; an optional property is an \<open>option\<close>, and the
  fields carry a prefix because record fields are global constants.
\<close>

record ModelDNSRequest =
  dr_dnssec :: "bool option"
  dr_domain :: "string option"
  dr_query_type :: "string option"
  dr_response_code :: "string option"

record ModelQueryLog =
  ql_client_ip :: "string option"
  ql_device_id :: "string option"
  ql_dns_request :: "ModelDNSRequest option"
  ql_id :: "string option"
  ql_outcome :: "string option"
  ql_profile_id :: "string option"
  ql_protocol :: "string option"
  ql_reasons :: "string list option"
  ql_status :: "string option"
  ql_timestamp :: "string option"

text \<open>Optional chaining through \<open>log.dns_request?.field\<close>.\<close>

definition dns_field :: "(ModelDNSRequest \<Rightarrow> string option) \<Rightarrow> ModelQueryLog \<Rightarrow> string option" where
  "dns_field f l = Option.bind (ql_dns_request l) f"

lemma dns_field_simps [simp]:
  "ql_dns_request l = None \<Longrightarrow> dns_field f l = None"
  "ql_dns_request l = Some r \<Longrightarrow> dns_field f l = f r"
  by (simp_all add: dns_field_def)

subsection \<open>Profiles\<close>

text \<open>
  A property the app reads through optional chaining or with a default is an \<open>option\<close> here even
  where the generated type requires it: the code is prepared for its absence.
\<close>

record ModelStatisticsSettings =
  ss_enabled :: "bool option"
  ss_enabled_at :: "string option"
  ss_history_deleted_at :: "string option"
  ss_retention :: "string option"

record ModelLogsSettings =
  ls_enabled :: "bool option"
  ls_log_clients_ips :: "bool option"
  ls_log_domains :: "bool option"
  ls_retention :: "string option"

record ModelPrivacy =
  pv_blocklists :: "string list option"
  pv_blocklists_subdomains_rule :: string
  pv_custom_rules_subdomains_rule :: "string option"
  pv_default_rule :: string
  pv_services :: "string list option"

record ModelDNSSECSettings =
  ds_enabled :: bool
  ds_send_do_bit :: bool

record ModelRebindingProtection =
  rp_enabled :: "bool option"

record ModelSecurity =
  sc_dnssec :: ModelDNSSECSettings
  sc_rebinding_protection :: "ModelRebindingProtection option"

record ModelAdvanced =
  ad_recursor :: string

record ModelCustomRule =
  cr_action :: string
  cr_group :: "string option"
  cr_id :: string
  cr_note :: "string option"
  cr_order :: "int option"
  cr_value :: string

record ModelCustomRuleGroup =
  cg_comment :: "string option"
  cg_name :: string

record ModelCustomRuleGroups =
  gs_allow :: "ModelCustomRuleGroup list option"
  gs_block :: "ModelCustomRuleGroup list option"

record ModelProfileSettings =
  ps_advanced :: ModelAdvanced
  ps_custom_rule_groups :: "ModelCustomRuleGroups option"
  ps_custom_rules :: "ModelCustomRule list option"
  ps_logs :: "ModelLogsSettings option"
  ps_privacy :: ModelPrivacy
  ps_profile_id :: string
  ps_security :: ModelSecurity
  ps_statistics :: "ModelStatisticsSettings option"

record ModelProfile =
  pf_account_id :: string
  pf_id :: string
  pf_name :: string
  pf_profile_id :: string
  pf_settings :: "ModelProfileSettings option"

text \<open>One operation of a PATCH on a profile. The value is a boolean or a string.\<close>

datatype ModelProfileUpdateOperationEnum = OpRemove | OpAdd | OpReplace | OpMove | OpCopy

datatype ModelProfileUpdatePathEnum =
    Name | SettingsStatisticsEnabled | SettingsStatisticsRetention | SettingsLogsEnabled
  | SettingsLogsLogClientsIps | SettingsLogsLogDomains | SettingsLogsRetention
  | SettingsPrivacyDefaultRule | SettingsPrivacyBlocklistsSubdomainsRule
  | SettingsPrivacyCustomRulesSubdomainsRule | SettingsSecurityDnssecEnabled
  | SettingsSecurityDnssecSendDoBit | SettingsSecurityRebindingProtectionEnabled
  | SettingsAdvancedRecursor

datatype update_value = VBool bool | VStr string

record ModelProfileUpdate =
  pu_operation :: ModelProfileUpdateOperationEnum
  pu_path :: ModelProfileUpdatePathEnum
  pu_value :: update_value

subsection \<open>Exports\<close>

record ModelExportedAdvanced =
  ea_recursor :: "string option"

record ModelExportedDNSSEC =
  ed_enabled :: "bool option"
  ed_sendDoBit :: "bool option"

record ModelExportedLogs =
  el_enabled :: "bool option"
  el_logClientsIPs :: "bool option"
  el_logDomains :: "bool option"
  el_retention :: "string option"

record ModelExportedPrivacy =
  ev_blocklists :: "string list"
  ev_blocklistsSubdomainsRule :: "string option"
  ev_customRulesSubdomainsRule :: "string option"
  ev_defaultRule :: "string option"
  ev_services :: "string list"

record ModelExportedRebindingProtection =
  eb_enabled :: "bool option"

record ModelExportedSecurity =
  ex_dnssec :: "ModelExportedDNSSEC option"
  ex_rebindingProtection :: "ModelExportedRebindingProtection option"

record ModelExportedStatistics =
  et_enabled :: "bool option"

record ModelExportedCustomRule =
  er_action :: string
  er_group :: "string option"
  er_note :: "string option"
  er_value :: string

record ModelExportedSettings =
  es_advanced :: "ModelExportedAdvanced option"
  es_customRuleGroups :: "ModelCustomRuleGroups option"
  es_customRules :: "ModelExportedCustomRule list option"
  es_logs :: "ModelExportedLogs option"
  es_privacy :: "ModelExportedPrivacy option"
  es_security :: "ModelExportedSecurity option"
  es_statistics :: "ModelExportedStatistics option"

record ModelExportedProfile =
  ep_comment :: "string option"
  ep_name :: string
  ep_settings :: "ModelExportedSettings option"

record ModelExportEnvelope =
  ee_exportedAt :: string
  ee_kind :: string
  ee_profiles :: "ModelExportedProfile list"
  ee_schemaVersion :: int

record RequestsImportRequest =
  ir_current_password :: "string option"
  ir_mode :: string
  ir_payload :: ModelExportEnvelope
  ir_reauth_token :: "string option"

record ProfileImportResult =
  pi_createdProfileIds :: "string list option"
  pi_createdProfileNames :: "string list option"
  pi_warnings :: "string list option"

record RequestsExportRequest =
  xr_current_password :: "string option"
  xr_profile_ids :: "string list option"
  xr_reauth_token :: "string option"
  xr_scope :: string

subsection \<open>Accounts and subscriptions\<close>

record ModelSubscription =
  sb_active_until :: "string option"
  sb_deletion_scheduled_at :: "string option"
  sb_outage :: "bool option"
  sb_status :: "string option"
  sb_tier :: "string option"
  sb_type :: "string option"
  sb_updated_at :: "string option"

record ModelAccount =
  ac_auth_methods :: "string list option"
  ac_email :: "string option"
  ac_email_verified :: "bool option"
  ac_error_reports_consent :: "bool option"
  ac_id :: "string option"
  ac_totp_enabled :: "bool option"
  ac_profiles :: "string list option"

record ModelCredential =
  cd_created_at :: "string option"
  cd_id :: "string option"

subsection \<open>Statistics\<close>

text \<open>Counts are whole numbers on the wire.\<close>

record ModelStatisticsDevice =
  sd_blocked :: "int option"
  sd_device_id :: "string option"
  sd_total :: "int option"

record ModelStatisticsPoint =
  sp_blocked :: "int option"
  sp_dnssec :: "int option"
  sp_total :: "int option"
  sp_ts :: "string option"

record ModelStatisticsProtocols =
  pr_doh :: "int option"
  pr_doq :: "int option"
  pr_dot :: "int option"

record ModelStatisticsReasons =
  re_blocklist :: "int option"
  re_custom_rule :: "int option"
  re_default_rule :: "int option"
  re_other :: "int option"
  re_rebinding :: "int option"
  re_service :: "int option"

record ModelStatisticsTotals =
  to_blocked :: "int option"
  to_dnssec :: "int option"
  to_total :: "int option"

record ModelStatisticsResponse =
  sr_bucket_seconds :: "int option"
  sr_devices :: "ModelStatisticsDevice list option"
  sr_enabled :: "bool option"
  sr_enabled_at :: "string option"
  sr_from :: "string option"
  sr_history_deleted_at :: "string option"
  sr_protocols :: "ModelStatisticsProtocols option"
  sr_reasons :: "ModelStatisticsReasons option"
  sr_retention :: "string option"
  sr_series :: "ModelStatisticsPoint list option"
  sr_timespan :: "string option"
  sr_to :: "string option"
  sr_totals :: "ModelStatisticsTotals option"

subsection \<open>Blocklists\<close>

record ModelBlocklist =
  bl_blocklist_id :: string
  bl_category :: "string option"
  bl_default :: "bool option"
  bl_description :: string
  bl_entries :: "int option"
  bl_homepage :: "string option"
  bl_id :: "string option"
  bl_intensity :: "string list option"
  bl_kind :: "string option"
  bl_last_modified :: "string option"
  bl_name :: string
  bl_source_url :: "string option"
  bl_tags :: "string list option"
  bl_type :: "string option"

end
