(* ===== verification/JsDate.thy ===== *)
theory JsDate
  imports Prelude
begin

text \<open>
  The part of the JavaScript \<open>Date\<close> object the app uses. A time value is the number of
  milliseconds since the epoch, as an \<^typ>\<open>int\<close>; NaN and \<open>null\<close> are \<open>None\<close>. The UTC calendar is the
  proleptic Gregorian one of the language standard. The local clock depends on the host's time
  zone, so it is a function \<open>tz\<close> from an instant to its offset from UTC in minutes.

  \<open>iso_parse\<close> is \<open>Date.parse\<close> on the date-time strings the API sends (RFC 3339 with \<open>Z\<close> or a
  numeric offset, any number of fraction digits, of which the first three count). On other
  text \<open>Date.parse\<close> is up to the host, so the components take the whole parser as a parameter.
\<close>

type_synonym time_parser = "string \<Rightarrow> int option"

abbreviation MS_PER_DAY :: int where
  "MS_PER_DAY \<equiv> 86400000"

definition days_from_civil :: "int \<Rightarrow> int \<Rightarrow> int \<Rightarrow> int" where
  "days_from_civil y m d =
     (let y' = (if m \<le> 2 then y - 1 else y);
          era = y' div 400;
          yoe = y' - era * 400;
          mp = (m + 9) mod 12;
          doy = (153 * mp + 2) div 5 + d - 1;
          doe = yoe * 365 + yoe div 4 - yoe div 100 + doy
      in era * 146097 + doe - 719468)"

definition civil_from_days :: "int \<Rightarrow> int \<times> int \<times> int" where
  "civil_from_days z =
     (let z' = z + 719468;
          era = z' div 146097;
          doe = z' mod 146097;
          yoe = (doe - doe div 1460 + doe div 36524 - doe div 146096) div 365;
          doy = doe - (365 * yoe + yoe div 4 - yoe div 100);
          mp = (5 * doy + 2) div 153;
          d = doy - (153 * mp + 2) div 5 + 1;
          m = (if mp < 10 then mp + 3 else mp - 9);
          y = yoe + era * 400
      in (if m \<le> 2 then y + 1 else y, m, d))"

definition day_of :: "int \<Rightarrow> int" where
  "day_of ms = ms div MS_PER_DAY"

definition utc_year :: "int \<Rightarrow> int" where
  "utc_year ms = fst (civil_from_days (day_of ms))"

definition utc_month :: "int \<Rightarrow> int" where
  "utc_month ms = fst (snd (civil_from_days (day_of ms)))"

definition utc_date :: "int \<Rightarrow> int" where
  "utc_date ms = snd (snd (civil_from_days (day_of ms)))"

definition utc_day :: "int \<Rightarrow> int" where
  "utc_day ms = (day_of ms + 4) mod 7"

text \<open>The local clock: minutes since local midnight, and the local day an instant falls on.\<close>

type_synonym time_zone = "int \<Rightarrow> int"

definition local_ms :: "time_zone \<Rightarrow> int \<Rightarrow> int" where
  "local_ms tz ms = ms + tz ms * 60000"

definition local_minutes :: "time_zone \<Rightarrow> int \<Rightarrow> int" where
  "local_minutes tz ms = (local_ms tz ms mod MS_PER_DAY) div 60000"

definition local_day :: "time_zone \<Rightarrow> int \<Rightarrow> int" where
  "local_day tz ms = day_of (local_ms tz ms)"

lemma local_minutes_range: "0 \<le> local_minutes tz ms \<and> local_minutes tz ms < 1440"
proof -
  have "0 \<le> local_ms tz ms mod MS_PER_DAY" "local_ms tz ms mod MS_PER_DAY < MS_PER_DAY" by simp_all
  then show ?thesis unfolding local_minutes_def by linarith
qed

lemma utc_day_range: "0 \<le> utc_day ms \<and> utc_day ms < 7"
  by (simp add: utc_day_def)

subsection \<open>ISO date-time text\<close>

definition is_digit :: "char \<Rightarrow> bool" where
  "is_digit c = (let n = of_char c :: nat in 48 \<le> n \<and> n \<le> 57)"

definition digit_val :: "char \<Rightarrow> int" where
  "digit_val c = int (of_char c) - 48"

definition num_of :: "string \<Rightarrow> int" where
  "num_of s = foldl (\<lambda>a c. 10 * a + digit_val c) 0 s"

definition digits_at :: "nat \<Rightarrow> nat \<Rightarrow> string \<Rightarrow> int option" where
  "digits_at i n s =
     (let p = take n (drop i s)
      in if length p = n \<and> list_all is_digit p then Some (num_of p) else None)"

definition char_at :: "nat \<Rightarrow> string \<Rightarrow> char option" where
  "char_at i s = (if i < length s then Some (s ! i) else None)"

definition iso_offset :: "string \<Rightarrow> int option" where
  "iso_offset s =
     (if s = ''Z'' then Some 0
      else if length s = 6 \<and> char_at 3 s = Some (CHR '':'') then
        (case (digits_at 1 2 s, digits_at 4 2 s) of
          (Some h, Some m) \<Rightarrow>
            if h < 24 \<and> m < 60 then
              (if char_at 0 s = Some (CHR ''+'') then Some (60 * h + m)
               else if char_at 0 s = Some (CHR ''-'') then Some (- (60 * h + m))
               else None)
            else None
        | _ \<Rightarrow> None)
      else None)"

definition iso_millis :: "string \<Rightarrow> int" where
  "iso_millis ds = num_of (take 3 (ds @ ''000''))"

definition iso_fraction :: "string \<Rightarrow> (int \<times> string) option" where
  "iso_fraction s =
     (case s of
        CHR ''.'' # r \<Rightarrow>
          (let ds = takeWhile is_digit r
           in if ds = [] then None else Some (iso_millis ds, dropWhile is_digit r))
      | _ \<Rightarrow> Some (0, s))"

definition iso_parse :: time_parser where
  "iso_parse s =
     (if char_at 4 s = Some (CHR ''-'') \<and> char_at 7 s = Some (CHR ''-'')
         \<and> char_at 10 s = Some (CHR ''T'') \<and> char_at 13 s = Some (CHR '':'')
         \<and> char_at 16 s = Some (CHR '':'') then
        (case (digits_at 0 4 s, digits_at 5 2 s, digits_at 8 2 s,
               digits_at 11 2 s, digits_at 14 2 s, digits_at 17 2 s) of
          (Some y, Some mo, Some d, Some h, Some mi, Some sec) \<Rightarrow>
            (case iso_fraction (drop 19 s) of
              Some (ms, z) \<Rightarrow>
                (case iso_offset z of
                  Some off \<Rightarrow>
                    if 1 \<le> mo \<and> mo \<le> 12 \<and> 1 \<le> d \<and> d \<le> 31 \<and> h < 24 \<and> mi < 60 \<and> sec < 60
                    then Some ((days_from_civil y mo d * 86400 + h * 3600 + mi * 60 + sec) * 1000
                               + ms - off * 60000)
                    else None
                | None \<Rightarrow> None)
            | None \<Rightarrow> None)
        | _ \<Rightarrow> None)
      else None)"

end
