(* ===== verification/ConsolidateLogs.thy ===== *)
theory ConsolidateLogs
  imports ApiTypes JsDate "HOL-Library.Word"
begin

text \<open>
  app/src/lib/consolidateLogs.ts: runs of adjacent duplicate query-log entries are merged into
  groups for display. The theory models every function of the file. The result is shown to be a
  partition of the log in order, with the run conditions of the source inside every group and
  maximal runs between groups, and its React keys are shown to be distinct.

  \<open>Date.parse\<close> is defined by the host outside the ISO format, so it is the parameter
  \<open>parse\<close> (\<open>None\<close> is NaN); every theorem holds for every parser.
\<close>

record ConsolidatedLogGroup =
  key :: string
  identity :: string
  representative :: ModelQueryLog
  count :: nat
  members :: "ModelQueryLog list"
  firstTimestamp :: "string option"
  lastTimestamp :: "string option"
  queryTypes :: "string list"
  responseCodes :: "string list"

definition strip_dot :: "string \<Rightarrow> string" where
  "strip_dot s = (if js_endsWith s ''.'' then butlast s else s)"

definition normalizeDomain :: "string option \<Rightarrow> string" where
  "normalizeDomain domain = strip_dot (js_toLowerCase (nullish domain ''''))"

definition MAX_GROUP_SPAN_MS :: int where
  "MAX_GROUP_SPAN_MS = 10000"

definition withinSpan :: "time_parser \<Rightarrow> string option \<Rightarrow> string option \<Rightarrow> int \<Rightarrow> bool" where
  "withinSpan parse anchor ts maxMs =
     (if \<not> truthy_str anchor \<or> \<not> truthy_str ts then False
      else case (parse (the anchor), parse (the ts)) of
        (Some a, Some b) \<Rightarrow> \<bar>a - b\<bar> \<le> maxMs
      | _ \<Rightarrow> False)"

text \<open>The fields are joined by the NUL character (the literal in the source is that one byte).\<close>

abbreviation NUL :: char where
  "NUL \<equiv> CHR 0x00"

definition signature :: "ModelQueryLog \<Rightarrow> string" where
  "signature log =
     js_join [NUL]
       [normalizeDomain (dns_field dr_domain log),
        nullish (ql_status log) '''',
        nullish (ql_device_id log) '''',
        nullish (ql_client_ip log) '''',
        nullish (ql_protocol log) '''']"

text \<open>The hash works on 32-bit integers: \<open>h << 5\<close>, the sums and \<open>| 0\<close> all wrap.\<close>

fun hash_loop :: "32 word \<Rightarrow> string \<Rightarrow> 32 word" where
  "hash_loop h [] = h"
| "hash_loop h (c # s) = hash_loop (push_bit 5 h + h + word_of_nat (of_char c)) s"

definition hashSignature :: "string \<Rightarrow> string" where
  "hashSignature sig = show_base 36 (unat (hash_loop 5381 sig))"

definition buildIdentity :: "ModelQueryLog \<Rightarrow> string \<Rightarrow> string" where
  "buildIdentity rep sig =
     nullish (ql_profile_id rep) '''' @ ''-'' @ nullish (ql_timestamp rep) '''' @ ''-''
       @ hashSignature sig"

definition buildKey :: "ModelQueryLog \<Rightarrow> string \<Rightarrow> nat \<Rightarrow> string" where
  "buildKey rep sig startIndex = buildIdentity rep sig @ ''-'' @ show_nat startIndex"

fun uniqueInOrder_loop :: "string list \<Rightarrow> string list \<Rightarrow> string option list \<Rightarrow> string list" where
  "uniqueInOrder_loop seen out [] = out"
| "uniqueInOrder_loop seen out (v # vs) =
     (if truthy_str v \<and> the v \<notin> set seen
      then uniqueInOrder_loop (the v # seen) (out @ [the v]) vs
      else uniqueInOrder_loop seen out vs)"

definition uniqueInOrder :: "string option list \<Rightarrow> string list" where
  "uniqueInOrder values = uniqueInOrder_loop [] [] values"

text \<open>\<open>finalize\<close> reads \<open>members[0]\<close>; its callers pass non-empty runs only (\<open>run_wf\<close> below).\<close>

definition finalize :: "ModelQueryLog list \<Rightarrow> string \<Rightarrow> nat \<Rightarrow> ConsolidatedLogGroup" where
  "finalize ms sig startIndex =
     \<lparr>key = buildKey (hd ms) sig startIndex,
      identity = buildIdentity (hd ms) sig,
      representative = hd ms,
      count = length ms,
      members = ms,
      firstTimestamp = ql_timestamp (hd ms),
      lastTimestamp = ql_timestamp (last ms),
      queryTypes = uniqueInOrder (map (dns_field dr_query_type) ms),
      responseCodes = uniqueInOrder (map (dns_field dr_response_code) ms)\<rparr>"

text \<open>The loop variables of \<open>consolidateLogs\<close>.\<close>

record run_state =
  groups :: "ConsolidatedLogGroup list"
  run_members :: "ModelQueryLog list"
  currentSig :: "string option"
  startIndex :: nat

definition flush :: "run_state \<Rightarrow> ConsolidatedLogGroup list" where
  "flush st =
     (if run_members st \<noteq> []
      then groups st @ [finalize (run_members st) (nullish (currentSig st) '''') (startIndex st)]
      else groups st)"

definition consolidate_step ::
  "time_parser \<Rightarrow> int \<Rightarrow> run_state \<Rightarrow> nat \<times> ModelQueryLog \<Rightarrow> run_state" where
  "consolidate_step parse maxMs st entry =
     (let i = fst entry; log = snd entry; sig = signature log in
      if currentSig st \<noteq> None \<and> Some sig = currentSig st
         \<and> withinSpan parse
             (if run_members st = [] then None else ql_timestamp (hd (run_members st)))
             (ql_timestamp log) maxMs
      then st\<lparr>run_members := run_members st @ [log]\<rparr>
      else \<lparr>groups = flush st, run_members = [log], currentSig = Some sig, startIndex = i\<rparr>)"

definition init_run :: run_state where
  "init_run = \<lparr>groups = [], run_members = [], currentSig = None, startIndex = 0\<rparr>"

definition consolidateLogs :: "time_parser \<Rightarrow> ModelQueryLog list \<Rightarrow> int \<Rightarrow> ConsolidatedLogGroup list" where
  "consolidateLogs parse logs maxGroupSpanMs =
     flush (foldl (consolidate_step parse maxGroupSpanMs) init_run (enumerate 0 logs))"

definition toSingletonGroup :: "ModelQueryLog \<Rightarrow> nat \<Rightarrow> ConsolidatedLogGroup" where
  "toSingletonGroup log index = finalize [log] (signature log) index"

subsection \<open>The order-preserving set of values\<close>

lemma uniqueInOrder_loop_eq:
  "uniqueInOrder_loop seen out vs = out @ dedup_by (\<lambda>x. x) seen (map the (filter truthy_str vs))"
  by (induction seen out vs rule: uniqueInOrder_loop.induct) auto

lemma uniqueInOrder_eq:
  "uniqueInOrder vs = dedup_by (\<lambda>x. x) [] (map the (filter truthy_str vs))"
  by (simp add: uniqueInOrder_def uniqueInOrder_loop_eq)

lemma uniqueInOrder_distinct: "distinct (uniqueInOrder vs)"
  by (simp add: uniqueInOrder_eq dedup_by_id_distinct)

lemma uniqueInOrder_set: "set (uniqueInOrder vs) = {s. Some s \<in> set vs \<and> s \<noteq> []}"
proof -
  have "the ` {v \<in> set vs. truthy_str v} = {s. Some s \<in> set vs \<and> s \<noteq> []}"
    by (force simp: truthy_str_def split: option.splits)
  then show ?thesis by (simp add: uniqueInOrder_eq dedup_by_id_set)
qed

subsection \<open>The loop against its reference definition\<close>

definition same_run :: "time_parser \<Rightarrow> int \<Rightarrow> ModelQueryLog \<Rightarrow> ModelQueryLog \<Rightarrow> bool" where
  "same_run parse maxMs a b =
     (signature b = signature a \<and> withinSpan parse (ql_timestamp a) (ql_timestamp b) maxMs)"

fun finalize_runs :: "nat \<Rightarrow> ModelQueryLog list list \<Rightarrow> ConsolidatedLogGroup list" where
  "finalize_runs i [] = []"
| "finalize_runs i (r # rs) = finalize r (signature (hd r)) i # finalize_runs (i + length r) rs"

lemma finalize_fields [simp]:
  "members (finalize ms sig i) = ms" "representative (finalize ms sig i) = hd ms"
  "count (finalize ms sig i) = length ms"
  "queryTypes (finalize ms sig i) = uniqueInOrder (map (dns_field dr_query_type) ms)"
  "responseCodes (finalize ms sig i) = uniqueInOrder (map (dns_field dr_response_code) ms)"
  by (simp_all add: finalize_def)

lemma members_finalize_runs [simp]: "map members (finalize_runs i rs) = rs"
  by (induction rs arbitrary: i) simp_all

lemma length_finalize_runs [simp]: "length (finalize_runs i rs) = length rs"
  by (induction rs arbitrary: i) simp_all

lemma consolidate_step_open:
  "consolidate_step parse m
     \<lparr>groups = gs, run_members = x # ys, currentSig = Some (signature x), startIndex = i\<rparr> (n, l) =
   (if same_run parse m x l
    then \<lparr>groups = gs, run_members = x # ys @ [l], currentSig = Some (signature x), startIndex = i\<rparr>
    else \<lparr>groups = gs @ [finalize (x # ys) (signature x) i], run_members = [l],
          currentSig = Some (signature l), startIndex = n\<rparr>)"
  by (auto simp: consolidate_step_def same_run_def flush_def Let_def)

text \<open>
  With a run \<open>x # ys\<close> open, the rest of the loop extends it by the entries that belong to \<open>x\<close>'s
  run and cuts what remains from there.
\<close>

lemma consolidate_open_run:
  assumes "n = i + length (x # ys)"
  shows "flush (foldl (consolidate_step parse m)
           \<lparr>groups = gs, run_members = x # ys, currentSig = Some (signature x), startIndex = i\<rparr>
           (enumerate n logs)) =
         gs @ finalize_runs i
           ((x # ys @ takeWhile (same_run parse m x) logs)
             # split_runs (same_run parse m) (dropWhile (same_run parse m x) logs))"
  using assms
proof (induction logs arbitrary: n i x ys gs)
  case Nil
  then show ?case by (simp add: flush_def)
next
  case (Cons l logs)
  show ?case
  proof (cases "same_run parse m x l")
    case True
    with Cons.IH [of "Suc n" i x "ys @ [l]" gs] Cons.prems show ?thesis
      by (simp add: consolidate_step_open)
  next
    case False
    with Cons.IH [of "Suc n" n l "[]"] Cons.prems show ?thesis
      by (simp add: consolidate_step_open)
  qed
qed

lemma consolidateLogs_eq_runs:
  "consolidateLogs parse logs m = finalize_runs 0 (split_runs (same_run parse m) logs)"
proof (cases logs)
  case Nil
  then show ?thesis by (simp add: consolidateLogs_def init_run_def flush_def)
next
  case (Cons l ls)
  then have "consolidateLogs parse logs m =
      flush (foldl (consolidate_step parse m)
        \<lparr>groups = [], run_members = [l], currentSig = Some (signature l), startIndex = 0\<rparr>
        (enumerate 1 ls))"
    by (simp add: consolidateLogs_def init_run_def flush_def consolidate_step_def)
  with consolidate_open_run [of 1 0 l "[]" parse m "[]" ls] Cons show ?thesis by simp
qed

lemma consolidateLogs_members:
  "map members (consolidateLogs parse logs m) = split_runs (same_run parse m) logs"
  by (simp add: consolidateLogs_eq_runs)

subsection \<open>What a grouping promises the log page\<close>

text \<open>
  The log page shows a list of groups. It relies on two facts: the groups' members, in order, are
  the fetched log, and no group is empty. Both groupings the page uses provide them.
\<close>

locale log_grouping =
  fixes grp :: "'l list \<Rightarrow> 'g list"
    and mem :: "'g \<Rightarrow> 'l list"
  assumes mem_concat: "concat (map mem (grp xs)) = xs"
    and mem_nonempty: "g \<in> set (grp xs) \<Longrightarrow> mem g \<noteq> []"
begin

lemma rows_shown: "sum_list (map (\<lambda>g. length (mem g)) (grp xs)) = length xs"
  using arg_cong [OF mem_concat, of length] by (simp add: length_concat comp_def)

lemma no_more_groups_than_rows: "length (grp xs) \<le> length xs"
proof -
  have "length gs \<le> sum_list (map (\<lambda>g. length (mem g)) gs)" if "\<forall>g \<in> set gs. mem g \<noteq> []" for gs
    using that
  proof (induction gs)
    case (Cons g gs)
    then have "0 < length (mem g)" and "length gs \<le> sum_list (map (\<lambda>g. length (mem g)) gs)"
      by auto
    then show ?case unfolding list.map sum_list.Cons list.size by linarith
  qed simp
  with mem_nonempty rows_shown show ?thesis by metis
qed

lemma row_in_some_group: "x \<in> set xs \<longleftrightarrow> (\<exists>g \<in> set (grp xs). x \<in> set (mem g))"
  using arg_cong [OF mem_concat, of set] by auto

end

lemma concat_members: "concat (map members (consolidateLogs parse logs m)) = logs"
  by (simp add: consolidateLogs_members split_runs_concat)

lemma members_nonempty: "g \<in> set (consolidateLogs parse logs m) \<Longrightarrow> members g \<noteq> []"
  using split_runs_nonempty [of "members g" "same_run parse m" logs]
  by (metis consolidateLogs_members imageI image_set)

interpretation consolidated: log_grouping "\<lambda>logs. consolidateLogs parse logs m" members
  by unfold_locales (auto simp: concat_members dest: members_nonempty)

lemma concat_singletons:
  "length is = length logs \<Longrightarrow> concat (map members (map2 toSingletonGroup logs is)) = logs"
  by (induction logs "is" rule: list_induct2') (simp_all add: toSingletonGroup_def)

interpretation singletons:
  log_grouping "\<lambda>logs. map2 toSingletonGroup logs [0..<length logs]" members
  by unfold_locales
    (rule concat_singletons, simp, force simp: toSingletonGroup_def)

subsection \<open>Identity of a run\<close>

lemma signature_fields:
  "signature l =
     normalizeDomain (dns_field dr_domain l) @ NUL # nullish (ql_status l) '''' @ NUL #
     (nullish (ql_device_id l) '''' @ NUL # nullish (ql_client_ip l) '''') @ NUL #
     nullish (ql_protocol l) ''''"
  by (simp add: signature_def)

definition no_nul :: "string option \<Rightarrow> bool" where
  "no_nul v = (NUL \<notin> set (nullish v ''''))"

lemma js_lower_char_nul [simp]: "js_lower_char c = NUL \<longleftrightarrow> c = NUL"
proof
  assume "js_lower_char c = NUL"
  then have "(of_char (js_lower_char c) :: nat) = of_char (NUL)" by simp
  then have "(of_char c :: nat) = of_char (NUL)"
    by (auto simp: of_char_js_lower Let_def split: if_splits)
  then show "c = NUL" using of_char_eq_iff by blast
qed (simp add: js_lower_char_def)

lemma nul_normalizeDomain: "no_nul d \<Longrightarrow> NUL \<notin> set (normalizeDomain d)"
proof -
  assume "no_nul d"
  then have "NUL \<notin> js_lower_char ` set (nullish d '''')"
    by (metis imageE js_lower_char_nul no_nul_def)
  moreover have "set (strip_dot s) \<subseteq> set s" for s :: string
    by (auto simp: strip_dot_def dest: in_set_butlastD)
  ultimately show ?thesis
    unfolding normalizeDomain_def js_toLowerCase_def by (metis list.set_map subsetD)
qed

subsection \<open>Indices and keys\<close>

lemma finalize_key [simp]: "key (finalize ms sig i) = buildIdentity (hd ms) sig @ ''-'' @ show_nat i"
  by (simp add: finalize_def buildKey_def)

lemma key_inj: "a @ ''-'' @ show_nat i = b @ ''-'' @ show_nat j \<Longrightarrow> i = j"
  using last_sep_inj [of "CHR ''-''" "show_nat i" "show_nat j" a b] show_base_no_dash [of 10]
  by auto

lemma finalize_runs_key_index:
  assumes "g \<in> set (finalize_runs i rs)" "\<forall>r \<in> set rs. r \<noteq> []"
  shows "\<exists>a j. key g = a @ ''-'' @ show_nat j \<and> i \<le> j"
  using assms
proof (induction rs arbitrary: i)
  case (Cons r rs)
  show ?case
  proof (cases "g \<in> set (finalize_runs (i + length r) rs)")
    case True
    with Cons obtain a j where "key g = a @ ''-'' @ show_nat j" "i + length r \<le> j" by force
    then show ?thesis by (metis add_leE)
  next
    case False
    with Cons.prems show ?thesis by auto
  qed
qed simp

lemma finalize_runs_keys_distinct:
  "\<forall>r \<in> set rs. r \<noteq> [] \<Longrightarrow> distinct (map key (finalize_runs i rs))"
proof (induction rs arbitrary: i)
  case (Cons r rs)
  let ?k = "buildIdentity (hd r) (signature (hd r)) @ ''-'' @ show_nat i"
  have "?k \<notin> key ` set (finalize_runs (i + length r) rs)"
  proof
    assume "?k \<in> key ` set (finalize_runs (i + length r) rs)"
    then obtain g where "g \<in> set (finalize_runs (i + length r) rs)" and "key g = ?k" by auto
    with finalize_runs_key_index [OF this(1)] Cons.prems
    obtain a j where "a @ ''-'' @ show_nat j = ?k" "i + length r \<le> j" by auto
    moreover have "0 < length r" using Cons.prems by simp
    ultimately show False using key_inj [of a j _ i] by simp
  qed
  with Cons show ?case by simp
qed simp

subsection \<open>Properties\<close>

lemma consolidated_group_fields:
  assumes "g \<in> set (consolidateLogs parse logs m)"
  obtains i where "g = finalize (members g) (signature (hd (members g))) i"
    and "members g \<in> set (split_runs (same_run parse m) logs)"
proof -
  have "g \<in> set (finalize_runs i rs) \<Longrightarrow>
      \<exists>j. g = finalize (members g) (signature (hd (members g))) j \<and> members g \<in> set rs" for i rs
    by (induction rs arbitrary: i) auto
  with assms that show ?thesis by (metis consolidateLogs_eq_runs)
qed

text \<open>
  Property C13 (consolidateLogs_partition). Consolidation loses, duplicates and reorders nothing:
  the groups' members, concatenated, are the input log. Every group is non-empty, is represented
  by its first member, counts its members, and holds entries of one signature that all lie within
  the span of the representative.
\<close>

theorem consolidateLogs_partition:
  "concat (map members (consolidateLogs parse logs m)) = logs \<and>
   (\<forall>g \<in> set (consolidateLogs parse logs m).
      members g \<noteq> [] \<and> representative g = hd (members g) \<and> count g = length (members g) \<and>
      (\<forall>l \<in> set (members g). signature l = signature (representative g)) \<and>
      (\<forall>l \<in> set (tl (members g)).
         withinSpan parse (ql_timestamp (representative g)) (ql_timestamp l) m))"
proof (intro conjI ballI)
  show "concat (map members (consolidateLogs parse logs m)) = logs" by (rule concat_members)
  fix g assume g: "g \<in> set (consolidateLogs parse logs m)"
  then obtain i where f: "g = finalize (members g) (signature (hd (members g))) i"
    and r: "members g \<in> set (split_runs (same_run parse m) logs)"
    by (rule consolidated_group_fields)
  show ne: "members g \<noteq> []" using r by (rule split_runs_nonempty)
  show rep: "representative g = hd (members g)" by (subst f) simp
  show "count g = length (members g)" by (subst f) simp
  fix l
  show "signature l = signature (representative g)" if "l \<in> set (members g)"
    using that split_runs_related [OF r, of l] rep ne
    by (cases "members g") (auto simp: same_run_def)
  show "withinSpan parse (ql_timestamp (representative g)) (ql_timestamp l) m"
    if "l \<in> set (tl (members g))"
    using split_runs_related [OF r that] rep by (simp add: same_run_def)
qed

text \<open>
  Fact (consolidateLogs_maximal). Runs are as long as the rules allow: the first entry of
  each group after the first one has another signature than the group before it, or lies outside
  that group's time span.
\<close>

theorem consolidateLogs_maximal:
  assumes "Suc i < length (consolidateLogs parse logs m)"
  shows "signature (representative (consolidateLogs parse logs m ! Suc i))
           \<noteq> signature (representative (consolidateLogs parse logs m ! i)) \<or>
         \<not> withinSpan parse
            (ql_timestamp (representative (consolidateLogs parse logs m ! i)))
            (ql_timestamp (representative (consolidateLogs parse logs m ! Suc i))) m"
proof -
  let ?gs = "consolidateLogs parse logs m" and ?rs = "split_runs (same_run parse m) logs"
  have rep: "representative (?gs ! k) = hd (?rs ! k)" if "k < length ?gs" for k
  proof -
    from that have "?gs ! k \<in> set ?gs" by simp
    then obtain j where "?gs ! k = finalize (members (?gs ! k)) (signature (hd (members (?gs ! k)))) j"
      by (rule consolidated_group_fields)
    then have "representative (?gs ! k) = hd (members (?gs ! k))"
      by (metis finalize_fields(2))
    also have "members (?gs ! k) = ?rs ! k"
      using that by (simp add: consolidateLogs_members [symmetric])
    finally show ?thesis .
  qed
  have len: "length ?gs = length ?rs" by (simp add: consolidateLogs_eq_runs)
  have "\<not> same_run parse m (hd (?rs ! i)) (hd (?rs ! Suc i))"
    using assms len by (intro split_runs_maximal) simp
  then show ?thesis using rep [of i] rep [of "Suc i"] assms by (auto simp: same_run_def)
qed

text \<open>
  Fact (consolidateLogs_keys_distinct). The React keys of one consolidated list are
  pairwise distinct, whatever the hash of the signatures does, because each key ends in the index
  at which its run starts.
\<close>

theorem consolidateLogs_keys_distinct: "distinct (map key (consolidateLogs parse logs m))"
  unfolding consolidateLogs_eq_runs
  by (rule finalize_runs_keys_distinct) (auto dest: split_runs_nonempty)

text \<open>
  Fact (signature_injective). Two entries share a signature exactly when the normalised
  domain, status, device, client address and protocol agree, provided none of domain, status,
  address and protocol holds the NUL separator. Device identifiers, which the user chooses, need
  no such condition: whatever they hold, they cannot make two different entries merge.
\<close>

theorem signature_injective:
  assumes "no_nul (dns_field dr_domain a)" "no_nul (dns_field dr_domain b)"
    and "no_nul (ql_status a)" "no_nul (ql_status b)"
    and "no_nul (ql_client_ip a)" "no_nul (ql_client_ip b)"
    and "no_nul (ql_protocol a)" "no_nul (ql_protocol b)"
  shows "signature a = signature b \<longleftrightarrow>
     normalizeDomain (dns_field dr_domain a) = normalizeDomain (dns_field dr_domain b) \<and>
     nullish (ql_status a) '''' = nullish (ql_status b) '''' \<and>
     nullish (ql_device_id a) '''' = nullish (ql_device_id b) '''' \<and>
     nullish (ql_client_ip a) '''' = nullish (ql_client_ip b) '''' \<and>
     nullish (ql_protocol a) '''' = nullish (ql_protocol b) ''''" (is "?L \<longleftrightarrow> ?R")
proof
  let ?dom = "\<lambda>l. normalizeDomain (dns_field dr_domain l)" and ?st = "\<lambda>l. nullish (ql_status l) ''''"
    and ?dev = "\<lambda>l. nullish (ql_device_id l) ''''" and ?ip = "\<lambda>l. nullish (ql_client_ip l) ''''"
    and ?pr = "\<lambda>l. nullish (ql_protocol l) ''''"
  assume ?L
  then have e0: "?dom a @ NUL # ?st a @ NUL # (?dev a @ NUL # ?ip a) @ NUL # ?pr a =
             ?dom b @ NUL # ?st b @ NUL # (?dev b @ NUL # ?ip b) @ NUL # ?pr b"
    unfolding signature_fields .
  have d: "?dom a = ?dom b"
    and e1: "?st a @ NUL # (?dev a @ NUL # ?ip a) @ NUL # ?pr a =
             ?st b @ NUL # (?dev b @ NUL # ?ip b) @ NUL # ?pr b"
    using first_sep_inj [OF _ _ e0] assms(1,2) by (auto dest: nul_normalizeDomain)
  have s: "?st a = ?st b"
    and e2: "(?dev a @ NUL # ?ip a) @ NUL # ?pr a =
             (?dev b @ NUL # ?ip b) @ NUL # ?pr b"
    using first_sep_inj [OF _ _ e1] assms(3,4) by (auto simp: no_nul_def)
  have p: "?pr a = ?pr b" and e3: "?dev a @ NUL # ?ip a = ?dev b @ NUL # ?ip b"
    using last_sep_inj [OF _ _ e2] assms(7,8) by (auto simp: no_nul_def)
  have "?ip a = ?ip b" "?dev a = ?dev b"
    using last_sep_inj [OF _ _ e3] assms(5,6) by (auto simp: no_nul_def)
  with d s p show ?R by simp
qed (simp add: signature_def)

text \<open>
  Fact (group_columns). A group lists each query type and each response code of its
  members once, and no other.
\<close>

theorem group_columns:
  assumes "g \<in> set (consolidateLogs parse logs m)"
  shows "distinct (queryTypes g) \<and>
         set (queryTypes g) = {s. s \<noteq> [] \<and> (\<exists>l \<in> set (members g). dns_field dr_query_type l = Some s)} \<and>
         distinct (responseCodes g) \<and>
         set (responseCodes g) = {s. s \<noteq> [] \<and> (\<exists>l \<in> set (members g). dns_field dr_response_code l = Some s)}"
proof -
  from assms obtain i where f: "g = finalize (members g) (signature (hd (members g))) i"
    by (rule consolidated_group_fields)
  have q: "queryTypes g = uniqueInOrder (map (dns_field dr_query_type) (members g))"
    and r: "responseCodes g = uniqueInOrder (map (dns_field dr_response_code) (members g))"
    by (subst f, simp)+
  show ?thesis
    by (auto simp: q r uniqueInOrder_distinct uniqueInOrder_set image_iff intro: sym)
qed

subsection \<open>Witnesses\<close>

definition sample_log :: "string \<Rightarrow> string \<Rightarrow> string \<Rightarrow> ModelQueryLog" where
  "sample_log domain qtype ts =
     \<lparr>ql_client_ip = None, ql_device_id = Some ''kids tablet'',
      ql_dns_request = Some \<lparr>dr_dnssec = None, dr_domain = Some domain,
        dr_query_type = Some qtype, dr_response_code = Some ''NOERROR''\<rparr>,
      ql_id = None, ql_outcome = Some ''resolved'', ql_profile_id = Some ''p1'',
      ql_protocol = Some ''doh'', ql_reasons = None, ql_status = Some ''processed'',
      ql_timestamp = Some ts\<rparr>"

definition sample_logs :: "ModelQueryLog list" where
  "sample_logs =
     [sample_log ''Example.com.'' ''A'' ''2024-05-01T10:00:09Z'',
      sample_log ''example.com'' ''AAAA'' ''2024-05-01T10:00:08Z'',
      sample_log ''other.org'' ''A'' ''2024-05-01T10:00:07Z'',
      sample_log ''other.org'' ''A'' ''2024-05-01T09:00:00Z'']"

lemma sample_members:
  "split_runs (same_run iso_parse MAX_GROUP_SPAN_MS) sample_logs =
     [take 2 sample_logs, [sample_logs ! 2], [sample_logs ! 3]]"
  by code_simp

lemma sample_runs:
  "map count (consolidateLogs iso_parse sample_logs MAX_GROUP_SPAN_MS) = [2, 1, 1]"
  unfolding consolidateLogs_eq_runs sample_members by (simp add: sample_logs_def)

theorem consolidateLogs_partition_witness:
  "map count (consolidateLogs iso_parse sample_logs MAX_GROUP_SPAN_MS) = [2, 1, 1] \<and>
   concat (map members (consolidateLogs iso_parse sample_logs MAX_GROUP_SPAN_MS)) = sample_logs \<and>
   members (hd (consolidateLogs iso_parse sample_logs MAX_GROUP_SPAN_MS)) \<noteq> []"
proof -
  have "consolidateLogs iso_parse sample_logs MAX_GROUP_SPAN_MS \<noteq> []"
    using sample_runs by fastforce
  then show ?thesis
    using consolidateLogs_partition [of iso_parse sample_logs MAX_GROUP_SPAN_MS] sample_runs by simp
qed

theorem consolidateLogs_maximal_witness:
  "Suc 1 < length (consolidateLogs iso_parse sample_logs MAX_GROUP_SPAN_MS) \<and>
   (let gs = consolidateLogs iso_parse sample_logs MAX_GROUP_SPAN_MS in
    signature (representative (gs ! Suc 1)) \<noteq> signature (representative (gs ! 1)) \<or>
    \<not> withinSpan iso_parse (ql_timestamp (representative (gs ! 1)))
        (ql_timestamp (representative (gs ! Suc 1))) MAX_GROUP_SPAN_MS)"
proof -
  have "length (consolidateLogs iso_parse sample_logs MAX_GROUP_SPAN_MS) = 3"
    using arg_cong [OF sample_runs, of length] by simp
  then show ?thesis
    using consolidateLogs_maximal [of 1 iso_parse sample_logs MAX_GROUP_SPAN_MS]
    unfolding Let_def by simp
qed

theorem signature_injective_witness:
  "signature (sample_log ''Example.com.'' ''A'' ''1'') = signature (sample_log ''example.com'' ''AAAA'' ''2'')
   \<longleftrightarrow> normalizeDomain (Some ''Example.com.'') = normalizeDomain (Some ''example.com'')"
  using signature_injective
    [of "sample_log ''Example.com.'' ''A'' ''1''" "sample_log ''example.com'' ''AAAA'' ''2''"]
  by (simp add: sample_log_def no_nul_def)

theorem group_columns_witness:
  "set (queryTypes (hd (consolidateLogs iso_parse sample_logs MAX_GROUP_SPAN_MS))) = {''A'', ''AAAA''} \<and>
   distinct (queryTypes (hd (consolidateLogs iso_parse sample_logs MAX_GROUP_SPAN_MS)))"
proof -
  let ?g = "hd (consolidateLogs iso_parse sample_logs MAX_GROUP_SPAN_MS)"
  have "?g \<in> set (consolidateLogs iso_parse sample_logs MAX_GROUP_SPAN_MS)"
    using sample_runs by (intro list.set_sel(1)) fastforce
  moreover have "set (queryTypes ?g) = {''A'', ''AAAA''}"
    unfolding consolidateLogs_eq_runs sample_members
    by (simp add: sample_logs_def sample_log_def uniqueInOrder_def dns_field_def)
  ultimately show ?thesis using group_columns [THEN conjunct1] by simp
qed

end
