(* ===== verification/QueryLogsDiff.thy ===== *)
theory QueryLogsDiff
  imports ApiTypes
begin

text \<open>
  app/src/lib/queryLogsDiff.ts: the difference between a freshly fetched first page and the
  displayed log. Every function of the file is modelled; the theorems show that the loop finds
  exactly the prefix of unseen entries, and that against a server that only adds entries on top
  the difference is the set of entries added since the last fetch.
\<close>

definition OVERLAP_WINDOW :: nat where
  "OVERLAP_WINDOW = 150"

record QueryLogsDiff =
  newLogs :: "ModelQueryLog list"
  overlapFound :: bool

definition logIdentity :: "ModelQueryLog \<Rightarrow> string" where
  "logIdentity log =
     or_str (ql_id log)
       (js_join ''|''
         [nullish (ql_timestamp log) '''',
          nullish (dns_field dr_domain log) '''',
          nullish (dns_field dr_query_type log) '''',
          nullish (ql_status log) '''',
          nullish (ql_device_id log) '''',
          nullish (ql_client_ip log) '''',
          nullish (ql_protocol log) ''''])"

fun diff_loop :: "string set \<Rightarrow> ModelQueryLog list \<Rightarrow> ModelQueryLog list \<Rightarrow> QueryLogsDiff" where
  "diff_loop known acc [] = \<lparr>newLogs = acc, overlapFound = False\<rparr>"
| "diff_loop known acc (log # rest) =
     (if logIdentity log \<in> known then \<lparr>newLogs = acc, overlapFound = True\<rparr>
      else diff_loop known (acc @ [log]) rest)"

definition known_head :: "ModelQueryLog list \<Rightarrow> string set" where
  "known_head current = set (map logIdentity (take OVERLAP_WINDOW current))"

definition computeNewQueryLogs :: "ModelQueryLog list \<Rightarrow> ModelQueryLog list \<Rightarrow> QueryLogsDiff" where
  "computeNewQueryLogs fetched current = diff_loop (known_head current) [] fetched"

subsection \<open>The loop\<close>

lemma diff_loop_eq:
  "diff_loop known acc fetched =
     \<lparr>newLogs = acc @ takeWhile (\<lambda>l. logIdentity l \<notin> known) fetched,
      overlapFound = (\<exists>l \<in> set fetched. logIdentity l \<in> known)\<rparr>"
  by (induction fetched arbitrary: acc) auto

lemma newLogs_eq:
  "newLogs (computeNewQueryLogs fetched current) =
     takeWhile (\<lambda>l. logIdentity l \<notin> known_head current) fetched"
  by (simp add: computeNewQueryLogs_def diff_loop_eq)

lemma overlapFound_eq:
  "overlapFound (computeNewQueryLogs fetched current) \<longleftrightarrow>
     (\<exists>l \<in> set fetched. logIdentity l \<in> known_head current)"
  by (simp add: computeNewQueryLogs_def diff_loop_eq)

text \<open>An entry on top of the displayed list is known, an entry added above it is not.\<close>

lemma known_head_hd: "current \<noteq> [] \<Longrightarrow> logIdentity (hd current) \<in> known_head current"
  by (cases current) (auto simp: known_head_def OVERLAP_WINDOW_def take_Cons' )

lemma known_head_subset: "known_head (take k old) \<subseteq> set (map logIdentity old)"
  by (auto simp: known_head_def dest: in_set_takeD)

lemma takeWhile_take_stop:
  assumes "\<forall>x \<in> set xs. P x" and "ys \<noteq> [] \<Longrightarrow> \<not> P (hd ys)"
  shows "takeWhile P (take n (xs @ ys)) = take n xs"
proof -
  have "takeWhile P (take (n - length xs) ys) = []"
    using assms(2) by (cases ys; cases "n - length xs") auto
  moreover have "\<forall>x \<in> set (take n xs). P x" using assms(1) by (auto dest: in_set_takeD)
  ultimately show ?thesis by (simp add: takeWhile_append2)
qed

lemma diff_against_server:
  assumes "distinct (map logIdentity (added @ old))" and "current = take k old" and "current \<noteq> []"
    and "0 < limit"
  defines "d \<equiv> computeNewQueryLogs (take limit (added @ old)) current"
  shows "newLogs d = take limit added" and "overlapFound d \<longleftrightarrow> length added < limit"
proof -
  let ?P = "\<lambda>l. logIdentity l \<notin> known_head current"
  have added_new: "?P l" if "l \<in> set added" for l
    using that assms(1,2) known_head_subset [of k old] by auto
  have "old \<noteq> []" "hd old = hd current" using assms(2,3) by (cases old; cases k; simp)+
  then have old_known: "\<not> ?P (hd old)" using known_head_hd [OF assms(3)] by simp
  show "newLogs d = take limit added"
    unfolding d_def newLogs_eq using added_new old_known by (intro takeWhile_take_stop) auto
  show "overlapFound d \<longleftrightarrow> length added < limit"
  proof
    assume "overlapFound d"
    then have "\<exists>l \<in> set (take limit (added @ old)). \<not> ?P l" unfolding d_def overlapFound_eq by simp
    moreover have "limit \<le> length added \<Longrightarrow> set (take limit (added @ old)) \<subseteq> set added"
      by (simp add: set_take_subset)
    ultimately show "length added < limit" using added_new by (metis linorder_not_less subsetD)
  next
    assume "length added < limit"
    then have "hd old \<in> set (take limit (added @ old))"
      using \<open>old \<noteq> []\<close> by (cases old; cases "limit - length added") auto
    then show "overlapFound d" unfolding d_def overlapFound_eq using old_known by blast
  qed
qed

subsection \<open>Properties\<close>

text \<open>
  Fact (computeNewQueryLogs_prefix). The new entries are a prefix of the fetched page, none
  of them is known near the head of the displayed list, and when an overlap was found the entry
  right after the prefix is a known one. Without an overlap the whole page is new.
\<close>

theorem computeNewQueryLogs_prefix:
  fixes fetched current
  defines "d \<equiv> computeNewQueryLogs fetched current"
  shows "prefix (newLogs d) fetched \<and>
         (\<forall>l \<in> set (newLogs d). logIdentity l \<notin> known_head current) \<and>
         (overlapFound d \<longrightarrow>
            length (newLogs d) < length fetched \<and>
            logIdentity (fetched ! length (newLogs d)) \<in> known_head current) \<and>
         (\<not> overlapFound d \<longrightarrow> newLogs d = fetched)"
proof -
  let ?P = "\<lambda>l. logIdentity l \<notin> known_head current"
  have "newLogs d = takeWhile ?P fetched" by (simp add: d_def newLogs_eq)
  moreover have "overlapFound d \<longleftrightarrow> \<not> (\<forall>l \<in> set fetched. ?P l)" by (simp add: d_def overlapFound_eq)
  moreover have "takeWhile ?P fetched \<noteq> fetched \<Longrightarrow> length (takeWhile ?P fetched) < length fetched"
    by (metis length_takeWhile_le nat_less_le takeWhile_eq_take take_all)
  ultimately show ?thesis
    using nth_length_takeWhile [of ?P fetched] takeWhile_eq_all_conv [of ?P fetched]
    by (auto simp: takeWhile_is_prefix dest: set_takeWhileD)
qed

text \<open>
  Property C14 (pending_reconstructs_server). Let the displayed list be a non-empty head of the
  server's log as it was (\<open>old\<close>), and let the server have put \<open>added\<close> on top of it since, all
  identities being distinct. If fewer entries than a page were added, the difference is exactly
  \<open>added\<close>, an overlap is found, and prepending the difference gives a head of the server's log
  again. If a page or more was added, the whole page is new and no overlap is found.
\<close>

theorem pending_reconstructs_server:
  assumes "distinct (map logIdentity (added @ old))" and "current = take k old" and "current \<noteq> []"
    and "0 < limit"
  defines "d \<equiv> computeNewQueryLogs (take limit (added @ old)) current"
  shows "(length added < limit \<longrightarrow>
            newLogs d = added \<and> overlapFound d \<and>
            newLogs d @ current = take (length added + k) (added @ old)) \<and>
         (limit \<le> length added \<longrightarrow> newLogs d = take limit added \<and> \<not> overlapFound d)"
  using diff_against_server [OF assms(1-4)] assms(2) unfolding d_def by auto

subsection \<open>Witnesses\<close>

definition diff_log :: "string \<Rightarrow> ModelQueryLog" where
  "diff_log i =
     \<lparr>ql_client_ip = None, ql_device_id = None, ql_dns_request = None, ql_id = Some i,
      ql_outcome = None, ql_profile_id = None, ql_protocol = None, ql_reasons = None,
      ql_status = None, ql_timestamp = None\<rparr>"

theorem computeNewQueryLogs_prefix_witness:
  "overlapFound (computeNewQueryLogs [diff_log ''3'', diff_log ''2''] [diff_log ''2'', diff_log ''1'']) \<and>
   newLogs (computeNewQueryLogs [diff_log ''3'', diff_log ''2''] [diff_log ''2'', diff_log ''1''])
     = [diff_log ''3''] \<and>
   logIdentity (diff_log ''3'') \<notin> known_head [diff_log ''2'', diff_log ''1'']"
proof -
  let ?d = "computeNewQueryLogs [diff_log ''3'', diff_log ''2''] [diff_log ''2'', diff_log ''1'']"
  have "overlapFound ?d \<and> newLogs ?d = [diff_log ''3'']"
    by (simp add: computeNewQueryLogs_def known_head_def OVERLAP_WINDOW_def logIdentity_def diff_log_def)
  then show ?thesis
    using computeNewQueryLogs_prefix [of "[diff_log ''3'', diff_log ''2'']" "[diff_log ''2'', diff_log ''1'']"]
    by simp
qed

theorem pending_reconstructs_server_witness:
  "newLogs (computeNewQueryLogs (take 100 ([diff_log ''3''] @ [diff_log ''2'', diff_log ''1'']))
      (take 1 [diff_log ''2'', diff_log ''1''])) = [diff_log ''3'']"
  using pending_reconstructs_server
    [of "[diff_log ''3'']" "[diff_log ''2'', diff_log ''1'']" "[diff_log ''2'']" 1 100]
  by (simp add: logIdentity_def diff_log_def)

end
