(* ===== verification/LogsPage.thy ===== *)
theory LogsPage
  imports ConsolidateLogs QueryLogsDiff "HOL-Library.List_Lexorder" "HOL-Library.Char_ord"
begin

text \<open>
  The query-log page: app/src/pages/logs/Logs.tsx with the refresh intervals of
  app/src/lib/consts.ts and the age label of app/src/pages/logs/Filters.tsx.

  The page's \<open>useState\<close> and \<open>useRef\<close> cells are one record. Each handler and each effect is a
  function on it; a request is split at its \<open>await\<close> into the part that starts it and the part that
  receives the answer. The fetch effect's \<open>cancelled\<close> flag is the number of the newest fetch: an
  answer is applied only when it belongs to that fetch. The API side of the paging contract
  (api/api/query_logs.go, api/db/mongodb/query_logs.go) is modelled for the one thing the page
  relies on, the window of rows a page and a limit select.
\<close>

subsection \<open>Refresh intervals (consts.ts)\<close>

datatype RefreshIntervalKey = Off | Auto | Sec5 | Sec10 | Sec15 | Sec30 | Sec60

record RefreshIntervalOption =
  ri_key :: RefreshIntervalKey
  ri_label :: string
  ri_buttonLabel :: string
  ri_ms :: "int option"

definition QUERY_LOGS_REFRESH_INTERVALS :: "RefreshIntervalOption list" where
  "QUERY_LOGS_REFRESH_INTERVALS =
     [\<lparr>ri_key = Off, ri_label = ''Off'', ri_buttonLabel = '''', ri_ms = None\<rparr>,
      \<lparr>ri_key = Auto, ri_label = ''Auto (10s)'', ri_buttonLabel = ''Auto'', ri_ms = Some 10000\<rparr>,
      \<lparr>ri_key = Sec5, ri_label = ''5s'', ri_buttonLabel = ''5s'', ri_ms = Some 5000\<rparr>,
      \<lparr>ri_key = Sec10, ri_label = ''10s'', ri_buttonLabel = ''10s'', ri_ms = Some 10000\<rparr>,
      \<lparr>ri_key = Sec15, ri_label = ''15s'', ri_buttonLabel = ''15s'', ri_ms = Some 15000\<rparr>,
      \<lparr>ri_key = Sec30, ri_label = ''30s'', ri_buttonLabel = ''30s'', ri_ms = Some 30000\<rparr>,
      \<lparr>ri_key = Sec60, ri_label = ''60s'', ri_buttonLabel = ''60s'', ri_ms = Some 60000\<rparr>]"

definition refreshIntervalMsFor :: "RefreshIntervalKey \<Rightarrow> int option" where
  "refreshIntervalMsFor k =
     Option.bind (find (\<lambda>o'. ri_key o' = k) QUERY_LOGS_REFRESH_INTERVALS) ri_ms"

text \<open>The compact age of the last contact with the server (Filters.tsx).\<close>

definition formatAge :: "int \<Rightarrow> string" where
  "formatAge ms =
     (let seconds = max 0 (ms div 1000) in
      if seconds < 10 then ''just now''
      else if seconds < 60 then show_int seconds @ ''s ago''
      else let minutes = seconds div 60 in
        if minutes < 60 then show_int minutes @ ''m ago''
        else show_int (minutes div 60) @ ''h ago'')"

subsection \<open>State and requests\<close>

definition QUERY_LIMIT :: nat where "QUERY_LIMIT = 25"
definition FIRST_PAGE_LIMIT :: nat where "FIRST_PAGE_LIMIT = 100"
definition QUERY_MAX_ROWS :: nat where "QUERY_MAX_ROWS = 10000"

datatype QuickRuleAction = DenylistAction | AllowlistAction

record logs_page =
  lp_logs :: "ModelQueryLog list"
  lp_page :: nat
  lp_hasMore :: bool
  lp_rowCapReached :: bool
  lp_loading :: bool
  lp_error :: "string option"
  lp_refreshIntervalKey :: RefreshIntervalKey
  lp_refreshTrigger :: nat
  lp_isListFading :: bool
  lp_quickRuleOpen :: bool
  lp_quickRuleDomain :: "string option"
  lp_quickRuleAction :: QuickRuleAction
  lp_pendingLogs :: "ModelQueryLog list"
  lp_pendingOverflow :: bool
  lp_expandedKeys :: "string set"
  lp_freshIdentities :: "string set"
  lp_lastUpdatedAt :: "int option"
  lp_searchInput :: string
  lp_committedSearch :: string
  lp_filter :: string
  lp_sort :: string
  lp_timespan :: "string option"
  lp_deviceId :: "string option"
  lp_serverDeviceIds :: "string list"
  lp_observedDeviceIds :: "string list"
  lp_deviceListRefreshTick :: nat
  lp_previousProfileId :: "string option"
  lp_bgFetchInFlight :: bool
  lp_manualSpinActive :: bool
  lp_fetchSeq :: nat
  lp_fetchPage :: nat

definition init_page :: logs_page where
  "init_page =
     \<lparr>lp_logs = [], lp_page = 1, lp_hasMore = True, lp_rowCapReached = False, lp_loading = False,
      lp_error = None, lp_refreshIntervalKey = Off, lp_refreshTrigger = 0, lp_isListFading = True,
      lp_quickRuleOpen = False, lp_quickRuleDomain = None, lp_quickRuleAction = DenylistAction,
      lp_pendingLogs = [], lp_pendingOverflow = False, lp_expandedKeys = {},
      lp_freshIdentities = {}, lp_lastUpdatedAt = None, lp_searchInput = '''',
      lp_committedSearch = '''', lp_filter = ''all'', lp_sort = ''created'', lp_timespan = None,
      lp_deviceId = None, lp_serverDeviceIds = [], lp_observedDeviceIds = [],
      lp_deviceListRefreshTick = 0, lp_previousProfileId = None, lp_bgFetchInFlight = False,
      lp_manualSpinActive = False, lp_fetchSeq = 0, lp_fetchPage = 1\<rparr>"

record logs_request =
  rq_profileId :: string
  rq_page :: nat
  rq_limit :: nat
  rq_status :: "string option"
  rq_timespan :: "string option"
  rq_deviceId :: "string option"
  rq_search :: "string option"
  rq_sort :: string

text \<open>An answered request has a status and rows; a failed one may carry the response's status.\<close>

datatype logs_answer = Answered nat "ModelQueryLog list" | Failed "string option" "nat option"

definition nonempty_str :: "string option \<Rightarrow> string option" where
  "nonempty_str v = (if truthy_str v then v else None)"

definition page_limit :: "nat \<Rightarrow> nat" where
  "page_limit p = (if p = 1 then FIRST_PAGE_LIMIT else QUERY_LIMIT)"

definition page_offset :: "nat \<Rightarrow> nat" where
  "page_offset p = (if p = 1 then 0 else FIRST_PAGE_LIMIT + (p - 2) * QUERY_LIMIT)"

definition server_page :: "nat \<Rightarrow> nat" where
  "server_page p = page_offset p div page_limit p + 1"

definition next_page_end :: "nat \<Rightarrow> nat" where
  "next_page_end p = page_offset p + page_limit p + QUERY_LIMIT"

definition logs_request_for :: "string \<Rightarrow> nat \<Rightarrow> nat \<Rightarrow> logs_page \<Rightarrow> logs_request" where
  "logs_request_for profileId p limit st =
     \<lparr>rq_profileId = profileId, rq_page = p, rq_limit = limit,
      rq_status = (if lp_filter st = ''all'' then None else Some (lp_filter st)),
      rq_timespan = (if lp_timespan st = Some ''all'' then None else lp_timespan st),
      rq_deviceId = nonempty_str (lp_deviceId st),
      rq_search = nonempty_str (Some (lp_committedSearch st)),
      rq_sort = lp_sort st\<rparr>"

subsection \<open>Fetching pages\<close>

text \<open>
  The fetch effect up to its \<open>await\<close>. The running number replaces the \<open>cancelled\<close> flag, and
  \<open>lp_fetchPage\<close> is the page the newest fetch closed over.
\<close>

definition fetchLogs_start :: "string option \<Rightarrow> logs_page \<Rightarrow> logs_page \<times> logs_request option" where
  "fetchLogs_start profileId st =
     (let st' = st\<lparr>lp_fetchSeq := Suc (lp_fetchSeq st), lp_fetchPage := lp_page st\<rparr> in
      if \<not> truthy_str profileId then (st'\<lparr>lp_loading := False\<rparr>, None)
      else (st'\<lparr>lp_loading := True, lp_error := None\<rparr>,
            Some (logs_request_for (the profileId) (server_page (lp_page st))
                    (page_limit (lp_page st)) st)))"

definition fetch_error_message :: "string option \<Rightarrow> nat option \<Rightarrow> string" where
  "fetch_error_message code status =
     (if status = Some 429 then ''Too many requests. Please wait a moment before trying again.''
      else if status = Some 500 then ''Server error occurred while loading logs.''
      else if status = Some 404 then ''Profile not found.''
      else if code = Some ''NETWORK_ERROR'' \<or> status = None
        then ''Network error. Please check your connection.''
      else ''Failed to load logs'')"

definition merge_device_ids :: "string list \<Rightarrow> ModelQueryLog list \<Rightarrow> string list" where
  "merge_device_ids prev rows =
     sort (remdups (prev @ map (\<lambda>l. the (ql_device_id l))
                            (filter (\<lambda>l. truthy_str (ql_device_id l)) rows)))"

text \<open>The rest of the effect. \<open>n\<close> and \<open>p\<close> are the fetch number and the page it closed over.\<close>

definition fetchLogs_done ::
  "nat \<Rightarrow> nat \<Rightarrow> logs_answer \<Rightarrow> int \<Rightarrow> logs_page \<Rightarrow> logs_page" where
  "fetchLogs_done n p ans now st =
     (if n \<noteq> lp_fetchSeq st then st
      else case ans of
        Answered status rows \<Rightarrow>
          if status = 200 then
            st\<lparr>lp_logs := (if p = 1 then rows else lp_logs st @ rows),
               lp_hasMore := (length rows = page_limit p \<and> next_page_end p \<le> QUERY_MAX_ROWS),
               lp_rowCapReached := (length rows = page_limit p \<and> QUERY_MAX_ROWS < next_page_end p),
               lp_observedDeviceIds := merge_device_ids (lp_observedDeviceIds st) rows,
               lp_lastUpdatedAt := Some now,
               lp_loading := False\<rparr>
          else st\<lparr>lp_hasMore := False, lp_loading := False\<rparr>
      | Failed code status \<Rightarrow>
          if status = Some 403 then st\<lparr>lp_hasMore := False, lp_loading := False\<rparr>
          else st\<lparr>lp_error := Some (fetch_error_message code status), lp_hasMore := False,
                  lp_loading := False\<rparr>)"

text \<open>The intersection observer on the last row; it is not attached while loading.\<close>

definition last_row_visible :: "logs_page \<Rightarrow> logs_page" where
  "last_row_visible st =
     (if \<not> lp_loading st \<and> lp_hasMore st then st\<lparr>lp_page := lp_page st + 1\<rparr> else st)"

subsection \<open>Effects of filters and profiles\<close>

definition filters_changed :: "logs_page \<Rightarrow> logs_page" where
  "filters_changed st =
     st\<lparr>lp_logs := [], lp_page := 1, lp_hasMore := True, lp_rowCapReached := False,
        lp_isListFading := True, lp_pendingLogs := [], lp_pendingOverflow := False,
        lp_expandedKeys := {}, lp_freshIdentities := {}, lp_error := None\<rparr>"

definition fade_in :: "logs_page \<Rightarrow> logs_page" where
  "fade_in st = (if \<not> lp_isListFading st \<or> lp_loading st then st else st\<lparr>lp_isListFading := False\<rparr>)"

definition profile_changed :: "string option \<Rightarrow> logs_page \<Rightarrow> logs_page" where
  "profile_changed currentId st =
     (let st' =
        (if truthy_str (lp_previousProfileId st) \<and> lp_previousProfileId st \<noteq> currentId
         then st\<lparr>lp_quickRuleOpen := False, lp_quickRuleDomain := None, lp_pendingLogs := [],
                 lp_pendingOverflow := False, lp_expandedKeys := {}, lp_freshIdentities := {},
                 lp_serverDeviceIds := [], lp_observedDeviceIds := []\<rparr>
         else st)
      in st'\<lparr>lp_previousProfileId := currentId\<rparr>)"

definition devices_loaded :: "nat \<Rightarrow> string option list \<Rightarrow> logs_page \<Rightarrow> logs_page" where
  "devices_loaded status devices st =
     (if status \<noteq> 200 then st
      else st\<lparr>lp_serverDeviceIds := map the (filter truthy_str devices)\<rparr>)"

definition availableDeviceIds :: "logs_page \<Rightarrow> string list" where
  "availableDeviceIds st =
     sort (remdups (lp_serverDeviceIds st @ lp_observedDeviceIds st
        @ (if truthy_str (lp_deviceId st) then [the (lp_deviceId st)] else [])))"

definition commitSearch :: "logs_page \<Rightarrow> logs_page" where
  "commitSearch st =
     (if lp_committedSearch st = lp_searchInput st then st
      else filters_changed (st\<lparr>lp_committedSearch := lp_searchInput st\<rparr>))"

definition handleSearchClear :: "logs_page \<Rightarrow> logs_page" where
  "handleSearchClear st =
     (let st' = st\<lparr>lp_searchInput := '''', lp_committedSearch := ''''\<rparr>
      in if lp_committedSearch st = '''' then st' else filters_changed st')"

definition hasNonDefaultFilters :: "logs_page \<Rightarrow> bool" where
  "hasNonDefaultFilters st =
     (lp_filter st \<noteq> ''all'' \<or> lp_deviceId st \<noteq> None \<or> lp_sort st \<noteq> ''created''
      \<or> (lp_timespan st \<noteq> None \<and> lp_timespan st \<noteq> Some ''all''))"

definition filter_values :: "logs_page \<Rightarrow> string \<times> string \<times> string \<times> string option \<times> string option" where
  "filter_values st =
     (lp_committedSearch st, lp_filter st, lp_sort st, lp_timespan st, lp_deviceId st)"

definition handleClearFilters :: "logs_page \<Rightarrow> logs_page" where
  "handleClearFilters st =
     (let st' = st\<lparr>lp_filter := ''all'', lp_sort := ''created'', lp_timespan := None,
                   lp_deviceId := None, lp_searchInput := '''', lp_committedSearch := ''''\<rparr>
      in if filter_values st' = filter_values st then st' else filters_changed st')"

definition toggleCardExpanded :: "string \<Rightarrow> logs_page \<Rightarrow> logs_page" where
  "toggleCardExpanded i st =
     st\<lparr>lp_expandedKeys :=
         (if i \<in> lp_expandedKeys st then lp_expandedKeys st - {i} else insert i (lp_expandedKeys st))\<rparr>"

definition handleOpenQuickRule ::
  "bool \<Rightarrow> string option \<Rightarrow> QuickRuleAction \<Rightarrow> logs_page \<Rightarrow> logs_page" where
  "handleOpenQuickRule isRestricted domain action st =
     (if \<not> truthy_str domain then st
      else if isRestricted then st
      else st\<lparr>lp_quickRuleDomain := domain, lp_quickRuleAction := action, lp_quickRuleOpen := True\<rparr>)"

definition handleQuickRuleSheetChange :: "bool \<Rightarrow> logs_page \<Rightarrow> logs_page" where
  "handleQuickRuleSheetChange nextOpen st =
     (let st' = st\<lparr>lp_quickRuleOpen := nextOpen\<rparr>
      in if \<not> nextOpen then st'\<lparr>lp_quickRuleDomain := None\<rparr> else st')"

subsection \<open>Refresh, background tick and the pill\<close>

definition handleRefresh :: "logs_page \<Rightarrow> logs_page" where
  "handleRefresh st =
     st\<lparr>lp_page := 1, lp_isListFading := True, lp_pendingLogs := [], lp_pendingOverflow := False,
        lp_freshIdentities := {}, lp_refreshTrigger := lp_refreshTrigger st + 1,
        lp_deviceListRefreshTick := lp_deviceListRefreshTick st + 1,
        lp_manualSpinActive := True\<rparr>"

definition tick_start ::
  "bool \<Rightarrow> string option \<Rightarrow> bool \<Rightarrow> logs_page \<Rightarrow> logs_page \<times> logs_request option" where
  "tick_start hidden profileId logsEnabled st =
     (if hidden \<or> \<not> truthy_str profileId \<or> \<not> logsEnabled then (st, None)
      else if lp_loading st \<or> lp_bgFetchInFlight st then (st, None)
      else if lp_sort st \<noteq> ''created'' then (handleRefresh st, None)
      else (st\<lparr>lp_bgFetchInFlight := True\<rparr>,
            Some (logs_request_for (the profileId) 1 FIRST_PAGE_LIMIT st)))"

definition tick_done :: "logs_answer \<Rightarrow> int \<Rightarrow> logs_page \<Rightarrow> logs_page" where
  "tick_done ans now st =
     (let st' = st\<lparr>lp_bgFetchInFlight := False\<rparr> in
      case ans of
        Failed _ _ \<Rightarrow> st'
      | Answered status fetched \<Rightarrow>
          if status \<noteq> 200 then st'
          else if lp_logs st = [] then
            st'\<lparr>lp_lastUpdatedAt := Some now, lp_logs := fetched,
                lp_hasMore := (length fetched = FIRST_PAGE_LIMIT), lp_rowCapReached := False,
                lp_pendingLogs := [], lp_pendingOverflow := False\<rparr>
          else let d = computeNewQueryLogs fetched (lp_logs st) in
            st'\<lparr>lp_lastUpdatedAt := Some now, lp_pendingLogs := newLogs d,
                lp_pendingOverflow := (\<not> overlapFound d \<and> length fetched = FIRST_PAGE_LIMIT)\<rparr>)"

text \<open>Turning the cadence off drops the staged entries; the immediate tick is an event of its own.\<close>

definition handleRefreshIntervalChange :: "RefreshIntervalKey \<Rightarrow> logs_page \<Rightarrow> logs_page \<times> bool" where
  "handleRefreshIntervalChange k st =
     (let wasOn = (refreshIntervalMsFor (lp_refreshIntervalKey st) \<noteq> None);
          st' = st\<lparr>lp_refreshIntervalKey := k\<rparr>
      in if refreshIntervalMsFor k = None
         then (st'\<lparr>lp_pendingLogs := [], lp_pendingOverflow := False\<rparr>, False)
         else (st', \<not> wasOn))"

definition handleShowPending :: "time_parser \<Rightarrow> logs_page \<Rightarrow> logs_page" where
  "handleShowPending parse st =
     (if lp_pendingOverflow st then handleRefresh st
      else
        let previous = lp_logs st;
            merged = lp_pendingLogs st @ previous;
            previousIdentities = identity ` set (consolidateLogs parse previous MAX_GROUP_SPAN_MS)
        in st\<lparr>lp_freshIdentities :=
                {i \<in> identity ` set (consolidateLogs parse merged MAX_GROUP_SPAN_MS).
                   i \<notin> previousIdentities},
              lp_logs := merged, lp_pendingLogs := []\<rparr>)"

definition displayGroups :: "time_parser \<Rightarrow> logs_page \<Rightarrow> ConsolidatedLogGroup list" where
  "displayGroups parse st =
     (if lp_sort st = ''created'' then consolidateLogs parse (lp_logs st) MAX_GROUP_SPAN_MS
      else map2 toSingletonGroup (lp_logs st) [0..<length (lp_logs st)])"

subsection \<open>The API's window of rows\<close>

datatype api_error = InvalidRequestBody

definition QueryLogsMaxRows :: nat where "QueryLogsMaxRows = 10000"

definition GetQueryLogs :: "'r list \<Rightarrow> nat \<Rightarrow> nat \<Rightarrow> 'r list" where
  "GetQueryLogs rows page pageSize =
     (if 0 < pageSize
      then let p = (if page = 0 then 1 else page)
           in take pageSize (drop ((p - 1) * pageSize) (take (p * pageSize) rows))
      else rows)"

text \<open>
  The request validator (requests/query_logs.go): which page numbers and page sizes it takes, and
  which filters after the defaults of the missing parameters are filled in. The search is bounded
  to 256 characters.
\<close>

definition QueryLogsTimespans :: "string list" where
  "QueryLogsTimespans =
     [''LAST_1_HOUR'', ''LAST_12_HOURS'', ''LAST_1_DAY'', ''LAST_7_DAYS'', ''LAST_MONTH'']"

definition or_default :: "string \<Rightarrow> string option \<Rightarrow> string" where
  "or_default d v = (case v of None \<Rightarrow> d | Some x \<Rightarrow> if x = [] then d else x)"

definition read_timespan :: "logs_request \<Rightarrow> string" where
  "read_timespan rq = or_default ''LAST_1_HOUR'' (rq_timespan rq)"

definition paging_accepted :: "nat \<Rightarrow> nat \<Rightarrow> bool" where
  "paging_accepted page limit \<longleftrightarrow>
     1 \<le> page \<and> page \<le> 1000 \<and> limit \<in> set [10, 25, 50, 100]"

definition filters_accepted :: "logs_request \<Rightarrow> bool" where
  "filters_accepted rq \<longleftrightarrow>
     read_timespan rq \<in> set QueryLogsTimespans \<and>
     or_default ''all'' (rq_status rq) \<in> set [''all'', ''blocked'', ''processed'', ''unanswered''] \<and>
     length (or_default [] (rq_search rq)) \<le> 256 \<and>
     or_default ''created'' (Some (rq_sort rq)) \<in> set [''created'', ''domain'', ''client_ip'']"

text \<open>
  The handler. \<open>rows\<close> is what the database holds for the profile under the filters of the
  request and in its order; the handler checks the request and reads one window of them.
\<close>

definition logs_window :: "'r list \<Rightarrow> nat \<Rightarrow> nat \<Rightarrow> api_error + 'r list" where
  "logs_window rows page limit =
     (if \<not> paging_accepted page limit then Inl InvalidRequestBody
      else if QueryLogsMaxRows < page * limit then Inl InvalidRequestBody
      else Inr (GetQueryLogs rows page limit))"

definition getProfileQueryLogs :: "'r list \<Rightarrow> logs_request \<Rightarrow> api_error + 'r list" where
  "getProfileQueryLogs rows rq =
     (if \<not> filters_accepted rq then Inl InvalidRequestBody
      else logs_window rows (rq_page rq) (rq_limit rq))"

subsection \<open>Paging arithmetic\<close>

lemmas page_defs = page_limit_def page_offset_def server_page_def next_page_end_def
  FIRST_PAGE_LIMIT_def QUERY_LIMIT_def

lemma page_limit_pos [simp]: "0 < page_limit p"
  by (simp add: page_defs)

lemma server_page_skips: "(server_page p - 1) * page_limit p = page_offset p"
proof -
  have "100 + (p - 2) * 25 = (4 + (p - 2)) * (25::nat)" by simp
  then show ?thesis by (auto simp: page_defs)
qed

lemma server_page_rows: "server_page p * page_limit p = page_offset p + page_limit p"
  using server_page_skips [of p] by (simp add: server_page_def)

lemma page_offset_Suc: "1 \<le> p \<Longrightarrow> page_offset (Suc p) = page_offset p + page_limit p"
  by (cases "p = 1") (auto simp: page_defs algebra_simps Suc_diff_le)

lemma next_page_end_eq: "1 \<le> p \<Longrightarrow> next_page_end p = page_offset (Suc p) + page_limit (Suc p)"
  by (simp add: next_page_end_def page_offset_Suc) (simp add: page_defs)

text \<open>Every page below the row cap is one the validator takes.\<close>

lemma page_paging_accepted:
  assumes "page_offset p + page_limit p \<le> QueryLogsMaxRows"
  shows "paging_accepted (server_page p) (page_limit p)"
proof -
  have "server_page p * 25 \<le> server_page p * page_limit p"
    by (intro mult_le_mono2) (simp add: page_defs)
  with assms have "server_page p \<le> 1000"
    by (simp add: server_page_rows QueryLogsMaxRows_def)
  moreover have "1 \<le> server_page p" by (simp add: server_page_def)
  ultimately show ?thesis by (simp add: paging_accepted_def page_defs)
qed

text \<open>
  What the page needs of the API: an accepted page and limit within the cap select a window of the
  rows, and every page the app asks for below the cap is accepted.
\<close>

locale paged_api =
  fixes fetch :: "nat \<Rightarrow> nat \<Rightarrow> 'e + 'r list"
    and rows :: "'r list"
    and cap :: nat
    and accepted :: "nat \<Rightarrow> nat \<Rightarrow> bool"
  assumes window: "accepted page limit \<Longrightarrow> page * limit \<le> cap \<Longrightarrow>
      fetch page limit = Inr (take limit (drop ((page - 1) * limit) rows))"
    and pages_accepted: "page_offset p + page_limit p \<le> cap \<Longrightarrow>
      accepted (server_page p) (page_limit p)"
begin

lemma page_window:
  assumes "page_offset p + page_limit p \<le> cap"
  shows "fetch (server_page p) (page_limit p) = Inr (take (page_limit p) (drop (page_offset p) rows))"
  using window [OF pages_accepted [OF assms]] assms
  by (simp only: server_page_rows server_page_skips)

lemma next_page_appends:
  assumes "1 \<le> p" and "next_page_end p \<le> cap"
  shows "\<exists>r. fetch (server_page (Suc p)) (page_limit (Suc p)) = Inr r \<and>
             take (page_offset (Suc p)) rows @ r = take (next_page_end p) rows"
  using page_window [of "Suc p"] assms by (simp add: next_page_end_eq take_add)

end

lemma drop_take_window:
  assumes "Suc 0 \<le> p"
  shows "take n (drop ((p - Suc 0) * n) (take (p * n) xs)) = take n (drop ((p - Suc 0) * n) xs)"
proof -
  have "p * n - (p - Suc 0) * n = n" using assms by (simp add: diff_mult_distrib [symmetric])
  then show ?thesis by (simp add: drop_take)
qed

interpretation log_api: paged_api "logs_window rows" rows QueryLogsMaxRows paging_accepted
proof unfold_locales
  fix page limit :: nat
  assume "paging_accepted page limit" "page * limit \<le> QueryLogsMaxRows"
  then show "logs_window rows page limit = Inr (take limit (drop ((page - 1) * limit) rows))"
    by (auto simp: logs_window_def GetQueryLogs_def drop_take_window paging_accepted_def)
qed (rule page_paging_accepted)

text \<open>The filters of the page as the API reads them; they do not depend on the page asked for.\<close>

definition filters_ok :: "logs_page \<Rightarrow> bool" where
  "filters_ok st = filters_accepted (logs_request_for [] 1 FIRST_PAGE_LIMIT st)"

lemma filters_ok_request: "filters_ok st \<Longrightarrow> filters_accepted (logs_request_for pid p n st)"
  by (simp add: filters_ok_def filters_accepted_def read_timespan_def logs_request_for_def)

lemma filters_ok_cong:
  assumes "lp_filter st = lp_filter st'" "lp_timespan st = lp_timespan st'"
    and "lp_committedSearch st = lp_committedSearch st'" "lp_sort st = lp_sort st'"
  shows "filters_ok st = filters_ok st'"
  using assms by (simp add: filters_ok_def filters_accepted_def read_timespan_def logs_request_for_def)

subsection \<open>Scrolling through a log\<close>

text \<open>One fetch against the API, and the scroll event that triggers the next one.\<close>

definition answer_of :: "api_error + ModelQueryLog list \<Rightarrow> logs_answer" where
  "answer_of r = (case r of Inl InvalidRequestBody \<Rightarrow> Failed None (Some 400) | Inr xs \<Rightarrow> Answered 200 xs)"

definition load_page :: "ModelQueryLog list \<Rightarrow> string \<Rightarrow> int \<Rightarrow> logs_page \<Rightarrow> logs_page" where
  "load_page rows pid now st =
     (case fetchLogs_start (Some pid) st of
        (st', None) \<Rightarrow> st'
      | (st', Some rq) \<Rightarrow>
          fetchLogs_done (lp_fetchSeq st') (lp_fetchPage st')
            (answer_of (getProfileQueryLogs rows rq)) now st')"

definition scroll :: "ModelQueryLog list \<Rightarrow> string \<Rightarrow> int \<Rightarrow> logs_page \<Rightarrow> logs_page" where
  "scroll rows pid now st =
     (let st' = last_row_visible st
      in if lp_page st' = lp_page st then st else load_page rows pid now st')"

definition page_end :: "nat \<Rightarrow> nat" where
  "page_end p = page_offset p + page_limit p"

definition shows_prefix :: "ModelQueryLog list \<Rightarrow> logs_page \<Rightarrow> bool" where
  "shows_prefix rows st =
     (filters_ok st \<and> 1 \<le> lp_page st \<and> \<not> lp_loading st \<and> lp_error st = None \<and>
      lp_logs st = take (page_end (lp_page st)) rows \<and>
      (lp_hasMore st \<longrightarrow> next_page_end (lp_page st) \<le> QUERY_MAX_ROWS \<and>
         page_end (lp_page st) \<le> length rows) \<and>
      (\<not> lp_hasMore st \<longrightarrow> lp_logs st = rows \<or> lp_rowCapReached st) \<and>
      (lp_rowCapReached st \<longrightarrow> \<not> lp_hasMore st \<and> QUERY_MAX_ROWS - QUERY_LIMIT < length (lp_logs st)))"

lemma load_page_simps:
  fixes rows :: "ModelQueryLog list" and st :: logs_page
  assumes "pid \<noteq> []" and "page_end (lp_page st) \<le> QUERY_MAX_ROWS" and "filters_ok st"
  defines "new \<equiv> take (page_limit (lp_page st)) (drop (page_offset (lp_page st)) rows)"
  shows "lp_page (load_page rows pid now st) = lp_page st"
    and "lp_loading (load_page rows pid now st) = False"
    and "lp_error (load_page rows pid now st) = None"
    and "lp_logs (load_page rows pid now st) = (if lp_page st = 1 then new else lp_logs st @ new)"
    and "lp_hasMore (load_page rows pid now st) \<longleftrightarrow>
           length new = page_limit (lp_page st) \<and> next_page_end (lp_page st) \<le> QUERY_MAX_ROWS"
    and "lp_rowCapReached (load_page rows pid now st) \<longleftrightarrow>
           length new = page_limit (lp_page st) \<and> QUERY_MAX_ROWS < next_page_end (lp_page st)"
    and "filters_ok (load_page rows pid now st)"
proof -
  have "logs_window rows (server_page (lp_page st)) (page_limit (lp_page st)) = Inr new"
    unfolding new_def
    by (rule log_api.page_window) (use assms(2) in
      \<open>simp add: page_end_def QueryLogsMaxRows_def QUERY_MAX_ROWS_def\<close>)
  then have "getProfileQueryLogs rows (logs_request_for pid (server_page (lp_page st))
      (page_limit (lp_page st)) st) = Inr new"
    by (simp add: getProfileQueryLogs_def filters_ok_request assms(3))
      (simp add: logs_request_for_def)
  then have eq: "load_page rows pid now st =
      (st\<lparr>lp_fetchSeq := Suc (lp_fetchSeq st), lp_fetchPage := lp_page st,
          lp_loading := False, lp_error := None,
          lp_logs := (if lp_page st = 1 then new else lp_logs st @ new),
          lp_hasMore := (length new = page_limit (lp_page st) \<and> next_page_end (lp_page st) \<le> QUERY_MAX_ROWS),
          lp_rowCapReached := (length new = page_limit (lp_page st) \<and> QUERY_MAX_ROWS < next_page_end (lp_page st)),
          lp_observedDeviceIds := merge_device_ids (lp_observedDeviceIds st) new,
          lp_lastUpdatedAt := Some now\<rparr>)"
    using assms(1)
    by (simp add: load_page_def fetchLogs_start_def fetchLogs_done_def answer_of_def Let_def)
  show "lp_page (load_page rows pid now st) = lp_page st"
    and "lp_loading (load_page rows pid now st) = False"
    and "lp_error (load_page rows pid now st) = None"
    and "lp_logs (load_page rows pid now st) = (if lp_page st = 1 then new else lp_logs st @ new)"
    and "lp_hasMore (load_page rows pid now st) \<longleftrightarrow>
           length new = page_limit (lp_page st) \<and> next_page_end (lp_page st) \<le> QUERY_MAX_ROWS"
    and "lp_rowCapReached (load_page rows pid now st) \<longleftrightarrow>
           length new = page_limit (lp_page st) \<and> QUERY_MAX_ROWS < next_page_end (lp_page st)"
    unfolding eq by simp_all
  have "filters_ok (load_page rows pid now st) = filters_ok st"
    unfolding eq by (rule filters_ok_cong) simp_all
  with assms(3) show "filters_ok (load_page rows pid now st)" by simp
qed

text \<open>A page loaded on top of the rows before it shows a prefix of the server's log.\<close>

lemma load_page_shows_prefix:
  assumes "pid \<noteq> []" "1 \<le> lp_page st" "page_end (lp_page st) \<le> QUERY_MAX_ROWS"
    and "lp_page st \<noteq> 1 \<Longrightarrow> lp_logs st = take (page_offset (lp_page st)) rows"
    and "page_offset (lp_page st) \<le> length rows" and "filters_ok st"
  shows "shows_prefix rows (load_page rows pid now st)"
proof -
  let ?p = "lp_page st" and ?st = "load_page rows pid now st"
  let ?new = "take (page_limit ?p) (drop (page_offset ?p) rows)"
  note load = load_page_simps [OF assms(1,3,6), of rows now]
  have logs: "lp_logs ?st = take (page_end ?p) rows"
    using assms(4) load(4) by (cases "?p = 1") (simp_all add: page_end_def take_add page_offset_def)
  have full: "length ?new = page_limit ?p \<longleftrightarrow> page_end ?p \<le> length rows"
    using assms(5) by (auto simp: page_end_def min_def)
  have nxt: "next_page_end ?p = page_end ?p + QUERY_LIMIT"
    by (simp add: next_page_end_def page_end_def)
  show ?thesis
    unfolding shows_prefix_def logs load(1,2,3,5,6) full
    using assms(2) nxt load(7) by (auto simp: QUERY_MAX_ROWS_def QUERY_LIMIT_def)
qed

lemma scroll_shows_prefix:
  assumes "shows_prefix rows st" "pid \<noteq> []"
  shows "shows_prefix rows (scroll rows pid now st)"
proof (cases "lp_hasMore st")
  case True
  let ?st = "last_row_visible st"
  from assms True have st: "?st = st\<lparr>lp_page := lp_page st + 1\<rparr>" and p: "1 \<le> lp_page st"
    by (auto simp: last_row_visible_def shows_prefix_def)
  have "shows_prefix rows (load_page rows pid now ?st)"
    using assms True p
    by (intro load_page_shows_prefix)
      (auto simp: st shows_prefix_def page_end_def page_offset_Suc next_page_end_eq
        cong: filters_ok_cong)
  then show ?thesis by (simp add: scroll_def st)
next
  case False
  with assms(1) show ?thesis by (simp add: scroll_def last_row_visible_def)
qed

interpretation scrolling:
  machine "\<lambda>st now. scroll rows pid now st" "\<lambda>st. pid \<noteq> [] \<and> shows_prefix rows st"
  by unfold_locales (simp add: scroll_shows_prefix)

lemma first_load_shows_prefix:
  "pid \<noteq> [] \<Longrightarrow> lp_page st = 1 \<Longrightarrow> filters_ok st \<Longrightarrow> shows_prefix rows (load_page rows pid now st)"
  by (rule load_page_shows_prefix) (simp_all add: page_end_def page_defs QUERY_MAX_ROWS_def)

lemma init_filters_ok: "filters_ok init_page"
  by code_simp

subsection \<open>Properties\<close>

text \<open>
  Property C6 (scrolling_shows_server_log). Opening the page on a fixed log, under any filters
  the request validator takes (a search of at most 256 characters), and scrolling any number of
  times shows a prefix of that log, without gaps, repetitions or rejected requests: every page
  number and page size asked for passes the validator and the cap on rows. When the page offers no
  more rows it has shown all of them or announces the row cap.
\<close>

theorem scrolling_shows_server_log:
  fixes rows :: "ModelQueryLog list" and nows :: "int list" and t :: int and st0 :: logs_page
  assumes "pid \<noteq> []" "lp_page st0 = 1" "filters_ok st0"
  defines "st \<equiv> foldl (\<lambda>st now. scroll rows pid now st) (load_page rows pid t st0) nows"
  shows "lp_logs st = take (page_end (lp_page st)) rows \<and> lp_error st = None \<and>
         (\<not> lp_hasMore st \<longrightarrow> lp_logs st = rows \<or> lp_rowCapReached st) \<and>
         (lp_rowCapReached st \<longrightarrow> QUERY_MAX_ROWS - QUERY_LIMIT < length (lp_logs st))"
proof -
  have "shows_prefix rows st"
    unfolding st_def
    using scrolling.run_inv [of pid rows "load_page rows pid t st0" nows] assms(1-3)
      first_load_shows_prefix by simp
  then show ?thesis unfolding shows_prefix_def by blast
qed

text \<open>
  Fact (display_rows_once). Under either sort order the displayed groups hold every fetched
  row exactly once and in order, and never outnumber the rows.
\<close>

theorem display_rows_once:
  "concat (map members (displayGroups parse st)) = lp_logs st \<and>
   length (displayGroups parse st) \<le> length (lp_logs st)"
  by (simp add: displayGroups_def consolidated.mem_concat singletons.mem_concat
      consolidated.no_more_groups_than_rows singletons.no_more_groups_than_rows
      del: length_map length_zip map_map)

text \<open>
  Fact (pill_reveals_new_rows). A background tick against a server that put \<open>added\<close> on top
  of the displayed rows, followed by a click on the pill, leaves the page with a prefix of the
  server's log and nothing staged when fewer than a page of rows was added. When a page or more
  was added, the tick marks the overflow and the click reloads page 1 instead of leaving a gap.
\<close>

theorem pill_reveals_new_rows:
  fixes added old :: "ModelQueryLog list" and st :: logs_page and now :: int
  assumes "distinct (map logIdentity (added @ old))" "lp_logs st = take k old" "lp_logs st \<noteq> []"
    and "length added < FIRST_PAGE_LIMIT \<or> length (take FIRST_PAGE_LIMIT (added @ old)) = FIRST_PAGE_LIMIT"
  defines "ticked \<equiv> tick_done (Answered 200 (take FIRST_PAGE_LIMIT (added @ old))) now st"
  shows "(length added < FIRST_PAGE_LIMIT \<longrightarrow>
            lp_pendingLogs ticked = added \<and>
            lp_logs (handleShowPending parse ticked) = take (length added + k) (added @ old) \<and>
            lp_pendingLogs (handleShowPending parse ticked) = []) \<and>
         (FIRST_PAGE_LIMIT \<le> length added \<longrightarrow>
            lp_pendingOverflow ticked \<and>
            lp_page (handleShowPending parse ticked) = 1 \<and>
            lp_refreshTrigger (handleShowPending parse ticked) = lp_refreshTrigger st + 1 \<and>
            lp_logs (handleShowPending parse ticked) = lp_logs st)"
proof -
  let ?d = "computeNewQueryLogs (take FIRST_PAGE_LIMIT (added @ old)) (lp_logs st)"
  have d: "(length added < FIRST_PAGE_LIMIT \<longrightarrow> newLogs ?d = added \<and> overlapFound ?d) \<and>
           (FIRST_PAGE_LIMIT \<le> length added \<longrightarrow> \<not> overlapFound ?d)"
    using diff_against_server [OF assms(1-3), of FIRST_PAGE_LIMIT]
    by (simp add: FIRST_PAGE_LIMIT_def del: take_append)
  have t: "ticked = st\<lparr>lp_bgFetchInFlight := False, lp_lastUpdatedAt := Some now,
      lp_pendingLogs := newLogs ?d,
      lp_pendingOverflow := (\<not> overlapFound ?d
        \<and> length (take FIRST_PAGE_LIMIT (added @ old)) = FIRST_PAGE_LIMIT)\<rparr>"
    unfolding ticked_def using assms(3) by (simp add: tick_done_def Let_def)
  show ?thesis
    using d assms(2,4) unfolding t
    by (auto simp: handleShowPending_def handleRefresh_def Let_def not_less)
qed

text \<open>
  Fact (page_after_pill_repeats_rows). Paging is by offset, and revealing staged rows does
  not move the offset: after \<open>n\<close> new rows were put on top of page 1, the next page starts \<open>n\<close> rows
  too early, so it shows the last \<open>n\<close> rows of page 1 again.
\<close>

theorem page_after_pill_repeats_rows:
  fixes added old :: "ModelQueryLog list" and st :: logs_page and now :: int
  assumes "pid \<noteq> []" "lp_page st = 1" "\<not> lp_loading st" "lp_hasMore st"
    and "lp_logs st = added @ take FIRST_PAGE_LIMIT old"
    and "0 < length added" "length added \<le> QUERY_LIMIT" "FIRST_PAGE_LIMIT + QUERY_LIMIT \<le> length old"
    and "filters_ok st"
  defines "st' \<equiv> scroll (added @ old) pid now st"
  shows "lp_logs st' = added @ take FIRST_PAGE_LIMIT old
           @ take QUERY_LIMIT (drop (FIRST_PAGE_LIMIT - length added) old) \<and>
         \<not> distinct (lp_logs st')"
proof -
  let ?bumped = "st\<lparr>lp_page := 2\<rparr>"
  have filters: "filters_ok ?bumped" using assms(9) filters_ok_cong [of ?bumped st] by simp
  have v: "last_row_visible st = ?bumped" using assms by (simp add: last_row_visible_def)
  have logs: "lp_logs st' = added @ take FIRST_PAGE_LIMIT old
      @ take QUERY_LIMIT (drop (FIRST_PAGE_LIMIT - length added) old)"
    using load_page_simps(4) [OF assms(1), of ?bumped "added @ old" now] assms filters
    by (simp add: st'_def scroll_def v page_end_def page_defs QUERY_MAX_ROWS_def)
  have i: "FIRST_PAGE_LIMIT - length added < FIRST_PAGE_LIMIT" "FIRST_PAGE_LIMIT - length added < length old"
    using assms by (auto simp: page_defs)
  let ?x = "old ! (FIRST_PAGE_LIMIT - length added)"
  have "?x \<in> set (take FIRST_PAGE_LIMIT old)"
    using i by (auto simp: in_set_conv_nth intro!: exI [of _ "FIRST_PAGE_LIMIT - length added"])
  moreover have "?x \<in> set (take QUERY_LIMIT (drop (FIRST_PAGE_LIMIT - length added) old))"
    using i by (auto simp: in_set_conv_nth QUERY_LIMIT_def intro!: exI [of _ 0])
  ultimately show ?thesis using logs by auto
qed

text \<open>
  Fact (profile_switch_keeps_old_rows). Switching the profile clears what is staged,
  expanded and selectable, but neither the rows nor the page number: past page 1, the rows of the
  new profile's page are appended to the old profile's rows.
\<close>

theorem profile_switch_keeps_old_rows:
  fixes st :: logs_page and new :: string
  assumes "truthy_str (Some new)" "1 < lp_page st"
  defines "started \<equiv> fst (fetchLogs_start (Some new) (profile_changed (Some new) st))"
  shows "lp_logs (fetchLogs_done (lp_fetchSeq started) (lp_fetchPage started) (Answered 200 rows) now started)
           = lp_logs st @ rows"
  using assms by (auto simp: fetchLogs_start_def profile_changed_def fetchLogs_done_def Let_def)

text \<open>
  Fact (stale_answers_dropped). Once a newer fetch has started, no answer of an older fetch
  changes the page, in whatever order the answers arrive.
\<close>

theorem stale_answers_dropped:
  assumes "list_all (\<lambda>(n, p, ans, now). n \<le> lp_fetchSeq st) answers"
  shows "foldl (\<lambda>s (n, p, ans, now). fetchLogs_done n p ans now s)
           (fst (fetchLogs_start pid st)) answers = fst (fetchLogs_start pid st)"
  using assms
proof (induction answers)
  case (Cons a answers)
  have "lp_fetchSeq (fst (fetchLogs_start pid st)) = Suc (lp_fetchSeq st)"
    by (simp add: fetchLogs_start_def Let_def)
  with Cons show ?case by (cases a) (auto simp: fetchLogs_done_def)
qed simp

subsection \<open>Witnesses\<close>

theorem scrolling_shows_server_log_witness:
  "lp_logs (foldl (\<lambda>st now. scroll [diff_log ''2'', diff_log ''1''] ''p'' now st)
      (load_page [diff_log ''2'', diff_log ''1''] ''p'' 0 init_page) [1, 2])
     = take (page_end (lp_page (foldl (\<lambda>st now. scroll [diff_log ''2'', diff_log ''1''] ''p'' now st)
      (load_page [diff_log ''2'', diff_log ''1''] ''p'' 0 init_page) [1, 2])))
         [diff_log ''2'', diff_log ''1'']"
  using scrolling_shows_server_log [of "''p''" init_page "[diff_log ''2'', diff_log ''1'']" 0 "[1, 2]"]
    init_filters_ok
  by (simp add: init_page_def)

theorem pill_reveals_new_rows_witness:
  "lp_logs (handleShowPending iso_parse (tick_done (Answered 200 (take FIRST_PAGE_LIMIT
      ([diff_log ''3''] @ [diff_log ''2'', diff_log ''1'']))) 0
      (init_page\<lparr>lp_logs := [diff_log ''2'']\<rparr>))) = [diff_log ''3'', diff_log ''2'']"
  using pill_reveals_new_rows [of "[diff_log ''3'']" "[diff_log ''2'', diff_log ''1'']"
      "init_page\<lparr>lp_logs := [diff_log ''2'']\<rparr>" 1 0 iso_parse]
  by (simp add: logIdentity_def diff_log_def FIRST_PAGE_LIMIT_def)

theorem page_after_pill_repeats_rows_witness:
  "\<not> distinct (lp_logs (scroll ([diff_log ''2''] @ replicate 125 (diff_log ''1'')) ''p'' 0
      (init_page\<lparr>lp_logs := [diff_log ''2''] @ take FIRST_PAGE_LIMIT (replicate 125 (diff_log ''1''))\<rparr>)))"
  using page_after_pill_repeats_rows [of "''p''"
      "init_page\<lparr>lp_logs := [diff_log ''2''] @ take FIRST_PAGE_LIMIT (replicate 125 (diff_log ''1''))\<rparr>"
      "[diff_log ''2'']" "replicate 125 (diff_log ''1'')" 0]
    filters_ok_cong [of "init_page\<lparr>lp_logs := [diff_log ''2''] @ take FIRST_PAGE_LIMIT (replicate 125 (diff_log ''1''))\<rparr>" init_page]
    init_filters_ok
  by (simp add: init_page_def page_defs)

theorem profile_switch_keeps_old_rows_witness:
  "lp_logs (fetchLogs_done 1 2 (Answered 200 [diff_log ''b'']) 0
      (fst (fetchLogs_start (Some ''B'')
         (profile_changed (Some ''B'') (init_page\<lparr>lp_page := 2, lp_logs := [diff_log ''a'']\<rparr>)))))
     = [diff_log ''a'', diff_log ''b'']"
  using profile_switch_keeps_old_rows
    [of "''B''" "init_page\<lparr>lp_page := 2, lp_logs := [diff_log ''a'']\<rparr>" "[diff_log ''b'']" 0]
  by (simp add: init_page_def fetchLogs_start_def profile_changed_def Let_def)

theorem stale_answers_dropped_witness:
  "foldl (\<lambda>s (n, p, ans, now). fetchLogs_done n p ans now s)
     (fst (fetchLogs_start (Some ''p'') (init_page\<lparr>lp_fetchSeq := 2\<rparr>)))
     [(2, 1, Answered 200 [diff_log ''a''], 0), (1, 1, Failed None None, 0)]
   = fst (fetchLogs_start (Some ''p'') (init_page\<lparr>lp_fetchSeq := 2\<rparr>))"
  by (rule stale_answers_dropped) simp

end
