(* ===== verification/FormatLogs.thy ===== *)
theory FormatLogs
  imports ApiTypes "HOL-Library.Multiset"
begin

text \<open>
  How the query-log cards describe an entry: app/src/lib/formatReasons.ts (filter decisions as
  chips) and app/src/lib/formatOutcome.ts (resolution outcomes as pairs). The name tables are the
  optional id to name records the caller passes. A lookup in a JavaScript object literal is a map;
  the names every object inherits (\<open>constructor\<close>, \<open>toString\<close>) are no tokens of the proxy.
\<close>

subsection \<open>Reason chips (formatReasons.ts)\<close>

datatype ReasonKind =
  KBlocklist | KService | KCustomRule | KDefault | KSubdomain | KDnssec | KRebinding

record FormattedReason =
  kind :: ReasonKind
  label :: string

definition BLOCKLIST_PREFIX :: string where "BLOCKLIST_PREFIX = ''blocklist: ''"
definition SERVICE_PREFIX :: string where "SERVICE_PREFIX = ''service: ''"

text \<open>The local variables of the loop. The two id sets hold the ids of the two lists.\<close>

record reason_acc =
  blocklistIds :: "string list"
  serviceIds :: "string list"
  hasGenericBlocklist :: bool
  hasGenericService :: bool
  hasSubdomain :: bool
  hasCustomRule :: bool
  hasDefault :: bool
  hasDnssecFailed :: bool
  hasRebinding :: bool
  hasCname :: bool

definition no_reasons :: reason_acc where
  "no_reasons =
     \<lparr>blocklistIds = [], serviceIds = [], hasGenericBlocklist = False, hasGenericService = False,
      hasSubdomain = False, hasCustomRule = False, hasDefault = False, hasDnssecFailed = False,
      hasRebinding = False, hasCname = False\<rparr>"

definition push_new :: "string \<Rightarrow> string list \<Rightarrow> string list" where
  "push_new i is = (if i \<in> set is then is else is @ [i])"

definition reason_step :: "reason_acc \<Rightarrow> string \<Rightarrow> reason_acc" where
  "reason_step a r =
     (if r = ''dnssec_failed'' then a\<lparr>hasDnssecFailed := True\<rparr>
      else if js_startsWith r BLOCKLIST_PREFIX
        then a\<lparr>blocklistIds := push_new (drop (length BLOCKLIST_PREFIX) r) (blocklistIds a)\<rparr>
      else if r = ''blocklists'' then a\<lparr>hasGenericBlocklist := True\<rparr>
      else if r = ''blocklists_subdomains_rule'' then a\<lparr>hasSubdomain := True\<rparr>
      else if js_startsWith r SERVICE_PREFIX
        then a\<lparr>serviceIds := push_new (drop (length SERVICE_PREFIX) r) (serviceIds a)\<rparr>
      else if r = ''services'' then a\<lparr>hasGenericService := True\<rparr>
      else if r = ''rebinding_protection'' then a\<lparr>hasRebinding := True\<rparr>
      else if r = ''custom_rules'' then a\<lparr>hasCustomRule := True\<rparr>
      else if r = ''default_rule'' then a\<lparr>hasDefault := True\<rparr>
      else if r = ''cname_uncloaking'' then a\<lparr>hasCname := True\<rparr>
      else a)"

type_synonym name_table = "(string \<rightharpoonup> string) option"

definition display_name :: "name_table \<Rightarrow> string \<Rightarrow> string" where
  "display_name names i = nullish (Option.bind names (\<lambda>t. t i)) i"

text \<open>The CNAME qualifier goes to the blocklist chips when there are any, else to the custom rule.\<close>

definition cnameOnBlocklist :: "reason_acc \<Rightarrow> bool" where
  "cnameOnBlocklist a =
     (let blocklistSignal = (blocklistIds a \<noteq> [] \<or> hasGenericBlocklist a \<or> hasSubdomain a)
      in hasCname a \<and> (blocklistSignal \<or> \<not> hasCustomRule a))"

definition subdomainSuffix :: "reason_acc \<Rightarrow> string" where
  "subdomainSuffix a =
     (let blocklistQualifiers = (if hasSubdomain a then [''subdomain''] else [])
                                @ (if cnameOnBlocklist a then [''CNAME''] else [])
      in if blocklistQualifiers \<noteq> [] then '' ('' @ js_join '', '' blocklistQualifiers @ '')'' else '''')"

definition customRuleSuffix :: "reason_acc \<Rightarrow> string" where
  "customRuleSuffix a = (if hasCname a \<and> \<not> cnameOnBlocklist a then '' (CNAME)'' else '''')"

definition blocklist_chips :: "name_table \<Rightarrow> reason_acc \<Rightarrow> FormattedReason list" where
  "blocklist_chips blocklistNames a =
     (if blocklistIds a \<noteq> []
      then map (\<lambda>i. \<lparr>kind = KBlocklist,
                      label = ''Blocklist: '' @ display_name blocklistNames i @ subdomainSuffix a\<rparr>)
             (blocklistIds a)
      else if hasGenericBlocklist a \<or> hasSubdomain a \<or> (hasCname a \<and> cnameOnBlocklist a)
      then [\<lparr>kind = KBlocklist, label = ''Blocklist'' @ subdomainSuffix a\<rparr>] else [])"

definition service_chips :: "name_table \<Rightarrow> reason_acc \<Rightarrow> FormattedReason list" where
  "service_chips serviceNames a =
     (if serviceIds a \<noteq> []
      then map (\<lambda>i. \<lparr>kind = KService, label = ''Service: '' @ display_name serviceNames i\<rparr>)
             (serviceIds a)
      else if hasGenericService a then [\<lparr>kind = KService, label = ''Service''\<rparr>] else [])"

definition chips_of :: "name_table \<Rightarrow> name_table \<Rightarrow> reason_acc \<Rightarrow> FormattedReason list" where
  "chips_of blocklistNames serviceNames a =
     (if hasDnssecFailed a then [\<lparr>kind = KDnssec, label = ''DNSSEC validation failed''\<rparr>] else [])
     @ blocklist_chips blocklistNames a
     @ service_chips serviceNames a
     @ (if hasRebinding a then [\<lparr>kind = KRebinding, label = ''Rebinding protection''\<rparr>] else [])
     @ (if hasCustomRule a
        then [\<lparr>kind = KCustomRule, label = ''Custom rule'' @ customRuleSuffix a\<rparr>] else [])
     @ (if hasDefault a then [\<lparr>kind = KDefault, label = ''Default rule''\<rparr>] else [])"

definition formatReasons :: "string list \<Rightarrow> name_table \<Rightarrow> name_table \<Rightarrow> FormattedReason list" where
  "formatReasons reasons blocklistNames serviceNames =
     (if reasons = [] then []
      else chips_of blocklistNames serviceNames (foldl reason_step no_reasons reasons))"

subsection \<open>Outcome labels (formatOutcome.ts)\<close>

definition OUTCOME_LABELS :: "(string \<times> string) list" where
  "OUTCOME_LABELS =
     [(''resolved'', ''Resolved''), (''nodata'', ''No records''),
      (''nxdomain'', ''Domain not found''), (''blocked'', ''Blocked''),
      (''servfail_dnssec'', ''DNSSEC validation failure''),
      (''servfail_upstream'', ''Upstream failure''), (''timeout'', ''Upstream timeout''),
      (''network_error'', ''Upstream unreachable''), (''refused'', ''Refused''),
      (''filter_unavailable'', ''Filtering unavailable'')]"

definition FAILURE_OUTCOMES :: "string list" where
  "FAILURE_OUTCOMES =
     [''blocked'', ''servfail_dnssec'', ''servfail_upstream'', ''timeout'', ''network_error'',
      ''refused'', ''filter_unavailable'']"

definition formatOutcome :: "string option \<Rightarrow> string option \<Rightarrow> string" where
  "formatOutcome outcome responseCode =
     (if truthy_str outcome then nullish (map_of OUTCOME_LABELS (the outcome)) (the outcome)
      else or_str responseCode ''Unknown'')"

record OutcomePair =
  op_queryType :: string
  op_label :: string
  op_failure :: bool

definition member_pair :: "ModelQueryLog \<Rightarrow> OutcomePair" where
  "member_pair m =
     \<lparr>op_queryType = nullish (dns_field dr_query_type m) '''',
      op_label = formatOutcome (ql_outcome m) (dns_field dr_response_code m),
      op_failure = (nullish (ql_outcome m) '''' \<in> set FAILURE_OUTCOMES)\<rparr>"

definition pair_key :: "OutcomePair \<Rightarrow> string" where
  "pair_key p = op_queryType p @ '' '' @ op_label p"

definition outcomePairs :: "ModelQueryLog list \<Rightarrow> OutcomePair list" where
  "outcomePairs ms = dedup_by pair_key [] (map member_pair ms)"

definition UNANSWERED_OUTCOMES :: "string list" where
  "UNANSWERED_OUTCOMES =
     [''servfail_upstream'', ''timeout'', ''network_error'', ''refused'', ''filter_unavailable'']"

definition hasUnansweredMember :: "ModelQueryLog list \<Rightarrow> bool" where
  "hasUnansweredMember ms =
     list_ex (\<lambda>m. nullish (ql_outcome m) '''' \<in> set UNANSWERED_OUTCOMES) ms"

subsection \<open>What the loop over the reasons collects\<close>

definition ids_with_prefix :: "string \<Rightarrow> string list \<Rightarrow> string list" where
  "ids_with_prefix p rs =
     dedup_by (\<lambda>i. i) [] (map (drop (length p)) (filter (\<lambda>r. js_startsWith r p) rs))"

text \<open>The state of the loop, read off the list of reasons.\<close>

definition reasons_seen :: "string list \<Rightarrow> reason_acc" where
  "reasons_seen rs =
     \<lparr>blocklistIds = ids_with_prefix BLOCKLIST_PREFIX rs,
      serviceIds = ids_with_prefix SERVICE_PREFIX rs,
      hasGenericBlocklist = (''blocklists'' \<in> set rs),
      hasGenericService = (''services'' \<in> set rs),
      hasSubdomain = (''blocklists_subdomains_rule'' \<in> set rs),
      hasCustomRule = (''custom_rules'' \<in> set rs),
      hasDefault = (''default_rule'' \<in> set rs),
      hasDnssecFailed = (''dnssec_failed'' \<in> set rs),
      hasRebinding = (''rebinding_protection'' \<in> set rs),
      hasCname = (''cname_uncloaking'' \<in> set rs)\<rparr>"

lemma ids_with_prefix_snoc:
  "ids_with_prefix p (rs @ [r]) =
     (if js_startsWith r p then push_new (drop (length p) r) (ids_with_prefix p rs)
      else ids_with_prefix p rs)"
  by (simp add: ids_with_prefix_def push_new_def dedup_by_snoc dedup_by_id_set)

lemmas prefix_eval = js_startsWith_def BLOCKLIST_PREFIX_def SERVICE_PREFIX_def

lemma prefix_blocklist: "js_startsWith r BLOCKLIST_PREFIX \<longleftrightarrow> (\<exists>i. r = ''blocklist: '' @ i)"
  by (simp add: js_startsWith_iff BLOCKLIST_PREFIX_def)

lemma prefix_service: "js_startsWith r SERVICE_PREFIX \<longleftrightarrow> (\<exists>i. r = ''service: '' @ i)"
  by (simp add: js_startsWith_iff SERVICE_PREFIX_def)

definition plain_reasons :: "string set" where
  "plain_reasons =
     {''dnssec_failed'', ''blocklists'', ''blocklists_subdomains_rule'', ''services'',
      ''rebinding_protection'', ''custom_rules'', ''default_rule'', ''cname_uncloaking''}"

lemma reason_step_seen: "reason_step (reasons_seen rs) r = reasons_seen (rs @ [r])"
proof -
  note step_simps = reason_step_def reasons_seen_def ids_with_prefix_snoc
  consider (plain) "r \<in> plain_reasons" | (blocklist) "js_startsWith r BLOCKLIST_PREFIX"
    | (service) "js_startsWith r SERVICE_PREFIX"
    | (unknown) "r \<notin> plain_reasons" "\<not> js_startsWith r BLOCKLIST_PREFIX" "\<not> js_startsWith r SERVICE_PREFIX"
    by argo
  then show ?thesis
  proof cases
    case plain
    then show ?thesis
      unfolding plain_reasons_def by (elim insertE emptyE) (simp_all add: step_simps prefix_eval)
  next
    case blocklist
    then obtain i where "r = ''blocklist: '' @ i" unfolding prefix_blocklist by blast
    then show ?thesis by (simp add: step_simps prefix_eval)
  next
    case service
    then obtain i where "r = ''service: '' @ i" unfolding prefix_service by blast
    then show ?thesis by (simp add: step_simps prefix_eval)
  next
    case unknown
    then show ?thesis by (auto simp: step_simps plain_reasons_def)
  qed
qed

lemma reasons_fold: "foldl reason_step no_reasons rs = reasons_seen rs"
proof (induction rs rule: rev_induct)
  case Nil
  show ?case by (simp add: no_reasons_def reasons_seen_def ids_with_prefix_def)
qed (simp add: reason_step_seen)

lemmas chips_defs = chips_of_def blocklist_chips_def service_chips_def cnameOnBlocklist_def Let_def

lemma formatReasons_seen: "formatReasons rs bn sn = chips_of bn sn (reasons_seen rs)"
proof (cases rs)
  case Nil
  then show ?thesis
    by (simp add: formatReasons_def chips_defs reasons_seen_def ids_with_prefix_def)
qed (simp add: formatReasons_def reasons_fold del: foldl_Cons)

definition known_reason :: "string \<Rightarrow> bool" where
  "known_reason r = (r \<in> plain_reasons \<or> js_startsWith r BLOCKLIST_PREFIX \<or> js_startsWith r SERVICE_PREFIX)"

definition tier :: "ReasonKind \<Rightarrow> nat" where
  "tier k = (case k of KDnssec \<Rightarrow> 0 | KBlocklist \<Rightarrow> 1 | KSubdomain \<Rightarrow> 1 | KService \<Rightarrow> 2
     | KRebinding \<Rightarrow> 3 | KCustomRule \<Rightarrow> 4 | KDefault \<Rightarrow> 5)"

lemma ids_with_prefix_set: "set (ids_with_prefix p rs) = drop (length p) ` {r \<in> set rs. js_startsWith r p}"
  by (simp add: ids_with_prefix_def dedup_by_id_set)

lemma ids_with_prefix_Nil: "ids_with_prefix p rs = [] \<longleftrightarrow> \<not> (\<exists>r \<in> set rs. js_startsWith r p)"
  unfolding set_empty [symmetric] ids_with_prefix_set by auto

lemma mset_ids_with_prefix:
  "set rs = set rs' \<Longrightarrow> mset (ids_with_prefix p rs) = mset (ids_with_prefix p rs')"
  by (subst set_eq_iff_mset_eq_distinct [symmetric])
    (simp_all add: ids_with_prefix_set, simp_all add: ids_with_prefix_def dedup_by_id_distinct)

lemma chips_Nil:
  "chips_of bn sn a = [] \<longleftrightarrow>
     \<not> hasDnssecFailed a \<and> blocklistIds a = [] \<and> \<not> hasGenericBlocklist a \<and> \<not> hasSubdomain a \<and>
     serviceIds a = [] \<and> \<not> hasGenericService a \<and> \<not> hasRebinding a \<and> \<not> hasCustomRule a \<and>
     \<not> hasDefault a \<and> \<not> hasCname a"
  by (auto simp: chips_defs)

lemma chips_sorted: "sorted (map (\<lambda>c. tier (kind c)) (chips_of bn sn a))"
proof -
  have b: "sorted (map (\<lambda>c. tier (kind c)) (blocklist_chips bn a))"
    "\<forall>c \<in> set (blocklist_chips bn a). kind c = KBlocklist"
    by (auto simp: blocklist_chips_def comp_def)
  have s: "sorted (map (\<lambda>c. tier (kind c)) (service_chips sn a))"
    "\<forall>c \<in> set (service_chips sn a). kind c = KService"
    by (auto simp: service_chips_def comp_def)
  show ?thesis using b s by (auto simp: chips_of_def sorted_append tier_def)
qed

lemma blocklist_chip_suffix:
  "c \<in> set (blocklist_chips bn a) \<Longrightarrow> kind c = KBlocklist \<and> (\<exists>pre. label c = pre @ subdomainSuffix a)"
  by (auto simp: blocklist_chips_def split: if_splits)

lemma subdomain_suffix:
  assumes "hasSubdomain a"
  shows "blocklist_chips bn a \<noteq> []" and "\<exists>x y. subdomainSuffix a = x @ ''(subdomain'' @ y"
proof -
  show "blocklist_chips bn a \<noteq> []" using assms by (simp add: blocklist_chips_def)
  have "subdomainSuffix a = '' '' @ ''(subdomain'' @ (if cnameOnBlocklist a then '', CNAME)'' else '')'')"
    using assms by (simp add: subdomainSuffix_def)
  then show "\<exists>x y. subdomainSuffix a = x @ ''(subdomain'' @ y" by blast
qed

lemma cname_suffix:
  assumes "cnameOnBlocklist a"
  shows "blocklist_chips bn a \<noteq> []" and "\<exists>x. subdomainSuffix a = x @ ''CNAME)''"
proof -
  show "blocklist_chips bn a \<noteq> []"
    using assms by (auto simp: blocklist_chips_def cnameOnBlocklist_def Let_def)
  have "subdomainSuffix a = (if hasSubdomain a then '' (subdomain, '' else '' ('') @ ''CNAME)''"
    using assms by (simp add: subdomainSuffix_def)
  then show "\<exists>x. subdomainSuffix a = x @ ''CNAME)''" by blast
qed

lemma subdomain_chip:
  assumes "hasSubdomain a"
  shows "\<exists>c \<in> set (chips_of bn sn a). kind c = KBlocklist \<and> js_includes (label c) ''(subdomain''"
proof -
  obtain c where c: "c \<in> set (blocklist_chips bn a)"
    using subdomain_suffix(1) [OF assms] by (meson list.set_sel(1))
  obtain pre x y where "label c = (pre @ x) @ ''(subdomain'' @ y"
    using blocklist_chip_suffix [OF c] subdomain_suffix(2) [OF assms] by (metis append.assoc)
  then have "js_includes (label c) ''(subdomain''" unfolding js_includes_iff by blast
  moreover have "c \<in> set (chips_of bn sn a)" using c by (simp add: chips_of_def)
  ultimately show ?thesis using blocklist_chip_suffix [OF c] by auto
qed

lemma cname_chip:
  assumes "hasCname a"
  shows "\<exists>c \<in> set (chips_of bn sn a). kind c \<in> {KBlocklist, KCustomRule} \<and> js_endsWith (label c) ''CNAME)''"
proof (cases "cnameOnBlocklist a")
  case True
  obtain c where c: "c \<in> set (blocklist_chips bn a)"
    using cname_suffix(1) [OF True] by (meson list.set_sel(1))
  obtain pre x where "label c = (pre @ x) @ ''CNAME)''"
    using blocklist_chip_suffix [OF c] cname_suffix(2) [OF True] by (metis append.assoc)
  then have "js_endsWith (label c) ''CNAME)''" unfolding js_endsWith_iff by blast
  moreover have "c \<in> set (chips_of bn sn a)" using c by (simp add: chips_of_def)
  ultimately show ?thesis using blocklist_chip_suffix [OF c] by auto
next
  case False
  let ?c = "\<lparr>kind = KCustomRule, label = ''Custom rule ('' @ ''CNAME)''\<rparr>"
  have "?c \<in> set (chips_of bn sn a)"
    using False assms by (auto simp: chips_of_def customRuleSuffix_def cnameOnBlocklist_def Let_def)
  moreover have "js_endsWith (label ?c) ''CNAME)''" unfolding js_endsWith_iff by auto
  ultimately show ?thesis by (intro bexI [of _ ?c]) simp_all
qed

text \<open>A query type without a space is recovered from the key of a pair.\<close>

lemma pair_key_inj:
  assumes "list_all (\<lambda>m. CHR '' '' \<notin> set (nullish (dns_field dr_query_type m) '''')) ms"
    and "m \<in> set ms" "m' \<in> set ms"
  shows "pair_key (member_pair m) = pair_key (member_pair m') \<longleftrightarrow>
         (op_queryType (member_pair m), op_label (member_pair m)) =
           (op_queryType (member_pair m'), op_label (member_pair m'))"
  using assms first_sep_inj [of "CHR '' ''" "op_queryType (member_pair m)" "op_queryType (member_pair m')"
      "op_label (member_pair m)" "op_label (member_pair m')"]
  by (auto simp: pair_key_def list_all_iff member_pair_def)

text \<open>The labels of the outcomes of the table are pairwise different.\<close>

lemma table_label_inj:
  assumes "nullish x '''' \<in> fst ` set OUTCOME_LABELS" "nullish y '''' \<in> fst ` set OUTCOME_LABELS"
    and "formatOutcome x r = formatOutcome y r'"
  shows "nullish x '''' = nullish y ''''"
proof -
  have inj: "inj_on (\<lambda>o'. the (map_of OUTCOME_LABELS o')) (fst ` set OUTCOME_LABELS)"
    by (simp add: inj_on_def OUTCOME_LABELS_def)
  have table: "formatOutcome z r = the (map_of OUTCOME_LABELS (nullish z ''''))"
    if "nullish z '''' \<in> fst ` set OUTCOME_LABELS" for z r
    using that by (cases z) (auto simp: formatOutcome_def OUTCOME_LABELS_def)
  show ?thesis using assms table inj_onD [OF inj] by metis
qed

subsection \<open>Properties\<close>

text \<open>
  Fact (formatReasons_shows_known). The chips come in the order of the proxy's tiers, and
  there is no chip only when the entry has no token the page knows: a known token, alone or among
  others, is never dropped silently, and an unknown one never makes a chip.
\<close>

theorem formatReasons_shows_known:
  "sorted (map (\<lambda>c. tier (kind c)) (formatReasons rs bn sn)) \<and>
   (formatReasons rs bn sn = [] \<longleftrightarrow> \<not> list_ex known_reason rs)"
proof -
  have "chips_of bn sn (reasons_seen rs) = [] \<longleftrightarrow> \<not> list_ex known_reason rs"
    unfolding chips_Nil reasons_seen_def list_ex_iff known_reason_def plain_reasons_def
    by (auto simp: ids_with_prefix_Nil)
  then show ?thesis by (simp add: formatReasons_seen chips_sorted)
qed

text \<open>
  Fact (formatReasons_order_free). Neither the order nor the number of occurrences of the
  tokens matters: two entries with the same set of tokens get the same chips, up to the order of
  the ids within a tier.
\<close>

theorem formatReasons_order_free:
  assumes "set rs = set rs'"
  shows "mset (formatReasons rs bn sn) = mset (formatReasons rs' bn sn)"
proof -
  note ids = mset_ids_with_prefix [OF assms]
  have nil: "ids_with_prefix p rs = [] \<longleftrightarrow> ids_with_prefix p rs' = []" for p
    using assms by (simp add: ids_with_prefix_Nil)
  show ?thesis
    unfolding formatReasons_seen chips_of_def blocklist_chips_def service_chips_def subdomainSuffix_def
      customRuleSuffix_def cnameOnBlocklist_def Let_def mset_append reasons_seen_def reason_acc.simps
      assms nil
    by (intro arg_cong2 [where f = "(+)"] refl) (simp_all add: ids)
qed

text \<open>
  Fact (qualifiers_shown). A subdomain match and a CNAME match have no chip of their own;
  each is named in the label of some chip, also when the reason it qualifies is missing.
\<close>

theorem qualifiers_shown:
  "(''blocklists_subdomains_rule'' \<in> set rs \<longrightarrow>
      list_ex (\<lambda>c. kind c = KBlocklist \<and> js_includes (label c) ''(subdomain'') (formatReasons rs bn sn)) \<and>
   (''cname_uncloaking'' \<in> set rs \<longrightarrow>
      list_ex (\<lambda>c. kind c \<in> {KBlocklist, KCustomRule} \<and> js_endsWith (label c) ''CNAME)'') (formatReasons rs bn sn))"
  unfolding formatReasons_seen list_ex_iff
  using subdomain_chip [of "reasons_seen rs" bn sn] cname_chip [of "reasons_seen rs" bn sn]
  by (simp add: reasons_seen_def)

text \<open>
  Fact (outcomePairs_once). When no query type contains a space, the pairs of a group are
  the pairs of its members in order of first occurrence, each (type, label) once.
\<close>

theorem outcomePairs_once:
  assumes "list_all (\<lambda>m. CHR '' '' \<notin> set (nullish (dns_field dr_query_type m) '''')) ms"
  shows "distinct (map (\<lambda>p. (op_queryType p, op_label p)) (outcomePairs ms)) \<and>
         set (map (\<lambda>p. (op_queryType p, op_label p)) (outcomePairs ms)) =
           set (map (\<lambda>m. (nullish (dns_field dr_query_type m) '''',
                          formatOutcome (ql_outcome m) (dns_field dr_response_code m))) ms) \<and>
         subseq (outcomePairs ms) (map member_pair ms)"
proof -
  let ?tl = "\<lambda>p. (op_queryType p, op_label p)"
  have "outcomePairs ms = dedup_by ?tl [] (map member_pair ms)"
    unfolding outcomePairs_def by (rule dedup_by_key_cong) (use pair_key_inj [OF assms] in auto)
  then show ?thesis
    using dedup_by_keys [of ?tl "[]" "map member_pair ms"] dedup_by_subseq [of ?tl "[]" "map member_pair ms"]
    by (auto simp: dedup_by_distinct member_pair_def image_image)
qed

text \<open>
  Fact (unanswered_has_failure_chip). A collapsed card that says \<^emph>\<open>No answer\<close> shows a red
  outcome chip when it is expanded, as long as every member carries an outcome of the table.
\<close>

theorem unanswered_has_failure_chip:
  assumes "list_all (\<lambda>m. nullish (ql_outcome m) '''' \<in> fst ` set OUTCOME_LABELS) ms"
    and "list_all (\<lambda>m. CHR '' '' \<notin> set (nullish (dns_field dr_query_type m) '''')) ms"
    and "hasUnansweredMember ms"
  shows "list_ex op_failure (outcomePairs ms)"
proof -
  let ?o = "\<lambda>m. nullish (ql_outcome m) ''''"
  obtain m where m: "m \<in> set ms" "?o m \<in> set UNANSWERED_OUTCOMES"
    using assms(3) by (auto simp: hasUnansweredMember_def list_ex_iff)
  then have "pair_key (member_pair m) \<in> pair_key ` set (outcomePairs ms)"
    by (auto simp: outcomePairs_def dedup_by_keys)
  then obtain p where p: "p \<in> set (outcomePairs ms)" "pair_key p = pair_key (member_pair m)" by auto
  then obtain m' where m': "m' \<in> set ms" "p = member_pair m'"
    using dedup_by_subset [of pair_key "[]" "map member_pair ms"] by (auto simp: outcomePairs_def)
  have "op_label (member_pair m') = op_label (member_pair m)"
    using pair_key_inj [OF assms(2) m'(1) m(1)] p(2) m'(2) by simp
  then have "?o m' = ?o m"
    using assms(1) m(1) m'(1) by (intro table_label_inj) (auto simp: list_all_iff member_pair_def)
  then have "op_failure p"
    using m(2) by (auto simp: m'(2) member_pair_def UNANSWERED_OUTCOMES_def FAILURE_OUTCOMES_def)
  then show ?thesis using p(1) by (auto simp: list_ex_iff)
qed

subsection \<open>Witnesses\<close>

definition outcome_log :: "string \<Rightarrow> string \<Rightarrow> ModelQueryLog" where
  "outcome_log qt oc =
     \<lparr>ql_client_ip = None, ql_device_id = None,
      ql_dns_request = Some \<lparr>dr_dnssec = None, dr_domain = None, dr_query_type = Some qt,
                             dr_response_code = None\<rparr>,
      ql_id = None, ql_outcome = Some oc, ql_profile_id = None, ql_protocol = None,
      ql_reasons = None, ql_status = None, ql_timestamp = None\<rparr>"

theorem formatReasons_order_free_witness:
  "mset (formatReasons [''service: x'', ''blocklist: a'', ''blocklist: b'', ''blocklist: a''] None None) =
   mset (formatReasons [''blocklist: b'', ''blocklist: a'', ''service: x''] None None)"
  by (rule formatReasons_order_free) auto

theorem qualifiers_shown_witness:
  "list_ex (\<lambda>c. kind c \<in> {KBlocklist, KCustomRule} \<and> js_endsWith (label c) ''CNAME)'')
     (formatReasons [''cname_uncloaking'', ''custom_rules''] None None)"
  using qualifiers_shown [of "[''cname_uncloaking'', ''custom_rules'']" None None] by simp

theorem outcomePairs_once_witness:
  "distinct (map (\<lambda>p. (op_queryType p, op_label p))
     (outcomePairs [outcome_log ''A'' ''resolved'', outcome_log ''AAAA'' ''nodata'', outcome_log ''A'' ''resolved'']))"
  using outcomePairs_once
    [of "[outcome_log ''A'' ''resolved'', outcome_log ''AAAA'' ''nodata'', outcome_log ''A'' ''resolved'']"]
  by (simp add: outcome_log_def)

theorem unanswered_has_failure_chip_witness:
  "list_ex op_failure (outcomePairs [outcome_log ''A'' ''resolved'', outcome_log ''A'' ''timeout''])"
  by (rule unanswered_has_failure_chip)
    (simp_all add: outcome_log_def OUTCOME_LABELS_def hasUnansweredMember_def UNANSWERED_OUTCOMES_def)

end
