(* ===== verification/DataCollection.thy ===== *)
theory DataCollection
  imports ApiTypes JsDate
begin

text \<open>
  The data-collection setting of a profile: the state machine of
  app/src/components/data-collection/model.ts, and the API's side of the same setting
  (applyPatchOperations, applySettingsTransitions in api/service/profile/service.go, isTurnOffOnly
  in api/internal/middleware/subscription.go), against which the app's promises are proved.

  \<open>Intl.DateTimeFormat\<close> depends on the host's locale, so the three formatters are a record of
  functions passed to the operations that produce dates. Time values are integers; \<open>-Infinity\<close>
  stands for an absent time and is \<open>None\<close>.
\<close>

subsection \<open>State\<close>

datatype LogsRetention = L1h | L6h | L1d | L1w | L1m

datatype StatsRetention = R30d | R90d | R1y

record DataCollectionState =
  stats :: bool
  logs :: bool
  statsRetention :: StatsRetention
  domains :: bool
  ips :: bool
  retention :: LogsRetention

datatype StateKey = S0 | S1 | S2 | S3

datatype retention_change = Raise | Lower

record dialog_copy =
  title :: string
  body :: string
  confirm :: string

record Transition =
  t_id :: string
  t_label :: string
  t_toast :: string
  t_note :: "string option"
  t_dialog :: "dialog_copy option"
  t_retention :: "retention_change option"
  t_logsRetention :: "retention_change option"
  t_lost :: "string option"
  t_nothingOlder :: bool

fun LOGS_RETENTION_WORDS :: "LogsRetention \<Rightarrow> string" where
  "LOGS_RETENTION_WORDS L1h = ''1 hour''"
| "LOGS_RETENTION_WORDS L6h = ''6 hours''"
| "LOGS_RETENTION_WORDS L1d = ''1 day''"
| "LOGS_RETENTION_WORDS L1w = ''1 week''"
| "LOGS_RETENTION_WORDS L1m = ''1 month''"

fun LOGS_RETENTION_HOURS :: "LogsRetention \<Rightarrow> int" where
  "LOGS_RETENTION_HOURS L1h = 1"
| "LOGS_RETENTION_HOURS L6h = 6"
| "LOGS_RETENTION_HOURS L1d = 24"
| "LOGS_RETENTION_HOURS L1w = 168"
| "LOGS_RETENTION_HOURS L1m = 720"

text \<open>The strings the two retention types stand for, which are also the wire values.\<close>

fun logs_value :: "LogsRetention \<Rightarrow> string" where
  "logs_value L1h = ''1h''" | "logs_value L6h = ''6h''" | "logs_value L1d = ''1d''"
| "logs_value L1w = ''1w''" | "logs_value L1m = ''1m''"

fun stats_value :: "StatsRetention \<Rightarrow> string" where
  "stats_value R30d = ''30d''" | "stats_value R90d = ''90d''" | "stats_value R1y = ''1y''"

definition LOGS_RETENTION_OPTIONS :: "(LogsRetention \<times> string) list" where
  "LOGS_RETENTION_OPTIONS = [(L1h, ''1 H''), (L6h, ''6 H''), (L1d, ''1 D''), (L1w, ''1 W''), (L1m, ''1 M'')]"

record stats_option =
  so_value :: StatsRetention
  so_label :: string
  so_words :: string
  so_days :: int

definition STATS_RETENTION_OPTIONS :: "stats_option list" where
  "STATS_RETENTION_OPTIONS =
     [\<lparr>so_value = R30d, so_label = ''30 D'', so_words = ''30 days'', so_days = 30\<rparr>,
      \<lparr>so_value = R90d, so_label = ''90 D'', so_words = ''90 days'', so_days = 90\<rparr>,
      \<lparr>so_value = R1y, so_label = ''1 Y'', so_words = ''1 year'', so_days = 365\<rparr>]"

definition normalizeStatsRetention :: "string option \<Rightarrow> StatsRetention" where
  "normalizeStatsRetention v =
     nullish (map_option so_value
       (find (\<lambda>o'. Some (stats_value (so_value o')) = v) STATS_RETENTION_OPTIONS)) R30d"

definition stats_option_of :: "StatsRetention \<Rightarrow> stats_option" where
  "stats_option_of r = the (find (\<lambda>o'. so_value o' = r) STATS_RETENTION_OPTIONS)"

definition statsRetentionWords :: "string option \<Rightarrow> string" where
  "statsRetentionWords v = so_words (stats_option_of (normalizeStatsRetention v))"

definition statsDays :: "StatsRetention \<Rightarrow> int" where
  "statsDays r = so_days (stats_option_of r)"

definition profile_statistics :: "ModelProfile option \<Rightarrow> ModelStatisticsSettings option" where
  "profile_statistics p = Option.bind (Option.bind p pf_settings) ps_statistics"

definition profile_logs :: "ModelProfile option \<Rightarrow> ModelLogsSettings option" where
  "profile_logs p = Option.bind (Option.bind p pf_settings) ps_logs"

definition profileStatsRetention :: "ModelProfile option \<Rightarrow> StatsRetention" where
  "profileStatsRetention p = normalizeStatsRetention (Option.bind (profile_statistics p) ss_retention)"

text \<open>\<open>retention in LOGS_RETENTION_WORDS\<close> holds of the five keys (and of inherited names).\<close>

definition parse_logs_retention :: "string option \<Rightarrow> LogsRetention" where
  "parse_logs_retention v =
     nullish (find (\<lambda>r. Some (logs_value r) = v) [L1h, L6h, L1d, L1w, L1m]) L1h"

definition fromProfile :: "ModelProfile option \<Rightarrow> DataCollectionState" where
  "fromProfile p =
     (let l = profile_logs p; s = profile_statistics p in
      \<lparr>stats = truthy_bool (Option.bind s ss_enabled),
       logs = truthy_bool (Option.bind l ls_enabled),
       statsRetention = normalizeStatsRetention (Option.bind s ss_retention),
       domains = nullish (Option.bind l ls_log_domains) True,
       ips = nullish (Option.bind l ls_log_clients_ips) False,
       retention = parse_logs_retention (Option.bind l ls_retention)\<rparr>)"

definition stateKey :: "DataCollectionState \<Rightarrow> StateKey" where
  "stateKey s = (if logs s then (if stats s then S2 else S3) else if stats s then S1 else S0)"

definition retentionChange :: "DataCollectionState \<Rightarrow> DataCollectionState \<Rightarrow> retention_change option" where
  "retentionChange saved pending =
     (if \<not> stats saved \<or> \<not> stats pending \<or> statsRetention saved = statsRetention pending then None
      else if statsDays (statsRetention pending) > statsDays (statsRetention saved)
      then Some Raise else Some Lower)"

definition logsRetentionChange ::
  "DataCollectionState \<Rightarrow> DataCollectionState \<Rightarrow> retention_change option" where
  "logsRetentionChange saved pending =
     (if \<not> logs saved \<or> \<not> logs pending \<or> retention saved = retention pending then None
      else if LOGS_RETENTION_HOURS (retention pending) > LOGS_RETENTION_HOURS (retention saved)
      then Some Raise else Some Lower)"

definition logsFieldsChanged :: "DataCollectionState \<Rightarrow> DataCollectionState \<Rightarrow> bool" where
  "logsFieldsChanged saved pending =
     (logs pending \<and> (domains pending \<noteq> domains saved \<or> ips pending \<noteq> ips saved))"

subsection \<open>What is held, and what a change deletes\<close>

definition UNDONE :: string where "UNDONE = ''This action cannot be undone.''"
definition DAY_MS :: int where "DAY_MS = 86400000"

record StatsHeld =
  nowMs :: int
  oldestMs :: int
  firstDayMs :: int

definition parseTime :: "time_parser \<Rightarrow> string option \<Rightarrow> int option" where
  "parseTime parse v = Option.bind v parse"

definition floorDay :: "int \<Rightarrow> int" where
  "floorDay ms = (ms div DAY_MS) * DAY_MS"

text \<open>\<open>Math.max\<close> of two times of which one may be \<open>-Infinity\<close>.\<close>

definition max_time :: "int option \<Rightarrow> int \<Rightarrow> int" where
  "max_time x y = (case x of None \<Rightarrow> y | Some v \<Rightarrow> max v y)"

definition max_time2 :: "int option \<Rightarrow> int option \<Rightarrow> int option" where
  "max_time2 x y = (case y of None \<Rightarrow> x | Some v \<Rightarrow> Some (max_time x v))"

definition statsHeld :: "time_parser \<Rightarrow> ModelProfile option \<Rightarrow> int \<Rightarrow> StatsHeld option" where
  "statsHeld parse p now =
     (case profile_statistics p of
        None \<Rightarrow> None
      | Some s \<Rightarrow>
          if \<not> truthy_bool (ss_enabled s) then None
          else
            let enabledAt = parseTime parse (ss_enabled_at s);
                deletedAt = parseTime parse (ss_history_deleted_at s)
            in if enabledAt = None \<and> deletedAt = None then None
               else
                 let limit = now - statsDays (normalizeStatsRetention (ss_retention s)) * DAY_MS;
                     start = max_time2 enabledAt deletedAt;
                     startDay = max_time2 (map_option floorDay enabledAt)
                                  (map_option (\<lambda>t. floorDay t + DAY_MS) deletedAt)
                 in Some \<lparr>nowMs = now, oldestMs = max_time start limit,
                          firstDayMs = max_time startDay (floorDay limit)\<rparr>)"

definition days :: "int \<Rightarrow> string" where
  "days n = show_int n @ '' '' @ (if n = 1 then ''day'' else ''days'')"

text \<open>
  The host's formatters. \<open>fmt_date\<close> takes whether the year is shown, \<open>fmt_time\<close> whether the date
  is; \<open>fmt_utc\<close> is month and day in UTC. The time zone gives the local year and day.
\<close>

record date_formats =
  fmt_tz :: time_zone
  fmt_date :: "bool \<Rightarrow> int \<Rightarrow> string"
  fmt_time :: "bool \<Rightarrow> int \<Rightarrow> string"
  fmt_utc :: "int \<Rightarrow> string"

definition localDate :: "date_formats \<Rightarrow> int \<Rightarrow> int \<Rightarrow> string" where
  "localDate f ms now =
     (let sameYear = (utc_year (local_ms (fmt_tz f) ms) = utc_year (local_ms (fmt_tz f) now))
      in fmt_date f (\<not> sameYear) ms)"

definition localTime :: "date_formats \<Rightarrow> int \<Rightarrow> int \<Rightarrow> string" where
  "localTime f ms now =
     (let today = (local_day (fmt_tz f) ms = local_day (fmt_tz f) now)
      in fmt_time f (\<not> today) ms)"

definition heldSentence :: "date_formats \<Rightarrow> StatsHeld \<Rightarrow> string" where
  "heldSentence f h =
     (let n = (nowMs h - oldestMs h) div DAY_MS
      in if n < 1 then ''The counts go back to '' @ localTime f (oldestMs h) (nowMs h) @ ''.''
         else ''The counts go back to '' @ localDate f (oldestMs h) (nowMs h)
              @ '' ('' @ days n @ '').'')"

text \<open>\<open>indexOf\<close> and \<open>replace\<close> of a substring: the text before its first occurrence and after.\<close>

fun js_cut :: "string \<Rightarrow> string \<Rightarrow> (string \<times> string) option" where
  "js_cut t [] = (if t = [] then Some ([], []) else None)"
| "js_cut t (c # s) =
     (if js_startsWith (c # s) t then Some ([], drop (length t) (c # s))
      else map_option (\<lambda>(a, b). (c # a, b)) (js_cut t s))"

definition js_replace :: "string \<Rightarrow> string \<Rightarrow> string \<Rightarrow> string" where
  "js_replace s t r = (case js_cut t s of None \<Rightarrow> s | Some (a, b) \<Rightarrow> a @ r @ b)"

definition afterFirstSentence :: "string \<Rightarrow> string \<Rightarrow> string" where
  "afterFirstSentence b sentence =
     (case js_cut ''. '' b of
        None \<Rightarrow> b @ '' '' @ sentence
      | Some (x, y) \<Rightarrow> x @ ''. '' @ sentence @ '' '' @ y)"

text \<open>\<open>Math.round\<close> of a quotient rounds halves up.\<close>

definition round_div :: "int \<Rightarrow> int \<Rightarrow> int" where
  "round_div a b = (2 * a + b) div (2 * b)"

definition lostSentence :: "date_formats \<Rightarrow> StatsHeld \<Rightarrow> int \<Rightarrow> string option" where
  "lostSentence f h keepDays =
     (let cutoff = floorDay (nowMs h - keepDays * DAY_MS);
          n = round_div (cutoff - firstDayMs h) DAY_MS
      in if n < 1 then None
         else let first = fmt_utc f (firstDayMs h) in
           Some (if n = 1 then ''That is 1 day of counts, '' @ first @ ''.''
                 else ''That is '' @ days n @ '' of counts, from '' @ first @ '' to ''
                      @ fmt_utc f (cutoff - DAY_MS) @ ''.''))"

definition DELETES_STATS :: "string list" where
  "DELETES_STATS = [''T4'', ''T6'', ''T7'', ''T9'']"

definition withHeld :: "date_formats \<Rightarrow> Transition option \<Rightarrow> StatsHeld option \<Rightarrow> Transition option" where
  "withHeld f t h =
     (case (t, h) of
        (Some tr, Some held) \<Rightarrow>
          (case t_dialog tr of
             None \<Rightarrow> t
           | Some d \<Rightarrow>
               if t_id tr \<in> set DELETES_STATS
               then Some (tr\<lparr>t_dialog := Some (d\<lparr>body := afterFirstSentence (body d) (heldSentence f held)\<rparr>)\<rparr>)
               else t)
      | _ \<Rightarrow> t)"

subsection \<open>Transitions\<close>

definition FIRST :: string where
  "FIRST = '' The first counts appear at the next quarter hour.''"

definition quiet :: "string \<Rightarrow> string \<Rightarrow> string \<Rightarrow> string option \<Rightarrow> Transition" where
  "quiet i l t n =
     \<lparr>t_id = i, t_label = l, t_toast = t, t_note = n, t_dialog = None, t_retention = None,
      t_logsRetention = None, t_lost = None, t_nothingOlder = False\<rparr>"

definition asking :: "string \<Rightarrow> string \<Rightarrow> string \<Rightarrow> string option \<Rightarrow> string \<Rightarrow> string \<Rightarrow> string \<Rightarrow> Transition" where
  "asking i l t n dt db dc =
     (quiet i l t n)\<lparr>t_dialog := Some \<lparr>title = dt, body = db, confirm = dc\<rparr>\<rparr>"

fun stateTransition :: "StateKey \<Rightarrow> StateKey \<Rightarrow> string \<Rightarrow> string \<Rightarrow> Transition option" where
  "stateTransition S0 S1 logsWords statsWords =
     Some (quiet ''T1'' ''Turn on statistics'' ''Statistics turned on.''
       (Some (''modDNS will start counting this profile's queries per device and keep the counts for ''
          @ statsWords @ ''. No domains or addresses are stored.'' @ FIRST)))"
| "stateTransition S0 S2 logsWords statsWords =
     Some (quiet ''T2'' ''Turn on statistics and query logs'' ''Statistics and query logs turned on.''
       (Some (''modDNS will record each query for '' @ logsWords
          @ '' and keep counts per device for '' @ statsWords @ ''.'' @ FIRST)))"
| "stateTransition S0 S3 logsWords statsWords =
     Some (quiet ''T3'' ''Turn on query logs'' ''Query logs turned on.''
       (Some (''modDNS will record each query for '' @ logsWords @ ''. No counts are kept.'')))"
| "stateTransition S1 S0 logsWords statsWords =
     Some (asking ''T4'' ''Turn off'' ''Statistics turned off and deleted.'' None
       ''Turn off statistics?''
       (''All statistics for this profile will be permanently deleted. '' @ UNDONE)
       ''Turn off and delete'')"
| "stateTransition S1 S2 logsWords statsWords =
     Some (quiet ''T5'' ''Turn on query logs'' ''Query logs turned on.''
       (Some (''modDNS will also record each query for '' @ logsWords @ ''.'')))"
| "stateTransition S1 S3 logsWords statsWords =
     Some (asking ''T6'' ''Save changes'' ''Data collection updated.''
       (Some (''modDNS will record each query for '' @ logsWords @ ''. No counts are kept.''))
       ''Switch to query logs only?''
       (''All statistics for this profile will be permanently deleted, and modDNS will start recording each query for ''
          @ logsWords @ ''. '' @ UNDONE)
       ''Switch and delete statistics'')"
| "stateTransition S2 S0 logsWords statsWords =
     Some (asking ''T7'' ''Turn off'' ''Data collection turned off. Logs and statistics deleted.'' None
       ''Turn off data collection?''
       (''All query logs and statistics for this profile will be permanently deleted. '' @ UNDONE)
       ''Turn off and delete'')"
| "stateTransition S2 S1 logsWords statsWords =
     Some (asking ''T8'' ''Save changes'' ''Query logs turned off and deleted.'' None
       ''Turn off query logs?''
       (''All query logs for this profile will be permanently deleted. Statistics stay on. '' @ UNDONE)
       ''Delete logs'')"
| "stateTransition S2 S3 logsWords statsWords =
     Some (asking ''T9'' ''Save changes'' ''Statistics turned off and deleted.'' None
       ''Stop keeping statistics?''
       (''All statistics for this profile will be permanently deleted. Query logs stay on. '' @ UNDONE)
       ''Delete statistics'')"
| "stateTransition S3 S0 logsWords statsWords =
     Some (asking ''T10'' ''Turn off'' ''Query logs turned off and deleted.'' None
       ''Turn off query logs?''
       (''All query logs for this profile will be permanently deleted. '' @ UNDONE)
       ''Turn off and delete'')"
| "stateTransition S3 S1 logsWords statsWords =
     Some (asking ''T11'' ''Save changes'' ''Data collection updated.''
       (Some (''modDNS will start counting this profile's queries per device and keep the counts for ''
          @ statsWords @ ''.'' @ FIRST))
       ''Switch to statistics?''
       (''All query logs for this profile will be permanently deleted, and modDNS will start counting queries per device for ''
          @ statsWords @ ''. '' @ UNDONE)
       ''Switch and delete logs'')"
| "stateTransition S3 S2 logsWords statsWords =
     Some (quiet ''T12'' ''Turn on statistics'' ''Statistics turned on.''
       (Some (''modDNS will also keep counts per device for '' @ statsWords @ ''.'' @ FIRST)))"
| "stateTransition S0 S0 logsWords statsWords = None"
| "stateTransition S1 S1 logsWords statsWords = None"
| "stateTransition S2 S2 logsWords statsWords = None"
| "stateTransition S3 S3 logsWords statsWords = None"

definition logsKeepNote :: "string \<Rightarrow> string" where
  "logsKeepNote logsWords = ''modDNS will keep this profile's query logs for up to '' @ logsWords @ ''.''"

definition logsOlder :: "string \<Rightarrow> string" where
  "logsOlder logsWords = ''Query logs older than '' @ logsWords @ '' will be permanently deleted.''"

definition logsRetentionAlone :: "retention_change \<Rightarrow> string \<Rightarrow> Transition" where
  "logsRetentionAlone change logsWords =
     (if change = Raise
      then (quiet ''T17'' (''Keep for '' @ logsWords) (''Query logs are now kept for '' @ logsWords @ ''.'')
              (Some (logsKeepNote logsWords)))\<lparr>t_logsRetention := Some change\<rparr>
      else (asking ''T18'' ''Save changes''
              (''Query logs are now kept for '' @ logsWords @ ''. Older logs deleted.'') None
              (''Keep query logs for '' @ logsWords @ ''?'')
              (logsOlder logsWords @ '' '' @ UNDONE) ''Delete older logs'')\<lparr>t_logsRetention := Some change\<rparr>)"

text \<open>The regular expression \<open>/^T([4-9]|1[01])$/\<close>.\<close>

definition stateDialog :: "Transition \<Rightarrow> bool" where
  "stateDialog t =
     (t_id t \<in> set [''T4'', ''T5'', ''T6'', ''T7'', ''T8'', ''T9'', ''T10'', ''T11''])"

definition add_note :: "string \<Rightarrow> string option \<Rightarrow> string option" where
  "add_note note n = Some (if truthy_str n then the n @ '' '' @ note else note)"

definition withLogsRetention :: "Transition \<Rightarrow> retention_change option \<Rightarrow> string \<Rightarrow> Transition" where
  "withLogsRetention t change logsWords =
     (if change = Some Raise
      then t\<lparr>t_note := add_note (logsKeepNote logsWords) (t_note t), t_logsRetention := change\<rparr>
      else if change \<noteq> Some Lower then t
      else let older = logsOlder logsWords in
        case t_dialog t of
          None \<Rightarrow>
            t\<lparr>t_logsRetention := change,
              t_dialog := Some \<lparr>title = ''Keep query logs for '' @ logsWords @ ''?'',
                                body = older @ '' '' @ UNDONE, confirm = ''Delete older logs''\<rparr>\<rparr>
        | Some d \<Rightarrow>
            let d' = (if \<not> stateDialog t
                      then d\<lparr>title := ''Delete older counts and logs?'', confirm := ''Delete older data''\<rparr>
                      else d)
            in t\<lparr>t_logsRetention := change,
                 t_dialog := Some (d'\<lparr>body := js_replace (body d) UNDONE (older @ '' '' @ UNDONE)\<rparr>)\<rparr>)"

definition countsOlder :: "string \<Rightarrow> string option \<Rightarrow> string" where
  "countsOlder statsWords lost =
     ''Counts older than '' @ statsWords @ '' will be permanently deleted.''
     @ (if truthy_str lost then '' '' @ the lost else '''')"

definition counts_dialog :: "string \<Rightarrow> string \<Rightarrow> dialog_copy" where
  "counts_dialog statsWords b =
     \<lparr>title = ''Keep statistics for '' @ statsWords @ ''?'', body = b, confirm = ''Delete older counts''\<rparr>"

definition counts_body :: "string \<Rightarrow> string option \<Rightarrow> string" where
  "counts_body statsWords lost =
     ''Counts older than '' @ statsWords @ '' will be permanently deleted. ''
     @ (if truthy_str lost then the lost @ '' '' else '''') @ UNDONE"

text \<open>
  The statistics-retention part added to another change (the last block of transitionFor before
  its call of withLogsRetention).
\<close>

definition withStatsRetention ::
  "Transition \<Rightarrow> retention_change option \<Rightarrow> bool \<Rightarrow> string option \<Rightarrow> string \<Rightarrow> string \<Rightarrow> Transition" where
  "withStatsRetention t change nothingOlder lost statsWords keepNote =
     (if change = Some Raise
      then t\<lparr>t_note := add_note (''modDNS will keep this profile's counts for up to '' @ statsWords @ ''.'')
                          (t_note t),
             t_retention := change\<rparr>
      else if nothingOlder
      then (if t_dialog t \<noteq> None then t\<lparr>t_retention := change, t_nothingOlder := True\<rparr>
            else t\<lparr>t_note := add_note keepNote (t_note t), t_retention := change, t_nothingOlder := True\<rparr>)
      else if change = Some Lower
      then let older = countsOlder statsWords lost
           in t\<lparr>t_retention := change,
                t_lost := (if truthy_str lost then lost else t_lost t),
                t_dialog := Some (case t_dialog t of
                    Some d \<Rightarrow> d\<lparr>body := js_replace (body d) UNDONE (older @ '' '' @ UNDONE)\<rparr>
                  | None \<Rightarrow> counts_dialog statsWords (older @ '' '' @ UNDONE))\<rparr>
      else t)"

definition transitionFor ::
  "date_formats \<Rightarrow> DataCollectionState \<Rightarrow> DataCollectionState \<Rightarrow> StatsHeld option \<Rightarrow> Transition option" where
  "transitionFor f saved pending held =
     (let logsWords = LOGS_RETENTION_WORDS (retention pending);
          statsWords = statsRetentionWords (Some (stats_value (statsRetention pending)));
          rc = retentionChange saved pending;
          lc = logsRetentionChange saved pending;
          logsSubs = (logsFieldsChanged saved pending \<or> lc \<noteq> None);
          lost = (if rc = Some Lower
                  then Option.bind held (\<lambda>h. lostSentence f h (statsDays (statsRetention pending)))
                  else None);
          nothingOlder = (rc = Some Lower \<and> held \<noteq> None \<and> lost = None);
          keepNote = ''No counts are older than '' @ statsWords @ '' yet, so nothing is deleted.'';
          rest = (\<lambda>t. Some (withLogsRetention
                   (withStatsRetention t rc nothingOlder lost statsWords keepNote) lc logsWords))
      in case withHeld f (stateTransition (stateKey saved) (stateKey pending) logsWords statsWords) held of
           Some t \<Rightarrow> rest t
         | None \<Rightarrow>
             if rc = Some Raise \<and> \<not> logsSubs
             then Some ((quiet ''T14'' (''Keep for '' @ statsWords)
                     (''Statistics are now kept for '' @ statsWords @ ''.'')
                     (Some (''modDNS will keep this profile's counts for up to '' @ statsWords @ ''.'')))
                     \<lparr>t_retention := rc\<rparr>)
             else if rc = Some Lower \<and> \<not> logsSubs
             then (if nothingOlder
                   then Some ((quiet ''T15'' (''Keep for '' @ statsWords)
                           (''Statistics are now kept for '' @ statsWords @ ''.'') (Some keepNote))
                           \<lparr>t_retention := rc, t_nothingOlder := True\<rparr>)
                   else Some ((quiet ''T15'' ''Save changes''
                           (''Statistics are now kept for '' @ statsWords @ ''. Older counts deleted.'') None)
                           \<lparr>t_dialog := Some (counts_dialog statsWords (counts_body statsWords lost)),
                            t_retention := rc, t_lost := (if truthy_str lost then lost else None)\<rparr>))
             else if lc \<noteq> None \<and> rc = None \<and> \<not> logsFieldsChanged saved pending
             then Some (logsRetentionAlone (the lc) logsWords)
             else if rc = None \<and> \<not> logsSubs then None
             else rest (quiet ''T13'' ''Save changes'' ''Data collection updated.'' None))"

subsection \<open>The PATCH body\<close>

definition replace :: "ModelProfileUpdatePathEnum \<Rightarrow> update_value \<Rightarrow> ModelProfileUpdate" where
  "replace path v = \<lparr>pu_operation = OpReplace, pu_path = path, pu_value = v\<rparr>"

definition buildUpdates :: "DataCollectionState \<Rightarrow> DataCollectionState \<Rightarrow> ModelProfileUpdate list" where
  "buildUpdates saved pending =
     (if stats pending \<noteq> stats saved
      then [replace SettingsStatisticsEnabled (VBool (stats pending))] else [])
     @ (if logs pending \<noteq> logs saved
        then [replace SettingsLogsEnabled (VBool (logs pending))] else [])
     @ (if stats pending \<and> statsRetention pending \<noteq> statsRetention saved
        then [replace SettingsStatisticsRetention (VStr (stats_value (statsRetention pending)))] else [])
     @ (if logs pending
        then (if domains pending \<noteq> domains saved
              then [replace SettingsLogsLogDomains (VBool (domains pending))] else [])
           @ (if ips pending \<noteq> ips saved
              then [replace SettingsLogsLogClientsIps (VBool (ips pending))] else [])
           @ (if retention pending \<noteq> retention saved
              then [replace SettingsLogsRetention (VStr (logs_value (retention pending)))] else [])
        else [])"

definition importedCollection :: "ModelExportedSettings option \<Rightarrow> string option" where
  "importedCollection settings =
     (let st = Option.bind settings es_statistics;
          lg = Option.bind settings es_logs;
          parts =
            (if truthy_bool (Option.bind st et_enabled)
             then [''query counts per device, kept for '' @ statsRetentionWords (Some ''30d'')] else [])
            @ (case lg of
                 None \<Rightarrow> []
               | Some l \<Rightarrow>
                   if truthy_bool (el_enabled l) then
                     let fields = (if truthy_bool (el_logDomains l) then [''domain''] else [])
                                  @ (if truthy_bool (el_logClientsIPs l) then [''client IP address''] else []);
                         withFields = (if fields \<noteq> [] then '' with its '' @ js_join '' and '' fields else '''')
                     in [''a record of each query'' @ withFields @ '', kept for ''
                         @ LOGS_RETENTION_WORDS (parse_logs_retention (el_retention l))]
                   else [])
      in if parts \<noteq> [] then Some (js_join ''; '' parts) else None)"

subsection \<open>The API's side of the setting\<close>

text \<open>
  The stored statistics and log settings, with the retentions as the strings the database holds.
  The API reads a value with the third-party \<open>cast\<close> package, so its two conversions are a record
  of functions; \<open>cast_ok\<close> is what the package documents for values that already have the type.
\<close>

record api_settings =
  as_statsEnabled :: bool
  as_statsRetention :: string
  as_logsEnabled :: bool
  as_logClientsIPs :: bool
  as_logDomains :: bool
  as_logsRetention :: string

datatype patch_error = ErrInvalidRetention | ErrStatisticsRetentionInvalid | ErrCast

record cast_lib =
  ToBoolE :: "update_value \<Rightarrow> bool option"
  ToStringE :: "update_value \<Rightarrow> string option"

definition cast_ok :: "cast_lib \<Rightarrow> bool" where
  "cast_ok c \<longleftrightarrow> (\<forall>b. ToBoolE c (VBool b) = Some b) \<and> (\<forall>s. ToStringE c (VStr s) = Some s)"

definition statistics_Window :: "string \<Rightarrow> int" where
  "statistics_Window r = 24 * (if r = ''90d'' then 90 else if r = ''1y'' then 365 else 30)"

definition logs_Window :: "string \<Rightarrow> int" where
  "logs_Window r =
     (if r = ''6h'' then 6 else if r = ''1d'' then 24 else if r = ''1w'' then 7 * 24
      else if r = ''1m'' then 30 * 24 else 1)"

definition set_bool ::
  "cast_lib \<Rightarrow> update_value \<Rightarrow> (bool \<Rightarrow> api_settings) \<Rightarrow> patch_error + api_settings" where
  "set_bool c v put = (case ToBoolE c v of None \<Rightarrow> Inl ErrCast | Some b \<Rightarrow> Inr (put b))"

definition update_setting :: "cast_lib \<Rightarrow> api_settings \<Rightarrow> ModelProfileUpdate \<Rightarrow> patch_error + api_settings" where
  "update_setting c s u =
     (if pu_operation u \<noteq> OpReplace then Inr s
      else case pu_path u of
        SettingsLogsEnabled \<Rightarrow> set_bool c (pu_value u) (\<lambda>b. s\<lparr>as_logsEnabled := b\<rparr>)
      | SettingsLogsLogClientsIps \<Rightarrow> set_bool c (pu_value u) (\<lambda>b. s\<lparr>as_logClientsIPs := b\<rparr>)
      | SettingsLogsLogDomains \<Rightarrow> set_bool c (pu_value u) (\<lambda>b. s\<lparr>as_logDomains := b\<rparr>)
      | SettingsLogsRetention \<Rightarrow>
          (case ToStringE c (pu_value u) of
             None \<Rightarrow> Inl ErrCast
           | Some v \<Rightarrow> if v \<in> {''1h'', ''6h'', ''1d'', ''1w'', ''1m''}
                       then Inr (s\<lparr>as_logsRetention := v\<rparr>) else Inl ErrInvalidRetention)
      | SettingsStatisticsEnabled \<Rightarrow> set_bool c (pu_value u) (\<lambda>b. s\<lparr>as_statsEnabled := b\<rparr>)
      | SettingsStatisticsRetention \<Rightarrow>
          (case ToStringE c (pu_value u) of
             None \<Rightarrow> Inl ErrStatisticsRetentionInvalid
           | Some v \<Rightarrow> if v \<in> {''30d'', ''90d'', ''1y''}
                       then Inr (s\<lparr>as_statsRetention := v\<rparr>) else Inl ErrStatisticsRetentionInvalid)
      | _ \<Rightarrow> Inr s)"

fun applyPatchOperations ::
  "cast_lib \<Rightarrow> api_settings \<Rightarrow> ModelProfileUpdate list \<Rightarrow> ModelProfileUpdatePathEnum list
     \<Rightarrow> patch_error + api_settings \<times> ModelProfileUpdatePathEnum list" where
  "applyPatchOperations c s [] touched = Inr (s, touched)"
| "applyPatchOperations c s (u # us) touched =
     (case update_setting c s u of
        Inl e \<Rightarrow> Inl e
      | Inr s' \<Rightarrow> applyPatchOperations c s' us
          (if pu_operation u = OpReplace \<and> pu_path u \<notin> set touched then touched @ [pu_path u] else touched))"

text \<open>The settings after the touched fields of \<open>patch\<close> were written over the stored ones.\<close>

definition patched :: "api_settings \<Rightarrow> ModelProfileUpdatePathEnum list \<Rightarrow> api_settings \<Rightarrow> api_settings" where
  "patched s touched patch =
     (let pick = (\<lambda>p f. if p \<in> set touched then f patch else f s);
          pick_str = (\<lambda>p f. if p \<in> set touched then f patch else f s) in
      \<lparr>as_statsEnabled = pick SettingsStatisticsEnabled as_statsEnabled,
       as_statsRetention = pick_str SettingsStatisticsRetention as_statsRetention,
       as_logsEnabled = pick SettingsLogsEnabled as_logsEnabled,
       as_logClientsIPs = pick SettingsLogsLogClientsIps as_logClientsIPs,
       as_logDomains = pick SettingsLogsLogDomains as_logDomains,
       as_logsRetention = pick_str SettingsLogsRetention as_logsRetention\<rparr>)"

datatype effect =
  PurgeStatistics | InvalidateReadCache | TrimStatistics string
| PurgeQueryLogs | TrimQueryLogs string | InvalidateQueryLogCaches

definition applySettingsTransitions :: "api_settings \<Rightarrow> api_settings \<Rightarrow> effect list" where
  "applySettingsTransitions before after =
     (if as_statsEnabled before \<and> \<not> as_statsEnabled after then [PurgeStatistics] else [])
     @ (if as_statsEnabled after \<and>
           statistics_Window (as_statsRetention after) \<noteq> statistics_Window (as_statsRetention before)
        then [InvalidateReadCache] else [])
     @ (if as_statsEnabled after \<and>
           statistics_Window (as_statsRetention after) < statistics_Window (as_statsRetention before)
        then [TrimStatistics (as_statsRetention after)] else [])
     @ (if as_logsEnabled before \<and> \<not> as_logsEnabled after then [PurgeQueryLogs]
        else if as_logsEnabled after \<and>
                logs_Window (as_logsRetention after) < logs_Window (as_logsRetention before)
        then [TrimQueryLogs (as_logsRetention after)]
        else if as_logsRetention before \<noteq> as_logsRetention after then [InvalidateQueryLogCaches]
        else [])"

definition UpdateProfile ::
  "cast_lib \<Rightarrow> api_settings \<Rightarrow> ModelProfileUpdate list \<Rightarrow> patch_error + api_settings \<times> effect list" where
  "UpdateProfile c s updates =
     (case applyPatchOperations c s updates [] of
        Inl e \<Rightarrow> Inl e
      | Inr (patch, touched) \<Rightarrow>
          if touched = [] then Inr (s, [])
          else Inr (patched s touched patch, applySettingsTransitions s (patched s touched patch)))"

definition turnOffPaths :: "ModelProfileUpdatePathEnum list" where
  "turnOffPaths = [SettingsStatisticsEnabled, SettingsLogsEnabled]"

text \<open>The middleware's test of a PATCH body that any subscription state may send.\<close>

definition isTurnOffOnly :: "cast_lib \<Rightarrow> ModelProfileUpdate list \<Rightarrow> bool" where
  "isTurnOffOnly c us =
     (us \<noteq> [] \<and> list_all (\<lambda>u. pu_operation u = OpReplace \<and> pu_path u \<in> set turnOffPaths \<and>
                              ToBoolE c (pu_value u) = Some False) us)"

subsection \<open>Values and words\<close>

lemmas retention_defs = normalizeStatsRetention_def stats_option_of_def STATS_RETENTION_OPTIONS_def

lemma normalize_value [simp]: "normalizeStatsRetention (Some (stats_value r)) = r"
  by (cases r) (simp_all add: retention_defs)

lemma parse_logs_value [simp]: "parse_logs_retention (Some (logs_value r)) = r"
  by (cases r) (simp_all add: parse_logs_retention_def)

lemma statsDays_simps [simp]: "statsDays R30d = 30" "statsDays R90d = 90" "statsDays R1y = 365"
  by (simp_all add: statsDays_def stats_option_of_def STATS_RETENTION_OPTIONS_def)

lemma statsDays_inj: "statsDays r = statsDays r' \<longleftrightarrow> r = r'"
  by (cases r; cases r') simp_all

lemma hours_inj: "LOGS_RETENTION_HOURS r = LOGS_RETENTION_HOURS r' \<longleftrightarrow> r = r'"
  by (cases r; cases r') simp_all

lemma statistics_Window_days: "statistics_Window v = 24 * statsDays (normalizeStatsRetention (Some v))"
  by (simp add: statistics_Window_def normalizeStatsRetention_def STATS_RETENTION_OPTIONS_def)

lemma logs_Window_hours: "logs_Window v = LOGS_RETENTION_HOURS (parse_logs_retention (Some v))"
  by (simp add: logs_Window_def parse_logs_retention_def)

lemma valid_values:
  "stats_value r \<in> {''30d'', ''90d'', ''1y''}"
  "logs_value l \<in> {''1h'', ''6h'', ''1d'', ''1w'', ''1m''}"
  by (cases r; simp) (cases l; simp)

lemma retentionChange_simps:
  "retentionChange saved pending = Some Lower \<longleftrightarrow>
     stats saved \<and> stats pending \<and> statsDays (statsRetention pending) < statsDays (statsRetention saved)"
  "retentionChange saved pending = None \<longleftrightarrow>
     \<not> (stats saved \<and> stats pending) \<or> statsRetention pending = statsRetention saved"
  using statsDays_inj [of "statsRetention pending" "statsRetention saved"]
  by (auto simp: retentionChange_def not_less order_le_less)

lemma logsRetentionChange_simps:
  "logsRetentionChange saved pending = Some Lower \<longleftrightarrow>
     logs saved \<and> logs pending \<and>
     LOGS_RETENTION_HOURS (retention pending) < LOGS_RETENTION_HOURS (retention saved)"
  "logsRetentionChange saved pending = None \<longleftrightarrow>
     \<not> (logs saved \<and> logs pending) \<or> retention pending = retention saved"
  using hours_inj [of "retention pending" "retention saved"]
  by (auto simp: logsRetentionChange_def not_less order_le_less)

lemma stateTransition_None: "stateTransition a b lw sw = None \<longleftrightarrow> a = b"
  by (cases a; cases b) simp_all

lemma stateKey_eq: "stateKey s = stateKey s' \<longleftrightarrow> stats s = stats s' \<and> logs s = logs s'"
  by (auto simp: stateKey_def)

subsection \<open>When a transition asks\<close>

definition asks :: "Transition \<Rightarrow> bool" where
  "asks t = (t_dialog t \<noteq> None)"

lemma asks_update [simp]:
  "asks (t\<lparr>t_retention := r\<rparr>) = asks t" "asks (t\<lparr>t_logsRetention := r\<rparr>) = asks t"
  "asks (t\<lparr>t_nothingOlder := b\<rparr>) = asks t" "asks (t\<lparr>t_lost := l\<rparr>) = asks t"
  "asks (t\<lparr>t_note := n\<rparr>) = asks t" "asks (t\<lparr>t_dialog := d\<rparr>) \<longleftrightarrow> d \<noteq> None"
  by (simp_all add: asks_def)

lemma quiet_asks: "\<not> asks (quiet i l t n)" "\<not> t_nothingOlder (quiet i l t n)"
  by (simp_all add: quiet_def asks_def)

lemma asking_asks: "asks (asking i l t n dt db dc)" "\<not> t_nothingOlder (asking i l t n dt db dc)"
  by (simp_all add: asking_def quiet_asks)

lemma change_cases:
  fixes c :: "retention_change option"
  obtains "c = None" | "c = Some Raise" | "c = Some Lower"
  by (metis option.exhaust retention_change.exhaust)

lemma stateTransition_asks:
  "stateTransition (stateKey s) (stateKey p) lw sw = Some t \<Longrightarrow>
     (asks t \<longleftrightarrow> (stats s \<and> \<not> stats p) \<or> (logs s \<and> \<not> logs p)) \<and> \<not> t_nothingOlder t"
  by (cases "stats s"; cases "logs s"; cases "stats p"; cases "logs p")
    (auto simp: stateKey_def asks_def quiet_def asking_def)

lemma withHeld_None [simp]: "withHeld f t h = None \<longleftrightarrow> t = None"
  by (auto simp: withHeld_def split: option.splits)

lemma withHeld_Some:
  "withHeld f t h = Some t' \<Longrightarrow>
     \<exists>t0. t = Some t0 \<and> asks t' = asks t0 \<and> t_nothingOlder t' = t_nothingOlder t0 \<and> t_id t' = t_id t0"
  by (auto simp: withHeld_def asks_def split: option.splits if_splits)

lemma withStatsRetention_asks:
  "asks (withStatsRetention t rc nothing lost sw kn) \<longleftrightarrow> asks t \<or> (rc = Some Lower \<and> \<not> nothing)"
  "t_nothingOlder (withStatsRetention t rc nothing lost sw kn) \<longleftrightarrow>
     t_nothingOlder t \<or> (nothing \<and> rc \<noteq> Some Raise)"
  by (auto simp: withStatsRetention_def asks_def Let_def)

lemma withLogsRetention_asks:
  "asks (withLogsRetention t lc lw) \<longleftrightarrow> asks t \<or> lc = Some Lower"
  "t_nothingOlder (withLogsRetention t lc lw) = t_nothingOlder t"
  by (auto simp: withLogsRetention_def asks_def Let_def split: option.splits)

text \<open>Lowering the statistics retention when no held count is older.\<close>

definition nothing_lost ::
  "date_formats \<Rightarrow> DataCollectionState \<Rightarrow> DataCollectionState \<Rightarrow> StatsHeld option \<Rightarrow> bool" where
  "nothing_lost f saved pending held =
     (retentionChange saved pending = Some Lower \<and>
      (case held of None \<Rightarrow> False
       | Some h \<Rightarrow> lostSentence f h (statsDays (statsRetention pending)) = None))"

lemma nothing_lost_eq:
  "(retentionChange saved pending = Some Lower \<and> held \<noteq> None \<and>
    (if retentionChange saved pending = Some Lower
     then Option.bind held (\<lambda>h. lostSentence f h (statsDays (statsRetention pending)))
     else None) = None) = nothing_lost f saved pending held"
  by (auto simp: nothing_lost_def split: option.splits)

abbreviation pending_logs_words :: "DataCollectionState \<Rightarrow> string" where
  "pending_logs_words p \<equiv> LOGS_RETENTION_WORDS (retention p)"

abbreviation pending_stats_words :: "DataCollectionState \<Rightarrow> string" where
  "pending_stats_words p \<equiv> statsRetentionWords (Some (stats_value (statsRetention p)))"

lemma transitionFor_change:
  assumes "stateKey saved \<noteq> stateKey pending" and "transitionFor f saved pending held = Some t"
  obtains t1 lost kn where
    "withHeld f (stateTransition (stateKey saved) (stateKey pending) (pending_logs_words pending)
       (pending_stats_words pending)) held = Some t1"
    "t = withLogsRetention
           (withStatsRetention t1 (retentionChange saved pending) (nothing_lost f saved pending held)
              lost (pending_stats_words pending) kn)
           (logsRetentionChange saved pending) (pending_logs_words pending)"
proof -
  obtain t1 where t1: "withHeld f (stateTransition (stateKey saved) (stateKey pending)
      (pending_logs_words pending) (pending_stats_words pending)) held = Some t1"
    using assms(1) stateTransition_None withHeld_None by (metis option.exhaust)
  have "t = withLogsRetention
      (withStatsRetention t1 (retentionChange saved pending) (nothing_lost f saved pending held)
        (if retentionChange saved pending = Some Lower
         then Option.bind held (\<lambda>h. lostSentence f h (statsDays (statsRetention pending))) else None)
        (pending_stats_words pending)
        (''No counts are older than '' @ pending_stats_words pending @ '' yet, so nothing is deleted.''))
      (logsRetentionChange saved pending) (pending_logs_words pending)"
    using assms(2) unfolding transitionFor_def Let_def t1 nothing_lost_eq by simp
  with t1 that show thesis by blast
qed

lemma transitionFor_same:
  assumes "stateKey saved = stateKey pending"
  shows "transitionFor f saved pending held = None \<longleftrightarrow>
           retentionChange saved pending = None \<and> logsRetentionChange saved pending = None \<and>
           \<not> logsFieldsChanged saved pending"
    and "transitionFor f saved pending held = Some t \<Longrightarrow>
           (t_nothingOlder t \<longleftrightarrow> nothing_lost f saved pending held) \<and>
           (asks t \<longleftrightarrow> (retentionChange saved pending = Some Lower \<and> \<not> nothing_lost f saved pending held) \<or>
              logsRetentionChange saved pending = Some Lower)"
proof -
  have st: "withHeld f (stateTransition (stateKey saved) (stateKey pending) lw sw) held = None" for lw sw
    using assms by (simp add: stateTransition_None)
  have lost: "nothing_lost f saved pending held \<Longrightarrow> retentionChange saved pending = Some Lower"
    by (simp add: nothing_lost_def)
  show "transitionFor f saved pending held = None \<longleftrightarrow>
           retentionChange saved pending = None \<and> logsRetentionChange saved pending = None \<and>
           \<not> logsFieldsChanged saved pending"
    unfolding transitionFor_def Let_def st nothing_lost_eq by auto
  show "transitionFor f saved pending held = Some t \<Longrightarrow>
           (t_nothingOlder t \<longleftrightarrow> nothing_lost f saved pending held) \<and>
           (asks t \<longleftrightarrow> (retentionChange saved pending = Some Lower \<and> \<not> nothing_lost f saved pending held) \<or>
              logsRetentionChange saved pending = Some Lower)"
    unfolding transitionFor_def Let_def st nothing_lost_eq option.case
    by (cases rule: change_cases [of "retentionChange saved pending"];
        cases rule: change_cases [of "logsRetentionChange saved pending"];
        cases "logsFieldsChanged saved pending"; cases "nothing_lost f saved pending held")
      (use lost in \<open>auto simp: withStatsRetention_asks withLogsRetention_asks quiet_asks asking_asks
         logsRetentionAlone_def\<close>)
qed

lemma transitionFor_asks:
  assumes "transitionFor f saved pending held = Some t"
  shows "t_nothingOlder t \<longleftrightarrow> nothing_lost f saved pending held"
    and "asks t \<longleftrightarrow>
           (stats saved \<and> \<not> stats pending) \<or> (logs saved \<and> \<not> logs pending) \<or>
           (retentionChange saved pending = Some Lower \<and> \<not> nothing_lost f saved pending held) \<or>
           logsRetentionChange saved pending = Some Lower"
proof (atomize (full), cases "stateKey saved = stateKey pending")
  case True
  then show "(t_nothingOlder t \<longleftrightarrow> nothing_lost f saved pending held) \<and> (asks t \<longleftrightarrow>
           (stats saved \<and> \<not> stats pending) \<or> (logs saved \<and> \<not> logs pending) \<or>
           (retentionChange saved pending = Some Lower \<and> \<not> nothing_lost f saved pending held) \<or>
           logsRetentionChange saved pending = Some Lower)"
    using transitionFor_same(2) [OF True assms] by (auto simp: stateKey_eq)
next
  case False
  have nl: "nothing_lost f saved pending held \<Longrightarrow> retentionChange saved pending = Some Lower"
    by (simp add: nothing_lost_def)
  obtain t1 lost kn where
    t1: "withHeld f (stateTransition (stateKey saved) (stateKey pending) (pending_logs_words pending)
           (pending_stats_words pending)) held = Some t1"
    and t: "t = withLogsRetention
           (withStatsRetention t1 (retentionChange saved pending) (nothing_lost f saved pending held)
              lost (pending_stats_words pending) kn)
           (logsRetentionChange saved pending) (pending_logs_words pending)"
    using transitionFor_change [OF False assms] by metis
  have "(asks t1 \<longleftrightarrow> (stats saved \<and> \<not> stats pending) \<or> (logs saved \<and> \<not> logs pending)) \<and> \<not> t_nothingOlder t1"
    using withHeld_Some [OF t1] stateTransition_asks by blast
  then show "(t_nothingOlder t \<longleftrightarrow> nothing_lost f saved pending held) \<and> (asks t \<longleftrightarrow>
           (stats saved \<and> \<not> stats pending) \<or> (logs saved \<and> \<not> logs pending) \<or>
           (retentionChange saved pending = Some Lower \<and> \<not> nothing_lost f saved pending held) \<or>
           logsRetentionChange saved pending = Some Lower)"
    unfolding t withStatsRetention_asks withLogsRetention_asks using nl by auto
qed

lemma transitionFor_None:
  "transitionFor f saved pending held = None \<longleftrightarrow>
     stats pending = stats saved \<and> logs pending = logs saved \<and>
     (stats pending \<longrightarrow> statsRetention pending = statsRetention saved) \<and>
     (logs pending \<longrightarrow> domains pending = domains saved \<and> ips pending = ips saved \<and>
                       retention pending = retention saved)"
proof (cases "stateKey saved = stateKey pending")
  case True
  then show ?thesis
    unfolding transitionFor_same(1) [OF True] retentionChange_simps logsRetentionChange_simps
    by (auto simp: stateKey_eq logsFieldsChanged_def)
next
  case False
  then obtain t1 where
    t1: "withHeld f (stateTransition (stateKey saved) (stateKey pending)
           (LOGS_RETENTION_WORDS (retention pending))
           (statsRetentionWords (Some (stats_value (statsRetention pending))))) held = Some t1"
    using stateTransition_None withHeld_None by (metis option.exhaust)
  have "transitionFor f saved pending held \<noteq> None"
    unfolding transitionFor_def Let_def t1 by simp
  with False show ?thesis by (auto simp: stateKey_eq)
qed

subsection \<open>What a dialog says\<close>

lemma js_cut_Some: "js_cut t s = Some (a, b) \<Longrightarrow> s = a @ t @ b"
proof (induction t s arbitrary: a b rule: js_cut.induct)
  case (2 t c s)
  then show ?case by (force simp: js_startsWith_iff split: if_splits)
qed (simp split: if_splits)

lemma js_cut_includes: "js_includes s t \<Longrightarrow> \<exists>a b. js_cut t s = Some (a, b)"
  by (induction t s rule: js_cut.induct) auto

lemma js_replace_cut:
  assumes "js_includes s t"
  shows "\<exists>a b. s = a @ t @ b \<and> js_replace s t r = a @ r @ b"
  using js_cut_includes [OF assms] js_cut_Some by (fastforce simp: js_replace_def)

lemma js_cut_skip: "t \<noteq> [] \<Longrightarrow> hd t \<notin> set p \<Longrightarrow> js_cut t (p @ s) = map_option (\<lambda>(a, b). (p @ a, b)) (js_cut t s)"
proof (induction p)
  case Nil
  then show ?case by (cases "js_cut t s") auto
next
  case (Cons c p)
  then have "\<not> js_startsWith (c # p @ s) t" by (cases t) (auto simp: js_startsWith_iff)
  with Cons show ?case by (cases "js_cut t s") auto
qed

lemma js_cut_tail: "\<exists>a b. js_cut t (p @ t @ u) = Some (a, b @ u)"
proof (induction p)
  case Nil
  have "js_startsWith (t @ u) t" by (auto simp: js_startsWith_iff)
  then show ?case by (cases "t @ u") (auto, metis append_eq_conv_conj append_Nil)
next
  case (Cons c p)
  show ?case
  proof (cases "js_startsWith (c # p @ t @ u) t")
    case True
    have "drop (length t) ((c # p @ t) @ u) = drop (length t) (c # p @ t) @ u"
      unfolding drop_append by simp
    then have "drop (length t) (c # p @ t @ u) = drop (length t) (c # p @ t) @ u"
      by (simp only: append_Cons append_assoc)
    then show ?thesis using True by (auto intro!: exI)
  next
    case False
    with Cons show ?thesis by auto
  qed
qed

lemma afterFirstSentence_ends:
  assumes "b = p @ ''. '' @ UNDONE"
  shows "\<exists>q. afterFirstSentence b s = q @ UNDONE"
proof -
  obtain x y where "js_cut ''. '' b = Some (x, y @ UNDONE)"
    using js_cut_tail [of "''. ''" p UNDONE] assms by blast
  then have "afterFirstSentence b s = (x @ ''. '' @ s @ '' '' @ y) @ UNDONE"
    by (simp add: afterFirstSentence_def)
  then show ?thesis by blast
qed

definition says :: "Transition \<Rightarrow> string \<Rightarrow> bool" where
  "says t x = (\<forall>d. t_dialog t = Some d \<longrightarrow> js_includes (body d) x)"

lemma stateTransition_body:
  "stateTransition a b lw sw = Some t \<Longrightarrow> t_dialog t = Some d \<Longrightarrow> \<exists>p. body d = p @ ''. '' @ UNDONE"
  by (cases a; cases b) (auto simp: quiet_def asking_def intro: exI [of _ "_ @ _"])

lemma withHeld_says:
  assumes "withHeld f (stateTransition a b lw sw) h = Some t"
  shows "says t UNDONE"
  unfolding says_def
proof (intro allI impI)
  fix d assume d: "t_dialog t = Some d"
  obtain t0 where t0: "stateTransition a b lw sw = Some t0" using assms withHeld_Some by blast
  have "(\<exists>p. body d = p @ ''. '' @ UNDONE) \<or>
        (\<exists>d0 s. t_dialog t0 = Some d0 \<and> body d = afterFirstSentence (body d0) s)"
    using assms d stateTransition_body [OF t0]
    by (fastforce simp: t0 withHeld_def split: option.splits if_splits)
  then have "\<exists>q. body d = q @ UNDONE"
    using stateTransition_body [OF t0] afterFirstSentence_ends by (metis append.assoc)
  then show "js_includes (body d) UNDONE" unfolding js_includes_iff by (metis append_Nil2)
qed

lemma js_replace_says:
  assumes "js_includes b UNDONE"
  shows "js_includes (js_replace b UNDONE (x @ y @ '' '' @ UNDONE)) UNDONE"
    and "js_includes (js_replace b UNDONE (x @ y @ '' '' @ UNDONE)) x"
proof -
  obtain p q where eq: "js_replace b UNDONE (x @ y @ '' '' @ UNDONE) = p @ (x @ y @ '' '' @ UNDONE) @ q"
    using js_replace_cut [OF assms] by blast
  show "js_includes (js_replace b UNDONE (x @ y @ '' '' @ UNDONE)) UNDONE"
    unfolding eq using js_includes_append [of "p @ x @ y @ '' ''" UNDONE q] by simp
  show "js_includes (js_replace b UNDONE (x @ y @ '' '' @ UNDONE)) x"
    unfolding eq using js_includes_append [of p x "y @ '' '' @ UNDONE @ q"] by simp
qed

definition countsLost :: "string \<Rightarrow> string" where
  "countsLost sw = ''Counts older than '' @ sw @ '' will be permanently deleted.''"

lemma countsOlder_split: "\<exists>y. countsOlder sw lost = countsLost sw @ y"
  by (simp add: countsOlder_def countsLost_def)

lemma withStats_says:
  assumes "says t UNDONE"
  shows "says (withStatsRetention t rc nothing lost sw kn) UNDONE"
    and "rc = Some Lower \<Longrightarrow> \<not> nothing \<Longrightarrow>
         says (withStatsRetention t rc nothing lost sw kn) (countsLost sw)"
proof -
  obtain y where y: "countsOlder sw lost = countsLost sw @ y" using countsOlder_split by blast
  note r = js_replace_says [of _ "countsLost sw" y]
  have i: "js_includes (countsLost sw @ y @ '' '' @ UNDONE) UNDONE"
    "js_includes (countsLost sw @ y @ '' '' @ UNDONE) (countsLost sw)"
    using js_includes_append [of "countsLost sw @ y @ '' ''" UNDONE "[]"]
      js_includes_append [of "[]" "countsLost sw" "y @ '' '' @ UNDONE"] by simp_all
  show "says (withStatsRetention t rc nothing lost sw kn) UNDONE"
    using assms r i by (auto simp: says_def withStatsRetention_def Let_def y counts_dialog_def split: option.splits)
  show "says (withStatsRetention t rc nothing lost sw kn) (countsLost sw)" if "rc = Some Lower" "\<not> nothing"
    using assms that r i
    by (auto simp: says_def withStatsRetention_def Let_def y counts_dialog_def split: option.splits)
qed

lemma withLogs_says:
  assumes "says t UNDONE"
  shows "says (withLogsRetention t lc lw) UNDONE"
    and "lc = Some Lower \<Longrightarrow> says (withLogsRetention t lc lw) (logsOlder lw)"
proof -
  note r = js_replace_says [of _ "logsOlder lw" "[]", simplified]
  have i: "js_includes (logsOlder lw @ '' '' @ UNDONE) UNDONE"
    "js_includes (logsOlder lw @ '' '' @ UNDONE) (logsOlder lw)"
    using js_includes_append [of "logsOlder lw @ '' ''" UNDONE "[]"]
      js_includes_append [of "[]" "logsOlder lw" "'' '' @ UNDONE"] by simp_all
  show "says (withLogsRetention t lc lw) UNDONE"
    using assms r i by (auto simp: says_def withLogsRetention_def Let_def split: option.splits if_splits)
  show "says (withLogsRetention t lc lw) (logsOlder lw)" if "lc = Some Lower"
    using assms that r i by (auto simp: says_def withLogsRetention_def Let_def split: option.splits if_splits)
qed

lemma both_losses_said:
  assumes "CHR ''T'' \<notin> set sw" "t_dialog t = None" "lc = Some Lower"
  shows "says (withLogsRetention (withStatsRetention t (Some Lower) False lost sw kn) lc lw) (countsLost sw)"
proof -
  obtain y where y: "countsOlder sw lost = countsLost sw @ y" using countsOlder_split by blast
  have cut: "js_cut UNDONE (countsLost sw @ z) = map_option (\<lambda>(a, b). (countsLost sw @ a, b)) (js_cut UNDONE z)" for z
    by (rule js_cut_skip) (use assms(1) in \<open>simp_all add: UNDONE_def countsLost_def\<close>)
  have "js_includes (y @ '' '' @ UNDONE) UNDONE"
    using js_includes_append [of "y @ '' ''" UNDONE "[]"] by simp
  then obtain a b where "js_cut UNDONE (y @ '' '' @ UNDONE) = Some (a, b)" using js_cut_includes by blast
  then have "js_replace (countsLost sw @ y @ '' '' @ UNDONE) UNDONE r = [] @ countsLost sw @ (a @ r @ b)" for r
    using cut [of "y @ '' '' @ UNDONE"] by (simp add: js_replace_def)
  then have "js_includes (js_replace (countsLost sw @ y @ '' '' @ UNDONE) UNDONE r) (countsLost sw)" for r
    using js_includes_append by metis
  then show ?thesis
    using assms(2,3)
    by (auto simp: says_def withLogsRetention_def withStatsRetention_def Let_def y counts_dialog_def)
qed

lemma combined_losses_said:
  assumes "says t UNDONE" "CHR ''T'' \<notin> set sw"
    and "rc = Some Lower \<Longrightarrow> lc = Some Lower \<Longrightarrow> t_dialog t = None"
    and u_def: "u = withLogsRetention (withStatsRetention t rc nothing lost sw kn) lc lw"
  shows "says u UNDONE" and "rc = Some Lower \<Longrightarrow> \<not> nothing \<Longrightarrow> says u (countsLost sw)"
    and "lc = Some Lower \<Longrightarrow> says u (logsOlder lw)"
proof -
  note w = withStats_says [OF assms(1)]
  show "says u UNDONE" "lc = Some Lower \<Longrightarrow> says u (logsOlder lw)"
    unfolding u_def using withLogs_says [OF w(1)] by blast+
  assume lower: "rc = Some Lower" "\<not> nothing"
  show "says u (countsLost sw)"
  proof (cases "lc = Some Lower")
    case True
    then show ?thesis using both_losses_said [OF assms(2)] assms(3) lower by (simp add: u_def)
  next
    case False
    then have "t_dialog u = t_dialog (withStatsRetention t rc nothing lost sw kn)"
      by (simp add: u_def withLogsRetention_def)
    then show ?thesis using w(2) [OF lower] by (simp add: says_def)
  qed
qed

lemma says_update:
  "says (t\<lparr>t_retention := r\<rparr>) x = says t x" "says (t\<lparr>t_logsRetention := r\<rparr>) x = says t x"
  "says (t\<lparr>t_nothingOlder := n\<rparr>) x = says t x" "says (t\<lparr>t_lost := l\<rparr>) x = says t x"
  by (simp_all add: says_def)

lemma says_quiet: "says (quiet i l tt n) x"
  by (simp add: says_def quiet_def)

lemma says_counts_dialog:
  "says (t\<lparr>t_dialog := Some (counts_dialog sw (counts_body sw lost))\<rparr>) UNDONE"
  "says (t\<lparr>t_dialog := Some (counts_dialog sw (counts_body sw lost))\<rparr>) (countsLost sw)"
proof -
  obtain y where y: "counts_body sw lost = countsLost sw @ '' '' @ y @ UNDONE"
    by (simp add: counts_body_def countsLost_def)
  show "says (t\<lparr>t_dialog := Some (counts_dialog sw (counts_body sw lost))\<rparr>) UNDONE"
    using js_includes_append [of "countsLost sw @ '' '' @ y" UNDONE "[]"]
    by (simp add: says_def counts_dialog_def y)
  show "says (t\<lparr>t_dialog := Some (counts_dialog sw (counts_body sw lost))\<rparr>) (countsLost sw)"
    using js_includes_append [of "[]" "countsLost sw" "'' '' @ y @ UNDONE"]
    by (simp add: says_def counts_dialog_def y)
qed

lemma says_logs_alone:
  "says (logsRetentionAlone ch lw) UNDONE" "says (logsRetentionAlone ch lw) (logsOlder lw)"
  using js_includes_append [of "logsOlder lw @ '' ''" UNDONE "[]"]
    js_includes_append [of "[]" "logsOlder lw" "'' '' @ UNDONE"]
  by (simp_all add: says_def logsRetentionAlone_def quiet_def asking_def)

lemma stats_words_plain: "CHR ''T'' \<notin> set (pending_stats_words p)"
  unfolding statsRetentionWords_def normalize_value
  by (cases "statsRetention p") (simp_all add: stats_option_of_def STATS_RETENTION_OPTIONS_def)

lemma transitionFor_says:
  assumes "transitionFor f saved pending held = Some t"
  shows "says t UNDONE"
    and "retentionChange saved pending = Some Lower \<Longrightarrow> \<not> nothing_lost f saved pending held \<Longrightarrow>
         says t (countsLost (pending_stats_words pending))"
    and "logsRetentionChange saved pending = Some Lower \<Longrightarrow> says t (logsOlder (pending_logs_words pending))"
proof (atomize (full), cases "stateKey saved = stateKey pending")
  case False
  then have nb: "\<not> (retentionChange saved pending = Some Lower \<and> logsRetentionChange saved pending = Some Lower)"
    by (auto simp: stateKey_eq retentionChange_simps logsRetentionChange_simps)
  obtain t1 lost kn where
    "withHeld f (stateTransition (stateKey saved) (stateKey pending) (pending_logs_words pending)
       (pending_stats_words pending)) held = Some t1"
    and t: "t = withLogsRetention
           (withStatsRetention t1 (retentionChange saved pending) (nothing_lost f saved pending held)
              lost (pending_stats_words pending) kn)
           (logsRetentionChange saved pending) (pending_logs_words pending)"
    using transitionFor_change [OF False assms] by metis
  then have "says t1 UNDONE" using withHeld_says by blast
  then show "says t UNDONE \<and> (retentionChange saved pending = Some Lower \<longrightarrow> \<not> nothing_lost f saved pending held \<longrightarrow>
      says t (countsLost (pending_stats_words pending))) \<and>
    (logsRetentionChange saved pending = Some Lower \<longrightarrow> says t (logsOlder (pending_logs_words pending)))"
    using combined_losses_said [OF _ stats_words_plain _ t] nb by blast
next
  case True
  then have st: "withHeld f (stateTransition (stateKey saved) (stateKey pending) lw sw) held = None" for lw sw
    by (simp add: stateTransition_None)
  have q: "says (quiet i l tt n) x" "t_dialog (quiet i l tt n) = None" for i l tt n x
    by (simp_all add: says_def quiet_def)
  note c = combined_losses_said [OF q(1) stats_words_plain q(2) refl]
  show "says t UNDONE \<and> (retentionChange saved pending = Some Lower \<longrightarrow> \<not> nothing_lost f saved pending held \<longrightarrow>
      says t (countsLost (pending_stats_words pending))) \<and>
    (logsRetentionChange saved pending = Some Lower \<longrightarrow> says t (logsOlder (pending_logs_words pending)))"
    using assms unfolding transitionFor_def Let_def st nothing_lost_eq option.case
    by (cases rule: change_cases [of "retentionChange saved pending"];
        cases rule: change_cases [of "logsRetentionChange saved pending"];
        cases "logsFieldsChanged saved pending"; cases "nothing_lost f saved pending held")
      (auto simp: c q says_counts_dialog says_logs_alone says_update says_quiet)
qed


subsection \<open>Saving a change\<close>

text \<open>The state the app shows for stored settings, and the state a save should lead to.\<close>

definition shown :: "api_settings \<Rightarrow> DataCollectionState" where
  "shown s =
     \<lparr>stats = as_statsEnabled s, logs = as_logsEnabled s,
      statsRetention = normalizeStatsRetention (Some (as_statsRetention s)),
      domains = as_logDomains s, ips = as_logClientsIPs s,
      retention = parse_logs_retention (Some (as_logsRetention s))\<rparr>"

definition settled :: "DataCollectionState \<Rightarrow> DataCollectionState \<Rightarrow> DataCollectionState" where
  "settled saved pending =
     \<lparr>stats = stats pending, logs = logs pending,
      statsRetention = (if stats pending then statsRetention pending else statsRetention saved),
      domains = (if logs pending then domains pending else domains saved),
      ips = (if logs pending then ips pending else ips saved),
      retention = (if logs pending then retention pending else retention saved)\<rparr>"

text \<open>The JSON of a profile renders a retention of the statistics that is not allowed as 30d.\<close>

definition OrDefault :: "string \<Rightarrow> string" where
  "OrDefault r = (if r \<in> {''30d'', ''90d'', ''1y''} then r else ''30d'')"

lemma normalize_OrDefault: "normalizeStatsRetention (Some (OrDefault r)) = normalizeStatsRetention (Some r)"
  by (simp add: OrDefault_def normalizeStatsRetention_def STATS_RETENTION_OPTIONS_def)

definition wire_of :: "api_settings \<Rightarrow> ModelProfile \<Rightarrow> bool" where
  "wire_of s p =
     ((case profile_statistics (Some p) of
         None \<Rightarrow> False
       | Some t \<Rightarrow> ss_enabled t = Some (as_statsEnabled s) \<and> ss_retention t = Some (OrDefault (as_statsRetention s))) \<and>
      (case profile_logs (Some p) of
         None \<Rightarrow> False
       | Some l \<Rightarrow> ls_enabled l = Some (as_logsEnabled s) \<and> ls_log_domains l = Some (as_logDomains s) \<and>
                   ls_log_clients_ips l = Some (as_logClientsIPs s) \<and> ls_retention l = Some (as_logsRetention s)))"

lemma fromProfile_wire: "wire_of s p \<Longrightarrow> fromProfile (Some p) = shown s"
  by (auto simp: wire_of_def fromProfile_def shown_def normalize_OrDefault split: option.splits)

text \<open>The stored settings after a save: a retention is written only when the shown one changes.\<close>

definition saved_settings :: "api_settings \<Rightarrow> DataCollectionState \<Rightarrow> api_settings" where
  "saved_settings s p =
     \<lparr>as_statsEnabled = stats p,
      as_statsRetention = (if stats p \<and> statsRetention p \<noteq> statsRetention (shown s)
                           then stats_value (statsRetention p) else as_statsRetention s),
      as_logsEnabled = logs p,
      as_logClientsIPs = (if logs p then ips p else as_logClientsIPs s),
      as_logDomains = (if logs p then domains p else as_logDomains s),
      as_logsRetention = (if logs p \<and> retention p \<noteq> retention (shown s)
                          then logs_value (retention p) else as_logsRetention s)\<rparr>"

lemma apply_append:
  "applyPatchOperations c s (us @ vs) t =
     (case applyPatchOperations c s us t of
        Inl e \<Rightarrow> Inl e | Inr (s', t') \<Rightarrow> applyPatchOperations c s' vs t')"
  by (induction us arbitrary: s t) (auto split: sum.splits)

lemma update_replace:
  assumes "cast_ok c"
  shows "update_setting c s (replace SettingsStatisticsEnabled (VBool b)) = Inr (s\<lparr>as_statsEnabled := b\<rparr>)"
    and "update_setting c s (replace SettingsLogsEnabled (VBool b)) = Inr (s\<lparr>as_logsEnabled := b\<rparr>)"
    and "update_setting c s (replace SettingsLogsLogDomains (VBool b)) = Inr (s\<lparr>as_logDomains := b\<rparr>)"
    and "update_setting c s (replace SettingsLogsLogClientsIps (VBool b)) = Inr (s\<lparr>as_logClientsIPs := b\<rparr>)"
    and "update_setting c s (replace SettingsStatisticsRetention (VStr (stats_value r))) =
           Inr (s\<lparr>as_statsRetention := stats_value r\<rparr>)"
    and "update_setting c s (replace SettingsLogsRetention (VStr (logs_value l))) =
           Inr (s\<lparr>as_logsRetention := logs_value l\<rparr>)"
  using assms valid_values(1) [of r] valid_values(2) [of l]
  by (simp_all add: update_setting_def replace_def set_bool_def cast_ok_def)

lemma replace_simps [simp]: "pu_operation (replace p v) = OpReplace" "pu_path (replace p v) = p" "pu_value (replace p v) = v"
  by (simp_all add: replace_def)

lemma UpdateProfile_save:
  assumes "cast_ok c"
  shows "UpdateProfile c s (buildUpdates (shown s) p) =
     Inr (saved_settings s p,
          if buildUpdates (shown s) p = [] then [] else applySettingsTransitions s (saved_settings s p))"
  using update_replace [OF assms]
  by (cases "stats p = stats (shown s)"; cases "logs p = logs (shown s)"; cases "stats p"; cases "logs p";
      cases "statsRetention p = statsRetention (shown s)"; cases "domains p = domains (shown s)";
      cases "ips p = ips (shown s)"; cases "retention p = retention (shown s)")
    (simp_all add: UpdateProfile_def buildUpdates_def apply_append patched_def saved_settings_def shown_def)

lemma shown_saved: "shown (saved_settings s p) = settled (shown s) p"
  by (auto simp: shown_def saved_settings_def settled_def)

lemma buildUpdates_Nil:
  "buildUpdates saved pending = [] \<longleftrightarrow>
     stats pending = stats saved \<and> logs pending = logs saved \<and>
     (stats pending \<longrightarrow> statsRetention pending = statsRetention saved) \<and>
     (logs pending \<longrightarrow> domains pending = domains saved \<and> ips pending = ips saved \<and>
                       retention pending = retention saved)"
  by (auto simp: buildUpdates_def)

definition is_trim_stats :: "effect \<Rightarrow> bool" where
  "is_trim_stats e = (case e of TrimStatistics _ \<Rightarrow> True | _ \<Rightarrow> False)"

definition is_trim_logs :: "effect \<Rightarrow> bool" where
  "is_trim_logs e = (case e of TrimQueryLogs _ \<Rightarrow> True | _ \<Rightarrow> False)"

text \<open>What an effect list removes of what is stored. A trim while nothing was collected is empty.\<close>

definition deletes_counts :: "api_settings \<Rightarrow> effect list \<Rightarrow> bool" where
  "deletes_counts s es = (as_statsEnabled s \<and> (PurgeStatistics \<in> set es \<or> list_ex is_trim_stats es))"

definition deletes_logs :: "api_settings \<Rightarrow> effect list \<Rightarrow> bool" where
  "deletes_logs s es = (as_logsEnabled s \<and> (PurgeQueryLogs \<in> set es \<or> list_ex is_trim_logs es))"

lemma settled_shown:
  "stats (settled a p) = stats p" "logs (settled a p) = logs p"
  by (simp_all add: settled_def)

lemma effects_of_save:
  fixes s :: api_settings and p :: DataCollectionState
  defines "s' \<equiv> saved_settings s p"
  shows "deletes_counts s (applySettingsTransitions s s') \<longleftrightarrow>
           (stats (shown s) \<and> \<not> stats p) \<or> retentionChange (shown s) p = Some Lower"
    and "deletes_logs s (applySettingsTransitions s s') \<longleftrightarrow>
           (logs (shown s) \<and> \<not> logs p) \<or> logsRetentionChange (shown s) p = Some Lower"
  unfolding retentionChange_simps logsRetentionChange_simps
  by (auto simp: deletes_counts_def deletes_logs_def applySettingsTransitions_def is_trim_stats_def
      is_trim_logs_def s'_def statistics_Window_days logs_Window_hours saved_settings_def shown_def)

lemma no_updates_no_loss:
  "buildUpdates saved p = [] \<Longrightarrow>
     \<not> (stats saved \<and> \<not> stats p) \<and> retentionChange saved p = None \<and>
     \<not> (logs saved \<and> \<not> logs p) \<and> logsRetentionChange saved p = None"
  by (auto simp: buildUpdates_Nil retentionChange_simps logsRetentionChange_simps)

subsection \<open>Days of counts\<close>

lemma floorDay_le: "floorDay t \<le> t" "t < floorDay t + DAY_MS"
  using pos_mod_bound [of DAY_MS t] pos_mod_sign [of DAY_MS t] div_mult_mod_eq [of t DAY_MS]
  by (simp_all add: floorDay_def DAY_MS_def)

lemma floorDay_dvd [simp]: "DAY_MS dvd floorDay t" "DAY_MS dvd floorDay t + DAY_MS"
  by (simp_all add: floorDay_def)

lemma statsHeld_aligned: "statsHeld parse p now = Some h \<Longrightarrow> DAY_MS dvd firstDayMs h \<and> nowMs h = now"
  by (auto simp: statsHeld_def Let_def max_time_def max_time2_def max_def split: option.splits if_splits)

lemma round_div_exact: "DAY_MS dvd a \<Longrightarrow> round_div a DAY_MS = a div DAY_MS"
  by (auto simp: round_div_def DAY_MS_def elim!: dvdE)

lemma lostSentence_None:
  assumes "statsHeld parse p now = Some h"
  shows "lostSentence f h keep = None \<longleftrightarrow> floorDay (now - keep * DAY_MS) \<le> firstDayMs h"
proof -
  let ?c = "floorDay (now - keep * DAY_MS)"
  have al: "DAY_MS dvd ?c - firstDayMs h" "nowMs h = now"
    using statsHeld_aligned [OF assms] by (simp_all add: dvd_diff)
  then have "round_div (?c - firstDayMs h) DAY_MS < 1 \<longleftrightarrow> ?c \<le> firstDayMs h"
    unfolding round_div_exact [OF al(1)] by (auto simp: DAY_MS_def elim!: dvdE)
  then show ?thesis by (simp add: lostSentence_def Let_def al(2))
qed

subsection \<open>Properties\<close>

text \<open>
  Property C5 (save_stores_pending). Sending the body built from the shown and the pending state is
  accepted by the API, and every profile read afterwards shows the pending state on the cards that
  are checked; the options of an unchecked card keep the values they had.
\<close>

theorem save_stores_pending:
  assumes "cast_ok c" and "wire_of s p"
  shows "\<exists>s' es. UpdateProfile c s (buildUpdates (fromProfile (Some p)) pending) = Inr (s', es) \<and>
           (wire_of s' p' \<longrightarrow> fromProfile (Some p') = settled (fromProfile (Some p)) pending)"
  using UpdateProfile_save [OF assms(1), of s pending]
  by (simp add: fromProfile_wire [OF assms(2)] shown_saved [symmetric] fromProfile_wire)

text \<open>
  Property C1 (deletion_is_confirmed). The API deletes stored counts or logs because of a save only
  when the app asked for confirmation, and the app asks only when something is deleted. The one
  exception, a lowered statistics retention with no older count, is the case the note announces.
\<close>

theorem deletion_is_confirmed:
  assumes "cast_ok c" and "UpdateProfile c s (buildUpdates (shown s) pending) = Inr (s', es)"
    and "transitionFor f (shown s) pending held = Some t"
  shows "t_dialog t \<noteq> None \<longleftrightarrow>
           deletes_logs s es \<or>
           (deletes_counts s es \<and> \<not> (t_nothingOlder t \<and> stats pending))"
proof -
  have ne: "buildUpdates (shown s) pending \<noteq> []"
    using assms(3) transitionFor_None [of f "shown s" pending held] by (auto simp: buildUpdates_Nil)
  then have "s' = saved_settings s pending" "es = applySettingsTransitions s (saved_settings s pending)"
    using assms(2) UpdateProfile_save [OF assms(1), of s pending] by auto
  moreover have "nothing_lost f (shown s) pending held \<Longrightarrow> stats (shown s) \<and> stats pending \<and>
      retentionChange (shown s) pending = Some Lower"
    by (simp add: nothing_lost_def retentionChange_simps)
  ultimately show ?thesis
    using transitionFor_asks [OF assms(3)] effects_of_save [of s pending]
    by (auto simp: asks_def retentionChange_simps)
qed

text \<open>
  Fact (dialog_names_losses). Every dialog says that the action cannot be undone, and names
  each lowered retention whose older data go, also when both retentions are lowered at once or
  together with a change of state.
\<close>

theorem dialog_names_losses:
  assumes "transitionFor f saved pending held = Some t" and "t_dialog t = Some d"
  shows "js_includes (body d) UNDONE \<and>
         (retentionChange saved pending = Some Lower \<and> \<not> t_nothingOlder t \<longrightarrow>
            js_includes (body d) (''Counts older than '' @ pending_stats_words pending
              @ '' will be permanently deleted.'')) \<and>
         (logsRetentionChange saved pending = Some Lower \<longrightarrow>
            js_includes (body d) (logsOlder (pending_logs_words pending)))"
  using transitionFor_says [OF assms(1)] transitionFor_asks(1) [OF assms(1)] assms(2)
  by (simp only: says_def countsLost_def) blast

text \<open>
  Fact (save_offered_iff_changed). The control offers to save exactly when the PATCH body has
  an operation: no change is offered that sends nothing, and no pending change is silently dropped.
\<close>

theorem save_offered_iff_changed:
  "transitionFor f saved pending held = None \<longleftrightarrow> buildUpdates saved pending = []"
  by (simp add: transitionFor_None buildUpdates_Nil)

text \<open>
  Fact (turn_off_accepted). A body passes the middleware's turn-off test, which every
  subscription state may send, exactly when something is turned off, nothing is turned on, and the
  options of the cards that stay checked are unchanged. Turning everything off always passes.
\<close>

theorem turn_off_accepted:
  assumes "cast_ok c"
  shows "isTurnOffOnly c (buildUpdates saved pending) \<longleftrightarrow>
           (stats saved \<and> \<not> stats pending \<or> logs saved \<and> \<not> logs pending) \<and>
           (stats pending \<longrightarrow> stats saved \<and> statsRetention pending = statsRetention saved) \<and>
           (logs pending \<longrightarrow> logs saved \<and> domains pending = domains saved \<and> ips pending = ips saved \<and>
                             retention pending = retention saved)"
  using assms by (auto simp: isTurnOffOnly_def buildUpdates_def turnOffPaths_def cast_ok_def)

text \<open>
  Fact (nothing_older_is_true). The app announces that lowering the retention deletes nothing
  exactly when the first daily bucket held is not older than the new retention's first day.
\<close>

theorem nothing_older_is_true:
  assumes "transitionFor f saved pending (statsHeld parse p now) = Some t"
    and "statsHeld parse p now = Some h" and "retentionChange saved pending = Some Lower"
  shows "t_nothingOlder t \<longleftrightarrow>
           floorDay (now - statsDays (statsRetention pending) * DAY_MS) \<le> firstDayMs h"
  using transitionFor_asks(1) [OF assms(1)] assms(2,3) lostSentence_None [OF assms(2)]
  by (simp add: nothing_lost_def)

subsection \<open>Witnesses\<close>

definition plain_cast :: cast_lib where
  "plain_cast =
     \<lparr>ToBoolE = (\<lambda>v. case v of VBool b \<Rightarrow> Some b | VStr _ \<Rightarrow> None),
      ToStringE = (\<lambda>v. case v of VStr s \<Rightarrow> Some s | VBool _ \<Rightarrow> None)\<rparr>"

definition both_on :: api_settings where
  "both_on =
     \<lparr>as_statsEnabled = True, as_statsRetention = ''90d'', as_logsEnabled = True,
      as_logClientsIPs = False, as_logDomains = True, as_logsRetention = ''1d''\<rparr>"

definition both_on_profile :: ModelProfile where
  "both_on_profile =
     \<lparr>pf_account_id = ''a'', pf_id = ''1'', pf_name = ''home'', pf_profile_id = ''p'',
      pf_settings = Some
        \<lparr>ps_advanced = \<lparr>ad_recursor = ''sdns''\<rparr>, ps_custom_rule_groups = None,
         ps_custom_rules = None,
         ps_logs = Some \<lparr>ls_enabled = Some True, ls_log_clients_ips = Some False,
                         ls_log_domains = Some True, ls_retention = Some ''1d''\<rparr>,
         ps_privacy = \<lparr>pv_blocklists = None, pv_blocklists_subdomains_rule = ''block'',
                       pv_custom_rules_subdomains_rule = None, pv_default_rule = ''allow'',
                       pv_services = None\<rparr>,
         ps_profile_id = ''p'',
         ps_security = \<lparr>sc_dnssec = \<lparr>ds_enabled = True, ds_send_do_bit = False\<rparr>,
                        sc_rebinding_protection = None\<rparr>,
         ps_statistics = Some \<lparr>ss_enabled = Some True, ss_enabled_at = Some ''2025-01-10T12:00:00Z'',
                               ss_history_deleted_at = None, ss_retention = Some ''90d''\<rparr>\<rparr>\<rparr>"

definition lowered :: DataCollectionState where
  "lowered = \<lparr>stats = True, logs = True, statsRetention = R30d, domains = True, ips = False, retention = L1h\<rparr>"

definition all_off :: DataCollectionState where
  "all_off = \<lparr>stats = False, logs = False, statsRetention = R30d, domains = False, ips = True, retention = L1m\<rparr>"

definition plain_formats :: date_formats where
  "plain_formats = \<lparr>fmt_tz = (\<lambda>t. 0), fmt_date = (\<lambda>y t. ''date''), fmt_time = (\<lambda>d t. ''time''), fmt_utc = (\<lambda>t. ''day'')\<rparr>"

lemma plain_cast_ok: "cast_ok plain_cast"
  by (simp add: cast_ok_def plain_cast_def)

lemma both_on_wire: "wire_of both_on both_on_profile"
  by (simp add: wire_of_def OrDefault_def both_on_def both_on_profile_def profile_statistics_def profile_logs_def)

lemma both_on_shown:
  "shown both_on = \<lparr>stats = True, logs = True, statsRetention = R90d, domains = True, ips = False, retention = L1d\<rparr>"
  by (simp add: shown_def both_on_def normalizeStatsRetention_def STATS_RETENTION_OPTIONS_def parse_logs_retention_def)

lemma lowered_changes:
  "retentionChange (shown both_on) lowered = Some Lower"
  "logsRetentionChange (shown both_on) lowered = Some Lower"
  by (simp_all add: both_on_shown lowered_def retentionChange_def logsRetentionChange_def)

lemma lowered_transition: "\<exists>t d. transitionFor f (shown both_on) lowered h = Some t \<and> t_dialog t = Some d"
proof -
  obtain t where t: "transitionFor f (shown both_on) lowered h = Some t"
    using transitionFor_None [of f "shown both_on" lowered h] by (auto simp: both_on_shown lowered_def)
  with transitionFor_asks(2) [OF t] lowered_changes show ?thesis by (auto simp: asks_def)
qed

theorem save_stores_pending_witness:
  "\<exists>s' es. UpdateProfile plain_cast both_on (buildUpdates (fromProfile (Some both_on_profile)) all_off) = Inr (s', es)"
  using save_stores_pending [OF plain_cast_ok both_on_wire, of all_off] by blast

theorem deletion_is_confirmed_witness:
  "\<exists>s' es t. UpdateProfile plain_cast both_on (buildUpdates (shown both_on) lowered) = Inr (s', es) \<and>
     transitionFor plain_formats (shown both_on) lowered None = Some t \<and> t_dialog t \<noteq> None \<and>
     (deletes_logs both_on es \<or> deletes_counts both_on es)"
proof -
  obtain s' es where u: "UpdateProfile plain_cast both_on (buildUpdates (shown both_on) lowered) = Inr (s', es)"
    using UpdateProfile_save [OF plain_cast_ok] by blast
  obtain t d where t: "transitionFor plain_formats (shown both_on) lowered None = Some t" "t_dialog t = Some d"
    using lowered_transition by blast
  show ?thesis using deletion_is_confirmed [OF plain_cast_ok u t(1)] u t by auto
qed

theorem dialog_names_losses_witness:
  "\<exists>t d. transitionFor plain_formats (shown both_on) lowered None = Some t \<and> t_dialog t = Some d \<and>
     js_includes (body d) UNDONE \<and> js_includes (body d) (logsOlder ''1 hour'')"
proof -
  obtain t d where t: "transitionFor plain_formats (shown both_on) lowered None = Some t" "t_dialog t = Some d"
    using lowered_transition by blast
  have "pending_logs_words lowered = ''1 hour''" by (simp add: lowered_def)
  then show ?thesis using dialog_names_losses [OF t] t lowered_changes by auto
qed

theorem turn_off_accepted_witness: "isTurnOffOnly plain_cast (buildUpdates (shown both_on) all_off)"
  using turn_off_accepted [OF plain_cast_ok, of "shown both_on" all_off]
  by (simp add: both_on_shown all_off_def)

theorem nothing_older_is_true_witness:
  "\<exists>h t. statsHeld (\<lambda>s. Some 1736510400000) (Some both_on_profile) 1737000000000 = Some h \<and>
     transitionFor plain_formats (shown both_on) lowered (Some h) = Some t \<and> t_nothingOlder t"
proof -
  let ?h = "\<lparr>nowMs = 1737000000000, oldestMs = 1736510400000, firstDayMs = floorDay 1736510400000\<rparr>"
  have h: "statsHeld (\<lambda>s. Some 1736510400000) (Some both_on_profile) 1737000000000 = Some ?h"
    by (simp add: statsHeld_def both_on_profile_def profile_statistics_def parseTime_def Let_def max_time_def
        max_time2_def normalizeStatsRetention_def STATS_RETENTION_OPTIONS_def DAY_MS_def floorDay_def)
  obtain t d where t: "transitionFor plain_formats (shown both_on) lowered (Some ?h) = Some t"
    using lowered_transition by blast
  have "floorDay (1737000000000 - statsDays (statsRetention lowered) * DAY_MS) \<le> firstDayMs ?h"
    by (simp add: lowered_def floorDay_def DAY_MS_def)
  then show ?thesis
    using nothing_older_is_true [of plain_formats "shown both_on" lowered "\<lambda>s. Some 1736510400000"
        "Some both_on_profile" 1737000000000 t ?h] h t lowered_changes(1) by auto
qed

end
