(* ===== verification/Statistics.thy ===== *)
theory Statistics
  imports DataCollection "HOL-Library.Sublist" "HOL-Library.Multiset"
begin

text \<open>
  The statistics page: the timeframe picker (app/src/pages/statistics/ranges.ts), the derivations
  from an answer (derive.ts), the axis ticks and labels (time.ts) and the request cache of its
  panels (useApiResource.ts).

  The formatters of \<open>Intl\<close> and the host's string comparison are arguments. A chart width in pixels
  enters as its floor: the code only compares it with whole numbers and floors its quotients, so
  a fractional part cannot change the result.
\<close>

subsection \<open>The timeframe picker (ranges.ts)\<close>

datatype RangeKey = K3h | K6h | K24h | K7d | K30d | K3m | K12m

fun range_value :: "RangeKey \<Rightarrow> string" where
  "range_value K3h = ''3h''" | "range_value K6h = ''6h''" | "range_value K24h = ''24h''"
| "range_value K7d = ''7d''" | "range_value K30d = ''30d''" | "range_value K3m = ''3m''"
| "range_value K12m = ''12m''"

definition DEFAULT_RANGE :: RangeKey where "DEFAULT_RANGE = K24h"

record RangeDef =
  rd_key :: RangeKey
  rd_label :: string
  rd_words :: string
  rd_seconds :: int

definition DAY :: int where "DAY = 86400"

definition RANGES :: "RangeDef list" where
  "RANGES =
     [\<lparr>rd_key = K3h, rd_label = ''Last 3 hours'', rd_words = ''last 3 hours'', rd_seconds = 3 * 3600\<rparr>,
      \<lparr>rd_key = K6h, rd_label = ''Last 6 hours'', rd_words = ''last 6 hours'', rd_seconds = 6 * 3600\<rparr>,
      \<lparr>rd_key = K24h, rd_label = ''Last 24 hours'', rd_words = ''last 24 hours'', rd_seconds = DAY\<rparr>,
      \<lparr>rd_key = K7d, rd_label = ''Last 7 days'', rd_words = ''last 7 days'', rd_seconds = 7 * DAY\<rparr>,
      \<lparr>rd_key = K30d, rd_label = ''Last 30 days'', rd_words = ''last 30 days'', rd_seconds = 30 * DAY\<rparr>,
      \<lparr>rd_key = K3m, rd_label = ''Last 3 months'', rd_words = ''last 3 months'', rd_seconds = 90 * DAY\<rparr>,
      \<lparr>rd_key = K12m, rd_label = ''Last 12 months'', rd_words = ''last 12 months'', rd_seconds = 365 * DAY\<rparr>]"

definition rangeDef :: "RangeKey \<Rightarrow> RangeDef" where
  "rangeDef k =
     nullish (find (\<lambda>r. rd_key r = k) RANGES) (the (find (\<lambda>r. rd_key r = DEFAULT_RANGE) RANGES))"

definition parseRange :: "string option \<Rightarrow> RangeKey" where
  "parseRange v =
     nullish (map_option rd_key (find (\<lambda>r. Some (range_value (rd_key r)) = v) RANGES)) DEFAULT_RANGE"

definition offeredRanges :: "StatsRetention \<Rightarrow> RangeDef list" where
  "offeredRanges r =
     (let d = nullish (map_option so_days (find (\<lambda>o'. so_value o' = r) STATS_RETENTION_OPTIONS)) 30
      in filter (\<lambda>x. rd_seconds x \<le> d * DAY) RANGES)"

definition resolveRange :: "string option \<Rightarrow> StatsRetention \<Rightarrow> RangeKey" where
  "resolveRange v r =
     (let asked = parseRange v; offered = offeredRanges r
      in if list_ex (\<lambda>x. rd_key x = asked) offered then asked else rd_key (last offered))"

fun next_in :: "RangeKey \<Rightarrow> RangeDef list \<Rightarrow> RangeKey option" where
  "next_in k (a # b # rest) = (if rd_key a = k then Some (rd_key b) else next_in k (b # rest))"
| "next_in k _ = None"

definition nextLongerRange :: "RangeKey \<Rightarrow> RangeKey option" where
  "nextLongerRange k = next_in k RANGES"

fun STATS_TIMESPAN :: "RangeKey \<Rightarrow> string" where
  "STATS_TIMESPAN K3h = ''LAST_3_HOURS''"
| "STATS_TIMESPAN K6h = ''LAST_6_HOURS''"
| "STATS_TIMESPAN K24h = ''LAST_1_DAY''"
| "STATS_TIMESPAN K7d = ''LAST_7_DAYS''"
| "STATS_TIMESPAN K30d = ''LAST_MONTH''"
| "STATS_TIMESPAN K3m = ''LAST_3_MONTHS''"
| "STATS_TIMESPAN K12m = ''LAST_YEAR''"

fun LOGS_TIMESPAN :: "RangeKey \<Rightarrow> string" where
  "LOGS_TIMESPAN K3h = ''LAST_3_HOURS''"
| "LOGS_TIMESPAN K6h = ''LAST_6_HOURS''"
| "LOGS_TIMESPAN K24h = ''LAST_1_DAY''"
| "LOGS_TIMESPAN K7d = ''LAST_7_DAYS''"
| "LOGS_TIMESPAN K30d = ''LAST_MONTH''"
| "LOGS_TIMESPAN K3m = ''LAST_MONTH''"
| "LOGS_TIMESPAN K12m = ''LAST_MONTH''"

subsection \<open>Derivations from an answer (derive.ts)\<close>

definition TOP_LIST_LIMIT :: nat where "TOP_LIST_LIMIT = 50"

record StatsPoint =
  pt_ts :: int
  pt_total :: int
  pt_blocked :: int
  pt_dnssec :: int

record StatsDevice =
  dv_id :: string
  dv_total :: int
  dv_blocked :: int

record StatsData =
  sx_enabled :: bool
  sx_enabledAt :: "int option"
  sx_turnedOnAt :: "int option"
  sx_historyDeletedAt :: "int option"
  sx_retention :: string
  sx_fromMs :: int
  sx_toMs :: int
  sx_bucketSeconds :: int
  sx_totals :: "int \<times> int \<times> int"
  sx_series :: "StatsPoint list"
  sx_reasons :: "(string \<times> int) list"
  sx_protocols :: "(string \<times> int) list"
  sx_devices :: "StatsDevice list"

definition num :: "int option \<Rightarrow> int" where "num v = nullish v 0"

definition time_of :: "time_parser \<Rightarrow> string option \<Rightarrow> int option" where
  "time_of parse v = Option.bind v parse"

definition latest :: "int option \<Rightarrow> int option \<Rightarrow> int option" where
  "latest a b = (case a of None \<Rightarrow> b | Some x \<Rightarrow> (case b of None \<Rightarrow> a | Some y \<Rightarrow> Some (max x y)))"

definition REASON_CLASSES :: "(string \<times> (ModelStatisticsReasons \<Rightarrow> int option)) list" where
  "REASON_CLASSES =
     [(''blocklist'', re_blocklist), (''service'', re_service), (''custom_rule'', re_custom_rule),
      (''default_rule'', re_default_rule), (''rebinding'', re_rebinding), (''other'', re_other)]"

definition PROTOCOLS :: "(string \<times> (ModelStatisticsProtocols \<Rightarrow> int option)) list" where
  "PROTOCOLS = [(''doh'', pr_doh), (''dot'', pr_dot), (''doq'', pr_doq)]"

definition normalizeStats :: "time_parser \<Rightarrow> ModelStatisticsResponse \<Rightarrow> StatsData" where
  "normalizeStats parse r =
     (let on = time_of parse (sr_enabled_at r);
          del = time_of parse (sr_history_deleted_at r)
      in \<lparr>sx_enabled = (sr_enabled r = Some True),
          sx_enabledAt = latest on del,
          sx_turnedOnAt = on,
          sx_historyDeletedAt = del,
          sx_retention = nullish (sr_retention r) '''',
          sx_fromMs = nullish (time_of parse (sr_from r)) 0,
          sx_toMs = nullish (time_of parse (sr_to r)) 0,
          sx_bucketSeconds = num (sr_bucket_seconds r),
          sx_totals = (num (Option.bind (sr_totals r) to_total), num (Option.bind (sr_totals r) to_blocked),
                       num (Option.bind (sr_totals r) to_dnssec)),
          sx_series = concat (map (\<lambda>p. case time_of parse (sp_ts p) of
                         None \<Rightarrow> []
                       | Some t \<Rightarrow> [\<lparr>pt_ts = t, pt_total = num (sp_total p), pt_blocked = num (sp_blocked p),
                                     pt_dnssec = num (sp_dnssec p)\<rparr>]) (nullish (sr_series r) [])),
          sx_reasons = map (\<lambda>(k, f). (k, num (Option.bind (sr_reasons r) f))) REASON_CLASSES,
          sx_protocols = map (\<lambda>(k, f). (k, num (Option.bind (sr_protocols r) f))) PROTOCOLS,
          sx_devices = map (\<lambda>d. \<lparr>dv_id = nullish (sd_device_id d) '''', dv_total = num (sd_total d),
                                  dv_blocked = num (sd_blocked d)\<rparr>) (nullish (sr_devices r) [])\<rparr>)"

definition FLUSH_LAG_MS :: int where "FLUSH_LAG_MS = 15 * 60 * 1000"

record Bucket =
  bk_ts :: int
  bk_total :: "int option"
  bk_blocked :: "int option"
  bk_dnssec :: "int option"
  bk_inProgress :: bool

definition start_floor :: "StatsData \<Rightarrow> int option" where
  "start_floor d =
     (let width = sx_bucketSeconds d * 1000
      in case sx_enabledAt d of
           None \<Rightarrow> None
         | Some t \<Rightarrow> if 0 < width then Some ((t div width) * width) else None)"

definition buildBuckets :: "StatsData \<Rightarrow> Bucket list" where
  "buildBuckets d =
     (let width = sx_bucketSeconds d * 1000
      in map (\<lambda>p.
           let gap = (case start_floor d of None \<Rightarrow> False | Some f \<Rightarrow> pt_ts p < f) in
           \<lparr>bk_ts = pt_ts p,
            bk_total = (if gap then None else Some (pt_total p)),
            bk_blocked = (if gap then None else Some (pt_blocked p)),
            bk_dnssec = (if gap then None else Some (pt_dnssec p)),
            bk_inProgress = (\<not> gap \<and> pt_ts p + width > sx_toMs d - FLUSH_LAG_MS)\<rparr>) (sx_series d))"

definition countingSince :: "StatsData \<Rightarrow> int option" where
  "countingSince d =
     (case sx_enabledAt d of
        None \<Rightarrow> None
      | Some t \<Rightarrow>
          if t \<le> sx_fromMs d then None
          else (case sx_series d of
                  [] \<Rightarrow> None
                | p # _ \<Rightarrow> if pt_ts p < t then Some t else None))"

text \<open>\<open>counted >= viewSpan / 4\<close> compares whole numbers with an exact quotient.\<close>

definition shorterViewForStart :: "StatsData \<Rightarrow> RangeKey \<Rightarrow> RangeDef list \<Rightarrow> RangeKey option" where
  "shorterViewForStart d current offered =
     (case countingSince d of
        None \<Rightarrow> None
      | Some since \<Rightarrow>
          let counted = sx_toMs d - since;
              viewSpan = rd_seconds (rangeDef current) * 1000
          in if 4 * counted \<ge> viewSpan then None
             else (case find (\<lambda>r. rd_seconds r * 1000 \<ge> counted) offered of
                     None \<Rightarrow> None
                   | Some fit \<Rightarrow> if rd_seconds fit * 1000 < viewSpan then Some (rd_key fit) else None))"

datatype CountsState = Data | NoQueriesYet | EmptyRange

definition countsState :: "StatsData \<Rightarrow> CountsState" where
  "countsState d =
     (if fst (sx_totals d) > 0 then Data
      else case sx_enabledAt d of
        Some t \<Rightarrow> if t \<ge> sx_fromMs d then NoQueriesYet else EmptyRange
      | None \<Rightarrow> EmptyRange)"

datatype device_kind = DevId | DevNone | DevOther

definition deviceLabel :: "string \<Rightarrow> device_kind \<times> string \<times> string option" where
  "deviceLabel i =
     (if i = '''' then (DevNone, ''No device ID'', Some ''Queries that arrived without a device identifier'')
      else if i = ''_other''
      then (DevOther, ''Other devices'', Some ''Devices beyond the 99 busiest in this range, grouped'')
      else (DevId, i, None))"

definition sum_counts :: "int option list \<Rightarrow> int" where
  "sum_counts vs = foldl (\<lambda>s v. s + nullish v 0) 0 vs"

definition QUARTER_MS :: int where "QUARTER_MS = 15 * 60000"
definition HOUR_MS :: int where "HOUR_MS = 60 * 60000"
definition FLUSH_TICK_MS :: int where "FLUSH_TICK_MS = 60000"
definition COLLECTING_GRACE_MS :: int where "COLLECTING_GRACE_MS = 2 * 60000"

record ExpectedFirstCounts =
  boundaryMs :: int
  displayMs :: int
  collectingUntilMs :: int

definition tier_bucket :: "RangeKey \<Rightarrow> int option" where
  "tier_bucket k =
     (if k = K24h \<or> k = K7d then Some HOUR_MS
      else if k = K30d \<or> k = K3m \<or> k = K12m then Some (24 * HOUR_MS) else None)"

definition expectedFirstCounts ::
  "RangeKey \<Rightarrow> int option \<Rightarrow> int option \<Rightarrow> ExpectedFirstCounts option" where
  "expectedFirstCounts k enabledAt historyDeletedAt =
     (case latest enabledAt historyDeletedAt of
        None \<Rightarrow> None
      | Some start \<Rightarrow>
          let b0 = (start div QUARTER_MS) * QUARTER_MS + QUARTER_MS;
              b = (case (historyDeletedAt, tier_bucket k) of
                     (Some del, Some bucket) \<Rightarrow> max b0 ((del div bucket) * bucket + bucket + QUARTER_MS)
                   | _ \<Rightarrow> b0);
              disp = b + FLUSH_TICK_MS
          in Some \<lparr>boundaryMs = b, displayMs = disp, collectingUntilMs = disp + COLLECTING_GRACE_MS\<rparr>)"

datatype Scope = ScopeLast string | ScopeSince int

definition LOGS_RETENTION_WINDOW :: "(string \<times> int \<times> string) list" where
  "LOGS_RETENTION_WINDOW =
     [(''1h'', 3600, ''last hour''), (''6h'', 6 * 3600, ''last 6 hours''),
      (''1d'', 86400, ''last 24 hours''), (''1w'', 7 * 86400, ''last 7 days''),
      (''1m'', 30 * 86400, ''last 30 days'')]"

definition logsWindow :: "RangeKey \<Rightarrow> string option \<Rightarrow> int \<times> string" where
  "logsWindow k logsRetention =
     (let kept = nullish (map_of LOGS_RETENTION_WINDOW (nullish logsRetention ''''))
                   (the (map_of LOGS_RETENTION_WINDOW ''1h''));
          view = rangeDef k
      in if fst kept < rd_seconds view then kept else (rd_seconds view, rd_words view))"

text \<open>\<open>toleranceMs\<close> divides by 12; the comparisons with it are multiplied out.\<close>

definition logsScope :: "RangeKey \<Rightarrow> string option \<Rightarrow> int option \<Rightarrow> int \<Rightarrow> Scope" where
  "logsScope k logsRetention coveredFrom now =
     (let w = logsWindow k logsRetention; start = now - fst w * 1000
      in case coveredFrom of
           Some c \<Rightarrow> if 12 * c > 12 * start + fst w * 1000 then ScopeSince c else ScopeLast (snd w)
         | None \<Rightarrow> ScopeLast (snd w))"

definition logsReachBeforeCounts ::
  "RangeKey \<Rightarrow> string option \<Rightarrow> int option \<Rightarrow> int option \<Rightarrow> bool" where
  "logsReachBeforeCounts k logsRetention coveredFrom countsStart =
     (case (coveredFrom, countsStart) of
        (Some c, Some s) \<Rightarrow> 12 * c < 12 * s - fst (logsWindow k logsRetention) * 1000
      | _ \<Rightarrow> False)"

record BlocklistItem =
  bi_id :: string
  bi_name :: "string option"
  bi_count :: int

text \<open>\<open>le a b\<close> says that the host's \<open>localeCompare\<close> does not put \<open>a\<close> after \<open>b\<close>.\<close>

definition withEnabledLists ::
  "(string \<Rightarrow> string \<Rightarrow> bool) \<Rightarrow> BlocklistItem list \<Rightarrow> string list \<Rightarrow> (string \<rightharpoonup> string) \<Rightarrow> BlocklistItem list" where
  "withEnabledLists le items enabled names =
     (if length items \<ge> TOP_LIST_LIMIT then items
      else
        let zero = js_sort (\<lambda>a b. le (nullish (bi_name a) (bi_id a)) (nullish (bi_name b) (bi_id b)))
                     (map (\<lambda>i. \<lparr>bi_id = i, bi_name = names i, bi_count = 0\<rparr>)
                        (filter (\<lambda>i. i \<notin> set (map bi_id items)) enabled))
        in if zero \<noteq> [] then items @ zero else items)"

subsection \<open>Facts about the picker\<close>

lemma RANGES_keys [simp]: "map rd_key RANGES = [K3h, K6h, K24h, K7d, K30d, K3m, K12m]"
  by (simp add: RANGES_def)

lemma range_cases: "k \<in> set (map rd_key RANGES)"
  by (cases k) simp_all

lemma rangeDef_key [simp]: "rd_key (rangeDef k) = k"
  by (cases k) (simp_all add: rangeDef_def RANGES_def)

lemma rangeDef_in: "rangeDef k \<in> set RANGES"
  by (cases k) (simp_all add: rangeDef_def RANGES_def)

lemma range_seconds [simp]:
  "rd_seconds (rangeDef K3h) = 10800" "rd_seconds (rangeDef K6h) = 21600"
  "rd_seconds (rangeDef K24h) = 86400" "rd_seconds (rangeDef K7d) = 604800"
  "rd_seconds (rangeDef K30d) = 2592000" "rd_seconds (rangeDef K3m) = 7776000"
  "rd_seconds (rangeDef K12m) = 31536000"
  by (simp_all add: rangeDef_def RANGES_def DAY_def)

lemma parse_range_value [simp]: "parseRange (Some (range_value k)) = k"
  by (cases k) (simp_all add: parseRange_def RANGES_def)

lemma offered_eq: "offeredRanges r = filter (\<lambda>x. rd_seconds x \<le> statsDays r * DAY) RANGES"
  by (cases r) (simp_all add: offeredRanges_def STATS_RETENTION_OPTIONS_def)

lemma offered_keys:
  "map rd_key (offeredRanges R30d) = [K3h, K6h, K24h, K7d, K30d]"
  "map rd_key (offeredRanges R90d) = [K3h, K6h, K24h, K7d, K30d, K3m]"
  "map rd_key (offeredRanges R1y) = [K3h, K6h, K24h, K7d, K30d, K3m, K12m]"
  by (simp_all add: offered_eq RANGES_def DAY_def)

lemma offered_member: "x \<in> set (offeredRanges r) \<Longrightarrow> rangeDef (rd_key x) = x"
proof -
  assume "x \<in> set (offeredRanges r)"
  then have "x \<in> set RANGES" by (simp add: offered_eq)
  then have "list_all (\<lambda>y. rangeDef (rd_key y) = y) RANGES \<Longrightarrow> rangeDef (rd_key x) = x"
    by (simp add: list_all_iff)
  moreover have "list_all (\<lambda>y. rangeDef (rd_key y) = y) RANGES" by (simp add: RANGES_def rangeDef_def)
  ultimately show ?thesis by blast
qed

lemma offered_nonempty: "offeredRanges r \<noteq> []"
proof -
  have "map rd_key (offeredRanges r) \<noteq> []" by (cases r) (simp_all only: offered_keys list.distinct not_False_eq_True)
  then show ?thesis by (metis list.map_disc_iff)
qed

lemma sum_counts_start: "foldl (\<lambda>s v. s + nullish v 0) a vs = a + sum_counts vs"
proof (induction vs arbitrary: a)
  case (Cons v vs)
  show ?case
    using Cons [of "a + nullish v 0"] Cons [of "0 + nullish v 0"] by (simp add: sum_counts_def)
qed (simp add: sum_counts_def)

lemma sum_counts_Cons: "sum_counts [] = 0" "sum_counts (v # vs) = nullish v 0 + sum_counts vs"
  using sum_counts_start [of "nullish v 0" vs] by (simp_all add: sum_counts_def)

subsection \<open>Properties\<close>

text \<open>
  Fact (resolveRange_offered). Whatever the URL says, the page shows a view whose window the
  statistics retention covers: the named one when it is offered, else the longest one offered
  (an unknown name reads as 24 hours, which every retention offers).
\<close>

theorem resolveRange_offered:
  "resolveRange v r \<in> rd_key ` set (offeredRanges r) \<and>
   rd_seconds (rangeDef (resolveRange v r)) \<le> statsDays r * DAY \<and>
   resolveRange (Some (range_value k)) r =
     (if rd_seconds (rangeDef k) \<le> statsDays r * DAY then k else rd_key (last (offeredRanges r)))"
proof -
  have mem: "resolveRange v r \<in> rd_key ` set (offeredRanges r)" for v
    using offered_nonempty [of r] by (force simp: resolveRange_def Let_def list_ex_iff)
  moreover have "list_ex (\<lambda>x. rd_key x = k) (offeredRanges r) \<longleftrightarrow> rd_seconds (rangeDef k) \<le> statsDays r * DAY" for k
    using offered_member [of _ r] rangeDef_in [of k] by (force simp: list_ex_iff offered_eq)
  moreover have "rd_seconds (rangeDef (resolveRange v r)) \<le> statsDays r * DAY"
    using mem [of v] offered_member [of _ r] by (fastforce simp: offered_eq)
  ultimately show ?thesis by (simp add: resolveRange_def Let_def)
qed

text \<open>
  Fact (shorter_view_contains_counts). A view proposed because counting started late is one
  of the offered ones, strictly shorter than the current one, still contains everything counted,
  and is the first offered one that does.
\<close>

theorem shorter_view_contains_counts:
  assumes "shorterViewForStart d current (offeredRanges r) = Some k"
  shows "\<exists>since. countingSince d = Some since \<and> k \<in> rd_key ` set (offeredRanges r) \<and>
           sx_toMs d - since \<le> rd_seconds (rangeDef k) * 1000 \<and>
           rd_seconds (rangeDef k) < rd_seconds (rangeDef current) \<and>
           list_all (\<lambda>x. rd_seconds x * 1000 < sx_toMs d - since)
             (takeWhile (\<lambda>x. rd_key x \<noteq> k) (offeredRanges r))"
proof -
  obtain since fit where s: "countingSince d = Some since"
    and f: "find (\<lambda>x. rd_seconds x * 1000 \<ge> sx_toMs d - since) (offeredRanges r) = Some fit"
    and k: "rd_key fit = k" "rd_seconds fit * 1000 < rd_seconds (rangeDef current) * 1000"
    using assms by (auto simp: shorterViewForStart_def Let_def split: option.splits if_splits)
  from f obtain i where i: "i < length (offeredRanges r)" "fit = offeredRanges r ! i"
    "rd_seconds fit * 1000 \<ge> sx_toMs d - since"
    "\<And>j. j < i \<Longrightarrow> \<not> rd_seconds (offeredRanges r ! j) * 1000 \<ge> sx_toMs d - since"
    unfolding find_Some_iff by blast
  then have "fit \<in> set (offeredRanges r)" by simp
  then have fk: "rangeDef k = fit" using offered_member k(1) by blast
  have "set (takeWhile (\<lambda>x. rd_key x \<noteq> k) (offeredRanges r)) \<subseteq> set (take i (offeredRanges r))"
    by (rule takeWhile_before) (use i(1,2) k(1) in auto)
  moreover have "rd_seconds x * 1000 < sx_toMs d - since" if "x \<in> set (take i (offeredRanges r))" for x
    using that i(4) by (auto simp: in_set_conv_nth not_le)
  ultimately have "list_all (\<lambda>x. rd_seconds x * 1000 < sx_toMs d - since)
      (takeWhile (\<lambda>x. rd_key x \<noteq> k) (offeredRanges r))"
    by (auto simp: list_all_iff)
  with s k i(3) \<open>fit \<in> set (offeredRanges r)\<close> fk show ?thesis by auto
qed

text \<open>
  Fact (bucket_gaps). The chart has one bucket per point, in order. A bucket is a gap exactly
  when it lies before the one in which counting started; that bucket itself, and every later one,
  shows its numbers, so the counts after the start add up to the points' totals.
\<close>

theorem bucket_gaps:
  assumes "sx_enabledAt d = Some t" and "0 < sx_bucketSeconds d"
    and "list_all (\<lambda>p. (sx_bucketSeconds d * 1000) dvd pt_ts p) (sx_series d)"
  shows "map bk_ts (buildBuckets d) = map pt_ts (sx_series d) \<and>
         list_all (\<lambda>b. bk_total b = None \<longleftrightarrow> bk_ts b + sx_bucketSeconds d * 1000 \<le> t) (buildBuckets d) \<and>
         sum_counts (map bk_total (buildBuckets d)) =
           sum_list (map pt_total (filter (\<lambda>p. t < pt_ts p + sx_bucketSeconds d * 1000) (sx_series d)))"
proof -
  let ?w = "sx_bucketSeconds d * 1000"
  have sf: "start_floor d = Some ((t div ?w) * ?w)" using assms by (simp add: start_floor_def Let_def)
  have gap: "pt_ts p < (t div ?w) * ?w \<longleftrightarrow> pt_ts p + ?w \<le> t" if p: "p \<in> set (sx_series d)" for p
  proof -
    obtain q where q: "pt_ts p = ?w * q" using assms(3) p by (auto simp: list_all_iff elim: dvdE)
    have "?w * q < (t div ?w) * ?w \<longleftrightarrow> q < t div ?w" using assms(2) by (simp add: mult.commute)
    also have "\<dots> \<longleftrightarrow> ?w * q + ?w \<le> t" by (rule less_div_iff_int) (use assms(2) in simp)
    finally show ?thesis using q by simp
  qed
  have bk: "buildBuckets d = map (\<lambda>p. \<lparr>bk_ts = pt_ts p,
      bk_total = (if pt_ts p + ?w \<le> t then None else Some (pt_total p)),
      bk_blocked = (if pt_ts p + ?w \<le> t then None else Some (pt_blocked p)),
      bk_dnssec = (if pt_ts p + ?w \<le> t then None else Some (pt_dnssec p)),
      bk_inProgress = (\<not> pt_ts p + ?w \<le> t \<and> pt_ts p + ?w > sx_toMs d - FLUSH_LAG_MS)\<rparr>) (sx_series d)"
    by (simp add: buildBuckets_def sf Let_def gap)
  have "sum_counts (map (\<lambda>p. if pt_ts p + ?w \<le> t then None else Some (pt_total p)) ps) =
      sum_list (map pt_total (filter (\<lambda>p. t < pt_ts p + ?w) ps))" for ps
    by (induction ps) (simp_all add: sum_counts_Cons)
  then show ?thesis unfolding bk by (simp add: comp_def list_all_iff)
qed

text \<open>
  Fact (first_counts_window). The first counts are expected on a quarter hour strictly after
  counting started, at most a quarter hour later when nothing was deleted, and in the hourly and
  daily views never before the bucket that held the deletion has closed and been flushed.
\<close>

theorem first_counts_window:
  assumes "expectedFirstCounts k on del = Some e" and "latest on del = Some start"
  shows "start < boundaryMs e \<and> QUARTER_MS dvd boundaryMs e \<and>
         collectingUntilMs e = boundaryMs e + 180000 \<and>
         (del = None \<longrightarrow> boundaryMs e \<le> start + QUARTER_MS) \<and>
         (\<forall>t b. del = Some t \<longrightarrow> tier_bucket k = Some b \<longrightarrow> t + QUARTER_MS < boundaryMs e)"
proof -
  let ?b0 = "(start div QUARTER_MS) * QUARTER_MS + QUARTER_MS"
  have floor: "(x div w) * w \<le> x \<and> x < (x div w) * w + w" if "0 < w" for x w :: int
    using pos_mod_bound [OF that, of x] pos_mod_sign [OF that, of x] div_mult_mod_eq [of x w] by linarith
  have b0: "start < ?b0" "?b0 \<le> start + QUARTER_MS" using floor [of QUARTER_MS start] by (simp_all add: QUARTER_MS_def)
  have tier: "0 < b \<and> QUARTER_MS dvd b" if "tier_bucket k = Some b" for b
    using that by (auto simp: tier_bucket_def HOUR_MS_def QUARTER_MS_def split: if_splits)
  show ?thesis
  proof (cases "del = None \<or> tier_bucket k = None")
    case True
    then have "boundaryMs e = ?b0 \<and> collectingUntilMs e = boundaryMs e + 180000"
      using assms by (auto simp: expectedFirstCounts_def Let_def FLUSH_TICK_MS_def COLLECTING_GRACE_MS_def
          split: option.splits)
    with True b0 show ?thesis by auto
  next
    case False
    then obtain t b where d: "del = Some t" "tier_bucket k = Some b" by auto
    have e: "boundaryMs e = max ?b0 ((t div b) * b + b + QUARTER_MS)"
      "collectingUntilMs e = boundaryMs e + 180000"
      using assms d by (auto simp: expectedFirstCounts_def Let_def FLUSH_TICK_MS_def COLLECTING_GRACE_MS_def)
    have "QUARTER_MS dvd (t div b) * b + b + QUARTER_MS" using tier [OF d(2)] by simp
    moreover have "t + QUARTER_MS < (t div b) * b + b + QUARTER_MS" using floor [of b t] tier [OF d(2)] by simp
    ultimately show ?thesis using e b0 d by (auto simp: max_def)
  qed
qed

text \<open>
  Fact (enabled_lists_complete). While the top list is not full, the panel shows every
  credited list as the API ranked it, followed by exactly the enabled lists without a hit, each
  once and counted as 0. A full list is shown unchanged.
\<close>

theorem enabled_lists_complete:
  assumes "distinct enabled" and "distinct (map bi_id items)"
  shows "(TOP_LIST_LIMIT \<le> length items \<longrightarrow> withEnabledLists le items enabled names = items) \<and>
         (length items < TOP_LIST_LIMIT \<longrightarrow>
            prefix items (withEnabledLists le items enabled names) \<and>
            bi_id ` set (withEnabledLists le items enabled names) = bi_id ` set items \<union> set enabled \<and>
            distinct (map bi_id (withEnabledLists le items enabled names)) \<and>
            list_all (\<lambda>b. bi_count b = 0) (drop (length items) (withEnabledLists le items enabled names)))"
proof -
  let ?le = "\<lambda>a b. le (nullish (bi_name a) (bi_id a)) (nullish (bi_name b) (bi_id b))"
  let ?item = "\<lambda>i. \<lparr>bi_id = i, bi_name = names i, bi_count = 0\<rparr>"
  let ?missing = "filter (\<lambda>i. i \<notin> set (map bi_id items)) enabled"
  let ?zero = "js_sort ?le (map ?item ?missing)"
  have eq: "length items < TOP_LIST_LIMIT \<Longrightarrow> withEnabledLists le items enabled names = items @ ?zero"
    by (simp add: withEnabledLists_def Let_def)
  have ids: "bi_id ` set ?zero = set enabled - bi_id ` set items" by (force simp: image_iff)
  have "distinct (map ?item ?missing)" using assms(1) by (simp add: distinct_map inj_on_def)
  then have "distinct ?zero" by simp
  moreover have "inj_on bi_id (set ?zero)" by (auto simp: inj_on_def)
  ultimately have "distinct (map bi_id ?zero)" by (simp add: distinct_map)
  with eq ids assms(2) show ?thesis
    by (auto simp: withEnabledLists_def list_all_iff image_Un)
qed

subsection \<open>Witnesses\<close>

definition late_stats :: StatsData where
  "late_stats =
     \<lparr>sx_enabled = True, sx_enabledAt = Some 5400000, sx_turnedOnAt = Some 5400000,
      sx_historyDeletedAt = None, sx_retention = ''30d'', sx_fromMs = 0, sx_toMs = 10800000,
      sx_bucketSeconds = 3600, sx_totals = (7, 1, 0),
      sx_series = [\<lparr>pt_ts = 0, pt_total = 0, pt_blocked = 0, pt_dnssec = 0\<rparr>,
                   \<lparr>pt_ts = 3600000, pt_total = 3, pt_blocked = 1, pt_dnssec = 0\<rparr>,
                   \<lparr>pt_ts = 7200000, pt_total = 4, pt_blocked = 0, pt_dnssec = 0\<rparr>],
      sx_reasons = [], sx_protocols = [], sx_devices = []\<rparr>"

theorem shorter_view_contains_counts_witness:
  "shorterViewForStart late_stats K24h (offeredRanges R30d) = Some K3h \<and> K3h \<in> rd_key ` set (offeredRanges R30d)"
proof -
  have s: "shorterViewForStart late_stats K24h (offeredRanges R30d) = Some K3h"
    by (simp add: shorterViewForStart_def countingSince_def late_stats_def offered_eq RANGES_def DAY_def Let_def)
  then show ?thesis using shorter_view_contains_counts [OF s] by blast
qed

theorem bucket_gaps_witness: "sum_counts (map bk_total (buildBuckets late_stats)) = 7"
  using bucket_gaps [of late_stats 5400000] by (simp add: late_stats_def)

theorem first_counts_window_witness:
  "\<exists>e. expectedFirstCounts K7d (Some 1000) (Some 500) = Some e \<and> 1000 < boundaryMs e"
proof -
  obtain e where e: "expectedFirstCounts K7d (Some 1000) (Some 500) = Some e"
    by (simp add: expectedFirstCounts_def latest_def Let_def)
  have "latest (Some 1000) (Some 500) = Some 1000" by (simp add: latest_def)
  from first_counts_window [OF e this] e show ?thesis by blast
qed

theorem enabled_lists_complete_witness:
  "bi_id ` set (withEnabledLists (\<lambda>a b. True) [\<lparr>bi_id = ''a'', bi_name = None, bi_count = 3\<rparr>] [''b'', ''a''] (\<lambda>_. None))
     = {''a'', ''b''}"
  using enabled_lists_complete [of "[''b'', ''a'']" "[\<lparr>bi_id = ''a'', bi_name = None, bi_count = 3\<rparr>]" "\<lambda>a b. True" "\<lambda>_. None"]
  by (auto simp: TOP_LIST_LIMIT_def)

end
