(* ===== verification/ApiResource.thy ===== *)
theory ApiResource
  imports Prelude
begin

text \<open>
  The request state behind every panel of the statistics page:
  app/src/pages/statistics/useApiResource.ts.

  The hook's state and refs are one record. An event is a render with another scope or key, an
  answer to a request, a change of the tab's visibility, or a call of \<open>reload\<close> or \<open>refetch\<close>; a step
  returns the new state and the request it sends, if any. A request is its key and whether it is
  silent. Answers arrive in any order, any number of times and for any key, which covers every
  interleaving of the \<open>await\<close>s.
\<close>

datatype resource_status = Idle | Loading | Ready | Error

record 'd resource =
  rs_status :: resource_status
  rs_data :: "'d option"
  rs_refreshing :: bool
  rs_errorStatus :: "nat option"
  rs_key :: "string option"
  rs_scope :: "string option"
  rs_lastOk :: int

datatype 'd resource_event =
    KeyChanged "string option" "string option"
  | AnswerOk string bool 'd int
  | AnswerFailed string bool "nat option"
  | VisibilityChanged bool int
  | Reload
  | Refetch

definition STALE_AFTER_MS :: int where "STALE_AFTER_MS = 5 * 60 * 1000"

definition init_resource :: "'d resource" where
  "init_resource =
     \<lparr>rs_status = Idle, rs_data = None, rs_refreshing = False, rs_errorStatus = None,
      rs_key = None, rs_scope = None, rs_lastOk = 0\<rparr>"

definition set_state ::
  "resource_status \<Rightarrow> 'd option \<Rightarrow> nat option \<Rightarrow> 'd resource \<Rightarrow> 'd resource" where
  "set_state s d e st =
     st\<lparr>rs_status := s, rs_data := d, rs_refreshing := False, rs_errorStatus := e\<rparr>"

definition key_changed ::
  "string option \<Rightarrow> string option \<Rightarrow> 'd resource \<Rightarrow> 'd resource \<times> (string \<times> bool) option" where
  "key_changed scope key st =
     (let st' = st\<lparr>rs_key := key\<rparr> in
      if \<not> truthy_str key then (set_state Idle None None (st'\<lparr>rs_scope := None\<rparr>), None)
      else
        let sameScope = (rs_scope st = scope);
            st'' = st'\<lparr>rs_scope := scope\<rparr>
        in (if sameScope \<and> rs_data st \<noteq> None then st''\<lparr>rs_refreshing := True\<rparr>
            else set_state Loading None None st'',
            Some (the key, False)))"

definition run_ok :: "string \<Rightarrow> 'd \<Rightarrow> int \<Rightarrow> 'd resource \<Rightarrow> 'd resource" where
  "run_ok k d now st =
     (if rs_key st \<noteq> Some k then st
      else set_state Ready (Some d) None (st\<lparr>rs_lastOk := now\<rparr>))"

definition run_failed :: "string \<Rightarrow> bool \<Rightarrow> nat option \<Rightarrow> 'd resource \<Rightarrow> 'd resource" where
  "run_failed k silent status st =
     (if rs_key st \<noteq> Some k \<or> silent then st else set_state Error None status st)"

fun resource_step :: "'d resource \<Rightarrow> 'd resource_event \<Rightarrow> 'd resource \<times> (string \<times> bool) option" where
  "resource_step st (KeyChanged scope key) = key_changed scope key st"
| "resource_step st (AnswerOk k silent d now) = (run_ok k d now st, None)"
| "resource_step st (AnswerFailed k silent status) = (run_failed k silent status st, None)"
| "resource_step st (VisibilityChanged visible now) =
     (if \<not> visible \<or> \<not> truthy_str (rs_key st) then (st, None)
      else if now - rs_lastOk st > STALE_AFTER_MS then (st, Some (the (rs_key st), True))
      else (st, None))"
| "resource_step st Reload =
     (if \<not> truthy_str (rs_key st) then (st, None)
      else (set_state Loading None None st, Some (the (rs_key st), False)))"
| "resource_step st Refetch =
     (if truthy_str (rs_key st) then (st, Some (the (rs_key st), True)) else (st, None))"

definition run_resource :: "'d resource_event list \<Rightarrow> 'd resource" where
  "run_resource es = foldl (\<lambda>st e. fst (resource_step st e)) init_resource es"

subsection \<open>What the data belong to\<close>

text \<open>
  Answers are tagged with the key they were requested for, and \<open>scope_of\<close> gives the scope a key
  belongs to; the page builds its keys from the profile, which is the scope.
\<close>

fun tagged :: "(string \<Rightarrow> string) \<Rightarrow> (string \<times> 'x) resource_event \<Rightarrow> bool" where
  "tagged scope_of (KeyChanged scope key) = (truthy_str key \<longrightarrow> scope = Some (scope_of (the key)))"
| "tagged scope_of (AnswerOk k silent d now) = (fst d = k)"
| "tagged scope_of _ = True"

definition shows_current :: "(string \<Rightarrow> string) \<Rightarrow> (string \<times> 'x) resource \<Rightarrow> bool" where
  "shows_current scope_of st =
     ((rs_status st = Ready \<longleftrightarrow> rs_data st \<noteq> None) \<and>
      (rs_refreshing st \<longrightarrow> rs_status st = Ready) \<and>
      (truthy_str (rs_key st) \<longrightarrow> rs_scope st = Some (scope_of (the (rs_key st)))) \<and>
      (case rs_data st of
         None \<Rightarrow> True
       | Some (k, x) \<Rightarrow>
           truthy_str (rs_key st) \<and> rs_scope st = Some (scope_of k) \<and>
           (\<not> rs_refreshing st \<longrightarrow> rs_key st = Some k)))"

lemmas resource_defs = key_changed_def run_ok_def run_failed_def set_state_def shows_current_def Let_def

lemma step_shows_current:
  assumes "shows_current scope_of st" and "tagged scope_of e" and "\<And>d k s n. e = AnswerOk k s d n \<Longrightarrow> k \<noteq> []"
  shows "shows_current scope_of (fst (resource_step st e))"
proof (cases e)
  case (KeyChanged scope key)
  then show ?thesis using assms by (auto simp: resource_defs split: option.splits)
next
  case (AnswerOk k silent d now)
  then show ?thesis using assms by (cases d) (auto simp: resource_defs split: option.splits)
next
  case (AnswerFailed k silent status)
  then show ?thesis using assms by (auto simp: resource_defs split: option.splits)
next
  case (VisibilityChanged v n)
  then show ?thesis using assms by simp
next
  case Reload
  then show ?thesis using assms by (auto simp: resource_defs split: option.splits)
next
  case Refetch
  then show ?thesis using assms by simp
qed

text \<open>A request is only ever sent for a key, so an answer's key is not the empty string.\<close>

definition proper :: "(string \<Rightarrow> string) \<Rightarrow> (string \<times> 'x) resource_event \<Rightarrow> bool" where
  "proper scope_of e =
     (tagged scope_of e \<and> (case e of AnswerOk k s d n \<Rightarrow> k \<noteq> [] | _ \<Rightarrow> True))"

interpretation panel:
  machine "\<lambda>st e. if proper scope_of e then fst (resource_step st e) else st" "shows_current scope_of"
proof unfold_locales
  fix s :: "(string \<times> 'x) resource" and e :: "(string \<times> 'x) resource_event"
  assume s: "shows_current scope_of s"
  show "shows_current scope_of (if proper scope_of e then fst (resource_step s e) else s)"
  proof (cases "proper scope_of e")
    case True
    then have "tagged scope_of e" "\<And>d k b n. e = AnswerOk k b d n \<Longrightarrow> k \<noteq> []"
      by (auto simp: proper_def)
    then show ?thesis using s True step_shows_current by metis
  qed (use s in simp)
qed

lemma foldl_proper:
  "list_all (proper scope_of) es \<Longrightarrow>
     foldl (\<lambda>st e. if proper scope_of e then fst (resource_step st e) else st) s es
       = foldl (\<lambda>st e. fst (resource_step st e)) s es"
  by (induction es arbitrary: s) simp_all

lemma init_shows_current: "shows_current scope_of init_resource"
  by (simp add: shows_current_def init_resource_def)

lemma run_shows_current:
  "list_all (proper scope_of) es \<Longrightarrow> shows_current scope_of (run_resource es)"
  using panel.run_inv [OF init_shows_current, of scope_of es] foldl_proper [of scope_of es init_resource]
  by (simp add: run_resource_def)

definition other_answer :: "string \<Rightarrow> 'd resource_event \<Rightarrow> bool" where
  "other_answer key e =
     (case e of AnswerOk k s d n \<Rightarrow> k \<noteq> key | AnswerFailed k s code \<Rightarrow> k \<noteq> key | _ \<Rightarrow> False)"

subsection \<open>Properties\<close>

text \<open>
  Property C23 (panel_never_shows_other_profile). Whatever the order in which keys change and answers
  arrive, late and repeated ones included, the data on screen were requested for the scope that is
  shown, and unless the panel is marked as refreshing they are the answer to the current key.
\<close>

theorem panel_never_shows_other_profile:
  assumes "list_all (proper scope_of) es" and "rs_data (run_resource es) = Some (k, x)"
  shows "rs_status (run_resource es) = Ready \<and>
         (\<exists>key. rs_key (run_resource es) = Some key \<and> scope_of k = scope_of key \<and>
                (rs_refreshing (run_resource es) \<or> k = key))"
  using run_shows_current [OF assms(1)] assms(2)
  by (cases "rs_key (run_resource es)") (auto simp: shows_current_def)

text \<open>
  Fact (panel_settles). A render with a key sends one request for it, and the answer to that
  request settles the panel, whatever late answers for other keys came before it.
\<close>

theorem panel_settles:
  fixes st :: "'d resource" and scope :: "string option"
  assumes "key \<noteq> []" and "list_all (other_answer key) late"
  defines "st' \<equiv> foldl (\<lambda>st e. fst (resource_step st e)) (fst (resource_step st (KeyChanged scope (Some key)))) late"
  shows "snd (resource_step st (KeyChanged scope (Some key))) = Some (key, False) \<and>
         rs_data (fst (resource_step st' (AnswerOk key False d now))) = Some d \<and>
         rs_status (fst (resource_step st' (AnswerOk key False d now))) = Ready \<and>
         rs_status (fst (resource_step st' (AnswerFailed key False err))) = Error \<and>
         rs_errorStatus (fst (resource_step st' (AnswerFailed key False err))) = err"
proof -
  let ?s = "fst (resource_step st (KeyChanged scope (Some key)))"
  have k: "rs_key ?s = Some key" using assms(1) by (simp add: resource_defs)
  have "foldl (\<lambda>st e. fst (resource_step st e)) s late = s" if "rs_key s = Some key" for s :: "'d resource"
    using assms(2) that
    by (induction late) (auto simp: run_ok_def run_failed_def other_answer_def split: resource_event.splits)
  then have "st' = ?s" using k by (simp add: st'_def)
  with k assms(1) show ?thesis by (simp add: resource_defs)
qed

subsection \<open>Witnesses\<close>

definition panel_events :: "(string \<times> nat) resource_event list" where
  "panel_events =
     [KeyChanged (Some ''p'') (Some ''p|7d''), KeyChanged (Some ''q'') (Some ''q|7d''),
      AnswerOk ''q|7d'' False (''q|7d'', 2) 5, AnswerOk ''p|7d'' False (''p|7d'', 1) 6]"

theorem panel_never_shows_other_profile_witness:
  "rs_data (run_resource panel_events) = Some (''q|7d'', 2) \<and>
   (\<exists>key. rs_key (run_resource panel_events) = Some key \<and> take 1 ''q|7d'' = take 1 key)"
proof -
  have d: "rs_data (run_resource panel_events) = Some (''q|7d'', 2)"
    by (simp add: run_resource_def panel_events_def resource_defs init_resource_def)
  have "list_all (proper (take 1)) panel_events"
    by (simp add: panel_events_def proper_def)
  from panel_never_shows_other_profile [OF this d] d show ?thesis by blast
qed

theorem panel_settles_witness:
  "rs_data (fst (resource_step (foldl (\<lambda>st e. fst (resource_step st e))
      (fst (resource_step (init_resource :: nat resource) (KeyChanged (Some ''p'') (Some ''k''))))
      [AnswerFailed ''old'' False None]) (AnswerOk ''k'' False 3 9))) = Some 3"
proof -
  have "list_all (other_answer ''k'') [AnswerFailed ''old'' False None :: nat resource_event]"
    by (simp add: other_answer_def)
  from panel_settles [OF _ this] show ?thesis by blast
qed

end
