(* ===== verification/StatsTime.thy ===== *)
theory StatsTime
  imports Statistics
begin

text \<open>
  Axis ticks and bucket labels of the statistics charts: app/src/pages/statistics/time.ts.

  The cached \<open>Intl\<close> formatters are the record \<open>tick_formats\<close>; a label is never inspected. The local
  clock is a \<^typ>\<open>time_zone\<close> (minutes east of UTC at an instant). The chart width enters as its floor.
\<close>

record tick_formats =
  f_dt :: "int \<Rightarrow> string"
  f_hm :: "int \<Rightarrow> string"
  f_utcday :: "bool \<Rightarrow> int \<Rightarrow> string"
  f_utcmy :: "int \<Rightarrow> string"
  f_wd :: "int \<Rightarrow> string"
  f_md :: "int \<Rightarrow> string"
  f_dtz :: "int \<Rightarrow> string"
  f_hmz :: "int \<Rightarrow> string"

definition formatExpected :: "tick_formats \<Rightarrow> time_zone \<Rightarrow> int \<Rightarrow> int \<Rightarrow> string" where
  "formatExpected f tz ms now = (if local_day tz ms = local_day tz now then f_hm f ms else f_dt f ms)"

definition bucketUnitWord :: "int \<Rightarrow> string" where
  "bucketUnitWord s = (if s \<ge> 86400 then ''daily'' else if s \<ge> 3600 then ''hourly'' else ''15-minute'')"

record AxisTick =
  tk_ts :: int
  tk_label :: string

fun TICK_LABEL_PX :: "RangeKey \<Rightarrow> int" where
  "TICK_LABEL_PX K3h = 64" | "TICK_LABEL_PX K6h = 64" | "TICK_LABEL_PX K24h = 64"
| "TICK_LABEL_PX K7d = 52" | "TICK_LABEL_PX K30d = 50" | "TICK_LABEL_PX K3m = 50"
| "TICK_LABEL_PX K12m = 64"

fun SUBDAY_STEPS :: "RangeKey \<Rightarrow> int list" where
  "SUBDAY_STEPS K3h = [30, 15]"
| "SUBDAY_STEPS K6h = [60, 30, 15]"
| "SUBDAY_STEPS K24h = [180, 60]"
| "SUBDAY_STEPS K7d = [1440, 360, 180, 60]"
| "SUBDAY_STEPS _ = []"

subsection \<open>Daily views\<close>

datatype DayStep = Days nat | Monday nat | Month nat

definition DAILY_LADDER :: "DayStep list" where
  "DAILY_LADDER = [Days 1, Days 2, Days 3, Monday 1, Monday 2, Month 1, Month 2, Month 3]"

text \<open>Every \<open>n\<close>-th element, from the first: the counter \<open>k++ % every === 0\<close>.\<close>

fun every_nth :: "nat \<Rightarrow> nat \<Rightarrow> 'a list \<Rightarrow> 'a list" where
  "every_nth n k [] = []"
| "every_nth n k (x # xs) = (if k mod n = 0 then x # every_nth n (Suc k) xs else every_nth n (Suc k) xs)"

definition stepIndexes :: "int list \<Rightarrow> DayStep \<Rightarrow> nat list" where
  "stepIndexes tsList step =
     (let is = [0..<length tsList] in
      case step of
        Days n \<Rightarrow> every_nth n 0 is
      | Monday n \<Rightarrow> every_nth n 0 (filter (\<lambda>i. utc_day (tsList ! i) = 1) is)
      | Month n \<Rightarrow> every_nth n 0 (filter (\<lambda>i. utc_date (tsList ! i) = 1) is))"

definition is_month :: "DayStep \<Rightarrow> bool" where
  "is_month s = (case s of Month _ \<Rightarrow> True | _ \<Rightarrow> False)"

definition max_labels :: "int \<Rightarrow> bool \<Rightarrow> DayStep \<Rightarrow> int" where
  "max_labels width crossesYear step =
     (let px = (if is_month step then 64 else if crossesYear then 74 else 54);
          fit = (width - 40) div (px + 4)
      in max 4 (min fit (if width < 520 then 5 else 10)))"

text \<open>The loop over the ladder; \<open>previous\<close> is the last step that did not fit.\<close>

fun choose_step ::
  "int list \<Rightarrow> int \<Rightarrow> bool \<Rightarrow> DayStep list \<Rightarrow> (DayStep \<times> nat list) option \<Rightarrow> (DayStep \<times> nat list) option" where
  "choose_step tsList width crossesYear [] previous = previous"
| "choose_step tsList width crossesYear (step # rest) previous =
     (let idx = stepIndexes tsList step; wanted = min (length tsList) 4 in
      if int (length idx) \<le> max_labels width crossesYear step
      then (if length idx < wanted \<and> previous \<noteq> None then previous else Some (step, idx))
      else choose_step tsList width crossesYear rest (Some (step, idx)))"

definition daily_label :: "tick_formats \<Rightarrow> bool \<Rightarrow> int \<Rightarrow> DayStep \<Rightarrow> bool \<Rightarrow> string" where
  "daily_label f crossesYear ts step first =
     (if is_month step then f_utcmy f ts
      else f_utcday f (crossesYear \<and> (first \<or> (utc_date ts = 1 \<and> utc_month ts = 1))) ts)"

definition dailyTicks :: "tick_formats \<Rightarrow> int list \<Rightarrow> int \<Rightarrow> AxisTick list" where
  "dailyTicks f tsList width =
     (if tsList = [] then []
      else
        let crossesYear = (utc_year (hd tsList) \<noteq> utc_year (last tsList)) in
        case choose_step tsList width crossesYear DAILY_LADDER None of
          None \<Rightarrow> []
        | Some (step, idx) \<Rightarrow>
            map2 (\<lambda>i k. \<lparr>tk_ts = tsList ! i, tk_label = daily_label f crossesYear (tsList ! i) step (k = 0)\<rparr>)
              idx [0..<length idx])"

subsection \<open>Sub-day views\<close>

definition subday_label :: "tick_formats \<Rightarrow> time_zone \<Rightarrow> RangeKey \<Rightarrow> int \<Rightarrow> string" where
  "subday_label f tz view ts =
     (let midnight = (local_minutes tz ts = 0) in
      if midnight \<and> view = K7d then f_wd f ts
      else if midnight \<and> view = K24h then f_md f ts
      else f_hm f ts)"

definition step_ticks :: "tick_formats \<Rightarrow> time_zone \<Rightarrow> RangeKey \<Rightarrow> int list \<Rightarrow> int \<Rightarrow> AxisTick list" where
  "step_ticks f tz view tsList step =
     map (\<lambda>ts. \<lparr>tk_ts = ts, tk_label = subday_label f tz view ts\<rparr>)
       (filter (\<lambda>ts. local_minutes tz ts mod step = 0) tsList)"

fun pick_ticks ::
  "tick_formats \<Rightarrow> time_zone \<Rightarrow> RangeKey \<Rightarrow> int list \<Rightarrow> int list \<Rightarrow> AxisTick list \<Rightarrow> AxisTick list" where
  "pick_ticks f tz view tsList [] ticks = ticks"
| "pick_ticks f tz view tsList (step # rest) ticks =
     (let ticks' = step_ticks f tz view tsList step
      in if length ticks' \<ge> min 3 (length tsList) then ticks'
         else pick_ticks f tz view tsList rest ticks')"

definition ceil_div :: "nat \<Rightarrow> nat \<Rightarrow> nat" where
  "ceil_div a b = (a + b - 1) div b"

text \<open>\<open>while (step > 1 && ceil(n / step) < min(3, n)) step--\<close>\<close>

fun relax_step :: "nat \<Rightarrow> nat \<Rightarrow> nat" where
  "relax_step n 0 = 0"
| "relax_step n (Suc s) = (if Suc s > 1 \<and> ceil_div n (Suc s) < min 3 n then relax_step n s else Suc s)"

definition thin_step :: "RangeKey \<Rightarrow> int \<Rightarrow> nat \<Rightarrow> nat" where
  "thin_step view width n =
     (let fit = nat (max 1 ((width - 40) div (TICK_LABEL_PX view + 8)))
      in relax_step n (max (ceil_div n fit) (if width < 520 then 2 else 1)))"

definition axisTicks ::
  "tick_formats \<Rightarrow> time_zone \<Rightarrow> RangeKey \<Rightarrow> int list \<Rightarrow> int option \<Rightarrow> AxisTick list" where
  "axisTicks f tz view tsList widthPx =
     (if view = K30d \<or> view = K3m \<or> view = K12m then dailyTicks f tsList (nullish widthPx 1000)
      else if tsList = [] then []
      else
        let ticks = pick_ticks f tz view tsList (SUBDAY_STEPS view) []
        in case widthPx of
             None \<Rightarrow> ticks
           | Some w \<Rightarrow>
               if length ticks > 1 then every_nth (thin_step view w (length ticks)) 0 ticks else ticks)"

subsection \<open>Bucket labels\<close>

definition isRepeatedLocalTime :: "time_zone \<Rightarrow> int \<Rightarrow> bool" where
  "isRepeatedLocalTime tz ms =
     (let before = tz (ms - 3 * HOUR_MS); after = tz (ms + 3 * HOUR_MS) in
      if before = after then False
      else let own = tz ms in
        list_ex (\<lambda>other. other \<noteq> own \<and> tz (ms + (own - other) * 60000) = other) [before, after])"

definition formatBucketLabel :: "tick_formats \<Rightarrow> time_zone \<Rightarrow> int \<Rightarrow> int \<Rightarrow> string" where
  "formatBucketLabel f tz ms bucketSeconds =
     (if bucketSeconds \<ge> 86400 then f_utcday f True ms @ '' (UTC day)''
      else
        let end' = ms + bucketSeconds * 1000;
            start = (if isRepeatedLocalTime tz ms then f_dtz f ms else f_dt f ms);
            finish = (if isRepeatedLocalTime tz end' then f_hmz f end' else f_hm f end')
        in start @ ''-'' @ finish)"

datatype rel_unit = USecond | UMinute | UHour | UDay

text \<open>\<open>formatRelative\<close> up to the host's \<open>RelativeTimeFormat\<close>: the number and the unit it is given.\<close>

definition formatRelative :: "int \<Rightarrow> int \<Rightarrow> int \<times> rel_unit" where
  "formatRelative ms now =
     (let diffSec = round_div (ms - now) 1000; a = abs diffSec in
      if a < 60 then (diffSec, USecond)
      else if a < 3600 then (round_div diffSec 60, UMinute)
      else if a < 86400 then (round_div diffSec 3600, UHour)
      else (round_div diffSec 86400, UDay))"

subsection \<open>Thinning\<close>

lemma every_nth_subseq: "subseq (every_nth n k xs) xs"
  by (induction xs arbitrary: k) auto

lemma every_nth_set: "set (every_nth n k xs) \<subseteq> set xs"
  by (induction xs arbitrary: k) auto

lemma every_nth_sorted: "sorted_wrt P xs \<Longrightarrow> sorted_wrt P (every_nth n k xs)"
  using every_nth_set by (induction xs arbitrary: k) (auto dest!: subsetD [OF every_nth_set])

lemma every_nth_map: "map f (every_nth n k xs) = every_nth n k (map f xs)"
  by (induction xs arbitrary: k) simp_all

lemma every_nth_length:
  assumes "0 < n"
  shows "length (every_nth n k xs) = (k + length xs + n - 1) div n - (k + n - 1) div n"
proof (induction xs arbitrary: k)
  case (Cons x xs)
  have step: "(Suc k + n - 1) div n = (k + n - 1) div n + (if k mod n = 0 then 1 else 0)"
  proof -
    have "(k + n) div n = k div n + 1" using assms by (simp add: div_add_self2)
    moreover have "(k + n - 1) div n = k div n + (if k mod n = 0 then 0 else 1)"
    proof -
      have "k + n - 1 = (k div n) * n + (k mod n + n - 1)" using assms by simp
      moreover have "(k mod n + n - 1) div n = (if k mod n = 0 then 0 else 1)"
        using assms mod_less_divisor [OF assms, of k] by (auto intro!: div_nat_eqI)
      ultimately show ?thesis using assms div_mult_self3 [of n "k div n" "k mod n + n - 1"] by simp
    qed
    ultimately show ?thesis by simp
  qed
  have "(Suc k + n - 1) div n \<le> (Suc k + length xs + n - 1) div n" by (rule div_le_mono) simp
  with Cons [of "Suc k"] step show ?case by (auto split: if_splits)
qed (simp add: assms)

lemma every_nth_length0: "0 < n \<Longrightarrow> length (every_nth n 0 xs) = ceil_div (length xs) n"
  by (simp add: every_nth_length ceil_div_def)

lemma ceil_div_1 [simp]: "ceil_div n (Suc 0) = n"
  by (simp add: ceil_div_def)

lemma relax_step_spec:
  "0 < s \<Longrightarrow> 0 < relax_step n s \<and> relax_step n s \<le> s \<and> min 3 n \<le> ceil_div n (relax_step n s)"
proof (induction s)
  case (Suc s)
  show ?case
  proof (cases "Suc s > 1 \<and> ceil_div n (Suc s) < min 3 n")
    case True
    with Suc show ?thesis by auto
  next
    case False
    then show ?thesis by (cases s) auto
  qed
qed simp

lemma thin_step_pos: "0 < max (ceil_div n m) (if (w :: int) < 520 then 2 else 1)"
  by (simp add: less_max_iff_disj)

lemma thinned_length:
  "min 3 (length xs) \<le> length (every_nth (thin_step r w (length xs)) 0 xs)"
  using relax_step_spec [OF thin_step_pos] by (simp add: thin_step_def Let_def every_nth_length0)

subsection \<open>The daily ladder\<close>

lemma every_nth_0_Nil: "every_nth n 0 xs = [] \<longleftrightarrow> xs = []"
  by (cases xs) simp_all

definition step_candidates :: "int list \<Rightarrow> DayStep \<Rightarrow> nat list" where
  "step_candidates ts step =
     filter (\<lambda>i. case step of Days n \<Rightarrow> True | Monday n \<Rightarrow> utc_day (ts ! i) = 1 | Month n \<Rightarrow> utc_date (ts ! i) = 1)
       [0..<length ts]"

lemma stepIndexes_every:
  "stepIndexes ts step = every_nth (case step of Days n \<Rightarrow> n | Monday n \<Rightarrow> n | Month n \<Rightarrow> n) 0 (step_candidates ts step)"
  by (cases step) (simp_all add: stepIndexes_def step_candidates_def)

lemma stepIndexes_sorted: "sorted_wrt (<) (stepIndexes ts step)"
  unfolding stepIndexes_every by (rule every_nth_sorted) (simp add: step_candidates_def sorted_wrt_filter)

lemma stepIndexes_bound: "i \<in> set (stepIndexes ts step) \<Longrightarrow> i < length ts"
  unfolding stepIndexes_every using every_nth_set by (fastforce simp: step_candidates_def)

text \<open>A chosen step always leaves at least four labels, or all of them.\<close>

lemma choose_step_enough:
  assumes "case prev of None \<Rightarrow> \<exists>r. ladder = Days 1 # r | Some (s, idx) \<Rightarrow> idx = stepIndexes ts s \<and> min (length ts) 4 \<le> length idx"
    and "choose_step ts w cy ladder prev = Some (s, idx)"
  shows "idx = stepIndexes ts s \<and> min (length ts) 4 \<le> length idx"
  using assms
proof (induction ladder arbitrary: prev)
  case (Cons step rest)
  let ?i = "stepIndexes ts step"
  have day1: "length (stepIndexes ts (Days 1)) = length ts"
    by (simp add: stepIndexes_def every_nth_length0)
  show ?case
  proof (cases "int (length ?i) \<le> max_labels w cy step")
    case True
    show ?thesis
    proof (cases prev)
      case None
      then show ?thesis using Cons.prems True day1 by (auto simp: Let_def)
    next
      case (Some p)
      then show ?thesis using Cons.prems True by (cases p) (auto simp: Let_def split: if_splits)
    qed
  next
    case False
    then have "min (length ts) 4 \<le> length ?i" by (auto simp: max_labels_def Let_def)
    then have "case Some (step, ?i) of None \<Rightarrow> \<exists>r. rest = Days 1 # r
      | Some (s, idx) \<Rightarrow> idx = stepIndexes ts s \<and> min (length ts) 4 \<le> length idx" by simp
    moreover have "choose_step ts w cy rest (Some (step, ?i)) = Some (s, idx)"
      using False Cons.prems(2) by (simp add: Let_def)
    ultimately show ?thesis by (rule Cons.IH)
  qed
qed auto

lemma choose_step_found: "ladder \<noteq> [] \<or> prev \<noteq> None \<Longrightarrow> choose_step ts w cy ladder prev \<noteq> None"
  by (induction ladder arbitrary: prev) (auto simp: Let_def)

lemma dailyTicks_ts:
  assumes "ts \<noteq> []"
  shows "\<exists>step. map tk_ts (dailyTicks f ts w) = map (\<lambda>i. ts ! i) (stepIndexes ts step) \<and>
           min (length ts) 4 \<le> length (stepIndexes ts step)"
proof -
  let ?cy = "utc_year (hd ts) \<noteq> utc_year (last ts)"
  obtain s idx where c: "choose_step ts w ?cy DAILY_LADDER None = Some (s, idx)"
    using choose_step_found [of DAILY_LADDER None ts w ?cy] by (auto simp: DAILY_LADDER_def)
  then have "idx = stepIndexes ts s \<and> min (length ts) 4 \<le> length idx"
    by (rule choose_step_enough [rotated]) (simp add: DAILY_LADDER_def)
  moreover have "map tk_ts (dailyTicks f ts w) = map (\<lambda>i. ts ! i) idx"
    using assms c by (intro nth_equalityI) (simp_all add: dailyTicks_def Let_def)
  ultimately show ?thesis by auto
qed

lemma stepIndexes_subseq: "subseq (map (\<lambda>i. ts ! i) (stepIndexes ts step)) ts"
proof -
  have "subseq (stepIndexes ts step) [0..<length ts]"
    unfolding stepIndexes_every step_candidates_def
    by (rule subseq_order.trans [OF every_nth_subseq subseq_filter_left])
  then have "subseq (map ((!) ts) (stepIndexes ts step)) (map ((!) ts) [0..<length ts])"
    by (rule subseq_map)
  then show ?thesis by (simp only: map_nth)
qed

lemma pick_ticks_ts:
  "steps \<noteq> [] \<Longrightarrow>
     \<exists>step \<in> set steps. pick_ticks f tz view tsList steps ticks = step_ticks f tz view tsList step \<and>
       (min 3 (length tsList) \<le> length (step_ticks f tz view tsList step) \<or> step = last steps)"
proof (induction steps arbitrary: ticks)
  case (Cons s steps)
  then show ?case
    by (cases "min 3 (length tsList) \<le> length (step_ticks f tz view tsList s)"; cases "steps = []")
      (auto simp: Let_def)
qed simp

lemma step_ticks_subseq: "subseq (map tk_ts (step_ticks f tz view tsList step)) tsList"
  by (simp add: step_ticks_def comp_def)

lemma thinned_subseq: "subseq (map tk_ts (every_nth n k ticks)) (map tk_ts ticks)"
  by (rule subseq_map [OF every_nth_subseq])

subsection \<open>Properties\<close>

text \<open>
  Fact (axis_ticks_fit). The ticks are bucket timestamps of the chart, in order. A daily view
  keeps at least four labels (or all of fewer buckets) at every width; a sub-day view loses labels to
  a narrow width only down to three, and the loop that widens the spacing always ends.
\<close>

theorem axis_ticks_fit:
  "subseq (map tk_ts (axisTicks f tz view tsList widthPx)) tsList \<and>
   (view \<in> {K30d, K3m, K12m} \<longrightarrow> min (length tsList) 4 \<le> length (axisTicks f tz view tsList widthPx)) \<and>
   (view \<notin> {K30d, K3m, K12m} \<longrightarrow>
      min 3 (length (axisTicks f tz view tsList None)) \<le> length (axisTicks f tz view tsList widthPx))"
proof (cases "view \<in> {K30d, K3m, K12m}")
  case True
  then have eq: "axisTicks f tz view tsList widthPx = dailyTicks f tsList (nullish widthPx 1000)"
    by (auto simp: axisTicks_def)
  show ?thesis
  proof (cases "tsList = []")
    case False
    then obtain step where "map tk_ts (dailyTicks f tsList (nullish widthPx 1000)) = map (\<lambda>i. tsList ! i) (stepIndexes tsList step)"
      "min (length tsList) 4 \<le> length (stepIndexes tsList step)" using dailyTicks_ts by blast
    moreover from this have "length (dailyTicks f tsList (nullish widthPx 1000)) = length (stepIndexes tsList step)"
      by (metis length_map)
    ultimately show ?thesis using True stepIndexes_subseq by (simp add: eq)
  next
    case empty: True
    then have "axisTicks f tz view tsList widthPx = []" unfolding eq by (simp add: dailyTicks_def)
    then show ?thesis using True empty by simp
  qed
next
  case False
  then have ne: "SUBDAY_STEPS view \<noteq> []" by (cases view) auto
  obtain step where p: "pick_ticks f tz view tsList (SUBDAY_STEPS view) [] = step_ticks f tz view tsList step"
    using pick_ticks_ts [OF ne] by blast
  show ?thesis
    using False subseq_order.trans [OF thinned_subseq step_ticks_subseq] step_ticks_subseq thinned_length
    by (cases widthPx) (auto simp: axisTicks_def p Let_def)
qed

text \<open>
  Fact (repeated_time_marked). A time that gets its zone name is really ambiguous: another
  instant has the same local time. And around a single change of the clocks every ambiguous time
  gets it: both passes through the repeated hour are told apart.
\<close>

theorem repeated_time_marked:
  "(isRepeatedLocalTime tz ms \<longrightarrow> (\<exists>ms'. ms' \<noteq> ms \<and> local_ms tz ms' = local_ms tz ms)) \<and>
   ((\<forall>u \<in> {ms - 3 * HOUR_MS .. ms + 3 * HOUR_MS}. tz u = (if u < change then old else new)) \<and>
    ms' \<in> {ms - 3 * HOUR_MS .. ms + 3 * HOUR_MS} \<and> ms' \<noteq> ms \<and> local_ms tz ms' = local_ms tz ms \<longrightarrow>
      isRepeatedLocalTime tz ms)"
proof (intro conjI impI)
  assume "isRepeatedLocalTime tz ms"
  then obtain other where o: "other \<noteq> tz ms" "tz (ms + (tz ms - other) * 60000) = other"
    by (auto simp: isRepeatedLocalTime_def Let_def split: if_splits)
  then have "local_ms tz (ms + (tz ms - other) * 60000) = local_ms tz ms"
    by (simp add: local_ms_def algebra_simps)
  moreover have "ms + (tz ms - other) * 60000 \<noteq> ms" using o(1) by simp
  ultimately show "\<exists>ms'. ms' \<noteq> ms \<and> local_ms tz ms' = local_ms tz ms" by blast
next
  assume a: "(\<forall>u \<in> {ms - 3 * HOUR_MS .. ms + 3 * HOUR_MS}. tz u = (if u < change then old else new)) \<and>
    ms' \<in> {ms - 3 * HOUR_MS .. ms + 3 * HOUR_MS} \<and> ms' \<noteq> ms \<and> local_ms tz ms' = local_ms tz ms"
  have h: "0 < HOUR_MS" by (simp add: HOUR_MS_def)
  have b: "tz (ms - 3 * HOUR_MS) = (if ms - 3 * HOUR_MS < change then old else new)"
    "tz (ms + 3 * HOUR_MS) = (if ms + 3 * HOUR_MS < change then old else new)"
    "tz ms = (if ms < change then old else new)" "tz ms' = (if ms' < change then old else new)"
    using a h by auto
  have e: "ms' + tz ms' * 60000 = ms + tz ms * 60000" "ms' \<noteq> ms" using a unfolding local_ms_def by blast+
  have l: "ms' = ms + (tz ms - tz ms') * 60000" "tz ms' \<noteq> tz ms" using e by auto
  have s: "ms' < change \<longleftrightarrow> \<not> ms < change"
    using b(3,4) l(2) by (cases "ms < change"; cases "ms' < change") simp_all
  then have "{tz ms, tz ms'} = {old, new}" "old \<noteq> new"
    using b(3,4) l(2) by (cases "ms < change"; simp add: insert_commute)+
  moreover have r: "ms - 3 * HOUR_MS \<le> ms'" "ms' \<le> ms + 3 * HOUR_MS" using a by auto
  have "ms - 3 * HOUR_MS < change" "\<not> ms + 3 * HOUR_MS < change"
    using s r h by (cases "ms < change"; linarith)+
  then have "tz (ms - 3 * HOUR_MS) = old" "tz (ms + 3 * HOUR_MS) = new" using b(1,2) by simp_all
  moreover have "tz (ms + (tz ms - tz ms') * 60000) = tz ms'" using l(1) by simp
  ultimately have x: "tz ms' \<in> {tz (ms - 3 * HOUR_MS), tz (ms + 3 * HOUR_MS)}"
    "tz (ms - 3 * HOUR_MS) \<noteq> tz (ms + 3 * HOUR_MS)" "tz (ms + (tz ms - tz ms') * 60000) = tz ms'"
    by blast+
  have "\<exists>other \<in> {tz (ms - 3 * HOUR_MS), tz (ms + 3 * HOUR_MS)}.
      other \<noteq> tz ms \<and> tz (ms + (tz ms - other) * 60000) = other"
    using x(1,3) l(2) by blast
  with x(2) show "isRepeatedLocalTime tz ms" by (simp add: isRepeatedLocalTime_def)
qed

subsection \<open>Witnesses\<close>

definition plain_ticks :: tick_formats where
  "plain_ticks =
     \<lparr>f_dt = (\<lambda>t. ''dt''), f_hm = (\<lambda>t. ''hm''), f_utcday = (\<lambda>y t. ''day''), f_utcmy = (\<lambda>t. ''month''),
      f_wd = (\<lambda>t. ''wd''), f_md = (\<lambda>t. ''md''), f_dtz = (\<lambda>t. ''dtz''), f_hmz = (\<lambda>t. ''hmz'')\<rparr>"

theorem axis_ticks_fit_witness:
  "4 \<le> length (axisTicks plain_ticks (\<lambda>_. 0) K30d (map (\<lambda>d. int d * 86400000) [0..<30]) (Some 300))"
  using axis_ticks_fit [of plain_ticks "\<lambda>_. 0" K30d "map (\<lambda>d. int d * 86400000) [0..<30]" "Some 300"]
  by (simp del: upt_Suc upt_conv_Cons)

theorem repeated_time_marked_witness:
  "isRepeatedLocalTime (\<lambda>u. if u < 0 then 60 else 0) 1800000"
proof -
  let ?tz = "\<lambda>u :: int. if u < 0 then 60 else (0 :: int)"
  have "local_ms ?tz (- 1800000) = local_ms ?tz 1800000" by (simp add: local_ms_def)
  then show ?thesis
    using repeated_time_marked [of ?tz 1800000 0 60 0 "- 1800000"] by (simp add: HOUR_MS_def)
qed

end
