(* ===== verification/Blocklists.thy ===== *)
theory Blocklists
  imports ApiTypes JsDate "HOL-Library.Sublist"
begin

text \<open>
  The blocklists page: the groups of app/src/pages/blocklists/nativeGroup.ts and nrdGroup.ts, and
  the page's filters and handlers in MainContentSection.tsx, CategoriesContentSection.tsx and
  NrdRangeCard.tsx, against the API's two operations (api/service/profile/blocklists.go).

  A handler is one function of the page's state: its awaits are the API calls, each of which the
  network may fail (\<open>fails\<close>), and which otherwise act on the server's list of the profile. The store
  holds the page's copy of that list.
\<close>

subsection \<open>Newly registered domains (nrdGroup.ts)\<close>

definition NRD_TAG :: string where "NRD_TAG = ''nrd''"

record NrdTier =
  tier_id :: string
  tier_label :: string
  tier_window :: string

definition NRD_GROUP :: "NrdTier list" where
  "NRD_GROUP =
     [\<lparr>tier_id = ''hagezi_nrd_07'', tier_label = ''7d'', tier_window = ''last 7 days''\<rparr>,
      \<lparr>tier_id = ''hagezi_nrd_14_08'', tier_label = ''14d'', tier_window = ''last 14 days''\<rparr>,
      \<lparr>tier_id = ''hagezi_nrd_21_15'', tier_label = ''21d'', tier_window = ''last 21 days''\<rparr>,
      \<lparr>tier_id = ''hagezi_nrd_28_22'', tier_label = ''28d'', tier_window = ''last 28 days''\<rparr>,
      \<lparr>tier_id = ''hagezi_nrd_35_29'', tier_label = ''35d'', tier_window = ''last 35 days''\<rparr>]"

definition has_tag :: "string \<Rightarrow> ModelBlocklist \<Rightarrow> bool" where
  "has_tag t b = (case bl_tags b of None \<Rightarrow> False | Some ts \<Rightarrow> t \<in> set ts)"

definition isNrdItem :: "ModelBlocklist \<Rightarrow> bool" where
  "isNrdItem b = (bl_blocklist_id b \<in> set (map tier_id NRD_GROUP) \<or> has_tag NRD_TAG b)"

text \<open>\<open>new Map(entries)\<close> keeps the last entry of a key.\<close>

definition by_id :: "ModelBlocklist list \<Rightarrow> string \<rightharpoonup> ModelBlocklist" where
  "by_id items = map_of (rev (map (\<lambda>b. (bl_blocklist_id b, b)) items))"

definition orderedNrdItems :: "ModelBlocklist list \<Rightarrow> ModelBlocklist list" where
  "orderedNrdItems items = List.map_filter (\<lambda>t. by_id items (tier_id t)) NRD_GROUP"

fun depth_loop :: "string list \<Rightarrow> nat \<Rightarrow> string set \<Rightarrow> nat \<Rightarrow> nat" where
  "depth_loop [] i enabled depth = depth"
| "depth_loop (x # xs) i enabled depth = depth_loop xs (i + 1) enabled (if x \<in> enabled then i + 1 else depth)"

definition nrdDepthFromEnabled :: "string list \<Rightarrow> string list \<Rightarrow> nat" where
  "nrdDepthFromEnabled orderedIds enabled = depth_loop orderedIds 0 (set enabled) 0"

definition nrdDepthTargets :: "string list \<Rightarrow> int \<Rightarrow> string list \<times> string list" where
  "nrdDepthTargets orderedIds depth =
     (let clamped = nat (max 0 (min depth (int (length orderedIds))))
      in (take clamped orderedIds, drop clamped orderedIds))"

subsection \<open>Native trackers (nativeGroup.ts)\<close>

definition NATIVE_TAG :: string where "NATIVE_TAG = ''native''"
definition NATIVE_LABEL :: string where "NATIVE_LABEL = ''Hagezi Native Trackers''"
definition NATIVE_DESCRIPTION :: string where
  "NATIVE_DESCRIPTION =
     ''Block built-in device and OS telemetry per vendor, without breaking the vendor's services''"

definition isNativeItem :: "ModelBlocklist \<Rightarrow> bool" where
  "isNativeItem b = has_tag NATIVE_TAG b"

definition orderedNativeItems :: "(string \<Rightarrow> string \<Rightarrow> bool) \<Rightarrow> ModelBlocklist list \<Rightarrow> ModelBlocklist list" where
  "orderedNativeItems le items = js_sort (\<lambda>a b. le (bl_name a) (bl_name b)) (filter isNativeItem items)"

definition includesTerm :: "string \<Rightarrow> string \<Rightarrow> bool" where
  "includesTerm text term = js_includes (js_toLowerCase text) term"

definition nativeCardMatches :: "string \<Rightarrow> bool" where
  "nativeCardMatches term =
     (let t = js_toLowerCase (js_trim term)
      in t = '''' \<or> includesTerm NATIVE_LABEL t \<or> includesTerm NATIVE_DESCRIPTION t)"

definition nativeVendorMatches :: "ModelBlocklist list \<Rightarrow> string \<Rightarrow> bool" where
  "nativeVendorMatches items term =
     (let t = js_toLowerCase (js_trim term)
      in if t = '''' then False
         else list_ex (\<lambda>b. includesTerm (bl_name b) t \<or> includesTerm (bl_description b) t) items)"

definition nativeCardVisible :: "ModelBlocklist list \<Rightarrow> string list \<Rightarrow> string \<Rightarrow> string \<Rightarrow> bool" where
  "nativeCardVisible items enabled filterValue searchTerm =
     (if items = [] then False
      else
        let matchesFilter =
          (if filterValue = ''all'' \<or> filterValue = ''hagezi'' then True
           else if filterValue = ''enabled'' then list_ex (\<lambda>b. bl_blocklist_id b \<in> set enabled) items
           else if filterValue = ''disabled'' then list_ex (\<lambda>b. bl_blocklist_id b \<notin> set enabled) items
           else False)
        in if \<not> matchesFilter then False
           else nativeCardMatches searchTerm \<or> nativeVendorMatches items searchTerm)"

record NativeSummary =
  ns_enabledCount :: nat
  ns_totalEntries :: int
  ns_mostRecent :: string

text \<open>\<open>new Date(a) > new Date(b)\<close> is false when either date is invalid.\<close>

definition later_date :: "time_parser \<Rightarrow> string \<Rightarrow> string \<Rightarrow> bool" where
  "later_date parse a b = (case (parse a, parse b) of (Some x, Some y) \<Rightarrow> x > y | _ \<Rightarrow> False)"

definition summary_step :: "time_parser \<Rightarrow> string list \<Rightarrow> NativeSummary \<Rightarrow> ModelBlocklist \<Rightarrow> NativeSummary" where
  "summary_step parse enabled s b =
     \<lparr>ns_enabledCount = ns_enabledCount s + (if bl_blocklist_id b \<in> set enabled then 1 else 0),
      ns_totalEntries = ns_totalEntries s + nullish (bl_entries b) 0,
      ns_mostRecent =
        (if truthy_str (bl_last_modified b) \<and>
            (ns_mostRecent s = '''' \<or> later_date parse (the (bl_last_modified b)) (ns_mostRecent s))
         then the (bl_last_modified b) else ns_mostRecent s)\<rparr>"

definition nativeSummary :: "time_parser \<Rightarrow> ModelBlocklist list \<Rightarrow> string list \<Rightarrow> NativeSummary" where
  "nativeSummary parse items enabled =
     foldl (summary_step parse enabled)
       \<lparr>ns_enabledCount = 0, ns_totalEntries = 0, ns_mostRecent = ''''\<rparr> items"

subsection \<open>The lists on the page (MainContentSection.tsx)\<close>

definition PREDEFINED_INTENSITY :: "string list" where
  "PREDEFINED_INTENSITY = [''basic'', ''comprehensive'', ''restrictive'']"

definition regularBlocklists :: "ModelBlocklist list \<Rightarrow> ModelBlocklist list" where
  "regularBlocklists bs = filter (\<lambda>b. bl_kind b \<noteq> Some ''category'' \<and> bl_kind b \<noteq> Some ''security'') bs"

definition securityBlocklists :: "ModelBlocklist list \<Rightarrow> ModelBlocklist list" where
  "securityBlocklists bs = filter (\<lambda>b. bl_kind b = Some ''security'') bs"

definition categoryBlocklists :: "ModelBlocklist list \<Rightarrow> ModelBlocklist list" where
  "categoryBlocklists bs = filter (\<lambda>b. bl_kind b = Some ''category'') bs"

definition listed :: "string list \<Rightarrow> string \<Rightarrow> string \<Rightarrow> ModelBlocklist \<Rightarrow> bool" where
  "listed enabled searchValue filterValue b =
     (let matchesSearch =
            (js_trim searchValue = '''' \<or>
             js_includes (js_toLowerCase (bl_name b)) (js_toLowerCase searchValue) \<or>
             js_includes (js_toLowerCase (bl_description b)) (js_toLowerCase searchValue));
          matchesFilter =
            (if filterValue = ''all'' then True
             else if filterValue = ''enabled'' then bl_blocklist_id b \<in> set enabled
             else if filterValue = ''disabled'' then bl_blocklist_id b \<notin> set enabled
             else if filterValue \<in> set PREDEFINED_INTENSITY
             then (case bl_intensity b of None \<Rightarrow> False | Some xs \<Rightarrow> filterValue \<in> set xs)
             else has_tag filterValue b)
      in matchesSearch \<and> matchesFilter)"

text \<open>
  An absent date is the epoch, an unreadable one NaN (\<open>None\<close>), which the comparator treats as equal
  to everything. With NaN present the comparator is not an order, and the result is the engine's.
\<close>

definition modified_time :: "time_parser \<Rightarrow> ModelBlocklist \<Rightarrow> int option" where
  "modified_time parse b =
     (if truthy_str (bl_last_modified b) then parse (the (bl_last_modified b)) else Some 0)"

definition newer_first :: "time_parser \<Rightarrow> ModelBlocklist \<Rightarrow> ModelBlocklist \<Rightarrow> bool" where
  "newer_first parse a b =
     (case (modified_time parse a, modified_time parse b) of (Some x, Some y) \<Rightarrow> y \<le> x | _ \<Rightarrow> True)"

definition filteredBlocklists ::
  "time_parser \<Rightarrow> bool \<Rightarrow> string list \<Rightarrow> string \<Rightarrow> string \<Rightarrow> ModelBlocklist list \<Rightarrow> ModelBlocklist list" where
  "filteredBlocklists parse byUpdated enabled searchValue filterValue bs =
     (let fs = filter (listed enabled searchValue filterValue)
                 (filter (\<lambda>b. \<not> isNativeItem b) (regularBlocklists bs))
      in if byUpdated then js_sort (newer_first parse) fs else fs)"

subsection \<open>The API\<close>

datatype blocklist_error = ErrInvalidBlocklistValue | ErrBlocklistNotFound | ErrBlocklistAlreadyEnabled

fun check_ids :: "bool \<Rightarrow> string set \<Rightarrow> string list \<Rightarrow> string list \<Rightarrow> blocklist_error option" where
  "check_ids enabling catalog enabled [] = None"
| "check_ids enabling catalog enabled (i # is) =
     (if i \<notin> catalog then Some ErrBlocklistNotFound
      else if enabling \<and> i \<in> set enabled then Some ErrBlocklistAlreadyEnabled
      else check_ids enabling catalog enabled is)"

definition EnableBlocklists :: "string set \<Rightarrow> string list \<Rightarrow> string list \<Rightarrow> blocklist_error + string list" where
  "EnableBlocklists catalog enabled ids =
     (if ids = [] then Inl ErrInvalidBlocklistValue
      else case check_ids True catalog enabled ids of
        Some e \<Rightarrow> Inl e
      | None \<Rightarrow> Inr (enabled @ dedup_by (\<lambda>i. i) enabled ids))"

definition DisableBlocklists :: "string set \<Rightarrow> string list \<Rightarrow> string list \<Rightarrow> blocklist_error + string list" where
  "DisableBlocklists catalog enabled ids =
     (if ids = [] then Inl ErrInvalidBlocklistValue
      else case check_ids False catalog enabled ids of
        Some e \<Rightarrow> Inl e
      | None \<Rightarrow> Inr (filter (\<lambda>i. i \<notin> set ids) enabled))"

subsection \<open>The handlers\<close>

datatype api_call = Post "string list" | Delete "string list" | GetProfile

datatype toast = NoToast | Success | Failure

record lists_page =
  lb_profile :: bool
  lb_enabled :: "string list"
  lb_server :: "string list"
  lb_updating :: "string option"
  lb_toast :: toast

text \<open>One awaited call: it throws when the network fails it or the API answers with an error.\<close>

definition call :: "string set \<Rightarrow> (api_call \<Rightarrow> bool) \<Rightarrow> api_call \<Rightarrow> lists_page \<Rightarrow> lists_page option" where
  "call catalog fails c st =
     (if fails c then None
      else case c of
        Post ids \<Rightarrow> (case EnableBlocklists catalog (lb_server st) ids of
            Inl e \<Rightarrow> None | Inr s \<Rightarrow> Some (st\<lparr>lb_server := s\<rparr>))
      | Delete ids \<Rightarrow> (case DisableBlocklists catalog (lb_server st) ids of
            Inl e \<Rightarrow> None | Inr s \<Rightarrow> Some (st\<lparr>lb_server := s\<rparr>))
      | GetProfile \<Rightarrow> Some (st\<lparr>lb_enabled := lb_server st\<rparr>))"

text \<open>
  The body of a \<open>try\<close>: calls in order until one throws. What the calls before it did on the server
  stays. \<open>finally\<close> clears \<open>updating\<close> in both cases.
\<close>

fun try_calls :: "string set \<Rightarrow> (api_call \<Rightarrow> bool) \<Rightarrow> api_call list \<Rightarrow> lists_page \<Rightarrow> lists_page" where
  "try_calls catalog fails [] st = st\<lparr>lb_toast := Success, lb_updating := None\<rparr>"
| "try_calls catalog fails (c # cs) st =
     (case call catalog fails c st of
        None \<Rightarrow> st\<lparr>lb_toast := Failure, lb_updating := None\<rparr>
      | Some st' \<Rightarrow> try_calls catalog fails cs st')"

definition handleCategoryToggle ::
  "string set \<Rightarrow> (api_call \<Rightarrow> bool) \<Rightarrow> string list \<Rightarrow> bool \<Rightarrow> lists_page \<Rightarrow> lists_page" where
  "handleCategoryToggle catalog fails blocklistIds enable st =
     (if \<not> lb_profile st \<or> blocklistIds = [] then st
      else
        let idsToChange = (if enable then filter (\<lambda>i. i \<notin> set (lb_enabled st)) blocklistIds
                           else filter (\<lambda>i. i \<in> set (lb_enabled st)) blocklistIds)
        in if idsToChange = [] then st
           else try_calls catalog fails
                  [if enable then Post idsToChange else Delete idsToChange, GetProfile]
                  (st\<lparr>lb_updating := Some ''category''\<rparr>))"

definition handleApplyBlocklistSet ::
  "string set \<Rightarrow> (api_call \<Rightarrow> bool) \<Rightarrow> string list \<Rightarrow> string list \<Rightarrow> lists_page \<Rightarrow> lists_page" where
  "handleApplyBlocklistSet catalog fails enableIds disableIds st =
     (if \<not> lb_profile st then st
      else
        let toEnable = filter (\<lambda>i. i \<notin> set (lb_enabled st)) enableIds;
            toDisable = filter (\<lambda>i. i \<in> set (lb_enabled st)) disableIds
        in if toEnable = [] \<and> toDisable = [] then st
           else try_calls catalog fails
                  ((if toEnable \<noteq> [] then [Post toEnable] else [])
                   @ (if toDisable \<noteq> [] then [Delete toDisable] else []) @ [GetProfile])
                  (st\<lparr>lb_updating := Some ''nrd''\<rparr>))"

definition handleBlocklistSwitch ::
  "string set \<Rightarrow> (api_call \<Rightarrow> bool) \<Rightarrow> string \<Rightarrow> bool \<Rightarrow> lists_page \<Rightarrow> lists_page" where
  "handleBlocklistSwitch catalog fails i checked st =
     (if \<not> lb_profile st then st
      else try_calls catalog fails [if checked then Post [i] else Delete [i], GetProfile]
             (st\<lparr>lb_updating := Some i\<rparr>))"

definition toggleListedActive :: "string \<Rightarrow> ModelBlocklist list \<Rightarrow> bool" where
  "toggleListedActive filterValue fs = (filterValue \<noteq> ''all'' \<and> fs \<noteq> [])"

definition allListedEnabled :: "string list \<Rightarrow> ModelBlocklist list \<Rightarrow> bool" where
  "allListedEnabled enabled fs = (fs \<noteq> [] \<and> list_all (\<lambda>b. bl_blocklist_id b \<in> set enabled) fs)"

definition handleToggleListed ::
  "string set \<Rightarrow> (api_call \<Rightarrow> bool) \<Rightarrow> string \<Rightarrow> ModelBlocklist list \<Rightarrow> lists_page \<Rightarrow> lists_page" where
  "handleToggleListed catalog fails filterValue fs st =
     (if \<not> lb_profile st \<or> \<not> toggleListedActive filterValue fs then st
      else
        let ids = map bl_blocklist_id fs
        in try_calls catalog fails
             [if allListedEnabled (lb_enabled st) fs then Delete ids
              else Post (filter (\<lambda>i. i \<notin> set (lb_enabled st)) ids), GetProfile]
             (st\<lparr>lb_updating := Some ''all''\<rparr>))"

text \<open>The category card and the NRD card compute what they ask the page to do.\<close>

definition category_toggle ::
  "string set \<Rightarrow> (api_call \<Rightarrow> bool) \<Rightarrow> ModelBlocklist list \<Rightarrow> lists_page \<Rightarrow> lists_page" where
  "category_toggle catalog fails items st =
     (let allIds = map bl_blocklist_id items in
      if allIds = [] then st
      else let enabledCount = length (filter (\<lambda>i. i \<in> set (lb_enabled st)) allIds)
           in handleCategoryToggle catalog fails allIds (enabledCount = 0) st)"

text \<open>
  The control's value as a number: None for the empty value of a re-pressed step and for one that is
  not a number.
\<close>

definition nrd_handleChange ::
  "string set \<Rightarrow> (api_call \<Rightarrow> bool) \<Rightarrow> string list \<Rightarrow> int option \<Rightarrow> lists_page \<Rightarrow> lists_page" where
  "nrd_handleChange catalog fails orderedIds value st =
     (case value of
        None \<Rightarrow> st
      | Some next \<Rightarrow>
          (if next = int (nrdDepthFromEnabled orderedIds (lb_enabled st)) then st
           else let (enable, disable) = nrdDepthTargets orderedIds next
                in handleApplyBlocklistSet catalog fails enable disable st))"

subsection \<open>Depths\<close>

lemma depth_loop_snoc:
  "depth_loop (xs @ [x]) i en d = (if x \<in> en then i + length xs + 1 else depth_loop xs i en d)"
  by (induction xs arbitrary: i d) simp_all

lemma depth_of_prefix:
  "k \<le> length ids \<Longrightarrow> set (take k ids) \<subseteq> set en \<Longrightarrow> set (drop k ids) \<inter> set en = {} \<Longrightarrow>
     nrdDepthFromEnabled ids en = k"
proof (induction ids rule: rev_induct)
  case (snoc x xs)
  show ?case
  proof (cases "k \<le> length xs")
    case True
    with snoc show ?thesis by (auto simp: nrdDepthFromEnabled_def depth_loop_snoc)
  next
    case False
    with snoc have "k = Suc (length xs)" by simp
    with snoc show ?thesis by (auto simp: nrdDepthFromEnabled_def depth_loop_snoc)
  qed
qed (simp add: nrdDepthFromEnabled_def)

lemma nrdDepthTargets_eq:
  "0 \<le> k \<Longrightarrow> k \<le> int (length ids) \<Longrightarrow> nrdDepthTargets ids k = (take (nat k) ids, drop (nat k) ids)"
  by (simp add: nrdDepthTargets_def Let_def)

subsection \<open>Calls\<close>

lemma check_ids_None:
  "check_ids enabling catalog enabled ids = None \<longleftrightarrow>
     set ids \<subseteq> catalog \<and> (enabling \<longrightarrow> set ids \<inter> set enabled = {})"
  by (induction ids) auto

lemma EnableBlocklists_ok:
  "ids \<noteq> [] \<Longrightarrow> set ids \<subseteq> catalog \<Longrightarrow> set ids \<inter> set enabled = {} \<Longrightarrow>
     \<exists>s. EnableBlocklists catalog enabled ids = Inr s \<and> set s = set enabled \<union> set ids"
  using check_ids_None [of True catalog enabled ids]
  by (auto simp: EnableBlocklists_def dedup_by_id_set)

lemma DisableBlocklists_ok:
  "ids \<noteq> [] \<Longrightarrow> set ids \<subseteq> catalog \<Longrightarrow>
     DisableBlocklists catalog enabled ids = Inr (filter (\<lambda>i. i \<notin> set ids) enabled)"
  using check_ids_None [of False catalog enabled ids] by (auto simp: DisableBlocklists_def)

lemma EnableBlocklists_again:
  "i \<in> set ids \<Longrightarrow> i \<in> set enabled \<Longrightarrow> \<exists>e. EnableBlocklists catalog enabled ids = Inl e"
  using check_ids_None [of True catalog enabled ids] by (auto simp: EnableBlocklists_def)

definition in_sync :: "lists_page \<Rightarrow> bool" where
  "in_sync st = (lb_profile st \<and> lb_enabled st = lb_server st)"

definition settled_to :: "string set \<Rightarrow> lists_page \<Rightarrow> bool" where
  "settled_to target st = (in_sync st \<and> set (lb_server st) = target \<and> lb_toast st = Success \<and> lb_updating st = None)"

text \<open>What the calls of a handler do when the network works: post, delete, read back.\<close>

lemma try_calls_ok:
  assumes "lb_profile st" "\<forall>c. \<not> fails c"
    and "set ons \<union> set offs \<subseteq> catalog" "set ons \<inter> set (lb_server st) = {}"
  shows "settled_to ((set (lb_server st) \<union> set ons) - set offs)
           (try_calls catalog fails ((if ons \<noteq> [] then [Post ons] else [])
              @ (if offs \<noteq> [] then [Delete offs] else []) @ [GetProfile]) st)"
proof -
  obtain s where s: "ons \<noteq> [] \<longrightarrow> EnableBlocklists catalog (lb_server st) ons = Inr s"
    "set s = set (lb_server st) \<union> set ons" "ons = [] \<longrightarrow> s = lb_server st"
    using EnableBlocklists_ok [of ons catalog "lb_server st"] assms(3,4)
    by (cases "ons = []") auto
  have d: "offs \<noteq> [] \<Longrightarrow> DisableBlocklists catalog s' offs = Inr (filter (\<lambda>i. i \<notin> set offs) s')" for s'
    using assms(3) by (intro DisableBlocklists_ok) auto
  show ?thesis
    using s assms(1,2) d by (auto simp: call_def settled_to_def in_sync_def)
qed

lemma apply_set_settles:
  assumes "in_sync st" "\<forall>c. \<not> fails c" "set ons \<union> set offs \<subseteq> catalog" "set ons \<inter> set offs = {}"
  shows "handleApplyBlocklistSet catalog fails ons offs st = st \<and>
           set (lb_server st) = (set (lb_server st) \<union> set ons) - set offs \<or>
         settled_to ((set (lb_server st) \<union> set ons) - set offs) (handleApplyBlocklistSet catalog fails ons offs st)"
proof -
  let ?on = "filter (\<lambda>i. i \<notin> set (lb_enabled st)) ons" and ?off = "filter (\<lambda>i. i \<in> set (lb_enabled st)) offs"
  have t: "set (lb_server st) \<union> set ?on - set ?off = (set (lb_server st) \<union> set ons) - set offs"
    using assms(1,4) by (auto simp: in_sync_def)
  show ?thesis
  proof (cases "?on = [] \<and> ?off = []")
    case True
    then have "handleApplyBlocklistSet catalog fails ons offs st = st"
      by (simp add: handleApplyBlocklistSet_def Let_def)
    moreover have "set ?on = {}" "set ?off = {}" using True by simp_all
    ultimately show ?thesis using t by auto
  next
    case False
    let ?st = "st\<lparr>lb_updating := Some ''nrd''\<rparr>"
    have eq: "handleApplyBlocklistSet catalog fails ons offs st =
        try_calls catalog fails ((if ?on \<noteq> [] then [Post ?on] else [])
           @ (if ?off \<noteq> [] then [Delete ?off] else []) @ [GetProfile]) ?st"
      using False assms(1) by (simp only: handleApplyBlocklistSet_def Let_def in_sync_def simp_thms if_False)
    have "settled_to (set (lb_server ?st) \<union> set ?on - set ?off) (handleApplyBlocklistSet catalog fails ons offs st)"
      unfolding eq using assms by (intro try_calls_ok) (auto simp: in_sync_def)
    then have "settled_to ((set (lb_server st) \<union> set ons) - set offs) (handleApplyBlocklistSet catalog fails ons offs st)"
      using t by simp
    then show ?thesis ..
  qed
qed

subsection \<open>Properties\<close>

text \<open>
  Property C20 (nrd_depth_reached). On a page whose store agrees with the server, and with no request
  failing, choosing another depth \<open>k\<close> leaves exactly the first \<open>k\<close> windows enabled, whatever gaps the
  selection had, touches no other list, and the card then shows \<open>k\<close>; the store agrees with the server
  again. When one of the two calls fails the store keeps what it had although the server may have
  changed; \<open>partial_failure_sticks\<close> below is that case.
\<close>

theorem nrd_depth_reached:
  assumes "in_sync st" "\<forall>c. \<not> fails c" "set ids \<subseteq> catalog" "distinct ids"
    and "k \<le> length ids" "k \<noteq> nrdDepthFromEnabled ids (lb_enabled st)"
  defines "st' \<equiv> nrd_handleChange catalog fails ids (Some (int k)) st"
  shows "in_sync st' \<and> nrdDepthFromEnabled ids (lb_enabled st') = k \<and>
         set ids \<inter> set (lb_enabled st') = set (take k ids) \<and>
         set (lb_enabled st') - set ids = set (lb_enabled st) - set ids"
proof -
  have part: "set (take k ids) \<inter> set (drop k ids) = {}" "set (take k ids) \<union> set (drop k ids) = set ids"
    using assms(4) by (metis append_take_drop_id distinct_append, metis append_take_drop_id set_append)
  have eq: "st' = handleApplyBlocklistSet catalog fails (take k ids) (drop k ids) st"
    using assms(5,6) by (simp add: st'_def nrd_handleChange_def nrdDepthTargets_eq)
  have "in_sync st' \<and> set (lb_server st') = (set (lb_server st) \<union> set (take k ids)) - set (drop k ids)"
    using apply_set_settles [OF assms(1,2), of "take k ids" "drop k ids" catalog] assms(1,3) part
    by (auto simp: eq settled_to_def)
  then have s: "in_sync st'" "set (lb_enabled st') = (set (lb_enabled st) \<union> set (take k ids)) - set (drop k ids)"
    using assms(1) by (auto simp: in_sync_def)
  have "nrdDepthFromEnabled ids (lb_enabled st') = k"
    by (rule depth_of_prefix) (use assms(5) s(2) part in auto)
  with s part show ?thesis by auto
qed

text \<open>
  Fact (toggle_listed_all). With a filter chosen, the bulk button switches every listed list
  to the same state: all off when all were on, all on otherwise. No request is rejected, no list
  outside the filter changes, and the store agrees with the server.
\<close>

theorem toggle_listed_all:
  assumes "in_sync st" "\<forall>c. \<not> fails c" "bl_blocklist_id ` set fs \<subseteq> catalog"
    and "fs \<noteq> []" "filterValue \<noteq> ''all''"
  defines "st' \<equiv> handleToggleListed catalog fails filterValue fs st"
  shows "in_sync st' \<and> lb_toast st' = Success \<and>
         (if allListedEnabled (lb_enabled st) fs
          then set (lb_enabled st') = set (lb_enabled st) - bl_blocklist_id ` set fs
          else set (lb_enabled st') = set (lb_enabled st) \<union> bl_blocklist_id ` set fs)"
proof -
  let ?st = "st\<lparr>lb_updating := Some ''all''\<rparr>"
  let ?on = "filter (\<lambda>i. i \<notin> set (lb_enabled st)) (map bl_blocklist_id fs)"
  let ?all = "allListedEnabled (lb_enabled st) fs"
  have run: "st' = try_calls catalog fails
      ((if (if ?all then [] else ?on) \<noteq> [] then [Post (if ?all then [] else ?on)] else [])
       @ (if (if ?all then map bl_blocklist_id fs else []) \<noteq> []
          then [Delete (if ?all then map bl_blocklist_id fs else [])] else []) @ [GetProfile]) ?st"
  proof (cases ?all)
    case True
    then show ?thesis using assms(1,4,5)
      by (simp add: st'_def handleToggleListed_def toggleListedActive_def in_sync_def Let_def)
  next
    case False
    then have ne: "?on \<noteq> []" using assms(4)
      by (auto simp: allListedEnabled_def list_all_iff filter_empty_conv)
    show ?thesis
      using False assms(1,4,5) ne
      by (simp only: st'_def handleToggleListed_def toggleListedActive_def in_sync_def Let_def simp_thms
          if_False if_True append_Nil)
        simp
  qed
  have "settled_to ((set (lb_server ?st) \<union> set (if ?all then [] else ?on))
      - set (if ?all then map bl_blocklist_id fs else [])) st'"
    unfolding run using assms(1-3) by (intro try_calls_ok) (auto simp: in_sync_def)
  then show ?thesis using assms(1) by (auto simp: settled_to_def in_sync_def)
qed

text \<open>
  Fact (partial_failure_sticks). When enabling succeeds and the next call of the same action
  fails, the store is not read back: it still shows the old selection. Repeating the action then
  fails for good, even with a working network, because the API rejects lists that are already on.
\<close>

theorem partial_failure_sticks:
  fixes offs :: "string list"
  assumes "in_sync st" "set ons \<subseteq> catalog" "\<exists>i \<in> set ons. i \<notin> set (lb_enabled st)"
    and "\<And>c. fails c \<longleftrightarrow> (case c of Post _ \<Rightarrow> False | _ \<Rightarrow> True)"
  defines "once \<equiv> handleApplyBlocklistSet catalog fails ons offs st"
  shows "lb_toast once = Failure \<and> lb_enabled once = lb_enabled st \<and>
         set (lb_server once) = set (lb_server st) \<union> set ons \<and>
         handleApplyBlocklistSet catalog (\<lambda>_. False) ons offs once = once"
proof -
  let ?on = "filter (\<lambda>i. i \<notin> set (lb_enabled st)) ons" and ?off = "filter (\<lambda>i. i \<in> set (lb_enabled st)) offs"
  let ?calls = "[Post ?on] @ (if ?off \<noteq> [] then [Delete ?off] else []) @ [GetProfile]"
  have ne: "?on \<noteq> []" using assms(3) by (auto simp: filter_empty_conv)
  have run: "handleApplyBlocklistSet catalog f ons offs u = try_calls catalog f ?calls (u\<lparr>lb_updating := Some ''nrd''\<rparr>)"
    if "lb_profile u" "lb_enabled u = lb_enabled st" for f u
    using ne that by (simp only: handleApplyBlocklistSet_def Let_def simp_thms if_True if_False)
  obtain s where s: "EnableBlocklists catalog (lb_server st) ?on = Inr s" "set s = set (lb_server st) \<union> set ?on"
    using EnableBlocklists_ok [of ?on catalog "lb_server st"] ne assms(1,2) by (auto simp: in_sync_def)
  have once: "once = st\<lparr>lb_updating := None, lb_server := s, lb_toast := Failure\<rparr>"
    using run [of st fails] assms(1) s(1) assms(4)
    by (simp add: once_def in_sync_def call_def)
  obtain i where "i \<in> set ?on" using ne by (meson list.set_sel(1))
  then obtain e where "EnableBlocklists catalog s ?on = Inl e" using EnableBlocklists_again s(2) by blast
  then have "handleApplyBlocklistSet catalog (\<lambda>_. False) ons offs once = once"
    using run [of once "\<lambda>_. False"] assms(1) by (simp add: once in_sync_def call_def)
  then show ?thesis using s(2) assms(1) by (auto simp: once in_sync_def)
qed

lemma map_filter_set: "b \<in> set (List.map_filter f xs) \<longleftrightarrow> (\<exists>x \<in> set xs. f x = Some b)"
  by (induction xs) (auto simp: map_filter_simps split: option.splits)

text \<open>
  Fact (security_lists_shown). On the security tab every list is on the NRD card or has a card
  of its own, except one that carries the NRD tag without a known window: that list is not shown
  anywhere.
\<close>

theorem security_lists_shown:
  assumes "b \<in> set items" "distinct (map bl_blocklist_id items)"
  shows "b \<in> set (orderedNrdItems items) \<or> b \<in> set (filter (\<lambda>b. \<not> isNrdItem b) items) \<longleftrightarrow>
           \<not> (has_tag NRD_TAG b \<and> bl_blocklist_id b \<notin> set (map tier_id NRD_GROUP))"
proof -
  have "map fst (rev (map (\<lambda>b. (bl_blocklist_id b, b)) items)) = rev (map bl_blocklist_id items)"
    by (simp add: rev_map comp_def)
  then have d: "distinct (map fst (rev (map (\<lambda>b. (bl_blocklist_id b, b)) items)))" using assms(2) by simp
  have self: "by_id items i = Some x \<longleftrightarrow> x \<in> set items \<and> bl_blocklist_id x = i" for i x
    unfolding by_id_def map_of_eq_Some_iff [OF d] by auto
  have "b \<in> set (orderedNrdItems items) \<longleftrightarrow> bl_blocklist_id b \<in> set (map tier_id NRD_GROUP)"
    using assms(1) by (auto simp: orderedNrdItems_def map_filter_set self)
  then show ?thesis using assms(1) by (auto simp: isNrdItem_def)
qed

subsection \<open>Witnesses\<close>

definition nrd_page :: lists_page where
  "nrd_page =
     \<lparr>lb_profile = True, lb_enabled = [''ads'', ''hagezi_nrd_14_08''],
      lb_server = [''ads'', ''hagezi_nrd_14_08''], lb_updating = None, lb_toast = NoToast\<rparr>"

definition sample_list :: "string \<Rightarrow> ModelBlocklist" where
  "sample_list i =
     \<lparr>bl_blocklist_id = i, bl_category = None, bl_default = None, bl_description = ''d'',
      bl_entries = Some 3, bl_homepage = None, bl_id = None, bl_intensity = None,
      bl_kind = Some ''security'', bl_last_modified = None, bl_name = i, bl_source_url = None,
      bl_tags = Some [''nrd''], bl_type = None\<rparr>"

lemma nrd_page_sync: "in_sync nrd_page"
  by (simp add: in_sync_def nrd_page_def)

theorem nrd_depth_reached_witness:
  "nrdDepthFromEnabled (map tier_id NRD_GROUP)
     (lb_enabled (nrd_handleChange UNIV (\<lambda>_. False) (map tier_id NRD_GROUP) (Some (int 3)) nrd_page)) = 3"
  using nrd_depth_reached [OF nrd_page_sync, of "\<lambda>_. False" "map tier_id NRD_GROUP" UNIV 3]
  by (simp add: NRD_GROUP_def nrd_page_def nrdDepthFromEnabled_def)

theorem toggle_listed_all_witness:
  "set (lb_enabled (handleToggleListed UNIV (\<lambda>_. False) ''hagezi'' [sample_list ''x''] nrd_page))
     = {''ads'', ''hagezi_nrd_14_08'', ''x''}"
  using toggle_listed_all [OF nrd_page_sync, of "\<lambda>_. False" "[sample_list ''x'']" UNIV "''hagezi''"]
  by (auto simp: allListedEnabled_def nrd_page_def sample_list_def)

theorem partial_failure_sticks_witness:
  "lb_toast (handleApplyBlocklistSet UNIV (\<lambda>c. case c of Post _ \<Rightarrow> False | _ \<Rightarrow> True) [''hagezi_nrd_07'']
      [''hagezi_nrd_14_08''] nrd_page) = Failure"
  using partial_failure_sticks [OF nrd_page_sync, of "[''hagezi_nrd_07'']" UNIV
      "\<lambda>c. case c of Post _ \<Rightarrow> False | _ \<Rightarrow> True" "[''hagezi_nrd_14_08'']"]
  by (simp add: nrd_page_def)

theorem security_lists_shown_witness:
  "sample_list ''hagezi_nrd_60_36'' \<notin> set (orderedNrdItems [sample_list ''hagezi_nrd_60_36'']) \<and>
   sample_list ''hagezi_nrd_60_36'' \<notin> set (filter (\<lambda>b. \<not> isNrdItem b) [sample_list ''hagezi_nrd_60_36''])"
  using security_lists_shown [of "sample_list ''hagezi_nrd_60_36''" "[sample_list ''hagezi_nrd_60_36'']"]
  by (simp add: has_tag_def sample_list_def NRD_TAG_def NRD_GROUP_def)

end
