(* ===== verification/ApiErrors.thy ===== *)
theory ApiErrors
  imports Prelude
begin

text \<open>
  What a failed request throws and the message the app shows for it: app/src/lib/apiError.ts.
\<close>

record ApiErrorData =
  ed_error :: "string option"
  ed_message :: "string option"
  ed_detail :: "string option"

record ApiErrorLike =
  ae_status :: "nat option"
  ae_data :: "ApiErrorData option"
  ae_message :: "string option"

datatype thrown = ThrownString string | ThrownObject ApiErrorLike | ThrownOther

definition formatApiError :: "thrown \<Rightarrow> string \<Rightarrow> string" where
  "formatApiError e fallback =
     (case e of
        ThrownString s \<Rightarrow> s
      | ThrownObject err \<Rightarrow>
          nullish (Option.bind (ae_data err) ed_error)
            (nullish (Option.bind (ae_data err) ed_message)
              (nullish (Option.bind (ae_data err) ed_detail)
                (nullish (ae_message err) fallback)))
      | ThrownOther \<Rightarrow> fallback)"

text \<open>The error the API sends: a status and an \<open>error\<close> text.\<close>

definition api_error :: "nat \<Rightarrow> string \<Rightarrow> thrown" where
  "api_error status text =
     ThrownObject \<lparr>ae_status = Some status,
       ae_data = Some \<lparr>ed_error = Some text, ed_message = None, ed_detail = None\<rparr>,
       ae_message = None\<rparr>"

definition network_error :: thrown where
  "network_error = ThrownObject \<lparr>ae_status = None, ae_data = None, ae_message = Some ''Network Error''\<rparr>"

text \<open>The rate limiter's answer: a plain text body, so the client shows the status line of the HTTP library.\<close>

definition rate_limited :: thrown where
  "rate_limited =
     ThrownObject \<lparr>ae_status = Some 429,
       ae_data = Some \<lparr>ed_error = None, ed_message = None, ed_detail = None\<rparr>,
       ae_message = Some ''Request failed with status code 429''\<rparr>"

lemma formatApiError_simps [simp]:
  "formatApiError (api_error status text) fallback = text"
  "formatApiError network_error fallback = ''Network Error''"
  "formatApiError rate_limited fallback = ''Request failed with status code 429''"
  by (simp_all add: formatApiError_def api_error_def network_error_def rate_limited_def)

end
