(* ===== verification/RuleComposer.thy ===== *)
theory RuleComposer
  imports ApiTypes ApiErrors "HOL-Library.Sublist"
begin

text \<open>
  Adding custom rules: the text helpers of app/src/pages/custom_rules/utils.ts, the composer of
  RuleComposer.tsx, the submit, edit and delete handlers of MainContentSection.tsx and the edit
  dialog of RuleEditDialog.tsx, against the API's operations (api/service/profile/custom_rules.go).

  The composer's state and the page's state are one record; a handler is a function of it, its
  awaited requests acting on the server's copy of the profile's rules, which the same record holds.
\<close>

subsection \<open>Text helpers (utils.ts)\<close>

definition MAX_RULES_PER_BATCH :: nat where "MAX_RULES_PER_BATCH = 20"
definition MAX_CUSTOM_RULES_PER_ACCOUNT :: nat where "MAX_CUSTOM_RULES_PER_ACCOUNT = 10000"
definition CUSTOM_RULES_USAGE_NOTICE_AT :: nat where "CUSTOM_RULES_USAGE_NOTICE_AT = 9000"

definition rules_of :: "ModelProfile \<Rightarrow> ModelCustomRule list" where
  "rules_of p = nullish (Option.bind (pf_settings p) ps_custom_rules) []"

definition countAccountCustomRules :: "ModelProfile list \<Rightarrow> ModelProfile option \<Rightarrow> nat" where
  "countAccountCustomRules profiles activeProfile =
     (let activeId = map_option pf_profile_id activeProfile;
          start = (case activeProfile of None \<Rightarrow> 0 | Some a \<Rightarrow> length (rules_of a))
      in foldl (\<lambda>total p. if truthy_str activeId \<and> Some (pf_profile_id p) = activeId then total
                          else total + length (rules_of p)) start profiles)"

text \<open>The characters of the class \<open>[\n\r\t,;]\<close>, and the length of a match of the separator at the front.\<close>

definition list_sep :: "char \<Rightarrow> bool" where
  "list_sep c \<longleftrightarrow> of_char c \<in> {10, 13, 9 :: nat} \<or> c = CHR '','' \<or> c = CHR '';''"

definition sep_match :: "string \<Rightarrow> nat" where
  "sep_match s = (let r = length (takeWhile list_sep s) in if 0 < r then r else length (takeWhile js_space s))"

function split_loop :: "string \<Rightarrow> string \<Rightarrow> string list" where
  "split_loop cur [] = [rev cur]"
| "split_loop cur (c # s) =
     (let n = sep_match (c # s)
      in if n = 0 then split_loop (c # cur) s else rev cur # split_loop [] (drop n (c # s)))"
  by pat_completeness auto
termination by (relation "measure (\<lambda>(cur, s). length s)") auto

definition splitRulesFromInput :: "string \<Rightarrow> string list" where
  "splitRulesFromInput raw = filter (\<lambda>v. v \<noteq> []) (map js_trim (split_loop [] raw))"

definition normalizeRuleValue :: "string \<Rightarrow> string option" where
  "normalizeRuleValue value =
     (let trimmed = js_trim value
      in if trimmed = [] then None
         else if js_endsWith trimmed ''.'' then Some (butlast trimmed)
         else Some trimmed)"

datatype RuleList = Denylist | Allowlist

definition parseRuleList :: "string option \<Rightarrow> RuleList" where
  "parseRuleList value = (if value = Some ''allowlist'' then Allowlist else Denylist)"

subsection \<open>The page\<close>

record RuleOptionMeta =
  rm_error :: "string option"
  rm_reason :: "string option"

record RuleOption =
  ro_label :: string
  ro_value :: string
  ro_meta :: "RuleOptionMeta option"

definition has_error :: "RuleOption \<Rightarrow> bool" where
  "has_error t = truthy_str (Option.bind (ro_meta t) rm_error)"

datatype rules_toast =
    NoProfile | Added nat | SkippedSome nat | NoChanges | Failed string
  | Duplicates nat | OnlyBatch | RuleDeleted | RulesDeleted | RuleUpdated

record rules_page =
  rp_profile :: "string option"
  rp_tab :: RuleList
  rp_tokens :: "RuleList \<Rightarrow> RuleOption list"
  rp_input :: string
  rp_rules :: "ModelCustomRule list"
  rp_server :: "ModelCustomRule list"
  rp_selected :: "string list"
  rp_editing :: "ModelCustomRule option"
  rp_loading :: bool
  rp_toasts :: "rules_toast list"

definition toast :: "rules_toast \<Rightarrow> rules_page \<Rightarrow> rules_page" where
  "toast t st = st\<lparr>rp_toasts := rp_toasts st @ [t]\<rparr>"

definition updateComposerTokens :: "RuleList \<Rightarrow> RuleOption list \<Rightarrow> rules_page \<Rightarrow> rules_page" where
  "updateComposerTokens tab next st = st\<lparr>rp_tokens := (rp_tokens st)(tab := next)\<rparr>"

definition TAB_TO_ACTION :: "RuleList \<Rightarrow> string" where
  "TAB_TO_ACTION tab = (case tab of Denylist \<Rightarrow> ''block'' | Allowlist \<Rightarrow> ''allow'')"

subsection \<open>The composer (RuleComposer.tsx)\<close>

record add_state =
  as_slots :: int
  as_added :: "RuleOption list"
  as_duplicates :: "string list"
  as_overflow :: "string list"

definition add_step :: "string set \<Rightarrow> add_state \<Rightarrow> string \<Rightarrow> add_state" where
  "add_step existingValues st raw =
     (if as_slots st \<le> 0 then
        (case normalizeRuleValue raw of
           None \<Rightarrow> st
         | Some v \<Rightarrow> if v = [] then st else st\<lparr>as_overflow := as_overflow st @ [v]\<rparr>)
      else
        (case normalizeRuleValue raw of
           None \<Rightarrow> st
         | Some v \<Rightarrow>
             if v = [] then st
             else if v \<in> existingValues \<or> v \<in> ro_value ` set (as_added st)
             then st\<lparr>as_duplicates := as_duplicates st @ [v]\<rparr>
             else st\<lparr>as_added := as_added st @ [\<lparr>ro_label = v, ro_value = v, ro_meta = None\<rparr>],
                     as_slots := as_slots st - 1\<rparr>))"

definition add_loop :: "RuleOption list \<Rightarrow> string list \<Rightarrow> add_state" where
  "add_loop tokens rawValues =
     foldl (add_step (ro_value ` set tokens))
       \<lparr>as_slots = int MAX_RULES_PER_BATCH - int (length tokens), as_added = [], as_duplicates = [],
        as_overflow = []\<rparr> rawValues"

text \<open>The merged tokens, which the Add button submits, and the page after the call.\<close>

definition addTokens :: "string list \<Rightarrow> rules_page \<Rightarrow> RuleOption list \<times> rules_page" where
  "addTokens rawValues st =
     (let tokens = rp_tokens st (rp_tab st)
      in if rawValues = [] then (tokens, st)
         else
           let r = add_loop tokens rawValues;
               merged = tokens @ as_added r;
               st1 = (if as_added r = [] then st else updateComposerTokens (rp_tab st) merged st);
               st2 = (if as_duplicates r = [] then st1 else toast (Duplicates (length (as_duplicates r))) st1);
               st3 = (if as_overflow r = [] then st2 else toast OnlyBatch st2)
           in (merged, st3\<lparr>rp_input := []\<rparr>))"

subsection \<open>The API (custom_rules.go)\<close>

text \<open>
  What the API's validator and Go's address parser accept are parameters, and so are the ids the
  database gives to new rules.
\<close>

record rule_checks =
  ck_is_ip :: "string \<Rightarrow> bool"
  ck_request_ok :: "string \<Rightarrow> bool"
  ck_syntax_ok :: "string \<Rightarrow> bool"
  ck_new_id :: "nat \<Rightarrow> string"

fun parse_digits :: "nat \<Rightarrow> string \<Rightarrow> nat option" where
  "parse_digits acc [] = Some acc"
| "parse_digits acc (c # s) =
     (let n = of_char c :: nat
      in if 48 \<le> n \<and> n \<le> 57 then parse_digits (acc * 10 + (n - 48)) s else None)"

definition go_upper_char :: "char \<Rightarrow> char" where
  "go_upper_char c = (let n = of_char c :: nat in if 97 \<le> n \<and> n \<le> 122 then char_of (n - 32) else c)"

definition normalizeASN :: "string \<Rightarrow> string option" where
  "normalizeASN value =
     (let trimmed = js_trim value
      in if trimmed = [] then None
         else
           let t = (if js_startsWith (map go_upper_char trimmed) ''AS'' then js_trim (drop 2 trimmed) else trimmed)
           in if t = [] then None
              else case parse_digits 0 t of
                None \<Rightarrow> None
              | Some n \<Rightarrow> if n = 0 \<or> 2 ^ 32 \<le> n then None else Some (show_nat n))"

definition api_normalizeRuleValue :: "rule_checks \<Rightarrow> bool \<Rightarrow> string \<Rightarrow> string" where
  "api_normalizeRuleValue ck exact original =
     (let trimmed = js_trim original
      in if trimmed = [] then []
         else
           let n0 = (if js_endsWith trimmed ''.'' then butlast trimmed else trimmed);
               n1 = (if js_startsWith n0 ''.'' then CHR ''*'' # n0 else n0);
               n2 = nullish (normalizeASN n1) n1
           in if \<not> exact \<and> CHR ''*'' \<notin> set n2 \<and> CHR ''/'' \<notin> set n2 \<and> \<not> ck_is_ip ck n2 \<and> normalizeASN n2 = None
              then ''*.'' @ n2
              else n2)"

datatype skip_reason = InvalidSyntax | DuplicateExisting | DuplicatePayload

fun reason_text :: "skip_reason \<Rightarrow> string" where
  "reason_text InvalidSyntax = ''invalid_syntax''"
| "reason_text DuplicateExisting = ''duplicate_existing''"
| "reason_text DuplicatePayload = ''duplicate_payload''"

fun reason_message :: "skip_reason \<Rightarrow> string" where
  "reason_message InvalidSyntax = ''Value must be a valid domain, wildcard, IP address, or ASN.''"
| "reason_message DuplicateExisting = ''Rule already exists on this profile.''"
| "reason_message DuplicatePayload = ''Value appears more than once in this request.''"

text \<open>The loop over the values: what it creates, what it skips, and the two sets it keeps.\<close>

record bulk_state =
  bs_created :: "ModelCustomRule list"
  bs_skipped :: "(string \<times> skip_reason) list"
  bs_existing :: "string set"
  bs_seen :: "string set"

definition bulk_step :: "rule_checks \<Rightarrow> bool \<Rightarrow> string \<Rightarrow> nat \<Rightarrow> bulk_state \<Rightarrow> string \<Rightarrow> bulk_state" where
  "bulk_step ck exact action base st original =
     (let n = api_normalizeRuleValue ck exact original
      in if n = [] then st\<lparr>bs_skipped := bs_skipped st @ [(original, InvalidSyntax)]\<rparr>
         else if n \<in> bs_seen st then st\<lparr>bs_skipped := bs_skipped st @ [(n, DuplicatePayload)]\<rparr>
         else
           let st' = st\<lparr>bs_seen := insert n (bs_seen st)\<rparr>
           in if \<not> ck_syntax_ok ck n then st'\<lparr>bs_skipped := bs_skipped st' @ [(n, InvalidSyntax)]\<rparr>
              else if n \<in> bs_existing st' then st'\<lparr>bs_skipped := bs_skipped st' @ [(n, DuplicateExisting)]\<rparr>
              else st'\<lparr>bs_created := bs_created st' @
                      [\<lparr>cr_action = action, cr_group = Some '''', cr_id = ck_new_id ck (length (bs_created st')),
                        cr_note = Some '''', cr_order = Some (int (base + length (bs_created st'))), cr_value = n\<rparr>],
                      bs_existing := insert n (bs_existing st')\<rparr>)"

definition bulk_loop :: "rule_checks \<Rightarrow> bool \<Rightarrow> string \<Rightarrow> ModelCustomRule list \<Rightarrow> string list \<Rightarrow> bulk_state" where
  "bulk_loop ck exact action rules values =
     foldl (bulk_step ck exact action (length rules))
       \<lparr>bs_created = [], bs_skipped = [], bs_existing = cr_value ` set rules, bs_seen = {}\<rparr> values"

text \<open>
  The request's tags (at most 20 values, each a host name, address or network number), the bulk
  creation, and the account's limit; \<open>others\<close> counts the rules on the account's other profiles.
  The answer carries the created rules, which the database now holds, and the skipped values.
\<close>

definition CreateCustomRulesBulk ::
  "rule_checks \<Rightarrow> bool \<Rightarrow> nat \<Rightarrow> string \<Rightarrow> string list \<Rightarrow> ModelCustomRule list \<Rightarrow>
   thrown + ModelCustomRule list \<times> (string \<times> skip_reason) list" where
  "CreateCustomRulesBulk ck exact others action values rules =
     (if values = [] \<or> length values > 20 \<or> \<not> list_all (ck_request_ok ck) values
      then Inl (api_error 400 ''the rule needs to be a valid domain name, IPv4 or IPv6 address, or ASN'')
      else
        let r = bulk_loop ck exact action rules values
        in if bs_created r \<noteq> [] \<and> others + length rules + length (bs_created r) > 10000
           then Inl (api_error 400 (''Adding these would exceed the limit of 10000 custom rules per account '' @
                              ''(across all profiles). Remove some rules first.''))
           else Inr (bs_created r, bs_skipped r))"

definition DeleteCustomRule :: "string \<Rightarrow> ModelCustomRule list \<Rightarrow> thrown + ModelCustomRule list" where
  "DeleteCustomRule ruleId rules =
     (if ruleId \<in> cr_id ` set rules then Inr (filter (\<lambda>r. cr_id r \<noteq> ruleId) rules)
      else Inl (api_error 404 ''resource not found''))"


subsection \<open>The page's requests (MainContentSection.tsx)\<close>

text \<open>
  One profile on the server: how it treats subdomains, and the rules of the account's other
  profiles. \<open>fails\<close> says which of a handler's requests, by position, the network loses.
\<close>

record rules_api =
  ra_checks :: rule_checks
  ra_exact :: bool
  ra_others :: nat
  ra_fails :: "nat \<Rightarrow> bool"

text \<open>Reading the profile back: the store takes the server's rules.\<close>

definition refetch :: "rules_page \<Rightarrow> rules_page" where
  "refetch st = st\<lparr>rp_rules := rp_server st\<rparr>"

definition fail :: "thrown \<Rightarrow> string \<Rightarrow> rules_page \<Rightarrow> rules_page" where
  "fail e fallback st = toast (Failed (formatApiError e fallback)) st"

text \<open>The last skipped entry with the value, as in a JavaScript \<open>Map\<close> filled in order.\<close>

definition skippedByValue :: "(string \<times> skip_reason) list \<Rightarrow> string \<Rightarrow> skip_reason option" where
  "skippedByValue skipped v = map_of (rev (filter (\<lambda>s. fst s \<noteq> []) skipped)) v"

definition mark_skipped :: "(string \<times> skip_reason) list \<Rightarrow> RuleOption \<Rightarrow> RuleOption" where
  "mark_skipped skipped t =
     (case skippedByValue skipped (ro_value t) of
        None \<Rightarrow> t
      | Some r \<Rightarrow> t\<lparr>ro_meta := Some \<lparr>rm_error = Some (reason_message r), rm_reason = Some (reason_text r)\<rparr>\<rparr>)"

definition tokens_after ::
  "RuleOption list \<Rightarrow> RuleOption list \<Rightarrow> (string \<times> skip_reason) list \<Rightarrow> RuleOption list" where
  "tokens_after staticTokens submissionTokens skipped =
     (if skipped \<noteq> [] \<or> staticTokens \<noteq> [] then
        let skippedTokens = map (mark_skipped skipped)
              (filter (\<lambda>t. skippedByValue skipped (ro_value t) \<noteq> None) submissionTokens)
        in dedup_by ro_value [] (staticTokens @ skippedTokens)
      else [])"

definition handleComposerSubmit :: "rules_api \<Rightarrow> RuleList \<Rightarrow> RuleOption list option \<Rightarrow> rules_page \<Rightarrow> rules_page" where
  "handleComposerSubmit api tab tokensOverride st =
     (if \<not> truthy_str (rp_profile st) then toast NoProfile st
      else
        let originalTokens = nullish tokensOverride (rp_tokens st tab);
            staticTokens = filter has_error originalTokens;
            submissionTokens = filter (\<lambda>t. \<not> has_error t) originalTokens
        in if submissionTokens = [] then st
           else
             let st1 = (
               if ra_fails api 0 then fail network_error ''Failed to add custom rules'' st
               else case CreateCustomRulesBulk (ra_checks api) (ra_exact api) (ra_others api)
                           (TAB_TO_ACTION tab) (map ro_value submissionTokens) (rp_server st) of
                 Inl e \<Rightarrow> fail e ''Failed to add custom rules'' st
               | Inr (created, skipped) \<Rightarrow>
                   let sv = st\<lparr>rp_server := rp_server st @ created\<rparr>
                   in if created \<noteq> [] \<and> ra_fails api 1 then fail network_error ''Failed to add custom rules'' sv
                      else
                        let s1 = (if created = [] then sv else toast (Added (length created)) (refetch sv));
                            s2 = (if skipped = [] then s1 else toast (SkippedSome (length skipped)) s1);
                            s3 = (if created = [] \<and> skipped = [] then toast NoChanges s2 else s2)
                        in updateComposerTokens tab (tokens_after staticTokens submissionTokens skipped) s3)
             in st1\<lparr>rp_loading := False\<rparr>)"

definition handleDeleteRule :: "rules_api \<Rightarrow> string \<Rightarrow> rules_page \<Rightarrow> rules_page" where
  "handleDeleteRule api ruleId st =
     (if \<not> truthy_str (rp_profile st) then st
      else
        let st1 = (
          if ra_fails api 0 then fail network_error ''Failed to delete rule'' st
          else case DeleteCustomRule ruleId (rp_server st) of
            Inl e \<Rightarrow> fail e ''Failed to delete rule'' st
          | Inr rules \<Rightarrow>
              let sv = st\<lparr>rp_server := rules\<rparr>
              in if ra_fails api 1 then fail network_error ''Failed to delete rule'' sv
                 else toast RuleDeleted (refetch sv))
        in st1\<lparr>rp_loading := False\<rparr>)"

definition handleEntryCheck :: "string \<Rightarrow> bool \<Rightarrow> rules_page \<Rightarrow> rules_page" where
  "handleEntryCheck i checked st =
     (let prev = rp_selected st
      in st\<lparr>rp_selected := (if checked then (if i \<in> set prev then prev else prev @ [i])
                            else filter (\<lambda>s. s \<noteq> i) prev)\<rparr>)"

text \<open>
  The bulk delete sends all its requests at once. The API lets through \<open>budget\<close> more deletions of
  this client in the running minute (20 in a fresh one) and answers 429 to the rest; each request let
  through acts on the server's rules. \<open>Promise.all\<close> rejects with the first rejection.
\<close>

definition DELETE_LIMIT :: nat where "DELETE_LIMIT = 20"

fun delete_all :: "nat \<Rightarrow> string list \<Rightarrow> ModelCustomRule list \<Rightarrow> thrown option \<times> ModelCustomRule list" where
  "delete_all budget [] rules = (None, rules)"
| "delete_all budget (i # is) rules =
     (case budget of
        0 \<Rightarrow> (Some rate_limited, rules)
      | Suc b \<Rightarrow>
          (case DeleteCustomRule i rules of
             Inl e \<Rightarrow> (Some e, snd (delete_all b is rules))
           | Inr rules' \<Rightarrow> delete_all b is rules'))"

definition handleBulkDelete :: "rules_api \<Rightarrow> nat \<Rightarrow> rules_page \<Rightarrow> rules_page" where
  "handleBulkDelete api budget st =
     (if \<not> truthy_str (rp_profile st) \<or> rp_selected st = [] then st
      else
        let (err, rules) = delete_all budget (rp_selected st) (rp_server st);
            sv = st\<lparr>rp_server := rules\<rparr>;
            st1 = (case err of
                     Some e \<Rightarrow> fail e ''Failed to delete selected rules'' sv
                   | None \<Rightarrow>
                       if ra_fails api 1 then fail network_error ''Failed to delete selected rules'' sv
                       else (toast RulesDeleted (refetch sv))\<lparr>rp_selected := []\<rparr>)
        in st1\<lparr>rp_loading := False\<rparr>)"


subsection \<open>The composer's handlers (RuleComposer.tsx)\<close>

definition handleAddClick :: "rules_api \<Rightarrow> rules_page \<Rightarrow> rules_page" where
  "handleAddClick api st =
     (let (merged, st1) = (if js_trim (rp_input st) = [] then (rp_tokens st (rp_tab st), st)
                           else addTokens (splitRulesFromInput (rp_input st)) st);
          submittable = filter (\<lambda>t. \<not> has_error t) merged
      in if submittable \<noteq> [] \<and> \<not> rp_loading st
         then handleComposerSubmit api (rp_tab st) (Some merged) st1 else st1)"

definition handleCreateOption :: "string \<Rightarrow> rules_page \<Rightarrow> rules_page" where
  "handleCreateOption value st =
     (if js_trim value = [] then st else snd (addTokens (splitRulesFromInput value) st))"

definition breaks_token :: "char \<Rightarrow> bool" where
  "breaks_token c \<longleftrightarrow> js_space c \<or> c = CHR '','' \<or> c = CHR '';''"

definition handleInputChange :: "string \<Rightarrow> string \<Rightarrow> rules_page \<Rightarrow> rules_page" where
  "handleInputChange value action st =
     (if action \<noteq> ''input-change'' then st
      else if list_ex breaks_token value
           then (snd (addTokens (splitRulesFromInput value) st))
           else st\<lparr>rp_input := value\<rparr>)"

definition handleKeyDown :: "rules_api \<Rightarrow> string \<Rightarrow> rules_page \<Rightarrow> rules_page" where
  "handleKeyDown api key st =
     (if key \<in> {''Enter'', ''Tab'', '',''} then
        if js_trim (rp_input st) \<noteq> [] then snd (addTokens (splitRulesFromInput (rp_input st)) st)
        else if key = ''Enter'' \<and> list_ex (\<lambda>t. \<not> has_error t) (rp_tokens st (rp_tab st)) \<and> \<not> rp_loading st
             then handleComposerSubmit api (rp_tab st) None st
             else st
      else st)"

definition handleChange :: "RuleOption list \<Rightarrow> string \<Rightarrow> rules_page \<Rightarrow> rules_page" where
  "handleChange nextValue action st =
     updateComposerTokens (rp_tab st) (if action = ''clear'' then [] else nextValue) st"

text \<open>Opening another profile empties the composer, and another tab the selection.\<close>

definition profile_switched :: "string option \<Rightarrow> ModelCustomRule list \<Rightarrow> rules_page \<Rightarrow> rules_page" where
  "profile_switched p rules st =
     st\<lparr>rp_profile := p, rp_rules := rules, rp_server := rules, rp_tokens := (\<lambda>_. []), rp_selected := []\<rparr>"

definition tab_switched :: "RuleList \<Rightarrow> rules_page \<Rightarrow> rules_page" where
  "tab_switched tab st = st\<lparr>rp_tab := tab, rp_selected := []\<rparr>"

text \<open>What the user does in the composer, and the page it opens with.\<close>

datatype composer_event =
    AddClick rules_api | CreateOption string | InputChange string string | KeyDown rules_api string
  | Change "RuleOption list" string | SwitchTab RuleList | SwitchProfile "string option" "ModelCustomRule list"

fun composer_step :: "rules_page \<Rightarrow> composer_event \<Rightarrow> rules_page" where
  "composer_step st (AddClick api) = handleAddClick api st"
| "composer_step st (CreateOption v) = handleCreateOption v st"
| "composer_step st (InputChange v a) = handleInputChange v a st"
| "composer_step st (KeyDown api k) = handleKeyDown api k st"
| "composer_step st (Change next a) = handleChange next a st"
| "composer_step st (SwitchTab tab) = tab_switched tab st"
| "composer_step st (SwitchProfile p rules) = profile_switched p rules st"

definition init_rules_page :: "string option \<Rightarrow> RuleList \<Rightarrow> ModelCustomRule list \<Rightarrow> rules_page" where
  "init_rules_page p tab rules =
     \<lparr>rp_profile = p, rp_tab = tab, rp_tokens = (\<lambda>_. []), rp_input = [], rp_rules = rules,
      rp_server = rules, rp_selected = [], rp_editing = None, rp_loading = False, rp_toasts = []\<rparr>"

text \<open>The select offers only what it holds: a change keeps a part of the current tokens.\<close>

fun offered :: "rules_page \<Rightarrow> composer_event \<Rightarrow> bool" where
  "offered st (Change next a) = subseq next (rp_tokens st (rp_tab st))"
| "offered st e = True"

fun composer_run :: "rules_page \<Rightarrow> composer_event list \<Rightarrow> rules_page option" where
  "composer_run st [] = Some st"
| "composer_run st (e # es) = (if offered st e then composer_run (composer_step st e) es else None)"

subsection \<open>Editing a rule (RuleEditDialog.tsx)\<close>

definition NOTE_MAX :: nat where "NOTE_MAX = 80"

record edit_form =
  ef_value :: string
  ef_action :: string
  ef_group :: string
  ef_note :: string

definition form_of :: "ModelCustomRule \<Rightarrow> edit_form" where
  "form_of rule = \<lparr>ef_value = cr_value rule,
     ef_action = (if cr_action rule = ''allow'' then ''allow'' else ''block''),
     ef_group = nullish (cr_group rule) '''', ef_note = nullish (cr_note rule) ''''\<rparr>"

record UpdateProfileCustomRuleBody =
  up_action :: "string option"
  up_group :: "string option"
  up_note :: "string option"
  up_value :: "string option"

definition handleSave :: "ModelCustomRule \<Rightarrow> bool \<Rightarrow> edit_form \<Rightarrow> UpdateProfileCustomRuleBody option" where
  "handleSave rule loading f =
     (let trimmedValue = js_trim (ef_value f)
      in if trimmedValue = [] \<or> loading then None
         else Some \<lparr>up_action = (if ef_action f \<noteq> cr_action rule then Some (ef_action f) else None),
                    up_group = (if ef_group f \<noteq> nullish (cr_group rule) '''' then Some (ef_group f) else None),
                    up_note = (if ef_note f \<noteq> nullish (cr_note rule) '''' then Some (ef_note f) else None),
                    up_value = (if trimmedValue \<noteq> cr_value rule then Some trimmedValue else None)\<rparr>)"

text \<open>The API's partial update: the request's tags, then the service.\<close>

definition patched_value ::
  "rule_checks \<Rightarrow> bool \<Rightarrow> ModelCustomRule list \<Rightarrow> ModelCustomRule \<Rightarrow> string option \<Rightarrow> thrown + string" where
  "patched_value ck exact rules rule v =
     (case v of
        None \<Rightarrow> Inr (cr_value rule)
      | Some original \<Rightarrow>
          (let n = api_normalizeRuleValue ck exact original
           in if n = [] \<or> \<not> ck_syntax_ok ck n then Inl (api_error 400 ''invalid custom rule value syntax'')
              else if n \<noteq> cr_value rule \<and> (\<exists>r \<in> set rules. cr_id r \<noteq> cr_id rule \<and> cr_value r = n)
                   then Inl (api_error 400 ''custom rule already exists'')
                   else Inr n))"

definition UpdateCustomRule ::
  "rule_checks \<Rightarrow> bool \<Rightarrow> string \<Rightarrow> UpdateProfileCustomRuleBody \<Rightarrow> ModelCustomRule list \<Rightarrow>
   thrown + ModelCustomRule list" where
  "UpdateCustomRule ck exact ruleId patch rules =
     (if (\<exists>a. up_action patch = Some a \<and> a \<notin> {''block'', ''allow'', ''comment''}) \<or>
         (\<exists>v. up_value patch = Some v \<and> \<not> ck_request_ok ck v) \<or>
         (\<exists>n. up_note patch = Some n \<and> 80 < length n) \<or> (\<exists>g. up_group patch = Some g \<and> 64 < length g)
      then Inl (api_error 400 ''the rule needs to be a valid domain name, IPv4 or IPv6 address, or ASN'')
      else case find (\<lambda>r. cr_id r = ruleId) rules of
        None \<Rightarrow> Inl (api_error 404 ''resource not found'')
      | Some rule \<Rightarrow>
          (case patched_value ck exact rules rule (up_value patch) of
             Inl e \<Rightarrow> Inl e
           | Inr v \<Rightarrow>
               Inr (map (\<lambda>r. if cr_id r = ruleId
                             then r\<lparr>cr_action := nullish (up_action patch) (cr_action rule),
                                    cr_group := (case up_group patch of Some g \<Rightarrow> Some g | None \<Rightarrow> cr_group rule),
                                    cr_note := (case up_note patch of Some n \<Rightarrow> Some n | None \<Rightarrow> cr_note rule),
                                    cr_value := v\<rparr>
                             else r) rules)))"

definition handleSaveEdit :: "rules_api \<Rightarrow> string \<Rightarrow> UpdateProfileCustomRuleBody \<Rightarrow> rules_page \<Rightarrow> rules_page" where
  "handleSaveEdit api ruleId patch st =
     (if \<not> truthy_str (rp_profile st) then st
      else if up_action patch = None \<and> up_group patch = None \<and> up_note patch = None \<and> up_value patch = None
           then st\<lparr>rp_editing := None\<rparr>
      else
        let st1 = (
          if ra_fails api 0 then fail network_error ''Failed to update rule'' st
          else case UpdateCustomRule (ra_checks api) (ra_exact api) ruleId patch (rp_server st) of
            Inl e \<Rightarrow> fail e ''Failed to update rule'' st
          | Inr rules \<Rightarrow>
              let sv = st\<lparr>rp_server := rules\<rparr>
              in if ra_fails api 1 then fail network_error ''Failed to update rule'' sv
                 else (toast RuleUpdated (refetch sv))\<lparr>rp_editing := None\<rparr>)
        in st1\<lparr>rp_loading := False\<rparr>)"


subsection \<open>What the composer adds\<close>

text \<open>The values of a text in the composer's normal form, empty ones left out.\<close>

definition rule_values :: "string list \<Rightarrow> string list" where
  "rule_values raws = filter (\<lambda>v. v \<noteq> []) (List.map_filter normalizeRuleValue raws)"

lemma rule_values_simps [simp]:
  "rule_values [] = []"
  "rule_values (raw # raws) =
     (case normalizeRuleValue raw of None \<Rightarrow> rule_values raws
      | Some v \<Rightarrow> if v = [] then rule_values raws else v # rule_values raws)"
  by (simp_all add: rule_values_def List.map_filter_simps split: option.splits)

abbreviation plain_token :: "string \<Rightarrow> RuleOption" where
  "plain_token v \<equiv> \<lparr>ro_label = v, ro_value = v, ro_meta = None\<rparr>"

lemma add_loop_gen:
  "as_added (foldl (add_step (set seen)) st raws) =
     as_added st @ map plain_token
       (take (nat (as_slots st)) (dedup_by (\<lambda>v. v) (seen @ map ro_value (as_added st)) (rule_values raws)))"
proof (induction raws arbitrary: st)
  case (Cons raw raws)
  show ?case
  proof (cases "as_slots st \<le> 0")
    case True
    then have "as_added (add_step (set seen) st raw) = as_added st \<and> as_slots (add_step (set seen) st raw) = as_slots st"
      by (simp add: add_step_def split: option.splits)
    then show ?thesis using Cons True by simp
  next
    case slots: False
    show ?thesis
    proof (cases "normalizeRuleValue raw")
      case None
      then have "add_step (set seen) st raw = st" by (simp add: add_step_def)
      then show ?thesis using Cons None by simp
    next
      case (Some v)
      show ?thesis
      proof (cases "v = [] \<or> v \<in> set seen \<or> v \<in> ro_value ` set (as_added st)")
        case True
        then have "as_added (add_step (set seen) st raw) = as_added st \<and> as_slots (add_step (set seen) st raw) = as_slots st"
          using slots Some by (auto simp: add_step_def)
        then show ?thesis using Cons True Some by auto
      next
        case False
        let ?st = "st\<lparr>as_added := as_added st @ [plain_token v], as_slots := as_slots st - 1\<rparr>"
        have step: "add_step (set seen) st raw = ?st" using False slots Some by (simp add: add_step_def)
        have cong: "dedup_by (\<lambda>v. v) (seen @ map ro_value (as_added st) @ [v]) (rule_values raws) =
                    dedup_by (\<lambda>v. v) (v # seen @ map ro_value (as_added st)) (rule_values raws)"
          by (rule dedup_by_cong_seen) auto
        obtain k where "nat (as_slots st) = Suc k" using slots by (metis not_le not0_implies_Suc zero_less_nat_eq neq0_conv)
        then have k: "nat (as_slots st) = Suc k" "nat (as_slots st - 1) = k" by simp_all
        show ?thesis using Cons [of ?st] False Some by (auto simp: step k cong)
      qed
    qed
  qed
qed simp

lemma add_loop_added:
  "as_added (add_loop tokens raws) =
     map plain_token (take (20 - length tokens) (dedup_by (\<lambda>v. v) (map ro_value tokens) (rule_values raws)))"
proof -
  have "nat (int MAX_RULES_PER_BATCH - int (length tokens)) = 20 - length tokens"
    by (simp add: MAX_RULES_PER_BATCH_def nat_diff_distrib')
  then show ?thesis
    using add_loop_gen [of "map ro_value tokens" "\<lparr>as_slots = int MAX_RULES_PER_BATCH - int (length tokens),
            as_added = [], as_duplicates = [], as_overflow = []\<rparr>" raws]
    by (simp add: add_loop_def)
qed

lemma fst_addTokens:
  "fst (addTokens raws st) = rp_tokens st (rp_tab st) @
     map plain_token (take (20 - length (rp_tokens st (rp_tab st)))
       (dedup_by (\<lambda>v. v) (map ro_value (rp_tokens st (rp_tab st))) (rule_values raws)))"
  by (simp add: addTokens_def Let_def add_loop_added)

lemma toast_simps [simp]:
  "rp_profile (toast t st) = rp_profile st" "rp_tab (toast t st) = rp_tab st" "rp_tokens (toast t st) = rp_tokens st"
  "rp_rules (toast t st) = rp_rules st" "rp_server (toast t st) = rp_server st"
  "rp_selected (toast t st) = rp_selected st" "rp_loading (toast t st) = rp_loading st"
  "rp_input (toast t st) = rp_input st" "rp_toasts (toast t st) = rp_toasts st @ [t]"
  "rp_editing (toast t st) = rp_editing st"
  by (simp_all add: toast_def)

lemma fail_simps [simp]:
  "rp_tokens (fail e f st) = rp_tokens st" "rp_rules (fail e f st) = rp_rules st"
  "rp_server (fail e f st) = rp_server st" "rp_selected (fail e f st) = rp_selected st"
  "rp_profile (fail e f st) = rp_profile st" "rp_tab (fail e f st) = rp_tab st"
  "rp_toasts (fail e f st) = rp_toasts st @ [Failed (formatApiError e f)]"
  by (simp_all add: fail_def)

lemma refetch_simps [simp]:
  "rp_rules (refetch st) = rp_server st" "rp_server (refetch st) = rp_server st"
  "rp_tokens (refetch st) = rp_tokens st" "rp_toasts (refetch st) = rp_toasts st"
  "rp_selected (refetch st) = rp_selected st" "rp_profile (refetch st) = rp_profile st" "rp_tab (refetch st) = rp_tab st"
  by (simp_all add: refetch_def)

lemma snd_addTokens:
  "rp_tokens (snd (addTokens raws st)) = (rp_tokens st)(rp_tab st := fst (addTokens raws st))"
  "rp_tab (snd (addTokens raws st)) = rp_tab st" "rp_profile (snd (addTokens raws st)) = rp_profile st"
  "rp_rules (snd (addTokens raws st)) = rp_rules st" "rp_server (snd (addTokens raws st)) = rp_server st"
  by (auto simp: addTokens_def Let_def updateComposerTokens_def)


definition tokens_ok :: "RuleOption list \<Rightarrow> bool" where
  "tokens_ok ts \<longleftrightarrow> length ts \<le> MAX_RULES_PER_BATCH \<and> distinct (map ro_value ts) \<and> (\<forall>t \<in> set ts. ro_value t \<noteq> [])"

lemma tokens_ok_Nil [simp]: "tokens_ok []" by (simp add: tokens_ok_def)

lemma tokens_ok_subseq:
  assumes "subseq us ts" "tokens_ok ts"
  shows "tokens_ok us"
proof -
  have "subseq (map ro_value us) (map ro_value ts)" using assms(1) by (rule subseq_map)
  then obtain N where "map ro_value us = nths (map ro_value ts) N" by (auto simp: subseq_conv_nths)
  then have "distinct (map ro_value us)" using assms(2) by (simp add: tokens_ok_def distinct_nthsI)
  moreover have "set us \<subseteq> set ts" using assms(1) by (auto simp: subseq_conv_nths dest: in_set_nthsD)
  ultimately show ?thesis
    using assms list_emb_length [OF assms(1)] by (auto simp: tokens_ok_def)
qed

lemma rule_values_nonempty: "v \<in> set (rule_values raws) \<Longrightarrow> v \<noteq> []"
  by (simp add: rule_values_def)

lemma addTokens_ok:
  assumes "tokens_ok (rp_tokens st (rp_tab st))"
  shows "tokens_ok (fst (addTokens raws st))"
proof -
  let ?ts = "rp_tokens st (rp_tab st)"
  let ?new = "dedup_by (\<lambda>v. v) (map ro_value ?ts) (rule_values raws)"
  have new: "set ?new = set (rule_values raws) - ro_value ` set ?ts" "distinct ?new"
    by (simp_all add: dedup_by_id_set dedup_by_id_distinct)
  have vals: "map ro_value (fst (addTokens raws st)) = map ro_value ?ts @ take (20 - length ?ts) ?new"
    by (simp add: fst_addTokens comp_def)
  have "distinct (map ro_value (fst (addTokens raws st)))"
    unfolding vals using assms new by (auto simp: tokens_ok_def dest: in_set_takeD)
  moreover have "v \<noteq> []" if "v \<in> set (map ro_value (fst (addTokens raws st)))" for v
    using that assms new(1) rule_values_nonempty unfolding vals by (fastforce simp: tokens_ok_def dest: in_set_takeD)
  moreover have "length (fst (addTokens raws st)) \<le> 20"
    using assms by (auto simp: fst_addTokens tokens_ok_def MAX_RULES_PER_BATCH_def)
  ultimately show ?thesis by (simp add: tokens_ok_def MAX_RULES_PER_BATCH_def)
qed

lemma mark_skipped_value [simp]: "ro_value (mark_skipped skipped t) = ro_value t"
  by (simp add: mark_skipped_def split: option.splits)

lemma mark_skipped_values [simp]: "map ro_value (map (mark_skipped skipped) ts) = map ro_value ts"
  by simp

lemma tokens_after_ok:
  assumes "tokens_ok ts"
  shows "tokens_ok (tokens_after (filter has_error ts) (filter (\<lambda>t. \<not> has_error t) ts) skipped)"
proof -
  let ?sub = "filter (\<lambda>t. skippedByValue skipped (ro_value t) \<noteq> None) (filter (\<lambda>t. \<not> has_error t) ts)"
  let ?all = "filter has_error ts @ map (mark_skipped skipped) ?sub"
  have "length ?sub \<le> length (filter (\<lambda>t. \<not> has_error t) ts)" by (rule length_filter_le)
  then have "length ?all \<le> length ts"
    using sum_length_filter_compl [of has_error ts] by simp
  moreover have "length (dedup_by ro_value [] ?all) \<le> length ?all"
    by (rule list_emb_length [OF dedup_by_subseq])
  moreover have "\<forall>t \<in> set (dedup_by ro_value [] ?all). ro_value t \<noteq> []"
    using assms dedup_by_subset [of ro_value "[]" ?all] by (fastforce simp: tokens_ok_def)
  ultimately show ?thesis
    using assms by (simp add: tokens_after_def Let_def tokens_ok_def dedup_by_distinct)
qed

lemma submit_tokens:
  "rp_tokens (handleComposerSubmit api tab over st) = rp_tokens st \<or>
   (\<exists>skipped. let ts = nullish over (rp_tokens st tab) in
      rp_tokens (handleComposerSubmit api tab over st) =
        (rp_tokens st)(tab := tokens_after (filter has_error ts) (filter (\<lambda>t. \<not> has_error t) ts) skipped))"
  by (auto simp: handleComposerSubmit_def Let_def updateComposerTokens_def split: sum.splits)

lemma submit_ok:
  assumes "tokens_ok (nullish over (rp_tokens st tab))" and "\<forall>t. tokens_ok (rp_tokens st t)"
  shows "\<forall>t. tokens_ok (rp_tokens (handleComposerSubmit api tab over st) t)"
  using submit_tokens [of api tab over st] tokens_after_ok [OF assms(1)] assms(2)
  by (auto simp: Let_def)

lemma composer_step_ok:
  assumes "\<forall>t. tokens_ok (rp_tokens st t)" and "offered st e"
  shows "\<forall>t. tokens_ok (rp_tokens (composer_step st e) t)"
proof (cases e)
  case (AddClick api)
  show ?thesis
  proof (cases "js_trim (rp_input st) = []")
    case True
    then show ?thesis
      using AddClick assms(1) submit_ok [of "Some (rp_tokens st (rp_tab st))" st]
      by (auto simp: handleAddClick_def)
  next
    case False
    define merged where "merged = fst (addTokens (splitRulesFromInput (rp_input st)) st)"
    define st1 where "st1 = snd (addTokens (splitRulesFromInput (rp_input st)) st)"
    have m: "tokens_ok merged" using assms(1) by (simp add: merged_def addTokens_ok)
    then have st1: "\<forall>t. tokens_ok (rp_tokens st1 t)" using assms(1) by (simp add: st1_def snd_addTokens merged_def)
    have "composer_step st e \<in> {st1, handleComposerSubmit api (rp_tab st) (Some merged) st1}"
      using AddClick False by (auto simp: handleAddClick_def merged_def st1_def Let_def split: prod.splits)
    then show ?thesis using st1 submit_ok [of "Some merged" st1] m by auto
  qed
next
  case (KeyDown api k)
  then show ?thesis
    using assms(1) addTokens_ok [of st] submit_ok [of None]
    by (auto simp: handleKeyDown_def snd_addTokens)
next
  case (Change nxt a)
  then show ?thesis
    using assms tokens_ok_subseq by (auto simp: handleChange_def updateComposerTokens_def)
next
  case (CreateOption v)
  then show ?thesis using assms(1) addTokens_ok [of st] by (simp add: handleCreateOption_def snd_addTokens)
next
  case (InputChange v a)
  then show ?thesis using assms(1) addTokens_ok [of st] by (simp add: handleInputChange_def snd_addTokens)
qed (simp_all add: tab_switched_def profile_switched_def assms(1))


lemma composer_run_ok:
  "\<forall>t. tokens_ok (rp_tokens s t) \<Longrightarrow> composer_run s es = Some st \<Longrightarrow> \<forall>t. tokens_ok (rp_tokens st t)"
proof (induction es arbitrary: s)
  case (Cons e es)
  then have "offered s e" "composer_run (composer_step s e) es = Some st" by (simp_all split: if_splits)
  with Cons.IH composer_step_ok [OF Cons.prems(1)] show ?case by blast
qed simp

subsection \<open>How the composer cuts a text\<close>

text \<open>Reference: the maximal runs of characters that do not separate values.\<close>

definition text_words :: "string \<Rightarrow> string list" where
  "text_words raw = filter (\<lambda>w. \<not> breaks_token (hd w)) (split_runs (\<lambda>a b. breaks_token a = breaks_token b) raw)"

fun fields :: "string \<Rightarrow> string \<Rightarrow> string list" where
  "fields cur [] = (if cur = [] then [] else [rev cur])"
| "fields cur (c # s) =
     (if breaks_token c then (if cur = [] then fields [] s else rev cur # fields [] s) else fields (c # cur) s)"

lemma list_sep_breaks: "list_sep c \<Longrightarrow> breaks_token c"
  by (auto simp: list_sep_def breaks_token_def js_space_def Let_def)

lemma sep_match_breaks: "\<forall>c \<in> set (take (sep_match s) s). breaks_token c"
proof -
  have "take (sep_match s) s = takeWhile list_sep s \<or> take (sep_match s) s = takeWhile js_space s"
    by (simp add: sep_match_def Let_def flip: takeWhile_eq_take)
  then show ?thesis by (metis set_takeWhileD list_sep_breaks breaks_token_def)
qed

lemma sep_match_0: "sep_match (c # s) = 0 \<longleftrightarrow> \<not> breaks_token c"
proof
  show "sep_match (c # s) = 0 \<Longrightarrow> \<not> breaks_token c"
    by (auto simp: sep_match_def Let_def breaks_token_def list_sep_def split: if_splits)
  show "\<not> breaks_token c \<Longrightarrow> sep_match (c # s) = 0"
    using list_sep_breaks [of c] by (auto simp: sep_match_def Let_def breaks_token_def)
qed

lemma fields_skip: "\<forall>c \<in> set w. breaks_token c \<Longrightarrow> fields [] (w @ s) = fields [] s"
  by (induction w) auto

lemma fields_word: "\<forall>c \<in> set w. \<not> breaks_token c \<Longrightarrow> fields cur (w @ s) = fields (rev w @ cur) s"
  by (induction w arbitrary: cur) auto

lemma fields_end: "cur \<noteq> [] \<Longrightarrow> s = [] \<or> breaks_token (hd s) \<Longrightarrow> fields cur s = rev cur # fields [] s"
  by (cases s) auto

lemma js_trim_word: "\<forall>c \<in> set w. \<not> js_space c \<Longrightarrow> js_trim w = w"
proof -
  assume w: "\<forall>c \<in> set w. \<not> js_space c"
  have id: "dropWhile js_space v = v" if "\<forall>c \<in> set v. \<not> js_space c" for v
    using that by (cases v) auto
  show ?thesis using id [of w] id [of "rev w"] w by (simp add: js_trim_def)
qed

lemma split_loop_fields:
  "\<forall>c \<in> set cur. \<not> breaks_token c \<Longrightarrow> filter (\<lambda>v. v \<noteq> []) (map js_trim (split_loop cur s)) = fields cur s"
proof (induction cur s rule: split_loop.induct)
  case (1 cur)
  then have "js_trim (rev cur) = rev cur" by (intro js_trim_word) (auto simp: breaks_token_def)
  then show ?case by simp
next
  case (2 cur c s)
  have trim: "js_trim (rev cur) = rev cur" using 2(3) by (intro js_trim_word) (auto simp: breaks_token_def)
  show ?case
  proof (cases "sep_match (c # s) = 0")
    case True
    then show ?thesis using 2(1) [OF refl] 2(3) sep_match_0 by simp
  next
    case False
    have b: "breaks_token c" using False by (simp add: sep_match_0)
    have "fields [] (drop (sep_match (c # s)) (c # s)) = fields [] (c # s)"
      using fields_skip [OF sep_match_breaks [of "c # s"], of "drop (sep_match (c # s)) (c # s)"]
      unfolding append_take_drop_id by simp
    then have "fields [] (drop (sep_match (c # s)) (c # s)) = fields [] s" using b by simp
    then show ?thesis using 2(2) [OF refl False] False b trim by (simp add: Let_def)
  qed
qed

lemma fields_words: "fields [] s = text_words s"
  unfolding text_words_def
proof (induction "\<lambda>a b. breaks_token a = breaks_token b" s rule: split_runs.induct)
  case (2 c s)
  let ?run = "takeWhile (\<lambda>b. breaks_token c = breaks_token b) s"
  let ?rest = "dropWhile (\<lambda>b. breaks_token c = breaks_token b) s"
  have run: "\<forall>x \<in> set ?run. breaks_token x = breaks_token c" by (auto dest: set_takeWhileD)
  have rest: "?rest = [] \<or> breaks_token (hd ?rest) \<noteq> breaks_token c" using hd_dropWhile by blast
  have s: "fields [] (c # s) = fields [] ((c # ?run) @ ?rest)" by simp
  show ?case
  proof (cases "breaks_token c")
    case True
    have "fields [] ((c # ?run) @ ?rest) = fields [] ?rest"
      by (rule fields_skip) (use run True in simp)
    with s have "fields [] (c # s) = fields [] ?rest" by (simp only:)
    then show ?thesis using 2 True by simp
  next
    case False
    have "fields [] ((c # ?run) @ ?rest) = fields (rev (c # ?run) @ []) ?rest"
      by (rule fields_word) (use run False in simp)
    with s have "fields [] (c # s) = fields (rev (c # ?run)) ?rest" by (simp only: append_Nil2)
    also have "\<dots> = (c # ?run) # fields [] ?rest"
      using fields_end [of "rev (c # ?run)" ?rest] rest False by simp
    finally show ?thesis using 2 False by simp
  qed
qed simp


subsection \<open>What the API creates and skips\<close>

lemma bulk_step_mono:
  "set (bs_created st) \<subseteq> set (bs_created (bulk_step ck ex act base st v)) \<and>
   set (bs_skipped st) \<subseteq> set (bs_skipped (bulk_step ck ex act base st v))"
  by (auto simp: bulk_step_def Let_def)

lemma bulk_foldl_mono:
  "set (bs_created st) \<subseteq> set (bs_created (foldl (bulk_step ck ex act base) st vs)) \<and>
   set (bs_skipped st) \<subseteq> set (bs_skipped (foldl (bulk_step ck ex act base) st vs))"
proof (induction vs arbitrary: st)
  case (Cons v vs)
  show ?case
    unfolding foldl_Cons
    using bulk_step_mono [of st ck ex act base v] Cons.IH [of "bulk_step ck ex act base st v"] subset_trans by blast
qed simp

text \<open>Every value ends up created or skipped, under its normal form.\<close>

definition accounted :: "bulk_state \<Rightarrow> string \<Rightarrow> bool" where
  "accounted r n \<longleftrightarrow> n \<in> cr_value ` set (bs_created r) \<or> n \<in> fst ` set (bs_skipped r)"

lemma bulk_foldl_accounts:
  assumes "\<forall>n \<in> bs_seen st. accounted st n" and "v \<in> set vs" and "api_normalizeRuleValue ck ex v \<noteq> []"
  shows "accounted (foldl (bulk_step ck ex act base) st vs) (api_normalizeRuleValue ck ex v)"
  using assms
proof (induction vs arbitrary: st)
  case (Cons w vs)
  let ?st = "bulk_step ck ex act base st w"
  have mono: "accounted st n \<Longrightarrow> accounted ?st n" for n
    using bulk_step_mono [of st ck ex act base w] by (auto simp: accounted_def)
  have seen: "\<forall>n \<in> bs_seen ?st. accounted ?st n"
  proof
    fix n assume "n \<in> bs_seen ?st"
    then have "n \<in> bs_seen st \<or> accounted ?st n"
      by (auto simp: bulk_step_def Let_def accounted_def split: if_splits)
    then show "accounted ?st n" using Cons.prems(1) mono by blast
  qed
  show ?case
  proof (cases "v = w")
    case True
    have "accounted ?st (api_normalizeRuleValue ck ex w)"
      using Cons.prems(3) True Cons.prems(1) by (auto simp: bulk_step_def Let_def accounted_def)
    then show ?thesis
      using bulk_foldl_mono [of ?st ck ex act base vs] True by (auto simp: accounted_def)
  next
    case False
    then show ?thesis using Cons.IH [OF seen] Cons.prems by simp
  qed
qed simp

lemma bulk_loop_accounts:
  "v \<in> set vs \<Longrightarrow> api_normalizeRuleValue ck ex v \<noteq> [] \<Longrightarrow>
     accounted (bulk_loop ck ex act rules vs) (api_normalizeRuleValue ck ex v)"
  unfolding bulk_loop_def by (rule bulk_foldl_accounts) simp_all

text \<open>
  The rules of the profile keep pairwise different values, and new ones take the orders that follow.
\<close>

lemma bulk_foldl_created:
  assumes "bs_existing st = E \<union> cr_value ` set (bs_created st)" "distinct (map cr_value (bs_created st))"
    "E \<inter> cr_value ` set (bs_created st) = {}"
    "map cr_order (bs_created st) = map (\<lambda>i. Some (int (base + i))) [0..<length (bs_created st)]"
  shows "let r = foldl (bulk_step ck ex act base) st vs
         in distinct (map cr_value (bs_created r)) \<and> E \<inter> cr_value ` set (bs_created r) = {} \<and>
            map cr_order (bs_created r) = map (\<lambda>i. Some (int (base + i))) [0..<length (bs_created r)]"
  using assms
proof (induction vs arbitrary: st)
  case (Cons w vs)
  let ?st = "bulk_step ck ex act base st w"
  have "bs_created ?st = bs_created st \<and> bs_existing ?st = bs_existing st \<or>
        (\<exists>c. bs_created ?st = bs_created st @ [c] \<and> cr_value c \<notin> bs_existing st \<and>
             bs_existing ?st = insert (cr_value c) (bs_existing st) \<and>
             cr_order c = Some (int (base + length (bs_created st))))"
    by (auto simp: bulk_step_def Let_def)
  then have "bs_existing ?st = E \<union> cr_value ` set (bs_created ?st) \<and> distinct (map cr_value (bs_created ?st)) \<and>
    E \<inter> cr_value ` set (bs_created ?st) = {} \<and>
    map cr_order (bs_created ?st) = map (\<lambda>i. Some (int (base + i))) [0..<length (bs_created ?st)]"
    using Cons.prems by (elim disjE exE) (auto simp: disjoint_iff)
  then show ?case using Cons.IH [of ?st] by simp
qed (simp add: Let_def)

lemma bulk_loop_created:
  assumes "distinct (map cr_value rules)"
  shows "distinct (map cr_value (rules @ bs_created (bulk_loop ck ex act rules vs)))"
    and "map cr_order (bs_created (bulk_loop ck ex act rules vs)) =
           map (\<lambda>i. Some (int (length rules + i))) [0..<length (bs_created (bulk_loop ck ex act rules vs))]"
  using bulk_foldl_created [of "\<lparr>bs_created = [], bs_skipped = [], bs_existing = cr_value ` set rules, bs_seen = {}\<rparr>"
          "cr_value ` set rules" "length rules" ck ex act vs] assms
  by (simp_all add: bulk_loop_def Let_def)

lemma skippedByValue_hit: "v \<noteq> [] \<Longrightarrow> skippedByValue skipped v \<noteq> None \<longleftrightarrow> v \<in> fst ` set skipped"
  unfolding skippedByValue_def map_of_eq_None_iff by auto

lemma tokens_after_keeps:
  assumes "t \<in> set ts" "ro_value t \<noteq> []" "has_error t \<or> ro_value t \<in> fst ` set skipped"
  shows "ro_value t \<in> ro_value ` set (tokens_after (filter has_error ts) (filter (\<lambda>t. \<not> has_error t) ts) skipped)"
proof -
  let ?sub = "filter (\<lambda>t. skippedByValue skipped (ro_value t) \<noteq> None) (filter (\<lambda>t. \<not> has_error t) ts)"
  let ?all = "filter has_error ts @ map (mark_skipped skipped) ?sub"
  have some: "skipped \<noteq> [] \<or> filter has_error ts \<noteq> []" using assms by (auto simp: filter_empty_conv)
  have "ro_value t \<in> ro_value ` set ?all"
  proof (cases "has_error t")
    case False
    then have "t \<in> set ?sub" using assms skippedByValue_hit [OF assms(2), of skipped] by simp
    then have "mark_skipped skipped t \<in> set ?all" by simp
    then have "ro_value (mark_skipped skipped t) \<in> ro_value ` set ?all" by (rule imageI)
    then show ?thesis by simp
  qed (use assms(1) in simp)
  then have "ro_value t \<in> ro_value ` set (dedup_by ro_value [] ?all)" by (simp add: dedup_by_keys)
  then show ?thesis using some by (simp only: tokens_after_def Let_def if_True)
qed

lemma reason_message_nonempty [simp]: "reason_message r \<noteq> []"
  by (cases r) simp_all

lemma tokens_after_marked:
  assumes "u \<in> set (tokens_after (filter has_error ts) (filter (\<lambda>t. \<not> has_error t) ts) skipped)"
  shows "has_error u \<and> ro_value u \<in> ro_value ` set ts"
proof -
  have "u \<in> set (filter has_error ts @ map (mark_skipped skipped)
          (filter (\<lambda>t. skippedByValue skipped (ro_value t) \<noteq> None) (filter (\<lambda>t. \<not> has_error t) ts)))"
    using assms dedup_by_subset by (fastforce simp: tokens_after_def Let_def split: if_splits)
  then show ?thesis by (auto simp: has_error_def mark_skipped_def split: option.splits)
qed


subsection \<open>Requests of the page\<close>

text \<open>A submit whose batch the API takes, and one it refuses.\<close>

lemma submit_taken:
  assumes "truthy_str (rp_profile st)" "\<forall>i. \<not> ra_fails api i"
    and "filter (\<lambda>t. \<not> has_error t) (rp_tokens st tab) = sub" "sub \<noteq> []"
    and "CreateCustomRulesBulk (ra_checks api) (ra_exact api) (ra_others api) (TAB_TO_ACTION tab)
           (map ro_value sub) (rp_server st) = Inr (created, skipped)"
  defines "st' \<equiv> handleComposerSubmit api tab None st"
  shows "rp_tokens st' tab = tokens_after (filter has_error (rp_tokens st tab)) sub skipped"
    and "rp_server st' = rp_server st @ created"
    and "rp_rules st' = (if created = [] then rp_rules st else rp_server st')"
    and "rp_toasts st' = rp_toasts st @ (if created = [] then [] else [Added (length created)]) @
           (if skipped = [] then [] else [SkippedSome (length skipped)]) @
           (if created = [] \<and> skipped = [] then [NoChanges] else [])"
  using assms by (simp_all add: st'_def handleComposerSubmit_def Let_def updateComposerTokens_def)

lemma submit_refused:
  assumes "CreateCustomRulesBulk (ra_checks api) (ra_exact api) (ra_others api) (TAB_TO_ACTION tab)
           (map ro_value (filter (\<lambda>t. \<not> has_error t) (rp_tokens st tab))) (rp_server st) = Inl e"
  defines "st' \<equiv> handleComposerSubmit api tab None st"
  shows "rp_tokens st' = rp_tokens st" "rp_server st' = rp_server st" "rp_rules st' = rp_rules st"
  using assms by (simp_all add: st'_def handleComposerSubmit_def Let_def)

lemma create_cases:
  assumes "CreateCustomRulesBulk ck exact others action values rules = Inr (created, skipped)"
  shows "created = bs_created (bulk_loop ck exact action rules values)"
    and "skipped = bs_skipped (bulk_loop ck exact action rules values)"
  using assms by (simp_all add: CreateCustomRulesBulk_def Let_def split: if_splits)

lemma rest_there:
  assumes "distinct (i # is)" "set (i # is) \<subseteq> cr_id ` set rules"
  shows "set is \<subseteq> cr_id ` set (filter (\<lambda>r. cr_id r \<noteq> i) rules)"
  using assms by fastforce

lemma delete_all_within:
  assumes "length is \<le> budget" "distinct is" "set is \<subseteq> cr_id ` set rules"
  shows "delete_all budget is rules = (None, filter (\<lambda>r. cr_id r \<notin> set is) rules)"
  using assms
proof (induction budget "is" rules rule: delete_all.induct)
  case (2 budget i "is" rules)
  then obtain b where b: "budget = Suc b" by (cases budget) auto
  have del: "DeleteCustomRule i rules = Inr (filter (\<lambda>r. cr_id r \<noteq> i) rules)"
    using 2 by (simp add: DeleteCustomRule_def)
  have "set is \<subseteq> cr_id ` set (filter (\<lambda>r. cr_id r \<noteq> i) rules)"
    using 2(3-) by (intro rest_there) simp_all
  then show ?case using 2(2) [OF b del] 2 b del by (simp add: conj_commute)
qed simp

lemma delete_all_beyond:
  assumes "budget < length is" "distinct is" "set is \<subseteq> cr_id ` set rules"
  shows "delete_all budget is rules =
           (Some rate_limited, filter (\<lambda>r. cr_id r \<notin> set (take budget is)) rules)"
  using assms
proof (induction budget "is" rules rule: delete_all.induct)
  case (2 budget i "is" rules)
  show ?case
  proof (cases budget)
    case (Suc b)
    have del: "DeleteCustomRule i rules = Inr (filter (\<lambda>r. cr_id r \<noteq> i) rules)"
      using 2 by (simp add: DeleteCustomRule_def)
    have "set is \<subseteq> cr_id ` set (filter (\<lambda>r. cr_id r \<noteq> i) rules)"
      using 2(3-) by (intro rest_there) simp_all
    then show ?thesis using 2(2) [OF Suc del] 2 Suc del by (simp add: conj_commute)
  qed simp
qed simp

lemma delete_all_gone:
  "i \<in> set is \<Longrightarrow> i \<notin> cr_id ` set rules \<Longrightarrow> fst (delete_all budget is rules) \<noteq> None"
proof (induction budget "is" rules rule: delete_all.induct)
  case (2 budget j "is" rules)
  show ?case
  proof (cases "budget = 0 \<or> j \<notin> cr_id ` set rules")
    case True
    then show ?thesis by (cases budget) (simp_all add: DeleteCustomRule_def)
  next
    case False
    then obtain b where b: "budget = Suc b" by (cases budget) auto
    have del: "DeleteCustomRule j rules = Inr (filter (\<lambda>r. cr_id r \<noteq> j) rules)"
      using False by (simp add: DeleteCustomRule_def)
    have "i \<in> set is" "i \<notin> cr_id ` set (filter (\<lambda>r. cr_id r \<noteq> j) rules)" using 2(3,4) False by auto
    then show ?thesis using 2(2) [OF b del] b del by simp
  qed
qed simp


subsection \<open>Properties\<close>

text \<open>
  Property C40 (composer_adds_new_values). The composer adds, behind the tokens it holds and in the order
  typed, the new values of the text, each once, as far as the 20 places go; the page then holds what
  the Add button submits.
\<close>

theorem composer_adds_new_values:
  "map ro_value (fst (addTokens raws st)) =
     map ro_value (rp_tokens st (rp_tab st)) @
       take (20 - length (rp_tokens st (rp_tab st)))
         (dedup_by (\<lambda>v. v) (map ro_value (rp_tokens st (rp_tab st))) (rule_values raws)) \<and>
   take (length (rp_tokens st (rp_tab st))) (fst (addTokens raws st)) = rp_tokens st (rp_tab st) \<and>
   rp_tokens (snd (addTokens raws st)) = (rp_tokens st)(rp_tab st := fst (addTokens raws st))"
  by (simp add: fst_addTokens snd_addTokens comp_def)

text \<open>
  Fact (composer_never_overfull). Whatever the user types, pastes, removes and submits, both
  composers hold at most 20 tokens with pairwise different non-empty values, so a batch is never
  refused for its size and never lists a value twice.
\<close>

theorem composer_never_overfull:
  assumes "composer_run (init_rules_page p tab rules) es = Some st"
  shows "length (rp_tokens st t) \<le> 20 \<and> distinct (map ro_value (rp_tokens st t)) \<and>
         (\<forall>k \<in> set (rp_tokens st t). ro_value k \<noteq> [])"
proof -
  have "\<forall>t. tokens_ok (rp_tokens (init_rules_page p tab rules) t)" by (simp add: init_rules_page_def)
  from composer_run_ok [OF this assms] show ?thesis by (simp add: tokens_ok_def MAX_RULES_PER_BATCH_def)
qed

text \<open>
  Fact (splitter_finds_words). The splitting of a pasted text, with its alternation of two
  separator patterns and its trimming, yields exactly the maximal runs of characters that are
  neither white space, commas nor semicolons.
\<close>

theorem splitter_finds_words: "splitRulesFromInput raw = text_words raw"
  using split_loop_fields [of "[]" raw] by (simp add: splitRulesFromInput_def fields_words)

text \<open>
  Property C9 (submit_loses_nothing). On a profile whose API stores the values as typed, no token of
  a submitted composer is lost: afterwards each is a rule of the profile or still a token; what is
  left is either the unchanged composer of a refused batch or marked with its error; and the store
  shows the server's rules, whose values stay pairwise different.
\<close>

theorem submit_loses_nothing:
  assumes "truthy_str (rp_profile st)" and "\<forall>i. \<not> ra_fails api i"
    and "\<forall>t \<in> set (rp_tokens st tab). ro_value t \<noteq> [] \<and>
           api_normalizeRuleValue (ra_checks api) (ra_exact api) (ro_value t) = ro_value t"
    and "rp_rules st = rp_server st" and "distinct (map cr_value (rp_server st))"
  defines "st' \<equiv> handleComposerSubmit api tab None st"
  shows "(\<forall>t \<in> set (rp_tokens st tab).
            ro_value t \<in> cr_value ` set (rp_server st') \<or> ro_value t \<in> ro_value ` set (rp_tokens st' tab)) \<and>
         (rp_tokens st' = rp_tokens st \<or> (\<forall>u \<in> set (rp_tokens st' tab). has_error u)) \<and>
         rp_rules st' = rp_server st' \<and> distinct (map cr_value (rp_server st'))"
proof -
  let ?ts = "rp_tokens st tab"
  let ?sub = "filter (\<lambda>t. \<not> has_error t) ?ts"
  let ?create = "CreateCustomRulesBulk (ra_checks api) (ra_exact api) (ra_others api) (TAB_TO_ACTION tab)
                   (map ro_value ?sub) (rp_server st)"
  consider (none) "?sub = []" | (refused) e where "?create = Inl e"
    | (taken) created skipped where "?sub \<noteq> []" "?create = Inr (created, skipped)"
    by (cases ?create) auto
  then show ?thesis
  proof cases
    case none
    then show ?thesis using assms(1,4,5) by (auto simp: st'_def handleComposerSubmit_def Let_def)
  next
    case refused
    then show ?thesis using submit_refused [OF refused] assms(4,5) unfolding st'_def by auto
  next
    case taken
    note after = submit_taken [OF assms(1,2) refl taken, folded st'_def]
    note result = create_cases [OF taken(2)]
    have kept: "ro_value t \<in> cr_value ` set (rp_server st') \<or> ro_value t \<in> ro_value ` set (rp_tokens st' tab)"
      if t: "t \<in> set ?ts" for t
    proof (cases "has_error t \<or> ro_value t \<in> fst ` set skipped")
      case True
      then show ?thesis using tokens_after_keeps [of t ?ts skipped] t assms(3) after(1) by auto
    next
      case False
      then have "ro_value t \<in> set (map ro_value ?sub)" using t by auto
      then have "accounted (bulk_loop (ra_checks api) (ra_exact api) (TAB_TO_ACTION tab) (rp_server st)
                   (map ro_value ?sub)) (ro_value t)"
        using bulk_loop_accounts assms(3) t by metis
      then show ?thesis using False after(2) result by (auto simp: accounted_def)
    qed
    have "\<forall>u \<in> set (rp_tokens st' tab). has_error u"
      unfolding after(1) using tokens_after_marked by blast
    moreover have "distinct (map cr_value (rp_server st'))"
      unfolding after(2) result(1) by (rule bulk_loop_created(1)) (rule assms(5))
    ultimately show ?thesis using kept after(2,3) assms(4) by (auto split: if_splits)
  qed
qed

text \<open>
  Fact (skipped_entry_vanishes). When the API stores a value in another form, as it does with
  every plain host name of a profile that includes subdomains, a duplicate is reported as skipped
  under that form and the composer no longer finds its token: the message asks to review highlighted
  items while the composer is emptied.
\<close>

theorem skipped_entry_vanishes:
  assumes "truthy_str (rp_profile st)" and "\<forall>i. \<not> ra_fails api i"
    and "rp_tokens st tab = [plain_token v]" and "ck_request_ok (ra_checks api) v"
    and "api_normalizeRuleValue (ra_checks api) (ra_exact api) v = n"
    and "n \<noteq> v" "n \<noteq> []" "ck_syntax_ok (ra_checks api) n" "n \<in> cr_value ` set (rp_server st)"
  defines "st' \<equiv> handleComposerSubmit api tab None st"
  shows "rp_tokens st' tab = [] \<and> rp_toasts st' = rp_toasts st @ [SkippedSome 1] \<and>
         rp_server st' = rp_server st"
proof -
  have "CreateCustomRulesBulk (ra_checks api) (ra_exact api) (ra_others api) (TAB_TO_ACTION tab) [v] (rp_server st) =
          Inr ([], [(n, DuplicateExisting)])"
    using assms(4-9) by (simp add: CreateCustomRulesBulk_def bulk_loop_def bulk_step_def Let_def)
  then have c: "CreateCustomRulesBulk (ra_checks api) (ra_exact api) (ra_others api) (TAB_TO_ACTION tab)
       (map ro_value [plain_token v]) (rp_server st) = Inr ([], [(n, DuplicateExisting)])" by simp
  have f: "filter (\<lambda>t. \<not> has_error t) (rp_tokens st tab) = [plain_token v]" "filter has_error (rp_tokens st tab) = []"
    using assms(3) by (simp_all add: has_error_def)
  have "skippedByValue [(n, DuplicateExisting)] v = None"
    using assms(6,7) by (simp add: skippedByValue_def)
  then show ?thesis
    using submit_taken [OF assms(1,2) f(1) _ c] f(2)
    by (simp add: st'_def tokens_after_def)
qed

text \<open>
  Fact (bulk_delete_limit). Deleting the selected rules works exactly up to the API's limit of
  deletions per minute. Beyond it the first ones are deleted, the page still shows and selects them
  all, and every repetition fails again, whatever the limit then allows, because it asks for rules
  that are gone.
\<close>

theorem bulk_delete_limit:
  fixes budget :: nat and api :: rules_api and st :: rules_page
  assumes "truthy_str (rp_profile st)" and "\<not> ra_fails api 1" and "rp_selected st \<noteq> []"
    and "distinct (rp_selected st)" and "set (rp_selected st) \<subseteq> cr_id ` set (rp_server st)"
  defines "st' \<equiv> handleBulkDelete api budget st"
  shows "(length (rp_selected st) \<le> budget \<longrightarrow>
            rp_server st' = filter (\<lambda>r. cr_id r \<notin> set (rp_selected st)) (rp_server st) \<and>
            rp_rules st' = rp_server st' \<and> rp_selected st' = [] \<and> last (rp_toasts st') = RulesDeleted) \<and>
         (budget < length (rp_selected st) \<longrightarrow>
            rp_server st' = filter (\<lambda>r. cr_id r \<notin> set (take budget (rp_selected st))) (rp_server st) \<and>
            rp_rules st' = rp_rules st \<and> rp_selected st' = rp_selected st \<and>
            last (rp_toasts st') = Failed ''Request failed with status code 429'' \<and>
            (0 < budget \<longrightarrow> (\<forall>api2 budget2. let st2 = handleBulkDelete api2 budget2 st' in
               rp_rules st2 = rp_rules st \<and> rp_selected st2 = rp_selected st \<and> (\<exists>m. last (rp_toasts st2) = Failed m))))"
proof (cases "length (rp_selected st) \<le> budget")
  case True
  then show ?thesis
    using assms(1-3) delete_all_within [OF True assms(4,5)]
    by (simp add: st'_def handleBulkDelete_def)
next
  case False
  then have less: "budget < length (rp_selected st)" by simp
  note del = delete_all_beyond [OF less assms(4,5)]
  have s: "rp_server st' = filter (\<lambda>r. cr_id r \<notin> set (take budget (rp_selected st))) (rp_server st)"
    "rp_rules st' = rp_rules st" "rp_selected st' = rp_selected st" "rp_profile st' = rp_profile st"
    "last (rp_toasts st') = Failed ''Request failed with status code 429''"
    using assms(1-3) del by (simp_all add: st'_def handleBulkDelete_def)
  have again: "let st2 = handleBulkDelete api2 budget2 st' in
      rp_rules st2 = rp_rules st \<and> rp_selected st2 = rp_selected st \<and> (\<exists>m. last (rp_toasts st2) = Failed m)"
    if pos: "0 < budget" for api2 budget2
  proof -
    obtain i "is" b where "rp_selected st = i # is" "budget = Suc b"
      using pos assms(3) by (cases "rp_selected st", simp, cases budget) simp_all
    then have i: "i \<in> set (take budget (rp_selected st))" by simp
    then have "i \<in> set (rp_selected st')" "i \<notin> cr_id ` set (rp_server st')"
      using s(1,3) by (auto dest: in_set_takeD)
    from delete_all_gone [OF this, of budget2] obtain e rules
      where "delete_all budget2 (rp_selected st') (rp_server st') = (Some e, rules)"
      by (cases "delete_all budget2 (rp_selected st') (rp_server st')") auto
    then show ?thesis using s(2-4) assms(1,3) by (simp add: handleBulkDelete_def Let_def)
  qed
  show ?thesis using s less again by simp
qed


text \<open>
  Fact (save_edit_stores_form). When the API takes an edit, the page shows the edited rule
  exactly as the form had it, the value in the API's form when it was changed, and every other rule
  as before, although only the changed fields travel.
\<close>

theorem save_edit_stores_form:
  fixes api :: rules_api
  assumes "truthy_str (rp_profile st)" and "\<forall>i. \<not> ra_fails api i"
    and "rp_rules st = rp_server st" and "rule \<in> set (rp_server st)" and "distinct (map cr_id (rp_server st))"
    and "handleSave rule False f = Some patch" and "ef_action f \<in> {''block'', ''allow''}"
    and "UpdateCustomRule (ra_checks api) (ra_exact api) (cr_id rule) patch (rp_server st) = Inr rules"
  defines "st' \<equiv> handleSaveEdit api (cr_id rule) patch st"
    and "v \<equiv> (if js_trim (ef_value f) = cr_value rule then cr_value rule
               else api_normalizeRuleValue (ra_checks api) (ra_exact api) (js_trim (ef_value f)))"
  shows "\<exists>rule'. rp_rules st' = map (\<lambda>r. if cr_id r = cr_id rule then rule' else r) (rp_rules st) \<and>
           form_of rule' = f\<lparr>ef_value := v\<rparr> \<and> cr_id rule' = cr_id rule \<and> cr_order rule' = cr_order rule"
proof -
  have patch: "up_action patch = (if ef_action f \<noteq> cr_action rule then Some (ef_action f) else None)"
    "up_group patch = (if ef_group f \<noteq> nullish (cr_group rule) '''' then Some (ef_group f) else None)"
    "up_note patch = (if ef_note f \<noteq> nullish (cr_note rule) '''' then Some (ef_note f) else None)"
    "up_value patch = (if js_trim (ef_value f) \<noteq> cr_value rule then Some (js_trim (ef_value f)) else None)"
    using assms(6) by (auto simp: handleSave_def Let_def split: if_splits)
  have find: "find (\<lambda>r. cr_id r = cr_id rule) (rp_server st) = Some rule"
    by (rule find_by_key) (use assms(4,5) in auto)
  define rule' where "rule' = rule\<lparr>cr_action := ef_action f,
      cr_group := (if ef_group f \<noteq> nullish (cr_group rule) '''' then Some (ef_group f) else cr_group rule),
      cr_note := (if ef_note f \<noteq> nullish (cr_note rule) '''' then Some (ef_note f) else cr_note rule),
      cr_value := v\<rparr>"
  have same: "r = rule" if "r \<in> set (rp_server st)" "cr_id r = cr_id rule" for r
    using same_key [OF that(1) assms(4,5)] that(2) by simp
  have form: "form_of rule' = f\<lparr>ef_value := v\<rparr>" "cr_id rule' = cr_id rule" "cr_order rule' = cr_order rule"
    using assms(7) by (auto simp: form_of_def rule'_def intro: edit_form.equality)
  have rules: "rules = map (\<lambda>r. if cr_id r = cr_id rule then rule' else r) (rp_server st)"
  proof -
    have "patched_value (ra_checks api) (ra_exact api) (rp_server st) rule (up_value patch) = Inr v"
      using assms(8) find patch(4) by (auto simp: UpdateCustomRule_def patched_value_def v_def Let_def split: if_splits sum.splits)
    with assms(8) find have "rules = map (\<lambda>r. if cr_id r = cr_id rule
        then r\<lparr>cr_action := nullish (up_action patch) (cr_action rule),
               cr_group := (case up_group patch of Some g \<Rightarrow> Some g | None \<Rightarrow> cr_group rule),
               cr_note := (case up_note patch of Some n \<Rightarrow> Some n | None \<Rightarrow> cr_note rule), cr_value := v\<rparr>
        else r) (rp_server st)"
      by (auto simp: UpdateCustomRule_def split: if_splits)
    moreover have "rule\<lparr>cr_action := nullish (up_action patch) (cr_action rule),
        cr_group := (case up_group patch of Some g \<Rightarrow> Some g | None \<Rightarrow> cr_group rule),
        cr_note := (case up_note patch of Some n \<Rightarrow> Some n | None \<Rightarrow> cr_note rule), cr_value := v\<rparr> = rule'"
      by (rule ModelCustomRule.equality) (auto simp: rule'_def patch)
    ultimately show ?thesis using same by (auto intro!: map_cong)
  qed
  have st': "rp_rules st' = rules"
  proof (cases "up_action patch = None \<and> up_group patch = None \<and> up_note patch = None \<and> up_value patch = None")
    case True
    then have "rule' = rule" using patch by (auto simp: rule'_def v_def split: if_splits)
    then have "rules = rp_server st" using same unfolding rules by (intro map_idI) (metis (full_types))
    then show ?thesis using True assms(1,3) by (simp add: st'_def handleSaveEdit_def)
  next
    case False
    then show ?thesis using assms(1,2,8) by (auto simp: st'_def handleSaveEdit_def)
  qed
  show ?thesis using form st' rules assms(3) by auto
qed


subsection \<open>Witnesses\<close>

definition sample_checks :: rule_checks where
  "sample_checks = \<lparr>ck_is_ip = (\<lambda>v. False), ck_request_ok = (\<lambda>v. True), ck_syntax_ok = (\<lambda>v. True),
     ck_new_id = (\<lambda>n. CHR ''n'' # show_nat n)\<rparr>"

lemma sample_checks_simps [simp]: "ck_request_ok sample_checks v" "ck_syntax_ok sample_checks v"
  by (simp_all add: sample_checks_def)

definition sample_api :: "bool \<Rightarrow> rules_api" where
  "sample_api exact = \<lparr>ra_checks = sample_checks, ra_exact = exact, ra_others = 0, ra_fails = (\<lambda>_. False)\<rparr>"

definition sample_rule :: "string \<Rightarrow> string \<Rightarrow> ModelCustomRule" where
  "sample_rule i v = \<lparr>cr_action = ''block'', cr_group = Some '''', cr_id = i, cr_note = None, cr_order = Some 0, cr_value = v\<rparr>"

definition sample_page :: rules_page where
  "sample_page = (init_rules_page (Some ''p'') Denylist [sample_rule ''1'' ''*.a.b'', sample_rule ''2'' ''c.d''])
     \<lparr>rp_selected := [''1'', ''2'']\<rparr>"

lemma sample_simps [simp]:
  "rp_profile sample_page = Some ''p''" "rp_tokens sample_page = (\<lambda>_. [])"
  "rp_rules sample_page = [sample_rule ''1'' ''*.a.b'', sample_rule ''2'' ''c.d'']"
  "rp_server sample_page = [sample_rule ''1'' ''*.a.b'', sample_rule ''2'' ''c.d'']"
  "rp_selected sample_page = [''1'', ''2'']" "rp_tab sample_page = Denylist"
  "cr_id (sample_rule i v) = i" "cr_value (sample_rule i v) = v" "cr_action (sample_rule i v) = ''block''"
  "cr_group (sample_rule i v) = Some ''''" "cr_note (sample_rule i v) = None"
  by (simp_all add: sample_page_def init_rules_page_def sample_rule_def)

lemma sample_normal:
  "api_normalizeRuleValue sample_checks True ''x.y'' = ''x.y''"
  "api_normalizeRuleValue sample_checks False ''a.b'' = ''*.a.b''"
  by code_simp+

theorem composer_never_overfull_witness:
  "length (rp_tokens (composer_step (init_rules_page (Some ''p'') Denylist []) (CreateOption ''x.y x.y'')) Denylist) \<le> 20"
  using composer_never_overfull [of "Some ''p''" Denylist "[]" "[CreateOption ''x.y x.y'']"
    "composer_step (init_rules_page (Some ''p'') Denylist []) (CreateOption ''x.y x.y'')" Denylist]
  by (simp del: composer_step.simps)

theorem submit_loses_nothing_witness:
  "let st = sample_page\<lparr>rp_tokens := (\<lambda>_. [plain_token ''x.y''])\<rparr>
   in ''x.y'' \<in> cr_value ` set (rp_server (handleComposerSubmit (sample_api True) Denylist None st)) \<or>
      ''x.y'' \<in> ro_value ` set (rp_tokens (handleComposerSubmit (sample_api True) Denylist None st) Denylist)"
  using submit_loses_nothing [of "sample_page\<lparr>rp_tokens := (\<lambda>_. [plain_token ''x.y''])\<rparr>" "sample_api True" Denylist]
  by (simp add: sample_api_def sample_normal)

theorem skipped_entry_vanishes_witness:
  "let st = sample_page\<lparr>rp_tokens := (\<lambda>_. [plain_token ''a.b''])\<rparr>
   in rp_tokens (handleComposerSubmit (sample_api False) Denylist None st) Denylist = []"
  using skipped_entry_vanishes [of "sample_page\<lparr>rp_tokens := (\<lambda>_. [plain_token ''a.b''])\<rparr>" "sample_api False"
      Denylist "''a.b''" "''*.a.b''"]
  by (simp add: sample_api_def sample_normal)

theorem bulk_delete_limit_witness:
  "rp_rules (handleBulkDelete (sample_api True) 1 sample_page) = rp_rules sample_page \<and>
   map cr_id (rp_server (handleBulkDelete (sample_api True) 1 sample_page)) = [''2'']"
  using bulk_delete_limit [of sample_page "sample_api True" 1]
  by (simp add: sample_api_def)

theorem save_edit_stores_form_witness:
  "let f = \<lparr>ef_value = ''x.y'', ef_action = ''allow'', ef_group = ''g'', ef_note = ''''\<rparr>;
       patch = \<lparr>up_action = Some ''allow'', up_group = Some ''g'', up_note = None, up_value = Some ''x.y''\<rparr>
   in \<exists>rule'. form_of rule' = f \<and>
        rule' \<in> set (rp_rules (handleSaveEdit (sample_api True) ''1'' patch sample_page))"
proof -
  let ?f = "\<lparr>ef_value = ''x.y'', ef_action = ''allow'', ef_group = ''g'', ef_note = ''''\<rparr>"
  let ?patch = "\<lparr>up_action = Some ''allow'', up_group = Some ''g'', up_note = None, up_value = Some ''x.y''\<rparr>"
  let ?rules = "projr (UpdateCustomRule sample_checks True ''1'' ?patch (rp_server sample_page))"
  have trim: "js_trim ''x.y'' = ''x.y''" by code_simp
  have save: "handleSave (sample_rule ''1'' ''*.a.b'') False ?f = Some ?patch"
    by (simp add: handleSave_def trim)
  have upd: "UpdateCustomRule sample_checks True ''1'' ?patch (rp_server sample_page) = Inr ?rules"
    by (simp add: UpdateCustomRule_def patched_value_def sample_normal)
  show ?thesis
    using save_edit_stores_form [of sample_page "sample_api True" "sample_rule ''1'' ''*.a.b''" ?f ?patch ?rules]
      save upd by (auto simp: sample_api_def trim sample_normal)
qed


end
