(* ===== verification/RuleGroups.thy ===== *)
theory RuleGroups
  imports RuleComposer "HOL-Library.Multiset"
begin

text \<open>
  Ordering and grouping the custom rules: the drag-and-drop card of
  app/src/pages/custom_rules/CustomRulesCard.tsx, the handlers of MainContentSection.tsx that persist
  an order, a move or a group operation, and the API's side of them (api/service/profile/custom_rules.go,
  api/model/custom_rule.go, api/api/custom_rules.go).

  \<open>arrayMove\<close> is a function of the drag-and-drop package; it is a parameter of the handlers that call it.
\<close>

subsection \<open>Ids of the drop targets (CustomRulesCard.tsx)\<close>

definition UNGROUPED :: string where "UNGROUPED = ''''"
definition CONTAINER_PREFIX :: string where "CONTAINER_PREFIX = ''group:''"
definition NEW_GROUP_ZONE :: string where "NEW_GROUP_ZONE = ''group:__new__''"
definition HEADER_PREFIX :: string where "HEADER_PREFIX = ''grouphdr:''"
definition GROUP_SORT_PREFIX :: string where "GROUP_SORT_PREFIX = ''groupsort:''"
definition RULES_PAGE_SIZE :: nat where "RULES_PAGE_SIZE = 200"

definition containerId :: "string \<Rightarrow> string" where "containerId g = CONTAINER_PREFIX @ g"
definition isContainerId :: "string \<Rightarrow> bool" where "isContainerId i = js_startsWith i CONTAINER_PREFIX"
definition groupFromContainer :: "string \<Rightarrow> string" where "groupFromContainer i = drop (length CONTAINER_PREFIX) i"
definition headerDropId :: "string \<Rightarrow> string" where "headerDropId g = HEADER_PREFIX @ g"
definition isHeaderDropId :: "string \<Rightarrow> bool" where "isHeaderDropId i = js_startsWith i HEADER_PREFIX"
definition groupFromHeader :: "string \<Rightarrow> string" where "groupFromHeader i = drop (length HEADER_PREFIX) i"
definition isGroupDropId :: "string \<Rightarrow> bool" where "isGroupDropId i \<longleftrightarrow> isContainerId i \<or> isHeaderDropId i"
definition groupFromDropId :: "string \<Rightarrow> string" where
  "groupFromDropId i = (if isHeaderDropId i then groupFromHeader i else groupFromContainer i)"
definition groupSortId :: "string \<Rightarrow> string" where "groupSortId name = GROUP_SORT_PREFIX @ name"
definition isGroupSortId :: "string \<Rightarrow> bool" where "isGroupSortId i = js_startsWith i GROUP_SORT_PREFIX"
definition groupFromSortId :: "string \<Rightarrow> string" where "groupFromSortId i = drop (length GROUP_SORT_PREFIX) i"

lemmas id_defs = containerId_def isContainerId_def groupFromContainer_def headerDropId_def isHeaderDropId_def
  groupFromHeader_def isGroupDropId_def groupFromDropId_def groupSortId_def isGroupSortId_def groupFromSortId_def
  CONTAINER_PREFIX_def HEADER_PREFIX_def GROUP_SORT_PREFIX_def js_startsWith_def

lemma drop_ids [simp]:
  "isGroupDropId (containerId g)" "isGroupDropId (headerDropId g)"
  "groupFromDropId (containerId g) = g" "groupFromDropId (headerDropId g) = g"
  "isGroupSortId (groupSortId g)" "groupFromSortId (groupSortId g) = g"
  "\<not> isGroupSortId (containerId g)" "\<not> isGroupSortId (headerDropId g)"
  by (simp_all add: id_defs)

subsection \<open>What the card shows\<close>

definition rule_order :: "ModelCustomRule \<Rightarrow> int" where "rule_order r = nullish (cr_order r) 0"
definition rule_group :: "ModelCustomRule \<Rightarrow> string" where "rule_group r = nullish (cr_group r) UNGROUPED"

definition sortedFromProps :: "ModelCustomRule list \<Rightarrow> ModelCustomRule list" where
  "sortedFromProps rules = js_sort (\<lambda>a b. rule_order a \<le> rule_order b) rules"

text \<open>The registry's names first, then the labels only rules carry, in the locale's order \<open>le\<close>.\<close>

definition derivedGroupNames ::
  "(string \<Rightarrow> string \<Rightarrow> bool) \<Rightarrow> ModelCustomRule list \<Rightarrow> string list \<Rightarrow> string list" where
  "derivedGroupNames le localRules groupOrder =
     (let ordered = dedup_by (\<lambda>n. n) [''''] groupOrder;
          labelOnly = dedup_by (\<lambda>n. n) ('''' # ordered) (map rule_group localRules)
      in ordered @ js_sort le labelOnly)"

definition sections :: "ModelCustomRule list \<Rightarrow> string list \<Rightarrow> (string \<times> ModelCustomRule list) list" where
  "sections localRules groupNames =
     (let items = (\<lambda>g. filter (\<lambda>r. rule_group r = g) localRules)
      in (UNGROUPED, items UNGROUPED) # map (\<lambda>g. (g, items g)) groupNames)"

text \<open>The rows of a section: a page of them, and the dragged one when it lies beyond.\<close>

definition visible_rows :: "nat \<Rightarrow> string option \<Rightarrow> ModelCustomRule list \<Rightarrow> ModelCustomRule list" where
  "visible_rows limit activeId items =
     (let visible = take limit items
      in case activeId of
           None \<Rightarrow> visible
         | Some i \<Rightarrow>
             if truthy_str activeId \<and> \<not> list_ex (\<lambda>r. cr_id r = i) visible
             then visible @ (case find (\<lambda>r. cr_id r = i) items of Some r \<Rightarrow> [r] | None \<Rightarrow> [])
             else visible)"

definition groupOf :: "ModelCustomRule list \<Rightarrow> string \<Rightarrow> string" where
  "groupOf localRules i = (case find (\<lambda>r. cr_id r = i) localRules of Some r \<Rightarrow> rule_group r | None \<Rightarrow> UNGROUPED)"

subsection \<open>The card's state and handlers\<close>

datatype card_call =
    OnReorder "string list"
  | OnMoveRule "string list" string string
  | OnReorderGroups "string list"
  | OnCreateGroup string
  | OnDeleteGroup string

record card =
  kd_rules :: "ModelCustomRule list"
  kd_local :: "ModelCustomRule list"
  kd_groups :: "string list"
  kd_activeId :: "string option"
  kd_activeGroup :: "string option"
  kd_creating :: bool
  kd_pending :: "string option"
  kd_toDelete :: "string option"
  kd_collapsed :: "string list"
  kd_calls :: "card_call list"

definition call_out :: "card_call \<Rightarrow> card \<Rightarrow> card" where
  "call_out c k = k\<lparr>kd_calls := kd_calls k @ [c]\<rparr>"

text \<open>New props: the effects reset the local copies of the rules and of the group order.\<close>

definition props_changed ::
  "(string \<Rightarrow> string \<Rightarrow> bool) \<Rightarrow> ModelCustomRule list \<Rightarrow> string list \<Rightarrow> card \<Rightarrow> card" where
  "props_changed le rules groupOrder k =
     k\<lparr>kd_rules := rules, kd_local := sortedFromProps rules,
       kd_groups := derivedGroupNames le (sortedFromProps rules) groupOrder\<rparr>"

definition handleDragStart :: "string \<Rightarrow> card \<Rightarrow> card" where
  "handleDragStart i k =
     (if isGroupSortId i then k\<lparr>kd_activeGroup := Some (groupFromSortId i)\<rparr> else k\<lparr>kd_activeId := Some i\<rparr>)"

fun findIndex :: "('a \<Rightarrow> bool) \<Rightarrow> 'a list \<Rightarrow> nat option" where
  "findIndex P [] = None"
| "findIndex P (x # xs) = (if P x then Some 0 else map_option Suc (findIndex P xs))"

definition splice_in :: "nat \<Rightarrow> 'a \<Rightarrow> 'a list \<Rightarrow> 'a list" where
  "splice_in i x xs = take i xs @ x # drop i xs"

definition last_of_group :: "string \<Rightarrow> ModelCustomRule list \<Rightarrow> nat" where
  "last_of_group g rules =
     foldl (\<lambda>n (i, r). if rule_group r = g then Suc i else n) 0 (enumerate 0 rules)"

text \<open>The live move of \<open>handleDragOver\<close> on the local rules.\<close>

definition move_over :: "string \<Rightarrow> string \<Rightarrow> string \<Rightarrow> ModelCustomRule list \<Rightarrow> ModelCustomRule list" where
  "move_over activeKey overKey targetGroup prev =
     (case findIndex (\<lambda>r. cr_id r = activeKey) prev of
        None \<Rightarrow> prev
      | Some activeIdx \<Rightarrow>
          let rest = take activeIdx prev @ drop (Suc activeIdx) prev;
              relabelled = (prev ! activeIdx)\<lparr>cr_group := Some targetGroup\<rparr>;
              insertIdx =
                (if isGroupDropId overKey then last_of_group targetGroup rest
                 else nullish (findIndex (\<lambda>r. cr_id r = overKey) rest) (length rest))
          in splice_in insertIdx relabelled rest)"

definition handleDragOver :: "string \<Rightarrow> string option \<Rightarrow> card \<Rightarrow> card" where
  "handleDragOver activeKey over k =
     (case over of
        None \<Rightarrow> k
      | Some overKey \<Rightarrow>
          if isGroupSortId activeKey \<or> overKey = NEW_GROUP_ZONE then k
          else
            let targetGroup = (if isGroupDropId overKey then groupFromDropId overKey else groupOf (kd_local k) overKey)
            in if targetGroup = groupOf (kd_local k) activeKey then k
               else k\<lparr>kd_local := move_over activeKey overKey targetGroup (kd_local k)\<rparr>)"

type_synonym 'a array_move = "'a list \<Rightarrow> nat \<Rightarrow> nat \<Rightarrow> 'a list"

definition drop_group :: "string array_move \<Rightarrow> string \<Rightarrow> string option \<Rightarrow> card \<Rightarrow> card" where
  "drop_group arrayMove activeKey over k0 =
     (let k = k0\<lparr>kd_activeGroup := None\<rparr>
      in case over of
           None \<Rightarrow> k
         | Some overKey \<Rightarrow>
             if \<not> isGroupSortId overKey \<or> groupFromSortId activeKey = groupFromSortId overKey then k
             else
               (case (findIndex (\<lambda>n. n = groupFromSortId activeKey) (kd_groups k),
                      findIndex (\<lambda>n. n = groupFromSortId overKey) (kd_groups k)) of
                  (Some oldIndex, Some newIndex) \<Rightarrow>
                    if oldIndex = newIndex then k
                    else let nextOrder = arrayMove (kd_groups k) oldIndex newIndex
                         in call_out (OnReorderGroups nextOrder) (k\<lparr>kd_groups := nextOrder\<rparr>)
                | _ \<Rightarrow> k))"

definition drop_rules ::
  "ModelCustomRule array_move \<Rightarrow> string \<Rightarrow> string \<Rightarrow> ModelCustomRule list \<Rightarrow> ModelCustomRule list" where
  "drop_rules arrayMove activeKey overKey localRules =
     (if \<not> isGroupDropId overKey \<and> activeKey \<noteq> overKey then
        (case (findIndex (\<lambda>r. cr_id r = activeKey) localRules, findIndex (\<lambda>r. cr_id r = overKey) localRules) of
           (Some oldIndex, Some newIndex) \<Rightarrow>
             if oldIndex = newIndex then localRules else arrayMove localRules oldIndex newIndex
         | _ \<Rightarrow> localRules)
      else localRules)"

definition reveal :: "string \<Rightarrow> string list \<Rightarrow> string list" where
  "reveal g collapsed = filter (\<lambda>n. n \<noteq> g) collapsed"

definition drop_rule :: "ModelCustomRule array_move \<Rightarrow> string \<Rightarrow> string option \<Rightarrow> card \<Rightarrow> card" where
  "drop_rule arrayMove activeKey over k0 =
     (let k = k0\<lparr>kd_activeId := None\<rparr>
      in case over of
           None \<Rightarrow> k\<lparr>kd_local := sortedFromProps (kd_rules k)\<rparr>
         | Some overKey \<Rightarrow>
             if overKey = NEW_GROUP_ZONE
             then k\<lparr>kd_local := sortedFromProps (kd_rules k), kd_pending := Some activeKey, kd_creating := True\<rparr>
             else
               let nxt = drop_rules arrayMove activeKey overKey (kd_local k);
                   k1 = k\<lparr>kd_local := nxt\<rparr>;
                   originalGroup = groupOf (kd_rules k) activeKey;
                   finalGroup = groupOf nxt activeKey;
                   orderedIds = map cr_id nxt
               in if finalGroup \<noteq> originalGroup
                  then call_out (OnMoveRule orderedIds activeKey finalGroup)
                         (if finalGroup \<noteq> UNGROUPED then k1\<lparr>kd_collapsed := reveal finalGroup (kd_collapsed k1)\<rparr> else k1)
                  else if js_join ''|'' orderedIds \<noteq> js_join ''|'' (map cr_id (sortedFromProps (kd_rules k)))
                       then call_out (OnReorder orderedIds) k1
                       else k1)"

definition handleDragEnd ::
  "ModelCustomRule array_move \<Rightarrow> string array_move \<Rightarrow> string \<Rightarrow> string option \<Rightarrow> card \<Rightarrow> card" where
  "handleDragEnd moveRules moveNames activeKey over k =
     (if isGroupSortId activeKey then drop_group moveNames activeKey over k
      else drop_rule moveRules activeKey over k)"

definition confirmNewGroup :: "string \<Rightarrow> card \<Rightarrow> card" where
  "confirmNewGroup name k =
     (let k1 = (if truthy_str (kd_pending k)
                then (call_out (OnMoveRule (map cr_id (kd_local k)) (the (kd_pending k)) name) k)\<lparr>kd_pending := None\<rparr>
                else call_out (OnCreateGroup name) k)
      in k1\<lparr>kd_creating := False\<rparr>)"

definition cancelNewGroup :: "card \<Rightarrow> card" where
  "cancelNewGroup k = k\<lparr>kd_creating := False, kd_pending := None\<rparr>"

definition confirmDeleteGroup :: "card \<Rightarrow> card" where
  "confirmDeleteGroup k =
     (case kd_toDelete k of None \<Rightarrow> k | Some g \<Rightarrow> (call_out (OnDeleteGroup g) k))\<lparr>kd_toDelete := None\<rparr>"

definition toggleCollapse :: "string \<Rightarrow> card \<Rightarrow> card" where
  "toggleCollapse name k =
     (let c = kd_collapsed k
      in k\<lparr>kd_collapsed := (if name \<in> set c then filter (\<lambda>n. n \<noteq> name) c else c @ [name])\<rparr>)"

subsection \<open>Group names in request bodies\<close>

definition pointer_escape :: "char \<Rightarrow> string" where
  "pointer_escape c = (if c = CHR ''~'' then ''~0'' else if c = CHR ''/'' then ''~1'' else [c])"

text \<open>Replacing every \<open>~\<close> first and every \<open>/\<close> then, as the two calls of \<open>replace\<close> do.\<close>

definition replace_char :: "char \<Rightarrow> string \<Rightarrow> string \<Rightarrow> string" where
  "replace_char c by s = concat (map (\<lambda>x. if x = c then by else [x]) s)"

definition toPointer :: "string \<Rightarrow> string" where
  "toPointer name = CHR ''/'' # replace_char (CHR ''/'') ''~1'' (replace_char (CHR ''~'') ''~0'' name)"

fun ReplaceAll2 :: "char \<Rightarrow> char \<Rightarrow> char \<Rightarrow> string \<Rightarrow> string" where
  "ReplaceAll2 a b r (x # y # s) =
     (if x = a \<and> y = b then r # ReplaceAll2 a b r s else x # ReplaceAll2 a b r (y # s))"
| "ReplaceAll2 a b r s = s"

definition decodeJSONPointerSegment :: "string \<Rightarrow> string" where
  "decodeJSONPointerSegment pointer =
     (let seg = (if js_startsWith pointer ''/'' then tl pointer else pointer)
      in ReplaceAll2 (CHR ''~'') (CHR ''0'') (CHR ''~'') (ReplaceAll2 (CHR ''~'') (CHR ''1'') (CHR ''/'') seg))"

subsection \<open>The group registry (api/model/custom_rule.go)\<close>

definition group_list :: "ModelCustomRuleGroups \<Rightarrow> string \<Rightarrow> ModelCustomRuleGroup list" where
  "group_list g action =
     (if action = ''block'' then nullish (gs_block g) [] else if action = ''allow'' then nullish (gs_allow g) [] else [])"

definition assign :: "string \<Rightarrow> ModelCustomRuleGroup list \<Rightarrow> ModelCustomRuleGroups \<Rightarrow> ModelCustomRuleGroups" where
  "assign action l g =
     (let v = (if l = [] then None else Some l)
      in if action = ''block'' then g\<lparr>gs_block := v\<rparr> else if action = ''allow'' then g\<lparr>gs_allow := v\<rparr> else g)"

text \<open>The operations on one list; the registry applies them to the list of the action.\<close>

fun upsert_list :: "string \<Rightarrow> string \<Rightarrow> ModelCustomRuleGroup list \<Rightarrow> ModelCustomRuleGroup list" where
  "upsert_list name comment [] = [\<lparr>cg_comment = Some comment, cg_name = name\<rparr>]"
| "upsert_list name comment (g # gs) =
     (if cg_name g = name then g\<lparr>cg_comment := Some comment\<rparr> # gs else g # upsert_list name comment gs)"

definition remove_list :: "string \<Rightarrow> ModelCustomRuleGroup list \<Rightarrow> ModelCustomRuleGroup list" where
  "remove_list name l = filter (\<lambda>g. cg_name g \<noteq> name) l"

definition rename_list :: "string \<Rightarrow> string \<Rightarrow> ModelCustomRuleGroup list \<Rightarrow> ModelCustomRuleGroup list" where
  "rename_list from to l =
     (if from = to then l
      else
        let out = filter (\<lambda>g. cg_name g \<noteq> from) l;
            fromComment = foldl (\<lambda>c g. if cg_name g = from then nullish (cg_comment g) '''' else c) '''' l;
            hasTo = list_ex (\<lambda>g. cg_name g = to) l
        in if hasTo then out else out @ [\<lparr>cg_comment = Some fromComment, cg_name = to\<rparr>])"

definition reorder_list :: "string list \<Rightarrow> ModelCustomRuleGroup list \<Rightarrow> ModelCustomRuleGroup list" where
  "reorder_list orderedNames l =
     (let byName = map_of (rev (map (\<lambda>g. (cg_name g, g)) l));
          placed = List.map_filter byName (dedup_by (\<lambda>n. n) [] orderedNames)
      in placed @ dedup_by cg_name (map cg_name placed) l)"

definition Upsert :: "string \<Rightarrow> string \<Rightarrow> string \<Rightarrow> ModelCustomRuleGroups \<Rightarrow> ModelCustomRuleGroups" where
  "Upsert action name comment g = assign action (upsert_list name comment (group_list g action)) g"

definition Remove :: "string \<Rightarrow> string \<Rightarrow> ModelCustomRuleGroups \<Rightarrow> ModelCustomRuleGroups" where
  "Remove action name g = assign action (remove_list name (group_list g action)) g"

definition Rename :: "string \<Rightarrow> string \<Rightarrow> string \<Rightarrow> ModelCustomRuleGroups \<Rightarrow> ModelCustomRuleGroups" where
  "Rename action from to g = (if from = to then g else assign action (rename_list from to (group_list g action)) g)"

definition Reorder :: "string \<Rightarrow> string list \<Rightarrow> ModelCustomRuleGroups \<Rightarrow> ModelCustomRuleGroups" where
  "Reorder action orderedNames g =
     (if group_list g action = [] then g else assign action (reorder_list orderedNames (group_list g action)) g)"

subsection \<open>The API's operations (custom_rules.go)\<close>

definition maxGroupNameLen :: nat where "maxGroupNameLen = 64"

datatype group_op = GAdd | GReplace | GRemove | GMove

record CustomRuleGroupUpdate =
  gu_operation :: group_op
  gu_action :: string
  gu_path :: string
  gu_from :: string
  gu_value :: "string option"

text \<open>A profile's rules and groups on the server.\<close>

record grouped =
  gp_rules :: "ModelCustomRule list"
  gp_groups :: ModelCustomRuleGroups

definition ReassignCustomRuleGroup :: "string \<Rightarrow> string \<Rightarrow> string \<Rightarrow> ModelCustomRule list \<Rightarrow> ModelCustomRule list" where
  "ReassignCustomRuleGroup action from to rules =
     map (\<lambda>r. if cr_group r = Some from \<and> cr_action r = action then r\<lparr>cr_group := Some to\<rparr> else r) rules"

definition bad_op :: thrown where "bad_op = api_error 400 ''invalid custom rule value syntax''"

text \<open>One operation: the updated profile, or the error that ends the batch. A relabelling is stored at once.\<close>

definition apply_op :: "CustomRuleGroupUpdate \<Rightarrow> grouped \<Rightarrow> thrown + grouped" where
  "apply_op u p =
     (let name = decodeJSONPointerSegment (gu_path u); from = decodeJSONPointerSegment (gu_from u); a = gu_action u
      in case gu_operation u of
           GMove \<Rightarrow>
             if from = [] \<or> name = [] \<or> length name > maxGroupNameLen then Inl bad_op
             else if from = name then Inr p
             else Inr (p\<lparr>gp_rules := ReassignCustomRuleGroup a from name (gp_rules p),
                         gp_groups := Rename a from name (gp_groups p)\<rparr>)
         | GRemove \<Rightarrow>
             if name = [] then Inl bad_op
             else Inr (p\<lparr>gp_rules := ReassignCustomRuleGroup a name '''' (gp_rules p),
                         gp_groups := Remove a name (gp_groups p)\<rparr>)
         | _ \<Rightarrow>
             if name = [] \<or> length name > maxGroupNameLen then Inl bad_op
             else Inr (p\<lparr>gp_groups := Upsert a name (nullish (gu_value u) '''') (gp_groups p)\<rparr>))"

text \<open>
  The batch: the request's tags, then the operations in order. On an error the registry of the
  profile is not written, while the relabellings before it are.
\<close>

fun apply_ops :: "CustomRuleGroupUpdate list \<Rightarrow> grouped \<Rightarrow> thrown option \<times> grouped" where
  "apply_ops [] p = (None, p)"
| "apply_ops (u # us) p = (case apply_op u p of Inl e \<Rightarrow> (Some e, p) | Inr p' \<Rightarrow> apply_ops us p')"

definition tags_ok :: "CustomRuleGroupUpdate \<Rightarrow> bool" where
  "tags_ok u \<longleftrightarrow> gu_action u \<in> {''block'', ''allow''} \<and> js_startsWith (gu_path u) ''/'' \<and> length (gu_path u) \<le> 130 \<and>
     (gu_from u = [] \<or> js_startsWith (gu_from u) ''/'') \<and> length (gu_from u) \<le> 130 \<and>
     (case gu_value u of None \<Rightarrow> True | Some v \<Rightarrow> length v \<le> 80)"

definition ApplyCustomRuleGroupOps :: "CustomRuleGroupUpdate list \<Rightarrow> grouped \<Rightarrow> thrown option \<times> grouped" where
  "ApplyCustomRuleGroupOps us p =
     (if us = [] \<or> length us > 50 \<or> \<not> list_all tags_ok us then (Some (api_error 400 ''invalid request body''), p)
      else case apply_ops us p of
        (Some e, p') \<Rightarrow> (Some e, p'\<lparr>gp_groups := gp_groups p\<rparr>)
      | (None, p') \<Rightarrow> (None, p'))"

definition idToOrder :: "string list \<Rightarrow> string \<rightharpoonup> nat" where
  "idToOrder orderedIds = map_of (zip orderedIds [0..<length orderedIds])"

definition ReorderCustomRules :: "string list \<Rightarrow> ModelCustomRule list \<Rightarrow> thrown + ModelCustomRule list" where
  "ReorderCustomRules orderedIds rules =
     (if orderedIds = [] \<or> 10000 < length orderedIds \<or> [] \<in> set orderedIds
      then Inl (api_error 400 ''invalid request body'')
      else if \<not> set orderedIds \<subseteq> cr_id ` set rules then Inl (api_error 404 ''resource not found'')
      else Inr (map (\<lambda>r. case idToOrder orderedIds (cr_id r) of
                           Some i \<Rightarrow> r\<lparr>cr_order := Some (int i)\<rparr> | None \<Rightarrow> r) rules))"

definition ReorderCustomRuleGroups :: "string \<Rightarrow> string list \<Rightarrow> grouped \<Rightarrow> thrown option \<times> grouped" where
  "ReorderCustomRuleGroups action orderedNames p =
     (if action \<notin> {''block'', ''allow''} \<or> 100 < length orderedNames \<or>
         list_ex (\<lambda>n. n = [] \<or> 64 < length n) orderedNames
      then (Some (api_error 400 ''invalid request body''), p)
      else (None, p\<lparr>gp_groups := Reorder action orderedNames (gp_groups p)\<rparr>))"


subsection \<open>The page's handlers (MainContentSection.tsx)\<close>

record groups_page =
  gg_profile :: "string option"
  gg_store :: grouped
  gg_server :: grouped
  gg_toasts :: "string list"

definition gg_refetch :: "groups_page \<Rightarrow> groups_page" where
  "gg_refetch st = st\<lparr>gg_store := gg_server st\<rparr>"

definition gg_toast :: "string \<Rightarrow> groups_page \<Rightarrow> groups_page" where
  "gg_toast t st = st\<lparr>gg_toasts := gg_toasts st @ [t]\<rparr>"

text \<open>An error shows its message and reads the profile back, unless that request is lost as well.\<close>

definition gg_revert :: "(nat \<Rightarrow> bool) \<Rightarrow> nat \<Rightarrow> thrown \<Rightarrow> string \<Rightarrow> groups_page \<Rightarrow> groups_page" where
  "gg_revert fails i e fallback st =
     (let s = gg_toast (formatApiError e fallback) st in if fails i then s else gg_refetch s)"

definition ids_by_order :: "string \<Rightarrow> ModelCustomRule list \<Rightarrow> string list" where
  "ids_by_order action rules = map cr_id (sortedFromProps (filter (\<lambda>r. cr_action r = action) rules))"

definition fullOrder :: "RuleList \<Rightarrow> string list \<Rightarrow> ModelCustomRule list \<Rightarrow> string list" where
  "fullOrder tab orderedIdsForTab rules =
     (if tab = Denylist then orderedIdsForTab else ids_by_order ''block'' rules) @
     (if tab = Allowlist then orderedIdsForTab else ids_by_order ''allow'' rules)"

definition handleReorder :: "(nat \<Rightarrow> bool) \<Rightarrow> RuleList \<Rightarrow> string list \<Rightarrow> groups_page \<Rightarrow> groups_page" where
  "handleReorder fails tab orderedIdsForTab st =
     (if \<not> truthy_str (gg_profile st) then st
      else if fails 0 then gg_revert fails 1 network_error ''Failed to reorder rules'' st
      else case ReorderCustomRules (fullOrder tab orderedIdsForTab (gp_rules (gg_store st))) (gp_rules (gg_server st)) of
        Inl e \<Rightarrow> gg_revert fails 1 e ''Failed to reorder rules'' st
      | Inr rules \<Rightarrow>
          let sv = st\<lparr>gg_server := (gg_server st)\<lparr>gp_rules := rules\<rparr>\<rparr>
          in if fails 1 then gg_revert fails 2 network_error ''Failed to reorder rules'' sv else gg_refetch sv)"

definition group_patch :: "string \<Rightarrow> UpdateProfileCustomRuleBody" where
  "group_patch g = \<lparr>up_action = None, up_group = Some g, up_note = None, up_value = None\<rparr>"

definition handleMoveRule ::
  "rule_checks \<Rightarrow> bool \<Rightarrow> (nat \<Rightarrow> bool) \<Rightarrow> RuleList \<Rightarrow> string list \<Rightarrow> string \<Rightarrow> string \<Rightarrow> groups_page \<Rightarrow> groups_page" where
  "handleMoveRule ck exact fails tab orderedIdsForTab ruleId newGroup st =
     (if \<not> truthy_str (gg_profile st) then st
      else
        let order = fullOrder tab orderedIdsForTab (gp_rules (gg_store st)); msg = ''Failed to move rule''
        in if fails 0 then gg_revert fails 1 network_error msg st
           else case UpdateCustomRule ck exact ruleId (group_patch newGroup) (gp_rules (gg_server st)) of
             Inl e \<Rightarrow> gg_revert fails 1 e msg st
           | Inr rules \<Rightarrow>
               let s1 = st\<lparr>gg_server := (gg_server st)\<lparr>gp_rules := rules\<rparr>\<rparr>
               in if fails 1 then gg_revert fails 2 network_error msg s1
                  else case ReorderCustomRules order rules of
                    Inl e \<Rightarrow> gg_revert fails 2 e msg s1
                  | Inr rules' \<Rightarrow>
                      let s2 = s1\<lparr>gg_server := (gg_server s1)\<lparr>gp_rules := rules'\<rparr>\<rparr>
                      in if fails 2 then gg_revert fails 3 network_error msg s2 else gg_refetch s2)"

definition applyGroupOps ::
  "(nat \<Rightarrow> bool) \<Rightarrow> CustomRuleGroupUpdate list \<Rightarrow> string \<Rightarrow> string option \<Rightarrow> groups_page \<Rightarrow> groups_page" where
  "applyGroupOps fails ops failMsg successMsg st =
     (if \<not> truthy_str (gg_profile st) then st
      else if fails 0 then gg_toast (formatApiError network_error failMsg) st
      else case ApplyCustomRuleGroupOps ops (gg_server st) of
        (Some e, p) \<Rightarrow> gg_toast (formatApiError e failMsg) (st\<lparr>gg_server := p\<rparr>)
      | (None, p) \<Rightarrow>
          let sv = st\<lparr>gg_server := p\<rparr>
          in if fails 1 then gg_toast (formatApiError network_error failMsg) sv
             else case successMsg of None \<Rightarrow> gg_refetch sv | Some m \<Rightarrow> gg_toast m (gg_refetch sv))"

definition handleGroupNote :: "(nat \<Rightarrow> bool) \<Rightarrow> string \<Rightarrow> string \<Rightarrow> string option \<Rightarrow> groups_page \<Rightarrow> groups_page" where
  "handleGroupNote fails action g note st =
     applyGroupOps fails
       [\<lparr>gu_operation = GReplace, gu_action = action, gu_path = toPointer g, gu_from = '''', gu_value = Some (nullish note '''')\<rparr>]
       ''Failed to save group note'' None st"

definition handleCreateGroup :: "(nat \<Rightarrow> bool) \<Rightarrow> string \<Rightarrow> string \<Rightarrow> groups_page \<Rightarrow> groups_page" where
  "handleCreateGroup fails action name st =
     applyGroupOps fails
       [\<lparr>gu_operation = GAdd, gu_action = action, gu_path = toPointer name, gu_from = '''', gu_value = Some ''''\<rparr>]
       ''Failed to create group'' None st"

definition handleRenameGroup :: "(nat \<Rightarrow> bool) \<Rightarrow> string \<Rightarrow> string \<Rightarrow> string \<Rightarrow> groups_page \<Rightarrow> groups_page" where
  "handleRenameGroup fails action from to st =
     applyGroupOps fails
       [\<lparr>gu_operation = GMove, gu_action = action, gu_path = toPointer to, gu_from = toPointer from, gu_value = None\<rparr>]
       ''Failed to rename group'' (Some (''Group renamed to \"'' @ to @ ''\".'')) st"

definition handleDeleteGroup :: "(nat \<Rightarrow> bool) \<Rightarrow> string \<Rightarrow> string \<Rightarrow> groups_page \<Rightarrow> groups_page" where
  "handleDeleteGroup fails action name st =
     applyGroupOps fails
       [\<lparr>gu_operation = GRemove, gu_action = action, gu_path = toPointer name, gu_from = '''', gu_value = None\<rparr>]
       ''Failed to delete group'' (Some (''Group \"'' @ name @ ''\" deleted. Its rules moved to Ungrouped.'')) st"

definition handleReorderGroups :: "(nat \<Rightarrow> bool) \<Rightarrow> string \<Rightarrow> string list \<Rightarrow> groups_page \<Rightarrow> groups_page" where
  "handleReorderGroups fails action orderedNames st =
     (if \<not> truthy_str (gg_profile st) then st
      else if fails 0 then gg_revert fails 1 network_error ''Failed to reorder groups'' st
      else case ReorderCustomRuleGroups action orderedNames (gg_server st) of
        (Some e, p) \<Rightarrow> gg_revert fails 1 e ''Failed to reorder groups'' st
      | (None, p) \<Rightarrow>
          let sv = st\<lparr>gg_server := p\<rparr>
          in if fails 1 then gg_revert fails 2 network_error ''Failed to reorder groups'' sv else gg_refetch sv)"

text \<open>What the cards and the edit dialog are given.\<close>

definition toNoteMap :: "ModelCustomRuleGroup list \<Rightarrow> string \<rightharpoonup> string" where
  "toNoteMap l = map_of (rev (map (\<lambda>g. (cg_name g, nullish (cg_comment g) '''')) l))"

definition groupOrder :: "ModelCustomRuleGroups \<Rightarrow> string \<Rightarrow> string list" where
  "groupOrder g action = map cg_name (group_list g action)"

definition existingGroups :: "(string \<Rightarrow> string \<Rightarrow> bool) \<Rightarrow> ModelCustomRule option \<Rightarrow> grouped \<Rightarrow> string list" where
  "existingGroups le editingRule p =
     (case editingRule of
        None \<Rightarrow> []
      | Some e \<Rightarrow>
          if cr_action e \<notin> {''block'', ''allow''} then []
          else js_sort le (dedup_by (\<lambda>n. n) []
                 (filter (\<lambda>n. js_trim n \<noteq> []) (map rule_group (filter (\<lambda>r. cr_action r = cr_action e) (gp_rules p))) @
                  filter (\<lambda>n. js_trim n \<noteq> []) (groupOrder (gp_groups p) (cr_action e)))))"


text \<open>What a group header and the new-group field send: trimmed, and cut to the input's length.\<close>

definition typed_name :: "string \<Rightarrow> string" where "typed_name value = take 64 value"
definition typed_note :: "string \<Rightarrow> string" where "typed_note value = take 80 value"

definition commitNote :: "string \<Rightarrow> string option" where
  "commitNote noteDraft = (if js_trim noteDraft = [] then None else Some (js_trim noteDraft))"

definition commitName :: "string \<Rightarrow> string \<Rightarrow> string option" where
  "commitName nameDraft name =
     (let nxt = js_trim nameDraft in if nxt \<noteq> [] \<and> nxt \<noteq> name then Some nxt else None)"

subsection \<open>Pointers\<close>

lemma ReplaceAll2_other [simp]: "x \<noteq> a \<Longrightarrow> ReplaceAll2 a b r (x # s) = x # ReplaceAll2 a b r s"
  by (cases s) simp_all

lemma pointer_first_pass:
  "ReplaceAll2 (CHR ''~'') (CHR ''1'') (CHR ''/'') (concat (map pointer_escape name)) = replace_char (CHR ''~'') ''~0'' name"
  by (induction name) (simp_all add: pointer_escape_def replace_char_def)

lemma pointer_second_pass:
  "ReplaceAll2 (CHR ''~'') (CHR ''0'') (CHR ''~'') (replace_char (CHR ''~'') ''~0'' name) = name"
  by (induction name) (simp_all add: replace_char_def)

lemma toPointer_escape: "toPointer name = CHR ''/'' # concat (map pointer_escape name)"
proof -
  have "replace_char (CHR ''/'') ''~1'' (replace_char (CHR ''~'') ''~0'' name) = concat (map pointer_escape name)"
    by (induction name) (simp_all add: replace_char_def pointer_escape_def)
  then show ?thesis by (simp add: toPointer_def)
qed

lemma decode_toPointer [simp]: "decodeJSONPointerSegment (toPointer name) = name"
  by (simp add: toPointer_escape decodeJSONPointerSegment_def js_startsWith_def pointer_first_pass pointer_second_pass)

lemma decode_Nil [simp]: "decodeJSONPointerSegment [] = []"
  by (simp add: decodeJSONPointerSegment_def js_startsWith_def)

lemma toPointer_length: "length (toPointer name) \<le> 1 + 2 * length name"
proof -
  have "length (concat (map pointer_escape name)) \<le> 2 * length name"
    by (induction name) (auto simp: pointer_escape_def)
  then show ?thesis by (simp add: toPointer_escape)
qed

lemma toPointer_slash [simp]: "js_startsWith (toPointer name) ''/''"
  by (simp add: toPointer_def js_startsWith_def)

subsection \<open>The registry as a map from names to notes\<close>

datatype registry_op = OUpsert string string | ORemove string | ORename string string | OReorder "string list"

text \<open>What each operation promises.\<close>

fun map_step :: "(string \<rightharpoonup> string) \<Rightarrow> registry_op \<Rightarrow> (string \<rightharpoonup> string)" where
  "map_step m (OUpsert n c) = m(n \<mapsto> c)"
| "map_step m (ORemove n) = m(n := None)"
| "map_step m (ORename f t) =
     (if f = t then m
      else (m(f := None))(t \<mapsto> (case m t of Some c \<Rightarrow> c | None \<Rightarrow> nullish (m f) '''')))"
| "map_step m (OReorder ns) = m"

fun registry_step ::
  "(string \<Rightarrow> string \<Rightarrow> 'g \<Rightarrow> 'g) \<Rightarrow> (string \<Rightarrow> 'g \<Rightarrow> 'g) \<Rightarrow> (string \<Rightarrow> string \<Rightarrow> 'g \<Rightarrow> 'g) \<Rightarrow>
   (string list \<Rightarrow> 'g \<Rightarrow> 'g) \<Rightarrow> 'g \<Rightarrow> registry_op \<Rightarrow> 'g" where
  "registry_step upsert remove rename reorder g (OUpsert n c) = upsert n c g"
| "registry_step upsert remove rename reorder g (ORemove n) = remove n g"
| "registry_step upsert remove rename reorder g (ORename f t) = rename f t g"
| "registry_step upsert remove rename reorder g (OReorder ns) = reorder ns g"

locale registry =
  fixes note_of :: "'g \<Rightarrow> string \<rightharpoonup> string"
    and names :: "'g \<Rightarrow> string list"
    and upsert :: "string \<Rightarrow> string \<Rightarrow> 'g \<Rightarrow> 'g"
    and remove :: "string \<Rightarrow> 'g \<Rightarrow> 'g"
    and rename :: "string \<Rightarrow> string \<Rightarrow> 'g \<Rightarrow> 'g"
    and reorder :: "string list \<Rightarrow> 'g \<Rightarrow> 'g"
  assumes names_note_of: "set (names g) = dom (note_of g)"
    and upsert_law: "distinct (names g) \<Longrightarrow> note_of (upsert n c g) = (note_of g)(n \<mapsto> c) \<and> distinct (names (upsert n c g))"
    and remove_law: "distinct (names g) \<Longrightarrow> note_of (remove n g) = (note_of g)(n := None) \<and> distinct (names (remove n g))"
    and rename_law: "distinct (names g) \<Longrightarrow>
          note_of (rename f t g) = map_step (note_of g) (ORename f t) \<and> distinct (names (rename f t g))"
    and reorder_law: "distinct (names g) \<Longrightarrow> note_of (reorder ns g) = note_of g \<and> distinct (names (reorder ns g))"
begin

abbreviation "step \<equiv> registry_step upsert remove rename reorder"

lemma step_refines:
  "distinct (names g) \<Longrightarrow> note_of (step g op) = map_step (note_of g) op \<and> distinct (names (step g op))"
  by (cases op) (simp_all add: upsert_law remove_law rename_law reorder_law del: map_step.simps(3))

lemma run_refines:
  "distinct (names g) \<Longrightarrow>
     note_of (foldl step g ops) = foldl map_step (note_of g) ops \<and> distinct (names (foldl step g ops))"
  by (induction ops arbitrary: g) (simp_all add: step_refines)

lemma gone_after_rename: "distinct (names g) \<Longrightarrow> f \<noteq> t \<Longrightarrow> f \<notin> set (names (rename f t g)) \<and> t \<in> set (names (rename f t g))"
  by (simp add: names_note_of rename_law)

lemma gone_after_remove: "distinct (names g) \<Longrightarrow> n \<notin> set (names (remove n g))"
  by (simp add: names_note_of remove_law)

end


lemma toNoteMap_distinct:
  "distinct (map cg_name l) \<Longrightarrow> toNoteMap l = map_of (map (\<lambda>g. (cg_name g, nullish (cg_comment g) '''')) l)"
  unfolding toNoteMap_def by (rule map_of_inject_set [THEN iffD2]) (simp_all add: comp_def rev_map [symmetric])

lemma note_names: "set (map cg_name l) = dom (toNoteMap l)"
  by (simp add: toNoteMap_def dom_map_of_conv_image_fst image_image)

lemma upsert_names: "set (map cg_name (upsert_list n c l)) = insert n (set (map cg_name l))"
  by (induction l) auto

lemma upsert_distinct: "distinct (map cg_name l) \<Longrightarrow> distinct (map cg_name (upsert_list n c l))"
  using upsert_names by (induction l) auto

lemma upsert_notes:
  "distinct (map cg_name l) \<Longrightarrow>
     map_of (map (\<lambda>g. (cg_name g, nullish (cg_comment g) '''')) (upsert_list n c l)) =
       (map_of (map (\<lambda>g. (cg_name g, nullish (cg_comment g) '''')) l))(n \<mapsto> c)"
  by (induction l) (auto simp: fun_upd_twist)

lemma filter_notes:
  "map_of (map (\<lambda>g. (cg_name g, h g)) (filter (\<lambda>g. cg_name g \<noteq> n) l)) =
     (map_of (map (\<lambda>g. (cg_name g, h g)) l))(n := None)"
  by (induction l) (auto simp: fun_eq_iff)

lemma last_comment:
  "distinct (map cg_name l) \<Longrightarrow>
     foldl (\<lambda>c g. if cg_name g = f then nullish (cg_comment g) '''' else c) d l =
       nullish (map_of (map (\<lambda>g. (cg_name g, nullish (cg_comment g) '''')) l) f) d"
proof (induction l arbitrary: d)
  case (Cons g l)
  have "map_of (map (\<lambda>g. (cg_name g, nullish (cg_comment g) '''')) l) (cg_name g) = None"
    using Cons.prems by (auto simp: map_of_eq_None_iff)
  then show ?case using Cons by auto
qed simp

lemma has_name: "list_ex (\<lambda>g. cg_name g = t) l \<longleftrightarrow> map_of (map (\<lambda>g. (cg_name g, h g)) l) t \<noteq> None"
  by (auto simp: list_ex_iff map_of_eq_None_iff image_iff)

lemma append_note:
  "map_of (map (\<lambda>g. (cg_name g, nullish (cg_comment g) '''')) (l @ [\<lparr>cg_comment = Some c, cg_name = t\<rparr>])) =
     [t \<mapsto> c] ++ map_of (map (\<lambda>g. (cg_name g, nullish (cg_comment g) '''')) l)"
  by simp

lemma rename_notes:
  assumes "distinct (map cg_name l)"
  shows "toNoteMap (rename_list f t l) = map_step (toNoteMap l) (ORename f t) \<and> distinct (map cg_name (rename_list f t l))"
proof (cases "f = t")
  case False
  let ?m = "map_of (map (\<lambda>g. (cg_name g, nullish (cg_comment g) '''')) l)"
  let ?out = "filter (\<lambda>g. cg_name g \<noteq> f) l"
  have out: "distinct (map cg_name ?out)" using assms by (rule distinct_map_filter)
  note com = last_comment [OF assms, of f "''''"]
  show ?thesis
  proof (cases "?m t")
    case None
    then have t: "t \<notin> cg_name ` set l" by (simp add: map_of_eq_None_iff image_image)
    have eq: "rename_list f t l = ?out @ [\<lparr>cg_comment = Some (nullish (?m f) ''''), cg_name = t\<rparr>]"
      using False None com has_name [of t l "\<lambda>g. nullish (cg_comment g) ''''"] by (simp add: rename_list_def Let_def)
    have d: "distinct (map cg_name (rename_list f t l))" unfolding eq using out t by auto
    have "toNoteMap (rename_list f t l) = (?m(f := None))(t \<mapsto> nullish (?m f) '''')"
      unfolding toNoteMap_distinct [OF d] unfolding eq append_note filter_notes
      using None by (auto simp: fun_eq_iff map_add_def split: option.splits)
    then show ?thesis using d False None by (simp add: toNoteMap_distinct [OF assms])
  next
    case (Some c)
    have eq: "rename_list f t l = ?out"
      using False Some com has_name [of t l "\<lambda>g. nullish (cg_comment g) ''''"] by (simp add: rename_list_def Let_def)
    show ?thesis
      using out False Some
      by (simp add: eq toNoteMap_distinct assms filter_notes) (auto simp: fun_eq_iff)
  qed
qed (simp add: rename_list_def assms)


lemma reorder_names:
  assumes "distinct (map cg_name l)"
  shows "set (reorder_list ns l) = set l \<and> distinct (map cg_name (reorder_list ns l))"
proof -
  define byName where "byName = map_of (rev (map (\<lambda>g. (cg_name g, g)) l))"
  define placed where "placed = List.map_filter byName (dedup_by (\<lambda>n. n) [] ns)"
  have hit: "byName n = Some g \<longleftrightarrow> g \<in> set l \<and> cg_name g = n" for n g
    using assms by (auto simp: byName_def map_of_eq_Some_iff rev_map [symmetric] comp_def)
  have names: "map cg_name (List.map_filter byName ms) = filter (\<lambda>n. byName n \<noteq> None) ms" for ms
  proof (induction ms)
    case (Cons m ms)
    have "byName m = Some g \<Longrightarrow> cg_name g = m" for g using hit by simp
    then show ?case using Cons by (cases "byName m") (simp_all add: List.map_filter_simps)
  qed (simp add: List.map_filter_simps)
  have sub: "set placed \<subseteq> set l"
  proof
    fix g assume "g \<in> set placed"
    then obtain n where "byName n = Some g" by (auto simp: placed_def List.map_filter_def)
    then show "g \<in> set l" by (simp add: hit)
  qed
  have d: "distinct (map cg_name placed)" by (simp add: placed_def names dedup_by_id_distinct)
  let ?rest = "dedup_by cg_name (map cg_name placed) l"
  have rest: "cg_name ` set ?rest = cg_name ` set l - cg_name ` set placed" by (simp add: dedup_by_keys)
  have "set l \<subseteq> set placed \<union> set ?rest"
  proof
    fix g assume g: "g \<in> set l"
    then have "cg_name g \<in> cg_name ` set placed \<union> cg_name ` set ?rest" by (simp add: rest)
    then obtain g' where "g' \<in> set placed \<union> set ?rest" "cg_name g = cg_name g'" by auto
    then show "g \<in> set placed \<union> set ?rest"
      using g sub dedup_by_subset [of cg_name _ l] same_key [OF g _ assms] by (metis UnE subsetD)
  qed
  then have "set (placed @ ?rest) = set l" using sub dedup_by_subset [of cg_name _ l] by auto
  moreover have "distinct (map cg_name (placed @ ?rest))" using d rest by (auto simp: dedup_by_distinct)
  ultimately show ?thesis by (simp add: reorder_list_def Let_def byName_def placed_def)
qed

lemma reorder_notes:
  assumes "distinct (map cg_name l)"
  shows "toNoteMap (reorder_list ns l) = toNoteMap l"
proof -
  have d: "distinct (map cg_name (reorder_list ns l))" and s: "set (reorder_list ns l) = set l"
    using reorder_names [OF assms] by simp_all
  show ?thesis
    unfolding toNoteMap_distinct [OF assms] toNoteMap_distinct [OF d]
    by (rule map_of_inject_set [THEN iffD2]) (use d assms s in \<open>simp_all add: comp_def\<close>)
qed

interpretation reg: registry toNoteMap "map cg_name" upsert_list remove_list rename_list reorder_list
proof
  fix l :: "ModelCustomRuleGroup list" and n c f t :: string and ns :: "string list"
  show "set (map cg_name l) = dom (toNoteMap l)" by (rule note_names)
  assume d: "distinct (map cg_name l)"
  show "toNoteMap (upsert_list n c l) = (toNoteMap l)(n \<mapsto> c) \<and> distinct (map cg_name (upsert_list n c l))"
    using d by (simp add: toNoteMap_distinct upsert_distinct upsert_notes)
  show "toNoteMap (remove_list n l) = (toNoteMap l)(n := None) \<and> distinct (map cg_name (remove_list n l))"
    using d by (simp add: toNoteMap_distinct remove_list_def distinct_map_filter filter_notes)
  show "toNoteMap (rename_list f t l) = map_step (toNoteMap l) (ORename f t) \<and> distinct (map cg_name (rename_list f t l))"
    using d by (rule rename_notes)
  show "toNoteMap (reorder_list ns l) = toNoteMap l \<and> distinct (map cg_name (reorder_list ns l))"
    using d reorder_names reorder_notes by blast
qed


lemma group_list_assign:
  "a \<in> {''block'', ''allow''} \<Longrightarrow> group_list (assign a l g) a = l"
  "b \<in> {''block'', ''allow''} \<Longrightarrow> b \<noteq> a \<Longrightarrow> group_list (assign a l g) b = group_list g b"
  by (auto simp: group_list_def assign_def)

text \<open>A group operation the API takes: the page then shows what the server holds.\<close>

lemma applyGroupOps_taken:
  assumes "truthy_str (gg_profile st)" "\<forall>i. \<not> fails i" "tags_ok u" "apply_op u (gg_server st) = Inr p"
  shows "gg_server (applyGroupOps fails [u] failMsg msg st) = p \<and> gg_store (applyGroupOps fails [u] failMsg msg st) = p"
  using assms by (auto simp: applyGroupOps_def ApplyCustomRuleGroupOps_def gg_refetch_def gg_toast_def Let_def split: option.splits)

lemma pointer_tags: "length name \<le> 64 \<Longrightarrow> length (toPointer name) \<le> 130"
  using toPointer_length [of name] by simp

definition label_view :: "ModelCustomRule \<Rightarrow> string \<times> string \<times> string \<times> string" where
  "label_view r = (cr_id r, cr_action r, cr_value r, rule_group r)"

lemma Reassign_view:
  assumes "from \<noteq> []"
  shows "map label_view (ReassignCustomRuleGroup a from to rules) =
     map (\<lambda>r. (cr_id r, cr_action r, cr_value r,
               if rule_group r = from \<and> cr_action r = a then to else rule_group r)) rules"
  using assms by (auto simp: ReassignCustomRuleGroup_def label_view_def rule_group_def nullish_def UNGROUPED_def split: option.splits)

lemma derived_names: "set (derivedGroupNames le rules order) = (set order \<union> rule_group ` set rules) - {''''}"
  by (auto simp: derivedGroupNames_def Let_def dedup_by_id_set)

lemma derived_distinct: "distinct (derivedGroupNames le rules order)"
  by (auto simp: derivedGroupNames_def Let_def dedup_by_id_distinct dedup_by_id_set)

lemma label_gone:
  assumes "map label_view rules' = map (\<lambda>r. (cr_id r, cr_action r, cr_value r,
      if rule_group r = from \<and> cr_action r = a then to else rule_group r)) rules" and "from \<noteq> to"
  shows "from \<notin> rule_group ` set (filter (\<lambda>r. cr_action r = a) rules')"
proof
  assume "from \<in> rule_group ` set (filter (\<lambda>r. cr_action r = a) rules')"
  then obtain r where r: "r \<in> set rules'" "cr_action r = a" "rule_group r = from" by auto
  then have "label_view r \<in> set (map label_view rules')" by simp
  then obtain q where "label_view r = (cr_id q, cr_action q, cr_value q,
      if rule_group q = from \<and> cr_action q = a then to else rule_group q)" unfolding assms(1) by auto
  then have a: "cr_action q = a"
    and e: "rule_group r = (if rule_group q = from \<and> cr_action q = a then to else rule_group q)"
    using r(2) by (simp_all add: label_view_def)
  then show False using r(3) assms(2) by (cases "rule_group q = from") simp_all
qed

subsection \<open>Properties of groups\<close>

text \<open>
  Fact (group_name_roundtrip). Whatever its characters, a group name reaches the API unchanged
  through the pointer of the request body, and a name of the accepted length fits the body's limit.
\<close>

theorem group_name_roundtrip:
  "decodeJSONPointerSegment (toPointer name) = name \<and> js_startsWith (toPointer name) ''/'' \<and>
   length (toPointer (typed_name name)) \<le> 130"
  by (simp add: pointer_tags typed_name_def)

text \<open>
  Property C7 (registry_refines_map). Under any sequence of operations the ordered registry behaves as a
  finite map from names to notes, which is how the app reads it, and never holds a name twice.
\<close>

theorem registry_refines_map:
  assumes "distinct (map cg_name l)"
  shows "toNoteMap (foldl (registry_step upsert_list remove_list rename_list reorder_list) l ops) =
           foldl map_step (toNoteMap l) ops \<and>
         distinct (map cg_name (foldl (registry_step upsert_list remove_list rename_list reorder_list) l ops))"
  using assms by (rule reg.run_refines)

text \<open>
  Fact (delete_group_clears). Deleting a group moves its rules, and no others, to Ungrouped, deletes
  no rule, leaves the other list's groups alone, and the group's section is gone from the page.
\<close>

theorem delete_group_clears:
  assumes "truthy_str (gg_profile st)" and "\<forall>i. \<not> fails i" and "action \<in> {''block'', ''allow''}"
    and "name \<noteq> []" "length name \<le> 64"
    and "distinct (map cg_name (group_list (gp_groups (gg_server st)) action))"
  defines "p' \<equiv> gg_store (handleDeleteGroup fails action name st)"
  shows "map label_view (gp_rules p') =
           map (\<lambda>r. (cr_id r, cr_action r, cr_value r,
                     if rule_group r = name \<and> cr_action r = action then '''' else rule_group r)) (gp_rules (gg_server st)) \<and>
         name \<notin> set (derivedGroupNames le (filter (\<lambda>r. cr_action r = action) (gp_rules p')) (groupOrder (gp_groups p') action)) \<and>
         (\<forall>b \<in> {''block'', ''allow''} - {action}. group_list (gp_groups p') b = group_list (gp_groups (gg_server st)) b)"
proof -
  let ?u = "\<lparr>gu_operation = GRemove, gu_action = action, gu_path = toPointer name, gu_from = '''', gu_value = None\<rparr>"
  let ?s = "gg_server st"
  have tags: "tags_ok ?u" using assms(3,5) by (simp add: tags_ok_def pointer_tags)
  have p': "p' = ?s\<lparr>gp_rules := ReassignCustomRuleGroup action name '''' (gp_rules ?s),
                   gp_groups := Remove action name (gp_groups ?s)\<rparr>"
    unfolding p'_def handleDeleteGroup_def
    by (rule applyGroupOps_taken [OF assms(1,2) tags, THEN conjunct2]) (simp add: apply_op_def assms(4))
  have view: "map label_view (gp_rules p') =
      map (\<lambda>r. (cr_id r, cr_action r, cr_value r, if rule_group r = name \<and> cr_action r = action then '''' else rule_group r))
        (gp_rules ?s)"
    using Reassign_view [OF assms(4)] by (simp add: p')
  have "name \<notin> set (groupOrder (gp_groups p') action)"
    using reg.gone_after_remove [OF assms(6), of name] assms(3)
    by (simp add: groupOrder_def p' Remove_def group_list_assign)
  then have "name \<notin> set (derivedGroupNames le (filter (\<lambda>r. cr_action r = action) (gp_rules p')) (groupOrder (gp_groups p') action))"
    using label_gone [OF view] assms(4) by (simp add: derived_names)
  moreover have "\<forall>b \<in> {''block'', ''allow''} - {action}. group_list (gp_groups p') b = group_list (gp_groups ?s) b"
    using group_list_assign(2) by (auto simp: p' Remove_def)
  ultimately show ?thesis using view by simp
qed

text \<open>
  Fact (rename_group_done). Renaming a group relabels exactly its rules, in its list only, puts the
  note under the new name unless that name already has one, and the old name's section is gone.
\<close>

theorem rename_group_done:
  assumes "truthy_str (gg_profile st)" and "\<forall>i. \<not> fails i" and "action \<in> {''block'', ''allow''}"
    and "old \<noteq> []" "length old \<le> 64" and "commitName draft old = Some new" "length new \<le> 64"
    and "distinct (map cg_name (group_list (gp_groups (gg_server st)) action))"
  defines "p' \<equiv> gg_store (handleRenameGroup fails action old new st)"
  shows "map label_view (gp_rules p') =
           map (\<lambda>r. (cr_id r, cr_action r, cr_value r,
                     if rule_group r = old \<and> cr_action r = action then new else rule_group r)) (gp_rules (gg_server st)) \<and>
         toNoteMap (group_list (gp_groups p') action) =
           map_step (toNoteMap (group_list (gp_groups (gg_server st)) action)) (ORename old new) \<and>
         old \<notin> set (derivedGroupNames le (filter (\<lambda>r. cr_action r = action) (gp_rules p')) (groupOrder (gp_groups p') action)) \<and>
         new \<in> set (groupOrder (gp_groups p') action)"
proof -
  let ?u = "\<lparr>gu_operation = GMove, gu_action = action, gu_path = toPointer new, gu_from = toPointer old, gu_value = None\<rparr>"
  let ?s = "gg_server st" and ?l = "group_list (gp_groups (gg_server st)) action"
  have new: "new \<noteq> []" "old \<noteq> new" using assms(6) by (auto simp: commitName_def Let_def split: if_splits)
  have tags: "tags_ok ?u" using assms(3,5,7) by (simp add: tags_ok_def pointer_tags)
  have p': "p' = ?s\<lparr>gp_rules := ReassignCustomRuleGroup action old new (gp_rules ?s),
                   gp_groups := Rename action old new (gp_groups ?s)\<rparr>"
    unfolding p'_def handleRenameGroup_def
    by (rule applyGroupOps_taken [OF assms(1,2) tags, THEN conjunct2])
       (use assms(4,7) new in \<open>simp add: apply_op_def maxGroupNameLen_def\<close>)
  have l: "group_list (gp_groups p') action = rename_list old new ?l"
    using assms(3) new by (simp add: p' Rename_def group_list_assign)
  have view: "map label_view (gp_rules p') =
      map (\<lambda>r. (cr_id r, cr_action r, cr_value r, if rule_group r = old \<and> cr_action r = action then new else rule_group r))
        (gp_rules ?s)"
    using Reassign_view [OF assms(4)] by (simp add: p')
  have names: "old \<notin> set (groupOrder (gp_groups p') action)" "new \<in> set (groupOrder (gp_groups p') action)"
    using reg.gone_after_rename [OF assms(8) new(2)] by (simp_all add: groupOrder_def l)
  have "old \<notin> set (derivedGroupNames le (filter (\<lambda>r. cr_action r = action) (gp_rules p')) (groupOrder (gp_groups p') action))"
    using label_gone [OF view new(2)] names(1) by (simp add: derived_names)
  then show ?thesis using view names(2) rename_notes [OF assms(8), of old new] by (simp add: l)
qed


subsection \<open>Orders\<close>

lemma insert_by_insort: "insert_by (\<lambda>a b. (f a :: int) \<le> f b) x ys = insort_key f x ys"
  by (induction ys) auto

lemma sortedFromProps_sort_key: "sortedFromProps rules = sort_key rule_order rules"
  unfolding sortedFromProps_def js_sort_def sort_key_def by (simp add: insert_by_insort cong: foldr_cong)

lemma mset_sortedFromProps [simp]: "mset (sortedFromProps rules) = mset rules"
  by (simp add: sortedFromProps_sort_key)

text \<open>Rules whose orders rank their ids like a list of these ids are shown in the order of the list.\<close>

lemma sorted_by_rank:
  assumes "mset (map cr_id rules) = mset ids" "\<forall>r \<in> set rules. rule_order r = rank (cr_id r)"
    and "sorted (map rank ids)" "inj_on rank (set ids)"
  shows "map cr_id (sortedFromProps rules) = ids"
proof -
  have "sortedFromProps rules = js_sort (\<lambda>a b. rank (cr_id a) \<le> rank (cr_id b)) rules"
    unfolding sortedFromProps_def by (rule js_sort_cong) (use assms(2) in simp)
  then have "map cr_id (sortedFromProps rules) = js_sort (\<lambda>a b. rank a \<le> rank b) (map cr_id rules)"
    using js_sort_map [of cr_id "\<lambda>a b. rank a \<le> rank b" rules] by simp
  also have "\<dots> = sort_key rank (map cr_id rules)"
    unfolding js_sort_def sort_key_def by (simp add: insert_by_insort cong: foldr_cong)
  also have "\<dots> = ids" by (rule sort_key_inj_key_eq) (use assms mset_eq_setD [OF assms(1)] in auto)
  finally show ?thesis .
qed

lemma idToOrder_nth: "distinct ids \<Longrightarrow> k < length ids \<Longrightarrow> idToOrder ids (ids ! k) = Some k"
  unfolding idToOrder_def by (rule map_of_is_SomeI) (auto simp: in_set_zip)

lemma idToOrder_dom: "idToOrder ids i = None \<longleftrightarrow> i \<notin> set ids"
  unfolding idToOrder_def map_of_eq_None_iff by (simp add: set_map [symmetric] del: set_map)

definition rank_in :: "string list \<Rightarrow> string \<Rightarrow> int" where
  "rank_in ids i = int (the (idToOrder ids i))"

lemma rank_in_map: "distinct ids \<Longrightarrow> map (rank_in ids) ids = map int [0..<length ids]"
  by (rule nth_equalityI) (simp_all add: rank_in_def idToOrder_nth)

lemma rank_in_part:
  assumes "distinct ids" "ids = xs @ ys @ zs"
  shows "sorted (map (rank_in ids) ys)" "inj_on (rank_in ids) (set ys)"
proof -
  have "sorted (map int [0..<length ids])" "distinct (map int [0..<length ids])"
    by (auto simp: sorted_iff_nth_mono distinct_map)
  then have "sorted (map (rank_in ids) ids)" "distinct (map (rank_in ids) ids)"
    by (simp_all only: rank_in_map [OF assms(1)])
  then have "sorted (map (rank_in ids) xs @ map (rank_in ids) ys @ map (rank_in ids) zs)"
    "distinct (map (rank_in ids) xs @ map (rank_in ids) ys @ map (rank_in ids) zs)"
    using assms(2) by simp_all
  then show "sorted (map (rank_in ids) ys)" "inj_on (rank_in ids) (set ys)"
    by (auto simp: sorted_append distinct_map)
qed

text \<open>The API's renumbering, seen by one list of the page.\<close>

lemma reorder_shown:
  assumes "ReorderCustomRules full rules = Inr rules'" "distinct full" "full = xs @ ids @ zs"
    and "mset (map cr_id (filter (\<lambda>r. cr_action r = a) rules)) = mset ids"
  shows "ids_by_order a rules' = ids"
proof -
  let ?upd = "\<lambda>r. case idToOrder full (cr_id r) of Some i \<Rightarrow> r\<lparr>cr_order := Some (int i)\<rparr> | None \<Rightarrow> r"
  have rules': "rules' = map ?upd rules" using assms(1) by (auto simp: ReorderCustomRules_def split: if_splits)
  have keep: "cr_action (?upd r) = cr_action r" "cr_id (?upd r) = cr_id r" for r by (simp_all split: option.splits)
  have f: "filter (\<lambda>r. cr_action r = a) rules' = map ?upd (filter (\<lambda>r. cr_action r = a) rules)"
    by (simp add: rules' filter_map comp_def keep)
  have ids: "mset (map cr_id (filter (\<lambda>r. cr_action r = a) rules')) = mset ids"
    using assms(4) by (simp add: f comp_def keep)
  have "rule_order (?upd r) = rank_in full (cr_id (?upd r))" if "r \<in> set (filter (\<lambda>r. cr_action r = a) rules)" for r
  proof -
    have "cr_id r \<in> set full" using mset_eq_setD [OF assms(4)] that assms(3) by auto
    then obtain i where "idToOrder full (cr_id r) = Some i" using idToOrder_dom by fastforce
    then show ?thesis by (simp add: rank_in_def rule_order_def)
  qed
  then have "\<forall>r \<in> set (filter (\<lambda>r. cr_action r = a) rules'). rule_order r = rank_in full (cr_id r)"
    unfolding f by auto
  with sorted_by_rank [OF ids] rank_in_part [OF assms(2,3)] show ?thesis
    unfolding ids_by_order_def by blast
qed

lemma mset_ids_by_order: "mset (ids_by_order a rules) = mset (map cr_id (filter (\<lambda>r. cr_action r = a) rules))"
  by (simp add: ids_by_order_def)

lemma full_order_parts:
  assumes "distinct (map cr_id rules)" "tab_ids = map cr_id (filter (\<lambda>r. cr_action r = TAB_TO_ACTION tab) rules)"
    and "mset ids = mset tab_ids"
  shows "distinct (fullOrder tab ids rules)"
    and "set (fullOrder tab ids rules) \<subseteq> cr_id ` set rules"
proof -
  have eq: "mset (fullOrder tab ids rules) =
      mset (map cr_id (filter (\<lambda>r. cr_action r = ''block'') rules @ filter (\<lambda>r. cr_action r = ''allow'') rules))"
    using assms(2,3) by (cases tab) (simp_all add: fullOrder_def TAB_TO_ACTION_def mset_ids_by_order)
  have "distinct (map cr_id (filter (\<lambda>r. cr_action r = ''block'') rules @ filter (\<lambda>r. cr_action r = ''allow'') rules))"
  proof -
    have "i \<notin> cr_id ` set (filter (\<lambda>r. cr_action r = ''allow'') rules)"
      if i: "i \<in> cr_id ` set (filter (\<lambda>r. cr_action r = ''block'') rules)" for i
    proof
      assume "i \<in> cr_id ` set (filter (\<lambda>r. cr_action r = ''allow'') rules)"
      then obtain q where q: "q \<in> set rules" "cr_action q = ''allow''" "cr_id q = i" by fastforce
      obtain r where r: "r \<in> set rules" "cr_action r = ''block''" "cr_id r = i" using i by fastforce
      have "r = q" by (rule same_key [OF r(1) q(1) assms(1)]) (simp add: r(3) q(3))
      then show False using q(2) r(2) by simp
    qed
    then have "cr_id ` set (filter (\<lambda>r. cr_action r = ''block'') rules) \<inter> cr_id ` set (filter (\<lambda>r. cr_action r = ''allow'') rules) = {}"
      by blast
    then show ?thesis using assms(1) by (simp add: distinct_map_filter)
  qed
  then show "distinct (fullOrder tab ids rules)" using eq mset_eq_imp_distinct_iff by blast
  show "set (fullOrder tab ids rules) \<subseteq> cr_id ` set rules" using mset_eq_setD [OF eq] by auto
qed

text \<open>
  Property C15 (reorder_persists). A dropped order is the order shown after the refetch, and the other
  list keeps its order, because the page sends the complete numbering of both lists.
\<close>

theorem reorder_persists:
  assumes "truthy_str (gg_profile st)" and "\<forall>i. \<not> fails i" and "gg_store st = gg_server st"
    and "distinct (map cr_id (gp_rules (gg_server st)))" and "[] \<notin> cr_id ` set (gp_rules (gg_server st))"
    and "length (gp_rules (gg_server st)) \<le> MAX_CUSTOM_RULES_PER_ACCOUNT" and "ids \<noteq> []"
    and "mset ids = mset (ids_by_order (TAB_TO_ACTION tab) (gp_rules (gg_server st)))"
  defines "st' \<equiv> handleReorder fails tab ids st"
  shows "gg_store st' = gg_server st' \<and> ids_by_order (TAB_TO_ACTION tab) (gp_rules (gg_store st')) = ids \<and>
         (\<forall>other. other \<noteq> tab \<longrightarrow> ids_by_order (TAB_TO_ACTION other) (gp_rules (gg_store st')) =
                                ids_by_order (TAB_TO_ACTION other) (gp_rules (gg_store st)))"
proof -
  let ?rules = "gp_rules (gg_server st)"
  let ?full = "fullOrder tab ids ?rules"
  have ids: "mset ids = mset (map cr_id (filter (\<lambda>r. cr_action r = TAB_TO_ACTION tab) ?rules))"
    using assms(8) by (simp add: mset_ids_by_order)
  note parts = full_order_parts [OF assms(4) refl ids]
  have len: "length ?full \<le> 10000"
    using assms(6) card_mono [OF _ parts(2)] distinct_card [OF parts(1)] card_length [of "map cr_id ?rules"]
    by (simp add: MAX_CUSTOM_RULES_PER_ACCOUNT_def)
  have ok: "?full \<noteq> []" "[] \<notin> set ?full" using assms(5,7) parts(2) by (cases tab, auto simp: fullOrder_def)
  obtain rules' where r: "ReorderCustomRules ?full ?rules = Inr rules'"
    using len ok parts(2) by (simp add: ReorderCustomRules_def)
  have st': "gg_server st' = (gg_server st)\<lparr>gp_rules := rules'\<rparr>" "gg_store st' = gg_server st'"
    using assms(1-3) r by (simp_all add: st'_def handleReorder_def gg_refetch_def)
  have shown: "ids_by_order a rules' = xs" if "?full = us @ xs @ vs"
    "mset (map cr_id (filter (\<lambda>r. cr_action r = a) ?rules)) = mset xs" for a xs us vs
    using reorder_shown [OF r parts(1) that] .
  have "ids_by_order (TAB_TO_ACTION tab) rules' = ids \<and>
        (\<forall>other. other \<noteq> tab \<longrightarrow> ids_by_order (TAB_TO_ACTION other) rules' = ids_by_order (TAB_TO_ACTION other) ?rules)"
  proof (cases tab)
    case Denylist
    have "ids_by_order ''block'' rules' = ids"
      by (rule shown [of "[]" _ "ids_by_order ''allow'' ?rules"]) (use Denylist ids in \<open>simp_all add: fullOrder_def TAB_TO_ACTION_def\<close>)
    moreover have "ids_by_order ''allow'' rules' = ids_by_order ''allow'' ?rules"
      by (rule shown [of ids _ "[]"]) (use Denylist in \<open>simp_all add: fullOrder_def mset_ids_by_order\<close>)
    ultimately show ?thesis using Denylist by (auto simp: TAB_TO_ACTION_def split: RuleList.splits)
  next
    case Allowlist
    have "ids_by_order ''allow'' rules' = ids"
      by (rule shown [of "ids_by_order ''block'' ?rules" _ "[]"]) (use Allowlist ids in \<open>simp_all add: fullOrder_def TAB_TO_ACTION_def\<close>)
    moreover have "ids_by_order ''block'' rules' = ids_by_order ''block'' ?rules"
      by (rule shown [of "[]" _ ids]) (use Allowlist in \<open>simp_all add: fullOrder_def mset_ids_by_order\<close>)
    ultimately show ?thesis using Allowlist by (auto simp: TAB_TO_ACTION_def split: RuleList.splits)
  qed
  then show ?thesis using st' assms(3) by simp
qed


subsection \<open>Sections\<close>

lemma mset_by_group:
  "distinct gs \<Longrightarrow> mset (concat (map (\<lambda>g. filter (\<lambda>r. f r = g) xs) gs)) = mset (filter (\<lambda>r. f r \<in> set gs) xs)"
proof (induction gs)
  case (Cons g gs)
  have "mset (filter (\<lambda>r. f r \<in> insert g (set gs)) xs) =
        mset (filter (\<lambda>r. f r = g) xs) + mset (filter (\<lambda>r. f r \<in> set gs) xs)"
    using Cons.prems by (induction xs) auto
  then show ?case using Cons by simp
qed simp

lemma derived_names_Nil: "[] \<notin> set (derivedGroupNames le rules order)"
  by (simp add: derived_names)

text \<open>
  Fact (sections_show_every_rule). After every change of the profile the card shows each rule of the
  list in exactly one section, that of its group, in the persisted order; no section appears twice.
\<close>

theorem sections_show_every_rule:
  "mset (concat (map snd (sections (kd_local (props_changed le rules order k)) (kd_groups (props_changed le rules order k))))) = mset rules \<and>
   distinct (map fst (sections (kd_local (props_changed le rules order k)) (kd_groups (props_changed le rules order k)))) \<and>
   list_all (\<lambda>(g, items). items = filter (\<lambda>r. rule_group r = g) (sortedFromProps rules))
     (sections (kd_local (props_changed le rules order k)) (kd_groups (props_changed le rules order k)))"
proof -
  let ?local = "sortedFromProps rules" and ?names = "derivedGroupNames le (sortedFromProps rules) order"
  have secs: "sections ?local ?names = map (\<lambda>g. (g, filter (\<lambda>r. rule_group r = g) ?local)) (UNGROUPED # ?names)"
    by (simp add: sections_def Let_def)
  have d: "distinct (UNGROUPED # ?names)" by (simp add: derived_distinct derived_names_Nil UNGROUPED_def)
  have all: "filter (\<lambda>r. rule_group r \<in> set (UNGROUPED # ?names)) ?local = ?local"
    by (auto simp: filter_id_conv derived_names UNGROUPED_def)
  have "mset (concat (map snd (sections ?local ?names))) = mset ?local"
    using mset_by_group [OF d, of rule_group ?local] unfolding all secs by (simp add: comp_def)
  moreover have "map fst (sections ?local ?names) = UNGROUPED # ?names" by (simp add: secs comp_def)
  ultimately show ?thesis using d by (simp add: props_changed_def list_all_iff secs)
qed

subsection \<open>Dragging\<close>

lemma findIndex_Some: "findIndex P xs = Some i \<Longrightarrow> i < length xs \<and> P (xs ! i)"
  by (induction xs arbitrary: i) (auto split: if_splits)

lemma findIndex_None: "findIndex P xs = None \<longleftrightarrow> (\<forall>x \<in> set xs. \<not> P x)"
  by (induction xs) auto

lemma mset_splice [simp]: "mset (splice_in i x xs) = add_mset x (mset xs)"
  unfolding splice_in_def by (metis append_take_drop_id mset_append union_mset_add_mset_right mset.simps(2))

lemma mset_without: "i < length xs \<Longrightarrow> add_mset (xs ! i) (mset (take i xs @ drop (Suc i) xs)) = mset xs"
  by (subst (5) id_take_nth_drop) simp_all

lemma mset_move_over: "mset (map cr_id (move_over a ov g rules)) = mset (map cr_id rules)"
proof (cases "findIndex (\<lambda>r. cr_id r = a) rules")
  case (Some i)
  note i = findIndex_Some [OF Some]
  let ?rest = "take i rules @ drop (Suc i) rules"
  have "image_mset cr_id (mset rules) = add_mset (cr_id (rules ! i)) (image_mset cr_id (mset ?rest))"
    using mset_without [of i rules] i by (metis image_mset_add_mset)
  then show ?thesis using Some by (simp add: move_over_def Let_def)
qed (simp add: move_over_def)

text \<open>What the drag-and-drop package promises of \<open>arrayMove\<close>: the element changes its place.\<close>

definition moves :: "'a array_move \<Rightarrow> bool" where
  "moves f \<longleftrightarrow> (\<forall>xs i j. i < length xs \<longrightarrow> j < length xs \<longrightarrow>
                 f xs i j = splice_in j (xs ! i) (take i xs @ drop (Suc i) xs))"

lemma mset_moves: "moves f \<Longrightarrow> i < length xs \<Longrightarrow> j < length xs \<Longrightarrow> mset (f xs i j) = mset xs"
  using mset_without [of i xs] by (simp add: moves_def)

datatype drag_event = DragStart string | DragOver string "string option" | DragEnd string "string option" | DragCancel

text \<open>The card registers no handler for a cancelled drag.\<close>

fun drag_step :: "ModelCustomRule array_move \<Rightarrow> string array_move \<Rightarrow> card \<Rightarrow> drag_event \<Rightarrow> card" where
  "drag_step mr mn k (DragStart i) = handleDragStart i k"
| "drag_step mr mn k (DragOver a ov) = handleDragOver a ov k"
| "drag_step mr mn k (DragEnd a ov) = handleDragEnd mr mn a ov k"
| "drag_step mr mn k DragCancel = k"

definition same_ids :: "card \<Rightarrow> bool" where
  "same_ids k \<longleftrightarrow> mset (map cr_id (kd_local k)) = mset (map cr_id (kd_rules k))"

fun sent_ids :: "card_call \<Rightarrow> string list option" where
  "sent_ids (OnReorder ids) = Some ids"
| "sent_ids (OnMoveRule ids r g) = Some ids"
| "sent_ids _ = None"

definition call_ok :: "ModelCustomRule list \<Rightarrow> card_call \<Rightarrow> bool" where
  "call_ok rules c = (case sent_ids c of None \<Rightarrow> True | Some ids \<Rightarrow> mset ids = mset (map cr_id rules))"

definition calls_ok :: "card \<Rightarrow> bool" where
  "calls_ok k \<longleftrightarrow> list_all (call_ok (kd_rules k)) (kd_calls k)"

lemma mset_drop_rules: "moves mr \<Longrightarrow> mset (drop_rules mr a ov rules) = mset rules"
  by (auto simp: drop_rules_def mset_moves dest!: findIndex_Some split: option.splits)

lemma drag_step_ok:
  assumes "moves mr" "same_ids k" "calls_ok k"
  shows "same_ids (drag_step mr mn k e) \<and> calls_ok (drag_step mr mn k e) \<and> kd_rules (drag_step mr mn k e) = kd_rules k"
proof (cases e)
  case (DragStart i)
  then show ?thesis using assms by (simp add: handleDragStart_def same_ids_def calls_ok_def)
next
  case (DragOver a ov)
  then show ?thesis
    using assms mset_move_over by (auto simp: handleDragOver_def same_ids_def calls_ok_def Let_def split: option.splits)
next
  case (DragEnd a ov)
  have "mset (map cr_id (drop_rules mr a x (kd_local k))) = mset (map cr_id (kd_rules k))" for x
    using assms(2) mset_drop_rules [OF assms(1)] by (simp add: same_ids_def)
  then show ?thesis
    using DragEnd assms(2,3)
    by (auto simp: handleDragEnd_def drop_group_def drop_rule_def call_out_def same_ids_def calls_ok_def call_ok_def Let_def
             split: option.splits)
qed (use assms in simp)


lemma drags_ok:
  "moves mr \<Longrightarrow> same_ids k \<Longrightarrow> calls_ok k \<Longrightarrow>
     same_ids (foldl (drag_step mr mn) k es) \<and> calls_ok (foldl (drag_step mr mn) k es) \<and>
     kd_rules (foldl (drag_step mr mn) k es) = kd_rules k"
proof (induction es arbitrary: k)
  case (Cons e es)
  show ?case using drag_step_ok [OF Cons.prems] Cons.IH [of "drag_step mr mn k e"] Cons.prems(1) by simp
qed simp

lemma last_of_group_snoc:
  "last_of_group g (rules @ [r]) = (if rule_group r = g then Suc (length rules) else last_of_group g rules)"
  by (simp add: last_of_group_def enumerate_append_eq)

lemma last_of_group_bound: "last_of_group g rules \<le> length rules"
  by (induction rules rule: rev_induct) (auto simp: last_of_group_snoc last_of_group_def [of g "[]"])

lemma after_last_of_group: "r \<in> set (drop (last_of_group g rules) rules) \<Longrightarrow> rule_group r \<noteq> g"
proof (induction rules rule: rev_induct)
  case (snoc x rules)
  show ?case
  proof (cases "rule_group x = g")
    case False
    then show ?thesis using snoc last_of_group_bound [of g rules] by (auto simp: last_of_group_snoc)
  qed (use snoc in \<open>simp add: last_of_group_snoc\<close>)
qed simp

lemma splice_at_end:
  assumes "rule_group x = g"
  shows "filter (\<lambda>r. rule_group r = g) (splice_in (last_of_group g rest) x rest) = filter (\<lambda>r. rule_group r = g) rest @ [x]"
proof -
  have "filter (\<lambda>r. rule_group r = g) (drop (last_of_group g rest) rest) = []"
    using after_last_of_group by (auto simp: filter_empty_conv)
  moreover from this have "filter (\<lambda>r. rule_group r = g) (take (last_of_group g rest) rest) = filter (\<lambda>r. rule_group r = g) rest"
    by (metis append_Nil2 append_take_drop_id filter_append)
  ultimately show ?thesis using assms by (simp add: splice_in_def)
qed

lemma groupOf_found:
  "findIndex (\<lambda>r. cr_id r = a) rules = Some i \<Longrightarrow> groupOf rules a = rule_group (rules ! i)"
proof -
  have "findIndex P xs = Some i \<Longrightarrow> find P xs = Some (xs ! i)" for P and xs :: "ModelCustomRule list"
    by (induction xs arbitrary: i) (auto split: if_splits)
  then show "findIndex (\<lambda>r. cr_id r = a) rules = Some i \<Longrightarrow> groupOf rules a = rule_group (rules ! i)"
    by (simp add: groupOf_def)
qed

lemma group_of_member:
  assumes "distinct (map cr_id rules)" "x \<in> set rules"
  shows "groupOf rules (cr_id x) = rule_group x"
  using find_by_key [OF assms(2,1)] by (simp add: groupOf_def)

text \<open>
  Property C8 (drags_send_permutations). However a rule or a group is dragged about, dropped or
  cancelled, the card neither loses nor duplicates a rule, and every order it sends is a permutation
  of the list's ids.
\<close>

theorem drags_send_permutations:
  fixes mr :: "ModelCustomRule array_move" and mn :: "string array_move" and es :: "drag_event list" and k :: card
  assumes "moves mr" and "kd_local k = sortedFromProps (kd_rules k)" and "kd_calls k = []"
  defines "k' \<equiv> foldl (drag_step mr mn) k es"
  shows "mset (map cr_id (kd_local k')) = mset (map cr_id (kd_rules k)) \<and>
         list_all (call_ok (kd_rules k)) (kd_calls k')"
proof -
  have "same_ids k" "calls_ok k" using assms(2,3) by (simp_all add: same_ids_def calls_ok_def)
  from drags_ok [OF assms(1) this, of mn es] show ?thesis
    unfolding k'_def same_ids_def calls_ok_def by (elim conjE) simp
qed

text \<open>
  Fact (drop_on_group_appends). Dragging a rule over the body or the header of another group and
  dropping it there shows it as the last rule of that group, opens the group, and asks the API for
  exactly this move, with the order shown.
\<close>

theorem drop_on_group_appends:
  fixes mr :: "ModelCustomRule array_move" and mn :: "string array_move"
  assumes "kd_local k = sortedFromProps (kd_rules k)" and "distinct (map cr_id (kd_rules k))"
    and "rule \<in> set (kd_rules k)" and "rule_group rule \<noteq> g" and "g \<noteq> UNGROUPED" and "\<not> isGroupSortId (cr_id rule)"
    and "over \<in> {containerId g, headerDropId g}" and "containerId g \<noteq> NEW_GROUP_ZONE"
  defines "k' \<equiv> handleDragEnd mr mn (cr_id rule) (Some over) (handleDragOver (cr_id rule) (Some over) k)"
  shows "filter (\<lambda>r. rule_group r = g) (kd_local k') =
           filter (\<lambda>r. rule_group r = g) (sortedFromProps (kd_rules k)) @ [rule\<lparr>cr_group := Some g\<rparr>] \<and>
         g \<notin> set (kd_collapsed k') \<and>
         kd_calls k' = kd_calls k @ [OnMoveRule (map cr_id (kd_local k')) (cr_id rule) g]"
proof -
  let ?L = "sortedFromProps (kd_rules k)"
  have L: "distinct (map cr_id ?L)" "set ?L = set (kd_rules k)"
    using assms(2) mset_eq_imp_distinct_iff [of "map cr_id ?L" "map cr_id (kd_rules k)"] mset_eq_setD [OF mset_sortedFromProps]
    by simp_all
  obtain i where i: "findIndex (\<lambda>r. cr_id r = cr_id rule) ?L = Some i"
    using findIndex_None [of "\<lambda>r. cr_id r = cr_id rule" ?L] assms(3) L(2) by (cases "findIndex (\<lambda>r. cr_id r = cr_id rule) ?L") auto
  have at: "?L ! i = rule" "i < length ?L"
  proof -
    show "i < length ?L" using findIndex_Some [OF i] by simp
    then have "?L ! i \<in> set (kd_rules k)" using nth_mem L(2) by blast
    from same_key [OF this assms(3,2)] show "?L ! i = rule" using findIndex_Some [OF i] by simp
  qed
  define rest where "rest = take i ?L @ drop (Suc i) ?L"
  define moved where "moved = splice_in (last_of_group g rest) (rule\<lparr>cr_group := Some g\<rparr>) rest"
  have drop: "isGroupDropId over" "groupFromDropId over = g" "\<not> isGroupSortId over" "over \<noteq> NEW_GROUP_ZONE"
    using assms(7,8) by (auto simp: id_defs NEW_GROUP_ZONE_def)
  have over: "handleDragOver (cr_id rule) (Some over) k = k\<lparr>kd_local := moved\<rparr>"
    using drop assms(1,4,6) groupOf_found [OF i] i at
    by (simp add: handleDragOver_def move_over_def Let_def moved_def rest_def)
  have ids: "mset (map cr_id moved) = mset (map cr_id ?L)"
    using mset_move_over [of "cr_id rule" over g ?L] drop i at by (simp add: move_over_def moved_def rest_def Let_def)
  have d: "distinct (map cr_id moved)" using mset_eq_imp_distinct_iff [OF ids] L(1) by simp
  have "rule\<lparr>cr_group := Some g\<rparr> \<in> set moved" by (simp add: moved_def splice_in_def)
  from group_of_member [OF d this] have final: "groupOf moved (cr_id rule) = g" by (simp add: rule_group_def)
  have orig: "groupOf (kd_rules k) (cr_id rule) = rule_group rule"
    by (rule group_of_member [OF assms(2,3)])
  have "filter (\<lambda>r. rule_group r = g) rest = filter (\<lambda>r. rule_group r = g) ?L"
  proof -
    have "filter (\<lambda>r. rule_group r = g) ?L = filter (\<lambda>r. rule_group r = g) (take i ?L @ ?L ! i # drop (Suc i) ?L)"
      using id_take_nth_drop [OF at(2)] by simp
    then show ?thesis using assms(4) at(1) by (simp add: rest_def)
  qed
  then have shown: "filter (\<lambda>r. rule_group r = g) moved = filter (\<lambda>r. rule_group r = g) ?L @ [rule\<lparr>cr_group := Some g\<rparr>]"
    unfolding moved_def by (subst splice_at_end) (simp_all add: rule_group_def)
  have "k' = call_out (OnMoveRule (map cr_id moved) (cr_id rule) g)
      (k\<lparr>kd_activeId := None, kd_local := moved, kd_collapsed := reveal g (kd_collapsed k)\<rparr>)"
    using drop final orig assms(4-6)
    by (simp add: k'_def over handleDragEnd_def drop_rule_def Let_def drop_rules_def)
  then show ?thesis using shown by (simp add: call_out_def reveal_def)
qed


lemma move_over_others:
  assumes "r \<in> set rules" "cr_id r \<noteq> a"
  shows "r \<in> set (move_over a ov g rules)"
proof (cases "findIndex (\<lambda>r. cr_id r = a) rules")
  case (Some i)
  have i: "i < length rules" "cr_id (rules ! i) = a" using findIndex_Some [OF Some] by simp_all
  have "r \<in> set (take i rules @ rules ! i # drop (Suc i) rules)"
    using assms(1) id_take_nth_drop [OF i(1)] by simp
  then have "r \<in> set (take i rules @ drop (Suc i) rules)" using assms(2) i(2) by auto
  then have "r \<in># add_mset x (mset (take i rules @ drop (Suc i) rules))" for x by simp
  then show ?thesis
    using Some by (simp add: move_over_def Let_def set_mset_mset [symmetric] del: set_mset_mset)
qed (simp add: move_over_def assms)

text \<open>
  Fact (cancelled_drag_persists). Cancelling a drag over another place does not undo its preview:
  the card goes on showing it, and dropping any other rule right where it was picked up sends the
  cancelled order to the API.
\<close>

theorem cancelled_drag_persists:
  fixes mr :: "ModelCustomRule array_move" and mn :: "string array_move" and ov a :: string
  assumes "kd_local k = sortedFromProps (kd_rules k)" and "distinct (map cr_id (kd_rules k))"
    and "r \<in> set (kd_rules k)" "cr_id r \<noteq> a" "\<not> isGroupSortId (cr_id r)" "cr_id r \<noteq> NEW_GROUP_ZONE"
  defines "k1 \<equiv> foldl (drag_step mr mn) k [DragStart a, DragOver a (Some ov), DragCancel]"
    and "k2 \<equiv> drag_step mr mn (foldl (drag_step mr mn) k [DragStart a, DragOver a (Some ov), DragCancel])
                (DragEnd (cr_id r) (Some (cr_id r)))"
  assumes "js_join ''|'' (map cr_id (kd_local k1)) \<noteq> js_join ''|'' (map cr_id (kd_local k))"
  shows "kd_local k2 = kd_local k1 \<and> kd_calls k2 = kd_calls k @ [OnReorder (map cr_id (kd_local k1))]"
proof -
  let ?s = "handleDragStart a k"
  have s: "kd_local ?s = kd_local k" "kd_rules ?s = kd_rules k" "kd_calls ?s = kd_calls k"
    by (simp_all add: handleDragStart_def)
  have k1: "kd_rules k1 = kd_rules k" "kd_calls k1 = kd_calls k"
    "\<exists>g. kd_local k1 = kd_local k \<or> kd_local k1 = move_over a ov g (kd_local k)"
    by (auto simp: k1_def handleDragOver_def s Let_def)
  have ids: "mset (map cr_id (kd_local k1)) = mset (map cr_id (kd_rules k))"
    using k1(3) mset_move_over assms(1) by fastforce
  have d: "distinct (map cr_id (kd_local k1))" using mset_eq_imp_distinct_iff [OF ids] assms(2) by simp
  have "r \<in> set (kd_local k)" using assms(1,3) mset_eq_setD [OF mset_sortedFromProps] by simp
  then have "r \<in> set (kd_local k1)" using k1(3) move_over_others assms(4) by auto
  from group_of_member [OF d this] group_of_member [OF assms(2,3)]
  have same: "groupOf (kd_local k1) (cr_id r) = groupOf (kd_rules k) (cr_id r)" by simp
  have "k2 = call_out (OnReorder (map cr_id (kd_local k1))) (k1\<lparr>kd_activeId := None\<rparr>)"
    unfolding k2_def k1_def [symmetric]
    using assms(1,5,6,9) same k1(1) by (simp add: handleDragEnd_def drop_rule_def drop_rules_def Let_def)
  then show ?thesis by (simp add: call_out_def k1(2))
qed

text \<open>
  Fact (new_zone_collision). A group named like the zone for new groups has that zone's id: dropping a
  rule on its body opens the prompt for a new group instead of moving the rule.
\<close>

lemma new_zone_collision:
  "\<not> isGroupSortId a \<Longrightarrow>
     kd_creating (handleDragEnd mr mn a (Some (containerId ''__new__'')) k) \<and>
     kd_pending (handleDragEnd mr mn a (Some (containerId ''__new__'')) k) = Some a"
  by (simp add: handleDragEnd_def drop_rule_def containerId_def CONTAINER_PREFIX_def NEW_GROUP_ZONE_def Let_def)


subsection \<open>Witnesses\<close>

definition grouped_rule :: "string \<Rightarrow> int \<Rightarrow> string \<Rightarrow> ModelCustomRule" where
  "grouped_rule i n g = \<lparr>cr_action = ''block'', cr_group = Some g, cr_id = i, cr_note = None, cr_order = Some n, cr_value = i\<rparr>"

definition sample_rules :: "ModelCustomRule list" where
  "sample_rules = [grouped_rule ''a'' 0 '''', grouped_rule ''b'' 1 ''ads'', grouped_rule ''c'' 2 ''ads'']"

definition sample_grouped :: groups_page where
  "sample_grouped =
     (let p = \<lparr>gp_rules = sample_rules,
               gp_groups = \<lparr>gs_allow = None, gs_block = Some [\<lparr>cg_comment = Some ''n'', cg_name = ''ads''\<rparr>]\<rparr>\<rparr>
      in \<lparr>gg_profile = Some ''p'', gg_store = p, gg_server = p, gg_toasts = []\<rparr>)"

definition sample_card :: card where
  "sample_card = \<lparr>kd_rules = sample_rules, kd_local = sortedFromProps sample_rules, kd_groups = [''ads''],
     kd_activeId = None, kd_activeGroup = None, kd_creating = False, kd_pending = None, kd_toDelete = None,
     kd_collapsed = [''ads''], kd_calls = []\<rparr>"

definition array_move_ref :: "'a array_move" where
  "array_move_ref xs i j = splice_in j (xs ! i) (take i xs @ drop (Suc i) xs)"

lemma moves_ref: "moves array_move_ref" by (simp add: moves_def array_move_ref_def)

lemma sample_grouped_simps [simp]:
  "gg_profile sample_grouped = Some ''p''" "gg_store sample_grouped = gg_server sample_grouped"
  "gp_rules (gg_server sample_grouped) = sample_rules"
  "group_list (gp_groups (gg_server sample_grouped)) ''block'' = [\<lparr>cg_comment = Some ''n'', cg_name = ''ads''\<rparr>]"
  by (simp_all add: sample_grouped_def Let_def group_list_def)

lemma sample_card_simps [simp]:
  "kd_rules sample_card = sample_rules" "kd_local sample_card = sortedFromProps sample_rules" "kd_calls sample_card = []"
  by (simp_all add: sample_card_def)

lemma sample_ids: "map cr_id sample_rules = [''a'', ''b'', ''c'']" "map cr_id (sortedFromProps sample_rules) = [''a'', ''b'', ''c'']"
  by code_simp+

theorem registry_refines_map_witness:
  "toNoteMap (foldl (registry_step upsert_list remove_list rename_list reorder_list) [] [OUpsert ''a'' ''x'', ORename ''a'' ''b'']) ''b''
     = Some ''x''"
  using registry_refines_map [of "[]" "[OUpsert ''a'' ''x'', ORename ''a'' ''b'']"]
  by (simp add: toNoteMap_def)

theorem delete_group_clears_witness:
  "map label_view (gp_rules (gg_store (handleDeleteGroup (\<lambda>_. False) ''block'' ''ads'' sample_grouped))) =
     [(''a'', ''block'', ''a'', ''''), (''b'', ''block'', ''b'', ''''), (''c'', ''block'', ''c'', '''')]"
  using delete_group_clears [of sample_grouped "\<lambda>_. False" "''block''" "''ads''"]
  by (simp add: sample_rules_def grouped_rule_def rule_group_def)

theorem rename_group_done_witness:
  "map label_view (gp_rules (gg_store (handleRenameGroup (\<lambda>_. False) ''block'' ''ads'' ''x'' sample_grouped))) =
     [(''a'', ''block'', ''a'', ''''), (''b'', ''block'', ''b'', ''x''), (''c'', ''block'', ''c'', ''x'')]"
proof -
  have "commitName ''x'' ''ads'' = Some ''x''" by code_simp
  from rename_group_done [of sample_grouped "\<lambda>_. False" "''block''" "''ads''", OF _ _ _ _ _ this]
  show ?thesis by (simp add: sample_rules_def grouped_rule_def rule_group_def)
qed

theorem reorder_persists_witness:
  "ids_by_order ''block'' (gp_rules (gg_store (handleReorder (\<lambda>_. False) Denylist [''c'', ''a'', ''b''] sample_grouped))) =
     [''c'', ''a'', ''b'']"
proof -
  have shown: "ids_by_order ''block'' sample_rules = [''a'', ''b'', ''c'']" by code_simp
  have ids: "[] \<notin> cr_id ` set sample_rules"
    unfolding set_map [symmetric] sample_ids(1) by simp
  have m: "mset [''c'', ''a'', ''b''] = mset (ids_by_order (TAB_TO_ACTION Denylist) sample_rules)"
    unfolding TAB_TO_ACTION_def RuleList.case shown by simp
  have d: "distinct (map cr_id sample_rules)" unfolding sample_ids(1) by simp
  have len: "length sample_rules \<le> MAX_CUSTOM_RULES_PER_ACCOUNT"
    by (simp add: sample_rules_def MAX_CUSTOM_RULES_PER_ACCOUNT_def)
  have "ids_by_order (TAB_TO_ACTION Denylist)
      (gp_rules (gg_store (handleReorder (\<lambda>_. False) Denylist [''c'', ''a'', ''b''] sample_grouped))) = [''c'', ''a'', ''b'']"
    by (rule reorder_persists [THEN conjunct2, THEN conjunct1])
       (use d len ids m in \<open>simp_all only: sample_grouped_simps truthy_str_simps list.distinct not_False_eq_True simp_thms\<close>)
  then show ?thesis by (simp add: TAB_TO_ACTION_def)
qed

theorem drags_send_permutations_witness:
  "mset (map cr_id (kd_local (foldl (drag_step array_move_ref array_move_ref) sample_card
     [DragOver ''a'' (Some ''b''), DragEnd ''a'' (Some ''c'')]))) = {#''a'', ''b'', ''c''#}"
  using drags_send_permutations [OF moves_ref, of sample_card array_move_ref "[DragOver ''a'' (Some ''b''), DragEnd ''a'' (Some ''c'')]"]
  by (simp add: sample_ids del: drag_step.simps mset_map)

theorem drop_on_group_appends_witness:
  "kd_calls (handleDragEnd array_move_ref array_move_ref ''a'' (Some (headerDropId ''ads''))
     (handleDragOver ''a'' (Some (headerDropId ''ads'')) sample_card)) \<noteq> []"
proof -
  have r: "grouped_rule ''a'' 0 '''' \<in> set sample_rules" "cr_id (grouped_rule ''a'' 0 '''') = ''a''"
    "rule_group (grouped_rule ''a'' 0 '''') = ''''" "\<not> isGroupSortId ''a''"
    by (simp_all add: sample_rules_def grouped_rule_def rule_group_def isGroupSortId_def js_startsWith_def GROUP_SORT_PREFIX_def)
  have z: "containerId ''ads'' \<noteq> NEW_GROUP_ZONE" by (simp add: id_defs NEW_GROUP_ZONE_def)
  show ?thesis
    using drop_on_group_appends [of sample_card "grouped_rule ''a'' 0 ''''" "''ads''" "headerDropId ''ads''" array_move_ref array_move_ref]
      r z by (simp add: sample_ids UNGROUPED_def)
qed

theorem cancelled_drag_persists_witness:
  "kd_calls (drag_step array_move_ref array_move_ref (foldl (drag_step array_move_ref array_move_ref) sample_card
       [DragStart ''a'', DragOver ''a'' (Some ''c''), DragCancel]) (DragEnd ''b'' (Some ''b''))) =
     [OnReorder [''b'', ''a'', ''c'']]"
proof -
  let ?k1 = "foldl (drag_step array_move_ref array_move_ref) sample_card [DragStart ''a'', DragOver ''a'' (Some ''c''), DragCancel]"
  have ids: "map cr_id (kd_local ?k1) = [''b'', ''a'', ''c'']" by code_simp
  have ne: "js_join ''|'' [''b'', ''a'', ''c''] \<noteq> js_join ''|'' [''a'', ''b'', ''c'']" by code_simp
  have r: "grouped_rule ''b'' 1 ''ads'' \<in> set sample_rules" "cr_id (grouped_rule ''b'' 1 ''ads'') = ''b''"
    "\<not> isGroupSortId ''b''" "''b'' \<noteq> NEW_GROUP_ZONE"
    by (simp_all add: sample_rules_def grouped_rule_def isGroupSortId_def js_startsWith_def GROUP_SORT_PREFIX_def NEW_GROUP_ZONE_def)
  have "js_join ''|'' (map cr_id (kd_local ?k1)) \<noteq> js_join ''|'' (map cr_id (kd_local sample_card))"
    unfolding ids sample_card_simps sample_ids by (rule ne)
  from cancelled_drag_persists [OF _ _ _ _ _ _ this, of "grouped_rule ''b'' 1 ''ads''"] r
  show ?thesis unfolding ids by (simp add: sample_ids)
qed


end
