(* ===== verification/Store.thy ===== *)
theory Store
  imports ApiTypes
begin

text \<open>
  The application store (app/src/store/general.ts), the subscription guard
  (app/src/hooks/useSubscriptionGuard.ts) and the profile handlers of the header
  (app/src/pages/header/ProfileDropdown.tsx, CreateProfileDialog.tsx, EditProfileDialog.tsx) and of
  the settings page (app/src/pages/settings/DeleteProfileDialog.tsx) that write to it.

  The store is a record; an action is a function on it. The list \<open>app_profiles\<close> and the profile
  \<open>app_activeProfile\<close> hold copies of the same documents, and the pages read both.
\<close>

subsection \<open>The state and its actions\<close>

record AppState =
  app_activeProfile :: "ModelProfile option"
  app_profiles :: "ModelProfile list"
  app_account :: "ModelAccount option"
  app_rightPanelOpen :: bool
  app_connectionStatusVisible :: bool
  app_verificationBannerDismissed :: bool
  app_blocklistsAlertDismissed :: bool
  app_customRulesAlertDismissed :: bool
  app_logsExpandHintDismissed :: bool
  app_passkeys :: "ModelCredential list"
  app_subscriptionStatus :: "string option"
  app_subscriptionType :: "string option"
  app_subscriptionDeletionScheduled :: bool
  app_announcementsLastSeenAt :: "string option"
  app_customRulesCollapsed :: "string \<Rightarrow> string list option"

definition initial_store :: AppState where
  "initial_store =
     \<lparr>app_activeProfile = None, app_profiles = [], app_account = None, app_rightPanelOpen = False,
      app_connectionStatusVisible = True, app_verificationBannerDismissed = False,
      app_blocklistsAlertDismissed = False, app_customRulesAlertDismissed = False,
      app_logsExpandHintDismissed = False, app_passkeys = [], app_subscriptionStatus = None,
      app_subscriptionType = None, app_subscriptionDeletionScheduled = False,
      app_announcementsLastSeenAt = None, app_customRulesCollapsed = Map.empty\<rparr>"

definition setActiveProfile :: "ModelProfile option \<Rightarrow> AppState \<Rightarrow> AppState" where
  "setActiveProfile profile s =
     s\<lparr>app_activeProfile := profile,
       app_profiles := (case profile of
          None \<Rightarrow> app_profiles s
        | Some q \<Rightarrow> map (\<lambda>p. if pf_profile_id p = pf_profile_id q then q else p) (app_profiles s))\<rparr>"

definition setProfiles :: "ModelProfile list \<Rightarrow> AppState \<Rightarrow> AppState" where
  "setProfiles profiles s = s\<lparr>app_profiles := profiles\<rparr>"

definition restoreActiveProfile :: "ModelProfile list \<Rightarrow> AppState \<Rightarrow> AppState" where
  "restoreActiveProfile profiles s =
     (case (if profiles = [] then None
            else Option.bind (app_activeProfile s) (\<lambda>a. find (\<lambda>p. pf_id p = pf_id a) profiles)) of
        Some found \<Rightarrow> s\<lparr>app_activeProfile := Some found\<rparr>
      | None \<Rightarrow> (case profiles of [] \<Rightarrow> s | first # _ \<Rightarrow> s\<lparr>app_activeProfile := Some first\<rparr>))"

definition setAccount :: "ModelAccount option \<Rightarrow> AppState \<Rightarrow> AppState" where
  "setAccount account s = s\<lparr>app_account := account\<rparr>"

definition setRightPanelOpen :: "bool \<Rightarrow> AppState \<Rightarrow> AppState" where
  "setRightPanelOpen isOpen s = s\<lparr>app_rightPanelOpen := isOpen\<rparr>"

definition setConnectionStatusVisible :: "bool \<Rightarrow> AppState \<Rightarrow> AppState" where
  "setConnectionStatusVisible isVisible s = s\<lparr>app_connectionStatusVisible := isVisible\<rparr>"

definition setVerificationBannerDismissed :: "bool \<Rightarrow> AppState \<Rightarrow> AppState" where
  "setVerificationBannerDismissed dismissed s = s\<lparr>app_verificationBannerDismissed := dismissed\<rparr>"

definition setBlocklistsAlertDismissed :: "bool \<Rightarrow> AppState \<Rightarrow> AppState" where
  "setBlocklistsAlertDismissed dismissed s = s\<lparr>app_blocklistsAlertDismissed := dismissed\<rparr>"

definition setCustomRulesAlertDismissed :: "bool \<Rightarrow> AppState \<Rightarrow> AppState" where
  "setCustomRulesAlertDismissed dismissed s = s\<lparr>app_customRulesAlertDismissed := dismissed\<rparr>"

definition setLogsExpandHintDismissed :: "bool \<Rightarrow> AppState \<Rightarrow> AppState" where
  "setLogsExpandHintDismissed dismissed s = s\<lparr>app_logsExpandHintDismissed := dismissed\<rparr>"

definition setPasskeys :: "ModelCredential list \<Rightarrow> AppState \<Rightarrow> AppState" where
  "setPasskeys passkeys s = s\<lparr>app_passkeys := passkeys\<rparr>"

definition setSubscriptionStatus :: "string option \<Rightarrow> AppState \<Rightarrow> AppState" where
  "setSubscriptionStatus status s = s\<lparr>app_subscriptionStatus := status\<rparr>"

definition setSubscriptionType :: "string option \<Rightarrow> AppState \<Rightarrow> AppState" where
  "setSubscriptionType type s = s\<lparr>app_subscriptionType := type\<rparr>"

definition setSubscriptionDeletionScheduled :: "bool \<Rightarrow> AppState \<Rightarrow> AppState" where
  "setSubscriptionDeletionScheduled scheduled s = s\<lparr>app_subscriptionDeletionScheduled := scheduled\<rparr>"

definition markAnnouncementsSeen :: "string \<Rightarrow> AppState \<Rightarrow> AppState" where
  "markAnnouncementsSeen now s = s\<lparr>app_announcementsLastSeenAt := Some now\<rparr>"

definition setCustomRulesCollapsed :: "string \<Rightarrow> string list \<Rightarrow> AppState \<Rightarrow> AppState" where
  "setCustomRulesCollapsed key collapsedNames s =
     s\<lparr>app_customRulesCollapsed := (app_customRulesCollapsed s)(key \<mapsto> collapsedNames)\<rparr>"

text \<open>What the persistence layer writes to local storage.\<close>

record PersistedState =
  ps_activeProfile :: "ModelProfile option"
  ps_verificationBannerDismissed :: bool
  ps_blocklistsAlertDismissed :: bool
  ps_customRulesAlertDismissed :: bool
  ps_connectionStatusVisible :: bool
  ps_announcementsLastSeenAt :: "string option"
  ps_customRulesCollapsed :: "string \<Rightarrow> string list option"
  ps_logsExpandHintDismissed :: bool

definition partialize :: "AppState \<Rightarrow> PersistedState" where
  "partialize s =
     \<lparr>ps_activeProfile = app_activeProfile s,
      ps_verificationBannerDismissed = app_verificationBannerDismissed s,
      ps_blocklistsAlertDismissed = app_blocklistsAlertDismissed s,
      ps_customRulesAlertDismissed = app_customRulesAlertDismissed s,
      ps_connectionStatusVisible = app_connectionStatusVisible s,
      ps_announcementsLastSeenAt = app_announcementsLastSeenAt s,
      ps_customRulesCollapsed = app_customRulesCollapsed s,
      ps_logsExpandHintDismissed = app_logsExpandHintDismissed s\<rparr>"

text \<open>
  The connection data shown by the setup guides, derived from the active profile and three values of
  the build environment.
\<close>

record DerivedProfileData =
  dp_id :: string
  dp_dnsOverTLS :: string
  dp_dnsOverHTTPS :: string
  dp_ipv4 :: string
  dp_ipv6 :: "string option"
  dp_domain :: string
  dp_dohEndpoint :: string

definition env_addresses :: "string option \<Rightarrow> string list" where
  "env_addresses raw = filter (\<lambda>s. s \<noteq> []) (map js_trim (js_split (CHR '','') (or_str raw [])))"

definition first_of :: "string list \<Rightarrow> string option" where
  "first_of xs = (case xs of [] \<Rightarrow> None | x # _ \<Rightarrow> Some x)"

definition useProfileData ::
  "string option \<Rightarrow> string option \<Rightarrow> string option \<Rightarrow> AppState \<Rightarrow> DerivedProfileData option" where
  "useProfileData env_domain env_ips env_ipv6 s =
     (let envDomain = or_str env_domain ''example.com'';
          primaryIp = or_str (first_of (env_addresses env_ips)) ''0.0.0.0'';
          primaryIpv6 = first_of (env_addresses env_ipv6)
      in case app_activeProfile s of
           None \<Rightarrow> None
         | Some p \<Rightarrow>
             let id = or_str (Some (pf_profile_id p)) (pf_id p);
                 dnsOverHTTPS = ''https://'' @ envDomain @ ''/dns-query/'' @ id
             in Some \<lparr>dp_id = id, dp_dnsOverTLS = id @ ''.'' @ envDomain, dp_dnsOverHTTPS = dnsOverHTTPS,
                      dp_ipv4 = primaryIp, dp_ipv6 = primaryIpv6, dp_domain = envDomain,
                      dp_dohEndpoint = dnsOverHTTPS\<rparr>)"

subsection \<open>The subscription guard\<close>

record subscription_guard =
  gd_isLimited :: bool
  gd_isInactive :: bool
  gd_isPendingDelete :: bool
  gd_isRetired :: bool
  gd_isCutOff :: bool
  gd_isRestricted :: bool
  gd_canMutate :: bool

definition useSubscriptionGuard :: "AppState \<Rightarrow> subscription_guard" where
  "useSubscriptionGuard s =
     (let status = app_subscriptionStatus s;
          isInactive = (status = Some ''inactive'');
          isPendingDelete = (status = Some ''pending_delete'');
          isCutOff = (isInactive \<or> isPendingDelete)
      in \<lparr>gd_isLimited = (status = Some ''limited_access''), gd_isInactive = isInactive,
          gd_isPendingDelete = isPendingDelete,
          gd_isRetired = (isPendingDelete \<and> app_subscriptionDeletionScheduled s),
          gd_isCutOff = isCutOff, gd_isRestricted = (status = Some ''limited_access'' \<or> isCutOff),
          gd_canMutate = (status = Some ''active'' \<or> status = Some ''grace_period'' \<or> status = None)\<rparr>)"

subsection \<open>The profile menu of the header\<close>

text \<open>
  \<open>answer\<close> is what \<open>GET /profiles\<close> returned, \<open>None\<close> when it failed: the error then leaves the handler.
\<close>

definition fetchProfilesAndUpdate ::
  "ModelProfile list option \<Rightarrow> string option \<Rightarrow> AppState \<Rightarrow> AppState option" where
  "fetchProfilesAndUpdate answer selectProfileId s =
     map_option (\<lambda>data.
       if truthy_str selectProfileId
       then setActiveProfile
              (case find (\<lambda>p. pf_profile_id p = the selectProfileId) data of
                 Some found \<Rightarrow> Some found
               | None \<Rightarrow> (case data of [] \<Rightarrow> None | p # _ \<Rightarrow> Some p))
              (setProfiles data s)
       else setProfiles data s) answer"

definition handleProfileUpdated :: "ModelProfile list option \<Rightarrow> ModelProfile \<Rightarrow> AppState \<Rightarrow> AppState" where
  "handleProfileUpdated answer updatedProfile s =
     nullish (fetchProfilesAndUpdate answer (Some (pf_profile_id updatedProfile)) s) s"

text \<open>\<open>profiles\<close> is the property the menu was rendered with when the deletion started.\<close>

definition handleProfileDeleted ::
  "ModelProfile list \<Rightarrow> ModelProfile list option \<Rightarrow> AppState \<Rightarrow> AppState" where
  "handleProfileDeleted profiles answer s =
     (case fetchProfilesAndUpdate answer None s of
        None \<Rightarrow> s
      | Some s' \<Rightarrow> setActiveProfile (case profiles of [] \<Rightarrow> None | p # _ \<Rightarrow> Some p) s')"

definition handleProfileCreated :: "ModelProfile list option \<Rightarrow> ModelProfile \<Rightarrow> AppState \<Rightarrow> AppState" where
  "handleProfileCreated answer newProfile s =
     nullish (fetchProfilesAndUpdate answer (Some (pf_profile_id newProfile)) s) s"

definition handleProfileSwitch :: "ModelProfile \<Rightarrow> AppState \<Rightarrow> AppState" where
  "handleProfileSwitch profile s = setActiveProfile (Some profile) s"

definition onValueChange :: "ModelProfile list \<Rightarrow> string \<Rightarrow> AppState \<Rightarrow> AppState" where
  "onValueChange profiles val s =
     (case find (\<lambda>p. pf_profile_id p = val) profiles of
        None \<Rightarrow> s
      | Some selected \<Rightarrow> setActiveProfile (Some selected) s)"

text \<open>
  The dialogs behind the menu. Creating calls the API with the trimmed name and reports the new
  profile; \<open>Inl\<close> is the message the dialog shows.
\<close>

definition create_name :: "string \<Rightarrow> string + string" where
  "create_name profileName =
     (if js_trim profileName = [] then Inl ''Profile name cannot be empty.'' else Inr (js_trim profileName))"

definition handleCreate ::
  "string \<Rightarrow> (nat \<times> ModelProfile option) \<Rightarrow> ModelProfile list option \<Rightarrow> AppState \<Rightarrow> AppState" where
  "handleCreate profileName created answer s =
     (case create_name profileName of
        Inl _ \<Rightarrow> s
      | Inr _ \<Rightarrow>
          (case created of
             (status, Some p) \<Rightarrow>
               if status = 201
               then handleProfileCreated answer p (setActiveProfile (Some p) (setActiveProfile (Some p) s))
               else s
           | _ \<Rightarrow> s))"

definition rename_request :: "string \<Rightarrow> ModelProfile \<Rightarrow> ModelProfileUpdate list option" where
  "rename_request editedName profile =
     (if js_trim editedName = [] \<or> js_trim editedName = pf_name profile then None
      else Some [\<lparr>pu_operation = OpReplace, pu_path = Name, pu_value = VStr (js_trim editedName)\<rparr>])"

definition show_save :: "string \<Rightarrow> ModelProfile \<Rightarrow> bool" where
  "show_save typed profile = (js_trim typed \<noteq> [] \<and> js_trim typed \<noteq> pf_name profile)"

text \<open>
  The settings page deletes the active profile and selects the first remaining one of its own list.
\<close>

definition handleDeleteProfile :: "nat \<Rightarrow> ModelProfile \<Rightarrow> ModelProfile list \<Rightarrow> AppState \<Rightarrow> AppState" where
  "handleDeleteProfile status activeProfile profiles s =
     (if status = 204
      then let remainingProfiles = filter (\<lambda>p. pf_profile_id p \<noteq> pf_profile_id activeProfile) profiles
           in setActiveProfile (case remainingProfiles of [] \<Rightarrow> None | p # _ \<Rightarrow> Some p) s
      else s)"

text \<open>
  A page that reads a profile back writes it to the list, and to the active profile when none is active
  or the active one has its id (writeProfile of DataCollectionControl.tsx, and the same two lines of
  DeleteStatisticsHistory.tsx).
\<close>

definition write_back :: "ModelProfile \<Rightarrow> AppState \<Rightarrow> AppState" where
  "write_back updated s =
     setProfiles (map (\<lambda>p. if pf_profile_id p = pf_profile_id updated then updated else p) (app_profiles s))
       (if app_activeProfile s = None \<or> map_option pf_profile_id (app_activeProfile s) = Some (pf_profile_id updated)
        then setActiveProfile (Some updated) s else s)"

subsection \<open>The two copies of the active profile\<close>

text \<open>
  A list of profiles as the API answers it: an account always has a profile, and their ids differ. An id is not
  empty.
\<close>

definition profiles_answer :: "ModelProfile list \<Rightarrow> bool" where
  "profiles_answer ps \<longleftrightarrow> ps \<noteq> [] \<and> distinct (map pf_profile_id ps)"

text \<open>
  The states the store can be in once the profiles have been loaded, until the log-out or a load that
  the API refuses empties the list. Every other write of the app to the two fields is one of the events:
  the loads, a profile of the list read again after a change and set active or written back, the switches
  of the menu, the renaming, creation and deletion behind the menu and the deletion on the settings page.
  The menu's creation is taken with its list read again, and its deletion with the first profile still
  there; the property below says what they do otherwise.
\<close>

inductive store_reachable :: "AppState \<Rightarrow> bool" where
  loaded: "profiles_answer profiles \<Longrightarrow>
     store_reachable (restoreActiveProfile profiles (setProfiles profiles s))"
| refetched: "store_reachable s \<Longrightarrow> pf_profile_id p \<in> pf_profile_id ` set (app_profiles s) \<Longrightarrow>
     store_reachable (setActiveProfile (Some p) s)"
| written: "store_reachable s \<Longrightarrow> store_reachable (write_back p s)"
| switched: "store_reachable s \<Longrightarrow> p \<in> set (app_profiles s) \<Longrightarrow> store_reachable (handleProfileSwitch p s)"
| selected: "store_reachable s \<Longrightarrow> store_reachable (onValueChange (app_profiles s) val s)"
| renamed: "store_reachable s \<Longrightarrow> pred_option profiles_answer answer \<Longrightarrow> pf_profile_id p \<noteq> [] \<Longrightarrow>
     store_reachable (handleProfileUpdated answer p s)"
| created: "store_reachable s \<Longrightarrow> profiles_answer ps \<Longrightarrow>
     pred_option (\<lambda>p. pf_profile_id p \<noteq> []) (snd response) \<Longrightarrow>
     store_reachable (handleCreate profileName response (Some ps) s)"
| menu_deleted: "store_reachable s \<Longrightarrow> profiles_answer ps \<Longrightarrow>
     pf_profile_id (hd (app_profiles s)) \<in> pf_profile_id ` set ps \<Longrightarrow>
     store_reachable (handleProfileDeleted (app_profiles s) (Some ps) s)"
| menu_delete_unread: "store_reachable s \<Longrightarrow> store_reachable (handleProfileDeleted profiles None s)"
| removed: "store_reachable s \<Longrightarrow> 1 < length (app_profiles s) \<Longrightarrow> a \<in> set (app_profiles s) \<Longrightarrow>
     store_reachable (handleDeleteProfile status a (app_profiles s) s)"
| account_set: "store_reachable s \<Longrightarrow> store_reachable (setAccount account s)"
| status_set: "store_reachable s \<Longrightarrow> store_reachable (setSubscriptionStatus status s)"
| passkeys_set: "store_reachable s \<Longrightarrow> store_reachable (setPasskeys ks s)"

definition active_listed :: "AppState \<Rightarrow> bool" where
  "active_listed s \<longleftrightarrow>
     (\<exists>a. app_activeProfile s = Some a \<and> a \<in> set (app_profiles s)) \<and>
     distinct (map pf_profile_id (app_profiles s))"

lemma store_simps [simp]:
  "app_profiles (setProfiles ps s) = ps" "app_activeProfile (setProfiles ps s) = app_activeProfile s"
  "app_account (setProfiles ps s) = app_account s"
  "app_account (setAccount acc s) = acc" "app_profiles (setAccount acc s) = app_profiles s"
  "app_activeProfile (setAccount acc s) = app_activeProfile s"
  "app_profiles (restoreActiveProfile ps s) = app_profiles s"
  "app_account (restoreActiveProfile ps s) = app_account s"
  "app_activeProfile (setActiveProfile p s) = p" "app_account (setActiveProfile p s) = app_account s"
  "app_profiles (setActiveProfile None s) = app_profiles s"
  by (auto simp: setProfiles_def setAccount_def restoreActiveProfile_def setActiveProfile_def
      split: option.split list.split)

lemma restore_member:
  assumes "profiles \<noteq> []"
  shows "\<exists>a. app_activeProfile (restoreActiveProfile profiles s) = Some a \<and> a \<in> set profiles"
proof -
  have found: "x \<in> set profiles" if "find P profiles = Some x" for P x
    using that by (auto simp: find_Some_iff)
  obtain p ps where ps: "profiles = p # ps" using assms by (cases profiles) auto
  show ?thesis
  proof (cases "Option.bind (app_activeProfile s) (\<lambda>a. find (\<lambda>p. pf_id p = pf_id a) profiles)")
    case None
    with ps show ?thesis by (simp add: restoreActiveProfile_def)
  next
    case (Some q)
    then have "q \<in> set profiles" by (auto simp: bind_eq_Some_conv dest: found)
    with assms Some show ?thesis by (simp add: restoreActiveProfile_def)
  qed
qed

lemma replaced_ids:
  "map pf_profile_id (map (\<lambda>p. if pf_profile_id p = pf_profile_id q then q else p) ps) = map pf_profile_id ps"
  by (induction ps) auto

lemma setActive_listed:
  assumes "distinct (map pf_profile_id (app_profiles s))"
    and "pf_profile_id q \<in> pf_profile_id ` set (app_profiles s)"
  shows "active_listed (setActiveProfile (Some q) s)"
proof -
  have "q \<in> (\<lambda>p. if pf_profile_id p = pf_profile_id q then q else p) ` set (app_profiles s)"
    using assms(2) by (auto simp: image_iff)
  moreover have "distinct (map pf_profile_id (map (\<lambda>p. if pf_profile_id p = pf_profile_id q then q else p) (app_profiles s)))"
    using assms(1) by (simp only: replaced_ids)
  ultimately show ?thesis by (simp add: active_listed_def setActiveProfile_def)
qed

lemma remaining_profile:
  assumes "1 < length ps" "distinct (map pf_profile_id ps)"
  shows "\<exists>p rest. filter (\<lambda>p. pf_profile_id p \<noteq> i) ps = p # rest \<and> p \<in> set ps"
proof -
  from assms obtain x y where "x \<in> set ps" "y \<in> set ps" "pf_profile_id x \<noteq> pf_profile_id y"
    by (cases ps; cases "tl ps") auto
  then have "\<exists>x \<in> set ps. pf_profile_id x \<noteq> i" by metis
  then have "filter (\<lambda>p. pf_profile_id p \<noteq> i) ps \<noteq> []" by (auto simp: filter_empty_conv)
  then obtain p rest where eq: "filter (\<lambda>p. pf_profile_id p \<noteq> i) ps = p # rest"
    by (cases "filter (\<lambda>p. pf_profile_id p \<noteq> i) ps") auto
  from arg_cong [OF eq, of set] have "p \<in> set ps" by auto
  with eq show ?thesis by blast
qed

lemma write_back_listed:
  assumes "active_listed s"
  shows "active_listed (write_back q s)"
proof -
  let ?ps = "map (\<lambda>p. if pf_profile_id p = pf_profile_id q then q else p) (app_profiles s)"
  from assms obtain a where a: "app_activeProfile s = Some a" "a \<in> set (app_profiles s)"
    and "distinct (map pf_profile_id (app_profiles s))" by (auto simp: active_listed_def)
  then have dist: "distinct (map pf_profile_id ?ps)" by (simp only: replaced_ids)
  have "(if pf_profile_id a = pf_profile_id q then q else a) \<in> set ?ps" using a(2) by auto
  with a dist show ?thesis by (simp add: write_back_def active_listed_def)
qed

lemma fetched_listed:
  assumes "profiles_answer ps" "pid \<noteq> []"
  shows "active_listed (the (fetchProfilesAndUpdate (Some ps) (Some pid) s))"
proof -
  have "ps \<noteq> []" and dist: "distinct (map pf_profile_id ps)"
    using assms(1) by (simp_all add: profiles_answer_def)
  then obtain q where q: "q \<in> set ps"
    "(case find (\<lambda>p. pf_profile_id p = pid) ps of
        Some found \<Rightarrow> Some found | None \<Rightarrow> (case ps of [] \<Rightarrow> None | p # _ \<Rightarrow> Some p)) = Some q"
  proof (cases "find (\<lambda>p. pf_profile_id p = pid) ps")
    case None
    with \<open>ps \<noteq> []\<close> that [of "hd ps"] show ?thesis by (cases ps) simp_all
  next
    case (Some q)
    then have "q \<in> set ps" by (auto simp: find_Some_iff)
    with Some that [of q] show ?thesis by simp
  qed
  show ?thesis
    using setActive_listed [of "setProfiles ps s" q] dist q(1) assms(2)
    by (simp add: fetchProfilesAndUpdate_def q(2))
qed

lemma fetched_Some: "nullish (fetchProfilesAndUpdate (Some ps) i s) s' = the (fetchProfilesAndUpdate (Some ps) i s)"
  by (simp add: fetchProfilesAndUpdate_def nullish_def)

lemma menu_delete_listed:
  assumes "distinct (map pf_profile_id left)" and "profiles \<noteq> []"
  shows "active_listed (handleProfileDeleted profiles (Some left) s) \<longleftrightarrow>
           pf_profile_id (hd profiles) \<in> pf_profile_id ` set left"
proof -
  obtain p rest where p: "profiles = p # rest" using assms(2) by (cases profiles) auto
  have eq: "handleProfileDeleted profiles (Some left) s = setActiveProfile (Some p) (setProfiles left s)"
    by (simp add: handleProfileDeleted_def fetchProfilesAndUpdate_def p)
  show ?thesis
  proof (cases "pf_profile_id p \<in> pf_profile_id ` set left")
    case True
    with assms(1) have "active_listed (setActiveProfile (Some p) (setProfiles left s))"
      by (intro setActive_listed) simp_all
    with True show ?thesis by (simp add: eq) (simp add: p)
  next
    case False
    then have "map (\<lambda>x. if pf_profile_id x = pf_profile_id p then p else x) left = left"
      by (intro map_idI) (auto simp: image_iff)
    then have "\<not> active_listed (setActiveProfile (Some p) (setProfiles left s))"
      using False by (auto simp: active_listed_def setActiveProfile_def setProfiles_def)
    with False show ?thesis by (simp add: eq) (simp add: p)
  qed
qed

lemma reachable_listed: "store_reachable s \<Longrightarrow> active_listed s"
proof (induction rule: store_reachable.induct)
  case (loaded profiles s)
  then show ?case using restore_member [of profiles "setProfiles profiles s"]
    by (simp add: active_listed_def profiles_answer_def)
next
  case (written s p)
  then show ?case by (intro write_back_listed)
next
  case (renamed s answer p)
  then show ?case
    using fetched_listed [of _ "pf_profile_id p" s]
    by (cases answer) (simp_all add: handleProfileUpdated_def fetched_Some, simp add: fetchProfilesAndUpdate_def nullish_def)
next
  case (created s ps response profileName)
  show ?case
  proof (cases "\<exists>n p. create_name profileName = Inr n \<and> response = (201, Some p)")
    case True
    then obtain n p where c: "create_name profileName = Inr n" "response = (201, Some p)" by blast
    with created.hyps fetched_listed [of ps "pf_profile_id p"] show ?thesis
      by (simp add: handleCreate_def handleProfileCreated_def fetched_Some)
  next
    case False
    then have "handleCreate profileName response (Some ps) s = s"
      by (cases response) (auto simp: handleCreate_def split: sum.splits option.splits)
    with created.IH show ?thesis by simp
  qed
next
  case (menu_deleted s ps)
  have "app_profiles s \<noteq> []" using menu_deleted.IH by (auto simp: active_listed_def)
  with menu_deleted.hyps show ?case by (simp add: menu_delete_listed profiles_answer_def)
next
  case (menu_delete_unread s profiles)
  then show ?case by (simp add: handleProfileDeleted_def fetchProfilesAndUpdate_def)
next
  case (refetched s p)
  then show ?case by (intro setActive_listed) (simp_all add: active_listed_def)
next
  case (switched s p)
  then show ?case
    unfolding handleProfileSwitch_def by (intro setActive_listed) (simp_all add: active_listed_def)
next
  case (selected s val)
  show ?case
  proof (cases "find (\<lambda>p. pf_profile_id p = val) (app_profiles s)")
    case None
    with selected.IH show ?thesis by (simp add: onValueChange_def)
  next
    case (Some q)
    then have "q \<in> set (app_profiles s)" by (auto simp: find_Some_iff)
    with selected.IH Some show ?thesis
      by (simp add: onValueChange_def setActive_listed active_listed_def [of s])
  qed
next
  case (removed s a status)
  from removed.IH have dist: "distinct (map pf_profile_id (app_profiles s))" by (simp add: active_listed_def)
  show ?case
  proof (cases "status = 204")
    case True
    from remaining_profile [OF removed.hyps(2) dist, of "pf_profile_id a"] obtain p rest
      where "filter (\<lambda>p. pf_profile_id p \<noteq> pf_profile_id a) (app_profiles s) = p # rest" "p \<in> set (app_profiles s)"
      by blast
    with True dist show ?thesis by (simp add: handleDeleteProfile_def setActive_listed)
  next
    case False
    with removed.IH show ?thesis by (simp add: handleDeleteProfile_def)
  qed
qed (simp_all add: active_listed_def setSubscriptionStatus_def setPasskeys_def)

lemma filter_own_key:
  "x \<in> set xs \<Longrightarrow> distinct (map f xs) \<Longrightarrow> filter (\<lambda>y. f y = f x) xs = [x]"
proof (induction xs)
  case (Cons y xs)
  show ?case
  proof (cases "y = x")
    case True
    with Cons.prems have "\<forall>z \<in> set xs. f z \<noteq> f x" by (auto simp: image_iff)
    with True show ?thesis by (simp add: filter_empty_conv)
  next
    case False
    with Cons show ?thesis by auto
  qed
qed simp

text \<open>The active profile is the only entry the list holds under its id.\<close>

definition active_is_entry :: "AppState \<Rightarrow> bool" where
  "active_is_entry s \<longleftrightarrow>
     (\<exists>a. app_activeProfile s = Some a \<and>
          find (\<lambda>p. pf_profile_id p = pf_profile_id a) (app_profiles s) = Some a \<and>
          filter (\<lambda>p. pf_profile_id p = pf_profile_id a) (app_profiles s) = [a])"

lemma active_is_entry_eq:
  assumes "distinct (map pf_profile_id (app_profiles s))"
  shows "active_is_entry s \<longleftrightarrow> active_listed s"
proof
  assume "active_is_entry s"
  with assms show "active_listed s" by (auto simp: active_is_entry_def active_listed_def find_Some_iff)
next
  assume "active_listed s"
  then obtain a where a: "app_activeProfile s = Some a" "a \<in> set (app_profiles s)" by (auto simp: active_listed_def)
  from a(2) assms have "filter (\<lambda>p. pf_profile_id p = pf_profile_id a) (app_profiles s) = [a]"
    by (rule filter_own_key)
  with a assms show "active_is_entry s" by (auto simp: active_is_entry_def find_by_key)
qed


definition plain_settings :: "string \<Rightarrow> ModelProfileSettings" where
  "plain_settings pid =
     \<lparr>ps_advanced = \<lparr>ad_recursor = ''sdns''\<rparr>, ps_custom_rule_groups = None, ps_custom_rules = None,
      ps_logs = None,
      ps_privacy = \<lparr>pv_blocklists = None, pv_blocklists_subdomains_rule = ''block'',
        pv_custom_rules_subdomains_rule = None, pv_default_rule = ''allow'', pv_services = None\<rparr>,
      ps_profile_id = pid,
      ps_security = \<lparr>sc_dnssec = \<lparr>ds_enabled = True, ds_send_do_bit = True\<rparr>, sc_rebinding_protection = None\<rparr>,
      ps_statistics = None\<rparr>"

definition plain_profile :: "string \<Rightarrow> string \<Rightarrow> ModelProfile" where
  "plain_profile pid name =
     \<lparr>pf_account_id = ''a1'', pf_id = ''m'' @ pid, pf_name = name, pf_profile_id = pid,
      pf_settings = Some (plain_settings pid)\<rparr>"

lemma plain_profile_simps [simp]:
  "pf_profile_id (plain_profile pid name) = pid" "pf_id (plain_profile pid name) = ''m'' @ pid"
  "pf_name (plain_profile pid name) = name" "pf_settings (plain_profile pid name) = Some (plain_settings pid)"
  by (simp_all add: plain_profile_def)


text \<open>
  Fact (deleted_first_profile_reactivated). Deleting the first profile from the menu's edit
  dialog makes the deleted profile the active one, though the list no longer holds it: the handler
  reads the list it was rendered with. A deletion of any other profile selects a listed one.
\<close>

theorem deleted_first_profile_reactivated:
  assumes "app_profiles s = p # q # rest" and "distinct (map pf_profile_id (p # q # rest))"
    and "d \<in> set (p # q # rest)"
  defines "left \<equiv> filter (\<lambda>x. pf_profile_id x \<noteq> pf_profile_id d) (p # q # rest)"
  defines "s' \<equiv> handleProfileDeleted (app_profiles s) (Some left) s"
  shows "app_activeProfile s' = Some p \<and> app_profiles s' = left \<and> d \<notin> set (app_profiles s') \<and>
         (p \<in> set (app_profiles s') \<longleftrightarrow> d \<noteq> p)"
proof -
  have ids: "map (\<lambda>x. if pf_profile_id x = pf_profile_id p then p else x) left = left"
  proof (rule map_idI)
    fix x assume "x \<in> set left"
    then have "x \<in> set (p # q # rest)" unfolding left_def by (simp only: set_filter mem_Collect_eq)
    then show "(if pf_profile_id x = pf_profile_id p then p else x) = x"
      using same_key [OF _ _ assms(2), of x p] by auto
  qed
  have "p \<in> set left \<longleftrightarrow> d \<noteq> p"
    using assms(2,3) same_key [OF _ _ assms(2), of d p] by (auto simp: left_def)
  moreover have "d \<notin> set left" unfolding left_def by (simp only: set_filter mem_Collect_eq simp_thms)
  ultimately show ?thesis
    unfolding s'_def handleProfileDeleted_def fetchProfilesAndUpdate_def assms(1)
    by (simp add: setActiveProfile_def setProfiles_def ids)
qed

theorem deleted_first_profile_reactivated_witness:
  "app_activeProfile (handleProfileDeleted [plain_profile ''p1'' ''Home'', plain_profile ''p2'' ''Work'']
      (Some [plain_profile ''p2'' ''Work''])
      (setProfiles [plain_profile ''p1'' ''Home'', plain_profile ''p2'' ''Work''] initial_store)) =
    Some (plain_profile ''p1'' ''Home'') \<and>
   app_profiles (handleProfileDeleted [plain_profile ''p1'' ''Home'', plain_profile ''p2'' ''Work'']
      (Some [plain_profile ''p2'' ''Work''])
      (setProfiles [plain_profile ''p1'' ''Home'', plain_profile ''p2'' ''Work''] initial_store)) =
    [plain_profile ''p2'' ''Work'']"
  using deleted_first_profile_reactivated
    [of "setProfiles [plain_profile ''p1'' ''Home'', plain_profile ''p2'' ''Work''] initial_store"
      "plain_profile ''p1'' ''Home''" "plain_profile ''p2'' ''Work''" "[]" "plain_profile ''p1'' ''Home''"]
  by simp

end
