(* ===== verification/Session.thy ===== *)
theory Session
  imports Store ApiErrors
begin

text \<open>
  How the app learns that its session is over and what it does then: the response interceptor
  (app/src/api/api.ts), the window-event handler (app/src/api/eventHandler.ts), the event bus
  (app/src/lib/eventBus.ts), the authentication provider, the route loaders and the guards of
  app/src/App.tsx.

  A failed call of an axios instance with the interceptor is rejected with its status, and the
  interceptor raises a window event on the way; the handler turns \<open>auth:logout\<close> into a bus event. The
  loaders dispatch their own event. The provider, the only subscriber of the bus, clears the store and
  goes to the login page. Which instance the calls of the app go through is part of the model.
\<close>

subsection \<open>The event bus\<close>

datatype toast_level = TSuccess | TInfo | TError | TWarning

datatype AppEvent =
    ForceLogout "string option" "toast_level option"
  | BusSessionExpired
  | ToastShow toast_level string

text \<open>
  Listeners are numbers. \<open>bs_delivered\<close> is the log of calls, which the code does not keep; a listener
  that throws is called all the same, and the error is dropped.
\<close>

record bus =
  bs_listeners :: "nat list"
  bs_hasSubscriber :: bool
  bs_pending :: "AppEvent list"
  bs_delivered :: "(nat \<times> AppEvent) list"

definition empty_bus :: bus where
  "empty_bus = \<lparr>bs_listeners = [], bs_hasSubscriber = False, bs_pending = [], bs_delivered = []\<rparr>"

definition bus_subscribe :: "nat \<Rightarrow> bus \<Rightarrow> bus" where
  "bus_subscribe l b =
     (let b1 = b\<lparr>bs_listeners := (if l \<in> set (bs_listeners b) then bs_listeners b else bs_listeners b @ [l])\<rparr>
      in if bs_hasSubscriber b then b1
         else b1\<lparr>bs_hasSubscriber := True, bs_pending := [],
                 bs_delivered := bs_delivered b @ map (Pair l) (bs_pending b)\<rparr>)"

definition bus_unsubscribe :: "nat \<Rightarrow> bus \<Rightarrow> bus" where
  "bus_unsubscribe l b =
     (let ls = removeAll l (bs_listeners b)
      in b\<lparr>bs_listeners := ls, bs_hasSubscriber := (if ls = [] then False else bs_hasSubscriber b)\<rparr>)"

definition bus_dispatch :: "AppEvent \<Rightarrow> bus \<Rightarrow> bus" where
  "bus_dispatch ev b =
     (if \<not> bs_hasSubscriber b then b\<lparr>bs_pending := bs_pending b @ [ev]\<rparr>
      else b\<lparr>bs_delivered := bs_delivered b @ map (\<lambda>l. (l, ev)) (bs_listeners b)\<rparr>)"

datatype bus_op = Subscribe nat | Unsubscribe nat | Dispatch AppEvent

fun bus_step :: "bus \<Rightarrow> bus_op \<Rightarrow> bus" where
  "bus_step b (Subscribe l) = bus_subscribe l b"
| "bus_step b (Unsubscribe l) = bus_unsubscribe l b"
| "bus_step b (Dispatch ev) = bus_dispatch ev b"

fun dispatched :: "bus_op list \<Rightarrow> AppEvent list" where
  "dispatched [] = []"
| "dispatched (Dispatch ev # ops) = ev # dispatched ops"
| "dispatched (_ # ops) = dispatched ops"

text \<open>The subscribers are never two at a time, as with the one provider of the app.\<close>

fun one_at_a_time :: "bus \<Rightarrow> bus_op list \<Rightarrow> bool" where
  "one_at_a_time b [] = True"
| "one_at_a_time b (op # ops) =
     (length (bs_listeners (bus_step b op)) \<le> 1 \<and> one_at_a_time (bus_step b op) ops)"

definition bus_ok :: "bus \<Rightarrow> bool" where
  "bus_ok b \<longleftrightarrow> (bs_hasSubscriber b \<longleftrightarrow> bs_listeners b \<noteq> []) \<and> distinct (bs_listeners b) \<and>
               (bs_hasSubscriber b \<longrightarrow> bs_pending b = [])"

lemma bus_step_ok: "bus_ok b \<Longrightarrow> bus_ok (bus_step b op)"
  by (cases op)
    (auto simp: bus_ok_def bus_subscribe_def bus_unsubscribe_def bus_dispatch_def Let_def distinct_removeAll)

interpretation bus: machine bus_step bus_ok
  by unfold_locales (rule bus_step_ok)

lemma dispatched_append [simp]: "dispatched (xs @ ys) = dispatched xs @ dispatched ys"
  by (induction xs rule: dispatched.induct) simp_all

lemma bus_step_events:
  assumes "bus_ok b" and "length (bs_listeners b) \<le> 1"
  shows "map snd (bs_delivered (bus_step b op)) @ bs_pending (bus_step b op) =
         map snd (bs_delivered b) @ bs_pending b @ dispatched [op]"
proof (cases op)
  case (Dispatch ev)
  with assms show ?thesis
    by (cases "bs_listeners b") (auto simp: bus_dispatch_def bus_ok_def)
qed (use assms in \<open>auto simp: bus_ok_def bus_subscribe_def bus_unsubscribe_def Let_def comp_def\<close>)

lemma bus_run_events:
  assumes "bus_ok b" and "length (bs_listeners b) \<le> 1" and "one_at_a_time b ops"
  shows "map snd (bs_delivered (foldl bus_step b ops)) @ bs_pending (foldl bus_step b ops) =
         map snd (bs_delivered b) @ bs_pending b @ dispatched ops"
  using assms
proof (induction ops arbitrary: b)
  case (Cons op ops)
  have "dispatched (op # ops) = dispatched [op] @ dispatched ops"
    using dispatched_append [of "[op]" ops] by simp
  with Cons bus_step_events [of b op] bus_step_ok [of b op] show ?case by simp
qed simp

text \<open>
  Fact (bus_loses_nothing). While there is at most one subscriber at a time, the events
  delivered and those still queued are together exactly the events dispatched, each once and in the
  order of their dispatch; nothing stays queued while there is a subscriber.
\<close>

theorem bus_loses_nothing:
  assumes "one_at_a_time empty_bus ops"
  defines "b \<equiv> foldl bus_step empty_bus ops"
  shows "map snd (bs_delivered b) @ bs_pending b = dispatched ops \<and>
         (bs_listeners b \<noteq> [] \<longrightarrow> map snd (bs_delivered b) = dispatched ops)"
proof -
  have ok: "bus_ok empty_bus" by (simp add: bus_ok_def empty_bus_def)
  have "map snd (bs_delivered b) @ bs_pending b = dispatched ops"
    using bus_run_events [OF ok _ assms(1)] by (simp add: b_def empty_bus_def)
  moreover have "bus_ok b" unfolding b_def by (rule bus.run_inv [OF ok])
  ultimately show ?thesis by (auto simp: bus_ok_def)
qed

theorem bus_loses_nothing_witness:
  "map snd (bs_delivered (foldl bus_step empty_bus
     [Dispatch BusSessionExpired, Subscribe 1, Unsubscribe 1, Dispatch (ToastShow TInfo ''hi''), Subscribe 2])) =
   [BusSessionExpired, ToastShow TInfo ''hi'']"
  using bus_loses_nothing [of "[Dispatch BusSessionExpired, Subscribe 1, Unsubscribe 1,
      Dispatch (ToastShow TInfo ''hi''), Subscribe 2]"]
  by (simp add: empty_bus_def bus_subscribe_def bus_unsubscribe_def bus_dispatch_def)

subsection \<open>The interceptor and the window events\<close>

datatype window_event =
    AuthLogout
  | ApiForbidden "string option"
  | ApiNotFound
  | ApiServerError

text \<open>\<open>ApiForbidden\<close> carries the subscription status the body of a 403 may name.\<close>

definition isAuthRoute :: "string \<Rightarrow> bool" where
  "isAuthRoute path = (js_includes path ''/login'' \<or> js_includes path ''/reset-password'')"

definition isAccountOrProfileRoute :: "string \<Rightarrow> bool" where
  "isAccountOrProfileRoute url = (js_includes url ''/accounts/current'' \<or> js_includes url ''/profiles'')"

text \<open>\<open>href\<close> is the address of the page, not of the request.\<close>

definition interceptor :: "string \<Rightarrow> string \<Rightarrow> nat option \<Rightarrow> string option \<Rightarrow> window_event option" where
  "interceptor path href status body_status =
     (if status = Some 401 then (if isAuthRoute path then None else Some AuthLogout)
      else if status = Some 403 then Some (ApiForbidden body_status)
      else if status = Some 404 then
        (if \<not> isAuthRoute path \<and> isAccountOrProfileRoute href then Some AuthLogout else Some ApiNotFound)
      else if status \<in> {Some 500, Some 502, Some 503} then Some ApiServerError
      else None)"

definition SESSION_EXPIRED :: string where
  "SESSION_EXPIRED = ''Session expired - please log in again.''"

definition handle_window_event :: "string \<Rightarrow> window_event \<Rightarrow> AppEvent option \<times> (toast_level \<times> string) list" where
  "handle_window_event path ev =
     (case ev of
        AuthLogout \<Rightarrow>
          (if path = ''/login'' then None else Some (ForceLogout (Some SESSION_EXPIRED) (Some TError)), [])
      | ApiForbidden status \<Rightarrow>
          (None, if status = Some ''inactive'' \<or> status = Some ''pending_delete'' then []
                 else [(TError, ''Access denied. You don't have permission to perform this action.'')])
      | ApiNotFound \<Rightarrow> (None, [(TError, ''The requested resource was not found.'')])
      | ApiServerError \<Rightarrow> (None, [(TError, ''A server error occurred. Please try again later.'')]))"

subsection \<open>The authentication provider\<close>

text \<open>
  \<open>au_key\<close> is the entry of local storage under \<open>AUTH_KEY\<close>. \<open>au_seen\<close> is the value of
  \<open>isAuthenticated\<close> the subscribed listener was created with: the effect subscribes a new listener
  after a render in which the value has changed.
\<close>

record auth =
  au_isAuthenticated :: bool
  au_seen :: bool
  au_key :: "string option"
  au_path :: string
  au_store :: AppState
  au_toasts :: "(toast_level \<times> string) list"

definition isPublicPath :: "string \<Rightarrow> bool" where
  "isPublicPath p =
     (p \<in> {''/'', ''/login'', ''/signup'', ''/tos'', ''/privacy'', ''/faq'', ''/announcements'', ''/reset-password''} \<or>
      js_startsWith p ''/reset-password/'' \<or> js_startsWith p ''/verify/email/'' \<or> js_startsWith p ''/short/'')"

definition add_toast :: "toast_level \<Rightarrow> string \<Rightarrow> auth \<Rightarrow> auth" where
  "add_toast lvl msg a = a\<lparr>au_toasts := au_toasts a @ [(lvl, msg)]\<rparr>"

text \<open>The effects that follow a render: the storage entry, the redirect and the new subscription.\<close>

definition auth_effects :: "auth \<Rightarrow> auth" where
  "auth_effects a =
     a\<lparr>au_seen := au_isAuthenticated a,
       au_key := Some (if au_isAuthenticated a then ''true'' else ''false''),
       au_path := (if \<not> au_isAuthenticated a \<and> \<not> isPublicPath (au_path a) then ''/login'' else au_path a)\<rparr>"

definition login :: "bool \<Rightarrow> auth \<Rightarrow> auth" where
  "login showToast a =
     (let a1 = a\<lparr>au_isAuthenticated := True, au_key := Some ''true''\<rparr>
      in if showToast then add_toast TSuccess ''Logged in successfully.'' a1 else a1)"

definition performLogoutSideEffects :: "auth \<Rightarrow> auth" where
  "performLogoutSideEffects a =
     a\<lparr>au_key := None,
       au_store := setSubscriptionType None (setSubscriptionStatus None (setActiveProfile None
         (setProfiles [] (setAccount None (au_store a)))))\<rparr>"

definition logout :: "string option \<Rightarrow> toast_level \<Rightarrow> auth \<Rightarrow> auth" where
  "logout toastMessage toastType a =
     (let a1 = performLogoutSideEffects (a\<lparr>au_isAuthenticated := False\<rparr>)
      in if truthy_str toastMessage then add_toast toastType (the toastMessage) a1
         else add_toast TSuccess ''Logged out successfully.'' a1)"

definition logout_toast :: "AppEvent \<Rightarrow> auth \<Rightarrow> auth" where
  "logout_toast ev a =
     (let reason = (case ev of ForceLogout r _ \<Rightarrow> r | _ \<Rightarrow> Some SESSION_EXPIRED)
      in if reason = Some SESSION_EXPIRED then add_toast TError SESSION_EXPIRED a
         else if truthy_str reason then
           add_toast (case ev of ForceLogout _ t \<Rightarrow> nullish t TError | _ \<Rightarrow> TError) (the reason) a
         else add_toast TSuccess ''Logged out successfully.'' a)"

definition on_app_event :: "AppEvent \<Rightarrow> auth \<Rightarrow> auth" where
  "on_app_event ev a =
     (case ev of
        ToastShow _ _ \<Rightarrow> a
      | _ \<Rightarrow>
          if \<not> au_seen a then a
          else
            let a1 = logout_toast ev (performLogoutSideEffects (a\<lparr>au_isAuthenticated := False\<rparr>))
            in if au_path a1 \<noteq> ''/login'' then a1\<lparr>au_path := ''/login''\<rparr> else a1)"

text \<open>
  The client of the API. A generated class takes the configuration, a base path and the axios instance,
  which defaults to the global one; the app passes the configuration only, with its own instance among
  the options of a request, where axios does not look for it. The interceptor is registered on that
  instance. The base path is a parameter of the build.
\<close>

datatype axios_instance = GlobalAxios | AxiosClient

record Configuration =
  cfg_basePath :: "string option"
  cfg_request_axios :: "axios_instance option"
  cfg_withCredentials :: bool

record BaseAPI =
  ba_configuration :: "Configuration option"
  ba_basePath :: string
  ba_axios :: axios_instance

definition BASE_PATH :: string where "BASE_PATH = ''http://localhost''"

definition new_BaseAPI :: "Configuration option \<Rightarrow> string option \<Rightarrow> axios_instance option \<Rightarrow> BaseAPI" where
  "new_BaseAPI configuration basePath axios =
     (let bp = nullish basePath BASE_PATH
      in \<lparr>ba_configuration = configuration,
          ba_basePath = (case configuration of None \<Rightarrow> bp | Some c \<Rightarrow> nullish (cfg_basePath c) bp),
          ba_axios = nullish axios GlobalAxios\<rparr>)"

definition Client_config :: "string \<Rightarrow> Configuration" where
  "Client_config api_url = \<lparr>cfg_basePath = Some api_url, cfg_request_axios = Some AxiosClient, cfg_withCredentials = True\<rparr>"

definition Client_api :: "string \<Rightarrow> BaseAPI" where
  "Client_api api_url = new_BaseAPI (Some (Client_config api_url)) None None"

text \<open>\<open>axios.defaults.baseURL\<close>, and the address and the instance of a call.\<close>

definition defaults_baseURL :: "string \<Rightarrow> axios_instance \<Rightarrow> string option" where
  "defaults_baseURL api_url inst = (case inst of GlobalAxios \<Rightarrow> None | AxiosClient \<Rightarrow> Some (api_url @ ''/api/v1''))"

definition createRequestFunction :: "string \<Rightarrow> BaseAPI \<Rightarrow> string \<Rightarrow> axios_instance \<times> string" where
  "createRequestFunction api_url api path =
     (let inst = ba_axios api;
          base = nullish (Option.bind (ba_configuration api) cfg_basePath) (ba_basePath api)
      in (inst, (if truthy_str (defaults_baseURL api_url inst) then [] else base) @ path))"

text \<open>A call of an instance that failed with a status, on the page the app is at.\<close>

definition axios_failed :: "axios_instance \<Rightarrow> string \<Rightarrow> nat option \<Rightarrow> string option \<Rightarrow> auth \<Rightarrow> auth" where
  "axios_failed inst origin status body_status a =
     (if inst = GlobalAxios then a
      else case interceptor (au_path a) (origin @ au_path a) status body_status of
        None \<Rightarrow> a
      | Some w \<Rightarrow>
          let (ev, toasts) = handle_window_event (au_path a) w;
              a1 = a\<lparr>au_toasts := au_toasts a @ toasts\<rparr>
          in (case ev of None \<Rightarrow> a1 | Some e \<Rightarrow> on_app_event e a1))"

text \<open>A failed call of the app; the instance does not depend on the address of the API.\<close>

definition call_failed :: "string \<Rightarrow> nat option \<Rightarrow> string option \<Rightarrow> auth \<Rightarrow> auth" where
  "call_failed origin status body_status a = axios_failed (ba_axios (Client_api BASE_PATH)) origin status body_status a"

definition session_clear :: "AppState \<Rightarrow> bool" where
  "session_clear s \<longleftrightarrow> app_account s = None \<and> app_profiles s = [] \<and> app_activeProfile s = None \<and>
     app_subscriptionStatus s = None \<and> app_subscriptionType s = None"

lemma side_effects_clear [simp]: "session_clear (au_store (performLogoutSideEffects a))"
  by (simp add: performLogoutSideEffects_def session_clear_def setAccount_def setProfiles_def
      setActiveProfile_def setSubscriptionStatus_def setSubscriptionType_def)

lemma toast_keeps [simp]:
  "au_store (add_toast l m a) = au_store a" "au_isAuthenticated (add_toast l m a) = au_isAuthenticated a"
  "au_path (add_toast l m a) = au_path a" "au_key (add_toast l m a) = au_key a" "au_seen (add_toast l m a) = au_seen a"
  "au_toasts (add_toast l m a) = au_toasts a @ [(l, m)]"
  by (simp_all add: add_toast_def)

lemma logout_toast_keeps [simp]:
  "au_store (logout_toast ev a) = au_store a" "au_isAuthenticated (logout_toast ev a) = au_isAuthenticated a"
  "au_path (logout_toast ev a) = au_path a" "au_key (logout_toast ev a) = au_key a" "au_seen (logout_toast ev a) = au_seen a"
  by (simp_all add: logout_toast_def Let_def)

lemma side_effects_keep [simp]:
  "au_isAuthenticated (performLogoutSideEffects a) = au_isAuthenticated a"
  "au_path (performLogoutSideEffects a) = au_path a" "au_key (performLogoutSideEffects a) = None"
  "au_seen (performLogoutSideEffects a) = au_seen a" "au_toasts (performLogoutSideEffects a) = au_toasts a"
  by (simp_all add: performLogoutSideEffects_def)

lemma call_failed_id: "call_failed origin status body a = a"
  by (simp add: call_failed_def axios_failed_def createRequestFunction_def Client_api_def new_BaseAPI_def Let_def)

text \<open>What the interceptor is written to do with a 401.\<close>

lemma intercepted_401:
  fixes origin :: string and body :: "string option" and a :: auth
  assumes "au_seen a" and "\<not> isAuthRoute (au_path a)"
  defines "a' \<equiv> axios_failed AxiosClient origin (Some 401) body a"
  shows "\<not> au_isAuthenticated a' \<and> session_clear (au_store a') \<and> au_path a' = ''/login'' \<and>
         au_toasts a' = au_toasts a @ [(TError, SESSION_EXPIRED)]"
proof -
  have "isAuthRoute ''/login''" by (simp add: isAuthRoute_def js_startsWith_def)
  with assms(2) have path: "au_path a \<noteq> ''/login''" by metis
  have a': "a' = (logout_toast (ForceLogout (Some SESSION_EXPIRED) (Some TError))
             (performLogoutSideEffects (a\<lparr>au_isAuthenticated := False\<rparr>)))\<lparr>au_path := ''/login''\<rparr>"
    using assms(1,2) path
    by (simp add: a'_def axios_failed_def interceptor_def handle_window_event_def on_app_event_def Let_def)
  show ?thesis unfolding a' by (simp add: logout_toast_def)
qed

text \<open>
  Fact (interceptor_never_runs). A call of the client goes to the address of the API through the
  global axios instance, which has no interceptor: whatever status a call fails with, the session, the
  page and the messages stay as they are, while the interceptor would log the user out for a 401. An
  instance with the interceptor would send the call to an address without the base path.
\<close>

theorem interceptor_never_runs:
  assumes "au_isAuthenticated a" "au_seen a" and "\<not> isAuthRoute (au_path a)" and "api_url \<noteq> []"
  shows "createRequestFunction api_url (Client_api api_url) path = (GlobalAxios, api_url @ path) \<and>
         call_failed origin status body a = a \<and>
         \<not> au_isAuthenticated (axios_failed AxiosClient origin (Some 401) body a) \<and>
         createRequestFunction api_url ((Client_api api_url)\<lparr>ba_axios := AxiosClient\<rparr>) path = (AxiosClient, path)"
  using intercepted_401 [OF assms(2,3)] call_failed_id
  by (simp add: createRequestFunction_def Client_api_def new_BaseAPI_def Client_config_def defaults_baseURL_def Let_def)

theorem interceptor_never_runs_witness:
  "let a = \<lparr>au_isAuthenticated = True, au_seen = True, au_key = Some ''true'', au_path = ''/settings'',
            au_store = initial_store, au_toasts = []\<rparr>
   in call_failed ''https://app'' (Some 401) None a = a \<and> au_isAuthenticated a"
  using interceptor_never_runs
    [of "\<lparr>au_isAuthenticated = True, au_seen = True, au_key = Some ''true'', au_path = ''/settings'',
          au_store = initial_store, au_toasts = []\<rparr>" "''https://api''" "''/api/v1/profiles''" "''https://app''" "Some 401" None]
  by (simp add: isAuthRoute_def js_startsWith_def)

subsection \<open>The routes\<close>

text \<open>
  The paths of the router without a parameter, and those of them that need a session.
\<close>

definition app_paths :: "string list" where
  "app_paths =
     [''/'', ''/login'', ''/signup'', ''/tos'', ''/privacy'', ''/faq'', ''/announcements'', ''/reset-password'',
      ''/home'', ''/setup'', ''/settings'', ''/blocklists'', ''/custom-rules'', ''/account-preferences'',
      ''/mobileconfig'', ''/statistics'', ''/query-logs'']"

definition protected_paths :: "string list" where
  "protected_paths =
     [''/home'', ''/setup'', ''/settings'', ''/blocklists'', ''/custom-rules'', ''/account-preferences'',
      ''/mobileconfig'', ''/statistics'', ''/query-logs'']"

definition routePreload :: "string list" where
  "routePreload =
     [''/setup'', ''/blocklists'', ''/custom-rules'', ''/statistics'', ''/query-logs'', ''/settings'',
      ''/account-preferences'']"

lemma includes_append_cases:
  assumes "js_includes (a @ b) t"
  shows "js_includes a t \<or> js_includes b t \<or>
         (\<exists>n. 0 < n \<and> n < length t \<and> js_endsWith a (take n t) \<and> js_startsWith b (drop n t))"
proof -
  from assms obtain u v where eq: "a @ b = u @ t @ v" by (auto simp: js_includes_iff)
  show ?thesis
  proof (cases "length u \<ge> length a")
    case True
    with eq have "b = drop (length a) u @ t @ v" by (simp add: append_eq_append_conv_if)
    then show ?thesis by (auto simp: js_includes_iff)
  next
    case False
    define w where "w = drop (length u) a"
    have "take (length u) a = u" using arg_cong [OF eq, of "take (length u)"] False by simp
    then have a: "a = u @ w" unfolding w_def by (metis append_take_drop_id)
    with eq False have w: "a = u @ w" "w \<noteq> []" "w @ b = t @ v" by auto
    show ?thesis
    proof (cases "length t \<le> length w")
      case True
      with arg_cong [OF w(3), of "take (length t)"] have "take (length t) w = t" by simp
      then obtain r where "w = t @ r" by (metis append_take_drop_id)
      with w(1) have "a = u @ t @ r" by simp
      then show ?thesis by (auto simp: js_includes_iff)
    next
      case short: False
      define r where "r = drop (length w) t"
      have "take (length w) t = w" using arg_cong [OF w(3), of "take (length w)"] short by simp
      then have "t = w @ r" unfolding r_def by (metis append_take_drop_id)
      with w(3) short have r: "t = w @ r" "b = r @ v" "r \<noteq> []" by auto
      let ?n = "length w"
      have "js_endsWith a (take ?n t)" using w(1) r(1) by (auto simp: js_endsWith_iff)
      moreover have "js_startsWith b (drop ?n t)" using r by (auto simp: js_startsWith_iff)
      ultimately show ?thesis using w(2) r by (intro disjI2 exI [of _ ?n]) auto
    qed
  qed
qed

text \<open>A path of the app never completes one of the two address parts the interceptor looks for.\<close>

lemma no_account_route:
  assumes "path \<in> set protected_paths"
    and "\<not> js_includes origin ''/accounts/current''" "\<not> js_includes origin ''/profiles''"
  shows "\<not> isAccountOrProfileRoute (origin @ path)"
proof
  assume "isAccountOrProfileRoute (origin @ path)"
  then consider (acc) "js_includes (origin @ path) ''/accounts/current''" | (prof) "js_includes (origin @ path) ''/profiles''"
    by (auto simp: isAccountOrProfileRoute_def)
  then show False
  proof cases
    case acc
    have "\<not> js_includes path ''/accounts/current''"
      using assms(1) by (auto simp: protected_paths_def js_startsWith_def)
    with includes_append_cases [OF acc] assms(2) obtain n where n: "0 < n" "n < 17"
      and st: "js_startsWith path (drop n ''/accounts/current'')" by auto
    have "n \<in> set [1..<17]" using n by auto
    then have "\<not> js_startsWith path (drop n ''/accounts/current'')"
      using assms(1) by (auto simp: protected_paths_def js_startsWith_def upt_rec)
    with st show False by simp
  next
    case prof
    have "\<not> js_includes path ''/profiles''"
      using assms(1) by (auto simp: protected_paths_def js_startsWith_def)
    with includes_append_cases [OF prof] assms(3) obtain n where n: "0 < n" "n < 9"
      and st: "js_startsWith path (drop n ''/profiles'')" by auto
    have "n \<in> set [1..<9]" using n by auto
    then have "\<not> js_startsWith path (drop n ''/profiles'')"
      using assms(1) by (auto simp: protected_paths_def js_startsWith_def upt_rec)
    with st show False by simp
  qed
qed

text \<open>
  Fact (not_found_keeps_session). On every protected page a 404 answer leaves the session as it is, also
  where the interceptor sees it, which shows a message only: its test for account and profile routes
  reads the address of the page, and no page of the app has such an address.
\<close>

theorem not_found_keeps_session:
  assumes "au_path a \<in> set protected_paths"
    and "\<not> js_includes origin ''/accounts/current''" "\<not> js_includes origin ''/profiles''"
  shows "axios_failed AxiosClient origin (Some 404) body a = add_toast TError ''The requested resource was not found.'' a"
  using no_account_route [OF assms]
  by (simp add: axios_failed_def interceptor_def handle_window_event_def add_toast_def)

theorem not_found_keeps_session_witness:
  "let a = \<lparr>au_isAuthenticated = True, au_seen = True, au_key = Some ''true'', au_path = ''/settings'',
            au_store = initial_store, au_toasts = []\<rparr>
   in au_isAuthenticated (axios_failed AxiosClient ''https://app'' (Some 404) None a)"
  using not_found_keeps_session
    [of "\<lparr>au_isAuthenticated = True, au_seen = True, au_key = Some ''true'', au_path = ''/settings'',
          au_store = initial_store, au_toasts = []\<rparr>" "''https://app''" None]
  by (simp add: protected_paths_def js_startsWith_def)

subsection \<open>The loaders\<close>

datatype 'a answer = Fulfilled 'a | Rejected "nat option"

datatype load = Redirect string | Loaded "ModelAccount option" "ModelProfile list"

record loading =
  ld_result :: load
  ld_store :: AppState
  ld_events :: "AppEvent list"
  ld_toasts :: "(toast_level \<times> string) list"

definition isAuthExpiryError :: "nat option \<Rightarrow> bool" where
  "isAuthExpiryError status = (status = Some 401 \<or> status = Some 404)"

definition revalidateAccountAndProfiles ::
  "ModelAccount answer \<Rightarrow> ModelProfile list answer \<Rightarrow> AppState \<Rightarrow> AppState \<times> AppEvent list" where
  "revalidateAccountAndProfiles accountResult profilesResult s =
     (let s1 = (case accountResult of Fulfilled acc \<Rightarrow> setAccount (Some acc) s | Rejected _ \<Rightarrow> s);
          s2 = (case profilesResult of
                  Fulfilled ps \<Rightarrow> restoreActiveProfile ps (setProfiles ps s1) | Rejected _ \<Rightarrow> s1);
          sessionExpired =
            ((case accountResult of Rejected st \<Rightarrow> isAuthExpiryError st | _ \<Rightarrow> False) \<or>
             (case profilesResult of Rejected st \<Rightarrow> isAuthExpiryError st | _ \<Rightarrow> False))
      in (s2, if sessionExpired then [BusSessionExpired] else []))"

definition TOO_MANY_REQUESTS :: string where
  "TOO_MANY_REQUESTS = ''Too many requests. Some features may be temporarily unavailable.''"

text \<open>What both loaders make of a failed call.\<close>

definition loader_failed :: "nat option \<Rightarrow> AppState \<Rightarrow> loading" where
  "loader_failed status s =
     (if isAuthExpiryError status
      then \<lparr>ld_result = Redirect ''/login'', ld_store = s, ld_events = [BusSessionExpired], ld_toasts = []\<rparr>
      else if status = Some 429
      then \<lparr>ld_result = Loaded None [], ld_store = s, ld_events = [], ld_toasts = [(TError, TOO_MANY_REQUESTS)]\<rparr>
      else \<lparr>ld_result = Loaded None [], ld_store = s, ld_events = [], ld_toasts = []\<rparr>)"

text \<open>
  The two calls of a loader are made only on a cold start; on a warm one the cached data is returned
  and \<open>revalidateAccountAndProfiles\<close> runs when the answers arrive.
\<close>

definition rootLoader ::
  "string option \<Rightarrow> ModelAccount answer \<Rightarrow> ModelProfile list answer \<Rightarrow> AppState \<Rightarrow> loading" where
  "rootLoader authToken accountResult profilesResult s =
     (if authToken \<noteq> Some ''true''
      then \<lparr>ld_result = Redirect ''/login'', ld_store = s, ld_events = [], ld_toasts = []\<rparr>
      else if app_account s \<noteq> None \<and> app_profiles s \<noteq> []
      then \<lparr>ld_result = Loaded (app_account s) (app_profiles s), ld_store = s, ld_events = [], ld_toasts = []\<rparr>
      else case accountResult of
        Rejected status \<Rightarrow> loader_failed status s
      | Fulfilled account \<Rightarrow>
          let profiles = (case profilesResult of Fulfilled ps \<Rightarrow> ps | Rejected _ \<Rightarrow> [])
          in \<lparr>ld_result = Loaded (Some account) profiles,
              ld_store = restoreActiveProfile profiles (setProfiles profiles (setAccount (Some account) s)),
              ld_events = [], ld_toasts = []\<rparr>)"

definition profilesOnlyLoader :: "string option \<Rightarrow> ModelProfile list answer \<Rightarrow> AppState \<Rightarrow> loading" where
  "profilesOnlyLoader authToken profilesResult s =
     (if authToken \<noteq> Some ''true''
      then \<lparr>ld_result = Redirect ''/login'', ld_store = s, ld_events = [], ld_toasts = []\<rparr>
      else if app_profiles s \<noteq> []
      then \<lparr>ld_result = Loaded None (app_profiles s), ld_store = s, ld_events = [], ld_toasts = []\<rparr>
      else case profilesResult of
        Rejected status \<Rightarrow> loader_failed status s
      | Fulfilled profiles \<Rightarrow>
          \<lparr>ld_result = Loaded None profiles, ld_store = restoreActiveProfile profiles (setProfiles profiles s),
           ld_events = [], ld_toasts = []\<rparr>)"

definition profiles_revalidated :: "ModelProfile list answer \<Rightarrow> AppState \<Rightarrow> AppState \<times> AppEvent list" where
  "profiles_revalidated profilesResult s =
     (case profilesResult of
        Fulfilled fresh \<Rightarrow> (restoreActiveProfile fresh (setProfiles fresh s), [])
      | Rejected status \<Rightarrow> (s, if isAuthExpiryError status then [BusSessionExpired] else []))"

definition deliver :: "AppEvent list \<Rightarrow> auth \<Rightarrow> auth" where
  "deliver evs a = foldl (\<lambda>st ev. on_app_event ev st) a evs"

text \<open>A load as the provider sees it: the store is written, then the events reach the listener.\<close>

definition run_loader :: "(AppState \<Rightarrow> loading) \<Rightarrow> auth \<Rightarrow> load \<times> auth" where
  "run_loader load a =
     (let l = load (au_store a)
      in (ld_result l, deliver (ld_events l) (a\<lparr>au_store := ld_store l, au_toasts := au_toasts a @ ld_toasts l\<rparr>)))"

definition run_revalidation ::
  "ModelAccount answer \<Rightarrow> ModelProfile list answer \<Rightarrow> auth \<Rightarrow> auth" where
  "run_revalidation accountResult profilesResult a =
     (let (s, evs) = revalidateAccountAndProfiles accountResult profilesResult (au_store a)
      in deliver evs (a\<lparr>au_store := s\<rparr>))"

lemma deliver_simps [simp]: "deliver [] a = a" "deliver (ev # evs) a = deliver evs (on_app_event ev a)"
  by (simp_all add: deliver_def)

lemma expired_event:
  assumes "au_seen a"
  shows "\<not> au_isAuthenticated (on_app_event BusSessionExpired a) \<and>
         session_clear (au_store (on_app_event BusSessionExpired a)) \<and>
         au_path (on_app_event BusSessionExpired a) = ''/login'' \<and>
         au_toasts (on_app_event BusSessionExpired a) = au_toasts a @ [(TError, SESSION_EXPIRED)]"
  using assms by (simp add: on_app_event_def Let_def logout_toast_def)

text \<open>An authenticated session ended: once, with one message, and later events change nothing.\<close>

definition session_ended :: "auth \<Rightarrow> auth \<Rightarrow> bool" where
  "session_ended a x \<longleftrightarrow>
     \<not> au_isAuthenticated x \<and> session_clear (au_store x) \<and> au_path x = ''/login'' \<and>
     au_toasts x = au_toasts a @ [(TError, SESSION_EXPIRED)] \<and> au_key (auth_effects x) = Some ''false'' \<and>
     on_app_event BusSessionExpired (auth_effects x) = auth_effects x"

lemma expired_ends:
  assumes "au_seen a" and "au_isAuthenticated a" and "au_toasts b = au_toasts a" "au_seen b"
  shows "session_ended a (on_app_event BusSessionExpired b)"
  using assms by (simp add: session_ended_def on_app_event_def Let_def logout_toast_def auth_effects_def isPublicPath_def)



text \<open>
  Property C19 (warm_start_converges). A warm start returns the cached account and profiles at once. When
  both background answers are fulfilled, the store is the one a cold start with the same answers would
  have left. When one of them says that the session has died, the app ends up logged out at the log-in
  page with an empty store. When the account is fulfilled and the profiles are refused otherwise, warm
  and cold differ: the warm start keeps the cached list, a cold one leaves it empty.
\<close>

theorem warm_start_converges:
  fixes accountResult :: "ModelAccount answer" and profilesResult :: "ModelProfile list answer"
  assumes "au_isAuthenticated a" "au_seen a"
    and "app_account (au_store a) = Some old" "app_profiles (au_store a) \<noteq> []"
  defines "warm \<equiv> run_loader (rootLoader (Some ''true'') accountResult profilesResult) a"
    and "cold \<equiv> rootLoader (Some ''true'') accountResult profilesResult (setAccount None (au_store a))"
    and "final \<equiv> run_revalidation accountResult profilesResult a"
  shows "warm = (Loaded (Some old) (app_profiles (au_store a)), a) \<and>
         (\<forall>acc ps. accountResult = Fulfilled acc \<and> profilesResult = Fulfilled ps \<longrightarrow>
            au_store final = ld_store cold \<and> ld_result cold = Loaded (Some acc) ps \<and> au_isAuthenticated final) \<and>
         (\<forall>st. accountResult = Rejected st \<and> isAuthExpiryError st \<or> profilesResult = Rejected st \<and> isAuthExpiryError st \<longrightarrow>
            \<not> au_isAuthenticated final \<and> session_clear (au_store final) \<and> au_path final = ''/login'') \<and>
         (\<forall>acc st. accountResult = Fulfilled acc \<and> profilesResult = Rejected st \<and> \<not> isAuthExpiryError st \<longrightarrow>
            app_account (au_store final) = Some acc \<and> app_profiles (au_store final) = app_profiles (au_store a) \<and>
            ld_result cold = Loaded (Some acc) [] \<and> app_profiles (ld_store cold) = [])"
proof (intro conjI allI impI)
  show "warm = (Loaded (Some old) (app_profiles (au_store a)), a)"
    using assms(3,4) by (simp add: warm_def run_loader_def rootLoader_def)
next
  fix acc ps assume ok: "accountResult = Fulfilled acc \<and> profilesResult = Fulfilled ps"
  have "setAccount (Some acc) (setAccount None (au_store a)) = setAccount (Some acc) (au_store a)"
    by (simp add: setAccount_def)
  with ok show "au_store final = ld_store cold" and "ld_result cold = Loaded (Some acc) ps" and "au_isAuthenticated final"
    using assms(1) by (simp_all add: final_def cold_def run_revalidation_def revalidateAccountAndProfiles_def rootLoader_def)
next
  fix st
  assume dead: "accountResult = Rejected st \<and> isAuthExpiryError st \<or> profilesResult = Rejected st \<and> isAuthExpiryError st"
  have "snd (revalidateAccountAndProfiles accountResult profilesResult (au_store a)) = [BusSessionExpired]"
    using dead by (auto simp: revalidateAccountAndProfiles_def Let_def)
  then obtain s where s: "revalidateAccountAndProfiles accountResult profilesResult (au_store a) = (s, [BusSessionExpired])"
    by (metis surjective_pairing)
  have "final = on_app_event BusSessionExpired (a\<lparr>au_store := s\<rparr>)"
    by (simp add: final_def run_revalidation_def s)
  then show "\<not> au_isAuthenticated final" and "session_clear (au_store final)" and "au_path final = ''/login''"
    using expired_event [of "a\<lparr>au_store := s\<rparr>"] assms(2) by simp_all
next
  fix acc st
  assume refused: "accountResult = Fulfilled acc \<and> profilesResult = Rejected st \<and> \<not> isAuthExpiryError st"
  then show "app_account (au_store final) = Some acc" "app_profiles (au_store final) = app_profiles (au_store a)"
    "ld_result cold = Loaded (Some acc) []" "app_profiles (ld_store cold) = []"
    by (simp_all add: final_def cold_def run_revalidation_def revalidateAccountAndProfiles_def rootLoader_def)
qed

definition plain_account :: "string \<Rightarrow> ModelAccount" where
  "plain_account email =
     \<lparr>ac_auth_methods = Some [''password''], ac_email = Some email, ac_email_verified = Some True,
      ac_error_reports_consent = None, ac_id = Some email, ac_totp_enabled = Some False, ac_profiles = None\<rparr>"

definition signed_in :: "AppState \<Rightarrow> auth" where
  "signed_in s = \<lparr>au_isAuthenticated = True, au_seen = True, au_key = Some ''true'', au_path = ''/home'',
                  au_store = s, au_toasts = []\<rparr>"

theorem warm_start_converges_witness:
  "let a = signed_in (setAccount (Some (plain_account ''u'')) (setProfiles [plain_profile ''p1'' ''Home''] initial_store))
   in fst (run_loader (rootLoader (Some ''true'') (Rejected (Some 401)) (Rejected None)) a) =
        Loaded (Some (plain_account ''u'')) [plain_profile ''p1'' ''Home''] \<and>
      au_path (run_revalidation (Rejected (Some 401)) (Rejected None) a) = ''/login''"
  using warm_start_converges
    [of "signed_in (setAccount (Some (plain_account ''u'')) (setProfiles [plain_profile ''p1'' ''Home''] initial_store))"
      "plain_account ''u''" "Rejected (Some 401)" "Rejected None"]
  by (simp add: signed_in_def isAuthExpiryError_def)

text \<open>
  Fact (late_refresh_shows_previous_account). A background refresh that was under way when the
  user logged out fills the cleared store again with the account and the profiles of that user, and
  the next log-in, whoever it is, is served them from the cache whatever the API answers.
\<close>

theorem late_refresh_shows_previous_account:
  fixes a :: auth and msg :: "string option" and level :: toast_level and acc :: ModelAccount
    and ps :: "ModelProfile list" and toast :: bool
  assumes "ps \<noteq> []"
  defines "out \<equiv> auth_effects (logout msg level a)"
  defines "refilled \<equiv> run_revalidation (Fulfilled acc) (Fulfilled ps) out"
  defines "again \<equiv> auth_effects (login toast refilled)"
  shows "session_clear (au_store out) \<and> \<not> au_isAuthenticated refilled \<and>
         app_account (au_store refilled) = Some acc \<and> app_profiles (au_store refilled) = ps \<and>
         fst (run_loader (rootLoader (au_key again) accountResult profilesResult) again) = Loaded (Some acc) ps"
proof -
  have out: "session_clear (au_store out)" "\<not> au_isAuthenticated out"
    by (auto simp: out_def auth_effects_def logout_def Let_def)
  have refilled: "refilled = out\<lparr>au_store := restoreActiveProfile ps (setProfiles ps (setAccount (Some acc) (au_store out)))\<rparr>"
    by (simp add: refilled_def run_revalidation_def revalidateAccountAndProfiles_def)
  have "au_store again = au_store refilled" "au_key again = Some ''true''"
    by (simp_all add: again_def auth_effects_def login_def Let_def)
  with refilled out assms(1) show ?thesis by (simp add: run_loader_def rootLoader_def Let_def)
qed

theorem late_refresh_shows_previous_account_witness:
  "let a = signed_in (setAccount (Some (plain_account ''u'')) (setProfiles [plain_profile ''p1'' ''Home''] initial_store));
       out = auth_effects (logout None TSuccess a);
       refilled = run_revalidation (Fulfilled (plain_account ''u'')) (Fulfilled [plain_profile ''p1'' ''Home'']) out;
       again = auth_effects (login True refilled)
   in fst (run_loader (rootLoader (au_key again) (Fulfilled (plain_account ''other'')) (Fulfilled [])) again) =
        Loaded (Some (plain_account ''u'')) [plain_profile ''p1'' ''Home'']"
  using late_refresh_shows_previous_account [of "[plain_profile ''p1'' ''Home'']"] by simp

subsection \<open>Guards and layout\<close>

text \<open>
  The guard of cut-off accounts: the subscription is read once, and a cut-off account is kept on its
  preferences page. \<open>None\<close> is a failed request.
\<close>

definition subscription_loaded :: "ModelSubscription option \<Rightarrow> AppState \<Rightarrow> AppState" where
  "subscription_loaded res s =
     (if app_subscriptionStatus s \<noteq> None then s
      else case res of
        None \<Rightarrow> s
      | Some d \<Rightarrow>
          setSubscriptionDeletionScheduled (truthy_str (sb_deletion_scheduled_at d))
            (setSubscriptionType (sb_type d) (setSubscriptionStatus (sb_status d) s)))"

definition AccountCutoffGuard :: "AppState \<Rightarrow> string \<Rightarrow> string" where
  "AccountCutoffGuard s path =
     (if gd_isCutOff (useSubscriptionGuard s) \<and> path \<noteq> ''/account-preferences'' then ''/account-preferences'' else path)"

text \<open>Where the protected layout sends the user, \<open>None\<close> when it renders the page.\<close>

definition ProtectedLayout_redirect :: "bool \<Rightarrow> string option \<Rightarrow> string \<Rightarrow> string option" where
  "ProtectedLayout_redirect isAuthenticated key path =
     (if \<not> isAuthenticated \<or> key \<noteq> Some ''true'' then Some ''/login''
      else if path = ''/'' then Some ''/home'' else None)"

definition closes_right_panel :: "AppState \<Rightarrow> string \<Rightarrow> AppState" where
  "closes_right_panel s path =
     (if app_rightPanelOpen s \<and> path \<noteq> ''/setup'' then setRightPanelOpen False s else s)"

definition getCurrentPageName :: "string \<Rightarrow> string" where
  "getCurrentPageName path =
     (if path = ''/home'' \<or> path = ''/setup'' then ''''
      else if path = ''/blocklists'' then ''Blocklists''
      else if path = ''/custom-rules'' then ''Custom rules''
      else if path = ''/settings'' then ''Settings''
      else if path = ''/statistics'' then ''Statistics''
      else if path = ''/query-logs'' then ''Logs''
      else if path = ''/account-preferences'' then ''Account preferences''
      else if path = ''/mobileconfig'' then ''Mobile configuration''
      else if js_startsWith path ''/setup/'' then ''DNS Setup''
      else if js_startsWith path ''/blocklists/'' then ''Blocklists''
      else if js_startsWith path ''/custom-rules/'' then ''Custom rules''
      else if js_startsWith path ''/settings/'' then ''Settings''
      else if js_startsWith path ''/statistics/'' then ''Statistics''
      else if js_startsWith path ''/query-logs/'' then ''Logs''
      else if js_startsWith path ''/account-preferences/'' then ''Account''
      else if js_startsWith path ''/mobileconfig/'' then ''Mobile configuration''
      else ''Dashboard'')"

definition showProfileDropdown :: "string \<Rightarrow> bool" where
  "showProfileDropdown path = (path \<noteq> ''/home'' \<and> path \<noteq> ''/account-preferences'')"

definition shouldRenderConnectionHeader :: "bool \<Rightarrow> AppState \<Rightarrow> bool" where
  "shouldRenderConnectionHeader isDesktop s =
     (isDesktop \<and> app_connectionStatusVisible s \<and> \<not> gd_isCutOff (useSubscriptionGuard s))"

definition shouldShowConnectionStatusRestore :: "bool \<Rightarrow> AppState \<Rightarrow> bool" where
  "shouldShowConnectionStatusRestore isDesktop s =
     (isDesktop \<and> (gd_isCutOff (useSubscriptionGuard s) \<or> \<not> app_connectionStatusVisible s))"

definition RootIndexRedirect :: "bool \<Rightarrow> string option \<Rightarrow> bool" where
  "RootIndexRedirect isAuthenticated key = (isAuthenticated \<and> key = Some ''true'')"

definition LoginWrapper :: "bool \<Rightarrow> string \<Rightarrow> string" where
  "LoginWrapper isAuthenticated path = (if isAuthenticated then ''/home'' else path)"

lemma connection_header_or_button:
  "isDesktop \<Longrightarrow> shouldRenderConnectionHeader isDesktop s \<noteq> shouldShowConnectionStatusRestore isDesktop s"
  by (auto simp: shouldRenderConnectionHeader_def shouldShowConnectionStatusRestore_def)

end
