(* ===== verification/Login.thy ===== *)
theory Login
  imports Session
begin

text \<open>
  The log-in page (app/src/pages/auth/Login.tsx), the passkey functions (app/src/lib/webauthn.ts) and
  the log-in handler of the API (api/api/auth.go) with its check of the second factor
  (api/service/account/account.go).

  The WebAuthn ceremony is done by a package and the browser: its result is an argument, a completed
  response or the error thrown. The password and one-time-code checks of the API are parameters.
\<close>

subsection \<open>Errors of the passkey functions\<close>

text \<open>
  What a call can throw: its \<open>name\<close> and \<open>message\<close>, and for a failed request the status and the two
  texts of the body, \<open>error\<close> and \<open>message\<close>. \<open>we_axios\<close> is \<open>axios.isAxiosError\<close>, \<open>we_isError\<close> is \<open>instanceof Error\<close>.
\<close>

record web_error =
  we_name :: string
  we_message :: "string option"
  we_isError :: bool
  we_axios :: bool
  we_status :: "nat option"
  we_error :: "string option"
  we_dataMessage :: "string option"

definition new_Error :: "string \<Rightarrow> web_error" where
  "new_Error msg = \<lparr>we_name = ''Error'', we_message = Some msg, we_isError = True, we_axios = False,
                    we_status = None, we_error = None, we_dataMessage = None\<rparr>"

definition too_many_requests :: web_error where
  "too_many_requests = new_Error ''Too many requests. Please try again in a moment.''"

text \<open>
  The end of the three catch blocks: the four texts are for a cancelled ceremony, an authenticator
  that refuses, one that is not supported, and the rest.
\<close>

definition describe_error :: "string \<Rightarrow> string \<Rightarrow> string \<Rightarrow> string \<Rightarrow> web_error \<Rightarrow> web_error" where
  "describe_error cancelled refused unsupported fallback err =
     (if we_name err = ''NotAllowedError'' then new_Error cancelled
      else if we_name err = ''InvalidStateError'' then new_Error refused
      else if we_name err = ''NotSupportedError'' then new_Error unsupported
      else if truthy_str (we_error err) then new_Error (the (we_error err))
      else if truthy_str (we_message err) then err
      else new_Error fallback)"

text \<open>An error of the ceremony that says the authenticator refused becomes the given message.\<close>

definition refine_ceremony :: "string \<Rightarrow> web_error + 'a \<Rightarrow> web_error + 'a" where
  "refine_ceremony msg r =
     (case r of
        Inl err \<Rightarrow> (if we_isError err \<and> we_name err = ''InvalidStateError'' then Inl (new_Error msg) else Inl err)
      | Inr x \<Rightarrow> Inr x)"

definition not_supported :: web_error where
  "not_supported = new_Error ''WebAuthn is not supported in this browser''"

definition no_options :: web_error where
  "no_options = new_Error ''Invalid WebAuthn options received from server''"

definition ALREADY_HOLDS_PASSKEY :: string where
  "ALREADY_HOLDS_PASSKEY = ''This device or password manager already has a passkey for your account (passkeys sync across your devices). To add another one, use a different authenticator, such as a security key.''"

text \<open>
  The steps every ceremony shares: the first request answers with options or fails, the authenticator
  completes or throws, and the last request answers with a status or fails. The options are
  \<open>Some\<close> when the answer has them.
\<close>

definition ceremony_steps ::
  "bool \<Rightarrow> web_error + 'o option \<Rightarrow> ('o \<Rightarrow> web_error + 'r) \<Rightarrow> string \<Rightarrow> ('r \<Rightarrow> web_error + nat) \<Rightarrow> string \<Rightarrow> web_error + unit" where
  "ceremony_steps supported begin_answer authenticator refused finish failed =
     (if \<not> supported then Inl not_supported
      else case begin_answer of
        Inl err \<Rightarrow> Inl err
      | Inr None \<Rightarrow> Inl no_options
      | Inr (Some options) \<Rightarrow>
          (case refine_ceremony refused (authenticator options) of
             Inl err \<Rightarrow> Inl err
           | Inr response \<Rightarrow>
               (case finish response of
                  Inl err \<Rightarrow> Inl err
                | Inr status \<Rightarrow> if status \<noteq> 201 then Inl (new_Error failed) else Inr ())))"

definition registerPasskey ::
  "bool \<Rightarrow> web_error + 'o option \<Rightarrow> ('o \<Rightarrow> web_error + 'r) \<Rightarrow> ('r \<Rightarrow> web_error + nat) \<Rightarrow> web_error + unit" where
  "registerPasskey supported begin_answer authenticator finish =
     (case ceremony_steps supported begin_answer authenticator
             ''A passkey might already be registered for this device'' finish
             ''Failed to complete passkey registration'' of
        Inr u \<Rightarrow> Inr u
      | Inl err \<Rightarrow>
          if we_axios err \<and> we_status err = Some 429 then Inl too_many_requests
          else Inl (describe_error ''Passkey registration was cancelled or timed out''
                 ''A passkey is already registered for this account on this device''
                 ''Passkey registration is not supported on this device''
                 ''Passkey registration failed'' err))"

definition SESSION_LIMIT :: string where
  "SESSION_LIMIT = ''maximum number of active sessions reached''"

text \<open>
  \<open>onLimit\<close> says whether the caller passed the session-limit callback. The result tells a return from
  an error, and a return whether the callback was called.
\<close>

datatype passkey_result = SignedIn | LimitReported | PasskeyFailed web_error

definition authenticateWithPasskey ::
  "bool \<Rightarrow> bool \<Rightarrow> web_error + 'o option \<Rightarrow> ('o \<Rightarrow> web_error + 'r) \<Rightarrow> ('r \<Rightarrow> web_error + nat) \<Rightarrow> passkey_result" where
  "authenticateWithPasskey onLimit supported begin_answer authenticator finish =
     (case ceremony_steps supported begin_answer authenticator
             ''No passkey found for this account'' finish ''Passkey authentication failed'' of
        Inr _ \<Rightarrow> SignedIn
      | Inl err \<Rightarrow>
          if we_axios err \<and> we_status err = Some 429 then
            (let errorMessage = or_str (we_error err) (or_str (we_dataMessage err) '''')
             in if js_includes (js_toLowerCase errorMessage) SESSION_LIMIT then
                  (if onLimit then LimitReported
                   else PasskeyFailed (new_Error ''Maximum number of active sessions reached. Please log out from other devices or wait for sessions to expire.''))
                else PasskeyFailed too_many_requests)
          else PasskeyFailed (describe_error ''Passkey authentication was cancelled or timed out''
                 ''No passkey found for this account''
                 ''Passkey authentication is not supported on this device''
                 ''Passkey authentication failed'' err))"

text \<open>The body and the second-factor arguments that carry a completed identity check.\<close>

record IdentityVerification =
  iv_currentPassword :: "string option"
  iv_otp :: "string option"
  iv_reauthToken :: "string option"

record credential_body =
  cb_current_password :: "string option"
  cb_reauth_token :: "string option"

definition verificationRequest :: "IdentityVerification \<Rightarrow> credential_body \<times> (string \<times> string list) option" where
  "verificationRequest v =
     (if truthy_str (iv_reauthToken v)
      then \<lparr>cb_current_password = None, cb_reauth_token = iv_reauthToken v\<rparr>
      else \<lparr>cb_current_password = iv_currentPassword v, cb_reauth_token = None\<rparr>,
      if truthy_str (iv_otp v) then Some (the (iv_otp v), [''totp'']) else None)"

definition addPasskeyToAccount ::
  "bool \<Rightarrow> web_error + 'o option \<Rightarrow> ('o \<Rightarrow> web_error + 'r) \<Rightarrow> ('r \<Rightarrow> web_error + nat) \<Rightarrow> web_error + unit" where
  "addPasskeyToAccount supported begin_answer authenticator finish =
     (case ceremony_steps supported begin_answer authenticator ALREADY_HOLDS_PASSKEY finish
             ''Failed to complete passkey addition'' of
        Inr u \<Rightarrow> Inr u
      | Inl err \<Rightarrow>
          if we_axios err \<and> we_status err = Some 429 then Inl too_many_requests
          else Inl (describe_error ''Passkey addition was cancelled or timed out''
                 ALREADY_HOLDS_PASSKEY ''Passkey addition is not supported on this device''
                 ''Failed to add passkey'' err))"

text \<open>The reauthentication: the result is the message thrown or the token.\<close>

definition beginReauthForPurpose ::
  "web_error + 'o \<Rightarrow> ('o \<Rightarrow> web_error + 'r) \<Rightarrow> ('r \<Rightarrow> web_error + string option) \<Rightarrow> string + string" where
  "beginReauthForPurpose begin_answer authenticator finish =
     (case (case begin_answer of
              Inl err \<Rightarrow> Inl err
            | Inr options \<Rightarrow>
                (case authenticator options of
                   Inl err \<Rightarrow> Inl err
                 | Inr response \<Rightarrow>
                     (case finish response of
                        Inl err \<Rightarrow> Inl err
                      | Inr token \<Rightarrow> if truthy_str token then Inr (the token)
                                     else Inl (new_Error ''Missing reauth token'')))) of
        Inr token \<Rightarrow> Inr token
      | Inl err \<Rightarrow>
          Inl (if we_name err = ''NotAllowedError'' then ''Passkey verification was cancelled or timed out.''
               else if truthy_str (we_error err) then the (we_error err)
               else or_str (we_message err) ''Passkey reauthentication failed.''))"

lemma reauth_result_nonempty:
  "(case beginReauthForPurpose begin_answer authenticator finish of Inl msg \<Rightarrow> msg \<noteq> [] | Inr token \<Rightarrow> token \<noteq> [])"
proof -
  have truthy: "truthy_str x \<Longrightarrow> the x \<noteq> []" for x by (cases x) auto
  have orstr: "d \<noteq> [] \<Longrightarrow> or_str x d \<noteq> []" for x d by (cases x) auto
  show ?thesis
    by (auto simp: beginReauthForPurpose_def truthy orstr split: sum.split)
qed

subsection \<open>Logging in at the API\<close>

record api_account =
  aa_email :: string
  aa_password :: "string option"
  aa_totp :: bool
  aa_sessions :: nat

text \<open>
  The validator's complaint about a request, the comparison of a password with its hash, the error of
  the one-time-code check, and the configured number of sessions.
\<close>

record login_env =
  le_validation :: "string \<Rightarrow> string \<Rightarrow> string option"
  le_hash_ok :: "string \<Rightarrow> string \<Rightarrow> bool"
  le_totp_error :: "string \<Rightarrow> string \<Rightarrow> string option"
  le_limit :: nat

definition TOTP_REQUIRED :: string where
  "TOTP_REQUIRED = ''TOTP is required''"

definition MfaCheck :: "login_env \<Rightarrow> api_account \<Rightarrow> string \<Rightarrow> string option" where
  "MfaCheck env acc otp =
     (if aa_totp acc \<and> otp = [] then Some TOTP_REQUIRED
      else if aa_totp acc \<and> otp \<noteq> [] then le_totp_error env (aa_email acc) otp
      else None)"

text \<open>A status sent without a JSON body.\<close>

definition bare_status :: "nat \<Rightarrow> thrown" where
  "bare_status status =
     ThrownObject \<lparr>ae_status = Some status, ae_data = Some \<lparr>ed_error = None, ed_message = None, ed_detail = None\<rparr>,
                   ae_message = None\<rparr>"

definition set_sessions :: "string \<Rightarrow> nat \<Rightarrow> api_account list \<Rightarrow> api_account list" where
  "set_sessions email n accs = map (\<lambda>a. if aa_email a = email then a\<lparr>aa_sessions := n\<rparr> else a) accs"

definition api_login ::
  "login_env \<Rightarrow> string \<Rightarrow> string \<Rightarrow> string \<Rightarrow> bool \<Rightarrow> api_account list \<Rightarrow> (thrown + nat) \<times> api_account list" where
  "api_login env email password otp remove accs =
     (case le_validation env email password of
        Some msg \<Rightarrow> (Inl (api_error 400 (''Validation error: '' @ msg)), accs)
      | None \<Rightarrow>
          (case find (\<lambda>a. aa_email a = email) accs of
             None \<Rightarrow> (Inl (bare_status 401), accs)
           | Some acc \<Rightarrow>
               if aa_password acc = None \<or> js_trim password = [] then (Inl (bare_status 401), accs)
               else if \<not> le_hash_ok env password (the (aa_password acc)) then (Inl (bare_status 401), accs)
               else
                 (case MfaCheck env acc otp of
                    Some msg \<Rightarrow> (Inl (api_error 401 msg), accs)
                  | None \<Rightarrow>
                      if remove then (Inr 200, set_sessions email 1 accs)
                      else if le_limit env \<le> aa_sessions acc then (Inl (api_error 429 SESSION_LIMIT), accs)
                      else (Inr 200, set_sessions email (Suc (aa_sessions acc)) accs))))"

subsection \<open>The page\<close>

record login_page =
  lg_loading :: bool
  lg_showOtp :: bool
  lg_pendingEmail :: string
  lg_pendingPassword :: string
  lg_dialog :: bool
  lg_dialogLoading :: bool
  lg_auth :: auth

definition init_login :: "auth \<Rightarrow> login_page" where
  "init_login a = \<lparr>lg_loading = False, lg_showOtp = False, lg_pendingEmail = [], lg_pendingPassword = [],
                   lg_dialog = False, lg_dialogLoading = False, lg_auth = a\<rparr>"

definition page_toast :: "toast_level \<Rightarrow> string \<Rightarrow> login_page \<Rightarrow> login_page" where
  "page_toast lvl msg p = p\<lparr>lg_auth := add_toast lvl msg (lg_auth p)\<rparr>"

definition logged_in :: "bool \<Rightarrow> login_page \<Rightarrow> login_page" where
  "logged_in showToast p = p\<lparr>lg_auth := (login showToast (lg_auth p))\<lparr>au_path := ''/home''\<rparr>\<rparr>"

definition INVALID_CREDENTIALS :: string where
  "INVALID_CREDENTIALS = ''Invalid credentials or login failed.''"

definition login_failed :: "string \<Rightarrow> string \<Rightarrow> thrown \<Rightarrow> login_page \<Rightarrow> login_page" where
  "login_failed email password err p =
     (let response = (case err of ThrownObject e \<Rightarrow> Some e | _ \<Rightarrow> None);
          status = Option.bind response ae_status;
          apiErr = Option.bind (Option.bind response ae_data) ed_error
      in if status = Some 401 then
           (if apiErr = Some TOTP_REQUIRED \<or> apiErr = Some ''TOTP_REQUIRED''
            then (page_toast TInfo ''Two-factor authentication required. Please enter your code.'' p)
                   \<lparr>lg_showOtp := True, lg_pendingEmail := email, lg_pendingPassword := password\<rparr>
            else page_toast TError ''Unauthorized. Please check your credentials.'' p)
         else if status = Some 429 then
           (if apiErr = Some SESSION_LIMIT
            then p\<lparr>lg_dialog := True, lg_pendingEmail := email, lg_pendingPassword := password\<rparr>
            else page_toast TError ''Too many login attempts. Please try again later.'' p)
         else if status = Some 400 then
           (if js_includes (js_toLowerCase (or_str apiErr '''')) ''invalid''
            then page_toast TError INVALID_CREDENTIALS p
            else page_toast TError (or_str apiErr ''An unexpected error occurred.'') p)
         else page_toast TError (or_str apiErr ''An unexpected error occurred.'') p)"

text \<open>
  What happens on the way: the request and its answer arrive, the request does not reach the API, or
  the API serves it and its answer is lost, by a dropped connection or a timeout of a gateway. The
  last two throw.
\<close>

datatype network = Delivered | RequestLost thrown | AnswerLost thrown

definition post_login ::
  "login_env \<Rightarrow> network \<Rightarrow> string \<Rightarrow> string \<Rightarrow> string \<Rightarrow> bool \<Rightarrow> api_account list \<Rightarrow> (thrown + nat) \<times> api_account list" where
  "post_login env net email password otp remove accs =
     (case net of
        Delivered \<Rightarrow> api_login env email password otp remove accs
      | RequestLost t \<Rightarrow> (Inl t, accs)
      | AnswerLost t \<Rightarrow> (Inl t, snd (api_login env email password otp remove accs)))"

definition handleLogin ::
  "login_env \<Rightarrow> network \<Rightarrow> string \<Rightarrow> string \<Rightarrow> string option \<Rightarrow> login_page \<times> api_account list
     \<Rightarrow> login_page \<times> api_account list" where
  "handleLogin env net email password otp st =
     (let (answer, accs) = post_login env net email password (nullish otp '''') False (snd st);
          p = fst st
      in (case answer of
            Inr status \<Rightarrow>
              if status = 200 then (logged_in True p)\<lparr>lg_loading := False\<rparr>
              else (page_toast TError INVALID_CREDENTIALS p)\<lparr>lg_loading := False\<rparr>
          | Inl err \<Rightarrow> (login_failed email password err p)\<lparr>lg_loading := False\<rparr>,
          accs))"

definition handleOtpLogin ::
  "login_env \<Rightarrow> network \<Rightarrow> string \<Rightarrow> login_page \<times> api_account list \<Rightarrow> login_page \<times> api_account list" where
  "handleOtpLogin env net otp st =
     handleLogin env net (lg_pendingEmail (fst st)) (lg_pendingPassword (fst st)) (Some otp) st"

definition dialog_closed :: "login_page \<Rightarrow> login_page" where
  "dialog_closed p = p\<lparr>lg_dialog := False, lg_pendingEmail := [], lg_pendingPassword := [], lg_dialogLoading := False\<rparr>"

text \<open>\<open>passkey\<close> is the outcome of the passkey log-in, asked for when there is no pending password.\<close>

definition handleRemoveAllSessions ::
  "login_env \<Rightarrow> network \<Rightarrow> passkey_result \<Rightarrow> login_page \<times> api_account list \<Rightarrow> login_page \<times> api_account list" where
  "handleRemoveAllSessions env net passkey st =
     (let p = fst st in
      if lg_pendingEmail p = [] then st
      else if lg_pendingPassword p = [] then
        (case passkey of
           PasskeyFailed _ \<Rightarrow> (dialog_closed p, snd st)
         | _ \<Rightarrow> (dialog_closed (logged_in True p), snd st))
      else
        (let (answer, accs) = post_login env net (lg_pendingEmail p) (lg_pendingPassword p) '''' True (snd st)
         in (case answer of
               Inr status \<Rightarrow> if status = 200 then dialog_closed (logged_in True p) else dialog_closed p
             | Inl _ \<Rightarrow> dialog_closed p, accs)))"

definition handleCancelSessionLimit :: "login_page \<Rightarrow> login_page" where
  "handleCancelSessionLimit p = p\<lparr>lg_dialog := False, lg_pendingEmail := [], lg_pendingPassword := []\<rparr>"

definition handlePasskeyLogin :: "passkey_result \<Rightarrow> string \<Rightarrow> login_page \<Rightarrow> login_page" where
  "handlePasskeyLogin outcome email p =
     (case outcome of
        SignedIn \<Rightarrow> (logged_in True p)\<lparr>lg_loading := False\<rparr>
      | LimitReported \<Rightarrow>
          (logged_in False (p\<lparr>lg_dialog := True, lg_pendingEmail := email, lg_pendingPassword := []\<rparr>))\<lparr>lg_loading := False\<rparr>
      | PasskeyFailed err \<Rightarrow>
          (page_toast TError (or_str (if we_isError err then we_message err else None) ''Passkey authentication failed'') p)
            \<lparr>lg_loading := False\<rparr>)"

text \<open>What the card of the page submits.\<close>

definition onLogin ::
  "login_env \<Rightarrow> network \<Rightarrow> string \<Rightarrow> string \<Rightarrow> string \<Rightarrow> login_page \<times> api_account list \<Rightarrow> login_page \<times> api_account list" where
  "onLogin env net email password otp st =
     (if lg_showOtp (fst st) then handleOtpLogin env net otp st
      else handleLogin env net email password None st)"

subsection \<open>What the log-in does\<close>

definition account_of :: "string \<Rightarrow> api_account list \<Rightarrow> api_account option" where
  "account_of email accs = find (\<lambda>a. aa_email a = email) accs"

lemma api_login_cases:
  assumes "api_login env email password otp False accs = (answer, accs')"
  obtains (ok) acc where "answer = Inr 200" "account_of email accs = Some acc"
      "accs' = set_sessions email (Suc (aa_sessions acc)) accs"
  | (refused) err where "answer = Inl err" "accs' = accs"
proof -
  from assms have "(\<exists>acc. answer = Inr 200 \<and> account_of email accs = Some acc \<and>
        accs' = set_sessions email (Suc (aa_sessions acc)) accs) \<or> (\<exists>err. answer = Inl err \<and> accs' = accs)"
    unfolding api_login_def account_of_def by (auto split: option.splits if_splits)
  then show thesis using that by blast
qed

lemma set_sessions_changes:
  assumes "account_of email accs = Some acc"
  shows "set_sessions email (Suc (aa_sessions acc)) accs \<noteq> accs"
proof
  assume same: "set_sessions email (Suc (aa_sessions acc)) accs = accs"
  have "find (\<lambda>a. aa_email a = email) (set_sessions email n accs) =
        map_option (\<lambda>a. a\<lparr>aa_sessions := n\<rparr>) (find (\<lambda>a. aa_email a = email) accs)" for n
    by (induction accs) (auto simp: set_sessions_def)
  from this [of "Suc (aa_sessions acc)"] same assms
  have "acc\<lparr>aa_sessions := Suc (aa_sessions acc)\<rparr> = acc" by (simp add: account_of_def)
  then have "aa_sessions (acc\<lparr>aa_sessions := Suc (aa_sessions acc)\<rparr>) = aa_sessions acc" by simp
  then show False by simp
qed

lemma login_failed_visible:
  fixes p :: login_page and email password :: string and err :: thrown
  defines "p' \<equiv> login_failed email password err p"
  shows "au_isAuthenticated (lg_auth p') = au_isAuthenticated (lg_auth p) \<and>
         au_path (lg_auth p') = au_path (lg_auth p) \<and> au_store (lg_auth p') = au_store (lg_auth p) \<and>
         ((\<exists>t. au_toasts (lg_auth p') = au_toasts (lg_auth p) @ [t]) \<and> lg_dialog p' = lg_dialog p \<or>
          au_toasts (lg_auth p') = au_toasts (lg_auth p) \<and> lg_dialog p')"
  unfolding p'_def login_failed_def page_toast_def by (simp add: Let_def split: thrown.split)

text \<open>The API has opened one more session for the account.\<close>

definition session_created :: "string \<Rightarrow> api_account list \<Rightarrow> api_account list \<Rightarrow> bool" where
  "session_created email accs accs' \<longleftrightarrow>
     (case account_of email accs of
        None \<Rightarrow> False
      | Some acc \<Rightarrow> accs' = set_sessions email (Suc (aa_sessions acc)) accs)"

lemma unchanged_not_created: "\<not> session_created email accs accs"
  unfolding session_created_def using set_sessions_changes [of email accs] by (auto split: option.split)


definition sample_env :: login_env where
  "sample_env = \<lparr>le_validation = (\<lambda>e p. if e = [] \<or> p = [] then Some ''email is required'' else None),
                 le_hash_ok = (\<lambda>p h. p = h),
                 le_totp_error = (\<lambda>e otp. if otp = ''123456'' then None else Some ''invalid 2FA code''),
                 le_limit = 2\<rparr>"

definition sample_account :: "bool \<Rightarrow> nat \<Rightarrow> api_account" where
  "sample_account totp n = \<lparr>aa_email = ''u'', aa_password = Some ''pw'', aa_totp = totp, aa_sessions = n\<rparr>"

definition signed_out :: auth where
  "signed_out = \<lparr>au_isAuthenticated = False, au_seen = False, au_key = Some ''false'', au_path = ''/login'',
                 au_store = initial_store, au_toasts = []\<rparr>"


text \<open>
  Fact (passkey_limit_logs_in). When the API refuses a passkey log-in because of the number of
  sessions, the page opens its dialog but logs the app in and leaves for the home page all the same.
  No session exists, so the first load there ends it with the message that the session has expired.
\<close>

theorem passkey_limit_logs_in:
  fixes begin_answer :: "web_error + 'o option" and authenticator :: "'o \<Rightarrow> web_error + 'r" and p :: login_page
    and email :: string and finish :: "'r \<Rightarrow> web_error + nat" and profilesResult :: "ModelProfile list answer"
  assumes "begin_answer = Inr (Some opts)" and "authenticator opts = Inr response"
    and "finish response = Inl err" and "we_axios err" "we_status err = Some 429" "we_error err = Some SESSION_LIMIT"
    and "app_account (au_store (lg_auth p)) = None"
  defines "outcome \<equiv> authenticateWithPasskey True True begin_answer authenticator finish"
  defines "p' \<equiv> handlePasskeyLogin outcome email p"
  defines "home \<equiv> run_loader (rootLoader (au_key (lg_auth p')) (Rejected (Some 401)) profilesResult)
                     (auth_effects (lg_auth p'))"
  shows "au_isAuthenticated (lg_auth p') \<and> au_path (lg_auth p') = ''/home'' \<and> lg_dialog p' \<and>
         fst home = Redirect ''/login'' \<and> \<not> au_isAuthenticated (snd home) \<and>
         au_toasts (snd home) = au_toasts (lg_auth p) @ [(TError, SESSION_EXPIRED)]"
proof -
  have low: "js_includes (js_toLowerCase SESSION_LIMIT) SESSION_LIMIT" by code_simp
  have ne: "SESSION_LIMIT \<noteq> []" by (simp add: SESSION_LIMIT_def)
  have out: "outcome = LimitReported"
    using assms(1-6) low ne by (simp add: outcome_def authenticateWithPasskey_def ceremony_steps_def refine_ceremony_def Let_def)
  have auth: "lg_auth p' = (lg_auth p)\<lparr>au_isAuthenticated := True, au_key := Some ''true'', au_path := ''/home''\<rparr>"
    and dialog: "lg_dialog p'"
    using out by (simp_all add: p'_def handlePasskeyLogin_def logged_in_def login_def Let_def)
  let ?a = "auth_effects (lg_auth p')"
  have load: "rootLoader (au_key (lg_auth p')) (Rejected (Some 401)) profilesResult (au_store ?a) =
      \<lparr>ld_result = Redirect ''/login'', ld_store = au_store ?a, ld_events = [BusSessionExpired], ld_toasts = []\<rparr>"
    using assms(7) auth by (simp add: rootLoader_def loader_failed_def isAuthExpiryError_def auth_effects_def)
  have home: "home = (Redirect ''/login'', on_app_event BusSessionExpired ?a)"
    by (simp add: home_def run_loader_def load Let_def)
  have "au_seen ?a" "au_toasts ?a = au_toasts (lg_auth p)" using auth by (simp_all add: auth_effects_def)
  with expired_event [of ?a] auth dialog home show ?thesis by simp
qed

theorem passkey_limit_logs_in_witness:
  "au_isAuthenticated (lg_auth (handlePasskeyLogin
      (authenticateWithPasskey True True (Inr (Some ())) (\<lambda>_. Inr ())
        (\<lambda>_. Inl \<lparr>we_name = ''AxiosError'', we_message = Some ''Request failed'', we_isError = True, we_axios = True,
                  we_status = Some 429, we_error = Some SESSION_LIMIT, we_dataMessage = None\<rparr>)) ''u'' (init_login signed_out)))"
  using passkey_limit_logs_in
    [of "Inr (Some ())" "()" "\<lambda>_. Inr ()" "()"
      "\<lambda>_. Inl \<lparr>we_name = ''AxiosError'', we_message = Some ''Request failed'', we_isError = True, we_axios = True,
                we_status = Some 429, we_error = Some SESSION_LIMIT, we_dataMessage = None\<rparr>"
      "\<lparr>we_name = ''AxiosError'', we_message = Some ''Request failed'', we_isError = True, we_axios = True,
        we_status = Some 429, we_error = Some SESSION_LIMIT, we_dataMessage = None\<rparr>"
      "init_login signed_out" "''u''" "Rejected None"]
  by (simp add: init_login_def signed_out_def initial_store_def)

text \<open>
  Fact (second_factor_cannot_remove_sessions). An account with a second factor that is at its
  session limit cannot use the dialog's offer to log out the other devices: the repeated request
  carries no code, so it is refused, no session is removed, nothing is shown, and the address and
  password the page would need for the code are forgotten: every code submitted afterwards is refused.
\<close>

theorem second_factor_cannot_remove_sessions:
  fixes p p1 :: login_page and accs accs1 :: "api_account list" and env :: login_env and passkey :: passkey_result
  assumes "account_of email accs = Some acc" and "aa_totp acc" and "lg_showOtp p"
    and "lg_pendingEmail p = email" "lg_pendingPassword p = password" "email \<noteq> []" "password \<noteq> []"
    and "le_validation env email password = None" and "\<forall>pw. \<exists>msg. le_validation env [] pw = Some msg"
    and "\<not> au_isAuthenticated (lg_auth p)"
    and "handleOtpLogin env Delivered otp (p, accs) = (p1, accs1)" and "lg_dialog p1" and "\<not> lg_dialog p"
  defines "st2 \<equiv> handleRemoveAllSessions env Delivered passkey (p1, accs1)"
  shows "snd st2 = accs \<and> \<not> au_isAuthenticated (lg_auth (fst st2)) \<and> \<not> lg_dialog (fst st2) \<and>
         au_toasts (lg_auth (fst st2)) = au_toasts (lg_auth p) \<and>
         (\<forall>email2 password2 otp2. let st3 = onLogin env Delivered email2 password2 otp2 st2 in
            snd st3 = accs \<and> \<not> au_isAuthenticated (lg_auth (fst st3)))"
proof -
  let ?st1 = "handleLogin env Delivered email password (Some otp) (p, accs)"
  have st1: "?st1 = (p1, accs1)" using assms(4,5,11) by (simp add: handleOtpLogin_def)
  obtain answer where ans: "api_login env email password otp False accs = (answer, accs1)"
    using st1 by (cases "api_login env email password otp False accs") (simp add: handleLogin_def post_login_def)
  from ans obtain err where err: "answer = Inl err" "accs1 = accs"
  proof (cases rule: api_login_cases)
    case (ok a)
    then have "\<not> lg_dialog p1"
      using st1 ans assms(13) by (auto simp: handleLogin_def post_login_def logged_in_def)
    with assms(12) show ?thesis by simp
  qed (use that in blast)
  have p1: "p1 = (login_failed email password err p)\<lparr>lg_loading := False\<rparr>"
    using st1 ans err by (simp add: handleLogin_def post_login_def)
  have keep: "lg_pendingEmail p1 = email" "lg_pendingPassword p1 = password" "lg_showOtp p1"
      "au_toasts (lg_auth p1) = au_toasts (lg_auth p)" "\<not> au_isAuthenticated (lg_auth p1)"
    using p1 assms(3-5,10,12,13) unfolding login_failed_def page_toast_def
    by (auto simp: Let_def split: if_splits)
  have refused: "\<exists>e. api_login env email password '''' True accs = (Inl e, accs)"
    using assms(1,2,8) by (auto simp: api_login_def account_of_def MfaCheck_def)
  have st2: "st2 = (dialog_closed p1, accs)"
    using keep refused assms(6,7) err by (auto simp: st2_def handleRemoveAllSessions_def post_login_def)
  have later: "snd (onLogin env Delivered email2 password2 otp2 st2) = accs \<and>
      \<not> au_isAuthenticated (lg_auth (fst (onLogin env Delivered email2 password2 otp2 st2)))" for email2 password2 otp2
  proof -
    obtain msg where "le_validation env [] [] = Some msg" using assms(9) by blast
    then show ?thesis
      using keep login_failed_visible [of "[]" "[]" "api_error 400 (''Validation error: '' @ msg)" "dialog_closed p1"]
      by (simp add: st2 onLogin_def handleOtpLogin_def dialog_closed_def handleLogin_def post_login_def api_login_def)
  qed
  show ?thesis using keep later by (simp add: st2 dialog_closed_def Let_def)
qed

definition at_limit :: "login_page \<times> api_account list" where
  "at_limit = (fst (handleLogin sample_env Delivered ''u'' ''pw'' None (init_login signed_out, [sample_account True 2])),
               [sample_account True 2])"

theorem second_factor_cannot_remove_sessions_witness:
  "let st1 = handleOtpLogin sample_env Delivered ''123456'' at_limit;
       st2 = handleRemoveAllSessions sample_env Delivered SignedIn st1
   in lg_dialog (fst st1) \<and> snd st2 = [sample_account True 2] \<and> au_toasts (lg_auth (fst st2)) = au_toasts (lg_auth (fst at_limit))"
proof -
  have facts: "lg_showOtp (fst at_limit)" "lg_pendingEmail (fst at_limit) = ''u''" "lg_pendingPassword (fst at_limit) = ''pw''"
      "\<not> au_isAuthenticated (lg_auth (fst at_limit))" "\<not> lg_dialog (fst at_limit)"
    "lg_dialog (fst (handleOtpLogin sample_env Delivered ''123456'' at_limit))"
    by code_simp+
  have acc: "account_of ''u'' [sample_account True 2] = Some (sample_account True 2)"
    by (simp add: account_of_def sample_account_def)
  have valid: "le_validation sample_env ''u'' ''pw'' = None" "\<forall>pw. \<exists>msg. le_validation sample_env [] pw = Some msg"
    by (simp_all add: sample_env_def)
  have pair: "(fst at_limit, [sample_account True 2]) = at_limit" by (simp add: at_limit_def)
  show ?thesis
    using second_factor_cannot_remove_sessions
      [of "''u''" "[sample_account True 2]" "sample_account True 2" "fst at_limit" "''pw''" sample_env "''123456''"
        "fst (handleOtpLogin sample_env Delivered ''123456'' at_limit)" "snd (handleOtpLogin sample_env Delivered ''123456'' at_limit)" SignedIn]
      facts acc valid
    by (simp add: pair Let_def) (simp add: sample_account_def)
qed

end
