(* ===== verification/Verification.thy ===== *)
theory Verification
  imports Login
begin

text \<open>
  Confirming who the user is before a sensitive action: the choice of the method
  (app/src/hooks/useAccountVerificationMethod.ts), the fields of the passkey settings
  (app/src/components/dialogs/VerifyIdentityFields.tsx), and the check of the API
  (api/internal/reauth/reauth.go).
\<close>

subsection \<open>The method\<close>

datatype VerificationMethod = Password | Passkey

definition hasPasskeys :: "ModelCredential list \<Rightarrow> bool" where
  "hasPasskeys passkeys = (passkeys \<noteq> [])"

definition passwordAvailable :: "ModelAccount option \<Rightarrow> bool" where
  "passwordAvailable account =
     (case account of
        None \<Rightarrow> True
      | Some a \<Rightarrow> (case ac_auth_methods a of
          None \<Rightarrow> True
        | Some methods \<Rightarrow> methods = [] \<or> ''password'' \<in> set methods))"

definition preferredMethod :: "bool \<Rightarrow> bool \<Rightarrow> VerificationMethod" where
  "preferredMethod has_passkeys password_available =
     (if has_passkeys \<and> \<not> password_available then Passkey
      else if \<not> has_passkeys \<and> password_available then Password
      else if has_passkeys \<and> password_available then Passkey
      else Password)"

definition isMethodAvailable :: "bool \<Rightarrow> bool \<Rightarrow> VerificationMethod \<Rightarrow> bool" where
  "isMethodAvailable has_passkeys password_available candidate =
     (if candidate = Passkey then has_passkeys else password_available)"

text \<open>The effect that follows a change of the dialog, the account or the passkeys.\<close>

definition method_effect :: "bool \<Rightarrow> bool \<Rightarrow> bool \<Rightarrow> VerificationMethod \<Rightarrow> VerificationMethod" where
  "method_effect is_open hp pa prev =
     (if \<not> is_open then preferredMethod hp pa
      else if isMethodAvailable hp pa prev then prev else preferredMethod hp pa)"

definition switchMethod :: "bool \<Rightarrow> bool \<Rightarrow> VerificationMethod \<Rightarrow> VerificationMethod \<Rightarrow> VerificationMethod" where
  "switchMethod hp pa new prev = (if \<not> isMethodAvailable hp pa new then prev else if prev = new then prev else new)"

definition showOtp :: "ModelAccount option \<Rightarrow> VerificationMethod \<Rightarrow> bool" where
  "showOtp account method = (truthy_bool (Option.bind account ac_totp_enabled) \<and> method = Password)"

lemma method_effect_available:
  "hp \<or> pa \<Longrightarrow> isMethodAvailable hp pa (method_effect is_open hp pa prev)"
  by (auto simp: method_effect_def isMethodAvailable_def preferredMethod_def)

lemma switchMethod_available:
  "isMethodAvailable hp pa prev \<Longrightarrow> isMethodAvailable hp pa (switchMethod hp pa new prev)"
  by (simp add: switchMethod_def)

subsection \<open>The fields\<close>

datatype reauth_status = Idle | InProgress | Verified | ReauthError

record identity_fields =
  if_account :: "ModelAccount option"
  if_passkeys :: "ModelCredential list"
  if_open :: bool
  if_passkeyOnly :: bool
  if_chosen :: VerificationMethod
  if_currentPassword :: string
  if_otp :: string
  if_reauthToken :: "string option"
  if_status :: reauth_status

definition field_method :: "identity_fields \<Rightarrow> VerificationMethod" where
  "field_method f = (if if_passkeyOnly f then Passkey else if_chosen f)"

definition field_otp :: "identity_fields \<Rightarrow> bool" where
  "field_otp f = (field_method f = Password \<and> showOtp (if_account f) (if_chosen f))"

definition fields_reset :: "identity_fields \<Rightarrow> identity_fields" where
  "fields_reset f = f\<lparr>if_currentPassword := [], if_otp := [], if_reauthToken := None, if_status := Idle\<rparr>"

text \<open>
  The effects after a change of what the fields are shown for: the method is chosen again, a changed
  method empties the fields, and so does closing.
\<close>

definition fields_effects :: "identity_fields \<Rightarrow> identity_fields" where
  "fields_effects f =
     (let m = method_effect (if_open f) (hasPasskeys (if_passkeys f)) (passwordAvailable (if_account f)) (if_chosen f);
          f1 = (if m \<noteq> if_chosen f then fields_reset (f\<lparr>if_chosen := m\<rparr>) else f)
      in if \<not> if_open f1 then fields_reset f1 else f1)"

datatype fields_event =
    TypePassword string
  | TypeOtp string
  | ChooseMethod VerificationMethod
  | BeginPasskey
  | PasskeyDone "string + string"
  | ShownFor "ModelAccount option" "ModelCredential list" bool

text \<open>The verify button is disabled while a ceremony runs and once it has succeeded.\<close>

fun fields_step :: "identity_fields \<Rightarrow> fields_event \<Rightarrow> identity_fields" where
  "fields_step f (TypePassword s) = f\<lparr>if_currentPassword := s\<rparr>"
| "fields_step f (TypeOtp s) = f\<lparr>if_otp := s\<rparr>"
| "fields_step f (ChooseMethod m) =
     (let m' = switchMethod (hasPasskeys (if_passkeys f)) (passwordAvailable (if_account f)) m (if_chosen f)
      in if m' \<noteq> if_chosen f then fields_reset (f\<lparr>if_chosen := m'\<rparr>) else f)"
| "fields_step f BeginPasskey =
     (if if_status f = InProgress \<or> if_status f = Verified then f else f\<lparr>if_status := InProgress\<rparr>)"
| "fields_step f (PasskeyDone (Inr token)) = f\<lparr>if_reauthToken := Some token, if_status := Verified\<rparr>"
| "fields_step f (PasskeyDone (Inl msg)) = f\<lparr>if_status := ReauthError\<rparr>"
| "fields_step f (ShownFor account passkeys is_open) =
     fields_effects (f\<lparr>if_account := account, if_passkeys := passkeys, if_open := is_open\<rparr>)"

text \<open>The verification handed to the dialog around the fields, \<open>None\<close> while it is incomplete.\<close>

definition field_verification :: "identity_fields \<Rightarrow> IdentityVerification option" where
  "field_verification f =
     (if field_method f = Passkey then
        (if truthy_str (if_reauthToken f)
         then Some \<lparr>iv_currentPassword = None, iv_otp = None, iv_reauthToken = if_reauthToken f\<rparr> else None)
      else if if_currentPassword f \<noteq> [] \<and> (\<not> field_otp f \<or> if_otp f \<noteq> []) then
        Some \<lparr>iv_currentPassword = Some (if_currentPassword f),
              iv_otp = (if field_otp f then Some (if_otp f) else None), iv_reauthToken = None\<rparr>
      else None)"

definition field_method_ok :: "identity_fields \<Rightarrow> bool" where
  "field_method_ok f \<longleftrightarrow>
     (hasPasskeys (if_passkeys f) \<or> passwordAvailable (if_account f) \<longrightarrow>
      isMethodAvailable (hasPasskeys (if_passkeys f)) (passwordAvailable (if_account f)) (if_chosen f))"

lemma fields_reset_simps [simp]:
  "if_account (fields_reset f) = if_account f" "if_passkeys (fields_reset f) = if_passkeys f"
  "if_open (fields_reset f) = if_open f" "if_chosen (fields_reset f) = if_chosen f"
  "if_passkeyOnly (fields_reset f) = if_passkeyOnly f" "if_reauthToken (fields_reset f) = None"
  "if_currentPassword (fields_reset f) = []" "if_otp (fields_reset f) = []"
  by (simp_all add: fields_reset_def)

lemma fields_effects_ok: "field_method_ok (fields_effects f)"
  unfolding field_method_ok_def fields_effects_def Let_def
  using method_effect_available [of "hasPasskeys (if_passkeys f)" "passwordAvailable (if_account f)" "if_open f" "if_chosen f"]
  by auto

lemma fields_step_ok:
  assumes "field_method_ok f"
  shows "field_method_ok (fields_step f e)"
proof (cases e)
  case (ChooseMethod m)
  with assms show ?thesis
    using switchMethod_available [of "hasPasskeys (if_passkeys f)" "passwordAvailable (if_account f)" "if_chosen f" m]
    by (auto simp: field_method_ok_def Let_def)
next
  case (PasskeyDone r)
  with assms show ?thesis by (cases r) (simp_all add: field_method_ok_def)
next
  case (ShownFor account passkeys is_open)
  then show ?thesis by (simp add: fields_effects_ok)
qed (use assms in \<open>simp_all add: field_method_ok_def\<close>)

interpretation fields: machine fields_step field_method_ok
  by unfold_locales (rule fields_step_ok)

subsection \<open>The check of the API\<close>

record reauth_token =
  tk_type :: string
  tk_value :: string
  tk_expires :: int

record reauth_account =
  rv_email :: string
  rv_password :: "string option"
  rv_totp :: bool
  rv_tokens :: "reauth_token list"

datatype reauth_error =
    ErrMissingAuthMethod | ErrMultipleAuthMethods | ErrInvalidPassword | ErrInvalidReauthToken
  | ErrReauthTokenExpired | ErrMfa string

fun consume_token :: "int \<Rightarrow> string \<Rightarrow> string \<Rightarrow> reauth_token list \<Rightarrow> reauth_error + bool \<times> reauth_token list" where
  "consume_token now ty val [] = Inr (False, [])"
| "consume_token now ty val (t # ts) =
     (if tk_type t = ty \<and> tk_value t = val then
        (if tk_expires t < now then Inl ErrReauthTokenExpired
         else case consume_token now ty val ts of Inl e \<Rightarrow> Inl e | Inr (_, kept) \<Rightarrow> Inr (True, kept))
      else case consume_token now ty val ts of Inl e \<Rightarrow> Inl e | Inr (matched, kept) \<Rightarrow> Inr (matched, t # kept))"

definition verifyOnLoadedAccount ::
  "login_env \<Rightarrow> int \<Rightarrow> string \<Rightarrow> string option \<Rightarrow> string option \<Rightarrow> string \<Rightarrow> reauth_account \<Rightarrow> reauth_error + reauth_account" where
  "verifyOnLoadedAccount env now ty password token otp acc =
     (case password of
        Some pw \<Rightarrow>
          (case MfaCheck env \<lparr>aa_email = rv_email acc, aa_password = rv_password acc, aa_totp = rv_totp acc, aa_sessions = 0\<rparr> otp of
             Some msg \<Rightarrow> Inl (ErrMfa msg)
           | None \<Rightarrow>
               (case rv_password acc of
                  None \<Rightarrow> Inl ErrInvalidPassword
                | Some hash \<Rightarrow> if le_hash_ok env pw hash then Inr acc else Inl ErrInvalidPassword))
      | None \<Rightarrow>
          (case consume_token now ty (nullish token '''') (rv_tokens acc) of
             Inl e \<Rightarrow> Inl e
           | Inr (matched, kept) \<Rightarrow> if matched then Inr (acc\<lparr>rv_tokens := kept\<rparr>) else Inl ErrInvalidReauthToken))"

definition Verify ::
  "login_env \<Rightarrow> int \<Rightarrow> string \<Rightarrow> string option \<Rightarrow> string option \<Rightarrow> string \<Rightarrow> reauth_account \<Rightarrow> reauth_error + reauth_account" where
  "Verify env now ty password token otp acc =
     (if password = None \<and> token = None then Inl ErrMissingAuthMethod
      else if password \<noteq> None \<and> token \<noteq> None then Inl ErrMultipleAuthMethods
      else verifyOnLoadedAccount env now ty password token otp acc)"

fun reauth_text :: "reauth_error \<Rightarrow> string" where
  "reauth_text ErrMissingAuthMethod = ''missing current_password or reauth_token''"
| "reauth_text ErrMultipleAuthMethods = ''provide only one of current_password or reauth_token''"
| "reauth_text ErrInvalidPassword = ''invalid current password''"
| "reauth_text ErrInvalidReauthToken = ''invalid reauth token''"
| "reauth_text ErrReauthTokenExpired = ''reauth token expired''"
| "reauth_text (ErrMfa msg) = msg"

text \<open>The status sent for it: a failed second factor is a 401, everything else a 400.\<close>

fun reauth_status_code :: "reauth_error \<Rightarrow> nat" where
  "reauth_status_code (ErrMfa _) = 401"
| "reauth_status_code _ = 400"

lemma consume_kept:
  "consume_token now ty val ts = Inr (m, kept) \<Longrightarrow>
     kept = filter (\<lambda>t. \<not> (tk_type t = ty \<and> tk_value t = val)) ts \<and>
     (m \<longleftrightarrow> (\<exists>t \<in> set ts. tk_type t = ty \<and> tk_value t = val))"
  by (induction now ty val ts arbitrary: m kept rule: consume_token.induct) (auto split: if_splits sum.splits)

lemma consume_none:
  "\<forall>t \<in> set ts. \<not> (tk_type t = ty \<and> tk_value t = val) \<Longrightarrow> consume_token now ty val ts = Inr (False, ts)"
  by (induction ts) auto

lemma consume_first_valid:
  "\<exists>t \<in> set ts. tk_type t = ty \<and> tk_value t = val \<Longrightarrow>
   \<forall>t \<in> set ts. tk_type t = ty \<and> tk_value t = val \<longrightarrow> now \<le> tk_expires t \<Longrightarrow>
   \<exists>kept. consume_token now ty val ts = Inr (True, kept)"
proof (induction ts)
  case (Cons t ts)
  show ?case
  proof (cases "\<exists>t \<in> set ts. tk_type t = ty \<and> tk_value t = val")
    case True
    with Cons obtain kept where "consume_token now ty val ts = Inr (True, kept)" by auto
    with Cons.prems show ?thesis by auto
  next
    case False
    with consume_none [of ts ty val now] Cons.prems show ?thesis by auto
  qed
qed simp

lemma spent_token_facts:
  assumes "Verify env now ty None (Some token) otp acc = Inr acc'"
  shows "Verify env' now' ty None (Some token) otp' acc' = Inl ErrInvalidReauthToken \<and>
         rv_tokens acc' = filter (\<lambda>t. \<not> (tk_type t = ty \<and> tk_value t = token)) (rv_tokens acc)"
proof -
  from assms obtain kept where kept: "consume_token now ty token (rv_tokens acc) = Inr (True, kept)"
    and acc': "acc' = acc\<lparr>rv_tokens := kept\<rparr>"
    by (auto simp: Verify_def verifyOnLoadedAccount_def split: sum.splits if_splits)
  from consume_kept [OF kept] have k: "kept = filter (\<lambda>t. \<not> (tk_type t = ty \<and> tk_value t = token)) (rv_tokens acc)"
    by simp
  then have "consume_token now' ty token kept = Inr (False, kept)" by (intro consume_none) auto
  with acc' k show ?thesis by (simp add: Verify_def verifyOnLoadedAccount_def)
qed

lemma spent_token:
  assumes "Verify env now ty None (Some token) otp acc = Inr acc'"
  shows "Verify env' now' ty None (Some token) otp' acc' = Inl ErrInvalidReauthToken"
  using spent_token_facts [OF assms] by blast

text \<open>
  Fact (token_single_use). A token the API has accepted is never accepted again, for whatever
  purpose it was issued for and whenever it is presented; the other tokens of the account stay.
\<close>

theorem token_single_use:
  assumes "Verify env now ty None (Some token) otp acc = Inr acc'"
  shows "Verify env' now' ty None (Some token) otp' acc' = Inl ErrInvalidReauthToken \<and>
         rv_tokens acc' = filter (\<lambda>t. \<not> (tk_type t = ty \<and> tk_value t = token)) (rv_tokens acc)"
  using assms by (rule spent_token_facts)

definition token_account :: reauth_account where
  "token_account = \<lparr>rv_email = ''u'', rv_password = Some ''pw'', rv_totp = True,
     rv_tokens = [\<lparr>tk_type = ''reauth_profile_import'', tk_value = ''t1'', tk_expires = 300\<rparr>,
                  \<lparr>tk_type = ''reauth_profile_export'', tk_value = ''t2'', tk_expires = 300\<rparr>]\<rparr>"

theorem token_single_use_witness:
  "\<exists>acc'. Verify sample_env 10 ''reauth_profile_import'' None (Some ''t1'') '''' token_account = Inr acc' \<and>
     Verify sample_env 20 ''reauth_profile_import'' None (Some ''t1'') '''' acc' = Inl ErrInvalidReauthToken"
proof -
  obtain acc' where "Verify sample_env 10 ''reauth_profile_import'' None (Some ''t1'') '''' token_account = Inr acc'"
    by (simp add: Verify_def verifyOnLoadedAccount_def token_account_def)
  with token_single_use [OF this] show ?thesis by blast
qed

text \<open>
  Property C10 (verification_well_formed). Whatever the user types, switches and verifies, in whatever
  order the passkey answers arrive, the fields show a method the account has, and a verification they
  report makes a request with exactly one credential, with the code when and only when the account
  needs one for it: the API never answers that a credential is missing or doubled.
\<close>

theorem verification_well_formed:
  fixes f0 :: identity_fields and es :: "fields_event list" and env :: login_env and acc :: reauth_account
  defines "f \<equiv> foldl fields_step (fields_effects f0) es"
  assumes "field_verification f = Some v"
    and "rv_totp acc = truthy_bool (Option.bind (if_account f) ac_totp_enabled)"
  defines "body \<equiv> fst (verificationRequest v)"
    and "otp \<equiv> (case snd (verificationRequest v) of None \<Rightarrow> '''' | Some m \<Rightarrow> fst m)"
  shows "(hasPasskeys (if_passkeys f) \<or> passwordAvailable (if_account f) \<longrightarrow>
            isMethodAvailable (hasPasskeys (if_passkeys f)) (passwordAvailable (if_account f)) (if_chosen f)) \<and>
         (cb_current_password body = None) \<noteq> (cb_reauth_token body = None) \<and>
         (otp \<noteq> [] \<longleftrightarrow> field_method f = Password \<and> rv_totp acc) \<and>
         Verify env now ty (cb_current_password body) (cb_reauth_token body) otp acc \<notin>
           {Inl ErrMissingAuthMethod, Inl ErrMultipleAuthMethods}"
proof -
  have "field_method_ok f" unfolding f_def by (rule fields.run_inv [OF fields_effects_ok])
  then have avail: "hasPasskeys (if_passkeys f) \<or> passwordAvailable (if_account f) \<longrightarrow>
      isMethodAvailable (hasPasskeys (if_passkeys f)) (passwordAvailable (if_account f)) (if_chosen f)"
    by (simp add: field_method_ok_def)
  have no_shape: "verifyOnLoadedAccount env now ty pw tok otp2 acc \<notin> {Inl ErrMissingAuthMethod, Inl ErrMultipleAuthMethods}"
    for pw tok otp2
  proof -
    have "consume_token now ty val ts \<notin> {Inl ErrMissingAuthMethod, Inl ErrMultipleAuthMethods}" for val ts
      by (induction ts) (auto split: sum.splits if_splits)
    then show ?thesis by (auto simp: verifyOnLoadedAccount_def split: option.splits sum.splits if_splits)
  qed
  show ?thesis
  proof (cases "field_method f")
    case Passkey
    with assms(2) have v: "v = \<lparr>iv_currentPassword = None, iv_otp = None, iv_reauthToken = if_reauthToken f\<rparr>"
      and tok: "truthy_str (if_reauthToken f)"
      by (auto simp: field_verification_def split: if_splits)
    from tok obtain t where t: "if_reauthToken f = Some t" "t \<noteq> []" by (cases "if_reauthToken f") auto
    with v have b: "body = \<lparr>cb_current_password = None, cb_reauth_token = Some t\<rparr>" "otp = []"
      by (simp_all add: body_def otp_def verificationRequest_def)
    with no_shape avail Passkey show ?thesis by (simp add: Verify_def)
  next
    case Password
    have otp_shown: "field_otp f = rv_totp acc"
      using Password assms(3) by (auto simp: field_otp_def showOtp_def field_method_def split: if_splits)
    with assms(2) Password have v: "v = \<lparr>iv_currentPassword = Some (if_currentPassword f),
        iv_otp = (if rv_totp acc then Some (if_otp f) else None), iv_reauthToken = None\<rparr>"
      and ne: "rv_totp acc \<longrightarrow> if_otp f \<noteq> []"
      by (auto simp: field_verification_def split: if_splits)
    with ne have b: "body = \<lparr>cb_current_password = Some (if_currentPassword f), cb_reauth_token = None\<rparr>"
      "otp = (if rv_totp acc then if_otp f else [])"
      by (simp_all add: body_def otp_def verificationRequest_def)
    with no_shape avail Password ne show ?thesis by (simp add: Verify_def)
  qed
qed

definition blank_fields :: identity_fields where
  "blank_fields = \<lparr>if_account = Some (plain_account ''u''), if_passkeys = [\<lparr>cd_created_at = None, cd_id = Some ''k''\<rparr>],
     if_open = True, if_passkeyOnly = False, if_chosen = Password, if_currentPassword = [], if_otp = [],
     if_reauthToken = None, if_status = Idle\<rparr>"

theorem verification_well_formed_witness:
  "Verify sample_env 5 ''reauth_passkey_add'' (Some ''pw'') None '''' (token_account\<lparr>rv_totp := False\<rparr>) \<notin>
     {Inl ErrMissingAuthMethod, Inl ErrMultipleAuthMethods}"
  using verification_well_formed
    [of blank_fields "[BeginPasskey, ChooseMethod Passkey, ChooseMethod Password, TypePassword ''pw'']"
      "\<lparr>iv_currentPassword = Some ''pw'', iv_otp = None, iv_reauthToken = None\<rparr>" "token_account\<lparr>rv_totp := False\<rparr>"
      sample_env 5 "''reauth_passkey_add''"]
  by (simp add: blank_fields_def fields_effects_def method_effect_def isMethodAvailable_def passwordAvailable_def
      hasPasskeys_def plain_account_def switchMethod_def fields_reset_def field_verification_def field_method_def
      field_otp_def showOtp_def token_account_def verificationRequest_def Let_def)

end
