(* ===== verification/ImportApi.thy ===== *)
theory ImportApi
  imports RuleComposer Verification
begin

text \<open>
  The API's import of profiles (api/service/profile/import.go, api/api/profile_export_import.go): the
  order of its checks, the names it gives, the writes and the rollback.

  A stored profile is its id, its name, its number of rules and the exported profile it was made from;
  how the exported settings become stored ones is not modelled. A failure of the database or the cache
  is an argument. Names are in the range of the string model, where Unicode normalisation changes
  nothing, so that \<open>NormalizeName\<close> is its trimming.
\<close>

subsection \<open>Names\<close>

definition MaxProfileNameLen :: nat where "MaxProfileNameLen = 50"

definition go_space :: "char \<Rightarrow> bool" where
  "go_space c = (let n = of_char c :: nat in (9 \<le> n \<and> n \<le> 13) \<or> n = 32 \<or> n = 133 \<or> n = 160)"

definition NormalizeName :: "string \<Rightarrow> string" where
  "NormalizeName s = rev (dropWhile go_space (rev (dropWhile go_space s)))"

definition fitNameWithSuffix :: "string \<Rightarrow> string \<Rightarrow> nat \<Rightarrow> string" where
  "fitNameWithSuffix base sfx maxlen =
     (if length base + length sfx \<le> maxlen then base @ sfx
      else take (maxlen - length sfx) base @ sfx)"

definition counter_suffix :: "nat \<Rightarrow> string" where
  "counter_suffix n = '' (imported '' @ show_nat n @ '')''"

definition renamed_warning :: "string \<Rightarrow> string \<Rightarrow> string" where
  "renamed_warning original candidate =
     ''profile '' @ CHR 39 # original @ CHR 39 # '' renamed to '' @ CHR 39 # candidate @ CHR 39 # '' to avoid name collision''"

text \<open>The counter runs from 2 to 999; \<open>nanos\<close> is the clock value of the fallback.\<close>

function resolve_loop :: "nat \<Rightarrow> string \<Rightarrow> string set \<Rightarrow> nat \<Rightarrow> string" where
  "resolve_loop nanos original taken n =
     (if 1000 \<le> n then fitNameWithSuffix original (counter_suffix nanos) MaxProfileNameLen
      else
        let candidate = fitNameWithSuffix original (counter_suffix n) MaxProfileNameLen
        in if NormalizeName candidate \<notin> taken then candidate else resolve_loop nanos original taken (Suc n))"
  by pat_completeness auto
termination
  by (relation "measure (\<lambda>(_, _, _, n). 1000 - n)") auto

declare resolve_loop.simps [simp del]

definition resolveImportName :: "nat \<Rightarrow> string \<Rightarrow> string set \<Rightarrow> string \<times> string" where
  "resolveImportName nanos original taken =
     (if NormalizeName original \<notin> taken then (original, [])
      else
        let first = fitNameWithSuffix original '' (imported)'' MaxProfileNameLen
        in if NormalizeName first \<notin> taken then (first, renamed_warning original first)
           else let c = resolve_loop nanos original taken 2 in (c, renamed_warning original c))"

lemma fit_length: "length sfx \<le> maxlen \<Longrightarrow> length (fitNameWithSuffix base sfx maxlen) \<le> maxlen"
  by (auto simp: fitNameWithSuffix_def)

lemma fit_form: "\<exists>b. fitNameWithSuffix base sfx maxlen = b @ sfx"
  by (auto simp: fitNameWithSuffix_def)

lemma go_space_chars [simp]:
  "\<not> go_space (CHR ''('')" "\<not> go_space (CHR '')'')" "go_space (CHR '' '')"
  by (simp_all add: go_space_def)

lemma dropWhile_until:
  "\<not> P c \<Longrightarrow> \<exists>b'. dropWhile P (b @ c # r) = b' @ c # r"
  by (induction b) auto

text \<open>A name that ends in a counter keeps the counter when it is normalised.\<close>

lemma normalize_counter:
  "\<exists>b. NormalizeName (x @ counter_suffix n) = b @ CHR '' '' # show_nat n @ '')''"
proof -
  let ?t = "''imported '' @ show_nat n"
  have form: "x @ counter_suffix n = (x @ '' '') @ CHR ''('' # (?t @ '')'')" by (simp add: counter_suffix_def)
  obtain b where b: "dropWhile go_space (x @ counter_suffix n) = b @ CHR ''('' # (?t @ '')'')"
    using dropWhile_until [of go_space "CHR ''(''" "x @ '' ''" "?t @ '')''"] unfolding form by auto
  have "NormalizeName (x @ counter_suffix n) = b @ CHR ''('' # (?t @ '')'')"
    unfolding NormalizeName_def b by simp
  then have "NormalizeName (x @ counter_suffix n) = (b @ ''(imported'') @ CHR '' '' # show_nat n @ '')''" by simp
  then show ?thesis by blast
qed

lemma show_nat_no_space: "CHR '' '' \<notin> set (show_nat n)"
proof
  assume "CHR '' '' \<in> set (show_nat n)"
  then obtain d where "d < 36" "CHR '' '' = digit_char d" using show_base_chars [of 10 "CHR '' ''" n] by auto
  then have "(of_char (CHR '' '') :: nat) = (if d < 10 then 48 + d else 87 + d)" using of_digit_char by metis
  then show False by (auto split: if_splits)
qed

lemma counters_differ:
  assumes "NormalizeName (x @ counter_suffix m) = NormalizeName (y @ counter_suffix n)"
  shows "m = n"
proof -
  obtain a b where "a @ CHR '' '' # (show_nat m @ '')'') = b @ CHR '' '' # (show_nat n @ '')'')"
    using normalize_counter [of x m] normalize_counter [of y n] assms by metis
  from last_sep_inj [OF _ _ this] show_nat_no_space show ?thesis by auto
qed

lemma free_counter:
  assumes "finite taken" "card taken < 998"
  shows "\<exists>n. 2 \<le> n \<and> n < 1000 \<and> NormalizeName (fitNameWithSuffix original (counter_suffix n) MaxProfileNameLen) \<notin> taken"
proof (rule ccontr)
  assume none: "\<not> ?thesis"
  let ?f = "\<lambda>n. NormalizeName (fitNameWithSuffix original (counter_suffix n) MaxProfileNameLen)"
  have "inj_on ?f {2..<1000}"
  proof (rule inj_onI)
    fix m n assume eq: "?f m = ?f n"
    obtain a b where "fitNameWithSuffix original (counter_suffix m) MaxProfileNameLen = a @ counter_suffix m"
      "fitNameWithSuffix original (counter_suffix n) MaxProfileNameLen = b @ counter_suffix n"
      using fit_form by metis
    with eq counters_differ show "m = n" by metis
  qed
  then have "card (?f ` {2..<1000}) = 998" by (simp add: card_image)
  moreover have "?f ` {2..<1000} \<subseteq> taken"
  proof (rule image_subsetI)
    fix n :: nat assume "n \<in> {2..<1000}"
    with none show "?f n \<in> taken" by (metis atLeastLessThan_iff)
  qed
  then have "card (?f ` {2..<1000}) \<le> card taken" by (rule card_mono [OF assms(1)])
  ultimately show False using assms(2) by linarith
qed

lemma resolve_loop_fresh:
  assumes "\<exists>m. n \<le> m \<and> m < 1000 \<and> NormalizeName (fitNameWithSuffix original (counter_suffix m) MaxProfileNameLen) \<notin> taken"
  shows "NormalizeName (resolve_loop nanos original taken n) \<notin> taken \<and>
         (\<exists>m. n \<le> m \<and> m < 1000 \<and> resolve_loop nanos original taken n = fitNameWithSuffix original (counter_suffix m) MaxProfileNameLen)"
  using assms
proof (induction nanos original taken n rule: resolve_loop.induct)
  case (1 nanos original taken n)
  let ?c = "fitNameWithSuffix original (counter_suffix n) MaxProfileNameLen"
  from "1.prems" have n: "\<not> 1000 \<le> n" by auto
  show ?case
  proof (cases "NormalizeName ?c \<notin> taken")
    case True
    with n show ?thesis by (auto simp: resolve_loop.simps [of nanos original taken n] Let_def)
  next
    case False
    with "1.prems" have "\<exists>m. Suc n \<le> m \<and> m < 1000 \<and> NormalizeName (fitNameWithSuffix original (counter_suffix m) MaxProfileNameLen) \<notin> taken"
      by (metis le_antisym not_less_eq_eq)
    from "1.IH" [OF n refl _ this] False n
    have "NormalizeName (resolve_loop nanos original taken (Suc n)) \<notin> taken \<and>
      (\<exists>m. Suc n \<le> m \<and> m < 1000 \<and> resolve_loop nanos original taken (Suc n) = fitNameWithSuffix original (counter_suffix m) MaxProfileNameLen)"
      by simp
    then show ?thesis using n False
      by (simp add: resolve_loop.simps [of nanos original taken n] Let_def) (metis Suc_leD)
  qed
qed

lemma show_nat_short: "n < 1000 \<Longrightarrow> length (show_nat n) \<le> 3"
  by (simp add: show_base.simps [of 10 n] show_base.simps [of 10 "n div 10"] show_base.simps [of 10 "n div 10 div 10"])

lemma import_name_facts:
  assumes "finite taken" "card taken < 998" and "length original \<le> MaxProfileNameLen"
  shows "NormalizeName (fst (resolveImportName nanos original taken)) \<notin> taken \<and>
         length (fst (resolveImportName nanos original taken)) \<le> MaxProfileNameLen \<and>
         (snd (resolveImportName nanos original taken) = [] \<longleftrightarrow> fst (resolveImportName nanos original taken) = original)"
proof -
  have w: "renamed_warning a b \<noteq> []" for a b by (simp add: renamed_warning_def)
  let ?first = "fitNameWithSuffix original '' (imported)'' MaxProfileNameLen"
  have first_len: "length ?first \<le> MaxProfileNameLen" by (rule fit_length) (simp add: MaxProfileNameLen_def)
  obtain m where m: "2 \<le> m" "m < 1000" "resolve_loop nanos original taken 2 = fitNameWithSuffix original (counter_suffix m) MaxProfileNameLen"
    and loop: "NormalizeName (resolve_loop nanos original taken 2) \<notin> taken"
    using resolve_loop_fresh [OF free_counter [OF assms(1,2)]] by blast
  have "length (counter_suffix m) \<le> MaxProfileNameLen"
    using show_nat_short [OF m(2)] by (simp add: counter_suffix_def MaxProfileNameLen_def)
  then have loop_len: "length (resolve_loop nanos original taken 2) \<le> MaxProfileNameLen"
    unfolding m(3) by (rule fit_length)
  consider (kept) "NormalizeName original \<notin> taken"
    | (once) "NormalizeName original \<in> taken" "NormalizeName ?first \<notin> taken"
    | (count) "NormalizeName original \<in> taken" "NormalizeName ?first \<in> taken" by blast
  then show ?thesis
  proof cases
    case kept
    with assms(3) show ?thesis by (simp add: resolveImportName_def)
  next
    case once
    then have "?first \<noteq> original" by metis
    with once first_len w show ?thesis by (simp add: resolveImportName_def Let_def)
  next
    case count
    then have "resolve_loop nanos original taken 2 \<noteq> original" using loop by metis
    with count loop loop_len w show ?thesis by (simp add: resolveImportName_def Let_def)
  qed
qed

text \<open>
  Property C16 (import_name_found). As long as fewer than 998 names are taken, the search for a name
  ends with one that is free before its counter runs out, and a source name of at most 50 characters
  gives one of at most 50.
\<close>

theorem import_name_found:
  assumes "finite taken" "card taken < 998" and "length original \<le> MaxProfileNameLen"
  shows "NormalizeName (fst (resolveImportName nanos original taken)) \<notin> taken \<and>
         length (fst (resolveImportName nanos original taken)) \<le> MaxProfileNameLen \<and>
         (snd (resolveImportName nanos original taken) = [] \<longleftrightarrow> fst (resolveImportName nanos original taken) = original)"
  using assms by (rule import_name_facts)

theorem import_name_found_witness:
  "NormalizeName (fst (resolveImportName 7 ''Home'' {''Home'', ''Home (imported)''})) \<notin> {''Home'', ''Home (imported)''}"
  using import_name_found [of "{''Home'', ''Home (imported)''}" "''Home''" 7]
  by (simp add: MaxProfileNameLen_def)

subsection \<open>Writing the profiles\<close>

record stored_profile =
  sp_id :: string
  sp_name :: string
  sp_rules :: nat
  sp_from :: ModelExportedProfile

text \<open>The operations of one profile that can fail, in their order.\<close>

datatype import_op = GenerateId | CreateProfileDoc | CacheSettings | CreateRules | CacheRules

text \<open>
  What an import reads besides the request and the account: the log-in parameters, the clock, the
  validator of the request, the ids it generates and the operations that fail, the warning for an old
  export, the syntax check of a rule, the Punycode decoder, and the warnings of the block-list and
  service catalogues and of the caps on groups.
\<close>

record import_env =
  ie_login :: login_env
  ie_now :: int
  ie_validation :: "RequestsImportRequest \<Rightarrow> string option"
  ie_ids :: "nat \<Rightarrow> string"
  ie_failing :: "nat \<Rightarrow> import_op option"
  ie_nanos :: nat
  ie_db_error :: string
  ie_stale :: "string \<Rightarrow> string option"
  ie_syntax :: "string \<Rightarrow> bool"
  ie_decode :: "string \<Rightarrow> string option"
  ie_catalog :: "ModelExportedProfile \<Rightarrow> string list"
  ie_caps :: "string \<Rightarrow> ModelExportedProfile \<Rightarrow> string list"

definition exported_rules :: "ModelExportedProfile \<Rightarrow> ModelExportedCustomRule list" where
  "exported_rules ep = nullish (Option.bind (ep_settings ep) es_customRules) []"

definition rules_of :: "ModelExportedProfile \<Rightarrow> nat" where
  "rules_of ep = length (exported_rules ep)"

definition ContainsIDN :: "string \<Rightarrow> bool" where
  "ContainsIDN val =
     (js_trim val \<noteq> [] \<and> list_ex (\<lambda>label. js_startsWith (js_toLowerCase label) ''xn--'') (js_split (CHR ''.'') val))"

definition NewCustomRuleAction :: "string \<Rightarrow> bool" where
  "NewCustomRuleAction action = (action \<in> {''block'', ''allow'', ''comment''})"

definition single_quoted :: "string \<Rightarrow> string" where
  "single_quoted s = CHR 39 # s @ [CHR 39]"

definition rule_prefix :: "nat \<Rightarrow> string \<Rightarrow> string" where
  "rule_prefix i profileName = ''customRules['' @ show_nat i @ ''] in profile '' @ single_quoted profileName @ '': ''"

text \<open>One rule: whether it is kept, and its warnings.\<close>

definition validate_rule :: "import_env \<Rightarrow> string \<Rightarrow> nat \<Rightarrow> ModelExportedCustomRule \<Rightarrow> bool \<times> string list" where
  "validate_rule env profileName i r =
     (if \<not> NewCustomRuleAction (er_action r) then
        (False, [rule_prefix i profileName @ ''action '' @ single_quoted (er_action r) @ '' is not valid -- rule skipped''])
      else if \<not> ie_syntax env (er_value r) then
        (False, [rule_prefix i profileName @ ''value '' @ single_quoted (er_value r) @ '' has invalid syntax -- rule skipped''])
      else if ContainsIDN (er_value r) then
        (True, [rule_prefix i profileName @ ''value '' @ single_quoted (er_value r) @
                '' contains an internationalized domain name. Decoded form: '' @
                single_quoted (nullish (ie_decode env (er_value r)) ''<not decodable>'') @
                ''. Visually similar to standard domains -- verify this is what you intended.''])
      else (True, []))"

definition validateAndMapRules ::
  "import_env \<Rightarrow> ModelExportedProfile \<Rightarrow> string \<Rightarrow> ModelExportedCustomRule list \<times> string list" where
  "validateAndMapRules env ep profileName =
     (let checked = map (\<lambda>(i, r). (r, validate_rule env profileName i r)) (enumerate 0 (exported_rules ep))
      in (map fst (filter (fst \<circ> snd) checked), concat (map (snd \<circ> snd) checked)))"

text \<open>
  The result of one profile is its warnings, or nothing when an operation failed. The rules are only
  written when one of them is valid.
\<close>

definition import_fails :: "import_env \<Rightarrow> nat \<Rightarrow> ModelExportedProfile \<Rightarrow> bool" where
  "import_fails env k ep =
     (case ie_failing env k of
        None \<Rightarrow> False
      | Some op \<Rightarrow> op \<in> {CreateRules, CacheRules} \<longrightarrow> fst (validateAndMapRules env ep []) \<noteq> [])"

definition importOneProfile ::
  "import_env \<Rightarrow> nat \<Rightarrow> ModelExportedProfile \<Rightarrow> string \<Rightarrow> stored_profile list \<Rightarrow> string list option \<times> stored_profile list" where
  "importOneProfile env k ep resolvedName profiles =
     (let (validRules, rule_warnings) = validateAndMapRules env ep resolvedName;
          warnings = ie_catalog env ep @ rule_warnings @ ie_caps env resolvedName ep;
          written = (\<lambda>n. profiles @ [\<lparr>sp_id = ie_ids env k, sp_name = NormalizeName resolvedName, sp_rules = n, sp_from = ep\<rparr>])
      in case ie_failing env k of
           Some GenerateId \<Rightarrow> (None, profiles)
         | Some CreateProfileDoc \<Rightarrow> (None, profiles)
         | Some CacheSettings \<Rightarrow> (None, written 0)
         | Some CreateRules \<Rightarrow> if validRules = [] then (Some warnings, written 0) else (None, written 0)
         | Some CacheRules \<Rightarrow> if validRules = [] then (Some warnings, written 0) else (None, written (length validRules))
         | None \<Rightarrow> (Some warnings, written (length validRules)))"

definition rollbackImportedProfiles :: "string list \<Rightarrow> stored_profile list \<Rightarrow> stored_profile list" where
  "rollbackImportedProfiles profileIds profiles = filter (\<lambda>p. sp_id p \<notin> set profileIds) profiles"

text \<open>
  The loop over the payload, at its \<open>k\<close>-th profile. The result is the ids, the names and the warnings,
  or nothing after a rollback.
\<close>

fun import_loop ::
  "import_env \<Rightarrow> nat \<Rightarrow> ModelExportedProfile list \<Rightarrow> string set
     \<Rightarrow> string list \<Rightarrow> string list \<Rightarrow> string list \<Rightarrow> stored_profile list
     \<Rightarrow> (string list \<times> string list \<times> string list) option \<times> stored_profile list" where
  "import_loop env k [] taken createdIds createdNames warnings profiles =
     (Some (createdIds, createdNames, warnings), profiles)"
| "import_loop env k (ep # eps) taken createdIds createdNames warnings profiles =
     (let tooLong = MaxProfileNameLen < length (ep_name ep);
          ep1 = (if tooLong then ep\<lparr>ep_name := fitNameWithSuffix (ep_name ep) [] MaxProfileNameLen\<rparr> else ep);
          warnings1 = (if tooLong then warnings @ [''profile name truncated to 50 characters''] else warnings);
          (resolvedName, renameWarning) = resolveImportName (ie_nanos env) (ep_name ep1) taken;
          warnings2 = (if renameWarning \<noteq> [] then warnings1 @ [renameWarning] else warnings1)
      in case importOneProfile env k ep resolvedName profiles of
           (None, profiles1) \<Rightarrow> (None, rollbackImportedProfiles createdIds profiles1)
         | (Some profileWarnings, profiles1) \<Rightarrow>
             import_loop env (Suc k) eps (insert (NormalizeName resolvedName) taken)
               (createdIds @ [ie_ids env k]) (createdNames @ [NormalizeName resolvedName])
               (warnings2 @ profileWarnings) profiles1)"

record import_server =
  is_account :: reauth_account
  is_profiles :: "stored_profile list"
  is_max :: nat

text \<open>What the client is told: the status and the text of a refusal.\<close>

definition ErrMaxProfilesExceeded :: "nat \<Rightarrow> nat \<Rightarrow> nat \<Rightarrow> string" where
  "ErrMaxProfilesExceeded maxp have_n incoming =
     ''import would exceed maximum profile limit: would exceed limit of '' @ show_nat maxp @ '' profiles; have '' @
     show_nat have_n @ '', payload has '' @ show_nat incoming @ '', max allowed '' @ show_nat maxp"

definition ErrMaxCustomRulesExceeded :: "nat \<Rightarrow> nat \<Rightarrow> string" where
  "ErrMaxCustomRulesExceeded have_n incoming =
     ''import would exceed maximum custom rules limit: would exceed limit of '' @ show_nat MAX_CUSTOM_RULES_PER_ACCOUNT @
     '' custom rules per account; have '' @ show_nat have_n @ '', payload has '' @ show_nat incoming"

definition import_refusal :: "RequestsImportRequest \<Rightarrow> import_server \<Rightarrow> string option" where
  "import_refusal req srv =
     (let payload = ir_payload req;
          current = length (is_profiles srv); incoming = length (ee_profiles payload);
          currentRules = sum_list (map sp_rules (is_profiles srv));
          incomingRules = sum_list (map rules_of (ee_profiles payload))
      in if ir_mode req \<noteq> ''create_new'' then Some ''unsupported import mode''
         else if ee_schemaVersion payload \<noteq> 1 then Some ''unsupported schema version''
         else if ee_kind payload \<noteq> ''moddns-export'' then Some ''invalid export kind''
         else if ee_profiles payload = [] then Some ''import payload contains no profiles''
         else if is_max srv < current + incoming then Some (ErrMaxProfilesExceeded (is_max srv) current incoming)
         else if MAX_CUSTOM_RULES_PER_ACCOUNT < currentRules + incomingRules
         then Some (ErrMaxCustomRulesExceeded currentRules incomingRules)
         else None)"

definition stale_warning :: "import_env \<Rightarrow> RequestsImportRequest \<Rightarrow> string list" where
  "stale_warning env req = (case ie_stale env (ee_exportedAt (ir_payload req)) of None \<Rightarrow> [] | Some w \<Rightarrow> [w])"

definition TokenTypeReauthProfileImport :: string where
  "TokenTypeReauthProfileImport = ''reauth_profile_import''"

definition Import ::
  "import_env \<Rightarrow> RequestsImportRequest \<Rightarrow> string \<Rightarrow> import_server \<Rightarrow> (thrown + ProfileImportResult) \<times> import_server" where
  "Import env req otp srv =
     (case Verify (ie_login env) (ie_now env) TokenTypeReauthProfileImport (ir_current_password req)
             (ir_reauth_token req) otp (is_account srv) of
        Inl e \<Rightarrow> (Inl (api_error (reauth_status_code e) (reauth_text e)), srv)
      | Inr acc \<Rightarrow>
          let srv1 = srv\<lparr>is_account := acc\<rparr> in
          (case import_refusal req srv1 of
             Some msg \<Rightarrow> (Inl (api_error 400 msg), srv1)
           | None \<Rightarrow>
               (case import_loop env 0 (ee_profiles (ir_payload req))
                       ((NormalizeName \<circ> sp_name) ` set (is_profiles srv1)) [] []
                       (stale_warning env req) (is_profiles srv1) of
                  (None, profiles) \<Rightarrow> (Inl (api_error 500 (ie_db_error env)), srv1\<lparr>is_profiles := profiles\<rparr>)
                | (Some (createdIds, createdNames, warnings), profiles) \<Rightarrow>
                    (Inr \<lparr>pi_createdProfileIds = Some createdIds, pi_createdProfileNames = Some createdNames,
                          pi_warnings = Some warnings\<rparr>,
                     srv1\<lparr>is_profiles := profiles\<rparr>))))"

definition importProfiles ::
  "import_env \<Rightarrow> RequestsImportRequest \<Rightarrow> string \<Rightarrow> import_server \<Rightarrow> (thrown + ProfileImportResult) \<times> import_server" where
  "importProfiles env req otp srv =
     (case ie_validation env req of
        Some msg \<Rightarrow> (Inl (api_error 400 (''Validation error: '' @ msg)), srv)
      | None \<Rightarrow>
          if ir_current_password req \<noteq> None \<and> ir_reauth_token req \<noteq> None
          then (Inl (api_error 400 ''Validation error: provide only one of current_password or reauth_token''), srv)
          else Import env req otp srv)"

lemma normalize_length: "length (NormalizeName s) \<le> length s"
  unfolding NormalizeName_def by (metis length_dropWhile_le length_rev order_trans)

lemma valid_rules_name: "fst (validateAndMapRules env ep nm) = fst (validateAndMapRules env ep [])"
proof -
  have "fst (validate_rule env nm i r) = fst (validate_rule env [] i r)" for i r by (simp add: validate_rule_def)
  then show ?thesis by (simp add: validateAndMapRules_def Let_def filter_map o_def case_prod_beta)
qed

lemma valid_rules_bound: "length (fst (validateAndMapRules env ep nm)) \<le> rules_of ep"
  unfolding validateAndMapRules_def Let_def rules_of_def fst_conv length_map
  by (rule order_trans [OF length_filter_le]) simp

lemma one_profile_done:
  assumes "\<not> import_fails env k ep"
  shows "\<exists>w n. importOneProfile env k ep nm profs =
           (Some w, profs @ [\<lparr>sp_id = ie_ids env k, sp_name = NormalizeName nm, sp_rules = n, sp_from = ep\<rparr>]) \<and> n \<le> rules_of ep"
proof -
  obtain valid ws where v: "validateAndMapRules env ep nm = (valid, ws)" by fastforce
  then have "valid = fst (validateAndMapRules env ep [])" using valid_rules_name [of env ep nm] by simp
  moreover have "length valid \<le> rules_of ep" using valid_rules_bound [of env ep nm] v by simp
  ultimately show ?thesis
    using assms v
    by (cases "ie_failing env k"; cases "the (ie_failing env k)"; simp add: importOneProfile_def import_fails_def)
qed

lemma one_profile_failed:
  assumes "import_fails env k ep"
  shows "if ie_failing env k \<in> {Some GenerateId, Some CreateProfileDoc} then importOneProfile env k ep nm profs = (None, profs)
         else \<exists>n. importOneProfile env k ep nm profs =
           (None, profs @ [\<lparr>sp_id = ie_ids env k, sp_name = NormalizeName nm, sp_rules = n, sp_from = ep\<rparr>])"
proof -
  obtain valid ws where v: "validateAndMapRules env ep nm = (valid, ws)" by fastforce
  then have "valid = fst (validateAndMapRules env ep [])" using valid_rules_name [of env ep nm] by simp
  then show ?thesis
    using assms v
    by (cases "ie_failing env k"; cases "the (ie_failing env k)"; simp add: importOneProfile_def import_fails_def)
qed

text \<open>One round of the loop: the name it gives, and what it goes on with.\<close>

definition given_name :: "import_env \<Rightarrow> ModelExportedProfile \<Rightarrow> string set \<Rightarrow> string" where
  "given_name env ep taken =
     fst (resolveImportName (ie_nanos env)
       (if MaxProfileNameLen < length (ep_name ep) then fitNameWithSuffix (ep_name ep) [] MaxProfileNameLen else ep_name ep) taken)"

lemma loop_round:
  "\<exists>w1. \<forall>r profs1. importOneProfile env k ep (given_name env ep taken) profs = (r, profs1) \<longrightarrow>
     import_loop env k (ep # eps) taken cids cnames w profs =
       (case r of
          None \<Rightarrow> (None, rollbackImportedProfiles cids profs1)
        | Some pw \<Rightarrow> import_loop env (Suc k) eps (insert (NormalizeName (given_name env ep taken)) taken)
            (cids @ [ie_ids env k]) (cnames @ [NormalizeName (given_name env ep taken)]) (w1 @ pw) profs1)"
proof -
  let ?long = "MaxProfileNameLen < length (ep_name ep)"
  let ?w = "if ?long then w @ [''profile name truncated to 50 characters''] else w"
  obtain a b where r: "resolveImportName (ie_nanos env)
      (if ?long then fitNameWithSuffix (ep_name ep) [] MaxProfileNameLen else ep_name ep) taken = (a, b)" by fastforce
  then have a: "given_name env ep taken = a" by (simp add: given_name_def)
  show ?thesis unfolding a
    by (rule exI [of _ "if b \<noteq> [] then ?w @ [b] else ?w"]) (cases ?long; use r in \<open>simp add: Let_def\<close>)
qed

lemma given_name_fresh:
  assumes "finite taken" "card taken < 998"
  shows "NormalizeName (given_name env ep taken) \<notin> taken \<and> length (given_name env ep taken) \<le> MaxProfileNameLen"
proof -
  have "length (if MaxProfileNameLen < length (ep_name ep) then fitNameWithSuffix (ep_name ep) [] MaxProfileNameLen else ep_name ep)
          \<le> MaxProfileNameLen"
    by (simp add: fit_length)
  from import_name_facts [OF assms this] show ?thesis by (simp add: given_name_def)
qed

lemma import_loop_done:
  assumes "import_loop env k eps taken cids cnames w profs = (Some (ids', names', w'), profs')"
    and "finite taken" and "card taken + length eps \<le> 998"
  shows "\<exists>new. profs' = profs @ new \<and> map sp_from new = eps \<and> ids' = cids @ map sp_id new \<and>
           names' = cnames @ map sp_name new \<and> distinct (map sp_name new) \<and> set (map sp_name new) \<inter> taken = {} \<and>
           (\<forall>p \<in> set new. length (sp_name p) \<le> MaxProfileNameLen \<and> sp_rules p \<le> rules_of (sp_from p)) \<and>
           (\<forall>i < length eps. \<not> import_fails env (k + i) (eps ! i))"
  using assms
proof (induction eps arbitrary: k taken cids cnames w profs)
  case (Cons ep eps)
  let ?nm = "given_name env ep taken"
  have fresh: "NormalizeName ?nm \<notin> taken" "length ?nm \<le> MaxProfileNameLen"
    using given_name_fresh [OF Cons.prems(2)] Cons.prems(3) by simp_all
  obtain w1 where step: "importOneProfile env k ep ?nm profs = (r, profs1) \<Longrightarrow>
      import_loop env k (ep # eps) taken cids cnames w profs =
       (case r of
          None \<Rightarrow> (None, rollbackImportedProfiles cids profs1)
        | Some pw \<Rightarrow> import_loop env (Suc k) eps (insert (NormalizeName ?nm) taken)
            (cids @ [ie_ids env k]) (cnames @ [NormalizeName ?nm]) (w1 @ pw) profs1)" for r profs1
    using loop_round [of env k ep taken profs eps cids cnames w] by blast
  have ok: "\<not> import_fails env k ep"
  proof
    assume "import_fails env k ep"
    from one_profile_failed [OF this] obtain profs1 where "importOneProfile env k ep ?nm profs = (None, profs1)"
      by (metis (full_types))
    from step [OF this] Cons.prems(1) show False by simp
  qed
  from one_profile_done [OF this] obtain pw n where one: "n \<le> rules_of ep" "importOneProfile env k ep ?nm profs =
      (Some pw, profs @ [\<lparr>sp_id = ie_ids env k, sp_name = NormalizeName ?nm, sp_rules = n, sp_from = ep\<rparr>])" by blast
  define new1 where "new1 = \<lparr>sp_id = ie_ids env k, sp_name = NormalizeName ?nm, sp_rules = n, sp_from = ep\<rparr>"
  from step [OF one(2)] Cons.prems(1)
  have rest: "import_loop env (Suc k) eps (insert (NormalizeName ?nm) taken) (cids @ [ie_ids env k])
      (cnames @ [NormalizeName ?nm]) (w1 @ pw) (profs @ [new1]) = (Some (ids', names', w'), profs')"
    by (simp add: new1_def)
  have "card (insert (NormalizeName ?nm) taken) + length eps \<le> 998"
    using fresh(1) Cons.prems(2,3) by simp
  from Cons.IH [OF rest _ this] Cons.prems(2) obtain new where
    new: "profs' = profs @ new1 # new" "map sp_from new = eps" "ids' = cids @ ie_ids env k # map sp_id new"
      "names' = cnames @ NormalizeName ?nm # map sp_name new" "distinct (map sp_name new)"
      "set (map sp_name new) \<inter> insert (NormalizeName ?nm) taken = {}"
      "\<forall>p \<in> set new. length (sp_name p) \<le> MaxProfileNameLen \<and> sp_rules p \<le> rules_of (sp_from p)"
      "\<forall>i < length eps. \<not> import_fails env (Suc k + i) (eps ! i)"
    by auto
  have "length (NormalizeName ?nm) \<le> MaxProfileNameLen" using normalize_length [of ?nm] fresh(2) by simp
  moreover have "\<forall>i < length (ep # eps). \<not> import_fails env (k + i) ((ep # eps) ! i)"
    using ok new(8) by (auto simp: less_Suc_eq_0_disj)
  ultimately show ?case
    using new fresh(1) one(1) by (intro exI [of _ "new1 # new"]) (simp add: new1_def)
qed simp

lemma import_loop_failed:
  assumes "import_loop env k eps taken cids cnames w (old @ written) = (None, profs')"
    and "map sp_id written = cids" "set cids \<subseteq> ie_ids env ` {..<k}" and "inj (ie_ids env)" "range (ie_ids env) \<inter> sp_id ` set old = {}"
  shows "\<exists>j < length eps. import_fails env (k + j) (eps ! j) \<and> (\<forall>i < j. \<not> import_fails env (k + i) (eps ! i)) \<and>
           (if ie_failing env (k + j) \<in> {Some GenerateId, Some CreateProfileDoc} then profs' = old
            else \<exists>p. profs' = old @ [p] \<and> sp_from p = eps ! j \<and> sp_id p = ie_ids env (k + j))"
  using assms
proof (induction eps arbitrary: k taken cids cnames w written)
  case (Cons ep eps)
  let ?nm = "given_name env ep taken"
  have roll: "rollbackImportedProfiles cids (old @ written @ extra) = old @ filter (\<lambda>p. sp_id p \<notin> set cids) extra" for extra
  proof -
    have "\<forall>p \<in> set old. sp_id p \<notin> set cids" using Cons.prems(3,5) by blast
    moreover have "\<forall>p \<in> set written. sp_id p \<in> set cids" using Cons.prems(2) by auto
    ultimately show ?thesis unfolding rollbackImportedProfiles_def
      by (simp add: filter_empty_conv filter_id_conv)
  qed
  have fresh: "ie_ids env k \<notin> set cids" using Cons.prems(3,4) by (auto dest: injD)
  obtain w1 where step: "importOneProfile env k ep ?nm (old @ written) = (r, profs1) \<Longrightarrow>
      import_loop env k (ep # eps) taken cids cnames w (old @ written) =
       (case r of
          None \<Rightarrow> (None, rollbackImportedProfiles cids profs1)
        | Some pw \<Rightarrow> import_loop env (Suc k) eps (insert (NormalizeName ?nm) taken)
            (cids @ [ie_ids env k]) (cnames @ [NormalizeName ?nm]) (w1 @ pw) profs1)" for r profs1
    using loop_round [of env k ep taken "old @ written" eps cids cnames w] by blast
  show ?case
  proof (cases "import_fails env k ep")
    case False
    from one_profile_done [OF this] obtain pw n where one: "importOneProfile env k ep ?nm (old @ written) =
      (Some pw, (old @ written) @ [\<lparr>sp_id = ie_ids env k, sp_name = NormalizeName ?nm, sp_rules = n, sp_from = ep\<rparr>])" by blast
    let ?new1 = "\<lparr>sp_id = ie_ids env k, sp_name = NormalizeName ?nm, sp_rules = n, sp_from = ep\<rparr>"
    from step [OF one] Cons.prems(1)
    have rest: "import_loop env (Suc k) eps (insert (NormalizeName ?nm) taken) (cids @ [ie_ids env k])
        (cnames @ [NormalizeName ?nm]) (w1 @ pw) (old @ (written @ [?new1])) = (None, profs')"
      by simp
    have "map sp_id (written @ [?new1]) = cids @ [ie_ids env k]" using Cons.prems(2) by simp
    moreover have "set (cids @ [ie_ids env k]) \<subseteq> ie_ids env ` {..<Suc k}" using Cons.prems(3) by (auto simp: lessThan_Suc)
    ultimately obtain j where j: "j < length eps" "import_fails env (Suc k + j) (eps ! j)" "\<forall>i < j. \<not> import_fails env (Suc k + i) (eps ! i)"
      "if ie_failing env (Suc k + j) \<in> {Some GenerateId, Some CreateProfileDoc} then profs' = old
            else \<exists>p. profs' = old @ [p] \<and> sp_from p = eps ! j \<and> sp_id p = ie_ids env (Suc k + j)"
      using Cons.IH [OF rest _ _ Cons.prems(4,5)] by blast
    from j(3) False have "\<forall>i < Suc j. \<not> import_fails env (k + i) ((ep # eps) ! i)" by (auto simp: less_Suc_eq_0_disj)
    with j show ?thesis by (intro exI [of _ "Suc j"]) (simp split: if_splits)
  next
    case True
    show ?thesis
    proof (cases "ie_failing env k \<in> {Some GenerateId, Some CreateProfileDoc}")
      case failed: True
      with one_profile_failed [OF True, of ?nm "old @ written"] have "importOneProfile env k ep ?nm (old @ written) = (None, old @ written)"
        by simp
      from step [OF this] Cons.prems(1) roll [of "[]"] have "profs' = old" by simp
      with failed True show ?thesis by (intro exI [of _ 0]) simp
    next
      case failed: False
      with one_profile_failed [OF True, of ?nm "old @ written"] obtain n where
        one: "importOneProfile env k ep ?nm (old @ written) =
          (None, (old @ written) @ [\<lparr>sp_id = ie_ids env k, sp_name = NormalizeName ?nm, sp_rules = n, sp_from = ep\<rparr>])"
        by auto
      from step [OF one] Cons.prems(1) roll [of "[\<lparr>sp_id = ie_ids env k, sp_name = NormalizeName ?nm, sp_rules = n, sp_from = ep\<rparr>]"] fresh
      have "profs' = old @ [\<lparr>sp_id = ie_ids env k, sp_name = NormalizeName ?nm, sp_rules = n, sp_from = ep\<rparr>]" by simp
      with failed True show ?thesis by (intro exI [of _ 0]) simp
    qed
  qed
qed simp

lemma refusal_account [simp]: "import_refusal req (srv\<lparr>is_account := acc\<rparr>) = import_refusal req srv"
  by (simp add: import_refusal_def Let_def)

lemma import_accepted:
  assumes "Verify (ie_login env) (ie_now env) TokenTypeReauthProfileImport (ir_current_password req)
             (ir_reauth_token req) otp (is_account srv) = Inr acc"
    and "import_refusal req srv = None"
  shows "Import env req otp srv =
    (case import_loop env 0 (ee_profiles (ir_payload req))
            ((NormalizeName \<circ> sp_name) ` set (is_profiles srv)) [] [] (stale_warning env req) (is_profiles srv) of
       (None, profiles) \<Rightarrow> (Inl (api_error 500 (ie_db_error env)), srv\<lparr>is_account := acc, is_profiles := profiles\<rparr>)
     | (Some (createdIds, createdNames, warnings), profiles) \<Rightarrow>
         (Inr \<lparr>pi_createdProfileIds = Some createdIds, pi_createdProfileNames = Some createdNames,
               pi_warnings = Some warnings\<rparr>, srv\<lparr>is_account := acc, is_profiles := profiles\<rparr>))"
  unfolding Import_def using assms by (simp add: Let_def)

lemma import_success:
  assumes "Import env req otp srv = (Inr res, srv')"
  obtains acc w where "Verify (ie_login env) (ie_now env) TokenTypeReauthProfileImport (ir_current_password req)
             (ir_reauth_token req) otp (is_account srv) = Inr acc"
    and "import_refusal req srv = None"
    and "import_loop env 0 (ee_profiles (ir_payload req))
            ((NormalizeName \<circ> sp_name) ` set (is_profiles srv)) [] [] (stale_warning env req) (is_profiles srv) =
         (Some (the (pi_createdProfileIds res), the (pi_createdProfileNames res), w), is_profiles srv')"
    and "pi_createdProfileIds res \<noteq> None" "pi_createdProfileNames res \<noteq> None"
    and "is_account srv' = acc" "is_max srv' = is_max srv"
proof -
  from assms obtain acc where acc: "Verify (ie_login env) (ie_now env) TokenTypeReauthProfileImport (ir_current_password req)
             (ir_reauth_token req) otp (is_account srv) = Inr acc"
    by (auto simp: Import_def split: sum.splits)
  have none: "import_refusal req srv = None"
  proof (cases "import_refusal req srv")
    case (Some msg)
    with assms acc show ?thesis by (simp add: Import_def Let_def)
  qed
  from assms import_accepted [OF acc none] show thesis
    using that acc none by (auto split: prod.splits option.splits)
qed

lemma import_creates_facts:
  assumes "Import env req otp srv = (Inr res, srv')" and "is_max srv < 998"
  shows "\<exists>new. is_profiles srv' = is_profiles srv @ new \<and> map sp_from new = ee_profiles (ir_payload req) \<and>
           pi_createdProfileIds res = Some (map sp_id new) \<and> pi_createdProfileNames res = Some (map sp_name new) \<and>
           distinct (map sp_name new) \<and> set (map sp_name new) \<inter> (NormalizeName \<circ> sp_name) ` set (is_profiles srv) = {} \<and>
           (\<forall>p \<in> set new. length (sp_name p) \<le> MaxProfileNameLen) \<and> new \<noteq> [] \<and>
           length (is_profiles srv') \<le> is_max srv \<and>
           sum_list (map sp_rules (is_profiles srv')) \<le> MAX_CUSTOM_RULES_PER_ACCOUNT"
  using assms(1)
proof (rule import_success)
  fix acc w
  let ?taken = "(NormalizeName \<circ> sp_name) ` set (is_profiles srv)"
  let ?eps = "ee_profiles (ir_payload req)"
  assume none: "import_refusal req srv = None"
    and loop: "import_loop env 0 ?eps ?taken [] [] (stale_warning env req) (is_profiles srv) =
         (Some (the (pi_createdProfileIds res), the (pi_createdProfileNames res), w), is_profiles srv')"
    and some: "pi_createdProfileIds res \<noteq> None" "pi_createdProfileNames res \<noteq> None"
  from none have caps: "?eps \<noteq> []" "length (is_profiles srv) + length ?eps \<le> is_max srv"
    "sum_list (map sp_rules (is_profiles srv)) + sum_list (map rules_of ?eps) \<le> MAX_CUSTOM_RULES_PER_ACCOUNT"
    by (auto simp: import_refusal_def Let_def split: if_splits)
  have "card ?taken \<le> length (is_profiles srv)"
    by (metis card_length list.set_map length_map)
  with caps(2) assms(2) have "card ?taken + length ?eps \<le> 998" by linarith
  from import_loop_done [OF loop _ this] obtain new where new:
    "is_profiles srv' = is_profiles srv @ new" "map sp_from new = ?eps"
    "the (pi_createdProfileIds res) = map sp_id new" "the (pi_createdProfileNames res) = map sp_name new"
    "distinct (map sp_name new)" "set (map sp_name new) \<inter> ?taken = {}"
    "\<forall>p \<in> set new. length (sp_name p) \<le> MaxProfileNameLen \<and> sp_rules p \<le> rules_of (sp_from p)"
    by auto
  from new(2) have "length new = length ?eps" by (metis length_map)
  moreover have "sum_list (map sp_rules new) \<le> sum_list (map (\<lambda>p. rules_of (sp_from p)) new)"
    using new(7) by (intro sum_list_mono) simp
  moreover have "map (\<lambda>p. rules_of (sp_from p)) new = map rules_of ?eps" by (simp add: new(2) [symmetric])
  ultimately show ?thesis
    using new caps some by (intro exI [of _ new]) auto
qed

text \<open>
  Fact (import_creates_profiles). An import that succeeds adds exactly the profiles of the
  payload, in its order and behind the old ones, which stay as they were; the answer names them. Their
  names are at most 50 long, different from each other and from those of the account, and the caps on
  profiles and rules still hold.
\<close>

theorem import_creates_profiles:
  assumes "Import env req otp srv = (Inr res, srv')" and "is_max srv < 998"
  shows "\<exists>new. is_profiles srv' = is_profiles srv @ new \<and> map sp_from new = ee_profiles (ir_payload req) \<and>
           pi_createdProfileIds res = Some (map sp_id new) \<and> pi_createdProfileNames res = Some (map sp_name new) \<and>
           distinct (map sp_name new) \<and> set (map sp_name new) \<inter> (NormalizeName \<circ> sp_name) ` set (is_profiles srv) = {} \<and>
           (\<forall>p \<in> set new. length (sp_name p) \<le> MaxProfileNameLen) \<and> new \<noteq> [] \<and>
           length (is_profiles srv') \<le> is_max srv \<and>
           sum_list (map sp_rules (is_profiles srv')) \<le> MAX_CUSTOM_RULES_PER_ACCOUNT"
  using assms by (rule import_creates_facts)

definition sample_payload :: ModelExportEnvelope where
  "sample_payload =
     \<lparr>ee_exportedAt = ''2025-01-01'', ee_kind = ''moddns-export'',
      ee_profiles = [\<lparr>ep_comment = None, ep_name = ''Home'', ep_settings = None\<rparr>], ee_schemaVersion = 1\<rparr>"

definition sample_request :: RequestsImportRequest where
  "sample_request = \<lparr>ir_current_password = None, ir_mode = ''create_new'', ir_payload = sample_payload,
                     ir_reauth_token = Some ''t1''\<rparr>"

definition import_env_failing :: "import_op option \<Rightarrow> import_env" where
  "import_env_failing op =
     \<lparr>ie_login = sample_env, ie_now = 10, ie_validation = (\<lambda>_. None), ie_ids = (\<lambda>k. CHR ''n'' # show_nat k),
      ie_failing = (\<lambda>k. if k = 0 then op else None), ie_nanos = 5, ie_db_error = ''db down'',
      ie_stale = (\<lambda>_. None), ie_syntax = (\<lambda>v. v \<noteq> []), ie_decode = (\<lambda>_. None), ie_catalog = (\<lambda>_. []), ie_caps = (\<lambda>_ _. [])\<rparr>"

definition sample_server :: import_server where
  "sample_server = \<lparr>is_account = token_account,
     is_profiles = [\<lparr>sp_id = ''p1'', sp_name = ''Home'', sp_rules = 0,
                     sp_from = \<lparr>ep_comment = None, ep_name = ''Home'', ep_settings = None\<rparr>\<rparr>],
     is_max = 100\<rparr>"

lemma sample_accepted:
  "\<exists>acc. Verify (ie_login (import_env_failing op)) (ie_now (import_env_failing op)) TokenTypeReauthProfileImport
     (ir_current_password sample_request) (ir_reauth_token sample_request) '''' (is_account sample_server) = Inr acc"
  by (simp add: Verify_def verifyOnLoadedAccount_def import_env_failing_def sample_request_def sample_server_def
      token_account_def TokenTypeReauthProfileImport_def)

lemma sample_not_refused: "import_refusal sample_request sample_server = None"
  by (simp add: import_refusal_def sample_request_def sample_payload_def sample_server_def rules_of_def exported_rules_def
      MAX_CUSTOM_RULES_PER_ACCOUNT_def)

lemma import_loop_runs:
  "\<forall>i. \<not> import_fails env (k + i) (eps ! i) \<Longrightarrow> \<exists>a b c profs'. import_loop env k eps taken cids cnames w profs = (Some (a, b, c), profs')"
proof (induction eps arbitrary: k taken cids cnames w profs)
  case (Cons ep eps)
  from Cons.prems have "\<not> import_fails env k ep" by (metis add_0_right nth_Cons_0)
  from one_profile_done [OF this] obtain pw profs1 where one: "importOneProfile env k ep (given_name env ep taken) profs = (Some pw, profs1)"
    by metis
  have "\<forall>i. \<not> import_fails env (Suc k + i) (eps ! i)" using Cons.prems by (metis add_Suc_shift nth_Cons_Suc)
  from Cons.IH [OF this] loop_round [of env k ep taken profs eps cids cnames w] one show ?case by fastforce
qed simp

lemma sample_import_runs: "\<exists>res srv'. Import (import_env_failing None) sample_request '''' sample_server = (Inr res, srv')"
proof -
  obtain acc where acc: "Verify (ie_login (import_env_failing None)) (ie_now (import_env_failing None)) TokenTypeReauthProfileImport
     (ir_current_password sample_request) (ir_reauth_token sample_request) '''' (is_account sample_server) = Inr acc"
    using sample_accepted by blast
  have none: "\<forall>i. \<not> import_fails (import_env_failing None) (0 + i) (ee_profiles (ir_payload sample_request) ! i)"
    by (simp add: import_fails_def import_env_failing_def)
  show ?thesis
    unfolding import_accepted [OF acc sample_not_refused]
    using import_loop_runs [OF none, of "(NormalizeName \<circ> sp_name) ` set (is_profiles sample_server)"
        "[]" "[]" "stale_warning (import_env_failing None) sample_request" "is_profiles sample_server"]
    by (auto simp del: import_loop.simps)
qed

theorem import_creates_profiles_witness:
  "\<exists>res srv' new. Import (import_env_failing None) sample_request '''' sample_server = (Inr res, srv') \<and>
     is_profiles srv' = is_profiles sample_server @ new \<and> length new = 1"
proof -
  obtain res srv' where run: "Import (import_env_failing None) sample_request '''' sample_server = (Inr res, srv')"
    using sample_import_runs by blast
  have "is_max sample_server < 998" by (simp add: sample_server_def)
  from import_creates_profiles [OF run this] obtain new where
    "is_profiles srv' = is_profiles sample_server @ new" "map sp_from new = ee_profiles (ir_payload sample_request)" by blast
  moreover have "length (ee_profiles (ir_payload sample_request)) = 1"
    by (simp add: sample_request_def sample_payload_def)
  with calculation(2) have "length new = 1" by (metis length_map)
  ultimately show ?thesis using run by blast
qed

text \<open>
  Property C25 (failed_import_leaves_profile). When the cache or the rules of a profile cannot be
  written, the import answers an error and removes the profiles before it, but the profile it was
  writing stays in the account: the rollback only knows the finished ones. When the profile itself
  cannot be written, the account is as before.
\<close>

theorem failed_import_leaves_profile:
  assumes "Verify (ie_login env) (ie_now env) TokenTypeReauthProfileImport (ir_current_password req)
             (ir_reauth_token req) otp (is_account srv) = Inr acc"
    and "import_refusal req srv = None" and "is_max srv < 998"
    and "inj (ie_ids env)" and "range (ie_ids env) \<inter> sp_id ` set (is_profiles srv) = {}"
    and "j < length (ee_profiles (ir_payload req))" and "import_fails env j (ee_profiles (ir_payload req) ! j)"
    and "\<forall>i < j. \<not> import_fails env i (ee_profiles (ir_payload req) ! i)" and "ie_failing env j = Some op"
  shows "fst (Import env req otp srv) = Inl (api_error 500 (ie_db_error env)) \<and>
         (if op \<in> {GenerateId, CreateProfileDoc} then is_profiles (snd (Import env req otp srv)) = is_profiles srv
          else \<exists>p. is_profiles (snd (Import env req otp srv)) = is_profiles srv @ [p] \<and>
                   sp_from p = ee_profiles (ir_payload req) ! j)"
proof -
  let ?eps = "ee_profiles (ir_payload req)" and ?taken = "(NormalizeName \<circ> sp_name) ` set (is_profiles srv)"
  obtain r profs where loop: "import_loop env 0 ?eps ?taken [] [] (stale_warning env req) (is_profiles srv) = (r, profs)"
    by fastforce
  have "length (is_profiles srv) + length ?eps \<le> is_max srv"
    using assms(2) by (auto simp: import_refusal_def Let_def split: if_splits)
  moreover have "card ?taken \<le> length (is_profiles srv)" by (metis card_length list.set_map length_map)
  ultimately have size: "card ?taken + length ?eps \<le> 998" using assms(3) by linarith
  have "r = None"
  proof (cases r)
    case (Some t)
    obtain ids' names' w' where "t = (ids', names', w')" by (cases t)
    with loop Some have "import_loop env 0 ?eps ?taken [] [] (stale_warning env req) (is_profiles srv) = (Some (ids', names', w'), profs)" by simp
    from import_loop_done [OF this _ size] assms(6,7) show ?thesis by fastforce
  qed
  with loop have fail: "import_loop env 0 ?eps ?taken [] [] (stale_warning env req) (is_profiles srv @ []) = (None, profs)"
    by simp
  have "map sp_id [] = []" "set [] \<subseteq> ie_ids env ` {..<0}" by simp_all
  from import_loop_failed [OF fail this assms(4,5)] obtain j' where "import_fails env (0 + j') (?eps ! j')"
    "\<forall>i < j'. \<not> import_fails env (0 + i) (?eps ! i)"
    "if ie_failing env (0 + j') \<in> {Some GenerateId, Some CreateProfileDoc} then profs = is_profiles srv
     else \<exists>p. profs = is_profiles srv @ [p] \<and> sp_from p = ?eps ! j' \<and> sp_id p = ie_ids env (0 + j')" by blast
  note j' = this [unfolded add_0]
  have "j' = j" using j'(1,2) assms(7,8) by (metis linorder_neqE_nat)
  with j'(3) assms(9) have "if op \<in> {GenerateId, CreateProfileDoc} then profs = is_profiles srv
     else \<exists>p. profs = is_profiles srv @ [p] \<and> sp_from p = ?eps ! j" by (auto split: if_splits)
  moreover have "Import env req otp srv = (Inl (api_error 500 (ie_db_error env)), srv\<lparr>is_account := acc, is_profiles := profs\<rparr>)"
    using import_accepted [OF assms(1,2)] loop \<open>r = None\<close> by simp
  ultimately show ?thesis by simp
qed

theorem failed_import_leaves_profile_witness:
  "length (is_profiles (snd (Import (import_env_failing (Some CacheSettings)) sample_request '''' sample_server))) = 2"
proof -
  let ?env = "import_env_failing (Some CacheSettings)"
  obtain acc where acc: "Verify (ie_login ?env) (ie_now ?env) TokenTypeReauthProfileImport
     (ir_current_password sample_request) (ir_reauth_token sample_request) '''' (is_account sample_server) = Inr acc"
    using sample_accepted by blast
  have "inj (ie_ids ?env)" by (auto simp: inj_def import_env_failing_def)
  moreover have "range (ie_ids ?env) \<inter> sp_id ` set (is_profiles sample_server) = {}"
    by (auto simp: import_env_failing_def sample_server_def)
  moreover have "import_fails ?env 0 (ee_profiles (ir_payload sample_request) ! 0)"
    by (simp add: import_fails_def import_env_failing_def)
  ultimately show ?thesis
    using failed_import_leaves_profile [OF acc sample_not_refused, of 0 CacheSettings]
    by (auto simp: sample_server_def sample_request_def sample_payload_def import_env_failing_def)
qed

end
