(* ===== verification/ImportDialog.thy ===== *)
theory ImportDialog
  imports ImportApi DataCollection
begin

text \<open>
  The import and export dialogs (app/src/components/dialogs/ImportProfilesDialog.tsx,
  ExportProfilesDialog.tsx) with their hooks (app/src/hooks/useProfileImport.ts, useProfileExport.ts),
  the file drop zone (app/src/components/FileDropzone.tsx), the list of profiles
  (app/src/components/MultiSelectProfileList.tsx) and the error texts (app/src/lib/importExportErrors.ts).

  The file is parsed by the browser: its value is a \<open>json\<close>, or nothing when the text is not JSON.
  Numbers are whole. The code casts the value to the envelope type without looking at the profiles;
  \<open>envelope_of\<close> reads the properties the dialog uses from it.
\<close>

subsection \<open>Files\<close>

datatype json = JNull | JBool bool | JNum int | JStr string | JArr "json list" | JObj "(string \<times> json) list"

fun jget :: "json \<Rightarrow> string \<Rightarrow> json option" where
  "jget (JObj kvs) k = map_of (rev kvs) k"
| "jget _ k = None"

definition is_export_file :: "json \<Rightarrow> bool" where
  "is_export_file parsed =
     (jget parsed ''schemaVersion'' = Some (JNum 1) \<and> jget parsed ''kind'' = Some (JStr ''moddns-export'') \<and>
      (case jget parsed ''profiles'' of Some (JArr ps) \<Rightarrow> ps \<noteq> [] | _ \<Rightarrow> False))"

definition jbool :: "json option \<Rightarrow> bool option" where
  "jbool j = (case j of Some (JBool b) \<Rightarrow> Some b | _ \<Rightarrow> None)"

definition jstr :: "json option \<Rightarrow> string option" where
  "jstr j = (case j of Some (JStr s) \<Rightarrow> Some s | _ \<Rightarrow> None)"

definition jlist :: "json option \<Rightarrow> json list" where
  "jlist j = (case j of Some (JArr xs) \<Rightarrow> xs | _ \<Rightarrow> [])"

definition rule_of_json :: "json \<Rightarrow> ModelExportedCustomRule" where
  "rule_of_json j = \<lparr>er_action = nullish (jstr (jget j ''action'')) [], er_group = jstr (jget j ''group''),
                     er_note = jstr (jget j ''note''), er_value = nullish (jstr (jget j ''value'')) []\<rparr>"

definition strings_of_json :: "json option \<Rightarrow> string list" where
  "strings_of_json j = map (\<lambda>s. nullish (jstr (Some s)) []) (jlist j)"

definition group_of_json :: "json \<Rightarrow> ModelCustomRuleGroup" where
  "group_of_json j = \<lparr>cg_comment = jstr (jget j ''comment''), cg_name = nullish (jstr (jget j ''name'')) []\<rparr>"

definition groups_of_json :: "json \<Rightarrow> ModelCustomRuleGroups" where
  "groups_of_json j =
     \<lparr>gs_allow = map_option (\<lambda>g. map group_of_json (jlist (Some g))) (jget j ''allow''),
      gs_block = map_option (\<lambda>g. map group_of_json (jlist (Some g))) (jget j ''block'')\<rparr>"

definition privacy_of_json :: "json \<Rightarrow> ModelExportedPrivacy" where
  "privacy_of_json j =
     \<lparr>ev_blocklists = strings_of_json (jget j ''blocklists''),
      ev_blocklistsSubdomainsRule = jstr (jget j ''blocklistsSubdomainsRule''),
      ev_customRulesSubdomainsRule = jstr (jget j ''customRulesSubdomainsRule''),
      ev_defaultRule = jstr (jget j ''defaultRule''), ev_services = strings_of_json (jget j ''services'')\<rparr>"

definition security_of_json :: "json \<Rightarrow> ModelExportedSecurity" where
  "security_of_json j =
     \<lparr>ex_dnssec = map_option (\<lambda>s. \<lparr>ed_enabled = jbool (jget s ''enabled''), ed_sendDoBit = jbool (jget s ''sendDoBit'')\<rparr>)
        (jget j ''dnssec''),
      ex_rebindingProtection = map_option (\<lambda>s. \<lparr>eb_enabled = jbool (jget s ''enabled'')\<rparr>) (jget j ''rebindingProtection'')\<rparr>"

definition settings_of_json :: "json \<Rightarrow> ModelExportedSettings" where
  "settings_of_json j =
     \<lparr>es_advanced = map_option (\<lambda>s. \<lparr>ea_recursor = jstr (jget s ''recursor'')\<rparr>) (jget j ''advanced''),
      es_customRuleGroups = map_option groups_of_json (jget j ''customRuleGroups''),
      es_customRules = map_option (\<lambda>r. map rule_of_json (jlist (Some r))) (jget j ''customRules''),
      es_logs = map_option (\<lambda>l. \<lparr>el_enabled = jbool (jget l ''enabled''), el_logClientsIPs = jbool (jget l ''logClientsIPs''),
        el_logDomains = jbool (jget l ''logDomains''), el_retention = jstr (jget l ''retention'')\<rparr>) (jget j ''logs''),
      es_privacy = map_option privacy_of_json (jget j ''privacy''),
      es_security = map_option security_of_json (jget j ''security''),
      es_statistics = map_option (\<lambda>st. \<lparr>et_enabled = jbool (jget st ''enabled'')\<rparr>) (jget j ''statistics'')\<rparr>"

definition profile_of_json :: "json \<Rightarrow> ModelExportedProfile" where
  "profile_of_json j =
     \<lparr>ep_comment = jstr (jget j ''comment''), ep_name = nullish (jstr (jget j ''name'')) [],
      ep_settings = map_option settings_of_json (jget j ''settings'')\<rparr>"

definition envelope_of :: "json \<Rightarrow> ModelExportEnvelope" where
  "envelope_of parsed =
     \<lparr>ee_exportedAt = nullish (jstr (jget parsed ''exportedAt'')) [],
      ee_kind = nullish (jstr (jget parsed ''kind'')) [],
      ee_profiles = map profile_of_json (jlist (jget parsed ''profiles'')),
      ee_schemaVersion = (case jget parsed ''schemaVersion'' of Some (JNum n) \<Rightarrow> n | _ \<Rightarrow> 0)\<rparr>"

text \<open>The drop zone accepts a file by its name and size.\<close>

definition getAllowedExtensions :: "string \<Rightarrow> string list" where
  "getAllowedExtensions accept =
     map js_toLowerCase (filter (\<lambda>s. js_startsWith s ''.'') (map js_trim (js_split (CHR '','') accept)))"

text \<open>\<open>toFixed(1)\<close> of a non-negative fraction.\<close>

definition to_fixed1 :: "nat \<Rightarrow> nat \<Rightarrow> string" where
  "to_fixed1 num den =
     (let tenths = (20 * num + den) div (2 * den) in show_nat (tenths div 10) @ ''.'' @ show_nat (tenths mod 10))"

definition validateFile :: "string \<Rightarrow> nat \<Rightarrow> string option \<Rightarrow> nat option \<Rightarrow> string option" where
  "validateFile name fsize accept maxBytes =
     (let extensions = (case accept of None \<Rightarrow> [] | Some a \<Rightarrow> if a = [] then [] else getAllowedExtensions a)
      in if extensions \<noteq> [] \<and> \<not> list_ex (\<lambda>ext. js_endsWith (js_toLowerCase name) ext) extensions
         then Some (''File type not allowed. Expected: '' @ js_join '', '' extensions @ ''.'')
         else (case maxBytes of
                 None \<Rightarrow> None
               | Some m \<Rightarrow> if m < fsize then Some (''File is too large. Maximum size is '' @ to_fixed1 m (1024 * 1024) @ '' MB.'')
                           else None))"

definition formatBytes :: "nat \<Rightarrow> string" where
  "formatBytes bytes =
     (if bytes < 1024 then show_nat bytes @ '' B''
      else if bytes < 1024 * 1024 then to_fixed1 bytes 1024 @ '' KB''
      else to_fixed1 bytes (1024 * 1024) @ '' MB'')"

subsection \<open>Messages\<close>

definition TOOK_TOO_LONG :: string where
  "TOOK_TOO_LONG = ''The import took too long. Try importing fewer profiles or rules at a time.''"

definition importErrorMessage :: "nat option \<Rightarrow> string option \<Rightarrow> string" where
  "importErrorMessage status serverError =
     (if status = Some 413 then ''That file is too large to import.''
      else if status = Some 415 then ''Unsupported file type.''
      else if status = Some 429 then ''Too many attempts. Please wait a little and try again.''
      else if status = Some 504 then TOOK_TOO_LONG
      else if status = None \<or> status = Some 0 then TOOK_TOO_LONG
      else nullish serverError ''The file could not be imported. Please check it and try again.'')"

definition isReauthError :: "string option \<Rightarrow> bool" where
  "isReauthError serverError =
     (case serverError of
        None \<Rightarrow> False
      | Some e \<Rightarrow>
          e \<noteq> [] \<and> (js_includes (js_toLowerCase e) ''password'' \<or> js_includes (js_toLowerCase e) ''reauth'' \<or>
                       js_includes (js_toLowerCase e) ''token''))"

definition thrown_status :: "thrown \<Rightarrow> nat option" where
  "thrown_status t = (case t of ThrownObject e \<Rightarrow> ae_status e | _ \<Rightarrow> None)"

definition thrown_error :: "thrown \<Rightarrow> string option" where
  "thrown_error t = (case t of ThrownObject e \<Rightarrow> Option.bind (ae_data e) ed_error | _ \<Rightarrow> None)"

lemma thrown_api_error [simp]:
  "thrown_status (api_error st msg) = Some st" "thrown_error (api_error st msg) = Some msg"
  by (simp_all add: thrown_status_def thrown_error_def api_error_def)

subsection \<open>The list of profiles\<close>

definition list_select_all :: "string list \<Rightarrow> string list \<Rightarrow> string list" where
  "list_select_all ids selectedIds =
     (if 0 < length ids \<and> length selectedIds = length ids then [] else ids)"

definition list_toggle :: "string \<Rightarrow> bool \<Rightarrow> string list \<Rightarrow> string list" where
  "list_toggle pid checked selectedIds = (if checked then selectedIds @ [pid] else filter (\<lambda>sid. sid \<noteq> pid) selectedIds)"

definition digit_value :: "char \<Rightarrow> nat" where
  "digit_value c = of_char c - 48"

definition is_digit :: "char \<Rightarrow> bool" where
  "is_digit c = (48 \<le> (of_char c :: nat) \<and> (of_char c :: nat) \<le> 57)"

text \<open>\<open>parseInt(id, 10)\<close> of a text of digits.\<close>

definition parse_index :: "string \<Rightarrow> nat" where
  "parse_index s = foldl (\<lambda>a c. a * 10 + digit_value c) 0 (takeWhile is_digit s)"

lemma digit_char_facts: "d < 10 \<Longrightarrow> is_digit (digit_char d) \<and> digit_value (digit_char d) = d"
  by (simp add: is_digit_def digit_value_def of_digit_char)

lemma show_nat_digits: "\<forall>c \<in> set (show_nat n). is_digit c"
proof (induction "10 :: nat" n rule: show_base.induct)
  case (1 n)
  then show ?case by (auto simp: show_base.simps [of 10 n] digit_char_facts)
qed

lemma parse_show_gen: "foldl (\<lambda>a c. a * 10 + digit_value c) 0 (show_nat n) = n"
proof (induction "10 :: nat" n rule: show_base.induct)
  case (1 n)
  then show ?case by (auto simp: show_base.simps [of 10 n] digit_char_facts)
qed

lemma parse_show [simp]: "parse_index (show_nat n) = n"
  using show_nat_digits [of n] parse_show_gen [of n] by (simp add: parse_index_def takeWhile_eq_all_conv [THEN iffD2])

subsection \<open>The import dialog\<close>

datatype import_step = Pick | Confirm | Results

record ImportResult =
  rs_createdProfileIds :: "string list"
  rs_createdProfileNames :: "string list"
  rs_warnings :: "string list"

record import_dialog =
  dg_open :: bool
  dg_step :: import_step
  dg_parsedPayload :: "ModelExportEnvelope option"
  dg_selectedIds :: "string list"
  dg_fileError :: "string option"
  dg_importError :: "string option"
  dg_method :: VerificationMethod
  dg_currentPassword :: string
  dg_otp :: string
  dg_reauthToken :: "string option"
  dg_reauthStatus :: reauth_status
  dg_isImporting :: bool
  dg_result :: "ImportResult option"
  dg_passkeys :: bool
  dg_auth :: auth

abbreviation dg_store :: "import_dialog \<Rightarrow> AppState" where
  "dg_store d \<equiv> au_store (dg_auth d)"

definition MAX_PROFILES :: nat where "MAX_PROFILES = 100"

definition dialog_toast :: "toast_level \<Rightarrow> string \<Rightarrow> import_dialog \<Rightarrow> import_dialog" where
  "dialog_toast lvl msg d = d\<lparr>dg_auth := add_toast lvl msg (dg_auth d)\<rparr>"

definition account_otp :: "import_dialog \<Rightarrow> bool" where
  "account_otp d = showOtp (app_account (dg_store d)) (dg_method d)"

definition pw_available :: "import_dialog \<Rightarrow> bool" where
  "pw_available d = passwordAvailable (app_account (dg_store d))"

definition handleMethodChange :: "import_dialog \<Rightarrow> import_dialog" where
  "handleMethodChange d =
     d\<lparr>dg_importError := None, dg_currentPassword := [], dg_otp := [], dg_reauthToken := None, dg_reauthStatus := Idle\<rparr>"

definition set_method :: "VerificationMethod \<Rightarrow> import_dialog \<Rightarrow> import_dialog" where
  "set_method m d = (if m = dg_method d then d else handleMethodChange (d\<lparr>dg_method := m\<rparr>))"

definition resetAllState :: "import_dialog \<Rightarrow> import_dialog" where
  "resetAllState d =
     (set_method (preferredMethod (dg_passkeys d) (pw_available d)) d)
       \<lparr>dg_step := Pick, dg_parsedPayload := None, dg_selectedIds := [], dg_fileError := None,
        dg_importError := None, dg_currentPassword := [], dg_otp := [], dg_reauthToken := None,
        dg_reauthStatus := Idle, dg_result := None\<rparr>"

definition handleOpenChange :: "bool \<Rightarrow> import_dialog \<Rightarrow> import_dialog" where
  "handleOpenChange next_open d = (if next_open then d else resetAllState d)\<lparr>dg_open := next_open\<rparr>"

text \<open>\<open>None\<close> is a file that cannot be read, \<open>Some None\<close> a text that is not JSON.\<close>

definition handleFileAccepted :: "json option option \<Rightarrow> import_dialog \<Rightarrow> import_dialog" where
  "handleFileAccepted content d =
     (let d0 = d\<lparr>dg_fileError := None\<rparr> in
      case content of
        None \<Rightarrow> d0\<lparr>dg_fileError := Some ''Could not read the file. Please try again.''\<rparr>
      | Some None \<Rightarrow>
          d0\<lparr>dg_fileError := Some ''Could not parse the file. Make sure it is a valid moddns export JSON.''\<rparr>
      | Some (Some parsed) \<Rightarrow>
          if \<not> is_export_file parsed then
            d0\<lparr>dg_fileError := Some ''Invalid export file. Expected a moddns-export JSON with at least one profile.''\<rparr>
          else let payload = envelope_of parsed in
            d0\<lparr>dg_step := Confirm, dg_parsedPayload := Some payload,
               dg_selectedIds := map show_nat [0..<length (ee_profiles payload)]\<rparr>)"

definition handleFileRejected :: "string \<Rightarrow> import_dialog \<Rightarrow> import_dialog" where
  "handleFileRejected reason d = d\<lparr>dg_fileError := Some reason\<rparr>"

definition processFile :: "string \<Rightarrow> nat \<Rightarrow> json option option \<Rightarrow> import_dialog \<Rightarrow> import_dialog" where
  "processFile name fsize content d =
     (case validateFile name fsize (Some ''.moddns.json,.json,application/json'') (Some (5 * 1024 * 1024)) of
        Some err \<Rightarrow> handleFileRejected err d
      | None \<Rightarrow> handleFileAccepted content d)"

definition payload_profiles :: "import_dialog \<Rightarrow> ModelExportedProfile list" where
  "payload_profiles d = (case dg_parsedPayload d of None \<Rightarrow> [] | Some p \<Rightarrow> ee_profiles p)"

definition profileListItems :: "import_dialog \<Rightarrow> (string \<times> string) list" where
  "profileListItems d = map (\<lambda>(i, p). (show_nat i, ep_name p)) (enumerate 0 (payload_profiles d))"

definition selectedIndices :: "import_dialog \<Rightarrow> nat list" where
  "selectedIndices d = map parse_index (dg_selectedIds d)"

definition wouldExceedCap :: "import_dialog \<Rightarrow> bool" where
  "wouldExceedCap d = (MAX_PROFILES < length (app_profiles (dg_store d)) + length (dg_selectedIds d))"

text \<open>The selected profiles that start collecting data with the import, in the order of the file.\<close>

definition collecting :: "import_dialog \<Rightarrow> (nat \<times> string \<times> string) list" where
  "collecting d =
     concat (map (\<lambda>i. if i < length (payload_profiles d) then
                        (case importedCollection (ep_settings (payload_profiles d ! i)) of
                           None \<Rightarrow> []
                         | Some what \<Rightarrow> [(i, ep_name (payload_profiles d ! i), what)])
                      else []) (js_sort (\<le>) (selectedIndices d)))"

definition isReauthComplete :: "import_dialog \<Rightarrow> bool" where
  "isReauthComplete d =
     (if dg_method d = Passkey then dg_reauthStatus d = Verified
      else js_trim (dg_currentPassword d) \<noteq> [] \<and> (\<not> account_otp d \<or> js_trim (dg_otp d) \<noteq> []))"

definition isSubmitDisabled :: "import_dialog \<Rightarrow> bool" where
  "isSubmitDisabled d =
     (dg_selectedIds d = [] \<or> wouldExceedCap d \<or> \<not> isReauthComplete d \<or> dg_isImporting d)"

definition beginPasskeyReauth :: "import_dialog \<Rightarrow> import_dialog" where
  "beginPasskeyReauth d =
     (if dg_reauthStatus d = InProgress \<or> dg_reauthStatus d = Verified then d
      else d\<lparr>dg_importError := None, dg_reauthStatus := InProgress\<rparr>)"

definition passkeyReauthDone :: "string + string \<Rightarrow> import_dialog \<Rightarrow> import_dialog" where
  "passkeyReauthDone answer d =
     (case answer of
        Inr token \<Rightarrow>
          dialog_toast TSuccess ''Identity verified via passkey''
            (d\<lparr>dg_currentPassword := [], dg_reauthToken := Some token, dg_reauthStatus := Verified\<rparr>)
      | Inl msg \<Rightarrow> dialog_toast TError msg (d\<lparr>dg_reauthStatus := ReauthError\<rparr>))"

text \<open>The request of the hook: its body and the one-time code of its header.\<close>

definition import_request :: "import_dialog \<Rightarrow> RequestsImportRequest \<times> string" where
  "import_request d =
     (let profiles = payload_profiles d;
          filteredProfiles = map (\<lambda>i. profiles ! i) (filter (\<lambda>i. i < length profiles) (selectedIndices d));
          currentPassword = (if dg_method d = Password then Some (dg_currentPassword d) else None);
          otp = (if dg_method d = Password \<and> account_otp d then Some (dg_otp d) else None)
      in (\<lparr>ir_current_password = currentPassword, ir_mode = ''create_new'',
           ir_payload = (the (dg_parsedPayload d))\<lparr>ee_profiles := filteredProfiles\<rparr>,
           ir_reauth_token = (if dg_method d = Passkey then dg_reauthToken d else None)\<rparr>,
          if currentPassword \<noteq> None \<and> truthy_str otp then the otp else ''''))"

definition handleImport :: "import_dialog \<Rightarrow> ((RequestsImportRequest \<times> string) \<times> import_dialog) option" where
  "handleImport d =
     (if dg_parsedPayload d = None \<or> isSubmitDisabled d then None
      else Some (import_request d, d\<lparr>dg_importError := None, dg_isImporting := True, dg_result := None\<rparr>))"

text \<open>The answer. A failure passes the interceptor of the client first, then the hook, then the dialog.\<close>

definition importDone :: "string \<Rightarrow> thrown + ProfileImportResult \<Rightarrow> import_dialog \<Rightarrow> import_dialog" where
  "importDone origin answer d =
     (case answer of
        Inr data \<Rightarrow>
          d\<lparr>dg_step := Results, dg_isImporting := False,
            dg_result := Some \<lparr>rs_createdProfileIds = nullish (pi_createdProfileIds data) [],
                               rs_createdProfileNames = nullish (pi_createdProfileNames data) [],
                               rs_warnings = nullish (pi_warnings data) []\<rparr>\<rparr>
      | Inl err \<Rightarrow>
          let status = thrown_status err; serverError = thrown_error err;
              d1 = dialog_toast TError (importErrorMessage status serverError)
                     (d\<lparr>dg_isImporting := False, dg_auth := call_failed origin status None (dg_auth d)\<rparr>)
          in if status = Some 401 \<or> (status = Some 400 \<and> isReauthError serverError) then d1
             else d1\<lparr>dg_importError := Some (importErrorMessage status serverError)\<rparr>)"

definition handleBack :: "import_dialog \<Rightarrow> import_dialog" where
  "handleBack d =
     d\<lparr>dg_step := Pick, dg_parsedPayload := None, dg_selectedIds := [], dg_fileError := None, dg_importError := None\<rparr>"

text \<open>\<open>refreshed\<close> is the answer of the profile list, \<open>None\<close> when it failed.\<close>

definition handleDone :: "ModelProfile list option \<Rightarrow> import_dialog \<Rightarrow> import_dialog" where
  "handleDone refreshed d =
     (let importedCount = (case dg_result d of None \<Rightarrow> 0 | Some r \<Rightarrow> length (rs_createdProfileIds r));
          warningCount = (case dg_result d of None \<Rightarrow> 0 | Some r \<Rightarrow> length (rs_warnings r));
          d1 = (case refreshed of
                  None \<Rightarrow> d
                | Some ps \<Rightarrow> d\<lparr>dg_auth := (dg_auth d)\<lparr>au_store := restoreActiveProfile ps (setProfiles ps (dg_store d))\<rparr>\<rparr>);
          plural = (\<lambda>n. if n = 1 then '''' else ''s'');
          d2 = (if 0 < warningCount
                then dialog_toast TWarning (''Imported with '' @ show_nat warningCount @ '' warning'' @ plural warningCount @
                       '' - review the results'') d1
                else dialog_toast TSuccess (''Imported '' @ show_nat importedCount @ '' profile'' @ plural importedCount) d1)
      in handleOpenChange False d2)"

definition isIdnWarning :: "string \<Rightarrow> bool" where
  "isIdnWarning warning = js_includes warning ''internationalized domain''"

subsection \<open>What the dialog holds\<close>

datatype dialog_event =
    OpenDialog
  | CloseDialog
  | FileChosen string nat "json option option"
  | SelectAll
  | Toggle nat
  | TypePw string
  | TypeCode string
  | Choose VerificationMethod
  | StartPasskey
  | PasskeyAnswer "string + string"
  | Submit
  | ImportAnswer "thrown + ProfileImportResult"
  | GoBack
  | FinishImport "ModelProfile list option"

text \<open>An event whose control the step does not show, or shows disabled, changes nothing.\<close>

fun dialog_step :: "string \<Rightarrow> import_dialog \<Rightarrow> dialog_event \<Rightarrow> import_dialog" where
  "dialog_step origin d OpenDialog = handleOpenChange True d"
| "dialog_step origin d CloseDialog = handleOpenChange False d"
| "dialog_step origin d (FileChosen name fsize content) = processFile name fsize content d"
| "dialog_step origin d SelectAll =
     d\<lparr>dg_selectedIds := list_select_all (map fst (profileListItems d)) (dg_selectedIds d)\<rparr>"
| "dialog_step origin d (Toggle i) =
     (if i < length (payload_profiles d)
      then d\<lparr>dg_selectedIds := list_toggle (show_nat i) (show_nat i \<notin> set (dg_selectedIds d)) (dg_selectedIds d)\<rparr> else d)"
| "dialog_step origin d (TypePw s) = d\<lparr>dg_currentPassword := s\<rparr>"
| "dialog_step origin d (TypeCode s) = d\<lparr>dg_otp := s\<rparr>"
| "dialog_step origin d (Choose m) = set_method (switchMethod (dg_passkeys d) (pw_available d) m (dg_method d)) d"
| "dialog_step origin d StartPasskey = beginPasskeyReauth d"
| "dialog_step origin d (PasskeyAnswer r) = passkeyReauthDone r d"
| "dialog_step origin d Submit =
     (if dg_step d = Confirm then (case handleImport d of None \<Rightarrow> d | Some (_, d') \<Rightarrow> d') else d)"
| "dialog_step origin d (ImportAnswer r) = (if dg_isImporting d then importDone origin r d else d)"
| "dialog_step origin d GoBack = (if dg_isImporting d then d else handleBack d)"
| "dialog_step origin d (FinishImport r) = (if dg_step d = Results then handleDone r d else d)"

definition dialog_ok :: "import_dialog \<Rightarrow> bool" where
  "dialog_ok d \<longleftrightarrow>
     (dg_step d = Confirm \<longrightarrow> dg_parsedPayload d \<noteq> None \<and> payload_profiles d \<noteq> []) \<and>
     (dg_step d = Results \<longrightarrow> dg_result d \<noteq> None) \<and>
     distinct (dg_selectedIds d) \<and> set (dg_selectedIds d) \<subseteq> show_nat ` {..<length (payload_profiles d)} \<and>
     (dg_reauthStatus d = Verified \<longrightarrow> dg_reauthToken d \<noteq> None)"

definition init_dialog :: "bool \<Rightarrow> auth \<Rightarrow> import_dialog" where
  "init_dialog passkeys a =
     \<lparr>dg_open = False, dg_step = Pick, dg_parsedPayload = None, dg_selectedIds = [], dg_fileError = None,
      dg_importError = None, dg_method = preferredMethod passkeys (passwordAvailable (app_account (au_store a))),
      dg_currentPassword = [], dg_otp = [], dg_reauthToken = None, dg_reauthStatus = Idle, dg_isImporting = False,
      dg_result = None, dg_passkeys = passkeys, dg_auth = a\<rparr>"

lemma set_method_simps [simp]:
  "dg_step (set_method m d) = dg_step d" "dg_parsedPayload (set_method m d) = dg_parsedPayload d"
  "dg_selectedIds (set_method m d) = dg_selectedIds d" "dg_result (set_method m d) = dg_result d"
  "dg_method (set_method m d) = m" "dg_auth (set_method m d) = dg_auth d" "dg_passkeys (set_method m d) = dg_passkeys d"
  "dg_isImporting (set_method m d) = dg_isImporting d"
  by (simp_all add: set_method_def handleMethodChange_def)

lemma set_method_token:
  "(dg_reauthStatus d = Verified \<longrightarrow> dg_reauthToken d \<noteq> None) \<Longrightarrow>
   dg_reauthStatus (set_method m d) = Verified \<longrightarrow> dg_reauthToken (set_method m d) \<noteq> None"
  by (simp add: set_method_def handleMethodChange_def)

lemma payload_set_method [simp]: "payload_profiles (set_method m d) = payload_profiles d"
  by (simp add: payload_profiles_def)

lemma resetAll_ok: "dialog_ok (resetAllState d)"
  by (simp add: dialog_ok_def resetAllState_def payload_profiles_def)

lemma list_items_ids [simp]: "map fst (profileListItems d) = map show_nat [0..<length (payload_profiles d)]"
  by (rule nth_equalityI) (simp_all add: profileListItems_def nth_enumerate_eq)

lemma dialog_ok_keep:
  assumes "dialog_ok d" and "dg_step d' = dg_step d" "dg_parsedPayload d' = dg_parsedPayload d"
    and "dg_selectedIds d' = dg_selectedIds d" "dg_result d' = dg_result d"
    and "dg_reauthStatus d' = Verified \<longrightarrow> dg_reauthToken d' \<noteq> None"
  shows "dialog_ok d'"
  using assms by (simp add: dialog_ok_def payload_profiles_def)

lemma dialog_step_ok:
  assumes ok: "dialog_ok d"
  shows "dialog_ok (dialog_step origin d e)"
proof (cases e)
  case OpenDialog
  with ok show ?thesis by (simp add: handleOpenChange_def dialog_ok_def payload_profiles_def)
next
  case CloseDialog
  with resetAll_ok [of d] show ?thesis by (simp add: handleOpenChange_def dialog_ok_def payload_profiles_def)
next
  case (FileChosen name fsize content)
  show ?thesis
  proof (cases "validateFile name fsize (Some ''.moddns.json,.json,application/json'') (Some (5 * 1024 * 1024))")
    case None
    show ?thesis
    proof (cases "\<exists>parsed. content = Some (Some parsed) \<and> is_export_file parsed")
      case True
      then obtain parsed where p: "content = Some (Some parsed)" "is_export_file parsed" by blast
      have "ee_profiles (envelope_of parsed) \<noteq> []"
        using p(2) by (auto simp: is_export_file_def envelope_of_def jlist_def split: option.splits json.splits)
      with ok None p FileChosen show ?thesis
        by (auto simp: processFile_def handleFileAccepted_def Let_def dialog_ok_def payload_profiles_def distinct_map inj_on_def)
    next
      case False
      have "\<exists>msg. handleFileAccepted content d = d\<lparr>dg_fileError := Some msg\<rparr>"
      proof (cases "content = None \<or> content = Some None")
        case True
        then show ?thesis by (elim disjE) (simp_all add: handleFileAccepted_def, blast+)
      next
        case False
        then obtain parsed where "content = Some (Some parsed)" by (cases content; cases "the content") auto
        with \<open>\<nexists>parsed. content = Some (Some parsed) \<and> is_export_file parsed\<close> show ?thesis
          by (auto simp: handleFileAccepted_def Let_def)
      qed
      with None FileChosen obtain msg where msg: "dialog_step origin d e = d\<lparr>dg_fileError := Some msg\<rparr>"
        by (auto simp: processFile_def)
      show ?thesis unfolding msg
        by (rule dialog_ok_keep [OF ok]) (use ok in \<open>simp_all add: dialog_ok_def\<close>)
    qed
  next
    case (Some err)
    with FileChosen have msg: "dialog_step origin d e = d\<lparr>dg_fileError := Some err\<rparr>"
      by (simp add: processFile_def handleFileRejected_def)
    show ?thesis unfolding msg
      by (rule dialog_ok_keep [OF ok]) (use ok in \<open>simp_all add: dialog_ok_def\<close>)
  qed
next
  case SelectAll
  with ok show ?thesis
    by (auto simp: dialog_ok_def list_select_all_def payload_profiles_def distinct_map inj_on_def)
next
  case (Toggle i)
  with ok show ?thesis by (auto simp: dialog_ok_def list_toggle_def payload_profiles_def)
next
  case (Choose m)
  with ok show ?thesis by (auto intro!: dialog_ok_keep [OF ok] set_method_token simp: dialog_ok_def [of d])
next
  case StartPasskey
  with ok show ?thesis by (auto intro!: dialog_ok_keep [OF ok] simp: beginPasskeyReauth_def dialog_ok_def [of d])
next
  case (PasskeyAnswer r)
  then show ?thesis
    by (auto intro!: dialog_ok_keep [OF ok] simp: passkeyReauthDone_def dialog_toast_def split: sum.split)
next
  case Submit
  show ?thesis
  proof (cases "dg_step d = Confirm")
    case True
    with ok Submit show ?thesis
      by (auto simp: handleImport_def dialog_ok_def payload_profiles_def)
  qed (use ok Submit in simp)
next
  case (ImportAnswer r)
  have keep: "dialog_ok (importDone origin (Inl err) d)" for err
    by (rule dialog_ok_keep [OF ok])
      (use ok in \<open>simp_all add: importDone_def dialog_toast_def Let_def dialog_ok_def\<close>)
  from ok have "dialog_ok (importDone origin (Inr data) d)" for data
    by (simp add: importDone_def dialog_ok_def payload_profiles_def)
  with keep ImportAnswer ok show ?thesis by (cases r) auto
next
  case GoBack
  with ok show ?thesis by (simp add: handleBack_def dialog_ok_def payload_profiles_def)
next
  case (FinishImport r)
  have "dialog_ok (handleOpenChange False x)" for x
    using resetAll_ok [of x] by (simp add: handleOpenChange_def dialog_ok_def payload_profiles_def)
  with FinishImport ok show ?thesis by (simp add: handleDone_def Let_def)
qed (use ok in \<open>simp_all add: dialog_ok_def payload_profiles_def\<close>)

interpretation import_run: machine "dialog_step origin" dialog_ok
  by unfold_locales (rule dialog_step_ok)

lemma init_ok: "dialog_ok (init_dialog passkeys a)"
  by (simp add: dialog_ok_def init_dialog_def payload_profiles_def)

text \<open>
  Property C12 (import_dialog_well_formed). Whatever the events, the step shown has its data: the
  selection step a payload with a profile, the results step a result, a verified passkey its token;
  and the selected ids are pairwise different indices of profiles of the file.
\<close>

theorem import_dialog_well_formed:
  fixes passkeys :: bool and a :: auth and es :: "dialog_event list" and origin :: string
  defines "d \<equiv> foldl (dialog_step origin) (init_dialog passkeys a) es"
  shows "(dg_step d = Confirm \<longrightarrow> dg_parsedPayload d \<noteq> None \<and> payload_profiles d \<noteq> []) \<and>
         (dg_step d = Results \<longrightarrow> dg_result d \<noteq> None) \<and>
         (dg_reauthStatus d = Verified \<longrightarrow> dg_reauthToken d \<noteq> None) \<and>
         distinct (selectedIndices d) \<and> (\<forall>i \<in> set (selectedIndices d). i < length (payload_profiles d)) \<and>
         dg_selectedIds d = map show_nat (selectedIndices d)"
proof -
  have ok: "dialog_ok d" unfolding d_def by (rule import_run.run_inv [OF init_ok])
  have sel: "set (dg_selectedIds d) \<subseteq> show_nat ` {..<length (payload_profiles d)}" "distinct (dg_selectedIds d)"
    using ok by (simp_all add: dialog_ok_def)
  have "map show_nat (selectedIndices d) = dg_selectedIds d"
    unfolding selectedIndices_def map_map using sel(1) by (intro map_idI) (auto simp: subset_iff)
  moreover have "distinct (selectedIndices d)"
    using sel(2) calculation by (metis distinct_map)
  moreover have "\<forall>i \<in> set (selectedIndices d). i < length (payload_profiles d)"
    using sel(1) by (auto simp: selectedIndices_def)
  ultimately show ?thesis using ok by (simp add: dialog_ok_def)
qed

definition sample_file :: json where
  "sample_file = JObj [(''schemaVersion'', JNum 1), (''kind'', JStr ''moddns-export''),
     (''profiles'', JArr [JObj [(''name'', JStr ''Home'')], JObj [(''name'', JStr ''Work'')]])]"

theorem import_dialog_well_formed_witness:
  "let d = foldl (dialog_step ''https://app'')
       (init_dialog True \<lparr>au_isAuthenticated = True, au_seen = True, au_key = None, au_path = ''/settings'',
          au_store = initial_store, au_toasts = []\<rparr>)
       [OpenDialog, FileChosen ''backup.json'' 120 (Some (Some sample_file)), Toggle 0]
   in dg_step d = Confirm \<and> payload_profiles d \<noteq> [] \<and> dg_selectedIds d = [''1''] \<and>
      (\<forall>i \<in> set (selectedIndices d). i < length (payload_profiles d))"
proof -
  let ?a = "\<lparr>au_isAuthenticated = True, au_seen = True, au_key = None, au_path = ''/settings'',
     au_store = initial_store, au_toasts = []\<rparr>"
  let ?es = "[OpenDialog, FileChosen ''backup.json'' 120 (Some (Some sample_file)), Toggle 0]"
  let ?d = "foldl (dialog_step ''https://app'') (init_dialog True ?a) ?es"
  have "list_ex (\<lambda>ext. js_endsWith (js_toLowerCase ''backup.json'') ext) (getAllowedExtensions ''.moddns.json,.json,application/json'')"
    by code_simp
  then have "validateFile ''backup.json'' 120 (Some ''.moddns.json,.json,application/json'') (Some (5 * 1024 * 1024)) = None"
    unfolding validateFile_def Let_def by simp
  moreover have "is_export_file sample_file" by code_simp
  moreover have "show_nat 0 = ''0''" "show_nat (Suc 0) = ''1''" by (code_simp, code_simp)
  moreover have "length (ee_profiles (envelope_of sample_file)) = Suc (Suc 0)" by code_simp
  ultimately have "dg_step ?d = Confirm" "dg_selectedIds ?d = [''1'']"
    by (simp_all add: handleOpenChange_def processFile_def handleFileAccepted_def Let_def payload_profiles_def list_toggle_def)
  with import_dialog_well_formed [of "''https://app''" True ?a ?es] show ?thesis unfolding Let_def by blast
qed

subsection \<open>The dialog and the API together\<close>

lemma handleImport_Some:
  assumes "handleImport d = Some ((req, otp), d')"
  shows "dg_parsedPayload d \<noteq> None \<and> \<not> isSubmitDisabled d \<and> (req, otp) = import_request d \<and>
         d' = d\<lparr>dg_importError := None, dg_isImporting := True, dg_result := None\<rparr>"
  using assms by (auto simp: handleImport_def split: if_splits)

lemma ok_indices:
  assumes "dialog_ok d"
  shows "distinct (selectedIndices d) \<and> (\<forall>i \<in> set (selectedIndices d). i < length (payload_profiles d))"
proof -
  have sel: "set (dg_selectedIds d) \<subseteq> show_nat ` {..<length (payload_profiles d)}" "distinct (dg_selectedIds d)"
    using assms by (simp_all add: dialog_ok_def)
  have "inj_on parse_index (set (dg_selectedIds d))"
    by (rule inj_on_subset [OF _ sel(1)]) (auto simp: inj_on_def)
  with sel show ?thesis by (auto simp: selectedIndices_def distinct_map)
qed

lemma request_payload:
  assumes "dialog_ok d"
  shows "ee_profiles (ir_payload (fst (import_request d))) = map (\<lambda>i. payload_profiles d ! i) (selectedIndices d)"
proof -
  have "filter (\<lambda>i. i < length (payload_profiles d)) (selectedIndices d) = selectedIndices d"
    using ok_indices [OF assms] by (simp add: filter_id_conv)
  then show ?thesis by (simp add: import_request_def Let_def)
qed

text \<open>
  Property C2 (import_end_to_end). The import button sends one credential of the chosen method, and
  when the API accepts the import, the account has its old profiles, untouched, followed by exactly the
  selected ones in the order of the selection, within the limit of the account; the dialog shows their
  ids.
\<close>

theorem import_end_to_end:
  fixes d :: import_dialog and env :: import_env and srv :: import_server and origin :: string
  assumes "dialog_ok d" and "handleImport d = Some ((req, otp), d1)"
    and "importProfiles env req otp srv = (Inr res, srv')" and "is_max srv < 998"
  defines "d2 \<equiv> importDone origin (Inr res) d1"
  shows "(ir_current_password req = None) \<noteq> (ir_reauth_token req = None) \<and>
         (\<exists>new. is_profiles srv' = is_profiles srv @ new \<and> new \<noteq> [] \<and>
            map sp_from new = map (\<lambda>i. payload_profiles d ! i) (selectedIndices d) \<and>
            distinct (selectedIndices d) \<and> (\<forall>i \<in> set (selectedIndices d). i < length (payload_profiles d)) \<and>
            length (is_profiles srv') \<le> is_max srv \<and>
            dg_step d2 = Results \<and> map_option rs_createdProfileIds (dg_result d2) = Some (map sp_id new))"
proof -
  from handleImport_Some [OF assms(2)] have req: "(req, otp) = import_request d" and "\<not> isSubmitDisabled d" by simp_all
  then have "isReauthComplete d" by (simp add: isSubmitDisabled_def)
  then have cred: "(ir_current_password req = None) \<noteq> (ir_reauth_token req = None)"
    using assms(1) req by (cases "dg_method d") (auto simp: import_request_def Let_def isReauthComplete_def dialog_ok_def)
  have run: "Import env req otp srv = (Inr res, srv')"
    using assms(3) by (auto simp: importProfiles_def split: option.splits if_splits)
  from import_creates_facts [OF run assms(4)] obtain new where new: "is_profiles srv' = is_profiles srv @ new"
    "map sp_from new = ee_profiles (ir_payload req)" "pi_createdProfileIds res = Some (map sp_id new)" "new \<noteq> []"
    "length (is_profiles srv') \<le> is_max srv" by blast
  have "ee_profiles (ir_payload req) = map (\<lambda>i. payload_profiles d ! i) (selectedIndices d)"
    using request_payload [OF assms(1)] req by (metis fst_conv)
  with new ok_indices [OF assms(1)] cred show ?thesis by (auto simp: d2_def importDone_def)
qed

definition sample_auth :: auth where
  "sample_auth = \<lparr>au_isAuthenticated = True, au_seen = True, au_key = Some ''true'', au_path = ''/settings'',
     au_store = initial_store, au_toasts = []\<rparr>"

definition sample_dialog :: import_dialog where
  "sample_dialog = (init_dialog True sample_auth)
     \<lparr>dg_step := Confirm, dg_parsedPayload := Some sample_payload, dg_selectedIds := [''0''],
      dg_method := Passkey, dg_reauthToken := Some ''t1'', dg_reauthStatus := Verified\<rparr>"

lemma show_zero: "show_nat 0 = ''0''" by code_simp

lemma sample_dialog_ok: "dialog_ok sample_dialog"
  by (simp add: dialog_ok_def sample_dialog_def init_dialog_def payload_profiles_def sample_payload_def show_zero [symmetric])

lemma parse_zero: "parse_index ''0'' = 0"
  using parse_show [of 0] by (simp only: show_zero)

lemma sample_request_sent:
  "handleImport sample_dialog =
     Some ((sample_request, ''''), sample_dialog\<lparr>dg_importError := None, dg_isImporting := True, dg_result := None\<rparr>)"
  by (simp add: handleImport_def isSubmitDisabled_def isReauthComplete_def wouldExceedCap_def MAX_PROFILES_def
      import_request_def selectedIndices_def parse_zero payload_profiles_def sample_dialog_def init_dialog_def
      sample_request_def sample_payload_def sample_auth_def initial_store_def)

theorem import_end_to_end_witness:
  "\<exists>res srv'. importProfiles (import_env_failing None) sample_request '''' sample_server = (Inr res, srv') \<and>
     dg_step (importDone ''https://app'' (Inr res)
       (sample_dialog\<lparr>dg_importError := None, dg_isImporting := True, dg_result := None\<rparr>)) = Results \<and>
     (\<exists>p. is_profiles srv' = is_profiles sample_server @ [p] \<and> ep_name (sp_from p) = ''Home'')"
proof -
  obtain res srv' where run: "Import (import_env_failing None) sample_request '''' sample_server = (Inr res, srv')"
    using sample_import_runs by blast
  then have api: "importProfiles (import_env_failing None) sample_request '''' sample_server = (Inr res, srv')"
    by (simp add: importProfiles_def import_env_failing_def sample_request_def)
  have idx: "map (\<lambda>i. payload_profiles sample_dialog ! i) (selectedIndices sample_dialog) =
      [\<lparr>ep_comment = None, ep_name = ''Home'', ep_settings = None\<rparr>]"
    by (simp add: selectedIndices_def parse_zero payload_profiles_def sample_dialog_def sample_payload_def)
  have "is_max sample_server < 998" by (simp add: sample_server_def)
  from import_end_to_end [OF sample_dialog_ok sample_request_sent api this, of "''https://app''"] obtain new where
    new: "is_profiles srv' = is_profiles sample_server @ new"
      "map sp_from new = [\<lparr>ep_comment = None, ep_name = ''Home'', ep_settings = None\<rparr>]"
    and shown: "dg_step (importDone ''https://app'' (Inr res)
       (sample_dialog\<lparr>dg_importError := None, dg_isImporting := True, dg_result := None\<rparr>)) = Results"
    unfolding idx by (elim conjE exE) (rule that, assumption+)
  from new(2) obtain p where p: "new = [p]" "sp_from p = \<lparr>ep_comment = None, ep_name = ''Home'', ep_settings = None\<rparr>"
    unfolding map_eq_Cons_conv map_is_Nil_conv by blast
  from p(2) have "ep_name (sp_from p) = ''Home''" by (rule ssubst) simp
  with new(1) api shown p(1) show ?thesis by blast
qed

text \<open>
  Fact (refused_import_spends_token). When the API refuses an import for its content, the
  passkey verification it came with is spent, but the dialog still shows it as verified with its button
  disabled: every later attempt, with whatever selection, is answered that the token is invalid, and no
  message in the dialog says why.
\<close>

theorem refused_import_spends_token:
  fixes d d1 d2 :: import_dialog and env :: import_env and srv srv' :: import_server and origin :: string
  assumes "handleImport d = Some ((req, otp), d1)" and "dg_method d = Passkey" and "dg_reauthToken d = Some token"
    and "\<forall>r. ie_validation env r = None"
    and "Verify (ie_login env) (ie_now env) TokenTypeReauthProfileImport None (Some token) otp (is_account srv) = Inr acc"
    and "import_refusal req srv = Some msg" and "\<not> isReauthError (Some msg)"
    and "importProfiles env req otp srv = (answer, srv')"
  defines "d2 \<equiv> importDone origin answer d1"
  shows "dg_importError d2 = Some msg \<and> dg_reauthStatus d2 = Verified \<and> beginPasskeyReauth d2 = d2 \<and>
         (\<forall>ids req2 otp2 d3. handleImport (d2\<lparr>dg_selectedIds := ids\<rparr>) = Some ((req2, otp2), d3) \<longrightarrow>
            importProfiles env req2 otp2 srv' = (Inl (api_error 400 ''invalid reauth token''), srv') \<and>
            (let d4 = importDone origin (Inl (api_error 400 ''invalid reauth token'')) d3 in
               dg_importError d4 = None \<and> dg_reauthStatus d4 = Verified \<and> dg_reauthToken d4 = Some token))"
proof -
  have reauth: "isReauthError (Some ''invalid reauth token'')" by code_simp
  from handleImport_Some [OF assms(1)] have req: "(req, otp) = import_request d" and "\<not> isSubmitDisabled d"
    and d1: "d1 = d\<lparr>dg_importError := None, dg_isImporting := True, dg_result := None\<rparr>" by simp_all
  then have verified: "dg_reauthStatus d = Verified"
    using assms(2) by (simp add: isSubmitDisabled_def isReauthComplete_def)
  have cred: "ir_current_password req = None" "ir_reauth_token req = Some token"
    using req assms(2,3) by (simp_all add: import_request_def Let_def)
  have srv': "answer = Inl (api_error 400 msg)" "srv' = srv\<lparr>is_account := acc\<rparr>"
    using assms(4,5,6,8) cred by (simp_all add: importProfiles_def Import_def Let_def)
  have quiet: "call_failed origin (Some 400) None x = x" for x by (rule call_failed_id)
  have shown: "importErrorMessage (Some 400) (Some m) = m" for m by (simp add: importErrorMessage_def)
  have d2: "d2 = dialog_toast TError msg (d1\<lparr>dg_isImporting := False\<rparr>)\<lparr>dg_importError := Some msg\<rparr>"
    using assms(7) by (simp add: d2_def srv'(1) importDone_def quiet shown Let_def)
  have keep: "dg_method d2 = Passkey" "dg_reauthToken d2 = Some token" "dg_reauthStatus d2 = Verified" "dg_importError d2 = Some msg"
    using assms(2,3) verified by (simp_all add: d2 d1 dialog_toast_def)
  have spent: "Verify (ie_login env) (ie_now env) TokenTypeReauthProfileImport None (Some token) otp2 acc = Inl ErrInvalidReauthToken" for otp2
    using spent_token [OF assms(5)] by blast
  have later: "importProfiles env req2 otp2 srv' = (Inl (api_error 400 ''invalid reauth token''), srv') \<and>
            (let d4 = importDone origin (Inl (api_error 400 ''invalid reauth token'')) d3 in
               dg_importError d4 = None \<and> dg_reauthStatus d4 = Verified \<and> dg_reauthToken d4 = Some token)"
    if again: "handleImport (d2\<lparr>dg_selectedIds := ids\<rparr>) = Some ((req2, otp2), d3)" for ids req2 otp2 d3
  proof -
    from handleImport_Some [OF again] have req2: "(req2, otp2) = import_request (d2\<lparr>dg_selectedIds := ids\<rparr>)"
      and d3: "d3 = d2\<lparr>dg_selectedIds := ids, dg_importError := None, dg_isImporting := True, dg_result := None\<rparr>" by simp_all
    have "ir_current_password req2 = None" "ir_reauth_token req2 = Some token"
      using req2 keep by (simp_all add: import_request_def Let_def)
    then have "importProfiles env req2 otp2 srv' = (Inl (api_error 400 ''invalid reauth token''), srv')"
      using assms(4) spent by (simp add: importProfiles_def Import_def srv'(2))
    moreover have "dg_importError d3 = None" "dg_reauthStatus d3 = Verified" "dg_reauthToken d3 = Some token"
      using keep by (simp_all add: d3)
    ultimately show ?thesis using reauth by (simp add: importDone_def Let_def dialog_toast_def)
  qed
  show ?thesis using keep later by (simp add: beginPasskeyReauth_def)
qed

text \<open>
  Fact (wrong_code_is_reported). A mistyped one-time code in the import dialog changes nothing at the
  API and nothing of the session: the answer is a 401 like that of an expired session, the dialog shows
  its message, and stays open with the file, the selection and the password to correct the code.
\<close>

theorem wrong_code_is_reported:
  fixes d d1 d2 :: import_dialog and env :: import_env and srv srv' :: import_server and origin :: string
  assumes "handleImport d = Some ((req, otp), d1)" and "dg_method d = Password" and "account_otp d"
    and "ie_validation env req = None" and "rv_totp (is_account srv)"
    and "le_totp_error (ie_login env) (rv_email (is_account srv)) (dg_otp d) = Some msg"
    and "importProfiles env req otp srv = (answer, srv')"
  defines "d2 \<equiv> importDone origin answer d1"
  shows "answer = Inl (api_error 401 msg) \<and> srv' = srv \<and>
         d2 = dialog_toast TError (importErrorMessage (Some 401) (Some msg)) (d\<lparr>dg_importError := None, dg_isImporting := False, dg_result := None\<rparr>)"
proof -
  from handleImport_Some [OF assms(1)] have req: "(req, otp) = import_request d" and enabled: "\<not> isSubmitDisabled d"
    and d1: "d1 = d\<lparr>dg_importError := None, dg_isImporting := True, dg_result := None\<rparr>" by simp_all
  have "js_trim (dg_otp d) \<noteq> []" using enabled assms(2,3) by (simp add: isSubmitDisabled_def isReauthComplete_def)
  then have entered: "dg_otp d \<noteq> []" by (auto simp: js_trim_def)
  have cred: "ir_current_password req = Some (dg_currentPassword d)" "ir_reauth_token req = None" "otp = dg_otp d"
    using req assms(2,3) entered by (simp_all add: import_request_def Let_def)
  have "Verify (ie_login env) (ie_now env) TokenTypeReauthProfileImport (Some (dg_currentPassword d)) None (dg_otp d) (is_account srv) = Inl (ErrMfa msg)"
    using assms(5,6) entered by (simp add: Verify_def verifyOnLoadedAccount_def MfaCheck_def)
  then have ans: "answer = Inl (api_error 401 msg)" "srv' = srv"
    using assms(4,7) cred by (simp_all add: importProfiles_def Import_def)
  then show ?thesis by (simp add: d2_def importDone_def Let_def dialog_toast_def d1 call_failed_id)
qed

definition full_server :: import_server where
  "full_server = sample_server\<lparr>is_max := 1\<rparr>"

lemma full_refused:
  "import_refusal sample_request full_server =
     Some (''import would exceed maximum profile limit: would exceed limit of 1 profiles; have 1, payload has 1, max allowed 1'')"
  by code_simp

theorem refused_import_spends_token_witness:
  "let r = importProfiles (import_env_failing None) sample_request '''' full_server;
       d1 = sample_dialog\<lparr>dg_importError := None, dg_isImporting := True, dg_result := None\<rparr>;
       d2 = importDone ''https://app'' (fst r) d1
   in dg_reauthStatus d2 = Verified \<and> beginPasskeyReauth d2 = d2 \<and>
      (\<forall>ids req2 otp2 d3. handleImport (d2\<lparr>dg_selectedIds := ids\<rparr>) = Some ((req2, otp2), d3) \<longrightarrow>
         importProfiles (import_env_failing None) req2 otp2 (snd r) =
           (Inl (api_error 400 ''invalid reauth token''), snd r))"
proof -
  let ?r = "importProfiles (import_env_failing None) sample_request '''' full_server"
  obtain acc where acc: "Verify (ie_login (import_env_failing None)) (ie_now (import_env_failing None)) TokenTypeReauthProfileImport
     None (Some ''t1'') '''' (is_account full_server) = Inr acc"
    using sample_accepted [of None] by (auto simp: sample_request_def full_server_def)
  have tok: "dg_method sample_dialog = Passkey" "dg_reauthToken sample_dialog = Some ''t1''"
    by (simp_all add: sample_dialog_def)
  have valid: "\<forall>r. ie_validation (import_env_failing None) r = None" by (simp add: import_env_failing_def)
  have quiet: "\<not> isReauthError (Some ''import would exceed maximum profile limit: would exceed limit of 1 profiles; have 1, payload has 1, max allowed 1'')"
    by code_simp
  have "?r = (fst ?r, snd ?r)" by simp
  from refused_import_spends_token [OF sample_request_sent tok valid acc full_refused quiet this, of "''https://app''"]
  show ?thesis unfolding Let_def by (elim conjE) (intro conjI allI impI, assumption+, blast)
qed

definition code_dialog :: import_dialog where
  "code_dialog = (init_dialog False
     (sample_auth\<lparr>au_store := setAccount (Some ((plain_account ''u'')\<lparr>ac_totp_enabled := Some True\<rparr>)) initial_store\<rparr>))
     \<lparr>dg_step := Confirm, dg_parsedPayload := Some sample_payload, dg_selectedIds := [''0''],
      dg_method := Password, dg_currentPassword := ''pw'', dg_otp := ''000000''\<rparr>"

theorem wrong_code_is_reported_witness:
  "let (req, otp) = import_request code_dialog;
       d1 = code_dialog\<lparr>dg_importError := None, dg_isImporting := True, dg_result := None\<rparr>;
       r = importProfiles (import_env_failing None) req otp sample_server;
       d2 = importDone ''https://app'' (fst r) d1
   in snd r = sample_server \<and> dg_step d2 = dg_step code_dialog \<and> dg_currentPassword d2 = ''pw'' \<and>
      au_isAuthenticated (dg_auth d2) = au_isAuthenticated (dg_auth code_dialog)"
proof -
  obtain req otp where req: "import_request code_dialog = (req, otp)" by fastforce
  let ?d1 = "code_dialog\<lparr>dg_importError := None, dg_isImporting := True, dg_result := None\<rparr>"
  have "\<not> isSubmitDisabled code_dialog" by code_simp
  then have sent: "handleImport code_dialog = Some ((req, otp), ?d1)"
    using req by (simp add: handleImport_def code_dialog_def)
  have by_pw: "dg_method code_dialog = Password" and code_shown: "account_otp code_dialog"
    by (code_simp, code_simp)
  have valid: "ie_validation (import_env_failing None) req = None" by (simp add: import_env_failing_def)
  have totp: "rv_totp (is_account sample_server)" by code_simp
  have wrong: "le_totp_error (ie_login (import_env_failing None)) (rv_email (is_account sample_server)) (dg_otp code_dialog) =
      Some ''invalid 2FA code''"
    by code_simp
  let ?r = "importProfiles (import_env_failing None) req otp sample_server"
  have "?r = (fst ?r, snd ?r)" by simp
  from wrong_code_is_reported [OF sent by_pw code_shown valid totp wrong this, of "''https://app''"]
  have unchanged: "snd ?r = sample_server" and d2: "importDone ''https://app'' (fst ?r) ?d1 =
      dialog_toast TError (importErrorMessage (Some 401) (Some ''invalid 2FA code''))
        (code_dialog\<lparr>dg_importError := None, dg_isImporting := False, dg_result := None\<rparr>)"
    by blast+
  have toast: "dg_step (dialog_toast l m x) = dg_step x" "dg_currentPassword (dialog_toast l m x) = dg_currentPassword x"
    "au_isAuthenticated (dg_auth (dialog_toast l m x)) = au_isAuthenticated (dg_auth x)" for l m x
    by (simp_all add: dialog_toast_def)
  have pw: "dg_currentPassword code_dialog = ''pw''" by code_simp
  show ?thesis unfolding Let_def req prod.case d2 toast using unchanged pw by simp
qed

end
