(* ===== verification/DataControl.thy ===== *)
theory DataControl
  imports DataCollection Store
begin

text \<open>
  The control that stages and saves the data-collection setting of a profile
  (app/src/components/data-collection/DataCollectionControl.tsx), over the model of DataCollection and
  the store.

  The control's state is a record; each handler is a function, cut at its awaits: what the closure of a
  handler remembers across an await (\<open>dc_reading\<close>, \<open>dc_committing\<close>) is part of the state. The profile
  of the props is the store's copy, which the control itself rewrites. Focus is the number of focus
  requests and the last source asked for; the markup is not modelled.
\<close>

subsection \<open>State\<close>

datatype Source = SrcStats | SrcLogs

datatype control_toast = SavedToast string | FailedToast string "string option"

record control =
  dc_profile :: ModelProfile
  dc_store :: AppState
  dc_staged :: DataCollectionState
  dc_autoChecked :: bool
  dc_saving :: bool
  dc_confirm :: "Transition option"
  dc_focus :: "nat \<times> Source"
  dc_stale :: bool
  dc_reading :: "(DataCollectionState \<times> DataCollectionState \<times> Transition \<times> ModelProfile) option"
  dc_committing :: "(Transition \<times> DataCollectionState \<times> Source) option"
  dc_toasts :: "control_toast list"
  dc_onSaved :: "(ModelProfile \<times> Transition) list"

text \<open>A staged state to start from; a field that is not given is the saved one.\<close>

record initial_pending =
  ip_stats :: "bool option"
  ip_logs :: "bool option"
  ip_statsRetention :: "StatsRetention option"
  ip_domains :: "bool option"
  ip_ips :: "bool option"
  ip_retention :: "LogsRetention option"

definition merge_pending :: "DataCollectionState \<Rightarrow> initial_pending option \<Rightarrow> DataCollectionState" where
  "merge_pending sv ip =
     (case ip of
        None \<Rightarrow> sv
      | Some i \<Rightarrow> \<lparr>stats = nullish (ip_stats i) (stats sv), logs = nullish (ip_logs i) (logs sv),
                   statsRetention = nullish (ip_statsRetention i) (statsRetention sv),
                   domains = nullish (ip_domains i) (domains sv), ips = nullish (ip_ips i) (ips sv),
                   retention = nullish (ip_retention i) (retention sv)\<rparr>)"

definition saved :: "control \<Rightarrow> DataCollectionState" where
  "saved d = fromProfile (Some (dc_profile d))"

definition offOnly :: "control \<Rightarrow> bool" where
  "offOnly d = gd_isRestricted (useSubscriptionGuard (dc_store d))"

definition pending :: "control \<Rightarrow> DataCollectionState" where
  "pending d =
     (if offOnly d then (saved d)\<lparr>stats := stats (saved d) \<and> stats (dc_staged d), logs := logs (saved d) \<and> logs (dc_staged d)\<rparr>
      else dc_staged d)"

definition init_control :: "ModelProfile \<Rightarrow> AppState \<Rightarrow> initial_pending option \<Rightarrow> control" where
  "init_control profile s ip =
     (let sv = fromProfile (Some profile) in
      \<lparr>dc_profile = profile, dc_store = s, dc_staged = merge_pending sv ip,
       dc_autoChecked = (\<not> stats sv \<and> \<not> logs sv \<and> truthy_bool (Option.bind ip ip_logs) \<and>
                         Option.bind ip ip_stats \<noteq> Some False),
       dc_saving = False, dc_confirm = None, dc_focus = (0, SrcStats), dc_stale = False, dc_reading = None,
       dc_committing = None, dc_toasts = [], dc_onSaved = []\<rparr>)"

definition control_transition :: "date_formats \<Rightarrow> time_parser \<Rightarrow> int \<Rightarrow> control \<Rightarrow> Transition option" where
  "control_transition f parse now d =
     transitionFor f (saved d) (pending d) (statsHeld parse (Some (dc_profile d)) now)"

definition sameState :: "DataCollectionState \<Rightarrow> DataCollectionState \<Rightarrow> bool" where
  "sameState a b =
     (stats a = stats b \<and> logs a = logs b \<and> statsRetention a = statsRetention b \<and> domains a = domains b \<and>
      ips a = ips b \<and> retention a = retention b)"

definition touchedSource :: "DataCollectionState \<Rightarrow> DataCollectionState \<Rightarrow> Source" where
  "touchedSource sv pd =
     (if stats sv \<noteq> stats pd \<or> statsRetention sv \<noteq> statsRetention pd then SrcStats
      else if logs sv \<noteq> logs pd \<or> logs pd then SrcLogs else SrcStats)"

definition badgeFor :: "bool \<Rightarrow> bool \<Rightarrow> bool \<Rightarrow> string option" where
  "badgeFor sv pd changed =
     (if \<not> changed then None
      else if sv \<noteq> pd then Some (if pd then ''Turning on'' else ''Turning off'')
      else if sv then Some ''On'' else None)"

subsection \<open>Handlers\<close>

definition focusSource :: "Source \<Rightarrow> control \<Rightarrow> control" where
  "focusSource src d = d\<lparr>dc_focus := (Suc (fst (dc_focus d)), src)\<rparr>"

text \<open>A new staged object: the note about another tab shows only while the staged one is the reset one.\<close>

definition setPending :: "(DataCollectionState \<Rightarrow> DataCollectionState) \<Rightarrow> control \<Rightarrow> control" where
  "setPending g d = d\<lparr>dc_staged := g (dc_staged d), dc_stale := False\<rparr>"

definition discard :: "control \<Rightarrow> control" where
  "discard d = (setPending (\<lambda>_. saved d) (focusSource (touchedSource (saved d) (pending d)) d))\<lparr>dc_autoChecked := False\<rparr>"

definition toggleStats :: "bool \<Rightarrow> control \<Rightarrow> control" where
  "toggleStats checked d = setPending (\<lambda>p. p\<lparr>stats := checked\<rparr>) (d\<lparr>dc_autoChecked := False\<rparr>)"

definition toggleLogs :: "bool \<Rightarrow> control \<Rightarrow> control" where
  "toggleLogs checked d =
     (if checked \<and> \<not> stats (saved d) \<and> \<not> logs (saved d) \<and> \<not> stats (pending d)
      then setPending (\<lambda>p. p\<lparr>stats := True, logs := True\<rparr>) (d\<lparr>dc_autoChecked := True\<rparr>)
      else if \<not> checked \<and> dc_autoChecked d
      then setPending (\<lambda>p. p\<lparr>stats := stats (saved d), logs := False\<rparr>) (d\<lparr>dc_autoChecked := False\<rparr>)
      else setPending (\<lambda>p. p\<lparr>logs := checked\<rparr>) d)"

definition writeProfile :: "ModelProfile \<Rightarrow> control \<Rightarrow> control" where
  "writeProfile updated d =
     (let s = dc_store d;
          s1 = (if app_activeProfile s = None \<or> map_option pf_profile_id (app_activeProfile s) = Some (pf_profile_id updated)
                then setActiveProfile (Some updated) s else s);
          s2 = setProfiles (map (\<lambda>p. if pf_profile_id p = pf_profile_id updated then updated else p) (app_profiles s)) s1
      in d\<lparr>dc_profile := (if pf_profile_id (dc_profile d) = pf_profile_id updated then updated else dc_profile d),
           dc_store := s2\<rparr>)"

lemma writeProfile_store: "dc_store (writeProfile updated d) = write_back updated (dc_store d)"
  by (simp add: writeProfile_def write_back_def Let_def)

text \<open>The body sent, and the state while it is on its way. The saved and pending state are the closure's.\<close>

definition commit :: "DataCollectionState \<Rightarrow> DataCollectionState \<Rightarrow> Transition \<Rightarrow> control \<Rightarrow> ModelProfileUpdate list \<times> control" where
  "commit sv pd t d = (buildUpdates sv pd, d\<lparr>dc_saving := True, dc_committing := Some (t, sv, touchedSource sv pd)\<rparr>)"

definition SAVE_ERROR_TEXT :: string where
  "SAVE_ERROR_TEXT = ''Couldn't save the data collection setting. Showing the current setting.''"

text \<open>
  The answer to it: the updated profile, or a failure with its detail and, when it could be read again,
  the profile the server holds.
\<close>

definition commit_done :: "(string option \<times> ModelProfile option) + ModelProfile \<Rightarrow> control \<Rightarrow> control" where
  "commit_done answer d =
     (case dc_committing d of
        None \<Rightarrow> d
      | Some (t, sv, src) \<Rightarrow>
          (case answer of
             Inr updated \<Rightarrow>
               let d1 = setPending (\<lambda>_. fromProfile (Some updated)) (writeProfile updated d)
               in (focusSource src d1)\<lparr>dc_autoChecked := False, dc_saving := False, dc_confirm := None, dc_committing := None,
                     dc_toasts := dc_toasts d @ [SavedToast (t_toast t)], dc_onSaved := dc_onSaved d @ [(updated, t)]\<rparr>
           | Inl (detail, again) \<Rightarrow>
               let d1 = (case again of
                           Some fresh \<Rightarrow> setPending (\<lambda>_. fromProfile (Some fresh)) (writeProfile fresh d)
                         | None \<Rightarrow> setPending (\<lambda>_. sv) d)
               in (focusSource src d1)\<lparr>dc_autoChecked := False, dc_saving := False, dc_confirm := None, dc_committing := None,
                     dc_toasts := dc_toasts d @ [FailedToast SAVE_ERROR_TEXT (if truthy_str detail then detail else None)]\<rparr>))"

text \<open>Save: the profile is read again first.\<close>

definition onSave :: "date_formats \<Rightarrow> time_parser \<Rightarrow> int \<Rightarrow> control \<Rightarrow> control" where
  "onSave f parse now d =
     (case control_transition f parse now d of
        None \<Rightarrow> d
      | Some t \<Rightarrow>
          if dc_saving d then d
          else d\<lparr>dc_saving := True, dc_reading := Some (saved d, pending d, t, dc_profile d)\<rparr>)"

definition read_answer ::
  "date_formats \<Rightarrow> time_parser \<Rightarrow> int \<Rightarrow> ModelProfile option \<Rightarrow> control \<Rightarrow> ModelProfileUpdate list option \<times> control" where
  "read_answer f parse now fresh d =
     (case dc_reading d of
        None \<Rightarrow> (None, d)
      | Some (sv, pd, t0, profile) \<Rightarrow>
          let changed = (case fresh of Some fr \<Rightarrow> \<not> sameState (fromProfile (Some fr)) sv | None \<Rightarrow> False)
          in if changed
             then let d1 = setPending (\<lambda>_. fromProfile fresh) (writeProfile (the fresh) d)
                  in (None, (focusSource (touchedSource sv pd) d1)
                              \<lparr>dc_autoChecked := False, dc_saving := False, dc_stale := True, dc_reading := None\<rparr>)
             else let d1 = d\<lparr>dc_saving := False, dc_reading := None\<rparr>;
                      t = nullish (transitionFor f sv pd (statsHeld parse (Some (nullish fresh profile)) now)) t0
                  in if t_dialog t \<noteq> None then (None, d1\<lparr>dc_confirm := Some t\<rparr>)
                     else (let (req, d2) = commit sv pd t d1 in (Some req, d2)))"

definition press_confirm :: "control \<Rightarrow> ModelProfileUpdate list option \<times> control" where
  "press_confirm d =
     (case dc_confirm d of
        None \<Rightarrow> (None, d)
      | Some t \<Rightarrow> if dc_saving d then (None, d)
                  else let (req, d1) = commit (saved d) (pending d) t d in (Some req, d1))"

definition cancelConfirm :: "control \<Rightarrow> control" where
  "cancelConfirm d =
     (if dc_saving d then d
      else (setPending (\<lambda>_. saved d) (focusSource (touchedSource (saved d) (pending d)) (d\<lparr>dc_confirm := None\<rparr>)))
             \<lparr>dc_autoChecked := False\<rparr>)"

text \<open>What the control shows: the note about another tab, and the hints beside the options.\<close>

definition stale_note :: "control \<Rightarrow> bool" where
  "stale_note d = (dc_stale d \<and> \<not> offOnly d)"

definition domainHint :: "control \<Rightarrow> bool" where
  "domainHint d = (logs (saved d) \<and> domains (saved d) \<and> \<not> domains (pending d))"

definition ipHint :: "control \<Rightarrow> bool" where
  "ipHint d = (logs (saved d) \<and> ips (saved d) \<and> \<not> ips (pending d))"

definition lowerHint :: "Transition option \<Rightarrow> bool" where
  "lowerHint transition =
     (case transition of None \<Rightarrow> False | Some t \<Rightarrow> t_retention t = Some Lower \<and> \<not> t_nothingOlder t)"

definition logsLowerHint :: "Transition option \<Rightarrow> bool" where
  "logsLowerHint transition = (case transition of None \<Rightarrow> False | Some t \<Rightarrow> t_logsRetention t = Some Lower)"

subsection \<open>Events\<close>

text \<open>
  An option is changed only where it is shown and enabled; the dialog of a confirmation is modal. The
  profile of the props changes when the store's copy is refreshed.
\<close>

datatype control_event =
    ToggleStats bool
  | ToggleLogs bool
  | PickStatsRetention StatsRetention
  | PickDomains bool
  | PickIps bool
  | PickRetention LogsRetention
  | PressDiscard
  | PressSave int
  | ReadAnswer int "ModelProfile option"
  | PressConfirm
  | PressCancel
  | CommitAnswer "(string option \<times> ModelProfile option) + ModelProfile"
  | ProfileRefreshed ModelProfile
  | StatusArrived "string option"

definition open_for :: "control \<Rightarrow> bool \<Rightarrow> bool" where
  "open_for d on = (\<not> dc_saving d \<and> dc_confirm d = None \<and> on)"

fun control_step :: "date_formats \<Rightarrow> time_parser \<Rightarrow> control \<Rightarrow> control_event \<Rightarrow> control" where
  "control_step f parse d (ToggleStats b) =
     (if open_for d (\<not> (offOnly d \<and> \<not> stats (saved d))) then toggleStats b d else d)"
| "control_step f parse d (ToggleLogs b) =
     (if open_for d (\<not> (offOnly d \<and> \<not> logs (saved d))) then toggleLogs b d else d)"
| "control_step f parse d (PickStatsRetention r) =
     (if open_for d (\<not> offOnly d \<and> stats (pending d)) then setPending (\<lambda>p. p\<lparr>statsRetention := r\<rparr>) d else d)"
| "control_step f parse d (PickDomains b) =
     (if open_for d (\<not> offOnly d \<and> logs (pending d)) then setPending (\<lambda>p. p\<lparr>domains := b\<rparr>) d else d)"
| "control_step f parse d (PickIps b) =
     (if open_for d (\<not> offOnly d \<and> logs (pending d)) then setPending (\<lambda>p. p\<lparr>ips := b\<rparr>) d else d)"
| "control_step f parse d (PickRetention r) =
     (if open_for d (\<not> offOnly d \<and> logs (pending d)) then setPending (\<lambda>p. p\<lparr>retention := r\<rparr>) d else d)"
| "control_step f parse d PressDiscard =
     (if open_for d (control_transition f parse 0 d \<noteq> None) then discard d else d)"
| "control_step f parse d (PressSave now) = (if dc_confirm d = None then onSave f parse now d else d)"
| "control_step f parse d (ReadAnswer now fresh) = snd (read_answer f parse now fresh d)"
| "control_step f parse d PressConfirm = snd (press_confirm d)"
| "control_step f parse d PressCancel = (if dc_confirm d \<noteq> None then cancelConfirm d else d)"
| "control_step f parse d (CommitAnswer r) = commit_done r d"
| "control_step f parse d (ProfileRefreshed p) =
     (if pf_profile_id p = pf_profile_id (dc_profile d) then d\<lparr>dc_profile := p\<rparr> else d)"
| "control_step f parse d (StatusArrived status) = d\<lparr>dc_store := setSubscriptionStatus status (dc_store d)\<rparr>"

definition control_ok :: "control \<Rightarrow> bool" where
  "control_ok d \<longleftrightarrow>
     (dc_saving d \<longleftrightarrow> dc_reading d \<noteq> None \<or> dc_committing d \<noteq> None) \<and>
     (dc_reading d \<noteq> None \<longrightarrow> dc_committing d = None \<and> dc_confirm d = None) \<and>
     (case dc_confirm d of None \<Rightarrow> True | Some t \<Rightarrow> t_dialog t \<noteq> None) \<and>
     (\<forall>t sv src. dc_committing d = Some (t, sv, src) \<and> t_dialog t \<noteq> None \<longrightarrow> dc_confirm d = Some t)"

lemmas control_defs = focusSource_def setPending_def writeProfile_def commit_def Let_def

lemma sameState_eq: "sameState a b \<longleftrightarrow> a = b"
  by (cases a; cases b) (auto simp: sameState_def)

lemma transition_held: "transitionFor f sv pd h = None \<longleftrightarrow> transitionFor f sv pd h' = None"
  by (simp add: transitionFor_None)

lemma transition_self: "transitionFor f sv sv h = None"
  by (simp add: transitionFor_None)

lemma onSave_ok: "control_ok d \<Longrightarrow> dc_confirm d = None \<Longrightarrow> control_ok (onSave f parse now d)"
  by (auto simp: onSave_def control_ok_def split: option.splits)

lemma read_answer_ok:
  assumes "control_ok d"
  shows "control_ok (snd (read_answer f parse now fresh d))"
proof (cases "dc_reading d")
  case (Some r)
  obtain sv pd t0 profile where r: "r = (sv, pd, t0, profile)" by (cases r)
  let ?t = "nullish (transitionFor f sv pd (statsHeld parse (Some (nullish fresh profile)) now)) t0"
  show ?thesis
    using assms Some r
    by (cases "\<exists>fr. fresh = Some fr \<and> \<not> sameState (fromProfile (Some fr)) sv"; cases fresh; cases "t_dialog ?t")
      (auto simp: read_answer_def control_defs control_ok_def)
qed (use assms in \<open>simp add: read_answer_def\<close>)

lemma commit_done_ok:
  assumes "control_ok d"
  shows "control_ok (commit_done answer d)"
proof (cases "dc_committing d")
  case (Some c)
  with assms have "dc_reading d = None" by (cases "dc_reading d") (auto simp: control_ok_def)
  with assms Some show ?thesis
    by (cases c; cases answer)
      (auto simp: commit_done_def control_defs control_ok_def split: prod.split option.split)
qed (use assms in \<open>simp add: commit_done_def\<close>)

lemma press_confirm_ok:
  assumes "control_ok d"
  shows "control_ok (snd (press_confirm d))"
  using assms by (auto simp: press_confirm_def commit_def control_ok_def split: option.split)

lemma control_step_ok: "control_ok d \<Longrightarrow> control_ok (control_step f parse d e)"
proof (cases e)
  case (PressSave now)
  then show "control_ok d \<Longrightarrow> ?thesis" using onSave_ok [of d f parse now] by simp
next
  case (ReadAnswer now fresh)
  then show "control_ok d \<Longrightarrow> ?thesis" using read_answer_ok by simp
next
  case PressConfirm
  then show "control_ok d \<Longrightarrow> ?thesis" using press_confirm_ok by simp
next
  case (CommitAnswer r)
  then show "control_ok d \<Longrightarrow> ?thesis" using commit_done_ok by simp
next
  case PressCancel
  then show "control_ok d \<Longrightarrow> ?thesis"
    by (auto simp: cancelConfirm_def control_defs control_ok_def split: option.splits)
qed (auto simp: toggleStats_def toggleLogs_def discard_def control_defs control_ok_def)

interpretation data_control: machine "control_step f parse" control_ok
  by unfold_locales (rule control_step_ok)

lemma init_control_ok: "control_ok (init_control profile s ip)"
  by (simp add: init_control_def control_ok_def Let_def)

text \<open>
  Fact (one_save_at_a_time). Whatever the user does and whatever arrives, the control never has
  a read and a write under way together, is marked busy exactly while one of them is, and a
  confirmation it shows is one that has a text; a write that needs a confirmation is only under way
  after that confirmation was shown.
\<close>

theorem one_save_at_a_time:
  fixes profile :: ModelProfile and s :: AppState and ip :: "initial_pending option" and es :: "control_event list"
    and f :: date_formats and parse :: time_parser
  defines "d \<equiv> foldl (control_step f parse) (init_control profile s ip) es"
  shows "(dc_saving d \<longleftrightarrow> dc_reading d \<noteq> None \<or> dc_committing d \<noteq> None) \<and>
         (dc_reading d = None \<or> dc_committing d = None) \<and>
         (\<forall>t. dc_confirm d = Some t \<longrightarrow> t_dialog t \<noteq> None) \<and>
         (\<forall>t sv src. dc_committing d = Some (t, sv, src) \<and> t_dialog t \<noteq> None \<longrightarrow> dc_confirm d = Some t)"
proof -
  have "control_ok d" unfolding d_def by (rule data_control.run_inv [OF init_control_ok])
  then show ?thesis by (cases "dc_reading d"; cases "dc_confirm d") (auto simp: control_ok_def)
qed

subsection \<open>Saving\<close>

text \<open>The user presses Save, and confirms when asked.\<close>

definition save_through ::
  "date_formats \<Rightarrow> time_parser \<Rightarrow> int \<Rightarrow> ModelProfile option \<Rightarrow> control \<Rightarrow> ModelProfileUpdate list option \<times> control" where
  "save_through f parse now fresh d =
     (let r = read_answer f parse now fresh (onSave f parse now d)
      in if fst r = None then press_confirm (snd r) else r)"

definition asked :: "date_formats \<Rightarrow> time_parser \<Rightarrow> int \<Rightarrow> ModelProfile option \<Rightarrow> control \<Rightarrow> bool" where
  "asked f parse now fresh d = (dc_confirm (snd (read_answer f parse now fresh (onSave f parse now d))) \<noteq> None)"

lemma save_flow:
  assumes "control_transition f parse now d = Some t0" and "\<not> dc_saving d" "dc_confirm d = None"
    and "case fresh of None \<Rightarrow> True | Some fr \<Rightarrow> fromProfile (Some fr) = saved d"
  defines "held \<equiv> statsHeld parse (Some (nullish fresh (dc_profile d))) now"
  obtains t where "transitionFor f (saved d) (pending d) held = Some t"
    and "asked f parse now fresh d \<longleftrightarrow> t_dialog t \<noteq> None"
    and "fst (save_through f parse now fresh d) = Some (buildUpdates (saved d) (pending d))"
    and "dc_committing (snd (save_through f parse now fresh d)) = Some (t, saved d, touchedSource (saved d) (pending d))"
    and "dc_profile (snd (save_through f parse now fresh d)) = dc_profile d"
    and "dc_store (snd (save_through f parse now fresh d)) = dc_store d"
    and "dc_stale (snd (save_through f parse now fresh d)) = dc_stale d"
proof -
  from assms(1) have "transitionFor f (saved d) (pending d) held \<noteq> None"
    unfolding control_transition_def using transition_held by (metis option.distinct(1))
  then obtain t where t: "transitionFor f (saved d) (pending d) held = Some t" by blast
  let ?d0 = "d\<lparr>dc_saving := True, dc_reading := Some (saved d, pending d, t0, dc_profile d)\<rparr>"
  let ?d1 = "?d0\<lparr>dc_saving := False, dc_reading := None\<rparr>"
  have pressed: "onSave f parse now d = ?d0" using assms(1,2) by (simp add: onSave_def)
  have quiet: "read_answer f parse now fresh ?d0 =
      (if t_dialog t \<noteq> None then (None, ?d1\<lparr>dc_confirm := Some t\<rparr>)
       else (Some (buildUpdates (saved d) (pending d)), snd (commit (saved d) (pending d) t ?d1)))"
    using assms(4) t by (cases fresh) (simp_all add: read_answer_def sameState_eq commit_def held_def)
  have same: "saved (?d1\<lparr>dc_confirm := Some t\<rparr>) = saved d" "pending (?d1\<lparr>dc_confirm := Some t\<rparr>) = pending d"
    by (simp_all add: saved_def pending_def offOnly_def)
  show thesis
  proof (cases "t_dialog t")
    case None
    with quiet pressed assms(3) show thesis
      by (intro that [OF t]) (simp_all add: save_through_def asked_def commit_def)
  next
    case (Some dialog)
    with quiet pressed have "save_through f parse now fresh d = press_confirm (?d1\<lparr>dc_confirm := Some t\<rparr>)"
      by (simp add: save_through_def)
    with Some quiet pressed same show thesis
      by (intro that [OF t]) (simp_all add: asked_def press_confirm_def commit_def)
  qed
qed

lemma written_state:
  assumes "pf_profile_id updated = pf_profile_id (dc_profile d)" and "dc_committing d = Some (t, sv, src)"
  defines "d' \<equiv> commit_done (Inr updated) d"
  shows "saved d' = fromProfile (Some updated)" "pending d' = saved d'" "control_transition f parse now d' = None"
    "\<not> dc_saving d'" "dc_confirm d' = None" "dc_toasts d' = dc_toasts d @ [SavedToast (t_toast t)]"
    "\<forall>p \<in> set (app_profiles (dc_store d')). pf_profile_id p = pf_profile_id updated \<longrightarrow> p = updated"
    "app_profiles (dc_store d') = map (\<lambda>p. if pf_profile_id p = pf_profile_id updated then updated else p) (app_profiles (dc_store d))"
    "app_activeProfile (dc_store d') =
       (if app_activeProfile (dc_store d) = None \<or> map_option pf_profile_id (app_activeProfile (dc_store d)) = Some (pf_profile_id updated)
        then Some updated else app_activeProfile (dc_store d))"
proof -
  show sv: "saved d' = fromProfile (Some updated)"
    using assms(1,2) by (simp add: d'_def commit_done_def control_defs saved_def)
  have "dc_staged d' = fromProfile (Some updated)"
    using assms(2) by (simp add: d'_def commit_done_def control_defs)
  with sv show pd: "pending d' = saved d'"
    by (cases "saved d'") (simp add: pending_def)
  show "control_transition f parse now d' = None" by (simp add: control_transition_def pd transition_self)
  show "\<not> dc_saving d'" "dc_confirm d' = None" "dc_toasts d' = dc_toasts d @ [SavedToast (t_toast t)]"
    using assms(2) by (simp_all add: d'_def commit_done_def control_defs)
  show "\<forall>p \<in> set (app_profiles (dc_store d')). pf_profile_id p = pf_profile_id updated \<longrightarrow> p = updated"
    using assms(2) by (auto simp: d'_def commit_done_def control_defs setProfiles_def)
  show "app_profiles (dc_store d') = map (\<lambda>p. if pf_profile_id p = pf_profile_id updated then updated else p) (app_profiles (dc_store d))"
    "app_activeProfile (dc_store d') =
       (if app_activeProfile (dc_store d) = None \<or> map_option pf_profile_id (app_activeProfile (dc_store d)) = Some (pf_profile_id updated)
        then Some updated else app_activeProfile (dc_store d))"
    using assms(2) by (cases "app_activeProfile (dc_store d)";
      simp add: d'_def commit_done_def control_defs setProfiles_def setActiveProfile_def Let_def)+
qed


lemma save_effects:
  assumes "cast_ok c" and "transitionFor f (shown s) pd held = Some t"
  shows "UpdateProfile c s (buildUpdates (shown s) pd) = Inr (saved_settings s pd, applySettingsTransitions s (saved_settings s pd))"
    and "t_dialog t \<noteq> None \<longleftrightarrow>
           deletes_logs s (applySettingsTransitions s (saved_settings s pd)) \<or>
           (deletes_counts s (applySettingsTransitions s (saved_settings s pd)) \<and> \<not> (t_nothingOlder t \<and> stats pd))"
proof -
  have "buildUpdates (shown s) pd \<noteq> []"
    using assms(2) transitionFor_None [of f "shown s" pd held] by (auto simp: buildUpdates_Nil)
  then show "UpdateProfile c s (buildUpdates (shown s) pd) = Inr (saved_settings s pd, applySettingsTransitions s (saved_settings s pd))"
    using UpdateProfile_save [OF assms(1), of s pd] by simp
  have "nothing_lost f (shown s) pd held \<Longrightarrow> stats (shown s) \<and> stats pd \<and> retentionChange (shown s) pd = Some Lower"
    by (simp add: nothing_lost_def retentionChange_simps)
  then show "t_dialog t \<noteq> None \<longleftrightarrow>
           deletes_logs s (applySettingsTransitions s (saved_settings s pd)) \<or>
           (deletes_counts s (applySettingsTransitions s (saved_settings s pd)) \<and> \<not> (t_nothingOlder t \<and> stats pd))"
    using transitionFor_asks [OF assms(2)] effects_of_save [of s pd]
    by (auto simp: asks_def retentionChange_simps)
qed

text \<open>
  Property C3 (data_saved_end_to_end). With an up-to-date control, Save and the confirmation, asked for
  when and only when the save deletes something stored, send one request; the API accepts it, and once
  its answer is in, the control shows what was staged as saved, on every card that is checked, with
  nothing left to save. In the store the answered profile replaces its copy in the list of profiles, and it
  is the active profile when it was, or when there was none; every other profile stays, and so does another
  active one.
\<close>

theorem data_saved_end_to_end:
  fixes d :: control and s :: api_settings and fresh :: ModelProfile and f :: date_formats and parse :: time_parser and now :: int
  assumes "cast_ok c" and "wire_of s (dc_profile d)" and "wire_of s fresh"
    and "control_transition f parse now d \<noteq> None" and "\<not> dc_saving d" "dc_confirm d = None"
  defines "r \<equiv> save_through f parse now (Some fresh) d"
  shows "\<exists>body t s' es. fst r = Some body \<and> UpdateProfile c s body = Inr (s', es) \<and>
           transitionFor f (saved d) (pending d) (statsHeld parse (Some fresh) now) = Some t \<and>
           (asked f parse now (Some fresh) d \<longleftrightarrow>
              deletes_logs s es \<or> (deletes_counts s es \<and> \<not> (t_nothingOlder t \<and> stats (pending d)))) \<and>
           (\<forall>updated. wire_of s' updated \<and> pf_profile_id updated = pf_profile_id (dc_profile d) \<longrightarrow>
              (let d' = commit_done (Inr updated) (snd r) in
                 saved d' = settled (saved d) (pending d) \<and> pending d' = saved d' \<and>
                 control_transition f parse later d' = None \<and> \<not> dc_saving d' \<and> dc_confirm d' = None \<and>
                 (\<forall>p \<in> set (app_profiles (dc_store d')). pf_profile_id p = pf_profile_id updated \<longrightarrow> p = updated) \<and>
                 app_profiles (dc_store d') =
                   map (\<lambda>p. if pf_profile_id p = pf_profile_id updated then updated else p) (app_profiles (dc_store d)) \<and>
                 app_activeProfile (dc_store d') =
                   (if app_activeProfile (dc_store d) = None \<or>
                       map_option pf_profile_id (app_activeProfile (dc_store d)) = Some (pf_profile_id updated)
                    then Some updated else app_activeProfile (dc_store d))))"
proof -
  from assms(4) obtain t0 where t0: "control_transition f parse now d = Some t0" by blast
  have sv: "saved d = shown s" using assms(2) by (simp add: saved_def fromProfile_wire)
  then have "case Some fresh of None \<Rightarrow> True | Some fr \<Rightarrow> fromProfile (Some fr) = saved d"
    using assms(3) by (simp add: fromProfile_wire)
  then obtain t where
    t: "transitionFor f (saved d) (pending d) (statsHeld parse (Some (nullish (Some fresh) (dc_profile d))) now) = Some t"
    and ask: "asked f parse now (Some fresh) d \<longleftrightarrow> t_dialog t \<noteq> None"
    and body: "fst (save_through f parse now (Some fresh) d) = Some (buildUpdates (saved d) (pending d))"
    and comm: "dc_committing (snd (save_through f parse now (Some fresh) d)) = Some (t, saved d, touchedSource (saved d) (pending d))"
    and prof: "dc_profile (snd (save_through f parse now (Some fresh) d)) = dc_profile d"
    and store: "dc_store (snd (save_through f parse now (Some fresh) d)) = dc_store d"
    by (rule save_flow [OF t0 assms(5,6)])
  note comm = comm [folded r_def] and prof = prof [folded r_def] and store = store [folded r_def] and body = body [folded r_def]
  let ?s' = "saved_settings s (pending d)" and ?es = "applySettingsTransitions s (saved_settings s (pending d))"
  from t sv have t: "transitionFor f (saved d) (pending d) (statsHeld parse (Some fresh) now) = Some t"
    and t': "transitionFor f (shown s) (pending d) (statsHeld parse (Some fresh) now) = Some t" by simp_all
  note eff = save_effects [OF assms(1) t']
  have "let d' = commit_done (Inr updated) (snd r) in
          saved d' = settled (saved d) (pending d) \<and> pending d' = saved d' \<and>
          control_transition f parse later d' = None \<and> \<not> dc_saving d' \<and> dc_confirm d' = None \<and>
          (\<forall>p \<in> set (app_profiles (dc_store d')). pf_profile_id p = pf_profile_id updated \<longrightarrow> p = updated) \<and>
          app_profiles (dc_store d') =
            map (\<lambda>p. if pf_profile_id p = pf_profile_id updated then updated else p) (app_profiles (dc_store d)) \<and>
          app_activeProfile (dc_store d') =
            (if app_activeProfile (dc_store d) = None \<or>
                map_option pf_profile_id (app_activeProfile (dc_store d)) = Some (pf_profile_id updated)
             then Some updated else app_activeProfile (dc_store d))"
    if up: "wire_of ?s' updated" "pf_profile_id updated = pf_profile_id (dc_profile d)" for updated
  proof -
    have "fromProfile (Some updated) = settled (saved d) (pending d)"
      by (simp add: fromProfile_wire [OF up(1)] shown_saved sv)
    note state = this
    from up(2) prof have "pf_profile_id updated = pf_profile_id (dc_profile (snd r))" by simp
    note w = written_state [OF this comm]
    show ?thesis unfolding Let_def store [symmetric]
      by (intro conjI w(2-5) w(7-9)) (rule trans [OF w(1) state])
  qed
  note written = this
  have sent: "UpdateProfile c s (buildUpdates (saved d) (pending d)) = Inr (?s', ?es)" using eff(1) sv by simp
  have asks: "asked f parse now (Some fresh) d \<longleftrightarrow>
      deletes_logs s ?es \<or> (deletes_counts s ?es \<and> \<not> (t_nothingOlder t \<and> stats (pending d)))"
    using ask eff(2) by simp
  show ?thesis
    by (intro exI conjI allI impI, rule body, rule sent, rule t, rule asks, elim conjE, rule written)
qed

text \<open>
  Fact (other_change_is_kept). When the setting was changed elsewhere since the control read it,
  Save sends nothing: the control shows the stored setting, with nothing staged, free for a new choice;
  whatever was staged is dropped. The note that says so shows, except on a restricted account.
\<close>

theorem other_change_is_kept:
  fixes d :: control and fresh :: ModelProfile and f :: date_formats and parse :: time_parser and now :: int
  assumes "control_transition f parse now d \<noteq> None" and "\<not> dc_saving d"
    and "pf_profile_id fresh = pf_profile_id (dc_profile d)" and "fromProfile (Some fresh) \<noteq> saved d"
  defines "r \<equiv> read_answer f parse now (Some fresh) (onSave f parse now d)"
  shows "fst r = None \<and> saved (snd r) = fromProfile (Some fresh) \<and> pending (snd r) = saved (snd r) \<and>
         control_transition f parse later (snd r) = None \<and> \<not> dc_saving (snd r) \<and>
         dc_confirm (snd r) = dc_confirm d \<and> (stale_note (snd r) \<longleftrightarrow> \<not> offOnly (snd r))"
proof -
  from assms(1) obtain t where t: "control_transition f parse now d = Some t" by blast
  let ?d0 = "d\<lparr>dc_saving := True, dc_reading := Some (saved d, pending d, t, dc_profile d)\<rparr>"
  have "onSave f parse now d = ?d0" using t assms(2) by (simp add: onSave_def)
  then have r: "r = (None, (focusSource (touchedSource (saved d) (pending d))
        (setPending (\<lambda>_. fromProfile (Some fresh)) (writeProfile fresh ?d0)))
        \<lparr>dc_autoChecked := False, dc_saving := False, dc_stale := True, dc_reading := None\<rparr>)"
    using assms(4) by (simp add: r_def read_answer_def sameState_eq Let_def)
  have sv: "saved (snd r) = fromProfile (Some fresh)" using assms(3) by (simp add: r control_defs saved_def)
  have "dc_staged (snd r) = fromProfile (Some fresh)" by (simp add: r control_defs)
  with sv have pd: "pending (snd r) = saved (snd r)" by (cases "saved (snd r)") (simp add: pending_def)
  have "fst r = None" "\<not> dc_saving (snd r)" "dc_confirm (snd r) = dc_confirm d" "dc_stale (snd r)"
    by (simp_all add: r control_defs)
  with sv pd show ?thesis by (simp add: control_transition_def transition_self stale_note_def)
qed

text \<open>
  Fact (restricted_save_accepted). On a restricted account, whatever was staged before the
  restriction arrived, what the control would send only turns cards off, and the API's test for what
  such an account may send accepts it.
\<close>

theorem restricted_save_accepted:
  assumes "cast_ok c" and "offOnly d" and "control_transition f parse now d \<noteq> None"
  shows "isTurnOffOnly c (buildUpdates (saved d) (pending d)) \<and>
         (stats (pending d) \<longrightarrow> stats (saved d)) \<and> (logs (pending d) \<longrightarrow> logs (saved d))"
proof -
  have "buildUpdates (saved d) (pending d) \<noteq> []"
    using assms(3) by (simp add: control_transition_def transitionFor_None buildUpdates_Nil)
  with assms(1,2) show ?thesis
    by (auto simp: pending_def buildUpdates_def isTurnOffOnly_def turnOffPaths_def cast_ok_def)
qed

text \<open>
  Fact (refresh_stages_reversal). A refresh of the store that brings a setting changed elsewhere
  turns the control's old state into a staged change: Save is offered for it, the check against other
  tabs passes, since it compares with the refreshed state, and the request puts the old setting back.
\<close>

theorem refresh_stages_reversal:
  fixes d :: control and p fresh :: ModelProfile and s :: api_settings and f :: date_formats and parse :: time_parser and now :: int
  assumes "cast_ok c" and "dc_staged d = saved d" and "\<not> offOnly d" and "\<not> dc_saving d" "dc_confirm d = None"
    and "pf_profile_id p = pf_profile_id (dc_profile d)" and "wire_of s p" and "wire_of s fresh"
    and "buildUpdates (fromProfile (Some p)) (saved d) \<noteq> []"
  defines "d1 \<equiv> control_step f parse d (ProfileRefreshed p)"
  shows "control_transition f parse now d1 \<noteq> None \<and> stale_note d1 = stale_note d \<and>
         (\<exists>s' es. fst (save_through f parse now (Some fresh) d1) = Some (buildUpdates (shown s) (saved d)) \<and>
            UpdateProfile c s (buildUpdates (shown s) (saved d)) = Inr (s', es) \<and>
            shown s' = settled (shown s) (saved d))"
proof -
  have d1: "d1 = d\<lparr>dc_profile := p\<rparr>" using assms(6) by (simp add: d1_def)
  have sv: "saved d1 = shown s" using assms(7) by (simp add: d1 saved_def fromProfile_wire)
  have off: "\<not> offOnly d1" using assms(3) by (simp add: d1 offOnly_def)
  then have pd: "pending d1 = saved d" using assms(2) by (simp add: pending_def d1)
  have "control_transition f parse now d1 \<noteq> None"
    using assms(9) by (simp add: control_transition_def transitionFor_None buildUpdates_Nil sv pd fromProfile_wire [OF assms(7)])
  then obtain t0 where t0: "control_transition f parse now d1 = Some t0" by blast
  have idle: "\<not> dc_saving d1" "dc_confirm d1 = None" using assms(4,5) by (simp_all add: d1)
  have "case Some fresh of None \<Rightarrow> True | Some fr \<Rightarrow> fromProfile (Some fr) = saved d1"
    by (simp add: sv fromProfile_wire [OF assms(8)])
  from save_flow [OF t0 idle this] have "fst (save_through f parse now (Some fresh) d1) = Some (buildUpdates (shown s) (saved d))"
    by (metis sv pd)
  with t0 show ?thesis
    using UpdateProfile_save [OF assms(1), of s "saved d"]
    by (simp add: shown_saved stale_note_def d1 offOnly_def)
qed


subsection \<open>Examples\<close>

definition lowering :: control where
  "lowering = (init_control both_on_profile initial_store None)\<lparr>dc_staged := lowered\<rparr>"

lemma both_on_saved: "fromProfile (Some both_on_profile) = shown both_on"
  by (rule fromProfile_wire [OF both_on_wire])

lemma lowering_simps [simp]:
  "saved lowering = shown both_on" "pending lowering = lowered" "dc_profile lowering = both_on_profile"
  "\<not> dc_saving lowering" "dc_confirm lowering = None" "\<not> offOnly lowering"
  "dc_staged lowering = lowered"
  by (simp_all add: lowering_def saved_def pending_def offOnly_def init_control_def Let_def both_on_saved
      useSubscriptionGuard_def initial_store_def)

lemma lowering_offered: "control_transition f parse now lowering \<noteq> None"
  by (simp add: control_transition_def transitionFor_None both_on_shown lowered_def)

text \<open>The same profile after its statistics were turned off elsewhere.\<close>

definition uncounted_profile :: ModelProfile where
  "uncounted_profile = both_on_profile\<lparr>pf_settings := map_option (\<lambda>s. s\<lparr>ps_statistics := None\<rparr>) (pf_settings both_on_profile)\<rparr>"

lemma uncounted_simps [simp]:
  "pf_profile_id uncounted_profile = pf_profile_id both_on_profile" "\<not> stats (fromProfile (Some uncounted_profile))"
  by (simp_all add: uncounted_profile_def fromProfile_def profile_statistics_def both_on_profile_def Let_def)

lemma both_on_collects: "stats (shown both_on)" "logs (shown both_on)"
  by (simp_all add: both_on_shown)

theorem one_save_at_a_time_witness:
  "let d = foldl (control_step plain_formats (\<lambda>_. None)) (init_control both_on_profile initial_store None)
             [ToggleLogs False, PressSave 0, ToggleStats False, ReadAnswer 1 None, PressConfirm, PressSave 2]
   in dc_reading d = None \<or> dc_committing d = None"
  using one_save_at_a_time [of plain_formats "\<lambda>_. None" both_on_profile initial_store None
      "[ToggleLogs False, PressSave 0, ToggleStats False, ReadAnswer 1 None, PressConfirm, PressSave 2]"]
  unfolding Let_def by (elim conjE)

theorem data_saved_end_to_end_witness:
  "\<exists>body s' es. fst (save_through plain_formats (\<lambda>_. None) 0 (Some both_on_profile) lowering) = Some body \<and>
     UpdateProfile plain_cast both_on body = Inr (s', es)"
proof -
  have "wire_of both_on (dc_profile lowering)" by (simp add: both_on_wire)
  from data_saved_end_to_end [OF plain_cast_ok this both_on_wire lowering_offered [of plain_formats "\<lambda>_. None" 0]
      lowering_simps(4,5)]
  show ?thesis by blast
qed

theorem other_change_is_kept_witness:
  "fst (read_answer plain_formats (\<lambda>_. None) 0 (Some uncounted_profile) (onSave plain_formats (\<lambda>_. None) 0 lowering)) = None"
proof -
  have "pf_profile_id uncounted_profile = pf_profile_id (dc_profile lowering)" by simp
  moreover have "fromProfile (Some uncounted_profile) \<noteq> saved lowering"
    using both_on_collects(1) uncounted_simps(2) by (metis lowering_simps(1))
  ultimately show ?thesis
    using other_change_is_kept [OF lowering_offered [of plain_formats "\<lambda>_. None" 0] lowering_simps(4)] by blast
qed

theorem restricted_save_accepted_witness:
  "let d = (init_control both_on_profile (setSubscriptionStatus (Some ''limited_access'') initial_store) None)\<lparr>dc_staged := all_off\<rparr>
   in isTurnOffOnly plain_cast (buildUpdates (saved d) (pending d))"
proof -
  let ?d = "(init_control both_on_profile (setSubscriptionStatus (Some ''limited_access'') initial_store) None)\<lparr>dc_staged := all_off\<rparr>"
  have off: "offOnly ?d"
    by (simp add: offOnly_def useSubscriptionGuard_def setSubscriptionStatus_def init_control_def Let_def)
  have "saved ?d = shown both_on" by (simp add: saved_def init_control_def Let_def both_on_saved)
  with off have "control_transition plain_formats (\<lambda>_. None) 0 ?d \<noteq> None"
    by (simp add: control_transition_def transitionFor_None pending_def both_on_shown all_off_def)
  from restricted_save_accepted [OF plain_cast_ok off this] show ?thesis by (simp add: Let_def)
qed

theorem refresh_stages_reversal_witness:
  "let d = init_control uncounted_profile initial_store None
   in \<exists>s' es. UpdateProfile plain_cast both_on (buildUpdates (shown both_on) (saved d)) = Inr (s', es) \<and> \<not> stats (shown s')"
proof -
  let ?d = "init_control uncounted_profile initial_store None"
  have staged: "dc_staged ?d = saved ?d" by (simp add: init_control_def saved_def merge_pending_def Let_def)
  have free: "\<not> offOnly ?d" "\<not> dc_saving ?d" "dc_confirm ?d = None"
    by (simp_all add: offOnly_def useSubscriptionGuard_def init_control_def Let_def initial_store_def)
  have same: "pf_profile_id both_on_profile = pf_profile_id (dc_profile ?d)" by (simp add: init_control_def Let_def)
  have off: "\<not> stats (saved ?d)" by (simp add: saved_def init_control_def Let_def)
  then have "buildUpdates (fromProfile (Some both_on_profile)) (saved ?d) \<noteq> []"
    using both_on_collects(1) by (simp add: buildUpdates_Nil both_on_saved)
  from refresh_stages_reversal [OF plain_cast_ok staged free same both_on_wire both_on_wire this] off
  show ?thesis unfolding Let_def by (metis settled_shown(1))
qed

end
