(* ===== verification/SettingsPage.thy ===== *)
theory SettingsPage
  imports DataCollection Store
begin

text \<open>
  The settings of the active profile (app/src/pages/settings/ProfileManagementSection.tsx) and the API's
  handling of the paths they change (api/service/profile/service.go, api/model/privacy.go,
  api/model/advanced.go).

  The page keeps the six values it shows in its own state. Its \<open>profiles\<close> are the ones the router's
  loader returned; the active profile comes from the store. A handler is its request and what follows
  the answer.
\<close>

subsection \<open>The page\<close>

record settings_page =
  sg_profiles :: "ModelProfile list"
  sg_active :: "ModelProfile option"
  sg_defaultRule :: string
  sg_blocklistsSubdomains :: string
  sg_rulesSubdomains :: string
  sg_dnssec :: string
  sg_doBit :: string
  sg_recursor :: string
  sg_advancedLoading :: bool
  sg_showDeleteDialog :: bool
  sg_toasts :: "(bool \<times> string) list"

datatype switch = DefaultRule | BlocklistsSubdomains | RulesSubdomains | Dnssec | DoBit | Recursor

fun switch_options :: "switch \<Rightarrow> string list" where
  "switch_options DefaultRule = [''block'', ''allow'']"
| "switch_options BlocklistsSubdomains = [''block'', ''allow'']"
| "switch_options RulesSubdomains = [''exact'', ''include'']"
| "switch_options Dnssec = [''disable'', ''enable'']"
| "switch_options DoBit = [''disable'', ''enable'']"
| "switch_options Recursor = [''sdns'', ''knot'']"

fun switch_path :: "switch \<Rightarrow> ModelProfileUpdatePathEnum" where
  "switch_path DefaultRule = SettingsPrivacyDefaultRule"
| "switch_path BlocklistsSubdomains = SettingsPrivacyBlocklistsSubdomainsRule"
| "switch_path RulesSubdomains = SettingsPrivacyCustomRulesSubdomainsRule"
| "switch_path Dnssec = SettingsSecurityDnssecEnabled"
| "switch_path DoBit = SettingsSecurityDnssecSendDoBit"
| "switch_path Recursor = SettingsAdvancedRecursor"

fun switch_value :: "switch \<Rightarrow> settings_page \<Rightarrow> string" where
  "switch_value DefaultRule p = sg_defaultRule p"
| "switch_value BlocklistsSubdomains p = sg_blocklistsSubdomains p"
| "switch_value RulesSubdomains p = sg_rulesSubdomains p"
| "switch_value Dnssec p = sg_dnssec p"
| "switch_value DoBit p = sg_doBit p"
| "switch_value Recursor p = sg_recursor p"

fun set_switch :: "switch \<Rightarrow> string \<Rightarrow> settings_page \<Rightarrow> settings_page" where
  "set_switch DefaultRule v p = p\<lparr>sg_defaultRule := v\<rparr>"
| "set_switch BlocklistsSubdomains v p = p\<lparr>sg_blocklistsSubdomains := v\<rparr>"
| "set_switch RulesSubdomains v p = p\<lparr>sg_rulesSubdomains := v\<rparr>"
| "set_switch Dnssec v p = p\<lparr>sg_dnssec := v\<rparr>"
| "set_switch DoBit v p = p\<lparr>sg_doBit := v\<rparr>"
| "set_switch Recursor v p = p\<lparr>sg_recursor := v\<rparr>"

text \<open>What an option sends: the two on-off words are booleans for every switch but the custom rules.\<close>

definition apiValue :: "switch \<Rightarrow> string \<Rightarrow> update_value" where
  "apiValue sw val =
     (if sw \<in> {RulesSubdomains, Recursor} then VStr val
      else if val = ''enable'' then VBool True else if val = ''disable'' then VBool False else VStr val)"

definition change_request :: "switch \<Rightarrow> string \<Rightarrow> settings_page \<Rightarrow> (string \<times> ModelProfileUpdate list) option" where
  "change_request sw val p =
     (if (val = [] \<and> sw \<noteq> Recursor) \<or> switch_value sw p = val then None
      else case sg_active p of
             None \<Rightarrow> None
           | Some a \<Rightarrow> Some (pf_profile_id a, [replace (switch_path sw) (apiValue sw val)]))"

definition handleBlocklistChange :: "nat \<Rightarrow> string \<Rightarrow> settings_page \<Rightarrow> (string \<times> ModelProfileUpdate list) option" where
  "handleBlocklistChange idx val p = change_request (if idx = 0 then DefaultRule else BlocklistsSubdomains) val p"

definition handleCustomRulesSettingsChange :: "nat \<Rightarrow> string \<Rightarrow> settings_page \<Rightarrow> (string \<times> ModelProfileUpdate list) option" where
  "handleCustomRulesSettingsChange idx val p = change_request RulesSubdomains val p"

definition handleAdvancedChange :: "nat \<Rightarrow> string \<Rightarrow> settings_page \<Rightarrow> (string \<times> ModelProfileUpdate list) option \<times> settings_page" where
  "handleAdvancedChange idx val p =
     (let r = change_request (if idx = 0 then Dnssec else DoBit) val p
      in (r, if r = None then p else p\<lparr>sg_advancedLoading := True\<rparr>))"

definition handleRecursorChange :: "string \<Rightarrow> settings_page \<Rightarrow> (string \<times> ModelProfileUpdate list) option \<times> settings_page" where
  "handleRecursorChange recursor p =
     (let r = change_request Recursor recursor p
      in (r, if r = None then p else p\<lparr>sg_advancedLoading := True\<rparr>))"

fun switch_texts :: "switch \<Rightarrow> string \<times> string" where
  "switch_texts DefaultRule = (''Blocklist setting updated.'', ''Failed to update blocklist setting.'')"
| "switch_texts BlocklistsSubdomains = (''Blocklist setting updated.'', ''Failed to update blocklist setting.'')"
| "switch_texts RulesSubdomains = (''Custom rules setting updated.'', ''Failed to update custom rules setting.'')"
| "switch_texts Dnssec = (''Advanced setting updated.'', ''Failed to update advanced setting.'')"
| "switch_texts DoBit = (''Advanced setting updated.'', ''Failed to update advanced setting.'')"
| "switch_texts Recursor = (''Recursor updated successfully.'', ''Failed to update recursor.'')"

text \<open>The answer: \<open>Inl\<close> is a failure with the detail of its body.\<close>

definition change_done :: "switch \<Rightarrow> string \<Rightarrow> string option + unit \<Rightarrow> settings_page \<Rightarrow> settings_page" where
  "change_done sw val answer p =
     (let p1 = (if sw \<in> {Dnssec, DoBit, Recursor} then p\<lparr>sg_advancedLoading := False\<rparr> else p)
      in case answer of
           Inr _ \<Rightarrow> (set_switch sw val p1)\<lparr>sg_toasts := sg_toasts p @ [(True, fst (switch_texts sw))]\<rparr>
         | Inl detail \<Rightarrow>
             p1\<lparr>sg_toasts := sg_toasts p @ [(False, if sw = Recursor then snd (switch_texts sw)
                                                      else or_str detail (snd (switch_texts sw)))]\<rparr>)"

definition handleProfileDeleted :: "settings_page \<Rightarrow> settings_page" where
  "handleProfileDeleted p = p\<lparr>sg_showDeleteDialog := False\<rparr>"

text \<open>The values of a profile, with the fallbacks of the effect.\<close>

definition enable_word :: "bool option \<Rightarrow> string" where
  "enable_word b = (if b = Some True then ''enable'' else if b = Some False then ''disable'' else ''enable'')"

fun profile_value :: "switch \<Rightarrow> ModelProfile \<Rightarrow> string" where
  "profile_value DefaultRule q = nullish (map_option (pv_default_rule \<circ> ps_privacy) (pf_settings q)) ''allow''"
| "profile_value BlocklistsSubdomains q =
     nullish (map_option (pv_blocklists_subdomains_rule \<circ> ps_privacy) (pf_settings q)) ''block''"
| "profile_value RulesSubdomains q =
     nullish (Option.bind (pf_settings q) (pv_custom_rules_subdomains_rule \<circ> ps_privacy)) ''include''"
| "profile_value Dnssec q = enable_word (map_option (ds_enabled \<circ> sc_dnssec \<circ> ps_security) (pf_settings q))"
| "profile_value DoBit q = enable_word (map_option (ds_send_do_bit \<circ> sc_dnssec \<circ> ps_security) (pf_settings q))"
| "profile_value Recursor q = or_str (map_option (ad_recursor \<circ> ps_advanced) (pf_settings q)) ''knot''"

text \<open>The effect that runs when the active profile or the loader's profiles change.\<close>

definition settings_effect :: "settings_page \<Rightarrow> settings_page" where
  "settings_effect p =
     (case Option.bind (sg_active p) (\<lambda>a. find (\<lambda>q. pf_profile_id q = pf_profile_id a) (sg_profiles p)) of
        None \<Rightarrow> p
      | Some q \<Rightarrow>
          p\<lparr>sg_defaultRule := profile_value DefaultRule q, sg_blocklistsSubdomains := profile_value BlocklistsSubdomains q,
            sg_rulesSubdomains := profile_value RulesSubdomains q, sg_dnssec := profile_value Dnssec q,
            sg_doBit := profile_value DoBit q, sg_recursor := profile_value Recursor q\<rparr>)"

definition init_settings :: "ModelProfile list \<Rightarrow> ModelProfile option \<Rightarrow> settings_page" where
  "init_settings profiles active =
     settings_effect
       \<lparr>sg_profiles = profiles, sg_active = active, sg_defaultRule = ''allow'', sg_blocklistsSubdomains = ''block'',
        sg_rulesSubdomains = ''include'', sg_dnssec = ''enable'', sg_doBit = ''enable'', sg_recursor = ''knot'',
        sg_advancedLoading = False, sg_showDeleteDialog = False, sg_toasts = []\<rparr>"

text \<open>The store's active profile changes: a switch in the menu, a save in the data-collection control.\<close>

definition active_changed :: "ModelProfile option \<Rightarrow> settings_page \<Rightarrow> settings_page" where
  "active_changed a p = settings_effect (p\<lparr>sg_active := a\<rparr>)"

subsection \<open>The API\<close>

definition RECURSORS :: "string list" where
  "RECURSORS = [''sdns'', ''knot'']"

text \<open>The validator's tags of the privacy settings; an empty custom-rules rule counts as absent.\<close>

definition privacy_valid :: "ModelPrivacy \<Rightarrow> bool" where
  "privacy_valid v =
     (pv_default_rule v \<in> {''block'', ''allow''} \<and> pv_blocklists_subdomains_rule v \<in> {''block'', ''allow''} \<and>
      nullish (pv_custom_rules_subdomains_rule v) [] \<in> {[], ''include'', ''exact''})"

datatype settings_error =
    SettingCast | ErrDefaultRuleInvalid | ErrBlocklistsSubdomainsInvalid | ErrCustomRulesSubdomainsInvalid | ErrRecursorInvalid

definition update_privacy ::
  "cast_lib \<Rightarrow> settings_error \<Rightarrow> (string \<Rightarrow> ModelPrivacy \<Rightarrow> ModelPrivacy) \<Rightarrow> update_value \<Rightarrow> ModelProfileSettings
     \<Rightarrow> settings_error + ModelProfileSettings" where
  "update_privacy c err put val s =
     (case ToStringE c val of
        None \<Rightarrow> Inl SettingCast
      | Some v \<Rightarrow>
          let pv = put v (ps_privacy s)
          in if privacy_valid pv then Inr (s\<lparr>ps_privacy := pv\<rparr>) else Inl err)"

definition update_dnssec ::
  "cast_lib \<Rightarrow> (bool \<Rightarrow> ModelDNSSECSettings \<Rightarrow> ModelDNSSECSettings) \<Rightarrow> update_value \<Rightarrow> ModelProfileSettings
     \<Rightarrow> settings_error + ModelProfileSettings" where
  "update_dnssec c put val s =
     (case ToBoolE c val of
        None \<Rightarrow> Inl SettingCast
      | Some b \<Rightarrow> Inr (s\<lparr>ps_security := (ps_security s)\<lparr>sc_dnssec := put b (sc_dnssec (ps_security s))\<rparr>\<rparr>))"

definition update_recursor :: "cast_lib \<Rightarrow> update_value \<Rightarrow> ModelProfileSettings \<Rightarrow> settings_error + ModelProfileSettings" where
  "update_recursor c val s =
     (case ToStringE c val of
        None \<Rightarrow> Inl SettingCast
      | Some v \<Rightarrow> if v \<notin> set RECURSORS then Inl ErrRecursorInvalid else Inr (s\<lparr>ps_advanced := \<lparr>ad_recursor = v\<rparr>\<rparr>))"

text \<open>One operation of a PATCH on the settings of this page; the others leave them alone.\<close>

definition patch_setting :: "cast_lib \<Rightarrow> ModelProfileUpdate \<Rightarrow> ModelProfileSettings \<Rightarrow> settings_error + ModelProfileSettings" where
  "patch_setting c u s =
     (if pu_operation u \<noteq> OpReplace then Inr s
      else case pu_path u of
        SettingsPrivacyDefaultRule \<Rightarrow> update_privacy c ErrDefaultRuleInvalid (\<lambda>v pv. pv\<lparr>pv_default_rule := v\<rparr>) (pu_value u) s
      | SettingsPrivacyBlocklistsSubdomainsRule \<Rightarrow>
          update_privacy c ErrBlocklistsSubdomainsInvalid (\<lambda>v pv. pv\<lparr>pv_blocklists_subdomains_rule := v\<rparr>) (pu_value u) s
      | SettingsPrivacyCustomRulesSubdomainsRule \<Rightarrow>
          update_privacy c ErrCustomRulesSubdomainsInvalid (\<lambda>v pv. pv\<lparr>pv_custom_rules_subdomains_rule := Some v\<rparr>) (pu_value u) s
      | SettingsSecurityDnssecEnabled \<Rightarrow> update_dnssec c (\<lambda>b ds. ds\<lparr>ds_enabled := b\<rparr>) (pu_value u) s
      | SettingsSecurityDnssecSendDoBit \<Rightarrow> update_dnssec c (\<lambda>b ds. ds\<lparr>ds_send_do_bit := b\<rparr>) (pu_value u) s
      | SettingsAdvancedRecursor \<Rightarrow> update_recursor c (pu_value u) s
      | _ \<Rightarrow> Inr s)"

fun patch_settings :: "cast_lib \<Rightarrow> ModelProfileUpdate list \<Rightarrow> ModelProfileSettings \<Rightarrow> settings_error + ModelProfileSettings" where
  "patch_settings c [] s = Inr s"
| "patch_settings c (u # us) s = (case patch_setting c u s of Inl e \<Rightarrow> Inl e | Inr s' \<Rightarrow> patch_settings c us s')"

text \<open>
  The write. A change of the default rule to block also appends an allow rule for each domain the server
  is configured with, unless a stored rule has its value; \<open>allowed\<close> pairs these domains with the ids
  generated for the rules.
\<close>

definition appendCustomRuleIfAbsent :: "string \<times> string \<Rightarrow> ModelProfileSettings \<Rightarrow> ModelProfileSettings" where
  "appendCustomRuleIfAbsent = (\<lambda>(i, domain) s.
     let rules = nullish (ps_custom_rules s) []
     in s\<lparr>ps_custom_rules := Some (if domain \<in> cr_value ` set rules then rules
          else rules @ [\<lparr>cr_action = ''allow'', cr_group = Some [], cr_id = i, cr_note = Some [],
                          cr_order = Some 0, cr_value = domain\<rparr>])\<rparr>)"

definition touches_default_rule :: "ModelProfileUpdate list \<Rightarrow> bool" where
  "touches_default_rule us = list_ex (\<lambda>u. pu_operation u = OpReplace \<and> pu_path u = SettingsPrivacyDefaultRule) us"

definition update_stored_settings ::
  "cast_lib \<Rightarrow> (string \<times> string) list \<Rightarrow> ModelProfileUpdate list \<Rightarrow> ModelProfileSettings
     \<Rightarrow> settings_error + ModelProfileSettings" where
  "update_stored_settings c allowed us s =
     (case patch_settings c us s of
        Inl e \<Rightarrow> Inl e
      | Inr s' \<Rightarrow>
          Inr (if touches_default_rule us \<and> pv_default_rule (ps_privacy s') = ''block''
               then fold appendCustomRuleIfAbsent allowed s' else s'))"

subsection \<open>What a switch does\<close>

lemma set_switch_value [simp]:
  "switch_value sw (set_switch sw v p) = v"
  "sw' \<noteq> sw \<Longrightarrow> switch_value sw' (set_switch sw v p) = switch_value sw' p"
  "switch_value sw (p\<lparr>sg_toasts := ts\<rparr>) = switch_value sw p"
  "switch_value sw (p\<lparr>sg_advancedLoading := b\<rparr>) = switch_value sw p"
  by (cases sw; cases sw'; simp)+

lemma effect_value:
  assumes "sg_active p = Some a" and "find (\<lambda>q. pf_profile_id q = pf_profile_id a) (sg_profiles p) = Some q"
  shows "switch_value sw (settings_effect p) = profile_value sw q"
  using assms by (cases sw) (simp_all add: settings_effect_def)

text \<open>The settings with one switch at a value.\<close>

fun put_setting :: "switch \<Rightarrow> string \<Rightarrow> ModelProfileSettings \<Rightarrow> ModelProfileSettings" where
  "put_setting DefaultRule v s = s\<lparr>ps_privacy := (ps_privacy s)\<lparr>pv_default_rule := v\<rparr>\<rparr>"
| "put_setting BlocklistsSubdomains v s = s\<lparr>ps_privacy := (ps_privacy s)\<lparr>pv_blocklists_subdomains_rule := v\<rparr>\<rparr>"
| "put_setting RulesSubdomains v s = s\<lparr>ps_privacy := (ps_privacy s)\<lparr>pv_custom_rules_subdomains_rule := Some v\<rparr>\<rparr>"
| "put_setting Dnssec v s =
     s\<lparr>ps_security := (ps_security s)\<lparr>sc_dnssec := (sc_dnssec (ps_security s))\<lparr>ds_enabled := (v = ''enable'')\<rparr>\<rparr>\<rparr>"
| "put_setting DoBit v s =
     s\<lparr>ps_security := (ps_security s)\<lparr>sc_dnssec := (sc_dnssec (ps_security s))\<lparr>ds_send_do_bit := (v = ''enable'')\<rparr>\<rparr>\<rparr>"
| "put_setting Recursor v s = s\<lparr>ps_advanced := \<lparr>ad_recursor = v\<rparr>\<rparr>"

lemma put_valid: "privacy_valid (ps_privacy s) \<Longrightarrow> val \<in> set (switch_options sw) \<Longrightarrow> privacy_valid (ps_privacy (put_setting sw val s))"
  by (cases sw) (auto simp: privacy_valid_def)

lemma patch_put:
  assumes "cast_ok c" and "privacy_valid (ps_privacy s)" and "val \<in> set (switch_options sw)"
  shows "patch_settings c [replace (switch_path sw) (apiValue sw val)] s = Inr (put_setting sw val s)"
proof -
  have v: "ToStringE c (VStr x) = Some x" "ToBoolE c (VBool b) = Some b" for x b
    using assms(1) by (simp_all add: cast_ok_def)
  note valid = put_valid [OF assms(2,3)]
  show ?thesis
  proof (cases sw)
    case DefaultRule
    with assms(3) have "apiValue sw val = VStr val" by (auto simp: apiValue_def)
    with DefaultRule valid v show ?thesis by (simp add: patch_setting_def update_privacy_def Let_def)
  next
    case BlocklistsSubdomains
    with assms(3) have "apiValue sw val = VStr val" by (auto simp: apiValue_def)
    with BlocklistsSubdomains valid v show ?thesis by (simp add: patch_setting_def update_privacy_def Let_def)
  next
    case RulesSubdomains
    then have "apiValue sw val = VStr val" by (simp add: apiValue_def)
    with RulesSubdomains valid v show ?thesis by (simp add: patch_setting_def update_privacy_def Let_def)
  next
    case Dnssec
    with assms(3) have "apiValue sw val = VBool (val = ''enable'')" by (auto simp: apiValue_def)
    with Dnssec v show ?thesis by (simp add: patch_setting_def update_dnssec_def)
  next
    case DoBit
    with assms(3) have "apiValue sw val = VBool (val = ''enable'')" by (auto simp: apiValue_def)
    with DoBit v show ?thesis by (simp add: patch_setting_def update_dnssec_def)
  next
    case Recursor
    then have "apiValue sw val = VStr val" by (simp add: apiValue_def)
    with Recursor assms(3) v show ?thesis by (simp add: patch_setting_def update_recursor_def RECURSORS_def)
  qed
qed

lemma put_value:
  assumes "pf_settings q = Some (put_setting sw val s)" and "val \<in> set (switch_options sw)"
  shows "profile_value sw q = val"
  using assms by (cases sw) (auto simp: enable_word_def)

lemma put_other:
  assumes "pf_settings q = Some s" and "pf_settings q' = Some (put_setting sw val s)" and "sw' \<noteq> sw"
  shows "profile_value sw' q' = profile_value sw' q"
  using assms by (cases sw; cases sw') simp_all

lemma request_sent:
  assumes "sg_active p = Some a" and "val \<in> set (switch_options sw)" and "switch_value sw p \<noteq> val"
  shows "change_request sw val p = Some (pf_profile_id a, [replace (switch_path sw) (apiValue sw val)])"
  using assms by (cases sw) (auto simp: change_request_def)

text \<open>The rules appended: allow rules for the domains that no stored rule has, each once, at the end.\<close>

definition allow_rules :: "ModelCustomRule list \<Rightarrow> string set \<Rightarrow> ModelCustomRule list \<Rightarrow> bool" where
  "allow_rules old hosts new \<longleftrightarrow>
     set (map cr_value new) = hosts - set (map cr_value old) \<and> distinct (map cr_value new) \<and>
     list_all (\<lambda>r. cr_action r = ''allow'') new"

lemma fold_append:
  "\<exists>new. nullish (ps_custom_rules (fold appendCustomRuleIfAbsent allowed s)) [] = nullish (ps_custom_rules s) [] @ new \<and>
         allow_rules (nullish (ps_custom_rules s) []) (snd ` set allowed) new \<and>
         (fold appendCustomRuleIfAbsent allowed s)\<lparr>ps_custom_rules := ps_custom_rules s\<rparr> = s"
proof (induction allowed arbitrary: s)
  case Nil
  show ?case by (rule exI [of _ "[]"]) (simp add: allow_rules_def)
next
  case (Cons a allowed)
  obtain i domain where a: "a = (i, domain)" by (cases a)
  let ?s = "appendCustomRuleIfAbsent a s" and ?old = "nullish (ps_custom_rules s) []"
  from Cons.IH [of ?s] obtain new where
    new: "nullish (ps_custom_rules (fold appendCustomRuleIfAbsent allowed ?s)) [] = nullish (ps_custom_rules ?s) [] @ new"
      "allow_rules (nullish (ps_custom_rules ?s) []) (snd ` set allowed) new"
    and rest: "(fold appendCustomRuleIfAbsent allowed ?s)\<lparr>ps_custom_rules := ps_custom_rules ?s\<rparr> = ?s" by blast
  have keep: "?s\<lparr>ps_custom_rules := ps_custom_rules s\<rparr> = s"
    by (simp add: appendCustomRuleIfAbsent_def a Let_def)
  have same: "(fold appendCustomRuleIfAbsent allowed ?s)\<lparr>ps_custom_rules := ps_custom_rules s\<rparr> = s"
    using arg_cong [OF rest, of "\<lambda>x. x\<lparr>ps_custom_rules := ps_custom_rules s\<rparr>"] keep by simp
  obtain first where first: "nullish (ps_custom_rules ?s) [] = ?old @ first"
    "allow_rules ?old {domain} first"
    by (cases "domain \<in> cr_value ` set ?old")
      (rule that [of "[]"], auto simp: appendCustomRuleIfAbsent_def a allow_rules_def Let_def nullish_def)
  have "allow_rules ?old (snd ` set (a # allowed)) (first @ new)"
    using first(2) new(2) unfolding first(1) allow_rules_def by (auto simp: a)
  with new(1) first(1) same show ?case by (intro exI [of _ "first @ new"]) simp
qed

lemma profile_value_rules:
  assumes "s'\<lparr>ps_custom_rules := r\<rparr> = s\<lparr>ps_custom_rules := r\<rparr>"
  shows "profile_value sw (q\<lparr>pf_settings := Some s'\<rparr>) = profile_value sw (q\<lparr>pf_settings := Some s\<rparr>)"
  using arg_cong [OF assms, of ps_privacy] arg_cong [OF assms, of ps_security] arg_cong [OF assms, of ps_advanced]
  by (cases sw) simp_all

lemma put_keeps_rules [simp]: "ps_custom_rules (put_setting sw val s) = ps_custom_rules s"
  by (cases sw) simp_all

lemma put_default: "sw \<noteq> DefaultRule \<Longrightarrow> pv_default_rule (ps_privacy (put_setting sw val s)) = pv_default_rule (ps_privacy s)"
  by (cases sw) simp_all

lemma touches_switch: "touches_default_rule [replace (switch_path sw) v] \<longleftrightarrow> sw = DefaultRule"
  by (cases sw) (simp_all add: touches_default_rule_def)

text \<open>
  Property C21 (setting_saved_and_read_back). Choosing an option other than the one shown sends one
  change, which the API accepts. What it stores differs from the stored settings in that one setting
  only, except that a default rule of block also appends allow rules for the configured domains, each
  once and only when no stored rule has its value, behind the rules stored before. A page that reads the
  stored profile shows the chosen option on that switch and what it showed before on the others. After
  the answer this page shows it too; after a failure it shows what it showed before, with a message.
\<close>

theorem setting_saved_and_read_back:
  fixes p :: settings_page and q :: ModelProfile and s :: ModelProfileSettings and allowed :: "(string \<times> string) list"
  assumes "cast_ok c" and "privacy_valid (ps_privacy s)" and "pf_settings q = Some s"
    and "sg_active p = Some a" and "val \<in> set (switch_options sw)" and "switch_value sw p \<noteq> val"
  shows "\<exists>us s' new. change_request sw val p = Some (pf_profile_id a, us) \<and> update_stored_settings c allowed us s = Inr s' \<and>
           s'\<lparr>ps_custom_rules := ps_custom_rules s\<rparr> = put_setting sw val s \<and> privacy_valid (ps_privacy s') \<and>
           nullish (ps_custom_rules s') [] = nullish (ps_custom_rules s) [] @ new \<and>
           allow_rules (nullish (ps_custom_rules s) [])
             (if sw = DefaultRule \<and> val = ''block'' then snd ` set allowed else {}) new \<and>
           (\<forall>sw'. profile_value sw' (q\<lparr>pf_settings := Some s'\<rparr>) = (if sw' = sw then val else profile_value sw' q) \<and>
                  switch_value sw' (change_done sw val (Inr ()) p) = (if sw' = sw then val else switch_value sw' p) \<and>
                  switch_value sw' (change_done sw val (Inl detail) p) = switch_value sw' p) \<and>
           sg_toasts (change_done sw val (Inl detail) p) \<noteq> sg_toasts p"
proof -
  let ?us = "[replace (switch_path sw) (apiValue sw val)]" and ?put = "put_setting sw val s"
  let ?block = "sw = DefaultRule \<and> val = ''block''"
  define s' where "s' = (if ?block then fold appendCustomRuleIfAbsent allowed ?put else ?put)"
  have upd: "update_stored_settings c allowed ?us s = Inr s'"
    using patch_put [OF assms(1,2,5)] touches_switch [of sw "apiValue sw val"]
    by (cases "sw = DefaultRule") (simp_all add: update_stored_settings_def s'_def)
  obtain new where new: "nullish (ps_custom_rules s') [] = nullish (ps_custom_rules s) [] @ new"
      "allow_rules (nullish (ps_custom_rules s) []) (if ?block then snd ` set allowed else {}) new"
    and same: "s'\<lparr>ps_custom_rules := ps_custom_rules s\<rparr> = ?put"
  proof (cases ?block)
    case True
    with fold_append [of allowed ?put] show ?thesis using that by (auto simp: s'_def)
  next
    case False
    then have s': "s' = ?put" by (auto simp: s'_def)
    have "?put\<lparr>ps_custom_rules := ps_custom_rules s\<rparr> = ?put" by (cases sw) simp_all
    with False s' show ?thesis by (intro that [of "[]"]) (auto simp: allow_rules_def)
  qed
  have "ps_privacy s' = ps_privacy ?put" using arg_cong [OF same, of ps_privacy] by simp
  then have valid: "privacy_valid (ps_privacy s')" using put_valid [OF assms(2,5)] by metis
  have "s'\<lparr>ps_custom_rules := ps_custom_rules s\<rparr> = ?put\<lparr>ps_custom_rules := ps_custom_rules s\<rparr>"
    using arg_cong [OF same, of "\<lambda>x. x\<lparr>ps_custom_rules := ps_custom_rules s\<rparr>"] by simp
  from profile_value_rules [OF this] have "profile_value sw' (q\<lparr>pf_settings := Some s'\<rparr>) =
      (if sw' = sw then val else profile_value sw' q)" for sw'
    using put_value [of "q\<lparr>pf_settings := Some ?put\<rparr>" sw val s] assms(5)
      put_other [OF assms(3), of "q\<lparr>pf_settings := Some ?put\<rparr>" sw val sw'] by simp
  moreover have "switch_value sw' (change_done sw val (Inr ()) p) = (if sw' = sw then val else switch_value sw' p)"
    "switch_value sw' (change_done sw val (Inl detail) p) = switch_value sw' p" for sw'
    by (simp_all add: change_done_def Let_def)
  moreover have "sg_toasts (change_done sw val (Inl detail) p) \<noteq> sg_toasts p" by (simp add: change_done_def Let_def)
  ultimately show ?thesis
    using request_sent [OF assms(4-6)] upd new same valid by blast
qed

text \<open>
  Fact (saved_switch_reverts). The page takes its values from the profiles of its loader whenever
  the active profile changes: after a saved change, switching to another profile and back, or a save of
  the data-collection setting, shows the old option again, although the API stores the new one. The old
  option cannot be chosen then: no request is sent for it.
\<close>

theorem saved_switch_reverts:
  fixes p :: settings_page and q a other :: ModelProfile and s :: ModelProfileSettings
  assumes "cast_ok c" and "privacy_valid (ps_privacy s)" and "pf_settings q = Some s"
    and "sg_profiles p = ps" and "find (\<lambda>x. pf_profile_id x = pf_profile_id a) ps = Some q"
    and "sg_active p = Some a" and "\<forall>sw. switch_value sw p = profile_value sw q"
    and "val \<in> set (switch_options sw)" and "profile_value sw q \<noteq> val"
    and "pf_profile_id a' = pf_profile_id a"
  defines "back \<equiv> active_changed (Some a') (active_changed (Some other) (change_done sw val (Inr ()) p))"
  shows "\<exists>us s'. change_request sw val p = Some (pf_profile_id a, us) \<and> patch_settings c us s = Inr s' \<and>
           profile_value sw (q\<lparr>pf_settings := Some s'\<rparr>) = val \<and>
           switch_value sw (change_done sw val (Inr ()) p) = val \<and>
           switch_value sw back = profile_value sw q \<and> change_request sw (profile_value sw q) back = None"
proof -
  have "switch_value sw p \<noteq> val" using assms(7,9) by simp
  from request_sent [OF assms(6,8) this] have req: "change_request sw val p = Some (pf_profile_id a, [replace (switch_path sw) (apiValue sw val)])" .
  have "profile_value sw (q\<lparr>pf_settings := Some (put_setting sw val s)\<rparr>) = val"
    using put_value [of "q\<lparr>pf_settings := Some (put_setting sw val s)\<rparr>" sw val s] assms(8) by simp
  moreover have "sg_profiles (set_switch sw val x) = sg_profiles x" for x by (cases sw) simp_all
  then have "sg_profiles (active_changed (Some other) (change_done sw val (Inr ()) p)) = ps"
    using assms(4) by (simp add: active_changed_def settings_effect_def change_done_def Let_def split: option.split)
  then have shown: "switch_value sw back = profile_value sw q"
    unfolding back_def active_changed_def [of "Some a'"] using assms(5,10) by (intro effect_value [of _ a']) simp_all
  moreover have "change_request sw (profile_value sw q) back = None" using shown by (simp add: change_request_def)
  ultimately show ?thesis
    using req patch_put [OF assms(1,2,8)] by (auto simp: change_done_def Let_def)
qed

text \<open>A profile with every switch at its default.\<close>

definition default_profile :: ModelProfile where
  "default_profile =
     \<lparr>pf_account_id = ''a'', pf_id = ''1'', pf_name = ''home'', pf_profile_id = ''p'',
      pf_settings = Some
        \<lparr>ps_advanced = \<lparr>ad_recursor = ''knot''\<rparr>, ps_custom_rule_groups = None, ps_custom_rules = None, ps_logs = None,
         ps_privacy = \<lparr>pv_blocklists = None, pv_blocklists_subdomains_rule = ''block'',
                       pv_custom_rules_subdomains_rule = Some ''include'', pv_default_rule = ''allow'', pv_services = None\<rparr>,
         ps_profile_id = ''p'',
         ps_security = \<lparr>sc_dnssec = \<lparr>ds_enabled = True, ds_send_do_bit = True\<rparr>, sc_rebinding_protection = None\<rparr>,
         ps_statistics = None\<rparr>\<rparr>"

lemma default_valid: "privacy_valid (ps_privacy (the (pf_settings default_profile)))"
  by (simp add: default_profile_def privacy_valid_def)

lemma default_shown: "switch_value sw (init_settings [default_profile] (Some default_profile)) = profile_value sw default_profile"
  unfolding init_settings_def by (rule effect_value) simp_all

theorem setting_saved_and_read_back_witness:
  "\<exists>us s'. change_request DefaultRule ''block'' (init_settings [default_profile] (Some default_profile)) = Some (''p'', us) \<and>
     update_stored_settings plain_cast [(''i1'', ''app.example''), (''i2'', ''api.example'')] us
       (the (pf_settings default_profile)) = Inr s' \<and>
     set (map cr_value (nullish (ps_custom_rules s') [])) = {''app.example'', ''api.example''} \<and>
     profile_value DefaultRule (default_profile\<lparr>pf_settings := Some s'\<rparr>) = ''block''"
proof -
  let ?p = "init_settings [default_profile] (Some default_profile)"
  let ?allowed = "[(''i1'', ''app.example''), (''i2'', ''api.example'')]"
  have facts: "pf_settings default_profile = Some (the (pf_settings default_profile))" "sg_active ?p = Some default_profile"
    "''block'' \<in> set (switch_options DefaultRule)" by (simp_all add: default_profile_def init_settings_def settings_effect_def)
  have shown: "switch_value DefaultRule ?p \<noteq> ''block''" unfolding default_shown by (simp add: default_profile_def)
  have none: "ps_custom_rules (the (pf_settings default_profile)) = None" "pf_profile_id default_profile = ''p''"
    by (simp_all add: default_profile_def)
  note saved = setting_saved_and_read_back [OF plain_cast_ok default_valid facts shown, of ?allowed None]
  from saved obtain us s' new where "change_request DefaultRule ''block'' ?p = Some (pf_profile_id default_profile, us)"
    and "update_stored_settings plain_cast ?allowed us (the (pf_settings default_profile)) = Inr s'"
    and rules: "nullish (ps_custom_rules s') [] = nullish (ps_custom_rules (the (pf_settings default_profile))) [] @ new"
      "allow_rules (nullish (ps_custom_rules (the (pf_settings default_profile))) [])
         (if DefaultRule = DefaultRule \<and> ''block'' = ''block'' then snd ` set ?allowed else {}) new"
    and "profile_value DefaultRule (default_profile\<lparr>pf_settings := Some s'\<rparr>) = ''block''"
    by (elim exE conjE) (rule that, assumption+, simp)
  moreover have "set (map cr_value (nullish (ps_custom_rules s') [])) = {''app.example'', ''api.example''}"
    using rules unfolding none allow_rules_def by auto
  ultimately show ?thesis unfolding none(2) by blast
qed

theorem saved_switch_reverts_witness:
  "let p = init_settings [default_profile] (Some default_profile)
   in switch_value DefaultRule (change_done DefaultRule ''block'' (Inr ()) p) = ''block'' \<and>
      switch_value DefaultRule (active_changed (Some default_profile)
        (active_changed (Some default_profile) (change_done DefaultRule ''block'' (Inr ()) p))) = ''allow''"
proof -
  let ?p = "init_settings [default_profile] (Some default_profile)"
  have "pf_settings default_profile = Some (the (pf_settings default_profile))" by (simp add: default_profile_def)
  moreover have "sg_profiles ?p = [default_profile]" "sg_active ?p = Some default_profile"
    by (simp_all add: init_settings_def settings_effect_def)
  moreover have "''block'' \<in> set (switch_options DefaultRule)" by simp
  moreover have "profile_value DefaultRule default_profile = ''allow''" by (simp add: default_profile_def)
  ultimately show ?thesis
    using saved_switch_reverts [OF plain_cast_ok default_valid, of default_profile ?p "[default_profile]" default_profile
        "''block''" DefaultRule default_profile default_profile] default_shown
    by (auto simp: Let_def)
qed

end
