(* ===== verification/ExportApi.thy ===== *)
theory ExportApi
  imports ImportApi DataCollection
begin

text \<open>
  The export of profiles by the API (api/service/profile/export.go, api/api/profile_export_import.go,
  api/model/export.go) and the settings an import makes of an exported profile
  (\<open>mapExportedSettings\<close> and the checks around it in api/service/profile/import.go), so that an export
  and its import can be put side by side.

  The catalogues of block lists and services are arguments, as are the syntax check of a rule and the
  check of a safe name. Texts that may be absent in the file are \<open>None\<close> there and empty in the database.
  Of a stored rule its id and syntax class, and of the stored statistics the two instants of a purge,
  are left out: neither is exported.
\<close>

subsection \<open>Stored settings\<close>

record stored_privacy =
  kp_blocklists :: "string list"
  kp_services :: "string list"
  kp_defaultRule :: string
  kp_blocklistsSubdomainsRule :: string
  kp_customRulesSubdomainsRule :: string

record stored_security =
  kc_dnssec :: bool
  kc_sendDoBit :: bool
  kc_rebinding :: bool

record stored_rule =
  kr_action :: string
  kr_value :: string
  kr_note :: string
  kr_group :: string
  kr_order :: int

record stored_logs =
  kl_enabled :: bool
  kl_logClientsIPs :: bool
  kl_logDomains :: bool
  kl_retention :: string

record stored_statistics =
  kt_enabled :: bool
  kt_enabledAt :: "int option"
  kt_retention :: string

record stored_settings =
  kg_security :: "stored_security option"
  kg_privacy :: "stored_privacy option"
  kg_customRules :: "stored_rule option list"
  kg_blockGroups :: "ModelCustomRuleGroup list"
  kg_allowGroups :: "ModelCustomRuleGroup list"
  kg_logs :: "stored_logs option"
  kg_statistics :: "stored_statistics option"
  kg_recursor :: string

record full_profile =
  kf_profileId :: string
  kf_accountId :: string
  kf_name :: string
  kf_settings :: "stored_settings option"

definition NewSettings :: stored_settings where
  "NewSettings =
     \<lparr>kg_security = Some \<lparr>kc_dnssec = True, kc_sendDoBit = False, kc_rebinding = False\<rparr>,
      kg_privacy = Some \<lparr>kp_blocklists = [], kp_services = [], kp_defaultRule = ''allow'',
        kp_blocklistsSubdomainsRule = ''block'', kp_customRulesSubdomainsRule = ''include''\<rparr>,
      kg_customRules = [], kg_blockGroups = [], kg_allowGroups = [],
      kg_logs = Some \<lparr>kl_enabled = False, kl_logClientsIPs = False, kl_logDomains = True, kl_retention = ''1h''\<rparr>,
      kg_statistics = Some \<lparr>kt_enabled = False, kt_enabledAt = None, kt_retention = ''30d''\<rparr>,
      kg_recursor = ''knot''\<rparr>"

subsection \<open>Export\<close>

definition omitempty :: "string \<Rightarrow> string option" where
  "omitempty s = (if s = [] then None else Some s)"

lemma nullish_omitempty [simp]: "nullish (omitempty s) [] = s"
  by (simp add: omitempty_def nullish_def)

text \<open>The rules in display order: a stable sort by \<open>order\<close>.\<close>

definition display_order :: "stored_rule option list \<Rightarrow> stored_rule list" where
  "display_order rs = sort_key kr_order (List.map_filter (\<lambda>r. r) rs)"

definition export_rule :: "stored_rule \<Rightarrow> ModelExportedCustomRule" where
  "export_rule r = \<lparr>er_action = kr_action r, er_group = omitempty (kr_group r), er_note = omitempty (kr_note r),
                    er_value = kr_value r\<rparr>"

definition omit_list :: "'a list \<Rightarrow> 'a list option" where
  "omit_list xs = (if xs = [] then None else Some xs)"

lemma nullish_omit_list [simp]: "nullish (omit_list xs) [] = xs"
  by (simp add: omit_list_def nullish_def)

definition exportSettings :: "stored_settings option \<Rightarrow> ModelExportedSettings" where
  "exportSettings st =
     (case st of
        None \<Rightarrow> \<lparr>es_advanced = None, es_customRuleGroups = None, es_customRules = None, es_logs = None,
                 es_privacy = None, es_security = None, es_statistics = None\<rparr>
      | Some s \<Rightarrow>
          \<lparr>es_advanced = None,
           es_customRuleGroups =
             (if kg_blockGroups s \<noteq> [] \<or> kg_allowGroups s \<noteq> []
              then Some \<lparr>gs_allow = omit_list (kg_allowGroups s), gs_block = omit_list (kg_blockGroups s)\<rparr> else None),
           es_customRules = omit_list (map export_rule (display_order (kg_customRules s))),
           es_logs = map_option (\<lambda>l. \<lparr>el_enabled = Some (kl_enabled l), el_logClientsIPs = Some (kl_logClientsIPs l),
               el_logDomains = Some (kl_logDomains l), el_retention = omitempty (kl_retention l)\<rparr>) (kg_logs s),
           es_privacy = map_option (\<lambda>p. \<lparr>ev_blocklists = kp_blocklists p,
               ev_blocklistsSubdomainsRule = omitempty (kp_blocklistsSubdomainsRule p),
               ev_customRulesSubdomainsRule = omitempty (kp_customRulesSubdomainsRule p),
               ev_defaultRule = omitempty (kp_defaultRule p), ev_services = kp_services p\<rparr>) (kg_privacy s),
           es_security = map_option (\<lambda>c. \<lparr>ex_dnssec = Some \<lparr>ed_enabled = Some (kc_dnssec c), ed_sendDoBit = Some (kc_sendDoBit c)\<rparr>,
               ex_rebindingProtection = Some \<lparr>eb_enabled = Some (kc_rebinding c)\<rparr>\<rparr>) (kg_security s),
           es_statistics = map_option (\<lambda>t. \<lparr>et_enabled = Some (kt_enabled t)\<rparr>) (kg_statistics s)\<rparr>)"

definition exportProfile :: "full_profile \<Rightarrow> ModelExportedProfile" where
  "exportProfile p = \<lparr>ep_comment = None, ep_name = kf_name p, ep_settings = Some (exportSettings (kf_settings p))\<rparr>"

definition validateProfileIdAffiliation :: "string \<Rightarrow> string \<Rightarrow> full_profile list \<Rightarrow> full_profile option" where
  "validateProfileIdAffiliation accountId profileId db =
     (case List.find (\<lambda>p. kf_profileId p = profileId) db of
        None \<Rightarrow> None
      | Some p \<Rightarrow> if kf_accountId p \<noteq> accountId then None else Some p)"

definition resource_not_found :: thrown where
  "resource_not_found = api_error 404 ''resource not found''"

fun fetch_selected :: "string \<Rightarrow> full_profile list \<Rightarrow> string list \<Rightarrow> thrown + full_profile list" where
  "fetch_selected accountId db [] = Inr []"
| "fetch_selected accountId db (i # ids) =
     (case validateProfileIdAffiliation accountId i db of
        None \<Rightarrow> Inl resource_not_found
      | Some p \<Rightarrow> (case fetch_selected accountId db ids of Inl e \<Rightarrow> Inl e | Inr ps \<Rightarrow> Inr (p # ps)))"

definition enumerateExportProfiles ::
  "nat \<Rightarrow> string \<Rightarrow> full_profile list \<Rightarrow> string \<Rightarrow> string list \<Rightarrow> thrown + full_profile list" where
  "enumerateExportProfiles maxp accountId db scope profileIds =
     (if scope = ''all'' then Inr (filter (\<lambda>p. kf_accountId p = accountId) db)
      else if scope = ''selected'' then
        (if maxp < length profileIds then Inl (api_error 400 ''too many profile IDs requested'')
         else fetch_selected accountId db profileIds)
      else Inl (api_error 400 ''invalid export scope''))"

text \<open>The database as the export sees it: the caller's account, all stored profiles, and the limit.\<close>

record export_server =
  xs_account :: reauth_account
  xs_accountId :: string
  xs_profiles :: "full_profile list"
  xs_max :: nat

definition TokenTypeReauthProfileExport :: string where
  "TokenTypeReauthProfileExport = ''reauth_profile_export''"

definition Export ::
  "login_env \<Rightarrow> int \<Rightarrow> string \<Rightarrow> RequestsExportRequest \<Rightarrow> string \<Rightarrow> export_server
     \<Rightarrow> (thrown + ModelExportEnvelope) \<times> export_server" where
  "Export env now stamp req otp srv =
     (case Verify env now TokenTypeReauthProfileExport (xr_current_password req) (xr_reauth_token req) otp (xs_account srv) of
        Inl e \<Rightarrow> (Inl (api_error (reauth_status_code e) (reauth_text e)), srv)
      | Inr acc \<Rightarrow>
          let srv1 = srv\<lparr>xs_account := acc\<rparr> in
          (case enumerateExportProfiles (xs_max srv1) (xs_accountId srv1) (xs_profiles srv1) (xr_scope req)
                  (nullish (xr_profile_ids req) []) of
             Inl e \<Rightarrow> (Inl e, srv1)
           | Inr ps \<Rightarrow> (Inr \<lparr>ee_exportedAt = stamp, ee_kind = ''moddns-export'', ee_profiles = map exportProfile ps,
                             ee_schemaVersion = 1\<rparr>, srv1)))"

text \<open>The request passes its validation and the check of its scope first.\<close>

definition scope_error :: "RequestsExportRequest \<Rightarrow> string option" where
  "scope_error req =
     (let ids = nullish (xr_profile_ids req) [] in
      if xr_scope req = ''all'' \<and> ids \<noteq> [] then Some ''scope=all: profileIds must be empty when scope=all''
      else if xr_scope req = ''selected'' \<and> ids = []
      then Some ''scope=selected requires at least one profileId: profileIds must be empty when scope=all''
      else None)"

definition exportProfiles ::
  "login_env \<Rightarrow> (RequestsExportRequest \<Rightarrow> string option) \<Rightarrow> int \<Rightarrow> string \<Rightarrow> RequestsExportRequest \<Rightarrow> string \<Rightarrow> export_server
     \<Rightarrow> (thrown + ModelExportEnvelope) \<times> export_server" where
  "exportProfiles env validation now stamp req otp srv =
     (case validation req of
        Some msg \<Rightarrow> (Inl (api_error 400 (''Validation error: '' @ msg)), srv)
      | None \<Rightarrow>
          (case scope_error req of
             Some msg \<Rightarrow> (Inl (api_error 400 (''Validation error: '' @ msg)), srv)
           | None \<Rightarrow>
               if xr_current_password req \<noteq> None \<and> xr_reauth_token req \<noteq> None
               then (Inl (api_error 400 ''Validation error: provide only one of current_password or reauth_token''), srv)
               else Export env now stamp req otp srv))"

subsection \<open>The checks of an import request\<close>

text \<open>The validation tags of the envelope; \<open>omitempty\<close> accepts an absent and an empty text.\<close>

definition opt_ok :: "(string \<Rightarrow> bool) \<Rightarrow> string option \<Rightarrow> bool" where
  "opt_ok P v = (case v of None \<Rightarrow> True | Some s \<Rightarrow> s = [] \<or> P s)"

definition group_valid :: "ModelCustomRuleGroup \<Rightarrow> bool" where
  "group_valid g = (cg_name g \<noteq> [] \<and> length (cg_name g) \<le> 64 \<and> opt_ok (\<lambda>s. length s \<le> 80) (cg_comment g))"

definition ExportedCustomRuleGroupsLimit :: nat where "ExportedCustomRuleGroupsLimit = 100"

definition groups_valid :: "ModelCustomRuleGroups \<Rightarrow> bool" where
  "groups_valid gs =
     (let ok = (\<lambda>l. length l \<le> ExportedCustomRuleGroupsLimit \<and> list_all group_valid l)
      in ok (nullish (gs_block gs) []) \<and> ok (nullish (gs_allow gs) []))"

definition rule_valid :: "ModelExportedCustomRule \<Rightarrow> bool" where
  "rule_valid r =
     (er_action r \<in> {''block'', ''allow'', ''comment''} \<and> er_value r \<noteq> [] \<and> length (er_value r) \<le> 255 \<and>
      opt_ok (\<lambda>s. length s \<le> 80) (er_note r) \<and> opt_ok (\<lambda>s. length s \<le> 64) (er_group r))"

definition refs_valid :: "string list \<Rightarrow> bool" where
  "refs_valid ids = (length ids \<le> 100 \<and> list_all (\<lambda>i. i \<noteq> [] \<and> length i \<le> 64) ids)"

definition privacy_tags :: "ModelExportedPrivacy \<Rightarrow> bool" where
  "privacy_tags p =
     (refs_valid (ev_blocklists p) \<and> refs_valid (ev_services p) \<and>
      opt_ok (\<lambda>s. s \<in> {''block'', ''allow''}) (ev_defaultRule p) \<and>
      opt_ok (\<lambda>s. s \<in> {''block'', ''allow''}) (ev_blocklistsSubdomainsRule p) \<and>
      opt_ok (\<lambda>s. s \<in> {''include'', ''exact''}) (ev_customRulesSubdomainsRule p))"

definition RETENTIONS :: "string list" where
  "RETENTIONS = [''1h'', ''6h'', ''1d'', ''1w'', ''1m'']"

definition settings_valid :: "ModelExportedSettings \<Rightarrow> bool" where
  "settings_valid s =
     (pred_option privacy_tags (es_privacy s) \<and>
      length (nullish (es_customRules s) []) \<le> MAX_CUSTOM_RULES_PER_ACCOUNT \<and>
      list_all rule_valid (nullish (es_customRules s) []) \<and>
      pred_option groups_valid (es_customRuleGroups s) \<and>
      pred_option (\<lambda>l. opt_ok (\<lambda>r. r \<in> set RETENTIONS) (el_retention l)) (es_logs s) \<and>
      pred_option (\<lambda>a. opt_ok (\<lambda>r. r \<in> {''sdns'', ''unbound''}) (ea_recursor a)) (es_advanced s))"

definition profile_valid :: "(string \<Rightarrow> bool) \<Rightarrow> ModelExportedProfile \<Rightarrow> bool" where
  "profile_valid safe_name p =
     (ep_name p \<noteq> [] \<and> length (ep_name p) \<le> 200 \<and> safe_name (ep_name p) \<and>
      opt_ok (\<lambda>c. length c \<le> 200 \<and> safe_name c) (ep_comment p) \<and>
      (case ep_settings p of None \<Rightarrow> False | Some s \<Rightarrow> settings_valid s))"

definition envelope_valid :: "(string \<Rightarrow> bool) \<Rightarrow> ModelExportEnvelope \<Rightarrow> bool" where
  "envelope_valid safe_name e =
     (ee_schemaVersion e = 1 \<and> ee_kind e = ''moddns-export'' \<and> ee_exportedAt e \<noteq> [] \<and>
      1 \<le> length (ee_profiles e) \<and> length (ee_profiles e) \<le> 100 \<and> list_all (profile_valid safe_name) (ee_profiles e))"

subsection \<open>The settings of an imported profile\<close>

text \<open>The catalogues: which block lists there are, and the services, when their catalogue is available.\<close>

record catalogs =
  ct_blocklist :: "string \<Rightarrow> bool"
  ct_services :: "(string \<Rightarrow> bool) option"

definition NewRetention :: "string \<Rightarrow> string option" where
  "NewRetention r = (if r \<in> set RETENTIONS then Some r else None)"

text \<open>A field that names one of the accepted values replaces the default.\<close>

definition if_one_of :: "string list \<Rightarrow> string option \<Rightarrow> string \<Rightarrow> string" where
  "if_one_of vs v dflt = (if nullish v [] \<in> set vs then nullish v [] else dflt)"

definition map_privacy :: "ModelExportedPrivacy option \<Rightarrow> stored_privacy \<Rightarrow> stored_privacy" where
  "map_privacy src p =
     (case src of
        None \<Rightarrow> p
      | Some v \<Rightarrow> p\<lparr>kp_defaultRule := if_one_of [''block'', ''allow''] (ev_defaultRule v) (kp_defaultRule p),
                     kp_blocklistsSubdomainsRule := if_one_of [''block'', ''allow''] (ev_blocklistsSubdomainsRule v) (kp_blocklistsSubdomainsRule p),
                     kp_customRulesSubdomainsRule := if_one_of [''include'', ''exact''] (ev_customRulesSubdomainsRule v) (kp_customRulesSubdomainsRule p)\<rparr>)"

definition map_security :: "ModelExportedSecurity option \<Rightarrow> stored_security \<Rightarrow> stored_security" where
  "map_security src c =
     (let c1 = (case Option.bind src ex_dnssec of
                  None \<Rightarrow> c
                | Some d \<Rightarrow> c\<lparr>kc_dnssec := truthy_bool (ed_enabled d), kc_sendDoBit := truthy_bool (ed_sendDoBit d)\<rparr>)
      in case Option.bind src ex_rebindingProtection of
           None \<Rightarrow> c1
         | Some r \<Rightarrow> c1\<lparr>kc_rebinding := truthy_bool (eb_enabled r)\<rparr>)"

definition map_logs :: "ModelExportedLogs option \<Rightarrow> stored_logs \<Rightarrow> stored_logs" where
  "map_logs src l =
     (case src of
        None \<Rightarrow> l
      | Some v \<Rightarrow> l\<lparr>kl_enabled := truthy_bool (el_enabled v), kl_logClientsIPs := truthy_bool (el_logClientsIPs v),
                     kl_logDomains := truthy_bool (el_logDomains v),
                     kl_retention := nullish (NewRetention (nullish (el_retention v) [])) (kl_retention l)\<rparr>)"

definition map_statistics :: "int \<Rightarrow> ModelExportedStatistics option \<Rightarrow> stored_statistics \<Rightarrow> stored_statistics" where
  "map_statistics now src t =
     (case src of
        None \<Rightarrow> t
      | Some v \<Rightarrow> (let on = truthy_bool (et_enabled v) in
          t\<lparr>kt_enabled := on, kt_enabledAt := (if on then Some now else kt_enabledAt t)\<rparr>))"

definition mapExportedSettings :: "int \<Rightarrow> ModelExportedSettings option \<Rightarrow> stored_settings" where
  "mapExportedSettings now src =
     (case src of
        None \<Rightarrow> NewSettings
      | Some v \<Rightarrow>
          NewSettings
            \<lparr>kg_security := map_option (map_security (es_security v)) (kg_security NewSettings),
             kg_privacy := map_option (map_privacy (es_privacy v)) (kg_privacy NewSettings),
             kg_blockGroups := nullish (Option.bind (es_customRuleGroups v) gs_block) [],
             kg_allowGroups := nullish (Option.bind (es_customRuleGroups v) gs_allow) [],
             kg_logs := map_option (map_logs (es_logs v)) (kg_logs NewSettings),
             kg_statistics := map_option (map_statistics now (es_statistics v)) (kg_statistics NewSettings)\<rparr>)"

definition not_in_catalog :: "string \<Rightarrow> string \<Rightarrow> string" where
  "not_in_catalog kind i = kind @ '' '' @ single_quoted i @ '' is not in the catalog -- skipped''"

definition filterCatalogRefs :: "catalogs \<Rightarrow> string list \<Rightarrow> string list \<times> string list" where
  "filterCatalogRefs cat ids =
     (filter (ct_blocklist cat) ids, map (not_in_catalog ''blocklist'') (filter (\<lambda>i. \<not> ct_blocklist cat i) ids))"

definition filterServiceRefs :: "catalogs \<Rightarrow> string list \<Rightarrow> string list \<times> string list" where
  "filterServiceRefs cat ids =
     (case ct_services cat of
        None \<Rightarrow> (ids, [''services catalog unavailable -- service IDs accepted without validation''])
      | Some known \<Rightarrow> (filter known ids, map (not_in_catalog ''service'') (filter (\<lambda>i. \<not> known i) ids)))"

definition capGroups :: "string \<Rightarrow> string \<Rightarrow> 'a list \<Rightarrow> 'a list \<times> string list" where
  "capGroups listName profileName l =
     (if ExportedCustomRuleGroupsLimit < length l
      then (take ExportedCustomRuleGroupsLimit l,
            [''profile '' @ single_quoted profileName @ '': '' @ listName @ '' groups capped at '' @
             show_nat ExportedCustomRuleGroupsLimit @ ''; '' @ show_nat (length l - ExportedCustomRuleGroupsLimit) @
             '' were discarded''])
      else (l, []))"


definition mapped_rules :: "import_env \<Rightarrow> ModelExportedCustomRule list \<Rightarrow> stored_rule list" where
  "mapped_rules env rs =
     map (\<lambda>(i, r). \<lparr>kr_action = er_action r, kr_value = er_value r, kr_note = nullish (er_note r) [],
                    kr_group = nullish (er_group r) [], kr_order = int i\<rparr>)
       (filter (\<lambda>(i, r). fst (validate_rule env [] i r)) (enumerate 0 rs))"

definition importedSettings :: "catalogs \<Rightarrow> import_env \<Rightarrow> ModelExportedProfile \<Rightarrow> stored_settings" where
  "importedSettings cat env ep =
     (let s = mapExportedSettings (ie_now env) (ep_settings ep);
          s1 = (case Option.bind (ep_settings ep) es_privacy of
                  None \<Rightarrow> s
                | Some v \<Rightarrow> s\<lparr>kg_privacy := map_option (\<lambda>p. p\<lparr>kp_blocklists := fst (filterCatalogRefs cat (ev_blocklists v)),
                                                             kp_services := fst (filterServiceRefs cat (ev_services v))\<rparr>) (kg_privacy s)\<rparr>)
      in s1\<lparr>kg_customRules := map Some (mapped_rules env (exported_rules ep)),
            kg_blockGroups := fst (capGroups ''denylist'' (ep_name ep) (kg_blockGroups s1)),
            kg_allowGroups := fst (capGroups ''allowlist'' (ep_name ep) (kg_allowGroups s1))\<rparr>)"

text \<open>The warnings of the catalogues and of the caps, the \<open>ie_catalog\<close> and \<open>ie_caps\<close> of an import.\<close>

definition catalog_warnings :: "catalogs \<Rightarrow> ModelExportedProfile \<Rightarrow> string list" where
  "catalog_warnings cat ep =
     (case Option.bind (ep_settings ep) es_privacy of
        None \<Rightarrow> []
      | Some v \<Rightarrow> snd (filterCatalogRefs cat (ev_blocklists v)) @ snd (filterServiceRefs cat (ev_services v)))"

definition cap_warnings :: "string \<Rightarrow> ModelExportedProfile \<Rightarrow> string list" where
  "cap_warnings nm ep =
     (let s = mapExportedSettings 0 (ep_settings ep)
      in snd (capGroups ''denylist'' nm (kg_blockGroups s)) @ snd (capGroups ''allowlist'' nm (kg_allowGroups s)))"

text \<open>The rules written are those the import's own loop counts.\<close>

lemma mapped_rules_count: "length (mapped_rules env (exported_rules ep)) = length (fst (validateAndMapRules env ep nm))"
proof -
  have "fst (validate_rule env nm i r) = fst (validate_rule env [] i r)" for i r by (simp add: validate_rule_def)
  then show ?thesis
    by (simp add: mapped_rules_def validateAndMapRules_def Let_def filter_map o_def case_prod_unfold)
qed

subsection \<open>A profile exported and imported\<close>

definition rule_ok :: "import_env \<Rightarrow> stored_rule \<Rightarrow> bool" where
  "rule_ok env r = (NewCustomRuleAction (kr_action r) \<and> ie_syntax env (kr_value r))"

text \<open>What the API keeps of the settings it stores, with the references of the current catalogues.\<close>

definition stored_ok :: "catalogs \<Rightarrow> import_env \<Rightarrow> stored_settings \<Rightarrow> bool" where
  "stored_ok cat env s =
     ((case kg_privacy s of
         None \<Rightarrow> False
       | Some p \<Rightarrow> list_all (ct_blocklist cat) (kp_blocklists p) \<and>
                   (case ct_services cat of None \<Rightarrow> False | Some known \<Rightarrow> list_all known (kp_services p)) \<and>
                   kp_defaultRule p \<in> {''block'', ''allow''} \<and> kp_blocklistsSubdomainsRule p \<in> {''block'', ''allow''} \<and>
                   kp_customRulesSubdomainsRule p \<in> {''include'', ''exact''}) \<and>
      kg_security s \<noteq> None \<and> pred_option (\<lambda>l. kl_retention l \<in> set RETENTIONS) (kg_logs s) \<and> kg_logs s \<noteq> None \<and>
      kg_statistics s \<noteq> None \<and> list_all (rule_ok env) (display_order (kg_customRules s)) \<and>
      length (kg_blockGroups s) \<le> ExportedCustomRuleGroupsLimit \<and> length (kg_allowGroups s) \<le> ExportedCustomRuleGroupsLimit)"

definition rule_content :: "stored_rule \<Rightarrow> string \<times> string \<times> string \<times> string" where
  "rule_content r = (kr_action r, kr_value r, kr_note r, kr_group r)"

lemma validate_exported_rule: "fst (validate_rule env nm i (export_rule r)) \<longleftrightarrow> rule_ok env r"
  by (simp add: validate_rule_def rule_ok_def export_rule_def)

lemma mapped_exported:
  assumes "list_all (rule_ok env) rs"
  shows "mapped_rules env (map export_rule rs) =
           map (\<lambda>(i, r). r\<lparr>kr_order := int i\<rparr>) (enumerate 0 rs)"
proof -
  have "\<forall>(i, r) \<in> set (enumerate 0 (map export_rule rs)). fst (validate_rule env [] i r)"
    using assms by (auto simp: in_set_enumerate_eq validate_exported_rule list_all_length)
  then have "filter (\<lambda>(i, r). fst (validate_rule env [] i r)) (enumerate 0 (map export_rule rs)) = enumerate 0 (map export_rule rs)"
    by (simp add: filter_id_conv)
  then show ?thesis
    by (intro nth_equalityI) (simp_all add: mapped_rules_def nth_enumerate_eq export_rule_def)
qed

lemma numbered_order:
  "display_order (map Some (map (\<lambda>(i, r). r\<lparr>kr_order := int i\<rparr>) (enumerate 0 rs))) =
     map (\<lambda>(i, r). r\<lparr>kr_order := int i\<rparr>) (enumerate 0 rs)" (is "_ = ?l")
proof -
  have "List.map_filter (\<lambda>r. r) (map Some xs) = xs" for xs :: "stored_rule list"
    by (induction xs) (simp_all add: List.map_filter_simps)
  moreover have "sorted (map kr_order ?l)"
    by (simp add: sorted_iff_nth_mono nth_enumerate_eq)
  then have "sort_key kr_order ?l = ?l" by (rule sort_key_id_if_sorted)
  ultimately show ?thesis by (simp add: display_order_def del: map_map)
qed

lemma numbered_content: "map rule_content (map (\<lambda>(i, r). r\<lparr>kr_order := int i\<rparr>) (enumerate 0 rs)) = map rule_content rs"
  by (rule nth_equalityI) (simp_all add: nth_enumerate_eq rule_content_def)


lemma cap_within: "length l \<le> ExportedCustomRuleGroupsLimit \<Longrightarrow> capGroups nm pn l = (l, [])"
  by (simp add: capGroups_def)

lemma if_one_of_omitempty: "v \<in> set vs \<Longrightarrow> v \<noteq> [] \<Longrightarrow> if_one_of vs (omitempty v) dflt = v"
  by (simp add: if_one_of_def)

lemma refs_kept:
  assumes "stored_ok cat env s" and "kg_privacy s = Some p"
  shows "filterCatalogRefs cat (kp_blocklists p) = (kp_blocklists p, [])"
    and "filterServiceRefs cat (kp_services p) = (kp_services p, [])"
proof -
  from assms have "list_all (ct_blocklist cat) (kp_blocklists p)" by (simp add: stored_ok_def)
  then show "filterCatalogRefs cat (kp_blocklists p) = (kp_blocklists p, [])"
    by (simp add: filterCatalogRefs_def list_all_iff filter_id_conv filter_empty_conv)
  from assms obtain known where "ct_services cat = Some known" "list_all known (kp_services p)"
    by (auto simp: stored_ok_def split: option.splits)
  then show "filterServiceRefs cat (kp_services p) = (kp_services p, [])"
    by (simp add: filterServiceRefs_def list_all_iff filter_id_conv filter_empty_conv)
qed

lemma imported_groups:
  assumes "stored_ok cat env s"
  shows "nullish (Option.bind (es_customRuleGroups (exportSettings (Some s))) gs_block) [] = kg_blockGroups s"
    and "nullish (Option.bind (es_customRuleGroups (exportSettings (Some s))) gs_allow) [] = kg_allowGroups s"
  by (simp_all add: exportSettings_def)

lemma map_privacy_exported:
  assumes "stored_ok cat env s" and "kg_privacy s = Some p"
  shows "(map_privacy (es_privacy (exportSettings (Some s))) d)\<lparr>kp_blocklists := kp_blocklists p, kp_services := kp_services p\<rparr> = p"
proof -
  from assms have ok: "kp_defaultRule p \<in> {''block'', ''allow''}" "kp_blocklistsSubdomainsRule p \<in> {''block'', ''allow''}"
    "kp_customRulesSubdomainsRule p \<in> {''include'', ''exact''}" by (simp_all add: stored_ok_def)
  then have "if_one_of [''block'', ''allow''] (omitempty (kp_defaultRule p)) x = kp_defaultRule p"
    "if_one_of [''block'', ''allow''] (omitempty (kp_blocklistsSubdomainsRule p)) x = kp_blocklistsSubdomainsRule p"
    "if_one_of [''include'', ''exact''] (omitempty (kp_customRulesSubdomainsRule p)) x = kp_customRulesSubdomainsRule p" for x
    by (auto intro!: if_one_of_omitempty)
  with assms(2) show ?thesis by (simp add: exportSettings_def map_privacy_def)
qed

lemma map_logs_exported:
  assumes "stored_ok cat env s" and "kg_logs s = Some l"
  shows "map_logs (es_logs (exportSettings (Some s))) d = l"
proof -
  from assms have "kl_retention l \<in> set RETENTIONS" by (simp add: stored_ok_def)
  with assms(2) show ?thesis by (simp add: exportSettings_def map_logs_def NewRetention_def)
qed

lemma map_security_exported:
  "kg_security s = Some c \<Longrightarrow> map_security (es_security (exportSettings (Some s))) d = c"
  by (simp add: exportSettings_def map_security_def)

lemma roundtrip_facts:
  assumes ok: "stored_ok cat env s" and p: "kf_settings p = Some s"
  defines "s' \<equiv> importedSettings cat env (exportProfile p)"
  shows "kg_privacy s' = kg_privacy s \<and> kg_security s' = kg_security s \<and> kg_logs s' = kg_logs s \<and>
         kg_blockGroups s' = kg_blockGroups s \<and> kg_allowGroups s' = kg_allowGroups s \<and>
         map rule_content (display_order (kg_customRules s')) = map rule_content (display_order (kg_customRules s)) \<and>
         map_option kt_enabled (kg_statistics s') = map_option kt_enabled (kg_statistics s) \<and>
         map_option kt_retention (kg_statistics s') = Some ''30d'' \<and> kg_recursor s' = ''knot'' \<and>
         catalog_warnings cat (exportProfile p) = [] \<and> cap_warnings nm (exportProfile p) = []"
proof -
  obtain pv sc lg st where parts: "kg_privacy s = Some pv" "kg_security s = Some sc" "kg_logs s = Some lg" "kg_statistics s = Some st"
    using ok by (auto simp: stored_ok_def split: option.splits)
  let ?es = "exportSettings (Some s)"
  have es: "ep_settings (exportProfile p) = Some ?es" by (simp add: exportProfile_def p)
  have pe: "es_privacy ?es = Some \<lparr>ev_blocklists = kp_blocklists pv,
               ev_blocklistsSubdomainsRule = omitempty (kp_blocklistsSubdomainsRule pv),
               ev_customRulesSubdomainsRule = omitempty (kp_customRulesSubdomainsRule pv),
               ev_defaultRule = omitempty (kp_defaultRule pv), ev_services = kp_services pv\<rparr>"
    by (simp add: exportSettings_def parts)
  have te: "es_statistics ?es = Some \<lparr>et_enabled = Some (kt_enabled st)\<rparr>" by (simp add: exportSettings_def parts)
  have re: "exported_rules (exportProfile p) = map export_rule (display_order (kg_customRules s))"
    by (simp add: exported_rules_def es) (simp add: exportSettings_def)
  have groups: "length (kg_blockGroups s) \<le> ExportedCustomRuleGroupsLimit" "length (kg_allowGroups s) \<le> ExportedCustomRuleGroupsLimit"
    and rules: "list_all (rule_ok env) (display_order (kg_customRules s))" using ok by (simp_all add: stored_ok_def)
  note caps = cap_within [OF groups(1)] cap_within [OF groups(2)]
  note parts' = map_privacy_exported [OF ok parts(1)] map_security_exported [OF parts(2)] map_logs_exported [OF ok parts(3)]
    imported_groups [OF ok] refs_kept [OF ok parts(1)]
  have "kg_privacy s' = Some pv" "kg_security s' = Some sc" "kg_logs s' = Some lg" "kg_recursor s' = ''knot''"
    "kg_blockGroups s' = kg_blockGroups s" "kg_allowGroups s' = kg_allowGroups s"
    "kg_customRules s' = map Some (mapped_rules env (exported_rules (exportProfile p)))"
    unfolding s'_def importedSettings_def Let_def es
    using parts' caps by (simp_all add: mapExportedSettings_def pe NewSettings_def)
  moreover have "map_option kt_enabled (kg_statistics s') = Some (kt_enabled st)" "map_option kt_retention (kg_statistics s') = Some ''30d''"
    unfolding s'_def importedSettings_def Let_def es
    by (simp_all add: mapExportedSettings_def pe te map_statistics_def NewSettings_def Let_def)
  moreover have "catalog_warnings cat (exportProfile p) = []"
    by (simp add: catalog_warnings_def es pe parts')
  moreover have "cap_warnings nm (exportProfile p) = []"
    by (simp add: cap_warnings_def es mapExportedSettings_def parts' caps)
  ultimately show ?thesis
    using parts by (simp add: re mapped_exported [OF rules] numbered_order numbered_content del: map_map)
qed

text \<open>
  Fact (exported_profile_imports_as_itself). Importing an exported profile gives back its
  settings: the block lists, services and filtering rules, the custom rules in their display order with
  notes and groups, the groups, the security switches and the log settings, without a warning. The
  recursor and the retention of the statistics are those of a new profile.
\<close>

theorem exported_profile_imports_as_itself:
  fixes cat :: catalogs and env :: import_env and p :: full_profile
  assumes "stored_ok cat env s" and "kf_settings p = Some s"
  defines "s' \<equiv> importedSettings cat env (exportProfile p)"
  shows "kg_privacy s' = kg_privacy s \<and> kg_security s' = kg_security s \<and> kg_logs s' = kg_logs s \<and>
         kg_blockGroups s' = kg_blockGroups s \<and> kg_allowGroups s' = kg_allowGroups s \<and>
         map rule_content (display_order (kg_customRules s')) = map rule_content (display_order (kg_customRules s)) \<and>
         map_option kt_enabled (kg_statistics s') = map_option kt_enabled (kg_statistics s) \<and>
         map_option kt_retention (kg_statistics s') = Some ''30d'' \<and> kg_recursor s' = ''knot'' \<and>
         catalog_warnings cat (exportProfile p) = [] \<and> cap_warnings nm (exportProfile p) = []"
  unfolding s'_def by (rule roundtrip_facts [OF assms(1,2)])


subsection \<open>Which exports can be imported\<close>

text \<open>
  What the API's own requests bound of a stored profile: the value, note and group of a rule, the name
  and comment of a group, the number of rules, the name of the profile and the enumerated settings. The
  enabling of block lists and services bounds the identifiers of one request only, and nothing bounds
  the number of groups of a list.
\<close>

definition stored_rule_bounded :: "stored_rule \<Rightarrow> bool" where
  "stored_rule_bounded r =
     (kr_action r \<in> {''block'', ''allow'', ''comment''} \<and> kr_value r \<noteq> [] \<and> length (kr_value r) \<le> 255 \<and>
      length (kr_note r) \<le> 80 \<and> length (kr_group r) \<le> 64)"

definition settings_bounded :: "stored_settings \<Rightarrow> bool" where
  "settings_bounded s =
     (pred_option (\<lambda>p. kp_defaultRule p \<in> {''block'', ''allow''} \<and> kp_blocklistsSubdomainsRule p \<in> {''block'', ''allow''} \<and>
        kp_customRulesSubdomainsRule p \<in> {'''', ''include'', ''exact''}) (kg_privacy s) \<and>
      list_all stored_rule_bounded (display_order (kg_customRules s)) \<and>
      length (display_order (kg_customRules s)) \<le> MAX_CUSTOM_RULES_PER_ACCOUNT \<and>
      list_all group_valid (kg_blockGroups s) \<and> list_all group_valid (kg_allowGroups s) \<and>
      pred_option (\<lambda>l. kl_retention l \<in> set RETENTIONS) (kg_logs s))"

definition profile_bounded :: "(string \<Rightarrow> bool) \<Rightarrow> full_profile \<Rightarrow> bool" where
  "profile_bounded safe_name p =
     (kf_name p \<noteq> [] \<and> length (kf_name p) \<le> MaxProfileNameLen \<and> safe_name (kf_name p) \<and>
      pred_option settings_bounded (kf_settings p))"

text \<open>
  What an import bounds of the lists of a profile: 100 groups per list, and 100 block lists and
  services, each named by 1 to 64 characters.
\<close>

definition settings_fit :: "stored_settings \<Rightarrow> bool" where
  "settings_fit s \<longleftrightarrow>
     length (kg_blockGroups s) \<le> ExportedCustomRuleGroupsLimit \<and>
     length (kg_allowGroups s) \<le> ExportedCustomRuleGroupsLimit \<and>
     pred_option (\<lambda>v. refs_valid (kp_blocklists v) \<and> refs_valid (kp_services v)) (kg_privacy s)"

definition lists_fit :: "full_profile \<Rightarrow> bool" where
  "lists_fit p = pred_option settings_fit (kf_settings p)"

lemma opt_ok_omitempty [simp]: "opt_ok P (omitempty v) \<longleftrightarrow> v = [] \<or> P v"
  by (simp add: opt_ok_def omitempty_def)

lemma exported_rules_valid:
  "list_all stored_rule_bounded rs \<Longrightarrow> list_all rule_valid (map export_rule rs)"
  by (auto simp: list_all_iff stored_rule_bounded_def rule_valid_def export_rule_def)

lemma exported_settings_valid:
  assumes "settings_bounded s"
  shows "settings_valid (exportSettings (Some s)) \<longleftrightarrow> settings_fit s"
proof -
  let ?es = "exportSettings (Some s)"
  have rules: "nullish (es_customRules ?es) [] = map export_rule (display_order (kg_customRules s))"
    by (simp add: exportSettings_def)
  have "pred_option groups_valid (es_customRuleGroups ?es) \<longleftrightarrow>
      length (kg_blockGroups s) \<le> ExportedCustomRuleGroupsLimit \<and> length (kg_allowGroups s) \<le> ExportedCustomRuleGroupsLimit"
    using assms by (auto simp: exportSettings_def groups_valid_def settings_bounded_def Let_def)
  moreover have "pred_option privacy_tags (es_privacy ?es) \<longleftrightarrow>
      pred_option (\<lambda>v. refs_valid (kp_blocklists v) \<and> refs_valid (kp_services v)) (kg_privacy s)"
    using assms by (cases "kg_privacy s") (auto simp: exportSettings_def privacy_tags_def settings_bounded_def)
  moreover have "pred_option (\<lambda>l. opt_ok (\<lambda>r. r \<in> set RETENTIONS) (el_retention l)) (es_logs ?es)"
    using assms by (cases "kg_logs s") (simp_all add: exportSettings_def settings_bounded_def)
  moreover have "es_advanced ?es = None" by (simp add: exportSettings_def)
  moreover have "list_all rule_valid (map export_rule (display_order (kg_customRules s)))"
    "length (map export_rule (display_order (kg_customRules s))) \<le> MAX_CUSTOM_RULES_PER_ACCOUNT"
    using assms exported_rules_valid by (simp_all add: settings_bounded_def)
  ultimately show ?thesis unfolding settings_valid_def settings_fit_def rules by auto
qed

lemma exported_profile_valid:
  assumes "profile_bounded safe_name p"
  shows "profile_valid safe_name (exportProfile p) \<longleftrightarrow> lists_fit p"
proof (cases "kf_settings p")
  case None
  with assms show ?thesis
    by (simp add: profile_bounded_def profile_valid_def exportProfile_def MaxProfileNameLen_def lists_fit_def opt_ok_def
        exportSettings_def settings_valid_def)
next
  case (Some s)
  with assms have "settings_bounded s" by (simp add: profile_bounded_def)
  from exported_settings_valid [OF this] Some assms show ?thesis
    by (simp add: profile_bounded_def profile_valid_def exportProfile_def MaxProfileNameLen_def lists_fit_def opt_ok_def)
qed

lemma Export_Inr:
  assumes "Export env now stamp req otp srv = (Inr e, srv')"
  obtains acc ps where
    "Verify env now TokenTypeReauthProfileExport (xr_current_password req) (xr_reauth_token req) otp (xs_account srv) = Inr acc"
    "enumerateExportProfiles (xs_max srv) (xs_accountId srv) (xs_profiles srv) (xr_scope req) (nullish (xr_profile_ids req) []) = Inr ps"
    "e = \<lparr>ee_exportedAt = stamp, ee_kind = ''moddns-export'', ee_profiles = map exportProfile ps, ee_schemaVersion = 1\<rparr>"
    "srv' = srv\<lparr>xs_account := acc\<rparr>"
  using assms that by (auto simp: Export_def Let_def split: sum.splits)

lemma fetched:
  "fetch_selected accountId db ids = Inr ps \<Longrightarrow>
     map kf_profileId ps = ids \<and> (\<forall>p \<in> set ps. p \<in> set db \<and> kf_accountId p = accountId)"
proof (induction ids arbitrary: ps)
  case (Cons i ids)
  from Cons.prems obtain p qs where p: "validateProfileIdAffiliation accountId i db = Some p"
    "fetch_selected accountId db ids = Inr qs" "ps = p # qs" by (auto split: option.splits sum.splits)
  from p(1) have "List.find (\<lambda>p. kf_profileId p = i) db = Some p" "kf_accountId p = accountId"
    by (auto simp: validateProfileIdAffiliation_def split: option.splits if_splits)
  then have "kf_profileId p = i" "p \<in> set db" "kf_accountId p = accountId"
    by (auto simp: find_Some_iff)
  with Cons.IH [OF p(2)] p(3) show ?case by simp
qed simp

lemma enumerated:
  "enumerateExportProfiles maxp accountId db scope ids = Inr ps \<Longrightarrow>
     (\<forall>p \<in> set ps. p \<in> set db \<and> kf_accountId p = accountId) \<and>
     (if scope = ''all'' then ps = filter (\<lambda>p. kf_accountId p = accountId) db else map kf_profileId ps = ids)"
  by (auto simp: enumerateExportProfiles_def dest: fetched split: if_splits)



subsection \<open>What the import dialog announces\<close>

text \<open>The text for what a profile collects, from its stored settings.\<close>

definition collection_text :: "stored_settings \<Rightarrow> string option" where
  "collection_text s =
     (let counts = (case kg_statistics s of
                      None \<Rightarrow> []
                    | Some t \<Rightarrow> if kt_enabled t then [''query counts per device, kept for '' @ statsRetentionWords (Some (kt_retention t))] else []);
          records = (case kg_logs s of
                       None \<Rightarrow> []
                     | Some l \<Rightarrow>
                         if kl_enabled l then
                           let fields = (if kl_logDomains l then [''domain''] else [])
                                        @ (if kl_logClientsIPs l then [''client IP address''] else [])
                           in [''a record of each query'' @ (if fields \<noteq> [] then '' with its '' @ js_join '' and '' fields else '''') @
                               '', kept for '' @ LOGS_RETENTION_WORDS (parse_logs_retention (Some (kl_retention l)))]
                         else [])
      in if counts @ records \<noteq> [] then Some (js_join ''; '' (counts @ records)) else None)"

lemma map_logs_retention:
  "parse_logs_retention (Some (kl_retention (map_logs (Some l) (the (kg_logs NewSettings))))) = parse_logs_retention (el_retention l)"
  by (auto simp: map_logs_def NewRetention_def RETENTIONS_def NewSettings_def parse_logs_retention_def nullish_def
      split: option.splits)

text \<open>
  Fact (announced_collection_is_stored). What the import dialog announces for a profile of the
  file, the query counts and the log fields it will collect and for how long, is what the imported
  profile is set to collect.
\<close>

theorem announced_collection_is_stored:
  "importedCollection (ep_settings ep) = collection_text (importedSettings cat env ep)"
proof (cases "ep_settings ep")
  case None
  then show ?thesis
    by (simp add: importedCollection_def collection_text_def importedSettings_def mapExportedSettings_def NewSettings_def Let_def)
next
  case (Some es)
  let ?s = "importedSettings cat env ep"
  have logs: "kg_logs ?s = Some (map_logs (es_logs es) (the (kg_logs NewSettings)))"
    by (cases "es_privacy es") (simp_all add: importedSettings_def Some mapExportedSettings_def NewSettings_def Let_def)
  have stats: "kg_statistics ?s = Some (map_statistics (ie_now env) (es_statistics es) (the (kg_statistics NewSettings)))"
    by (cases "es_privacy es") (simp_all add: importedSettings_def Some mapExportedSettings_def NewSettings_def Let_def)
  show ?thesis
    unfolding collection_text_def logs stats
    by (cases "es_logs es"; cases "es_statistics es")
       (simp_all add: importedCollection_def Some map_statistics_def Let_def map_logs_retention,
        simp_all add: map_logs_def NewSettings_def)
qed


definition sample_stored :: stored_settings where
  "sample_stored = NewSettings
     \<lparr>kg_customRules := [Some \<lparr>kr_action = ''block'', kr_value = ''ads.example'', kr_note = [], kr_group = ''Ads'', kr_order = 1\<rparr>,
        Some \<lparr>kr_action = ''allow'', kr_value = ''shop.example'', kr_note = ''mine'', kr_group = [], kr_order = 0\<rparr>],
      kg_blockGroups := [\<lparr>cg_comment = None, cg_name = ''Ads''\<rparr>], kg_recursor := ''sdns''\<rparr>"

definition many_groups :: stored_settings where
  "many_groups = NewSettings
     \<lparr>kg_blockGroups := map (\<lambda>i. \<lparr>cg_comment = None, cg_name = CHR ''g'' # show_nat i\<rparr>) [0..<101]\<rparr>"

definition sample_full :: "stored_settings \<Rightarrow> full_profile" where
  "sample_full s = \<lparr>kf_profileId = ''p1'', kf_accountId = ''a1'', kf_name = ''Home'', kf_settings = Some s\<rparr>"

definition sample_catalogs :: catalogs where
  "sample_catalogs = \<lparr>ct_blocklist = (\<lambda>i. i = ''oisd''), ct_services = Some (\<lambda>i. False)\<rparr>"

definition sample_exports :: "stored_settings \<Rightarrow> export_server" where
  "sample_exports s = \<lparr>xs_account = token_account, xs_accountId = ''a1'', xs_profiles = [sample_full s], xs_max = 100\<rparr>"

definition sample_export_request :: RequestsExportRequest where
  "sample_export_request = \<lparr>xr_current_password = None, xr_profile_ids = None, xr_reauth_token = Some ''t2'', xr_scope = ''all''\<rparr>"

lemma sample_displayed:
  "display_order (kg_customRules sample_stored) =
     [\<lparr>kr_action = ''allow'', kr_value = ''shop.example'', kr_note = ''mine'', kr_group = [], kr_order = 0\<rparr>,
      \<lparr>kr_action = ''block'', kr_value = ''ads.example'', kr_note = [], kr_group = ''Ads'', kr_order = 1\<rparr>]"
  by (simp add: display_order_def sample_stored_def List.map_filter_simps)

lemma sample_stored_ok: "stored_ok sample_catalogs (import_env_failing None) sample_stored"
  unfolding stored_ok_def sample_displayed
  by (simp add: sample_stored_def NewSettings_def sample_catalogs_def RETENTIONS_def rule_ok_def
      NewCustomRuleAction_def import_env_failing_def ExportedCustomRuleGroupsLimit_def)

theorem exported_profile_imports_as_itself_witness:
  "map rule_content (display_order (kg_customRules
     (importedSettings sample_catalogs (import_env_failing None) (exportProfile (sample_full sample_stored))))) =
   [(''allow'', ''shop.example'', ''mine'', ''''), (''block'', ''ads.example'', '''', ''Ads'')]"
  using exported_profile_imports_as_itself [OF sample_stored_ok, of "sample_full sample_stored" "''Home''"]
  by (simp add: sample_full_def sample_displayed rule_content_def)

lemma many_bounded: "profile_bounded (\<lambda>_. True) (sample_full many_groups)"
proof -
  have "length (show_nat i) \<le> 3" if "i \<in> {0..<101}" for i using that by (intro show_nat_short) simp
  then have "list_all group_valid (kg_blockGroups many_groups)"
    by (fastforce simp: many_groups_def list_all_iff group_valid_def opt_ok_def)
  moreover have "display_order (kg_customRules many_groups) = []"
    by (simp add: display_order_def many_groups_def NewSettings_def List.map_filter_simps)
  ultimately show ?thesis
    by (simp add: profile_bounded_def sample_full_def settings_bounded_def MaxProfileNameLen_def)
       (simp add: many_groups_def NewSettings_def refs_valid_def RETENTIONS_def)
qed

lemma sample_export_runs:
  "\<exists>srv'. Export sample_env 10 ''2025-01-01'' sample_export_request '''' (sample_exports s) =
     (Inr \<lparr>ee_exportedAt = ''2025-01-01'', ee_kind = ''moddns-export'', ee_profiles = [exportProfile (sample_full s)],
           ee_schemaVersion = 1\<rparr>, srv')"
  by (simp add: Export_def Verify_def verifyOnLoadedAccount_def sample_export_request_def sample_exports_def token_account_def
      TokenTypeReauthProfileExport_def enumerateExportProfiles_def sample_full_def)


end
