(* ===== verification/ExportDialog.thy ===== *)
theory ExportDialog
  imports ImportDialog ExportApi
begin

text \<open>
  The export dialog (app/src/components/dialogs/ExportProfilesDialog.tsx) with its hook
  (app/src/hooks/useProfileExport.ts), and a backup as a whole: the export of one account imported into
  another.

  The downloaded files are a list in the state. The answer's body is the envelope; that the browser
  saves the bytes it received is not modelled. An error body that is not JSON has no error text.
\<close>

subsection \<open>The name of the file\<close>

text \<open>
  The first match of \<open>/filename="?([^";\s]+)"?/\<close>. A match starts at \<open>filename=\<close>; without a quote to
  skip, or when nothing follows the quote, the quote itself does not belong to the class.
\<close>

definition name_char :: "char \<Rightarrow> bool" where
  "name_char c = (c \<noteq> CHR 34 \<and> c \<noteq> CHR '';'' \<and> \<not> js_space c)"

fun disposition_filename :: "string \<Rightarrow> string option" where
  "disposition_filename [] = None"
| "disposition_filename (c # cs) =
     (if js_startsWith (c # cs) ''filename='' then
        (let r = drop (length ''filename='') (c # cs);
             w = takeWhile name_char (if r \<noteq> [] \<and> hd r = CHR 34 then tl r else r)
         in if w \<noteq> [] then Some w else disposition_filename cs)
      else disposition_filename cs)"

text \<open>\<open>stamp\<close> is the clock as an ISO text with \<open>:\<close> and \<open>.\<close> replaced.\<close>

definition export_filename :: "string \<Rightarrow> string option \<Rightarrow> string" where
  "export_filename stamp disposition =
     nullish (disposition_filename (nullish disposition [])) (''moddns-export-'' @ stamp @ ''.moddns.json'')"

text \<open>What the API sends as \<open>Content-Disposition\<close>; \<open>utc\<close> is its clock.\<close>

definition content_disposition :: "string \<Rightarrow> string" where
  "content_disposition utc = ''attachment; filename='' @ CHR 34 # ''moddns-export-'' @ utc @ ''.moddns.json'' @ [CHR 34]"

lemma filename_found:
  assumes "list_all name_char utc"
  shows "disposition_filename (content_disposition utc) = Some (''moddns-export-'' @ utc @ ''.moddns.json'')"
proof -
  have "takeWhile name_char (''moddns-export-'' @ utc @ ''.moddns.json'' @ [CHR 34]) = ''moddns-export-'' @ utc @ ''.moddns.json''"
    using assms by (simp add: takeWhile_append2 list_all_iff) (simp add: name_char_def js_space_def)
  then show ?thesis
    by (simp add: content_disposition_def js_startsWith_def Let_def)
qed

subsection \<open>The dialog\<close>

datatype export_scope = AllProfiles | SelectedProfiles

record export_dialog =
  xd_open :: bool
  xd_scope :: export_scope
  xd_selectedIds :: "string list"
  xd_method :: VerificationMethod
  xd_currentPassword :: string
  xd_otp :: string
  xd_reauthToken :: "string option"
  xd_reauthStatus :: reauth_status
  xd_isExporting :: bool
  xd_passkeys :: bool
  xd_auth :: auth
  xd_downloads :: "(string \<times> ModelExportEnvelope) list"

abbreviation xd_store :: "export_dialog \<Rightarrow> AppState" where
  "xd_store d \<equiv> au_store (xd_auth d)"

definition export_toast :: "toast_level \<Rightarrow> string \<Rightarrow> export_dialog \<Rightarrow> export_dialog" where
  "export_toast lvl msg d = d\<lparr>xd_auth := add_toast lvl msg (xd_auth d)\<rparr>"

definition export_otp :: "export_dialog \<Rightarrow> bool" where
  "export_otp d = showOtp (app_account (xd_store d)) (xd_method d)"

definition export_pw_available :: "export_dialog \<Rightarrow> bool" where
  "export_pw_available d = passwordAvailable (app_account (xd_store d))"

definition exportMethodChange :: "export_dialog \<Rightarrow> export_dialog" where
  "exportMethodChange d = d\<lparr>xd_currentPassword := [], xd_otp := [], xd_reauthToken := None, xd_reauthStatus := Idle\<rparr>"

definition set_export_method :: "VerificationMethod \<Rightarrow> export_dialog \<Rightarrow> export_dialog" where
  "set_export_method m d = (if m = xd_method d then d else exportMethodChange (d\<lparr>xd_method := m\<rparr>))"

definition export_reset :: "export_dialog \<Rightarrow> export_dialog" where
  "export_reset d =
     (set_export_method (preferredMethod (xd_passkeys d) (export_pw_available d)) d)
       \<lparr>xd_scope := AllProfiles, xd_selectedIds := [], xd_currentPassword := [], xd_otp := [],
        xd_reauthToken := None, xd_reauthStatus := Idle\<rparr>"

definition handleExportOpenChange :: "bool \<Rightarrow> export_dialog \<Rightarrow> export_dialog" where
  "handleExportOpenChange next_open d = (if next_open then d else export_reset d)\<lparr>xd_open := next_open\<rparr>"

definition beginExportReauth :: "export_dialog \<Rightarrow> export_dialog" where
  "beginExportReauth d =
     (if xd_reauthStatus d = InProgress \<or> xd_reauthStatus d = Verified then d else d\<lparr>xd_reauthStatus := InProgress\<rparr>)"

definition exportReauthDone :: "string + string \<Rightarrow> export_dialog \<Rightarrow> export_dialog" where
  "exportReauthDone answer d =
     (case answer of
        Inr token \<Rightarrow>
          export_toast TSuccess ''Identity verified via passkey''
            (d\<lparr>xd_currentPassword := [], xd_reauthToken := Some token, xd_reauthStatus := Verified\<rparr>)
      | Inl msg \<Rightarrow>
          export_toast TError (if msg = [] then ''Passkey verification failed'' else msg) (d\<lparr>xd_reauthStatus := ReauthError\<rparr>))"

definition exportReauthComplete :: "export_dialog \<Rightarrow> bool" where
  "exportReauthComplete d =
     (if xd_method d = Passkey then xd_reauthStatus d = Verified
      else js_trim (xd_currentPassword d) \<noteq> [] \<and> (\<not> export_otp d \<or> js_trim (xd_otp d) \<noteq> []))"

definition isScopeValid :: "export_dialog \<Rightarrow> bool" where
  "isScopeValid d = (xd_scope d = AllProfiles \<or> xd_selectedIds d \<noteq> [])"

definition exportDisabled :: "export_dialog \<Rightarrow> bool" where
  "exportDisabled d = (\<not> exportReauthComplete d \<or> \<not> isScopeValid d \<or> xd_isExporting d)"

fun scope_text :: "export_scope \<Rightarrow> string" where
  "scope_text AllProfiles = ''all''"
| "scope_text SelectedProfiles = ''selected''"

text \<open>The request of the hook: its body and the one-time code of its header.\<close>

definition export_request :: "export_dialog \<Rightarrow> RequestsExportRequest \<times> string" where
  "export_request d =
     (let currentPassword = (if xd_method d = Password then Some (xd_currentPassword d) else None);
          otp = (if xd_method d = Password \<and> export_otp d then Some (xd_otp d) else None)
      in (\<lparr>xr_current_password = currentPassword,
           xr_profile_ids = (if xd_scope d = SelectedProfiles then Some (xd_selectedIds d) else None),
           xr_reauth_token = (if xd_method d = Passkey then xd_reauthToken d else None),
           xr_scope = scope_text (xd_scope d)\<rparr>,
          if currentPassword \<noteq> None \<and> truthy_str otp then the otp else ''''))"

text \<open>The count of the success message is computed with the values of the press.\<close>

definition export_count :: "export_dialog \<Rightarrow> nat" where
  "export_count d =
     (if xd_scope d = SelectedProfiles then length (xd_selectedIds d) else length (app_profiles (xd_store d)))"

definition handleExport :: "export_dialog \<Rightarrow> ((RequestsExportRequest \<times> string) \<times> nat \<times> export_dialog) option" where
  "handleExport d =
     (if exportDisabled d then None else Some (export_request d, export_count d, d\<lparr>xd_isExporting := True\<rparr>))"

definition exported_text :: "nat \<Rightarrow> string" where
  "exported_text n = ''Exported '' @ show_nat n @ '' profile'' @ (if n = 1 then '''' else ''s'')"

definition EXPORT_FAILED :: string where "EXPORT_FAILED = ''Export failed. Please try again.''"

text \<open>The answer: the header and the file, or a failure, which passes the interceptor first.\<close>

definition exportDone ::
  "string \<Rightarrow> string \<Rightarrow> nat \<Rightarrow> thrown + string option \<times> ModelExportEnvelope \<Rightarrow> export_dialog \<Rightarrow> export_dialog" where
  "exportDone origin stamp cnt answer d =
     (case answer of
        Inr (disposition, file) \<Rightarrow>
          handleExportOpenChange False
            (export_toast TSuccess (exported_text cnt)
              (d\<lparr>xd_isExporting := False, xd_downloads := xd_downloads d @ [(export_filename stamp disposition, file)]\<rparr>))
      | Inl err \<Rightarrow>
          export_toast TError (nullish (thrown_error err) EXPORT_FAILED)
            (d\<lparr>xd_isExporting := False, xd_auth := call_failed origin (thrown_status err) None (xd_auth d)\<rparr>))"

text \<open>
  The store may change under the open dialog: a background refresh replaces the account and the
  profiles, and the method follows the account.
\<close>

definition store_changed :: "AppState \<Rightarrow> bool \<Rightarrow> export_dialog \<Rightarrow> export_dialog" where
  "store_changed s passkeys d =
     (let d1 = d\<lparr>xd_passkeys := passkeys, xd_auth := (xd_auth d)\<lparr>au_store := s\<rparr>\<rparr>
      in set_export_method (method_effect (xd_open d) passkeys (export_pw_available d1) (xd_method d)) d1)"

datatype export_event =
    XOpen | XClose | XScope export_scope | XSelectAll | XToggle string | XTypePw string | XTypeCode string
  | XMethod VerificationMethod | XStartPasskey | XPasskeyAnswer "string + string" | XSubmit
  | XAnswer nat "thrown + string option \<times> ModelExportEnvelope" | XStore AppState bool

text \<open>
  The rows of the list are the profiles of the store; a row is checked when its id is selected. The
  fields and buttons exist only while the dialog is open.
\<close>

fun export_event_step :: "string \<Rightarrow> string \<Rightarrow> export_dialog \<Rightarrow> export_event \<Rightarrow> export_dialog" where
  "export_event_step origin stamp d XOpen = handleExportOpenChange True d"
| "export_event_step origin stamp d XClose = handleExportOpenChange False d"
| "export_event_step origin stamp d (XScope sc) = d\<lparr>xd_scope := sc\<rparr>"
| "export_event_step origin stamp d XSelectAll =
     d\<lparr>xd_selectedIds := list_select_all (map pf_profile_id (app_profiles (xd_store d))) (xd_selectedIds d)\<rparr>"
| "export_event_step origin stamp d (XToggle i) =
     (if i \<in> pf_profile_id ` set (app_profiles (xd_store d))
      then d\<lparr>xd_selectedIds := list_toggle i (i \<notin> set (xd_selectedIds d)) (xd_selectedIds d)\<rparr> else d)"
| "export_event_step origin stamp d (XTypePw s) = d\<lparr>xd_currentPassword := s\<rparr>"
| "export_event_step origin stamp d (XTypeCode s) = d\<lparr>xd_otp := s\<rparr>"
| "export_event_step origin stamp d (XMethod m) =
     set_export_method (switchMethod (xd_passkeys d) (export_pw_available d) m (xd_method d)) d"
| "export_event_step origin stamp d XStartPasskey = beginExportReauth d"
| "export_event_step origin stamp d (XPasskeyAnswer r) = exportReauthDone r d"
| "export_event_step origin stamp d XSubmit = (case handleExport d of None \<Rightarrow> d | Some (_, _, d') \<Rightarrow> d')"
| "export_event_step origin stamp d (XAnswer n r) = (if xd_isExporting d then exportDone origin stamp n r d else d)"
| "export_event_step origin stamp d (XStore s passkeys) = store_changed s passkeys d"

fun needs_dialog :: "export_event \<Rightarrow> bool" where
  "needs_dialog XOpen = False"
| "needs_dialog (XPasskeyAnswer _) = False"
| "needs_dialog (XAnswer _ _) = False"
| "needs_dialog (XStore _ _) = False"
| "needs_dialog _ = True"

definition export_step :: "string \<Rightarrow> string \<Rightarrow> export_dialog \<Rightarrow> export_event \<Rightarrow> export_dialog" where
  "export_step origin stamp d e = (if needs_dialog e \<and> \<not> xd_open d then d else export_event_step origin stamp d e)"

definition init_export :: "bool \<Rightarrow> auth \<Rightarrow> export_dialog" where
  "init_export passkeys a =
     \<lparr>xd_open = False, xd_scope = AllProfiles, xd_selectedIds = [],
      xd_method = preferredMethod passkeys (passwordAvailable (app_account (au_store a))), xd_currentPassword = [],
      xd_otp = [], xd_reauthToken = None, xd_reauthStatus = Idle, xd_isExporting = False, xd_passkeys = passkeys,
      xd_auth = a, xd_downloads = []\<rparr>"

subsection \<open>What the dialog holds\<close>

definition export_ok :: "export_dialog \<Rightarrow> bool" where
  "export_ok d \<longleftrightarrow>
     (xd_reauthStatus d = Verified \<longrightarrow> xd_reauthToken d \<noteq> None) \<and>
     (\<not> xd_open d \<longrightarrow> xd_currentPassword d = [] \<and> xd_otp d = [] \<and> xd_selectedIds d = [] \<and> xd_scope d = AllProfiles) \<and>
     (xd_method d = Passkey \<longrightarrow> xd_passkeys d)"

lemma set_export_method_simps [simp]:
  "xd_open (set_export_method m d) = xd_open d" "xd_scope (set_export_method m d) = xd_scope d"
  "xd_selectedIds (set_export_method m d) = xd_selectedIds d" "xd_method (set_export_method m d) = m"
  "xd_isExporting (set_export_method m d) = xd_isExporting d" "xd_passkeys (set_export_method m d) = xd_passkeys d"
  "xd_auth (set_export_method m d) = xd_auth d" "xd_downloads (set_export_method m d) = xd_downloads d"
  by (simp_all add: set_export_method_def exportMethodChange_def)

lemma set_export_method_token:
  "(xd_reauthStatus d = Verified \<longrightarrow> xd_reauthToken d \<noteq> None) \<Longrightarrow>
   xd_reauthStatus (set_export_method m d) = Verified \<longrightarrow> xd_reauthToken (set_export_method m d) \<noteq> None"
  by (simp add: set_export_method_def exportMethodChange_def)

lemma set_export_method_fields:
  "xd_currentPassword d = [] \<Longrightarrow> xd_currentPassword (set_export_method m d) = []"
  "xd_otp d = [] \<Longrightarrow> xd_otp (set_export_method m d) = []"
  by (simp_all add: set_export_method_def exportMethodChange_def)

lemma passkey_available:
  "preferredMethod hp pa = Passkey \<Longrightarrow> hp" "method_effect is_open hp pa m = Passkey \<Longrightarrow> hp"
  "switchMethod hp pa m prev = Passkey \<Longrightarrow> (prev = Passkey \<Longrightarrow> hp) \<Longrightarrow> hp"
  by (auto simp: preferredMethod_def method_effect_def switchMethod_def isMethodAvailable_def split: if_splits)

lemma export_reset_ok: "export_ok ((export_reset d)\<lparr>xd_open := b\<rparr>)"
  using passkey_available(1) by (auto simp: export_ok_def export_reset_def)

lemma export_toast_ok [simp]: "export_ok (export_toast lvl msg d) = export_ok d"
  by (simp add: export_ok_def export_toast_def)

lemma export_step_ok:
  assumes ok: "export_ok d"
  shows "export_ok (export_step origin stamp d e)"
proof (cases "needs_dialog e \<and> \<not> xd_open d")
  case True
  with ok show ?thesis by (simp add: export_step_def)
next
  case False
  then have step: "export_step origin stamp d e = export_event_step origin stamp d e" by (auto simp: export_step_def)
  show ?thesis unfolding step
  proof (cases e)
    case XOpen
    with ok show "export_ok (export_event_step origin stamp d e)" by (simp add: handleExportOpenChange_def export_ok_def)
  next
    case XClose
    then show "export_ok (export_event_step origin stamp d e)" by (simp add: handleExportOpenChange_def export_reset_ok)
  next
    case (XMethod m)
    with False have "xd_open d" by simp
    moreover have "xd_passkeys d" if "switchMethod (xd_passkeys d) (export_pw_available d) m (xd_method d) = Passkey"
      using that passkey_available(3) [OF that] ok by (auto simp: export_ok_def)
    ultimately show "export_ok (export_event_step origin stamp d e)"
      using XMethod ok set_export_method_token by (auto simp: export_ok_def)
  next
    case (XPasskeyAnswer r)
    with ok show "export_ok (export_event_step origin stamp d e)"
      by (cases r) (simp_all add: exportReauthDone_def, simp_all add: export_ok_def)
  next
    case XSubmit
    with ok show "export_ok (export_event_step origin stamp d e)" by (simp add: handleExport_def export_ok_def)
  next
    case (XAnswer n r)
    with ok show "export_ok (export_event_step origin stamp d e)"
      by (cases r) (auto simp: exportDone_def handleExportOpenChange_def export_reset_ok, simp_all add: export_ok_def)
  next
    case (XStore s passkeys)
    let ?d1 = "d\<lparr>xd_passkeys := passkeys, xd_auth := (xd_auth d)\<lparr>au_store := s\<rparr>\<rparr>"
    let ?m = "method_effect (xd_open d) passkeys (export_pw_available ?d1) (xd_method d)"
    have "?m = Passkey \<Longrightarrow> passkeys" by (rule passkey_available(2))
    moreover have "xd_reauthStatus ?d1 = Verified \<longrightarrow> xd_reauthToken ?d1 \<noteq> None" using ok by (simp add: export_ok_def)
    note set_export_method_token [OF this, of ?m]
    moreover have "\<not> xd_open d \<longrightarrow> xd_currentPassword ?d1 = [] \<and> xd_otp ?d1 = []" using ok by (simp add: export_ok_def)
    ultimately show "export_ok (export_event_step origin stamp d e)"
      using ok set_export_method_fields [of ?d1 ?m] XStore by (auto simp: export_ok_def store_changed_def Let_def)
  qed (use ok False in \<open>auto simp: export_ok_def beginExportReauth_def\<close>)
qed

interpretation export_machine: machine "export_step origin stamp" export_ok
  by unfold_locales (rule export_step_ok)

lemma init_export_ok: "export_ok (init_export passkeys a)"
  using passkey_available(1) by (auto simp: export_ok_def init_export_def)

lemma export_reachable: "export_ok (foldl (export_step origin stamp) (init_export passkeys a) es)"
  by (rule export_machine.run_inv [OF init_export_ok])

subsection \<open>The request\<close>

lemma handleExport_Some:
  assumes "handleExport d = Some (r, n, d1)"
  shows "r = export_request d \<and> \<not> exportDisabled d \<and> n = export_count d \<and> d1 = d\<lparr>xd_isExporting := True\<rparr>"
  using assms by (auto simp: handleExport_def split: if_splits)

lemma export_request_facts:
  assumes "export_ok d" and "handleExport d = Some ((req, otp), n, d1)"
  shows "(xr_current_password req = None) \<noteq> (xr_reauth_token req = None) \<and> scope_error req = None \<and>
         (otp \<noteq> [] \<longrightarrow> xr_current_password req \<noteq> None \<and> export_otp d) \<and>
         (xr_current_password req \<noteq> None \<and> export_otp d \<longrightarrow> otp \<noteq> [])"
proof -
  from handleExport_Some [OF assms(2)] have r: "(req, otp) = export_request d" and en: "\<not> exportDisabled d" by simp_all
  then have ready: "exportReauthComplete d" "isScopeValid d" by (simp_all add: exportDisabled_def)
  have "(xr_current_password req = None) \<noteq> (xr_reauth_token req = None)"
    using r ready(1) assms(1) by (cases "xd_method d") (auto simp: export_request_def Let_def exportReauthComplete_def export_ok_def)
  moreover have "scope_error req = None"
    using r ready(2) by (cases "xd_scope d") (auto simp: export_request_def Let_def isScopeValid_def scope_error_def)
  moreover have "xd_method d = Password \<and> export_otp d \<longrightarrow> xd_otp d \<noteq> []"
    using ready(1) by (auto simp: exportReauthComplete_def js_trim_def)
  then have "xr_current_password req \<noteq> None \<and> export_otp d \<longrightarrow> otp \<noteq> []" "otp \<noteq> [] \<longrightarrow> xr_current_password req \<noteq> None \<and> export_otp d"
    using r by (auto simp: export_request_def Let_def split: if_splits)
  ultimately show ?thesis by blast
qed

text \<open>
  Fact (export_dialog_well_formed). Whatever the user does and whatever arrives, a closed export
  dialog keeps no password, code or selection, and a request it sends has exactly one credential, a
  one-time code exactly when the account needs one for its password, and profile ids exactly when the
  scope asks for them, so that the API's check of the scope never fails.
\<close>

theorem export_dialog_well_formed:
  fixes a :: auth and es :: "export_event list" and origin stamp :: string and passkeys :: bool
  defines "d \<equiv> foldl (export_step origin stamp) (init_export passkeys a) es"
  shows "(xd_open d \<or> (xd_currentPassword d = [] \<and> xd_otp d = [] \<and> xd_selectedIds d = [])) \<and>
         (\<forall>req otp n d1. handleExport d = Some ((req, otp), n, d1) \<longrightarrow>
            (xr_current_password req = None) \<noteq> (xr_reauth_token req = None) \<and> scope_error req = None \<and>
            (xr_current_password req \<noteq> None \<and> export_otp d \<longleftrightarrow> otp \<noteq> []))"
proof -
  have ok: "export_ok d" unfolding d_def by (rule export_reachable)
  then have "xd_open d \<or> (xd_currentPassword d = [] \<and> xd_otp d = [] \<and> xd_selectedIds d = [])"
    by (auto simp: export_ok_def)
  moreover have "(xr_current_password req = None) \<noteq> (xr_reauth_token req = None) \<and> scope_error req = None \<and>
            (xr_current_password req \<noteq> None \<and> export_otp d \<longleftrightarrow> otp \<noteq> [])"
    if "handleExport d = Some ((req, otp), n, d1)" for req otp n d1
    using export_request_facts [OF ok that] by metis
  then have "\<forall>req otp n d1. handleExport d = Some ((req, otp), n, d1) \<longrightarrow>
      (xr_current_password req = None) \<noteq> (xr_reauth_token req = None) \<and> scope_error req = None \<and>
            (xr_current_password req \<noteq> None \<and> export_otp d \<longleftrightarrow> otp \<noteq> [])" by (intro allI impI)
  ultimately show ?thesis by (rule conjI)
qed

theorem export_dialog_well_formed_witness:
  "let d = foldl (export_step ''https://app'' ''now'') (init_export False sample_auth) [XOpen, XTypePw ''pw'']
   in \<exists>req otp n d1. handleExport d = Some ((req, otp), n, d1) \<and> scope_error req = None"
proof -
  let ?d = "foldl (export_step ''https://app'' ''now'') (init_export False sample_auth) [XOpen, XTypePw ''pw'']"
  have "js_trim ''pw'' \<noteq> []" by code_simp
  then have "\<not> exportDisabled ?d"
    by (simp add: export_step_def handleExportOpenChange_def init_export_def sample_auth_def initial_store_def
        passwordAvailable_def preferredMethod_def exportDisabled_def exportReauthComplete_def export_otp_def showOtp_def
        isScopeValid_def truthy_bool_def)
  then obtain req otp n d1 where "handleExport ?d = Some ((req, otp), n, d1)"
    by (cases "export_request ?d") (simp add: handleExport_def)
  with export_dialog_well_formed [of "''https://app''" "''now''" False sample_auth "[XOpen, XTypePw ''pw'']"]
  show ?thesis unfolding Let_def by blast
qed

subsection \<open>A backup\<close>

text \<open>
  The settings \<open>s'\<close> an import of an export of \<open>s\<close> stores. The retention of the statistics and
  the recursor are not in the file: the imported profile has those of a new profile.
\<close>

definition restored_settings :: "stored_settings \<Rightarrow> stored_settings \<Rightarrow> bool" where
  "restored_settings s s' \<longleftrightarrow>
     kg_privacy s' = kg_privacy s \<and> kg_security s' = kg_security s \<and> kg_logs s' = kg_logs s \<and>
     kg_blockGroups s' = kg_blockGroups s \<and> kg_allowGroups s' = kg_allowGroups s \<and>
     map rule_content (display_order (kg_customRules s')) = map rule_content (display_order (kg_customRules s)) \<and>
     map_option kt_enabled (kg_statistics s') = map_option kt_enabled (kg_statistics s) \<and>
     map_option kt_retention (kg_statistics s') = Some ''30d'' \<and> kg_recursor s' = ''knot''"

definition restored :: "catalogs \<Rightarrow> import_env \<Rightarrow> full_profile \<Rightarrow> stored_profile \<Rightarrow> bool" where
  "restored cat env p q \<longleftrightarrow> restored_settings (the (kf_settings p)) (importedSettings cat env (sp_from q))"

text \<open>
  Property C4 (backup_restores_profiles). A backup from end to end: a request the export dialog sends
  and the API accepts gives a file with exactly the chosen profiles of the account, in the order they
  were chosen, downloaded under the name the API gives it, while the dialog closes. An import of that
  file that is accepted, into any account with a limit below 998 profiles, adds exactly these profiles,
  in that order. Each has the block lists, services, filtering rules, custom rules with notes and groups,
  groups, security switches and log settings it was exported with, and its statistics on or off as they
  were, while the retention of the statistics and the recursor are those of a new profile: the file does
  not carry them. This holds of profiles whose block lists and services the catalogues of the importing
  server know, with a retention of the logs it knows, syntactically valid rules and at most 100 groups in
  a list (\<open>stored_ok\<close>); of others the import drops what it does not know, with a warning.
\<close>

theorem backup_restores_profiles:
  fixes d d1 d2 :: export_dialog and srv srv' :: export_server and target target' :: import_server and env :: import_env
    and origin iso utc otp2 :: string
  assumes "export_ok d" and "handleExport d = Some ((req, otp), n, d1)"
    and "exportProfiles lenv validation now stamp req otp srv = (Inr file, srv')"
    and "\<forall>p \<in> set (xs_profiles srv). kf_settings p \<noteq> None \<and> stored_ok cat env (the (kf_settings p))"
    and "list_all name_char utc"
    and "Import env ireq otp2 target = (Inr res, target')" and "ir_payload ireq = file" and "is_max target < 998"
  defines "d2 \<equiv> exportDone origin iso n (Inr (Some (content_disposition utc), file)) d1"
  shows "xd_downloads d2 = xd_downloads d @ [(''moddns-export-'' @ utc @ ''.moddns.json'', file)] \<and> \<not> xd_open d2 \<and>
         (\<exists>ps new. ee_profiles file = map exportProfile ps \<and>
            (case xd_scope d of
               AllProfiles \<Rightarrow> ps = filter (\<lambda>p. kf_accountId p = xs_accountId srv) (xs_profiles srv)
             | SelectedProfiles \<Rightarrow> map kf_profileId ps = xd_selectedIds d \<and>
                 set ps \<subseteq> {p \<in> set (xs_profiles srv). kf_accountId p = xs_accountId srv}) \<and>
            is_profiles target' = is_profiles target @ new \<and> list_all2 (restored cat env) ps new)"
proof -
  from handleExport_Some [OF assms(2)] have r: "(req, otp) = export_request d" and d1: "d1 = d\<lparr>xd_isExporting := True\<rparr>" by simp_all
  have shown: "xd_downloads d2 = xd_downloads d @ [(''moddns-export-'' @ utc @ ''.moddns.json'', file)] \<and> \<not> xd_open d2"
    using filename_found [OF assms(5)]
    by (simp add: d2_def d1 exportDone_def handleExportOpenChange_def export_reset_def export_toast_def export_filename_def nullish_def)
  have run: "Export lenv now stamp req otp srv = (Inr file, srv')"
    using assms(3) by (auto simp: exportProfiles_def split: option.splits if_splits)
  from Export_Inr [OF run] obtain ps where ps:
    "enumerateExportProfiles (xs_max srv) (xs_accountId srv) (xs_profiles srv) (xr_scope req) (nullish (xr_profile_ids req) []) = Inr ps"
    "ee_profiles file = map exportProfile ps" by (metis ModelExportEnvelope.select_convs(3))
  note en = enumerated [OF ps(1)]
  have chosen: "case xd_scope d of
               AllProfiles \<Rightarrow> ps = filter (\<lambda>p. kf_accountId p = xs_accountId srv) (xs_profiles srv)
             | SelectedProfiles \<Rightarrow> map kf_profileId ps = xd_selectedIds d \<and>
                 set ps \<subseteq> {p \<in> set (xs_profiles srv). kf_accountId p = xs_accountId srv}"
  proof -
    have "req = fst (export_request d)" using r by (metis fst_conv)
    then have "xr_scope req = scope_text (xd_scope d)"
      "xr_profile_ids req = (if xd_scope d = SelectedProfiles then Some (xd_selectedIds d) else None)"
      by (simp_all add: export_request_def Let_def)
    then have "case xd_scope d of
          AllProfiles \<Rightarrow> ps = filter (\<lambda>p. kf_accountId p = xs_accountId srv) (xs_profiles srv)
        | SelectedProfiles \<Rightarrow> map kf_profileId ps = xd_selectedIds d"
      using conjunct2 [OF en] by (cases "xd_scope d") (simp_all add: nullish_def)
    moreover have "set ps \<subseteq> {p \<in> set (xs_profiles srv). kf_accountId p = xs_accountId srv}" using conjunct1 [OF en] by blast
    ultimately show ?thesis by (cases "xd_scope d") simp_all
  qed
  have "\<exists>new. is_profiles target' = is_profiles target @ new \<and> map sp_from new = ee_profiles (ir_payload ireq)"
    using import_creates_facts [OF assms(6,8)] by (rule ex_forward) (elim conjE, intro conjI)
  then obtain new where added: "is_profiles target' = is_profiles target @ new"
    "map sp_from new = ee_profiles (ir_payload ireq)" by (elim exE conjE)
  note new = added(1) added(2) [unfolded assms(7) ps(2)]
  have "list_all2 (restored cat env) ps new"
  proof (rule list_all2_all_nthI)
    show len: "length ps = length new" using new(2) by (metis length_map)
    fix i assume i: "i < length ps"
    then have "sp_from (new ! i) = exportProfile (ps ! i)" using new(2) len by (metis nth_map)
    moreover have "ps ! i \<in> set (xs_profiles srv)" using en i by simp
    with assms(4) obtain s where "kf_settings (ps ! i) = Some s" "stored_ok cat env s" by force
    ultimately show "restored cat env (ps ! i) (new ! i)"
      using roundtrip_facts [of cat env s "ps ! i"] by (simp add: restored_def restored_settings_def)
  qed
  moreover have "xd_downloads d2 = xd_downloads d @ [(''moddns-export-'' @ utc @ ''.moddns.json'', file)]" "\<not> xd_open d2"
    by (rule conjunct1 [OF shown], rule conjunct2 [OF shown])
  ultimately show ?thesis
    using ps(2) chosen new(1) by blast
qed


definition sample_export_dialog :: export_dialog where
  "sample_export_dialog =
     (init_export True sample_auth)\<lparr>xd_open := True, xd_method := Passkey, xd_reauthToken := Some ''t2'', xd_reauthStatus := Verified\<rparr>"

lemma sample_export_ok: "export_ok sample_export_dialog"
  by (simp add: export_ok_def sample_export_dialog_def init_export_def)

lemma sample_export_sent:
  "handleExport sample_export_dialog =
     Some ((sample_export_request, ''''), 0, sample_export_dialog\<lparr>xd_isExporting := True\<rparr>)"
  by (simp add: handleExport_def exportDisabled_def exportReauthComplete_def isScopeValid_def export_request_def export_count_def
      sample_export_dialog_def init_export_def sample_export_request_def sample_auth_def initial_store_def)

definition sample_backup :: ModelExportEnvelope where
  "sample_backup = \<lparr>ee_exportedAt = ''2025-01-01'', ee_kind = ''moddns-export'',
     ee_profiles = [exportProfile (sample_full sample_stored)], ee_schemaVersion = 1\<rparr>"

definition backup_request :: RequestsImportRequest where
  "backup_request = sample_request\<lparr>ir_payload := sample_backup\<rparr>"

lemma sample_exports_answered:
  "\<exists>srv'. exportProfiles sample_env (\<lambda>_. None) 10 ''2025-01-01'' sample_export_request '''' (sample_exports sample_stored) =
     (Inr sample_backup, srv')"
proof -
  obtain srv' where "Export sample_env 10 ''2025-01-01'' sample_export_request '''' (sample_exports sample_stored) = (Inr sample_backup, srv')"
    using sample_export_runs [of sample_stored] unfolding sample_backup_def [symmetric] by blast
  then show ?thesis
    by (simp add: exportProfiles_def) (simp add: scope_error_def sample_export_request_def)
qed

lemma backup_import_runs: "\<exists>res srv'. Import (import_env_failing None) backup_request '''' sample_server = (Inr res, srv')"
proof -
  have "ir_current_password backup_request = ir_current_password sample_request" "ir_reauth_token backup_request = ir_reauth_token sample_request"
    by (simp_all add: backup_request_def)
  with sample_accepted [of None] obtain acc where
    acc: "Verify (ie_login (import_env_failing None)) (ie_now (import_env_failing None)) TokenTypeReauthProfileImport
     (ir_current_password backup_request) (ir_reauth_token backup_request) '''' (is_account sample_server) = Inr acc" by metis
  have "rules_of (exportProfile (sample_full sample_stored)) = 2"
    by (simp add: rules_of_def exported_rules_def exportProfile_def sample_full_def exportSettings_def sample_displayed)
  then have none: "import_refusal backup_request sample_server = None"
    by (simp add: import_refusal_def backup_request_def sample_backup_def sample_request_def sample_server_def MAX_CUSTOM_RULES_PER_ACCOUNT_def)
  have good: "\<forall>i. \<not> import_fails (import_env_failing None) (0 + i) (ee_profiles (ir_payload backup_request) ! i)"
    by (simp add: import_fails_def import_env_failing_def)
  show ?thesis
    unfolding import_accepted [OF acc none]
    using import_loop_runs [OF good, of "(NormalizeName \<circ> sp_name) ` set (is_profiles sample_server)"
        "[]" "[]" "stale_warning (import_env_failing None) backup_request" "is_profiles sample_server"]
    by (auto simp del: import_loop.simps)
qed

theorem backup_restores_profiles_witness:
  "\<exists>res target'. Import (import_env_failing None) backup_request '''' sample_server = (Inr res, target') \<and>
     (\<exists>new. is_profiles target' = is_profiles sample_server @ new \<and>
        list_all2 (restored sample_catalogs (import_env_failing None)) [sample_full sample_stored] new)"
proof -
  obtain res target' where run: "Import (import_env_failing None) backup_request '''' sample_server = (Inr res, target')"
    using backup_import_runs by blast
  obtain srv' where ex: "exportProfiles sample_env (\<lambda>_. None) 10 ''2025-01-01'' sample_export_request '''' (sample_exports sample_stored) =
     (Inr sample_backup, srv')" using sample_exports_answered by blast
  have ok: "\<forall>p \<in> set (xs_profiles (sample_exports sample_stored)). kf_settings p \<noteq> None \<and>
      stored_ok sample_catalogs (import_env_failing None) (the (kf_settings p))"
    using sample_stored_ok by (simp add: sample_exports_def sample_full_def)
  have utc: "list_all name_char ''20250101T000000Z''" by code_simp
  have payload: "ir_payload backup_request = sample_backup" by (simp add: backup_request_def)
  have "is_max sample_server < 998" by (simp add: sample_server_def)
  from backup_restores_profiles [OF sample_export_ok sample_export_sent ex ok utc run payload this, of "''https://app''" "''now''"]
  obtain ps new where "ps = filter (\<lambda>p. kf_accountId p = ''a1'') [sample_full sample_stored]"
    "is_profiles target' = is_profiles sample_server @ new" "list_all2 (restored sample_catalogs (import_env_failing None)) ps new"
    by (elim conjE exE) (rule that; simp add: sample_export_dialog_def init_export_def sample_exports_def)
  with run show ?thesis by (auto simp: sample_full_def)
qed


subsection \<open>A selection that is out of date\<close>

text \<open>
  Fact (stale_selection_spends_export_token). A profile that was deleted elsewhere stays selected,
  and its export is refused with a 404. The passkey verification it came with is spent all the same, and
  the dialog keeps showing it as verified with its button disabled: every later export, of whatever
  selection, is answered that the token is invalid, until the method is switched or the dialog closed.
\<close>

theorem stale_selection_spends_export_token:
  fixes d d1 d2 :: export_dialog and lenv :: login_env and srv srv' :: export_server and origin iso :: string
  assumes "handleExport d = Some ((req, otp), n, d1)" and "xd_method d = Passkey" and "xd_reauthToken d = Some token"
    and "xd_scope d = SelectedProfiles" and "i \<in> set (xd_selectedIds d)" and "i \<notin> kf_profileId ` set (xs_profiles srv)"
    and "length (xd_selectedIds d) \<le> xs_max srv"
    and "\<forall>r. validation r = None"
    and "Verify lenv now TokenTypeReauthProfileExport None (Some token) otp (xs_account srv) = Inr acc"
    and "exportProfiles lenv validation now stamp req otp srv = (answer, srv')"
  defines "d2 \<equiv> exportDone origin iso n (Inl resource_not_found) d1"
  shows "answer = Inl resource_not_found \<and> xd_reauthStatus d2 = Verified \<and> beginExportReauth d2 = d2 \<and>
         (\<forall>ids sc req2 otp2 n2 d3. handleExport (d2\<lparr>xd_scope := sc, xd_selectedIds := ids\<rparr>) = Some ((req2, otp2), n2, d3) \<longrightarrow>
            exportProfiles lenv validation now2 stamp req2 otp2 srv' = (Inl (api_error 400 ''invalid reauth token''), srv'))"
proof -
  from handleExport_Some [OF assms(1)] have req: "(req, otp) = export_request d" and en: "\<not> exportDisabled d"
    and d1: "d1 = d\<lparr>xd_isExporting := True\<rparr>" by simp_all
  have verified: "xd_reauthStatus d = Verified"
    using en assms(2) by (simp add: exportDisabled_def exportReauthComplete_def)
  have r: "xr_current_password req = None" "xr_reauth_token req = Some token" "xr_scope req = ''selected''"
    "xr_profile_ids req = Some (xd_selectedIds d)"
    using req assms(2-4) by (simp_all add: export_request_def Let_def)
  have "fetch_selected (xs_accountId srv) (xs_profiles srv) ids = Inl resource_not_found" if "i \<in> set ids" for ids
    using that
  proof (induction ids)
    case (Cons j ids)
    have "validateProfileIdAffiliation (xs_accountId srv) i (xs_profiles srv) = None"
      using assms(6) by (auto simp: validateProfileIdAffiliation_def find_Some_iff split: option.splits)
    with Cons show ?case by (auto split: option.splits)
  qed simp
  from this [OF assms(5)] have none: "enumerateExportProfiles (xs_max srv) (xs_accountId srv) (xs_profiles srv) ''selected'' (xd_selectedIds d) =
      Inl resource_not_found" using assms(7) by (simp add: enumerateExportProfiles_def)
  have "scope_error req = None" using assms(5) by (auto simp: scope_error_def r nullish_def Let_def)
  then have ans: "answer = Inl resource_not_found" "srv' = srv\<lparr>xs_account := acc\<rparr>"
    using assms(8-10) none by (simp_all add: exportProfiles_def Export_def r nullish_def Let_def)
  have keep: "xd_method d2 = Passkey" "xd_reauthToken d2 = Some token" "xd_reauthStatus d2 = Verified"
    using assms(2,3) verified by (simp_all add: d2_def exportDone_def export_toast_def d1)
  have spent: "Verify lenv now2 TokenTypeReauthProfileExport None (Some token) otp2 acc = Inl ErrInvalidReauthToken" for otp2
    using spent_token [OF assms(9)] by blast
  have "exportProfiles lenv validation now2 stamp req2 otp2 srv' = (Inl (api_error 400 ''invalid reauth token''), srv')"
    if again: "handleExport (d2\<lparr>xd_scope := sc, xd_selectedIds := ids\<rparr>) = Some ((req2, otp2), n2, d3)" for ids sc req2 otp2 n2 d3
  proof -
    let ?d = "d2\<lparr>xd_scope := sc, xd_selectedIds := ids\<rparr>"
    from handleExport_Some [OF again] have req2: "(req2, otp2) = export_request ?d" and en2: "\<not> exportDisabled ?d" by simp_all
    have r2: "xr_current_password req2 = None" "xr_reauth_token req2 = Some token"
      using req2 keep by (simp_all add: export_request_def Let_def)
    have "isScopeValid ?d" using en2 by (simp add: exportDisabled_def)
    then have "scope_error req2 = None"
      using req2 by (cases sc) (auto simp: export_request_def Let_def isScopeValid_def scope_error_def)
    with r2 assms(8) spent show ?thesis by (simp add: exportProfiles_def Export_def ans(2))
  qed
  with ans(1) keep show ?thesis by (simp add: beginExportReauth_def)
qed

definition stale_export :: export_dialog where
  "stale_export = sample_export_dialog\<lparr>xd_scope := SelectedProfiles, xd_selectedIds := [''p1'', ''gone'']\<rparr>"

theorem stale_selection_spends_export_token_witness:
  "\<exists>answer srv'. exportProfiles sample_env (\<lambda>_. None) 10 ''2025-01-01'' (fst (export_request stale_export)) ''''
      (sample_exports sample_stored) = (answer, srv') \<and> answer = Inl resource_not_found"
proof -
  let ?req = "fst (export_request stale_export)"
  have fields: "xd_method stale_export = Passkey" "xd_reauthToken stale_export = Some ''t2''" "xd_scope stale_export = SelectedProfiles"
    "xd_selectedIds stale_export = [''p1'', ''gone'']" "xd_reauthStatus stale_export = Verified" "\<not> xd_isExporting stale_export"
    by (simp_all add: stale_export_def sample_export_dialog_def init_export_def)
  then have sent: "handleExport stale_export = Some ((?req, ''''), 2, stale_export\<lparr>xd_isExporting := True\<rparr>)"
    by (simp add: handleExport_def exportDisabled_def exportReauthComplete_def isScopeValid_def export_request_def export_count_def)
  obtain acc where acc: "Verify sample_env 10 TokenTypeReauthProfileExport None (Some ''t2'') '''' (xs_account (sample_exports sample_stored)) = Inr acc"
    by (simp add: Verify_def verifyOnLoadedAccount_def sample_exports_def token_account_def TokenTypeReauthProfileExport_def)
  have gone: "''gone'' \<in> set (xd_selectedIds stale_export)" "''gone'' \<notin> kf_profileId ` set (xs_profiles (sample_exports sample_stored))"
    "length (xd_selectedIds stale_export) \<le> xs_max (sample_exports sample_stored)"
    by (simp_all add: fields sample_exports_def sample_full_def)
  obtain answer srv' where run: "exportProfiles sample_env (\<lambda>_. None) 10 ''2025-01-01'' ?req '''' (sample_exports sample_stored) = (answer, srv')"
    by fastforce
  have "\<forall>r. (\<lambda>_. None) r = None" by simp
  from stale_selection_spends_export_token [OF sent fields(1-3) gone this acc run]
  have "answer = Inl resource_not_found" by (rule conjunct1)
  with run show ?thesis by blast
qed

end
