(* ===== verification/SentryPrivacy.thy ===== *)
theory SentryPrivacy
  imports Prelude
begin

text \<open>
  What leaves the browser with an error report: app/src/lib/sentryPrivacy.ts and the replay switch of
  app/src/lib/sentryReplay.ts.

  A call that throws (\<open>decodeURIComponent\<close> on a malformed key) is \<open>None\<close>. A data record is a list of
  keys and values; a value that is not a string is left as it is. Of an event only the fields the
  functions touch are modelled, and \<open>err_rest\<close> stands for every other field of an error event.
\<close>

subsection \<open>Decoding a key\<close>

text \<open>
  \<open>decodeURIComponent\<close> gives code points, or throws on a broken escape or a sequence that is not UTF-8.
\<close>

definition hex_value :: "char \<Rightarrow> nat option" where
  "hex_value c =
     (let n = of_char c :: nat in
      if 48 \<le> n \<and> n \<le> 57 then Some (n - 48)
      else if 65 \<le> n \<and> n \<le> 70 then Some (n - 55)
      else if 97 \<le> n \<and> n \<le> 102 then Some (n - 87)
      else None)"

definition escaped_byte :: "string \<Rightarrow> (nat \<times> string) option" where
  "escaped_byte s =
     (case s of
        p # h # l # r \<Rightarrow>
          if p = CHR ''%'' then
            (case (hex_value h, hex_value l) of (Some a, Some b) \<Rightarrow> Some (16 * a + b, r) | _ \<Rightarrow> None)
          else None
      | _ \<Rightarrow> None)"

fun continuation :: "nat \<Rightarrow> nat \<Rightarrow> string \<Rightarrow> (nat \<times> string) option" where
  "continuation 0 acc s = Some (acc, s)"
| "continuation (Suc n) acc s =
     (case escaped_byte s of
        None \<Rightarrow> None
      | Some (b, r) \<Rightarrow> if 128 \<le> b \<and> b < 192 then continuation n (64 * acc + (b - 128)) r else None)"

text \<open>One escape: the code point and what is left.\<close>

definition utf8_escape :: "string \<Rightarrow> (nat \<times> string) option" where
  "utf8_escape s =
     (case escaped_byte s of
        None \<Rightarrow> None
      | Some (b, r) \<Rightarrow>
          if b < 128 then Some (b, r)
          else if 192 \<le> b \<and> b < 224 then
            (case continuation 1 (b - 192) r of Some (v, t) \<Rightarrow> if 128 \<le> v then Some (v, t) else None | None \<Rightarrow> None)
          else if 224 \<le> b \<and> b < 240 then
            (case continuation 2 (b - 224) r of
               Some (v, t) \<Rightarrow> if 2048 \<le> v \<and> \<not> (55296 \<le> v \<and> v < 57344) then Some (v, t) else None | None \<Rightarrow> None)
          else if 240 \<le> b \<and> b < 248 then
            (case continuation 3 (b - 240) r of
               Some (v, t) \<Rightarrow> if 65536 \<le> v \<and> v < 1114112 then Some (v, t) else None | None \<Rightarrow> None)
          else None)"

lemma escaped_byte_shorter: "escaped_byte s = Some (b, r) \<Longrightarrow> length r < length s"
  by (auto simp: escaped_byte_def split: list.splits if_splits option.splits)

lemma continuation_shorter: "continuation n acc s = Some (v, t) \<Longrightarrow> length t \<le> length s"
  by (induction n acc s arbitrary: v t rule: continuation.induct)
     (fastforce dest: escaped_byte_shorter split: option.splits prod.splits if_splits)+

lemma utf8_escape_shorter: "utf8_escape s = Some (v, t) \<Longrightarrow> length t < length s"
  by (fastforce simp: utf8_escape_def dest: escaped_byte_shorter continuation_shorter
      split: option.splits prod.splits if_splits)

function decodeURIComponent :: "string \<Rightarrow> nat list option" where
  "decodeURIComponent [] = Some []"
| "decodeURIComponent (c # s) =
     (if c = CHR ''%'' then
        (case utf8_escape (c # s) of
           None \<Rightarrow> None
         | Some (v, t) \<Rightarrow> map_option ((#) v) (decodeURIComponent t))
      else map_option ((#) (of_char c)) (decodeURIComponent s))"
  by pat_completeness auto
termination
  by (relation "measure length") (auto dest: utf8_escape_shorter)

text \<open>Lower case as far as it can make one of the names below, which are ASCII.\<close>

definition lower_point :: "nat \<Rightarrow> nat" where
  "lower_point n = (if 65 \<le> n \<and> n \<le> 90 then n + 32 else n)"

definition ID_PARAMS :: "string list" where
  "ID_PARAMS = [''device_id'', ''device'', ''profile_id'', ''profile'', ''id'']"

definition is_id_param :: "string \<Rightarrow> bool option" where
  "is_id_param k =
     map_option (\<lambda>ps. map lower_point ps \<in> set (map (map of_char) ID_PARAMS)) (decodeURIComponent k)"

subsection \<open>Scrubbing a URL\<close>

text \<open>\<open>[^/?#\s]\<close>, and the replacement of \<open>/(\/k\/)[^/?#\s]+/gi\<close>; \<open>kw\<close> is the keyword with its slashes.\<close>

definition id_char :: "char \<Rightarrow> bool" where
  "id_char c = (c \<noteq> CHR ''/'' \<and> c \<noteq> CHR ''?'' \<and> c \<noteq> CHR ''#'' \<and> \<not> js_space c)"

definition slashed :: "string \<Rightarrow> string" where
  "slashed k = CHR ''/'' # k @ ''/''"

function replace_ids :: "string \<Rightarrow> string \<Rightarrow> string \<Rightarrow> string" where
  "replace_ids k repl [] = []"
| "replace_ids k repl (c # s) =
     (let n = length (slashed k); head = take n (c # s); rest = drop n (c # s)
      in if js_toLowerCase head = slashed k \<and> takeWhile id_char rest \<noteq> []
         then head @ repl @ replace_ids k repl (dropWhile id_char rest)
         else c # replace_ids k repl s)"
  by pat_completeness auto
termination
  by (relation "measure (\<lambda>(_, _, s). length s)")
     (auto simp: slashed_def intro!: le_imp_less_Suc intro: order_trans [OF length_dropWhile_le])

declare replace_ids.simps(2) [simp del]

definition PROFILE_REPL :: string where "PROFILE_REPL = '':profile_id''"
definition DEVICE_REPL :: string where "DEVICE_REPL = '':device_id''"
definition FILTERED :: string where "FILTERED = ''[Filtered]''"

definition clean_path :: "string \<Rightarrow> string" where
  "clean_path path =
     replace_ids ''dns-query'' PROFILE_REPL (replace_ids ''devices'' DEVICE_REPL (replace_ids ''profiles'' PROFILE_REPL path))"

text \<open>\<open>split(c, 2)\<close> keeps the first two pieces and drops the others.\<close>

definition split2 :: "char \<Rightarrow> string \<Rightarrow> string \<times> string option" where
  "split2 c s = (case js_split c s of [] \<Rightarrow> ([], None) | [a] \<Rightarrow> (a, None) | a # b # _ \<Rightarrow> (a, Some b))"

definition scrub_pair :: "string \<Rightarrow> string option" where
  "scrub_pair pair =
     (case split2 (CHR ''='') pair of
        (k, None) \<Rightarrow> Some pair
      | (k, Some v) \<Rightarrow> map_option (\<lambda>hit. if hit then k @ ''='' @ FILTERED else pair) (is_id_param k))"

definition scrub_query :: "string \<Rightarrow> string option" where
  "scrub_query query = map_option (js_join ''&'') (those (map scrub_pair (js_split (CHR ''&'') query)))"

definition scrubUrl :: "string \<Rightarrow> string option" where
  "scrubUrl url =
     (if url = [] then Some url
      else
        let (beforeHash, hash) = split2 (CHR ''#'') url;
            (path, query) = split2 (CHR ''?'') beforeHash;
            tail_part = (case hash of None \<Rightarrow> [] | Some h \<Rightarrow> CHR ''#'' # h)
        in case query of
             None \<Rightarrow> Some (clean_path path @ tail_part)
           | Some q \<Rightarrow> map_option (\<lambda>ps. clean_path path @ CHR ''?'' # ps @ tail_part) (scrub_query q))"

subsection \<open>Events\<close>

datatype data_value = DText string | DOther nat

type_synonym data_record = "(string \<times> data_value) list"

record breadcrumb =
  bc_message :: "string option"
  bc_data :: "data_record option"

record span =
  sn_description :: "string option"
  sn_data :: data_record

record transaction_event =
  tr_transaction :: "string option"
  tr_url :: "string option"
  tr_breadcrumbs :: "breadcrumb list option"
  tr_spans :: "span list option"
  tr_trace :: "data_record option"

record error_event =
  err_url :: "string option"
  err_breadcrumbs :: "breadcrumb list option"
  err_rest :: "(string \<times> string) list"

definition URL_KEYS :: "string list" where
  "URL_KEYS = [''url'', ''from'', ''to'', ''http.url'', ''http.query'', ''url.full'', ''url.path'', ''http.target'', ''path'']"

text \<open>A text that may be absent; an empty one is scrubbed to itself either way.\<close>

definition opt_try :: "('a \<Rightarrow> 'a option) \<Rightarrow> 'a option \<Rightarrow> 'a option option" where
  "opt_try f v = (case v of None \<Rightarrow> Some None | Some x \<Rightarrow> map_option Some (f x))"

definition list_try :: "('a \<Rightarrow> 'a option) \<Rightarrow> 'a list \<Rightarrow> 'a list option" where
  "list_try f xs = those (map f xs)"

definition scrubValue :: "data_value \<Rightarrow> data_value option" where
  "scrubValue v = (case v of DText s \<Rightarrow> map_option DText (scrubUrl s) | DOther _ \<Rightarrow> Some v)"

definition scrub_entry :: "string \<times> data_value \<Rightarrow> (string \<times> data_value) option" where
  "scrub_entry kv = (if fst kv \<in> set URL_KEYS then map_option (Pair (fst kv)) (scrubValue (snd kv)) else Some kv)"

definition scrubData :: "data_record \<Rightarrow> data_record option" where
  "scrubData d = list_try scrub_entry d"

definition scrubBreadcrumb :: "breadcrumb \<Rightarrow> breadcrumb option" where
  "scrubBreadcrumb c =
     (case (opt_try scrubUrl (bc_message c), opt_try scrubData (bc_data c)) of
        (Some m, Some d) \<Rightarrow> Some (c\<lparr>bc_message := m, bc_data := d\<rparr>)
      | _ \<Rightarrow> None)"

definition scrub_span :: "span \<Rightarrow> span option" where
  "scrub_span s =
     (case (opt_try scrubUrl (sn_description s), scrubData (sn_data s)) of
        (Some m, Some d) \<Rightarrow> Some (s\<lparr>sn_description := m, sn_data := d\<rparr>)
      | _ \<Rightarrow> None)"

definition scrubTransaction :: "transaction_event \<Rightarrow> transaction_event option" where
  "scrubTransaction e =
     (case (opt_try scrubUrl (tr_transaction e), opt_try scrubUrl (tr_url e),
            opt_try (list_try scrubBreadcrumb) (tr_breadcrumbs e), opt_try (list_try scrub_span) (tr_spans e),
            opt_try scrubData (tr_trace e)) of
        (Some t, Some u, Some b, Some s, Some d) \<Rightarrow>
          Some (e\<lparr>tr_transaction := t, tr_url := u, tr_breadcrumbs := b, tr_spans := s, tr_trace := d\<rparr>)
      | _ \<Rightarrow> None)"

definition scrubErrorEvent :: "error_event \<Rightarrow> error_event option" where
  "scrubErrorEvent e =
     (case (opt_try scrubUrl (err_url e), opt_try (list_try scrubBreadcrumb) (err_breadcrumbs e)) of
        (Some u, Some b) \<Rightarrow> Some (e\<lparr>err_url := u, err_breadcrumbs := b\<rparr>)
      | _ \<Rightarrow> None)"

text \<open>The hooks: \<open>None\<close> when they throw, \<open>Some None\<close> when they drop the event.\<close>

definition beforeSend :: "bool \<Rightarrow> error_event \<Rightarrow> error_event option option" where
  "beforeSend consent e = (if consent then map_option Some (scrubErrorEvent e) else Some None)"

definition beforeSendTransaction :: "bool \<Rightarrow> transaction_event \<Rightarrow> transaction_event option option" where
  "beforeSendTransaction consent e = (if consent then map_option Some (scrubTransaction e) else Some None)"

definition tracesSampler :: "bool \<Rightarrow> nat" where
  "tracesSampler consent = (if consent then 1 else 0)"

subsection \<open>The switch of the session replay\<close>

text \<open>
  The state is whether the integration was added and whether it records. The first consent adds it,
  which starts it by the sampling of the package, \<open>sampled\<close>; later ones start it by the draw.
\<close>

record replay =
  rep_added :: bool
  rep_recording :: bool

definition createReplayConsentSync :: "bool \<Rightarrow> bool \<Rightarrow> bool \<Rightarrow> replay \<Rightarrow> replay" where
  "createReplayConsentSync consent sampled draw r =
     (if consent then
        (if \<not> rep_added r then r\<lparr>rep_added := True, rep_recording := sampled\<rparr>
         else if draw then r\<lparr>rep_recording := True\<rparr> else r)
      else if rep_added r then r\<lparr>rep_recording := False\<rparr> else r)"

subsection \<open>What a clean path is\<close>

text \<open>No keyword in the path is followed by an identifier other than its replacement.\<close>

definition at_keyword :: "string \<Rightarrow> string \<Rightarrow> bool" where
  "at_keyword k t = (js_toLowerCase (take (length (slashed k)) t) = slashed k)"

definition word_after :: "string \<Rightarrow> string \<Rightarrow> string" where
  "word_after k t = takeWhile id_char (drop (length (slashed k)) t)"

fun path_clean :: "string \<Rightarrow> string \<Rightarrow> string \<Rightarrow> bool" where
  "path_clean k repl [] = True"
| "path_clean k repl (c # s) =
     ((at_keyword k (c # s) \<longrightarrow> word_after k (c # s) \<in> {[], repl}) \<and> path_clean k repl s)"

text \<open>A keyword, and a replacement, as far as the argument needs them.\<close>

definition key_ok :: "string \<Rightarrow> bool" where
  "key_ok k = (k \<noteq> [] \<and> (\<forall>c \<in> set k. id_char c \<and> c \<noteq> CHR '':''))"

definition repl_ok :: "string \<Rightarrow> bool" where
  "repl_ok r = ((\<exists>t. r = CHR '':'' # t) \<and> (\<forall>c \<in> set r. id_char c))"

lemma js_lower_slash: "js_lower_char c = CHR ''/'' \<longleftrightarrow> c = CHR ''/''"
proof
  assume low: "js_lower_char c = CHR ''/''"
  have "(of_char (CHR ''/'') :: nat) = 47" by simp
  with low of_char_js_lower [of c] have "(of_char c :: nat) = of_char (CHR ''/'')"
    by (auto simp: Let_def split: if_splits)
  then show "c = CHR ''/''" by (simp only: of_char_eq_iff)
next
  assume "c = CHR ''/''"
  then have "(of_char (js_lower_char c) :: nat) = of_char (CHR ''/'')"
    using of_char_js_lower [of c] by (simp add: Let_def)
  then show "js_lower_char c = CHR ''/''" by (simp only: of_char_eq_iff)
qed

lemma slash_not_id [simp]: "\<not> id_char (CHR ''/'')"
  by (simp add: id_char_def)

lemma key_no_slash: "key_ok k \<Longrightarrow> CHR ''/'' \<notin> set k"
  unfolding key_ok_def using slash_not_id by blast

lemma at_keyword_form:
  "at_keyword k t \<longleftrightarrow> (\<exists>h r. t = CHR ''/'' # h @ CHR ''/'' # r \<and> js_toLowerCase h = k)"
proof
  assume at: "at_keyword k t"
  let ?p = "take (length (slashed k)) t"
  have low: "js_toLowerCase ?p = CHR ''/'' # k @ ''/''" using at by (simp add: at_keyword_def slashed_def)
  then obtain a q where p: "?p = a # q" "js_lower_char a = CHR ''/''" "js_toLowerCase q = k @ ''/''"
    by (cases ?p) simp_all
  then have "js_toLowerCase q = k @ [CHR ''/'']" by simp
  then obtain h b where q: "q = h @ [b]" "js_toLowerCase h = k" "js_lower_char b = CHR ''/''"
    unfolding js_toLowerCase_def map_eq_append_conv by auto
  have "t = ?p @ drop (length (slashed k)) t" by simp
  then have "t = CHR ''/'' # h @ CHR ''/'' # drop (length (slashed k)) t"
    using p q by (simp add: js_lower_slash)
  with q(2) show "\<exists>h r. t = CHR ''/'' # h @ CHR ''/'' # r \<and> js_toLowerCase h = k" by blast
next
  assume "\<exists>h r. t = CHR ''/'' # h @ CHR ''/'' # r \<and> js_toLowerCase h = k"
  then obtain h r where t: "t = CHR ''/'' # h @ CHR ''/'' # r" "js_toLowerCase h = k" by blast
  then have "length h = length k" by auto
  with t show "at_keyword k t"
    by (simp add: at_keyword_def slashed_def js_lower_slash)
qed

lemma word_after_form: "length h = length k \<Longrightarrow> word_after k (CHR ''/'' # h @ CHR ''/'' # r) = takeWhile id_char r"
  by (simp add: word_after_def slashed_def)

lemma takeWhile_stop: "\<not> P x \<Longrightarrow> takeWhile P (u @ x # r) = takeWhile P (u @ x # r')"
  by (induction u) auto

text \<open>The two ways of a step, by what the text starts with.\<close>

lemma replace_hit:
  assumes "js_toLowerCase h = k" and "takeWhile id_char r \<noteq> []"
  shows "replace_ids k repl (CHR ''/'' # h @ CHR ''/'' # r) =
           CHR ''/'' # h @ CHR ''/'' # repl @ replace_ids k repl (dropWhile id_char r)"
proof -
  have len: "length h = length k" using assms(1) by auto
  have "at_keyword k (CHR ''/'' # h @ CHR ''/'' # r)" using assms(1) at_keyword_form by blast
  with assms(2) len show ?thesis
    by (simp add: replace_ids.simps(2) Let_def at_keyword_def slashed_def)
qed

lemma replace_miss:
  assumes "\<not> (at_keyword k (c # s) \<and> word_after k (c # s) \<noteq> [])"
  shows "replace_ids k repl (c # s) = c # replace_ids k repl s"
  using assms by (auto simp: replace_ids.simps(2) Let_def at_keyword_def word_after_def)

lemma replace_cases:
  obtains (hit) h r where "c # s = CHR ''/'' # h @ CHR ''/'' # r" "js_toLowerCase h = k" "takeWhile id_char r \<noteq> []"
  | (miss) "\<not> (at_keyword k (c # s) \<and> word_after k (c # s) \<noteq> [])"
proof (cases "at_keyword k (c # s) \<and> word_after k (c # s) \<noteq> []")
  case True
  then obtain h r where f: "c # s = CHR ''/'' # h @ CHR ''/'' # r" "js_toLowerCase h = k" using at_keyword_form by blast
  then have "length h = length k" by auto
  with f True have "takeWhile id_char r \<noteq> []" using word_after_form by metis
  with f show thesis by (rule hit)
qed (rule miss)

lemma replace_plain: "CHR ''/'' \<notin> set u \<Longrightarrow> replace_ids k repl (u @ s) = u @ replace_ids k repl s"
proof (induction u)
  case (Cons c u)
  then have "\<not> at_keyword k (c # u @ s)" by (auto simp: at_keyword_form)
  with Cons show ?case by (simp add: replace_miss)
qed simp

lemma replace_none: "CHR ''/'' \<notin> set u \<Longrightarrow> replace_ids k repl u = u"
  using replace_plain [of u k repl "[]"] by simp

text \<open>The word behind a slash survives up to the next slash.\<close>

lemma replace_word:
  obtains x where "replace_ids k repl (CHR ''/'' # v) = CHR ''/'' # x" "takeWhile id_char x = takeWhile id_char v"
proof (cases rule: replace_cases [of "CHR ''/''" v k])
  case (hit h r)
  then show thesis
    using that [of "h @ CHR ''/'' # repl @ replace_ids k repl (dropWhile id_char r)"] takeWhile_stop [of id_char "CHR ''/''" h]
    by (simp add: replace_hit)
next
  case miss
  show thesis
  proof (cases "CHR ''/'' \<in> set v")
    case True
    then obtain u w where v: "v = u @ CHR ''/'' # w" "CHR ''/'' \<notin> set u" by (meson split_list_first)
    obtain y where "replace_ids k repl (CHR ''/'' # w) = CHR ''/'' # y"
      by (cases rule: replace_cases [of "CHR ''/''" w k]) (auto simp: replace_hit replace_miss)
    with v have "replace_ids k repl v = u @ CHR ''/'' # y" by (simp add: replace_plain)
    with miss show thesis
      using that [of "u @ CHR ''/'' # y"] takeWhile_stop [of id_char "CHR ''/''" u y w] by (simp add: replace_miss v(1))
  next
    case False
    with miss show thesis using that [of v] by (simp add: replace_miss replace_none)
  qed
qed

lemma path_clean_plain: "CHR ''/'' \<notin> set u \<Longrightarrow> path_clean k repl (u @ s) = path_clean k repl s"
proof (induction u)
  case (Cons c u)
  then have "\<not> at_keyword k (c # u @ s)" by (auto simp: at_keyword_form)
  with Cons show ?case by simp
qed simp

lemma path_clean_drop: "path_clean k repl (u @ s) \<Longrightarrow> path_clean k repl s"
  by (induction u) simp_all

lemma low_key:
  assumes "key_ok k" and "js_toLowerCase h = k"
  shows "CHR ''/'' \<notin> set h" and "h \<noteq> []" and "hd h \<noteq> CHR '':''"
proof -
  have slash: "js_lower_char (CHR ''/'') = CHR ''/''" using js_lower_slash by blast
  show "CHR ''/'' \<notin> set h"
  proof
    assume "CHR ''/'' \<in> set h"
    from imageI [OF this, of js_lower_char] have "CHR ''/'' \<in> set (js_toLowerCase h)"
      by (simp only: js_toLowerCase_def set_map slash)
    with assms(2) key_no_slash [OF assms(1)] show False by blast
  qed
  have "k \<noteq> []" using assms(1) unfolding key_ok_def by blast
  with assms(2) show ne: "h \<noteq> []" by (metis js_toLowerCase_simps(1))
  have "(of_char (js_lower_char (CHR '':'')) :: nat) = of_char (CHR '':'')" using of_char_js_lower [of "CHR '':''"] by (simp add: Let_def)
  then have colon: "js_lower_char (CHR '':'') = CHR '':''" by (simp only: of_char_eq_iff)
  show "hd h \<noteq> CHR '':''"
  proof
    assume "hd h = CHR '':''"
    with ne colon have "CHR '':'' \<in> set (js_toLowerCase h)" unfolding js_toLowerCase_def by (cases h) auto
    with assms show False unfolding key_ok_def by blast
  qed
qed

text \<open>No keyword starts at a slash whose next piece is another word.\<close>

lemma first_sep: "x \<notin> set u \<Longrightarrow> x \<notin> set h \<Longrightarrow> u @ x # s = h @ x # r \<Longrightarrow> u = h"
proof (induction u arbitrary: h)
  case Nil
  then show ?case by (cases h) simp_all
next
  case (Cons c u)
  then show ?case by (cases h) simp_all
qed

lemma no_keyword:
  assumes "key_ok k" and "CHR ''/'' \<notin> set u" and "js_toLowerCase u \<noteq> k"
  shows "\<not> at_keyword k (CHR ''/'' # u @ CHR ''/'' # s)"
proof
  assume "at_keyword k (CHR ''/'' # u @ CHR ''/'' # s)"
  then obtain h r where eq: "u @ CHR ''/'' # s = h @ CHR ''/'' # r" "js_toLowerCase h = k" by (auto simp: at_keyword_form)
  have "u = h"
    by (rule first_sep [OF assms(2) low_key(1) [OF assms(1) eq(2)] eq(1)])
  with assms(3) eq(2) show False by simp
qed

lemma no_keyword_colon: "key_ok k \<Longrightarrow> \<not> at_keyword k (CHR ''/'' # CHR '':'' # s)"
proof
  assume k: "key_ok k" and "at_keyword k (CHR ''/'' # CHR '':'' # s)"
  then obtain h r where h: "CHR '':'' # s = h @ CHR ''/'' # r" "js_toLowerCase h = k" by (auto simp: at_keyword_form)
  then have "hd h = CHR '':''" using low_key(2) [OF k h(2)] by (cases h) simp_all
  with low_key(3) [OF k h(2)] show False ..
qed

lemma replaced_head: "s \<noteq> [] \<Longrightarrow> \<exists>t. replace_ids k repl s = hd s # t"
proof (cases s)
  case (Cons c r)
  then show ?thesis
    by (cases rule: replace_cases [of c r k]) (auto simp: replace_hit replace_miss)
qed simp

lemma word_of_replacement:
  assumes "repl_ok repl"
  shows "takeWhile id_char (repl @ replace_ids k repl2 (dropWhile id_char r)) = repl"
proof -
  have "takeWhile id_char (replace_ids k repl2 (dropWhile id_char r)) = []"
  proof (cases "dropWhile id_char r = []")
    case False
    then have "\<not> id_char (hd (dropWhile id_char r))" by (rule hd_dropWhile)
    with replaced_head [OF False, of k repl2] show ?thesis by auto
  next
    case True
    then show ?thesis by (simp only: replace_ids.simps(1) takeWhile.simps)
  qed
  with assms show ?thesis unfolding repl_ok_def by (simp add: takeWhile_append2)
qed

lemma repl_facts: "repl_ok r \<Longrightarrow> CHR ''/'' \<notin> set r" "repl_ok r \<Longrightarrow> \<exists>t. r = CHR '':'' # t"
  unfolding repl_ok_def using slash_not_id by blast+

text \<open>A hit leaves the rest to be checked: neither of its slashes starts another keyword.\<close>

lemma path_clean_hit:
  assumes "key_ok k" "repl_ok repl2" and "CHR ''/'' \<notin> set h"
    and "at_keyword k (CHR ''/'' # h @ CHR ''/'' # repl2 @ s) \<Longrightarrow> word_after k (CHR ''/'' # h @ CHR ''/'' # repl2 @ s) \<in> {[], repl}"
  shows "path_clean k repl (CHR ''/'' # h @ CHR ''/'' # repl2 @ s) = path_clean k repl s"
proof -
  have "\<not> at_keyword k (CHR ''/'' # repl2 @ s)" using repl_facts(2) [OF assms(2)] no_keyword_colon [OF assms(1)] by auto
  then show ?thesis
    using assms(4) repl_facts(1) [OF assms(2)] assms(3) by (simp add: path_clean_plain)
qed

text \<open>A keyword behind which nothing was replaced was there before, with the same word.\<close>

lemma kept_keyword:
  assumes "key_ok k" and at: "at_keyword k (c # replace_ids k2 repl2 s)"
  shows "at_keyword k (c # s) \<and> word_after k (c # replace_ids k2 repl2 s) = word_after k (c # s)"
proof -
  from at obtain h r where out: "c # replace_ids k2 repl2 s = CHR ''/'' # h @ CHR ''/'' # r" "js_toLowerCase h = k"
    by (auto simp: at_keyword_form)
  then have c: "c = CHR ''/''" and body: "replace_ids k2 repl2 s = h @ CHR ''/'' # r" by simp_all
  have len: "length h = length k" using out(2) by auto
  have hs: "CHR ''/'' \<notin> set h" by (rule low_key(1) [OF assms(1) out(2)])
  have "CHR ''/'' \<in> set s"
  proof (rule ccontr)
    assume no: "CHR ''/'' \<notin> set s"
    from replace_none [OF this, of k2 repl2] body have "s = h @ CHR ''/'' # r" by simp
    with no show False by simp
  qed
  then obtain u v where s: "s = u @ CHR ''/'' # v" "CHR ''/'' \<notin> set u" by (meson split_list_first)
  obtain x where x: "replace_ids k2 repl2 (CHR ''/'' # v) = CHR ''/'' # x" "takeWhile id_char x = takeWhile id_char v"
    by (rule replace_word)
  have eq: "u @ CHR ''/'' # x = h @ CHR ''/'' # r" using body x(1) s by (simp add: replace_plain)
  have uh: "u = h" by (rule first_sep [OF s(2) hs eq])
  with eq have "x = r" by simp
  with x(2) have word: "takeWhile id_char r = takeWhile id_char v" by simp
  have "at_keyword k (c # s)" unfolding c s(1) uh at_keyword_form using out(2) by blast
  moreover have "word_after k (c # replace_ids k2 repl2 s) = word_after k (c # s)"
    unfolding out(1) unfolding c s(1) uh word_after_form [OF len] by (rule word)
  ultimately show ?thesis ..
qed

lemma replace_cleans:
  assumes "key_ok k" "repl_ok repl"
  shows "path_clean k repl (replace_ids k repl s)"
proof (induction s rule: measure_induct_rule [of length])
  case (less s)
  show ?case
  proof (cases s)
    case (Cons c s0)
    show ?thesis
    proof (cases rule: replace_cases [of c s0 k])
      case (hit h r)
      have "length (dropWhile id_char r) < length s"
        using hit(1) Cons length_dropWhile_le [of id_char r] by simp
      from less.IH [OF this] have "path_clean k repl (replace_ids k repl (dropWhile id_char r))" .
      moreover have "length h = length k" using hit(2) by auto
      then have "word_after k (CHR ''/'' # h @ CHR ''/'' # repl @ replace_ids k repl (dropWhile id_char r)) \<in> {[], repl}"
        using word_of_replacement [OF assms(2)] by (simp add: word_after_form)
      ultimately show ?thesis
        unfolding Cons hit(1) replace_hit [OF hit(2,3)]
        by (subst path_clean_hit [OF assms low_key(1) [OF assms(1) hit(2)]]) simp_all
    next
      case miss
      have "path_clean k repl (replace_ids k repl s0)" using less.IH [of s0] Cons by simp
      moreover have "word_after k (c # replace_ids k repl s0) \<in> {[], repl}" if at: "at_keyword k (c # replace_ids k repl s0)"
        using kept_keyword [OF assms(1) at] miss by auto
      ultimately show ?thesis unfolding Cons replace_miss [OF miss] by simp
    qed
  qed simp
qed

lemma replace_keeps_clean:
  assumes "key_ok k" "key_ok k2" "k \<noteq> k2" "repl_ok repl2" and "path_clean k repl s"
  shows "path_clean k repl (replace_ids k2 repl2 s)"
  using assms(5)
proof (induction s rule: measure_induct_rule [of length])
  case (less s)
  show ?case
  proof (cases s)
    case (Cons c s0)
    show ?thesis
    proof (cases rule: replace_cases [of c s0 k2])
      case (hit h r)
      have "length (dropWhile id_char r) < length s"
        using hit(1) Cons length_dropWhile_le [of id_char r] by simp
      moreover have "s = (CHR ''/'' # h @ CHR ''/'' # takeWhile id_char r) @ dropWhile id_char r" using Cons hit(1) by simp
      with less.prems path_clean_drop have "path_clean k repl (dropWhile id_char r)" by metis
      ultimately have "path_clean k repl (replace_ids k2 repl2 (dropWhile id_char r))" by (rule less.IH)
      moreover have hs: "CHR ''/'' \<notin> set h" by (rule low_key(1) [OF assms(2) hit(2)])
      have "\<not> at_keyword k (CHR ''/'' # h @ CHR ''/'' # repl2 @ replace_ids k2 repl2 (dropWhile id_char r))"
        using no_keyword [OF assms(1) hs] hit(2) assms(3) by metis
      ultimately show ?thesis
        unfolding Cons hit(1) replace_hit [OF hit(2,3)]
        by (subst path_clean_hit [OF assms(1,4) hs]) simp_all
    next
      case miss
      have "path_clean k repl (replace_ids k2 repl2 s0)" using less.IH [of s0] less.prems Cons by simp
      moreover have "word_after k (c # replace_ids k2 repl2 s0) \<in> {[], repl}" if at: "at_keyword k (c # replace_ids k2 repl2 s0)"
        using kept_keyword [OF assms(1) at] less.prems Cons by simp
      ultimately show ?thesis unfolding Cons replace_miss [OF miss] by simp
    qed
  qed simp
qed

subsection \<open>What leaves the browser\<close>

definition scrubbed_path :: "string \<Rightarrow> bool" where
  "scrubbed_path path =
     (path_clean ''profiles'' PROFILE_REPL path \<and> path_clean ''devices'' DEVICE_REPL path \<and>
      path_clean ''dns-query'' PROFILE_REPL path)"

definition scrubbed_pair :: "string \<Rightarrow> bool" where
  "scrubbed_pair pair = (case split2 (CHR ''='') pair of (k, Some v) \<Rightarrow> is_id_param k = Some True \<longrightarrow> v = FILTERED | _ \<Rightarrow> True)"

definition scrubbed_query :: "string option \<Rightarrow> bool" where
  "scrubbed_query query = (case query of None \<Rightarrow> True | Some q \<Rightarrow> list_all scrubbed_pair (js_split (CHR ''&'') q))"

text \<open>A URL, taken apart where the function takes it apart.\<close>

definition url_parts :: "string \<Rightarrow> string \<times> string option \<times> string option" where
  "url_parts url =
     (let (before, hash) = split2 (CHR ''#'') url; (path, query) = split2 (CHR ''?'') before in (path, query, hash))"

definition scrubbed :: "string \<Rightarrow> bool" where
  "scrubbed url = (let (path, query, hash) = url_parts url in scrubbed_path path \<and> scrubbed_query query)"

lemma keys_ok: "key_ok ''profiles''" "key_ok ''devices''" "key_ok ''dns-query''"
  by code_simp+

lemma repls_ok: "repl_ok PROFILE_REPL" "repl_ok DEVICE_REPL"
proof -
  have "\<forall>c \<in> set PROFILE_REPL. id_char c" "\<forall>c \<in> set DEVICE_REPL. id_char c" by code_simp+
  then show "repl_ok PROFILE_REPL" "repl_ok DEVICE_REPL"
    unfolding repl_ok_def by (blast | simp add: PROFILE_REPL_def DEVICE_REPL_def)+
qed

lemma clean_path_scrubbed: "scrubbed_path (clean_path path)"
proof -
  have ne: "''profiles'' \<noteq> ''devices''" "''profiles'' \<noteq> ''dns-query''" "''devices'' \<noteq> ''dns-query''" by simp_all
  show ?thesis
    unfolding scrubbed_path_def clean_path_def
    by (intro conjI replace_keeps_clean [OF keys_ok(1,3) ne(2) repls_ok(1)] replace_keeps_clean [OF keys_ok(1,2) ne(1) repls_ok(2)]
        replace_keeps_clean [OF keys_ok(2,3) ne(3) repls_ok(1)] replace_cleans keys_ok repls_ok)
qed

lemma split2_facts:
  assumes "split2 c s = (a, b)"
  shows "c \<notin> set a" and "b = Some v \<Longrightarrow> c \<notin> set v" and "set a \<subseteq> set s" and "b = Some v \<Longrightarrow> set v \<subseteq> set s"
proof -
  have inside: "set p \<subseteq> set s" if "p \<in> set (js_split c s)" for p
    using that by (induction c s arbitrary: p rule: js_split.induct) (fastforce split: if_splits list.splits)+
  obtain x xs where sp: "js_split c s = x # xs" by (cases "js_split c s") simp_all
  then have a: "a = x" and b: "b = (case xs of [] \<Rightarrow> None | y # _ \<Rightarrow> Some y)"
    using assms by (auto simp: split2_def split: list.splits)
  show "c \<notin> set a" using js_split_no_sep [of x c s] sp a by simp
  show "set a \<subseteq> set s" using inside [of x] sp a by simp
  show "c \<notin> set v" if "b = Some v" using js_split_no_sep [of v c s] sp b that by (cases xs) simp_all
  show "set v \<subseteq> set s" if "b = Some v" using inside [of v] sp b that by (cases xs) simp_all
qed

lemma split2_plain: "c \<notin> set a \<Longrightarrow> split2 c a = (a, None)"
  by (simp add: split2_def js_split_plain)

lemma split2_two: "c \<notin> set a \<Longrightarrow> c \<notin> set b \<Longrightarrow> split2 c (a @ c # b) = (a, Some b)"
  by (simp add: split2_def js_split_append js_split_plain)

lemma those_forall: "those (map f xs) = Some ys \<longleftrightarrow> list_all2 (\<lambda>x y. f x = Some y) xs ys"
proof (induction xs arbitrary: ys)
  case (Cons x xs)
  then show ?case by (cases ys) (auto split: option.splits)
qed auto

lemma list_all2_origin:
  assumes "list_all2 P xs ys" and "y \<in> set ys"
  obtains x where "x \<in> set xs" "P x y"
  using assms by (induction xs ys rule: list_all2_induct) auto

lemma replace_chars: "c \<notin> set s \<Longrightarrow> c \<notin> set repl \<Longrightarrow> c \<notin> set (replace_ids k repl s)"
proof (induction s rule: measure_induct_rule [of length])
  case (less s)
  show ?case
  proof (cases s)
    case (Cons d t)
    show ?thesis
    proof (cases rule: replace_cases [of d t k])
      case (hit h r)
      have "length (dropWhile id_char r) < length s" using Cons hit(1) length_dropWhile_le [of id_char r] by simp
      moreover have "c \<notin> set (dropWhile id_char r)" using less.prems(1) Cons hit(1) set_dropWhileD by fastforce
      ultimately have "c \<notin> set (replace_ids k repl (dropWhile id_char r))" using less.IH less.prems(2) by blast
      moreover have "c \<notin> set (CHR ''/'' # h @ [CHR ''/''])" using less.prems(1) unfolding Cons hit(1) by simp
      ultimately show ?thesis using less.prems(2) unfolding Cons hit(1) replace_hit [OF hit(2,3)] by simp
    next
      case miss
      with less show ?thesis unfolding Cons replace_miss [OF miss] by simp
    qed
  qed simp
qed

lemma clean_path_chars: "c \<in> {CHR ''#'', CHR ''?''} \<Longrightarrow> c \<notin> set path \<Longrightarrow> c \<notin> set (clean_path path)"
  unfolding clean_path_def
  by (intro replace_chars) (auto simp: PROFILE_REPL_def DEVICE_REPL_def)

lemma scrub_pair_facts:
  assumes "scrub_pair p = Some q" and "c \<notin> set p" and "c \<in> {CHR ''#'', CHR ''?'', CHR ''&''}"
  shows "c \<notin> set q" and "scrubbed_pair q"
proof -
  obtain k v where kv: "split2 (CHR ''='') p = (k, v)" by fastforce
  have filtered: "CHR ''='' \<notin> set FILTERED" "c \<notin> set (CHR ''='' # FILTERED)" using assms(3) by (auto simp: FILTERED_def)
  consider (same) "q = p" "v = None \<or> is_id_param k = Some False" | (hit) "q = k @ ''='' @ FILTERED"
    using assms(1) kv by (cases v; cases "is_id_param k") (auto simp: scrub_pair_def split: if_splits)
  then have "c \<notin> set q \<and> scrubbed_pair q"
  proof cases
    case same
    with assms(2) kv show ?thesis by (cases v) (auto simp: scrubbed_pair_def)
  next
    case hit
    have "split2 (CHR ''='') q = (k, Some FILTERED)"
      using split2_two [OF split2_facts(1) [OF kv] filtered(1)] by (simp add: hit)
    moreover have "c \<notin> set k" using split2_facts(3) [OF kv] assms(2) by blast
    ultimately show ?thesis using filtered(2) by (simp add: scrubbed_pair_def hit)
  qed
  then show "c \<notin> set q" "scrubbed_pair q" by simp_all
qed

lemma scrub_query_facts:
  assumes "scrub_query q = Some ps" and "CHR ''#'' \<notin> set q" "CHR ''?'' \<notin> set q"
  shows "CHR ''#'' \<notin> set ps" and "CHR ''?'' \<notin> set ps" and "list_all scrubbed_pair (js_split (CHR ''&'') ps)"
proof -
  obtain qs where qs: "those (map scrub_pair (js_split (CHR ''&'') q)) = Some qs" "ps = js_join ''&'' qs"
    using assms(1) by (auto simp: scrub_query_def)
  have inside: "set p \<subseteq> set q" if "p \<in> set (js_split (CHR ''&'') q)" for p
    using that by (induction "CHR ''&''" q arbitrary: p rule: js_split.induct) (fastforce split: if_splits list.splits)+
  have ok: "c \<notin> set p' \<and> scrubbed_pair p'" if "p' \<in> set qs" "c \<in> {CHR ''#'', CHR ''?'', CHR ''&''}" for p' c
  proof -
    from qs(1) have "list_all2 (\<lambda>x y. scrub_pair x = Some y) (js_split (CHR ''&'') q) qs" unfolding those_forall .
    from list_all2_origin [OF this that(1)] obtain p where
      p: "p \<in> set (js_split (CHR ''&'') q)" "scrub_pair p = Some p'" .
    have "c \<notin> set p" using that(2) inside [OF p(1)] assms(2,3) js_split_no_sep [OF p(1)] by auto
    from scrub_pair_facts [OF p(2) this that(2)] show ?thesis by simp
  qed
  have "qs \<noteq> []" using qs(1) by (auto simp: those_forall)
  with ok have "js_split (CHR ''&'') ps = qs" unfolding qs(2) by (intro js_split_join) auto
  with ok show "list_all scrubbed_pair (js_split (CHR ''&'') ps)" by (auto simp: list_all_iff)
  have chars: "c \<notin> set (js_join ''&'' qs)" if "c \<noteq> CHR ''&''" "\<forall>p \<in> set qs. c \<notin> set p" for c
    using that(2,1) by (induction "''&''" qs rule: js_join.induct) auto
  show "CHR ''#'' \<notin> set ps" "CHR ''?'' \<notin> set ps" 
    unfolding qs(2) by (rule chars, simp, use ok in blast)+
qed

lemma scrubbed_facts:
  assumes "scrubUrl url = Some out"
  shows "scrubbed out \<and> snd (snd (url_parts out)) = snd (snd (url_parts url))"
proof (cases "url = []")
  case True
  with assms show ?thesis
    by (simp add: scrubUrl_def scrubbed_def url_parts_def split2_def scrubbed_path_def scrubbed_query_def)
next
  case False
  obtain before hash path query where parts: "split2 (CHR ''#'') url = (before, hash)" "split2 (CHR ''?'') before = (path, query)"
    by fastforce
  let ?tail = "case hash of None \<Rightarrow> [] | Some h \<Rightarrow> CHR ''#'' # h"
  have nohash: "CHR ''#'' \<notin> set before" by (rule split2_facts(1) [OF parts(1)])
  have path: "CHR ''#'' \<notin> set (clean_path path)" "CHR ''?'' \<notin> set (clean_path path)"
    using split2_facts(1,3) [OF parts(2)] nohash clean_path_chars [of "CHR ''#''" path] clean_path_chars [of "CHR ''?''" path]
    by auto
  have tail_split: "split2 (CHR ''#'') (b @ ?tail) = (b, hash)" if "CHR ''#'' \<notin> set b" for b
    using that split2_facts(2) [OF parts(1)] by (cases hash) (auto simp: split2_plain split2_two)
  have "url_parts out = (clean_path path, map_option (\<lambda>q. the (scrub_query q)) query, hash) \<and>
        scrubbed_query (map_option (\<lambda>q. the (scrub_query q)) query)"
  proof (cases query)
    case None
    with assms parts False have "out = clean_path path @ ?tail" by (simp add: scrubUrl_def)
    with None path tail_split show ?thesis by (simp add: url_parts_def split2_plain scrubbed_query_def)
  next
    case (Some q)
    with assms parts False obtain ps where ps: "scrub_query q = Some ps" "out = (clean_path path @ CHR ''?'' # ps) @ ?tail"
      by (auto simp: scrubUrl_def)
    have q: "CHR ''#'' \<notin> set q" "CHR ''?'' \<notin> set q" using split2_facts(2,4) [OF parts(2) Some] nohash by auto
    note f = scrub_query_facts [OF ps(1) q]
    have "split2 (CHR ''#'') out = (clean_path path @ CHR ''?'' # ps, hash)" unfolding ps(2) using path f(1) by (intro tail_split) simp
    moreover have "split2 (CHR ''?'') (clean_path path @ CHR ''?'' # ps) = (clean_path path, Some ps)" by (rule split2_two [OF path(2) f(2)])
    ultimately show ?thesis using f(3) ps(1) Some by (simp add: url_parts_def scrubbed_query_def)
  qed
  then show ?thesis using parts clean_path_scrubbed by (simp add: scrubbed_def url_parts_def)
qed

text \<open>The texts of an event that the functions treat as URLs.\<close>

definition data_urls :: "data_record \<Rightarrow> string list" where
  "data_urls d = concat (map (\<lambda>(k, v). case v of DText s \<Rightarrow> if k \<in> set URL_KEYS then [s] else [] | DOther _ \<Rightarrow> []) d)"

definition opt_list :: "'a option \<Rightarrow> 'a list" where
  "opt_list v = (case v of None \<Rightarrow> [] | Some x \<Rightarrow> [x])"

definition breadcrumb_urls :: "breadcrumb \<Rightarrow> string list" where
  "breadcrumb_urls c = opt_list (bc_message c) @ concat (map data_urls (opt_list (bc_data c)))"

definition span_urls :: "span \<Rightarrow> string list" where
  "span_urls s = opt_list (sn_description s) @ data_urls (sn_data s)"

definition transaction_urls :: "transaction_event \<Rightarrow> string list" where
  "transaction_urls e =
     opt_list (tr_transaction e) @ opt_list (tr_url e) @ concat (map breadcrumb_urls (nullish (tr_breadcrumbs e) [])) @
     concat (map span_urls (nullish (tr_spans e) [])) @ concat (map data_urls (opt_list (tr_trace e)))"

definition error_urls :: "error_event \<Rightarrow> string list" where
  "error_urls e = opt_list (err_url e) @ concat (map breadcrumb_urls (nullish (err_breadcrumbs e) []))"

lemma opt_try_Some: "opt_try f v = Some w \<Longrightarrow> \<forall>x y. f x = Some y \<longrightarrow> list_all scrubbed (g y) \<Longrightarrow>
    list_all (\<lambda>z. list_all scrubbed (g z)) (opt_list w)"
  by (cases v) (auto simp: opt_try_def opt_list_def)

lemma list_try_Some: "list_try f v = Some w \<Longrightarrow> \<forall>x y. f x = Some y \<longrightarrow> list_all scrubbed (g y) \<Longrightarrow>
    list_all scrubbed (concat (map g w))"
  unfolding list_try_def those_forall by (induction v w rule: list_all2_induct) auto

lemma opt_try_urls: "opt_try scrubUrl v = Some w \<Longrightarrow> list_all scrubbed (opt_list w)"
  using opt_try_Some [of scrubUrl v w "\<lambda>u. [u]"] scrubbed_facts by (auto simp: list_all_iff)

lemma list_all_concat: "list_all (\<lambda>z. list_all P (g z)) zs \<Longrightarrow> list_all P (concat (map g zs))"
  by (induction zs) auto

lemma scrub_entry_urls: "scrub_entry kv = Some kv' \<Longrightarrow> list_all scrubbed (data_urls [kv'])"
  using scrubbed_facts
  by (cases "snd kv") (auto simp: scrub_entry_def scrubValue_def data_urls_def case_prod_beta split: if_splits)

lemma scrubData_urls: "scrubData d = Some d' \<Longrightarrow> list_all scrubbed (data_urls d')"
  using list_try_Some [of scrub_entry d d' "\<lambda>kv. data_urls [kv]"] scrub_entry_urls
  by (simp add: scrubData_def) (simp add: data_urls_def)

lemma opt_data_urls: "opt_try scrubData v = Some w \<Longrightarrow> list_all scrubbed (concat (map data_urls (opt_list w)))"
  by (rule list_all_concat) (rule opt_try_Some, assumption, use scrubData_urls in blast)

lemma breadcrumb_scrubbed: "scrubBreadcrumb c = Some c' \<Longrightarrow> list_all scrubbed (breadcrumb_urls c')"
  using opt_try_urls opt_data_urls by (auto simp: scrubBreadcrumb_def breadcrumb_urls_def split: option.splits)

lemma span_scrubbed: "scrub_span s = Some s' \<Longrightarrow> list_all scrubbed (span_urls s')"
  using opt_try_urls scrubData_urls by (auto simp: scrub_span_def span_urls_def split: option.splits)

lemma opt_list_try_urls:
  assumes "opt_try (list_try f) v = Some w" and "\<forall>x y. f x = Some y \<longrightarrow> list_all scrubbed (g y)"
  shows "list_all scrubbed (concat (map g (nullish w [])))"
proof (cases v)
  case (Some xs)
  with assms(1) obtain ys where "list_try f xs = Some ys" "w = Some ys" by (auto simp: opt_try_def)
  with list_try_Some [OF _ assms(2)] show ?thesis by (simp add: nullish_def)
qed (use assms in \<open>simp add: opt_try_def nullish_def\<close>)

lemma transaction_scrubbed:
  assumes "scrubTransaction e = Some e'"
  shows "list_all scrubbed (transaction_urls e')"
proof -
  from assms obtain t u b s d where parts: "opt_try scrubUrl (tr_transaction e) = Some t" "opt_try scrubUrl (tr_url e) = Some u"
    "opt_try (list_try scrubBreadcrumb) (tr_breadcrumbs e) = Some b" "opt_try (list_try scrub_span) (tr_spans e) = Some s"
    "opt_try scrubData (tr_trace e) = Some d"
    and e': "e' = e\<lparr>tr_transaction := t, tr_url := u, tr_breadcrumbs := b, tr_spans := s, tr_trace := d\<rparr>"
    by (auto simp: scrubTransaction_def split: option.splits)
  have "list_all scrubbed (concat (map breadcrumb_urls (nullish b [])))" "list_all scrubbed (concat (map span_urls (nullish s [])))"
    using opt_list_try_urls [OF parts(3)] opt_list_try_urls [OF parts(4)] breadcrumb_scrubbed span_scrubbed by blast+
  then show ?thesis
    using opt_try_urls [OF parts(1)] opt_try_urls [OF parts(2)] opt_data_urls [OF parts(5)]
    by (simp add: transaction_urls_def e')
qed

lemma error_scrubbed:
  assumes "scrubErrorEvent e = Some e'"
  shows "list_all scrubbed (error_urls e') \<and> err_rest e' = err_rest e"
proof -
  from assms obtain u b where parts: "opt_try scrubUrl (err_url e) = Some u"
    "opt_try (list_try scrubBreadcrumb) (err_breadcrumbs e) = Some b" and e': "e' = e\<lparr>err_url := u, err_breadcrumbs := b\<rparr>"
    by (auto simp: scrubErrorEvent_def split: option.splits)
  have "list_all scrubbed (concat (map breadcrumb_urls (nullish b [])))"
    using opt_list_try_urls [OF parts(2)] breadcrumb_scrubbed by blast
  then show ?thesis using opt_try_urls [OF parts(1)] by (simp add: error_urls_def e')
qed

text \<open>
  Property C22 (reports_need_consent_and_are_scrubbed). Nothing is reported without the account's
  consent. In what is reported, no URL field has a path with a word after \<open>/profiles/\<close>, \<open>/devices/\<close> or
  \<open>/dns-query/\<close>, in whatever case, other than its placeholder, nor a query parameter that names a
  profile or a device, escaped or not, with a value other than the filtered one.
\<close>

theorem reports_need_consent_and_are_scrubbed:
  "(beforeSendTransaction consent e = Some (Some e') \<longrightarrow> consent \<and> list_all scrubbed (transaction_urls e')) \<and>
   (beforeSend consent x = Some (Some x') \<longrightarrow> consent \<and> list_all scrubbed (error_urls x')) \<and>
   (\<not> consent \<longrightarrow> beforeSendTransaction consent e = Some None \<and> beforeSend consent x = Some None \<and> tracesSampler consent = 0)"
  using transaction_scrubbed error_scrubbed
  by (auto simp: beforeSendTransaction_def beforeSend_def tracesSampler_def split: if_splits)


lemma scrub_plain_path:
  assumes "url \<noteq> []" and "CHR ''#'' \<notin> set url" and "CHR ''?'' \<notin> set url"
  shows "scrubUrl url = Some (clean_path url)"
  using assms by (simp add: scrubUrl_def split2_plain)

theorem reports_need_consent_and_are_scrubbed_witness:
  "\<exists>e'. beforeSend True \<lparr>err_url = Some ''https://app/profiles/abc'', err_breadcrumbs = None, err_rest = []\<rparr> = Some (Some e') \<and>
     list_all scrubbed (error_urls e')"
proof -
  let ?x = "\<lparr>err_url = Some ''https://app/profiles/abc'', err_breadcrumbs = None, err_rest = []\<rparr>"
  have "scrubUrl ''https://app/profiles/abc'' = Some (clean_path ''https://app/profiles/abc'')"
    by (rule scrub_plain_path) simp_all
  then obtain x' where x': "beforeSend True ?x = Some (Some x')"
    by (simp add: beforeSend_def scrubErrorEvent_def opt_try_def)
  with reports_need_consent_and_are_scrubbed [of True undefined undefined ?x x'] show ?thesis by blast
qed

subsection \<open>What is not scrubbed\<close>

lemma replace_skip:
  assumes "key_ok k" and "CHR ''/'' \<notin> set u" and "js_toLowerCase u \<noteq> k"
  shows "replace_ids k repl (CHR ''/'' # u @ CHR ''/'' # s) = CHR ''/'' # u @ replace_ids k repl (CHR ''/'' # s)"
  using no_keyword [OF assms] assms(2) by (simp add: replace_miss replace_plain)

lemma replace_last: "CHR ''/'' \<notin> set u \<Longrightarrow> replace_ids k repl (CHR ''/'' # u) = CHR ''/'' # u"
proof -
  assume u: "CHR ''/'' \<notin> set u"
  then have "\<not> at_keyword k (CHR ''/'' # u)" by (auto simp: at_keyword_form)
  with u show ?thesis by (simp add: replace_miss replace_none)
qed

definition doh_url :: "string \<Rightarrow> string \<Rightarrow> string \<Rightarrow> string" where
  "doh_url host profile device = ''https://'' @ host @ ''/dns-query/'' @ profile @ CHR ''/'' # device"

lemma words_not_keys: "js_toLowerCase ''dns-query'' = ''dns-query''"
  by code_simp

text \<open>
  Fact (device_of_doh_url_is_sent). The address the app tells its users to configure for a named
  device, \<open>https://\<close>host\<open>/dns-query/\<close>profile\<open>/\<close>device, is sent with the name of the device: only the
  segment after \<open>/dns-query/\<close> is replaced.
\<close>

theorem device_of_doh_url_is_sent:
  assumes "list_all id_char host" "list_all id_char profile" "list_all id_char device" "profile \<noteq> []"
    and "js_toLowerCase host \<notin> {''profiles'', ''devices'', ''dns-query''}" and "js_toLowerCase profile \<notin> {''profiles'', ''devices''}"
  shows "scrubUrl (doh_url host profile device) = Some (doh_url host PROFILE_REPL device)"
proof -
  have ids: "c \<in> set w \<Longrightarrow> c \<noteq> CHR ''/'' \<and> c \<noteq> CHR ''?'' \<and> c \<noteq> CHR ''#''"
    if "list_all id_char w" for w and c :: char
    using that by (auto simp: list_all_iff id_char_def)
  note no = ids [OF assms(1)] ids [OF assms(2)] ids [OF assms(3)]
  have noslash: "CHR ''/'' \<notin> set host" "CHR ''/'' \<notin> set profile" "CHR ''/'' \<notin> set device" "CHR ''/'' \<notin> set ''dns-query''"
    using no by auto
  have empty: "CHR ''/'' \<notin> set []" by simp
  define url where "url q = CHR ''/'' # [] @ CHR ''/'' # host @ CHR ''/'' # ''dns-query'' @ CHR ''/'' # q @ CHR ''/'' # device" for q
  have form: "doh_url host q device = ''https:'' @ url q" for q by (simp add: doh_url_def url_def)
  have https: "CHR ''/'' \<notin> set ''https:''" by simp
  have skip: "replace_ids k repl (url profile) = url profile"
    if "key_ok k" "[] \<noteq> k" "js_toLowerCase host \<noteq> k" "''dns-query'' \<noteq> k" "js_toLowerCase profile \<noteq> k" for k repl
  proof -
    have words: "js_toLowerCase ''dns-query'' \<noteq> k" "js_toLowerCase [] \<noteq> k"
      using that(2,4) by (simp_all only: words_not_keys js_toLowerCase_simps(1)) simp_all
    show ?thesis
      unfolding url_def replace_skip [OF that(1) empty words(2)] replace_skip [OF that(1) noslash(1) that(3)]
        replace_skip [OF that(1) noslash(4) words(1)] replace_skip [OF that(1) noslash(2) that(5)] replace_last [OF noslash(3)] ..
  qed
  have "replace_ids ''profiles'' PROFILE_REPL (url profile) = url profile" "replace_ids ''devices'' DEVICE_REPL (url profile) = url profile"
    using assms(5,6) by (auto intro!: skip keys_ok)
  moreover have "replace_ids ''dns-query'' PROFILE_REPL (url profile) = url PROFILE_REPL"
  proof -
    have w: "takeWhile id_char (profile @ CHR ''/'' # device) = profile" "dropWhile id_char (profile @ CHR ''/'' # device) = CHR ''/'' # device"
      using assms(2) by (simp_all add: list_all_iff takeWhile_append2 dropWhile_append2)
    have hit: "replace_ids ''dns-query'' PROFILE_REPL (CHR ''/'' # ''dns-query'' @ CHR ''/'' # profile @ CHR ''/'' # device) =
        CHR ''/'' # ''dns-query'' @ CHR ''/'' # PROFILE_REPL @ CHR ''/'' # device"
      using replace_hit [OF words_not_keys, of "profile @ CHR ''/'' # device" PROFILE_REPL] w assms(4) replace_last [OF noslash(3)]
      by simp
    have "js_toLowerCase [] \<noteq> ''dns-query''" "js_toLowerCase host \<noteq> ''dns-query''" using assms(5) by simp_all
    then show ?thesis
      unfolding url_def replace_skip [OF keys_ok(3) empty \<open>js_toLowerCase [] \<noteq> ''dns-query''\<close>]
        replace_skip [OF keys_ok(3) noslash(1) \<open>js_toLowerCase host \<noteq> ''dns-query''\<close>] by (simp only: hit)
  qed
  ultimately have "clean_path (''https:'' @ url profile) = ''https:'' @ url PROFILE_REPL"
    unfolding clean_path_def by (simp only: replace_plain [OF https])
  moreover have "CHR ''#'' \<notin> set (doh_url host profile device)" "CHR ''?'' \<notin> set (doh_url host profile device)"
    using no by (auto simp: doh_url_def)
  moreover have "doh_url host profile device \<noteq> []" by (simp add: doh_url_def)
  ultimately show ?thesis using scrub_plain_path form by metis
qed

theorem device_of_doh_url_is_sent_witness:
  "scrubUrl ''https://dns.moddns.net/dns-query/8kqr1tbfco/laptop'' = Some ''https://dns.moddns.net/dns-query/:profile_id/laptop''"
proof -
  have "list_all id_char ''dns.moddns.net''" "list_all id_char ''8kqr1tbfco''" "list_all id_char ''laptop''" "''8kqr1tbfco'' \<noteq> []"
    "js_toLowerCase ''dns.moddns.net'' \<notin> {''profiles'', ''devices'', ''dns-query''}"
    "js_toLowerCase ''8kqr1tbfco'' \<notin> {''profiles'', ''devices''}" by code_simp+
  from device_of_doh_url_is_sent [OF this] show ?thesis by (simp add: doh_url_def PROFILE_REPL_def)
qed

end
