(* ===== verification/SwUpdate.thy ===== *)
theory SwUpdate
  imports Prelude
begin

text \<open>
  How the app finds and applies a new deployment: app/src/lib/swUpdate.ts.

  The state is the closure of \<open>setupSWUpdate\<close> with the parts of the browser it reads: whether the tab is
  hidden, whether it is online, what the registration shows, and the entry of the session storage
  (\<open>None\<close> when storage throws). \<open>location.reload\<close> is counted; the page that follows starts from
  \<open>fresh_page\<close> with the storage of the old one. Times are in milliseconds.
\<close>

subsection \<open>The page\<close>

record update_source =
  us_hasWaiting :: bool
  us_buildId :: "string option"

record app_page =
  ap_own :: string
  ap_registered :: bool
  ap_waiting :: bool
  ap_installing :: bool
  ap_hidden :: bool
  ap_online :: bool
  ap_updateHandled :: bool
  ap_reloading :: bool
  ap_reloads :: nat
  ap_updateSW :: nat
  ap_armed :: bool
  ap_timers :: nat
  ap_onHidden :: "update_source option"
  ap_toast :: "update_source option"
  ap_swiped :: bool
  ap_lastCheckAt :: "nat option"
  ap_checks :: "(nat \<times> bool) list"
  ap_fetching :: nat
  ap_settling :: "string list"
  ap_storage :: "string option option"
  ap_auto :: "string list"

definition NAV_CHECK_MIN_INTERVAL_MS :: nat where "NAV_CHECK_MIN_INTERVAL_MS = 60 * 1000"

definition reload :: "app_page \<Rightarrow> app_page" where
  "reload p = (if ap_reloading p then p else p\<lparr>ap_reloading := True, ap_reloads := ap_reloads p + 1\<rparr>)"

definition applyWaiting :: "app_page \<Rightarrow> app_page" where
  "applyWaiting p = p\<lparr>ap_updateSW := ap_updateSW p + 1, ap_armed := True, ap_timers := ap_timers p + 1\<rparr>"

text \<open>\<open>ap_auto\<close> records the builds reloaded for.\<close>

definition autoReload :: "string \<Rightarrow> app_page \<Rightarrow> bool \<times> app_page" where
  "autoReload buildId p =
     (case ap_storage p of
        None \<Rightarrow> (False, p)
      | Some entry \<Rightarrow>
          if entry = Some buildId then (False, p)
          else (True, reload (p\<lparr>ap_storage := Some (Some buildId), ap_auto := ap_auto p @ [buildId]\<rparr>)))"

definition apply_update :: "update_source \<Rightarrow> bool \<Rightarrow> app_page \<Rightarrow> bool \<times> app_page" where
  "apply_update source manual p =
     (if us_hasWaiting source \<or> (ap_registered p \<and> ap_waiting p) then (True, applyWaiting p)
      else if manual then (True, reload p)
      else autoReload (nullish (us_buildId source) ''unknown'') p)"

definition onUpdateAvailable :: "update_source \<Rightarrow> app_page \<Rightarrow> app_page" where
  "onUpdateAvailable source p =
     (if ap_updateHandled p then p
      else if ap_hidden p then (let (handled, p1) = apply_update source False p in p1\<lparr>ap_updateHandled := handled\<rparr>)
      else p\<lparr>ap_updateHandled := True, ap_onHidden := Some source, ap_toast := Some source\<rparr>)"

text \<open>
  The click on the toast, after which the toast closes, a swipe that closes it, and the tab being hidden
  while the listener is there. A swipe leaves the listener; \<open>ap_swiped\<close> records it.
\<close>

definition applyOnce :: "app_page \<Rightarrow> app_page" where
  "applyOnce p =
     (case ap_toast p of
        None \<Rightarrow> p
      | Some source \<Rightarrow> (snd (apply_update source True (p\<lparr>ap_onHidden := None\<rparr>)))\<lparr>ap_toast := None\<rparr>)"

definition toast_swiped :: "app_page \<Rightarrow> app_page" where
  "toast_swiped p = (if ap_toast p = None then p else p\<lparr>ap_toast := None, ap_swiped := True\<rparr>)"

definition tab_hidden :: "app_page \<Rightarrow> app_page" where
  "tab_hidden p =
     (case ap_onHidden p of
        None \<Rightarrow> p
      | Some source \<Rightarrow> snd (apply_update source False (p\<lparr>ap_onHidden := None\<rparr>)))"

text \<open>
  The version check: the fetch, its answer (\<open>None\<close> is no usable answer), and, with a registration, the
  settling of the update it asked for.
\<close>

definition versionCheck :: "app_page \<Rightarrow> app_page" where
  "versionCheck p = p\<lparr>ap_fetching := ap_fetching p + 1\<rparr>"

definition version_answer :: "string option \<Rightarrow> app_page \<Rightarrow> app_page" where
  "version_answer answer p =
     (if ap_fetching p = 0 then p
      else
        let p1 = p\<lparr>ap_fetching := ap_fetching p - 1\<rparr> in
        (case answer of
           None \<Rightarrow> p1
         | Some buildId \<Rightarrow>
             if buildId = [] \<or> buildId = ap_own p then p1
             else if ap_registered p1 then p1\<lparr>ap_settling := ap_settling p1 @ [buildId]\<rparr>
             else onUpdateAvailable \<lparr>us_hasWaiting = False, us_buildId = Some buildId\<rparr> p1))"

definition update_settled :: "app_page \<Rightarrow> app_page" where
  "update_settled p =
     (case ap_settling p of
        [] \<Rightarrow> p
      | buildId # queue \<Rightarrow>
          let p1 = p\<lparr>ap_settling := queue\<rparr> in
          if ap_waiting p1 then onUpdateAvailable \<lparr>us_hasWaiting = True, us_buildId = None\<rparr> p1
          else if ap_installing p1 then p1
          else onUpdateAvailable \<lparr>us_hasWaiting = False, us_buildId = Some buildId\<rparr> p1)"

text \<open>A check is recorded with its time and whether a navigation made it.\<close>

definition check_now :: "nat \<Rightarrow> bool \<Rightarrow> app_page \<Rightarrow> app_page" where
  "check_now now nav p =
     (if \<not> ap_registered p \<or> \<not> ap_online p then p
      else versionCheck (p\<lparr>ap_lastCheckAt := Some now, ap_checks := ap_checks p @ [(now, nav)]\<rparr>))"

definition checkForAppUpdate :: "nat \<Rightarrow> app_page \<Rightarrow> app_page" where
  "checkForAppUpdate now p =
     (case ap_lastCheckAt p of
        None \<Rightarrow> p
      | Some before \<Rightarrow> if now - before < NAV_CHECK_MIN_INTERVAL_MS then p else check_now now True p)"

definition onRegisteredSW :: "nat \<Rightarrow> app_page \<Rightarrow> app_page" where
  "onRegisteredSW now p = p\<lparr>ap_registered := True, ap_lastCheckAt := Some now\<rparr>"

definition fresh_page :: "string \<Rightarrow> bool \<Rightarrow> bool \<Rightarrow> string option option \<Rightarrow> string list \<Rightarrow> app_page" where
  "fresh_page own is_hidden is_online storage auto =
     \<lparr>ap_own = own, ap_registered = False, ap_waiting = False, ap_installing = False, ap_hidden = is_hidden, ap_online = is_online,
      ap_updateHandled = False, ap_reloading = False, ap_reloads = 0, ap_updateSW = 0, ap_armed = False, ap_timers = 0,
      ap_onHidden = None, ap_toast = None, ap_swiped = False, ap_lastCheckAt = None, ap_checks = [], ap_fetching = 0, ap_settling = [],
      ap_storage = storage, ap_auto = auto\<rparr>"

datatype page_event =
    Registered nat
  | NeedRefresh
  | Workers bool bool
  | Visibility nat bool
  | Connection bool
  | Interval nat
  | Navigation nat
  | Startup
  | VersionAnswer "string option"
  | UpdateSettled
  | RefreshClick
  | ToastSwiped
  | ControllerChange
  | FallbackTimer
  | PageLoad string

text \<open>
  What the page does with them. Both listeners see a change of visibility: the check of the tab that
  became visible, and the one of the update that waits for it to be hidden. A page load follows a
  reload; the new page may be of another build.
\<close>

fun page_step :: "app_page \<Rightarrow> page_event \<Rightarrow> app_page" where
  "page_step p (Registered now) = (if ap_registered p then p else onRegisteredSW now p)"
| "page_step p NeedRefresh = onUpdateAvailable \<lparr>us_hasWaiting = True, us_buildId = None\<rparr> p"
| "page_step p (Workers w i) = p\<lparr>ap_waiting := w, ap_installing := i\<rparr>"
| "page_step p (Visibility now is_hidden) =
     (let p1 = p\<lparr>ap_hidden := is_hidden\<rparr> in if is_hidden then tab_hidden p1 else check_now now False p1)"
| "page_step p (Connection on) = p\<lparr>ap_online := on\<rparr>"
| "page_step p (Interval now) = check_now now False p"
| "page_step p (Navigation now) = checkForAppUpdate now p"
| "page_step p Startup = (if ap_online p then versionCheck p else p)"
| "page_step p (VersionAnswer a) = version_answer a p"
| "page_step p UpdateSettled = update_settled p"
| "page_step p RefreshClick = applyOnce p"
| "page_step p ToastSwiped = toast_swiped p"
| "page_step p ControllerChange = (if ap_armed p then reload (p\<lparr>ap_armed := False\<rparr>) else p)"
| "page_step p FallbackTimer = (if 0 < ap_timers p then reload (p\<lparr>ap_timers := ap_timers p - 1\<rparr>) else p)"
| "page_step p (PageLoad own) =
     (if ap_reloading p then fresh_page own (ap_hidden p) (ap_online p) (ap_storage p) (ap_auto p) else p)"

subsection \<open>What holds of every page\<close>

definition page_ok :: "app_page \<Rightarrow> bool" where
  "page_ok p \<longleftrightarrow>
     ap_reloads p = (if ap_reloading p then 1 else 0) \<and>
     distinct_adj (ap_auto p) \<and> (ap_auto p \<noteq> [] \<longrightarrow> ap_storage p = Some (Some (last (ap_auto p)))) \<and>
     (ap_updateHandled p \<longrightarrow> ap_toast p \<noteq> None \<or> ap_reloading p \<or> 0 < ap_timers p \<or> ap_swiped p)"

lemma reload_ok: "page_ok p \<Longrightarrow> page_ok (reload p)"
  by (auto simp: page_ok_def reload_def)

lemma reload_fields [simp]:
  "ap_reloading (reload p)" "ap_auto (reload p) = ap_auto p" "ap_storage (reload p) = ap_storage p"
  "ap_toast (reload p) = ap_toast p" "ap_timers (reload p) = ap_timers p" "ap_updateHandled (reload p) = ap_updateHandled p"
  "ap_swiped (reload p) = ap_swiped p"
  by (simp_all add: reload_def)

lemma distinct_adj_snoc: "distinct_adj xs \<Longrightarrow> (xs \<noteq> [] \<Longrightarrow> last xs \<noteq> y) \<Longrightarrow> distinct_adj (xs @ [y])"
  by (cases "xs = []") (simp_all add: distinct_adj_append_iff)

lemma auto_ok:
  assumes "page_ok p"
  shows "page_ok (snd (autoReload b p))" and "fst (autoReload b p) \<Longrightarrow> ap_reloading (snd (autoReload b p))"
proof -
  show "page_ok (snd (autoReload b p))"
  proof (cases "ap_storage p")
    case (Some e)
    show ?thesis
    proof (cases "e = Some b")
      case False
      have "distinct_adj (ap_auto p @ [b])"
        using assms Some False by (intro distinct_adj_snoc) (auto simp: page_ok_def)
      with assms have "page_ok (p\<lparr>ap_storage := Some (Some b), ap_auto := ap_auto p @ [b]\<rparr>)" by (simp add: page_ok_def)
      from reload_ok [OF this] Some False show ?thesis by (simp add: autoReload_def)
    qed (use assms Some in \<open>simp add: autoReload_def\<close>)
  qed (use assms in \<open>simp add: autoReload_def\<close>)
  show "fst (autoReload b p) \<Longrightarrow> ap_reloading (snd (autoReload b p))"
    by (auto simp: autoReload_def split: option.splits if_splits)
qed

lemma apply_ok:
  assumes "page_ok p"
  shows "page_ok (snd (apply_update s m p))"
    and "fst (apply_update s m p) \<Longrightarrow> ap_reloading (snd (apply_update s m p)) \<or> 0 < ap_timers (snd (apply_update s m p))"
proof -
  have "page_ok (applyWaiting p)" using assms by (auto simp: page_ok_def applyWaiting_def)
  then show "page_ok (snd (apply_update s m p))"
    using auto_ok(1) [OF assms] reload_ok [OF assms] by (simp add: apply_update_def)
  show "fst (apply_update s m p) \<Longrightarrow> ap_reloading (snd (apply_update s m p)) \<or> 0 < ap_timers (snd (apply_update s m p))"
    using auto_ok(2) [OF assms] by (auto simp: apply_update_def applyWaiting_def split: if_splits)
qed

lemma available_ok:
  assumes "page_ok p"
  shows "page_ok (onUpdateAvailable s p)"
proof -
  obtain h p1 where r: "apply_update s False p = (h, p1)" by fastforce
  have ok: "page_ok p1" "h \<Longrightarrow> ap_reloading p1 \<or> 0 < ap_timers p1" using apply_ok [OF assms, of s False] r by simp_all
  then have "page_ok (p1\<lparr>ap_updateHandled := h\<rparr>)" by (auto simp: page_ok_def)
  with assms r show ?thesis by (auto simp: onUpdateAvailable_def page_ok_def)
qed

lemma page_ok_cong:
  assumes "page_ok p" and "ap_reloads q = ap_reloads p" "ap_reloading q = ap_reloading p" "ap_auto q = ap_auto p"
    "ap_storage q = ap_storage p" "ap_updateHandled q = ap_updateHandled p" "ap_toast q = ap_toast p" "ap_timers q = ap_timers p"
    "ap_swiped q = ap_swiped p"
  shows "page_ok q"
  using assms by (simp add: page_ok_def)

lemma apply_manual: "fst (apply_update s True p)"
  by (simp add: apply_update_def)

lemma toast_closed: "page_ok p \<Longrightarrow> ap_reloading p \<or> 0 < ap_timers p \<Longrightarrow> page_ok (p\<lparr>ap_toast := None\<rparr>)"
  by (auto simp: page_ok_def)

lemma check_ok: "page_ok p \<Longrightarrow> page_ok (check_now now nav p)"
  by (auto simp: check_now_def versionCheck_def intro: page_ok_cong)

lemma page_step_ok:
  assumes ok: "page_ok p"
  shows "page_ok (page_step p e)"
proof (cases e)
  case NeedRefresh
  with available_ok [OF ok] show ?thesis by simp
next
  case (Visibility now h)
  have ok1: "page_ok (p\<lparr>ap_hidden := h\<rparr>)" using ok by (rule page_ok_cong) simp_all
  have "page_ok (tab_hidden q)" if "page_ok q" for q
  proof (cases "ap_onHidden q")
    case (Some s)
    have "page_ok (q\<lparr>ap_onHidden := None\<rparr>)" using that by (rule page_ok_cong) simp_all
    from apply_ok(1) [OF this] Some show ?thesis by (simp add: tab_hidden_def)
  qed (use that in \<open>simp add: tab_hidden_def\<close>)
  with ok1 check_ok [OF ok1] Visibility show ?thesis by (cases h) (simp_all add: Let_def)
next
  case (Interval now)
  with check_ok [OF ok] show ?thesis by simp
next
  case (Navigation now)
  with ok check_ok [OF ok] show ?thesis by (simp add: checkForAppUpdate_def split: option.split)
next
  case (VersionAnswer a)
  have "page_ok (p\<lparr>ap_fetching := n\<rparr>)" "page_ok (p\<lparr>ap_fetching := n, ap_settling := l\<rparr>)" for n l
    by (rule page_ok_cong [OF ok]; simp)+
  with ok VersionAnswer available_ok show ?thesis by (simp add: version_answer_def Let_def split: option.split)
next
  case UpdateSettled
  have "page_ok (p\<lparr>ap_settling := l\<rparr>)" for l by (rule page_ok_cong [OF ok]) simp_all
  with ok UpdateSettled available_ok show ?thesis by (simp add: update_settled_def Let_def split: list.split)
next
  case RefreshClick
  have "page_ok (p\<lparr>ap_onHidden := None\<rparr>)" by (rule page_ok_cong [OF ok]) simp_all
  from apply_ok [OF this, of _ True] have "page_ok ((snd (apply_update s True (p\<lparr>ap_onHidden := None\<rparr>)))\<lparr>ap_toast := None\<rparr>)" for s
    using apply_manual [of s "p\<lparr>ap_onHidden := None\<rparr>"] by (intro toast_closed) simp_all
  with ok RefreshClick show ?thesis by (simp add: applyOnce_def split: option.split)
next
  case ToastSwiped
  with ok show ?thesis by (auto simp: toast_swiped_def page_ok_def)
next
  case ControllerChange
  have "page_ok (p\<lparr>ap_armed := False\<rparr>)" by (rule page_ok_cong [OF ok]) simp_all
  from reload_ok [OF this] ok ControllerChange show ?thesis by simp
next
  case FallbackTimer
  have "page_ok (reload (p\<lparr>ap_timers := ap_timers p - 1\<rparr>))"
    using ok by (auto simp: page_ok_def reload_def)
  with ok FallbackTimer show ?thesis by simp
next
  case (PageLoad own)
  with ok show ?thesis by (auto simp: page_ok_def fresh_page_def)
qed (use ok in \<open>auto simp: onRegisteredSW_def versionCheck_def intro: page_ok_cong\<close>)

interpretation page_machine: machine page_step page_ok
  by unfold_locales (rule page_step_ok)

lemma fresh_page_ok: "page_ok (fresh_page own h on storage [])"
  by (simp add: page_ok_def fresh_page_def)

lemma waiting_round:
  "foldl page_step (fresh_page own True on storage auto) [NeedRefresh, FallbackTimer, PageLoad own] =
     fresh_page own True on storage auto"
  by (simp add: fresh_page_def onUpdateAvailable_def apply_update_def applyWaiting_def reload_def Let_def)

text \<open>
  Property C26 (update_reloads_guarded). Whatever happens to the tab, over any number of page loads: a
  page reloads itself at most once, and the automatic reload of a tab in which no worker waits never
  happens twice in a row for the same build. An update the page counts as handled has its toast on the
  screen, is being reloaded for, or has its fallback timer running, unless the user swiped the toast
  away. The guard is that reload's alone: a worker that waits at every load reloads a hidden tab at
  every load, as the last conjunct shows.
\<close>

theorem update_reloads_guarded:
  fixes storage :: "string option option" and own :: string and es :: "page_event list" and h on :: bool
    and auto :: "string list"
  defines "p \<equiv> foldl page_step (fresh_page own h on storage []) es"
  shows "ap_reloads p \<le> 1 \<and> distinct_adj (ap_auto p) \<and>
         (ap_updateHandled p \<longrightarrow> ap_toast p \<noteq> None \<or> ap_reloading p \<or> 0 < ap_timers p \<or> ap_swiped p) \<and>
         foldl page_step (fresh_page own True on storage auto) [NeedRefresh, FallbackTimer, PageLoad own] =
           fresh_page own True on storage auto"
proof -
  have "page_ok p" unfolding p_def by (rule page_machine.run_inv [OF fresh_page_ok])
  then show ?thesis using waiting_round by (simp add: page_ok_def del: foldl_Cons)
qed

theorem update_reloads_guarded_witness:
  "let p = foldl page_step (fresh_page ''a'' False True (Some None) [])
             [Startup, VersionAnswer (Some ''b''), Visibility 1 True, Visibility 2 False, RefreshClick]
   in ap_updateHandled p \<and> ap_auto p = [''b''] \<and> ap_reloads p \<le> 1 \<and>
      (ap_toast p \<noteq> None \<or> ap_reloading p \<or> 0 < ap_timers p \<or> ap_swiped p)"
proof -
  let ?es = "[Startup, VersionAnswer (Some ''b''), Visibility 1 True, Visibility 2 False, RefreshClick]"
  have "ap_updateHandled (foldl page_step (fresh_page ''a'' False True (Some None) []) ?es)"
    "ap_auto (foldl page_step (fresh_page ''a'' False True (Some None) []) ?es) = [''b'']" by code_simp+
  then show ?thesis
    using update_reloads_guarded [of "''a''" False True "Some None" ?es] by (simp add: Let_def del: foldl_Cons)
qed

subsection \<open>Two deployments that alternate\<close>

definition stale_load :: "string \<Rightarrow> string \<Rightarrow> page_event list" where
  "stale_load own answer = [Startup, VersionAnswer (Some answer), PageLoad own]"

lemma stale_load_reloads:
  assumes "ap_hidden p" "ap_online p" "\<not> ap_registered p" "\<not> ap_updateHandled p" "ap_fetching p = 0" "\<not> ap_reloading p"
    and "b \<noteq> []" "b \<noteq> ap_own p" and "ap_storage p = Some entry" "entry \<noteq> Some b"
  shows "foldl page_step p (stale_load own b) = fresh_page own True True (Some (Some b)) (ap_auto p @ [b])"
  using assms
  by (simp add: stale_load_def versionCheck_def version_answer_def onUpdateAvailable_def apply_update_def autoReload_def
      nullish_def Let_def reload_def)

text \<open>
  Fact (alternating_builds_reload_forever). The guard remembers one build only. When a tab keeps
  loading a stale page while the servers answer with two different builds in turn, as during a rolling
  deployment, the hidden tab reloads at every load.
\<close>

theorem alternating_builds_reload_forever:
  assumes "a \<noteq> []" "b \<noteq> []" "a \<noteq> b" "a \<noteq> own" "b \<noteq> own"
  shows "ap_auto (foldl page_step (fresh_page own True True (Some None) [])
           (concat (replicate n (stale_load own a @ stale_load own b)))) = concat (replicate n [a, b])"
proof -
  have fields: "ap_hidden (fresh_page own True True s l)" "ap_online (fresh_page own True True s l)"
    "\<not> ap_registered (fresh_page own True True s l)" "\<not> ap_updateHandled (fresh_page own True True s l)"
    "ap_fetching (fresh_page own True True s l) = 0" "\<not> ap_reloading (fresh_page own True True s l)"
    "ap_own (fresh_page own True True s l) = own" "ap_storage (fresh_page own True True s l) = s"
    "ap_auto (fresh_page own True True s l) = l" for s l
    by (simp_all add: fresh_page_def)
  have one: "foldl page_step (fresh_page own True True (Some e) l) (stale_load own x) =
      fresh_page own True True (Some (Some x)) (l @ [x])" if "x \<noteq> []" "x \<noteq> own" "e \<noteq> Some x" for e l x
    using stale_load_reloads [of "fresh_page own True True (Some e) l" x e own] that by (simp add: fields)
  have two: "foldl page_step (fresh_page own True True (Some e) l) (stale_load own a @ stale_load own b) =
      fresh_page own True True (Some (Some b)) (l @ [a, b])" if "e \<noteq> Some a" for e l
    using assms that by (simp add: one)
  have "\<exists>e. e \<noteq> Some a \<and> foldl page_step (fresh_page own True True (Some e0) l)
           (concat (replicate n (stale_load own a @ stale_load own b))) =
         fresh_page own True True (Some e) (l @ concat (replicate n [a, b]))" if "e0 \<noteq> Some a" for e0 l
    using that
  proof (induction n arbitrary: e0 l)
    case (Suc n)
    have "foldl page_step (fresh_page own True True (Some e0) l) (concat (replicate (Suc n) (stale_load own a @ stale_load own b))) =
        foldl page_step (fresh_page own True True (Some (Some b)) (l @ [a, b])) (concat (replicate n (stale_load own a @ stale_load own b)))"
      using two [OF Suc.prems, of l] by simp
    moreover have "Some b \<noteq> Some a" using assms(3) by simp
    ultimately show ?case using Suc.IH [of "Some b" "l @ [a, b]"] by simp
  qed auto
  from this [of None "[]"] show ?thesis by (auto simp: fields)
qed

theorem alternating_builds_reload_forever_witness:
  "ap_auto (foldl page_step (fresh_page ''old'' True True (Some None) [])
     (concat (replicate 2 (stale_load ''old'' ''x'' @ stale_load ''old'' ''y'')))) = [''x'', ''y'', ''x'', ''y'']"
proof -
  have "''x'' \<noteq> []" "''y'' \<noteq> []" "''x'' \<noteq> ''y''" "''x'' \<noteq> ''old''" "''y'' \<noteq> ''old''" by simp_all
  from alternating_builds_reload_forever [OF this, of 2] show ?thesis by (simp add: numeral_2_eq_2)
qed

subsection \<open>The throttle\<close>

text \<open>Checks of one page, with the registration as time zero of the throttle.\<close>

definition spaced :: "(nat \<times> bool) list \<Rightarrow> bool" where
  "spaced cs \<longleftrightarrow> (\<forall>i. Suc i < length cs \<longrightarrow> snd (cs ! Suc i) \<longrightarrow> fst (cs ! i) + NAV_CHECK_MIN_INTERVAL_MS \<le> fst (cs ! Suc i))"

definition throttled :: "app_page \<Rightarrow> bool" where
  "throttled p \<longleftrightarrow> spaced (ap_checks p) \<and> (ap_checks p \<noteq> [] \<longrightarrow> ap_lastCheckAt p = Some (fst (last (ap_checks p)))) \<and>
     (ap_checks p \<noteq> [] \<longrightarrow> ap_registered p)"

lemma spaced_snoc:
  assumes "spaced cs" and "nav \<Longrightarrow> cs \<noteq> [] \<Longrightarrow> fst (last cs) + NAV_CHECK_MIN_INTERVAL_MS \<le> now"
  shows "spaced (cs @ [(now, nav)])"
  unfolding spaced_def
proof (intro allI impI)
  fix i assume i: "Suc i < length (cs @ [(now, nav)])" "snd ((cs @ [(now, nav)]) ! Suc i)"
  show "fst ((cs @ [(now, nav)]) ! i) + NAV_CHECK_MIN_INTERVAL_MS \<le> fst ((cs @ [(now, nav)]) ! Suc i)"
  proof (cases "Suc i < length cs")
    case True
    with i assms(1) show ?thesis by (simp add: spaced_def nth_append)
  next
    case False
    with i(1) have "Suc i = length cs" by simp
    then have "cs \<noteq> []" "i = length cs - 1" by auto
    with i(2) assms(2) show ?thesis by (simp add: nth_append last_conv_nth)
  qed
qed

lemma throttled_cong:
  assumes "throttled p" and "ap_checks q = ap_checks p" "ap_lastCheckAt q = ap_lastCheckAt p" "ap_registered q = ap_registered p"
  shows "throttled q"
  using assms by (simp add: throttled_def)

lemma check_throttled:
  assumes "throttled p" and "nav \<Longrightarrow> ap_checks p \<noteq> [] \<Longrightarrow> fst (last (ap_checks p)) + NAV_CHECK_MIN_INTERVAL_MS \<le> now"
  shows "throttled (check_now now nav p)"
  using assms spaced_snoc [of "ap_checks p" nav now] by (auto simp: throttled_def check_now_def versionCheck_def)

lemma update_fields [simp]:
  "ap_checks (reload p) = ap_checks p" "ap_lastCheckAt (reload p) = ap_lastCheckAt p" "ap_registered (reload p) = ap_registered p"
  "ap_checks (snd (apply_update s m p)) = ap_checks p" "ap_lastCheckAt (snd (apply_update s m p)) = ap_lastCheckAt p"
  "ap_registered (snd (apply_update s m p)) = ap_registered p"
  by (auto simp: reload_def apply_update_def applyWaiting_def autoReload_def split: option.split)

lemma available_fields [simp]:
  "ap_checks (onUpdateAvailable s p) = ap_checks p" "ap_lastCheckAt (onUpdateAvailable s p) = ap_lastCheckAt p"
  "ap_registered (onUpdateAvailable s p) = ap_registered p"
  using update_fields(4-6) [of s False p] by (simp_all add: onUpdateAvailable_def split_beta)

lemma page_step_throttled:
  assumes t: "throttled p"
  shows "throttled (page_step p e)"
proof (cases e)
  case (Registered now)
  with t show ?thesis by (auto simp: onRegisteredSW_def throttled_def)
next
  case (Visibility now h)
  have "throttled (p\<lparr>ap_hidden := h\<rparr>)" by (rule throttled_cong [OF t]) simp_all
  from check_throttled [OF this, of False now] this Visibility show ?thesis
    by (cases h) (auto simp: tab_hidden_def Let_def intro: throttled_cong [OF t] split: option.split)
next
  case (Interval now)
  with check_throttled [OF t, of False now] show ?thesis by simp
next
  case (Navigation now)
  show ?thesis
  proof (cases "ap_lastCheckAt p")
    case (Some b)
    with t have "ap_checks p \<noteq> [] \<Longrightarrow> fst (last (ap_checks p)) = b" by (simp add: throttled_def)
    with check_throttled [OF t, of True now] t Some Navigation show ?thesis
      by (auto simp: checkForAppUpdate_def NAV_CHECK_MIN_INTERVAL_MS_def)
  qed (use t Navigation in \<open>simp add: checkForAppUpdate_def\<close>)
next
  case (PageLoad own)
  with t show ?thesis by (simp add: fresh_page_def throttled_def spaced_def)
qed (auto simp: version_answer_def update_settled_def applyOnce_def toast_swiped_def versionCheck_def Let_def
      intro: throttled_cong [OF t] split: option.split list.split)

interpretation throttle_machine: machine page_step throttled
  by unfold_locales (rule page_step_throttled)

text \<open>
  Fact (navigation_checks_throttled). Whatever the events, a check made by a navigation comes at
  least a minute after the check before it, whatever made that one.
\<close>

theorem navigation_checks_throttled:
  fixes es :: "page_event list" and own :: string and h on :: bool and storage :: "string option option"
  defines "cs \<equiv> ap_checks (foldl page_step (fresh_page own h on storage []) es)"
  assumes "Suc i < length cs" and "snd (cs ! Suc i)"
  shows "fst (cs ! i) + 60000 \<le> fst (cs ! Suc i)"
proof -
  have "throttled (fresh_page own h on storage [])" by (simp add: throttled_def fresh_page_def spaced_def)
  from throttle_machine.run_inv [OF this, of es] assms show ?thesis
    by (simp add: throttled_def spaced_def NAV_CHECK_MIN_INTERVAL_MS_def)
qed

theorem navigation_checks_throttled_witness:
  "let cs = ap_checks (foldl page_step (fresh_page ''a'' False True (Some None) [])
             [Registered 0, Navigation 10, Interval 70000, Navigation 80000, Navigation 140000])
   in cs = [(70000, False), (140000, True)] \<and> fst (cs ! 0) + 60000 \<le> fst (cs ! 1)"
proof -
  let ?es = "[Registered 0, Navigation 10, Interval 70000, Navigation 80000, Navigation 140000]"
  have cs: "ap_checks (foldl page_step (fresh_page ''a'' False True (Some None) []) ?es) = [(70000, False), (140000, True)]"
    by (simp add: fresh_page_def onRegisteredSW_def checkForAppUpdate_def check_now_def versionCheck_def NAV_CHECK_MIN_INTERVAL_MS_def)
  have "fst ([(70000, False), (140000, True)] ! 0) + 60000 \<le> fst ([(70000, False), (140000, True)] ! Suc 0 :: nat \<times> bool)"
    using navigation_checks_throttled [of 0 "''a''" False True "Some None" ?es] unfolding cs by simp
  then show ?thesis unfolding Let_def cs by simp
qed

subsection \<open>An update applied twice\<close>

text \<open>
  Fact (update_applied_twice). The comment on the toast says the update is only ever applied once,
  but leaving the tab applies it without closing the toast, so a click on the toast before the page is
  reloaded activates the waiting worker again and sets a second timer.
\<close>

theorem update_applied_twice:
  fixes p :: app_page and t1 t2 :: nat
  assumes "\<not> ap_hidden p" "\<not> ap_updateHandled p" "\<not> ap_registered p \<or> \<not> ap_online p"
  defines "q \<equiv> foldl page_step p [NeedRefresh, Visibility t1 True, Visibility t2 False, RefreshClick]"
  shows "ap_updateSW q = ap_updateSW p + 2 \<and> ap_timers q = ap_timers p + 2"
  using assms(1-3)
  by (auto simp: q_def onUpdateAvailable_def tab_hidden_def apply_update_def applyWaiting_def check_now_def applyOnce_def Let_def)

theorem update_applied_twice_witness:
  "ap_updateSW (foldl page_step (fresh_page ''a'' False True (Some None) [])
     [NeedRefresh, Visibility 1 True, Visibility 2 False, RefreshClick]) = 2"
proof -
  let ?p = "fresh_page ''a'' False True (Some None) []"
  have "\<not> ap_hidden ?p" "\<not> ap_updateHandled ?p" "\<not> ap_registered ?p \<or> \<not> ap_online ?p" "ap_updateSW ?p = 0"
    by (simp_all add: fresh_page_def)
  from update_applied_twice [OF this(1-3), of 1 2] this(4) show ?thesis by simp
qed

end
