(* ===== verification/LazyLoad.thy ===== *)
theory LazyLoad
  imports Prelude
begin

text \<open>
  Loading a page's code on demand: app/src/lib/lazyWithRetry.ts.

  The answer of the \<open>n\<close>-th call of the import is an argument. The sleeps are recorded with their lengths,
  and the page load that ends a failed attempt is a result of its own: the promise then never settles.
  The entry of the session storage is a text; times are in milliseconds.
\<close>

subsection \<open>The attempts\<close>

datatype import_answer = Imported string | ImportError string | ImportThrew string

datatype load_result = Loaded string | LoadThrew import_answer | Reloading

definition isChunkError :: "string \<Rightarrow> bool" where
  "isChunkError message =
     (js_includes message ''dynamically imported module'' \<or> js_includes message ''Failed to fetch'' \<or>
      js_includes message ''Loading chunk'' \<or> js_includes message ''Loading CSS chunk'')"

text \<open>
  The loop: its answer, or the last error when all attempts failed, with the number of calls and the
  sleeps. \<open>ImportThrew\<close> is a thrown value that is no \<open>Error\<close>.
\<close>

function attempts :: "(nat \<Rightarrow> import_answer) \<Rightarrow> nat \<Rightarrow> nat \<Rightarrow> import_answer option \<Rightarrow> nat list
    \<Rightarrow> (load_result + import_answer option) \<times> nat \<times> nat list" where
  "attempts importFn retries attempt lastError sleeps =
     (if retries < attempt then (Inr lastError, attempt, sleeps)
      else case importFn attempt of
             Imported m \<Rightarrow> (Inl (Loaded m), Suc attempt, sleeps)
           | ImportThrew v \<Rightarrow> (Inl (LoadThrew (ImportThrew v)), Suc attempt, sleeps)
           | ImportError msg \<Rightarrow>
               if \<not> isChunkError msg then (Inl (LoadThrew (ImportError msg)), Suc attempt, sleeps)
               else attempts importFn retries (Suc attempt) (Some (ImportError msg))
                      (if attempt < retries then sleeps @ [100 * 2 ^ attempt] else sleeps))"
  by pat_completeness auto
termination
  by (relation "measure (\<lambda>(_, retries, attempt, _, _). Suc retries - attempt)") auto

declare attempts.simps [simp del]

text \<open>\<open>parseInt(s, 10)\<close>; \<open>None\<close> is \<open>NaN\<close>.\<close>

definition digit_of :: "char \<Rightarrow> nat option" where
  "digit_of c = (let n = of_char c :: nat in if 48 \<le> n \<and> n \<le> 57 then Some (n - 48) else None)"

definition js_parseInt :: "string \<Rightarrow> int option" where
  "js_parseInt s =
     (let t = dropWhile js_space s;
          neg = (t \<noteq> [] \<and> hd t = CHR ''-'');
          u = (if t \<noteq> [] \<and> hd t \<in> {CHR ''-'', CHR ''+''} then tl t else t);
          ds = takeWhile (\<lambda>c. digit_of c \<noteq> None) u;
          v = int (foldl (\<lambda>a c. 10 * a + the (digit_of c)) 0 ds)
      in if ds = [] then None else Some (if neg then - v else v))"

definition may_reload :: "int \<Rightarrow> string option \<Rightarrow> bool" where
  "may_reload now lastReload =
     (case lastReload of
        None \<Rightarrow> True
      | Some s \<Rightarrow> s = [] \<or> (case js_parseInt s of None \<Rightarrow> False | Some n \<Rightarrow> 10000 < now - n))"

record lazy_env =
  lz_importFn :: "nat \<Rightarrow> import_answer"
  lz_now :: nat
  lz_href :: string

text \<open>The whole load: its result, the storage, and the address the page goes to.\<close>

definition loadWithRetry ::
  "lazy_env \<Rightarrow> nat \<Rightarrow> string option \<Rightarrow> load_result \<times> string option \<times> string option" where
  "loadWithRetry env retries lastReload =
     (case fst (attempts (lz_importFn env) retries 0 None []) of
        Inl r \<Rightarrow> (r, lastReload, None)
      | Inr lastError \<Rightarrow>
          if may_reload (int (lz_now env)) lastReload
          then (Reloading, Some (show_nat (lz_now env)),
                Some (hd (js_split (CHR ''?'') (lz_href env)) @ ''?_='' @ show_nat (lz_now env)))
          else (LoadThrew (nullish lastError (ImportThrew [])), lastReload, None))"

subsection \<open>The shared promise\<close>

datatype promise = NoPromise | Pending | Settled load_result

text \<open>\<open>loads\<close> counts the loads started. A failed load clears the promise.\<close>

record lazy_cache =
  lc_promise :: promise
  lc_loads :: nat

definition load :: "lazy_cache \<Rightarrow> lazy_cache" where
  "load c = (if lc_promise c = NoPromise then c\<lparr>lc_promise := Pending, lc_loads := lc_loads c + 1\<rparr> else c)"

definition settle :: "load_result \<Rightarrow> lazy_cache \<Rightarrow> lazy_cache" where
  "settle r c =
     (if lc_promise c \<noteq> Pending then c
      else case r of
             Loaded m \<Rightarrow> c\<lparr>lc_promise := Settled r\<rparr>
           | LoadThrew e \<Rightarrow> c\<lparr>lc_promise := NoPromise\<rparr>
           | Reloading \<Rightarrow> c)"

datatype cache_event = LoadCall | Settle load_result

fun cache_step :: "lazy_cache \<Rightarrow> cache_event \<Rightarrow> lazy_cache" where
  "cache_step c LoadCall = load c"
| "cache_step c (Settle r) = settle r c"

subsection \<open>What a load does\<close>

definition chunk_failure :: "import_answer \<Rightarrow> bool" where
  "chunk_failure a = (case a of ImportError msg \<Rightarrow> isChunkError msg | _ \<Rightarrow> False)"

fun answer_result :: "import_answer \<Rightarrow> load_result" where
  "answer_result (Imported m) = Loaded m"
| "answer_result a = LoadThrew a"

text \<open>From attempt \<open>k\<close> on: the first answer that is no chunk failure decides, \<open>d\<close> attempts later.\<close>

lemma attempts_decided:
  assumes "\<forall>i < d. chunk_failure (f (k + i))" and "\<not> chunk_failure (f (k + d))" and "k + d \<le> retries"
  shows "attempts f retries k e s = (Inl (answer_result (f (k + d))), Suc (k + d), s @ map (\<lambda>i. 100 * 2 ^ i) [k..<k + d])"
  using assms
proof (induction d arbitrary: k e s)
  case 0
  then show ?case
    by (cases "f k") (simp_all add: attempts.simps [of f retries k] chunk_failure_def)
next
  case (Suc d)
  from Suc.prems(1) have "chunk_failure (f k)" by (metis add_0_right zero_less_Suc)
  then obtain msg where msg: "f k = ImportError msg" "isChunkError msg" by (auto simp: chunk_failure_def split: import_answer.splits)
  have "\<forall>i < d. chunk_failure (f (Suc k + i))" using Suc.prems(1) by auto
  from Suc.IH [OF this] Suc.prems(2,3) msg show ?case
    by (simp add: attempts.simps [of f retries k] upt_conv_Cons)
qed

lemma attempts_exhausted:
  assumes "\<forall>i \<le> d. chunk_failure (f (k + i))" and "k + d = retries"
  shows "attempts f retries k e s = (Inr (Some (f retries)), Suc retries, s @ map (\<lambda>i. 100 * 2 ^ i) [k..<retries])"
  using assms
proof (induction d arbitrary: k e s)
  case 0
  then have "chunk_failure (f retries)" by simp
  then obtain msg where "f retries = ImportError msg" "isChunkError msg" by (auto simp: chunk_failure_def split: import_answer.splits)
  with 0 show ?case by (simp add: attempts.simps [of f retries "Suc retries"] attempts.simps [of f retries retries])
next
  case (Suc d)
  from Suc.prems(1) have "chunk_failure (f k)" by (metis add_0_right zero_le)
  then obtain msg where msg: "f k = ImportError msg" "isChunkError msg" by (auto simp: chunk_failure_def split: import_answer.splits)
  have "\<forall>i \<le> d. chunk_failure (f (Suc k + i))" using Suc.prems(1) by auto
  from Suc.IH [OF this] Suc.prems(2) msg show ?case
    by (simp add: attempts.simps [of f retries k] upt_conv_Cons)
qed

lemma attempts_cases:
  obtains (decided) d where "d \<le> retries" "\<forall>i < d. chunk_failure (f i)" "\<not> chunk_failure (f d)"
    "attempts f retries 0 None [] = (Inl (answer_result (f d)), Suc d, map (\<lambda>i. 100 * 2 ^ i) [0..<d])"
  | (exhausted) "\<forall>i \<le> retries. chunk_failure (f i)"
    "attempts f retries 0 None [] = (Inr (Some (f retries)), Suc retries, map (\<lambda>i. 100 * 2 ^ i) [0..<retries])"
proof (cases "\<forall>i \<le> retries. chunk_failure (f i)")
  case True
  with attempts_exhausted [of retries f 0 retries None "[]"] show thesis by (intro exhausted) simp_all
next
  case False
  define d where "d = (LEAST i. \<not> chunk_failure (f i))"
  from False have ex: "\<exists>i. \<not> chunk_failure (f i)" "\<exists>i \<le> retries. \<not> chunk_failure (f i)" by auto
  have d: "\<not> chunk_failure (f d)" unfolding d_def using ex(1) by (rule LeastI_ex)
  have "\<forall>i < d. chunk_failure (f i)" unfolding d_def using not_less_Least by blast
  moreover have "d \<le> retries" using ex(2) Least_le [of "\<lambda>i. \<not> chunk_failure (f i)"] unfolding d_def by (meson le_trans)
  ultimately show thesis using attempts_decided [of d f 0 retries None "[]"] d by (intro decided [of d]) simp_all
qed

text \<open>
  Fact (load_attempts_exact). A load calls the import at most \<open>retries + 1\<close> times, waiting 100,
  200, 400 and so on milliseconds between the calls. The first answer that is not a failed chunk is its
  result; when every call fails for a chunk, the page is reloaded or the last error is thrown.
\<close>

theorem load_attempts_exact:
  fixes env :: lazy_env and retries :: nat and entry :: "string option"
  defines "f \<equiv> lz_importFn env" and "r \<equiv> attempts (lz_importFn env) retries 0 None []"
  shows "fst (snd r) \<le> Suc retries \<and> snd (snd r) = map (\<lambda>i. 100 * 2 ^ i) [0..<fst (snd r) - 1] \<and>
         (if \<forall>i \<le> retries. chunk_failure (f i)
          then fst (loadWithRetry env retries entry) \<in> {Reloading, LoadThrew (f retries)} \<and> fst (snd r) = Suc retries
          else \<exists>d \<le> retries. (\<forall>i < d. chunk_failure (f i)) \<and> \<not> chunk_failure (f d) \<and> fst (snd r) = Suc d \<and>
                 loadWithRetry env retries entry = (answer_result (f d), entry, None))"
proof (cases rule: attempts_cases [of retries "lz_importFn env"])
  case (decided d)
  then have "\<not> (\<forall>i \<le> retries. chunk_failure (f i))" by (auto simp: f_def)
  moreover have "loadWithRetry env retries entry = (answer_result (f d), entry, None)"
    by (simp add: loadWithRetry_def decided(4) f_def)
  ultimately show ?thesis using decided by (auto simp: r_def f_def)
next
  case exhausted
  then show ?thesis by (auto simp: r_def f_def loadWithRetry_def nullish_def)
qed

definition flaky_env :: lazy_env where
  "flaky_env = \<lparr>lz_importFn = (\<lambda>n. if n = 0 then ImportError ''Failed to fetch'' else Imported ''logs''), lz_now = 1000,
     lz_href = ''https://app/logs''\<rparr>"

theorem load_attempts_exact_witness:
  "loadWithRetry flaky_env 2 None = (Loaded ''logs'', None, None)"
proof -
  have c: "isChunkError ''Failed to fetch''" by code_simp
  have a0: "chunk_failure (lz_importFn flaky_env 0)" using c by (simp add: flaky_env_def chunk_failure_def)
  have a1: "\<not> chunk_failure (lz_importFn flaky_env n)" if "0 < n" for n using that by (simp add: flaky_env_def chunk_failure_def)
  have not_all: "\<not> (\<forall>i \<le> (2::nat). chunk_failure (lz_importFn flaky_env i))" using a1 [of 1] by (metis one_le_numeral zero_less_one)
  obtain d where d: "\<forall>i < d. chunk_failure (lz_importFn flaky_env i)" "\<not> chunk_failure (lz_importFn flaky_env d)"
    "loadWithRetry flaky_env 2 None = (answer_result (lz_importFn flaky_env d), None, None)"
    using load_attempts_exact [of flaky_env 2 None] not_all by auto
  from d(1) a1 [of 1] have "d \<le> 1" by (metis leI zero_less_one)
  with d(2) a0 have "d = 1" by (cases d) auto
  with d(3) show ?thesis by (simp add: flaky_env_def)
qed

subsection \<open>The reloads\<close>

lemma digit_of_char: "d < 10 \<Longrightarrow> digit_of (digit_char d) = Some d"
  by (simp add: digit_of_def of_digit_char Let_def)

lemma show_nat_all_digits: "c \<in> set (show_nat n) \<Longrightarrow> digit_of c \<noteq> None"
proof (induction "10 :: nat" n rule: show_base.induct)
  case (1 n)
  then show ?case by (auto simp: show_base.simps [of 10 n] digit_of_char split: if_splits)
qed

lemma show_nat_value: "foldl (\<lambda>a c. 10 * a + the (digit_of c)) 0 (show_nat n) = n"
proof (induction "10 :: nat" n rule: show_base.induct)
  case (1 n)
  then show ?case by (auto simp: show_base.simps [of 10 n] digit_of_char)
qed

lemma show_nat_ne: "show_nat n \<noteq> []"
  by (subst show_base.simps) simp

lemma digit_not_other: "digit_of c \<noteq> None \<Longrightarrow> \<not> js_space c \<and> c \<noteq> CHR ''-'' \<and> c \<noteq> CHR ''+''"
  by (auto simp: digit_of_def js_space_def Let_def split: if_splits)

lemma parseInt_show: "js_parseInt (show_nat n) = Some (int n)"
proof -
  obtain c s where cs: "show_nat n = c # s" using show_nat_ne [of n] by (cases "show_nat n") simp_all
  then have c: "\<not> js_space c" "c \<noteq> CHR ''-''" "c \<noteq> CHR ''+''"
    using show_nat_all_digits [of c n] digit_not_other by auto
  have "takeWhile (\<lambda>c. digit_of c \<noteq> None) (show_nat n) = show_nat n"
    using show_nat_all_digits by (simp add: takeWhile_eq_all_conv)
  moreover have "dropWhile js_space (show_nat n) = show_nat n" using cs c(1) by simp
  ultimately show ?thesis
    using c(2,3) cs show_nat_value [of n] show_nat_ne [of n] by (simp add: js_parseInt_def Let_def)
qed

text \<open>
  Fact (reloads_ten_seconds_apart). Of two page loads forced by failed imports in one tab, the
  second comes more than ten seconds after the first, so a deployment that stays broken cannot make the
  tab reload in a loop; in between, the error is thrown to the page.
\<close>

theorem reloads_ten_seconds_apart:
  assumes "loadWithRetry env1 retries1 entry = (Reloading, entry1, url1)"
    and "loadWithRetry env2 retries2 entry1 = (r, entry2, url2)"
  shows "entry1 = Some (show_nat (lz_now env1)) \<and>
         (r = Reloading \<longrightarrow> lz_now env1 + 10000 < lz_now env2) \<and> (r \<noteq> Reloading \<longrightarrow> entry2 = entry1 \<and> url2 = None)"
proof -
  have one: "entry1 = Some (show_nat (lz_now env1))"
  proof (cases rule: attempts_cases [of retries1 "lz_importFn env1"])
    case (decided d)
    with assms(1) show ?thesis by (cases "lz_importFn env1 d") (simp_all add: loadWithRetry_def)
  qed (use assms(1) in \<open>auto simp: loadWithRetry_def split: if_splits\<close>)
  have two: "(r = Reloading \<longrightarrow> lz_now env1 + 10000 < lz_now env2) \<and> (r \<noteq> Reloading \<longrightarrow> entry2 = entry1 \<and> url2 = None)"
  proof (cases rule: attempts_cases [of retries2 "lz_importFn env2"])
    case (decided d)
    with assms(2) show ?thesis by (cases "lz_importFn env2 d") (auto simp: loadWithRetry_def)
  next
    case exhausted
    have "may_reload (int (lz_now env2)) entry1 \<longleftrightarrow> lz_now env1 + 10000 < lz_now env2"
      using show_nat_ne by (auto simp: may_reload_def one parseInt_show)
    with assms(2) exhausted show ?thesis by (auto simp: loadWithRetry_def split: if_splits)
  qed
  with one show ?thesis by blast
qed

definition broken_env :: "nat \<Rightarrow> lazy_env" where
  "broken_env now = \<lparr>lz_importFn = (\<lambda>_. ImportError ''Loading chunk 7 failed.''), lz_now = now, lz_href = ''https://app/logs?x=1''\<rparr>"

lemma broken_reloads:
  "may_reload (int now) entry \<Longrightarrow>
     loadWithRetry (broken_env now) retries entry =
       (Reloading, Some (show_nat now), Some (''https://app/logs'' @ ''?_='' @ show_nat now))"
proof -
  assume may: "may_reload (int now) entry"
  have chunk: "isChunkError ''Loading chunk 7 failed.''" by code_simp
  have href: "hd (js_split (CHR ''?'') ''https://app/logs?x=1'') = ''https://app/logs''" by code_simp
  show ?thesis
  proof (cases rule: attempts_cases [of retries "lz_importFn (broken_env now)"])
    case (decided d)
    with chunk show ?thesis by (simp add: broken_env_def chunk_failure_def)
  next
    case exhausted
    with may href show ?thesis by (simp add: loadWithRetry_def broken_env_def)
  qed
qed

theorem reloads_ten_seconds_apart_witness:
  "\<exists>r e u. loadWithRetry (broken_env 5000) 2 (Some (show_nat 1000)) = (r, e, u) \<and> r \<noteq> Reloading"
proof -
  have "loadWithRetry (broken_env 1000) 2 None = (Reloading, Some (show_nat 1000), Some (''https://app/logs'' @ ''?_='' @ show_nat 1000))"
    by (rule broken_reloads) (simp add: may_reload_def)
  moreover obtain r e u where two: "loadWithRetry (broken_env 5000) 2 (Some (show_nat 1000)) = (r, e, u)"
    using prod_cases3 by blast
  ultimately have "r \<noteq> Reloading"
    using reloads_ten_seconds_apart [of "broken_env 1000" 2 None _ _ "broken_env 5000" 2 r e u] by (auto simp: broken_env_def)
  with two show ?thesis by blast
qed

text \<open>
  Fact (one_load_in_flight). However often a component is preloaded and rendered, a load is started only
  when none is running and none has succeeded: at most one more than loads have failed.
\<close>

definition failed :: "cache_event \<Rightarrow> bool" where
  "failed e = (case e of Settle (LoadThrew _) \<Rightarrow> True | _ \<Rightarrow> False)"

theorem one_load_in_flight:
  "lc_loads (foldl cache_step \<lparr>lc_promise = NoPromise, lc_loads = 0\<rparr> es) \<le> Suc (length (filter failed es))"
proof -
  have "lc_loads (foldl cache_step c es) + (if lc_promise (foldl cache_step c es) = NoPromise then 1 else 0)
          \<le> lc_loads c + (if lc_promise c = NoPromise then 1 else 0) + length (filter failed es)" for c
  proof (induction es arbitrary: c)
    case (Cons e es)
    have "lc_loads (cache_step c e) + (if lc_promise (cache_step c e) = NoPromise then 1 else 0)
        \<le> lc_loads c + (if lc_promise c = NoPromise then 1 else 0) + (if failed e then 1 else 0)"
      by (cases e) (auto simp: load_def settle_def failed_def split: load_result.splits)
    with Cons.IH [of "cache_step c e"] show ?case by (simp split: if_splits)
  qed simp
  from this [of "\<lparr>lc_promise = NoPromise, lc_loads = 0\<rparr>"] show ?thesis by (simp split: if_splits)
qed

end
