(* ===== verification/AccountApi.thy ===== *)
theory AccountApi
  imports ImportApi
begin

text \<open>
  The account at the API: its document (api/model/account.go, api/db/mongodb/account.go), the second
  factor (api/service/account/totp.go), updates and deletion (api/service/account/account.go), e-mail
  verification and password reset (api/service/account/verify.go), and the answers to their errors
  (api/api/errors.go).

  The check of a one-time code against a secret, the password hash and the e-mail tag of the validator
  are packages: parameters of the environment. Fresh secrets, codes and tokens are arguments. Every
  operation reads the stored document itself, so an operation that was handed a document keeps working
  on its own copy.
\<close>

subsection \<open>The document\<close>

record account_doc =
  ad_email :: string
  ad_emailVerified :: bool
  ad_tokens :: "reauth_token list"
  ad_password :: "string option"
  ad_profiles :: "string list"
  ad_consent :: bool
  ad_totp :: bool
  ad_secret :: string
  ad_backup :: "string list"
  ad_backupUsed :: "string list"
  ad_deletionCode :: string
  ad_deletionExpires :: "int option"

record account_env =
  av_now :: int
  av_totp_valid :: "string \<Rightarrow> string \<Rightarrow> bool"
  av_hash :: "string \<Rightarrow> string"
  av_hash_ok :: "string \<Rightarrow> string \<Rightarrow> bool"
  av_email_tag :: "string \<Rightarrow> bool"
  av_idLimiterMax :: nat

text \<open>
  \<open>sv_others\<close> are the addresses of the other accounts, \<open>sv_setup\<close> is the cached secret of a second factor
  being set up, and the counters are those of the four limiters; \<open>sv_mails\<close> are the codes handed
  to the mailer, with the address.
\<close>

record account_server =
  sv_doc :: account_doc
  sv_others :: "string list"
  sv_setup :: "string option"
  sv_totpFails :: nat
  sv_confirmFails :: nat
  sv_resends :: nat
  sv_verifyFails :: nat
  sv_mails :: "(string \<times> string) list"

datatype account_error =
    TotpError string
  | AccountServiceError string
  | CredentialCheck reauth_error
  | RateLimitedError string
  | OtherError

text \<open>The answer; \<open>fallback\<close> is the text of the handler for an error it does not know.\<close>

fun account_answer :: "string \<Rightarrow> account_error \<Rightarrow> thrown" where
  "account_answer fallback (TotpError msg) = api_error 401 msg"
| "account_answer fallback (AccountServiceError msg) = api_error 400 msg"
| "account_answer fallback (CredentialCheck e) = api_error (reauth_status_code e) (reauth_text e)"
| "account_answer fallback (RateLimitedError msg) = api_error 429 msg"
| "account_answer fallback OtherError = api_error 500 fallback"

definition NormalizeEmail :: "string \<Rightarrow> string" where
  "NormalizeEmail s = js_toLowerCase (rev (dropWhile go_space (rev (dropWhile go_space s))))"

text \<open>\<open>\<p>{L}\<close> and \<open>\<p>{N}\<close> up to 255.\<close>

definition uni_letter :: "char \<Rightarrow> bool" where
  "uni_letter c =
     (let n = of_char c :: nat
      in (65 \<le> n \<and> n \<le> 90) \<or> (97 \<le> n \<and> n \<le> 122) \<or> n \<in> {170, 181, 186} \<or> (192 \<le> n \<and> n \<noteq> 215 \<and> n \<noteq> 247))"

definition uni_number :: "char \<Rightarrow> bool" where
  "uni_number c = (let n = of_char c :: nat in (48 \<le> n \<and> n \<le> 57) \<or> n \<in> {178, 179, 185, 188, 189, 190})"

definition ValidatePassword :: "string \<Rightarrow> bool" where
  "ValidatePassword p =
     (12 \<le> length p \<and> length p \<le> 64 \<and>
      list_ex (\<lambda>c. let n = of_char c :: nat in 65 \<le> n \<and> n \<le> 90) p \<and>
      list_ex (\<lambda>c. let n = of_char c :: nat in 97 \<le> n \<and> n \<le> 122) p \<and>
      list_ex (\<lambda>c. let n = of_char c :: nat in 48 \<le> n \<and> n \<le> 57) p \<and>
      list_ex (\<lambda>c. \<not> uni_letter c \<and> \<not> uni_number c) p)"

text \<open>\<open>SetPassword\<close>: a blank password is an error.\<close>

definition SetPassword :: "account_env \<Rightarrow> string \<Rightarrow> account_doc \<Rightarrow> account_doc option" where
  "SetPassword env pw acc = (if list_all go_space pw then None else Some (acc\<lparr>ad_password := Some (av_hash env pw)\<rparr>))"

subsection \<open>The second factor\<close>

definition BACKUP_USED :: string where "BACKUP_USED = ''2FA backup is already used''"
definition INVALID_CODE :: string where "INVALID_CODE = ''invalid 2FA code''"

text \<open>The search for a backup code, with the codes left when it is found.\<close>

fun take_code :: "string \<Rightarrow> string list \<Rightarrow> string list option" where
  "take_code otp [] = None"
| "take_code otp (c # cs) = (if c = otp then Some cs else map_option (Cons c) (take_code otp cs))"

definition verifyTotpBackup :: "account_doc \<Rightarrow> string \<Rightarrow> string + account_doc" where
  "verifyTotpBackup acc otp =
     (if otp \<in> set (ad_backupUsed acc) then Inl BACKUP_USED
      else case take_code otp (ad_backup acc) of
             None \<Rightarrow> Inl INVALID_CODE
           | Some codes \<Rightarrow> Inr (acc\<lparr>ad_backup := codes, ad_backupUsed := ad_backupUsed acc @ [otp]\<rparr>))"

datatype totp_action = TotpLogin | TotpDisabling

text \<open>A limiter: the count is raised first, and the attempt is allowed up to the maximum.\<close>

definition limiter_allows :: "account_env \<Rightarrow> nat \<Rightarrow> bool" where
  "limiter_allows env n = (n \<le> av_idLimiterMax env)"

definition VerifyTotp ::
  "account_env \<Rightarrow> string \<Rightarrow> totp_action \<Rightarrow> account_server \<Rightarrow> (account_error + account_doc) \<times> account_server" where
  "VerifyTotp env otp action srv =
     (let acc = sv_doc srv in
      if \<not> ad_totp acc then
        (Inl (TotpError (if action = TotpLogin then ''2FA is not configured'' else ''2FA already disabled'')), srv)
      else if av_totp_valid env otp (ad_secret acc) then (Inr acc, srv)
      else case verifyTotpBackup acc otp of
             Inr acc' \<Rightarrow> (Inr acc', srv\<lparr>sv_doc := acc'\<rparr>)
           | Inl msg \<Rightarrow>
               let n = Suc (sv_totpFails srv)
               in (Inl (TotpError (if limiter_allows env n then msg else INVALID_CODE)), srv\<lparr>sv_totpFails := n\<rparr>))"

text \<open>The check on a document the caller has loaded before.\<close>

definition account_MfaCheck ::
  "account_env \<Rightarrow> account_doc \<Rightarrow> string \<Rightarrow> account_server \<Rightarrow> account_error option \<times> account_server" where
  "account_MfaCheck env acc otp srv =
     (if ad_totp acc \<and> otp = [] then (Some (TotpError TOTP_REQUIRED), srv)
      else if ad_totp acc then
        (case VerifyTotp env otp TotpLogin srv of (Inl e, srv') \<Rightarrow> (Some e, srv') | (Inr _, srv') \<Rightarrow> (None, srv'))
      else (None, srv))"

definition TotpEnable :: "string \<Rightarrow> account_server \<Rightarrow> string \<times> account_server" where
  "TotpEnable secret srv = (secret, srv\<lparr>sv_setup := Some secret\<rparr>)"

definition TotpConfirm ::
  "account_env \<Rightarrow> string list \<Rightarrow> string \<Rightarrow> account_server \<Rightarrow> (account_error + string list) \<times> account_server" where
  "TotpConfirm env codes otp srv =
     (case sv_setup srv of
        None \<Rightarrow> (Inl OtherError, srv)
      | Some secret \<Rightarrow>
          let acc = sv_doc srv in
          if ad_totp acc then (Inl (TotpError ''2FA already configured''), srv)
          else if \<not> av_totp_valid env otp secret then
            (Inl (TotpError ''incorrect OTP''), srv\<lparr>sv_confirmFails := Suc (sv_confirmFails srv)\<rparr>)
          else
            let acc' = acc\<lparr>ad_totp := True, ad_secret := secret, ad_backup := ad_backup acc @ codes\<rparr>
            in (Inr (ad_backup acc'), srv\<lparr>sv_doc := acc'\<rparr>))"

definition TotpDisable ::
  "account_env \<Rightarrow> string \<Rightarrow> account_server \<Rightarrow> (account_error + account_doc) \<times> account_server" where
  "TotpDisable env otp srv =
     (case VerifyTotp env otp TotpDisabling srv of
        (Inl e, srv') \<Rightarrow> (Inl e, srv')
      | (Inr acc, srv') \<Rightarrow>
          let acc' = acc\<lparr>ad_totp := False, ad_secret := [], ad_backup := [], ad_backupUsed := []\<rparr>
          in (Inr acc', srv'\<lparr>sv_doc := acc'\<rparr>))"

subsection \<open>Confirming who the user is\<close>

definition TokenTypeReauthEmailChange :: string where "TokenTypeReauthEmailChange = ''reauth_email_change''"
definition TokenTypeReauthAccountDeletion :: string where "TokenTypeReauthAccountDeletion = ''reauth_account_deletion''"
definition TokenTypeReauthPasswordSet :: string where "TokenTypeReauthPasswordSet = ''reauth_password_set''"
definition TokenTypePasswordReset :: string where "TokenTypePasswordReset = ''password_reset''"
definition EmailCategoryVerificationOTP :: string where "EmailCategoryVerificationOTP = ''email_verification_otp''"

text \<open>A consumed token is gone from the copy only; the caller stores it.\<close>

definition VerifyOnAccount ::
  "account_env \<Rightarrow> string \<Rightarrow> string option \<Rightarrow> string option \<Rightarrow> string \<Rightarrow> account_doc \<Rightarrow> account_server
     \<Rightarrow> (account_error + account_doc) \<times> account_server" where
  "VerifyOnAccount env ty password token otp acc srv =
     (if password = None \<and> token = None then (Inl (CredentialCheck ErrMissingAuthMethod), srv)
      else if password \<noteq> None \<and> token \<noteq> None then (Inl (CredentialCheck ErrMultipleAuthMethods), srv)
      else case password of
        Some pw \<Rightarrow>
          (case account_MfaCheck env acc otp srv of
             (Some e, srv') \<Rightarrow> (Inl e, srv')
           | (None, srv') \<Rightarrow>
               (case ad_password acc of
                  None \<Rightarrow> (Inl (CredentialCheck ErrInvalidPassword), srv')
                | Some hash \<Rightarrow>
                    if av_hash_ok env pw hash then (Inr acc, srv') else (Inl (CredentialCheck ErrInvalidPassword), srv')))
      | None \<Rightarrow>
          (case consume_token (av_now env) ty (nullish token []) (ad_tokens acc) of
             Inl e \<Rightarrow> (Inl (CredentialCheck e), srv)
           | Inr (matched, kept) \<Rightarrow>
               if matched then (Inr (acc\<lparr>ad_tokens := kept\<rparr>), srv) else (Inl (CredentialCheck ErrInvalidReauthToken), srv)))"

subsection \<open>Updates\<close>

datatype update_op = OpRemove | OpAdd | OpReplace | OpMove | OpCopy | OpTest

datatype update_path = PathPassword | PathConsent | PathProfiles | PathEmail

text \<open>A value: a text, a truth value, or an object with the fields the API reads (null or missing is \<open>None\<close>).\<close>

record update_fields =
  uf_current_password :: "string option"
  uf_reauth_token :: "string option"
  uf_new_email :: "string option"

datatype update_value = VText string | VBool bool | VFields update_fields

record account_update =
  au_operation :: update_op
  au_path_of :: update_path
  au_value :: update_value

text \<open>\<open>cast.ToStringE\<close> and \<open>cast.ToBool\<close> on these values.\<close>

fun to_string :: "update_value \<Rightarrow> string option" where
  "to_string (VText s) = Some s"
| "to_string (VBool b) = Some (if b then ''true'' else ''false'')"
| "to_string (VFields _) = None"

fun to_bool :: "update_value \<Rightarrow> bool" where
  "to_bool (VText s) = (s \<in> {''1'', ''t'', ''T'', ''TRUE'', ''true'', ''True''})"
| "to_bool (VBool b) = b"
| "to_bool (VFields _) = False"

text \<open>The tags of \<open>AccountEmailUpdate\<close>.\<close>

definition email_update_valid :: "account_env \<Rightarrow> update_fields \<Rightarrow> bool" where
  "email_update_valid env u =
     (\<not> (uf_current_password u \<noteq> None \<and> uf_reauth_token u \<noteq> None) \<and>
      uf_current_password u \<noteq> Some [] \<and> uf_reauth_token u \<noteq> Some [] \<and>
      nullish (uf_new_email u) [] \<noteq> [] \<and> av_email_tag env (nullish (uf_new_email u) []))"

definition SAME_EMAIL :: string where "SAME_EMAIL = ''new email address is the same as the current one''"
definition EMAIL_IN_USE :: string where
  "EMAIL_IN_USE = ''Unable to complete your request. Please try a different email address.''"

definition handleEmailUpdate ::
  "account_env \<Rightarrow> update_value \<Rightarrow> string \<Rightarrow> account_doc \<Rightarrow> account_server \<Rightarrow> (account_error + account_doc) \<times> account_server" where
  "handleEmailUpdate env value otp acc srv =
     (case value of
        VFields u0 \<Rightarrow>
          let email = NormalizeEmail (nullish (uf_new_email u0) []);
              u = u0\<lparr>uf_new_email := Some email\<rparr> in
          if \<not> email_update_valid env u then (Inl OtherError, srv)
          else (case VerifyOnAccount env TokenTypeReauthEmailChange (uf_current_password u) (uf_reauth_token u) otp acc srv of
             (Inl e, srv') \<Rightarrow> (Inl e, srv')
           | (Inr acc', srv') \<Rightarrow>
               if email = [] then (Inl (AccountServiceError ''invalid new email''), srv')
               else if email = js_toLowerCase (ad_email acc') then (Inl (AccountServiceError SAME_EMAIL), srv')
               else if email \<in> set (sv_others srv') then (Inl (AccountServiceError EMAIL_IN_USE), srv')
               else (Inr (acc'\<lparr>ad_email := email, ad_emailVerified := False,
                       ad_tokens := filter (\<lambda>t. tk_type t \<noteq> EmailCategoryVerificationOTP \<and> tk_type t \<noteq> TokenTypePasswordReset)
                                      (ad_tokens acc')\<rparr>), srv'))
      | _ \<Rightarrow> (Inl (AccountServiceError ''invalid email update payload''), srv))"

text \<open>The password operations in order; \<open>verified\<close> is the last successful test.\<close>

definition password_set_token :: "update_value \<Rightarrow> string option" where
  "password_set_token v = (case v of VFields u \<Rightarrow> (if truthy_str (uf_reauth_token u) then uf_reauth_token u else None) | _ \<Rightarrow> None)"

definition WEAK_PASSWORD :: string where "WEAK_PASSWORD = ''password does not meet complexity requirements''"

fun password_ops ::
  "account_env \<Rightarrow> bool \<Rightarrow> bool \<Rightarrow> account_update list \<Rightarrow> account_doc \<Rightarrow> account_error + account_doc" where
  "password_ops env hasPassword verified [] acc = Inr acc"
| "password_ops env hasPassword verified (u # us) acc =
     (if au_operation u = OpTest then
        (if hasPassword then
           (case to_string (au_value u) of
              None \<Rightarrow> Inl OtherError
            | Some pw \<Rightarrow>
                if av_hash_ok env pw (the (ad_password acc)) then password_ops env hasPassword True us acc
                else Inl (CredentialCheck ErrInvalidPassword))
         else case password_set_token (au_value u) of
              None \<Rightarrow> Inl (CredentialCheck ErrMissingAuthMethod)
            | Some token \<Rightarrow>
                (case consume_token (av_now env) TokenTypeReauthPasswordSet token (ad_tokens acc) of
                   Inl e \<Rightarrow> Inl (CredentialCheck e)
                 | Inr (matched, kept) \<Rightarrow>
                     if matched then password_ops env hasPassword True us (acc\<lparr>ad_tokens := kept\<rparr>)
                     else Inl (CredentialCheck ErrInvalidReauthToken)))
      else if au_operation u = OpReplace then
        (if \<not> verified then
           Inl (if \<not> hasPassword then CredentialCheck ErrMissingAuthMethod
                else AccountServiceError ''password test operation required before replace'')
         else case to_string (au_value u) of
              None \<Rightarrow> Inl OtherError
            | Some pw \<Rightarrow>
                if \<not> ValidatePassword pw then Inl (AccountServiceError WEAK_PASSWORD)
                else (case SetPassword env pw acc of
                        None \<Rightarrow> Inl OtherError
                      | Some acc' \<Rightarrow> password_ops env hasPassword False us acc'))
      else Inl (AccountServiceError ''invalid update operation''))"

definition handlePasswordUpdate ::
  "account_env \<Rightarrow> account_update list \<Rightarrow> string \<Rightarrow> account_doc \<Rightarrow> account_server \<Rightarrow> (account_error + account_doc) \<times> account_server" where
  "handlePasswordUpdate env updates otp acc srv =
     (if ad_password acc \<noteq> None then
        (case account_MfaCheck env acc otp srv of
           (Some e, srv') \<Rightarrow> (Inl e, srv')
         | (None, srv') \<Rightarrow> (password_ops env True False updates acc, srv'))
      else (password_ops env False False updates acc, srv))"


text \<open>
  The whole request: the profile operations are applied to the stored document one by one; the others to
  a copy loaded after them, which is stored at the end when all of them succeed.
\<close>

fun profile_ops :: "account_update list \<Rightarrow> account_server \<Rightarrow> account_error option \<times> account_server" where
  "profile_ops [] srv = (None, srv)"
| "profile_ops (u # us) srv =
     (case to_string (au_value u) of
        None \<Rightarrow> (Some OtherError, srv)
      | Some pid \<Rightarrow>
          let acc = sv_doc srv in
          if au_operation u = OpAdd then
            profile_ops us (srv\<lparr>sv_doc := acc\<lparr>ad_profiles :=
               (if pid \<in> set (ad_profiles acc) then ad_profiles acc else ad_profiles acc @ [pid])\<rparr>\<rparr>)
          else if au_operation u = OpRemove then
            profile_ops us (srv\<lparr>sv_doc := acc\<lparr>ad_profiles := removeAll pid (ad_profiles acc)\<rparr>\<rparr>)
          else (Some (AccountServiceError ''invalid update operation''), srv))"

fun other_ops ::
  "account_env \<Rightarrow> string \<Rightarrow> account_update list \<Rightarrow> account_doc \<Rightarrow> account_server \<Rightarrow> (account_error + account_doc) \<times> account_server" where
  "other_ops env otp [] acc srv = (Inr acc, srv)"
| "other_ops env otp (u # us) acc srv =
     (case au_path_of u of
        PathEmail \<Rightarrow>
          (case handleEmailUpdate env (au_value u) otp acc srv of
             (Inl e, srv') \<Rightarrow> (Inl e, srv')
           | (Inr acc', srv') \<Rightarrow> other_ops env otp us acc' srv')
      | PathConsent \<Rightarrow> other_ops env otp us (acc\<lparr>ad_consent := to_bool (au_value u)\<rparr>) srv
      | _ \<Rightarrow> other_ops env otp us acc srv)"

definition UpdateAccount ::
  "account_env \<Rightarrow> account_update list \<Rightarrow> string \<Rightarrow> account_server \<Rightarrow> account_error option \<times> account_server" where
  "UpdateAccount env updates otp srv =
     (let others = filter (\<lambda>u. au_path_of u \<noteq> PathProfiles) updates;
          passwords = filter (\<lambda>u. au_path_of u = PathPassword) others
      in case profile_ops (filter (\<lambda>u. au_path_of u = PathProfiles) updates) srv of
           (Some e, srv1) \<Rightarrow> (Some e, srv1)
         | (None, srv1) \<Rightarrow>
             if others = [] then (None, srv1)
             else (case other_ops env otp others (sv_doc srv1) srv1 of
               (Inl e, srv2) \<Rightarrow> (Some e, srv2)
             | (Inr acc, srv2) \<Rightarrow>
                 if passwords = [] then (None, srv2\<lparr>sv_doc := acc\<rparr>)
                 else (case handlePasswordUpdate env passwords otp acc srv2 of
                   (Inl e, srv3) \<Rightarrow> (Some e, srv3)
                 | (Inr acc', srv3) \<Rightarrow> (None, srv3\<lparr>sv_doc := acc'\<rparr>))))"

text \<open>The handler: an empty list of updates or a missing value is refused by the validator before.\<close>

definition updateAccount ::
  "account_env \<Rightarrow> account_update list \<Rightarrow> string \<Rightarrow> account_server \<Rightarrow> (thrown + nat) \<times> account_server" where
  "updateAccount env updates otp srv =
     (case UpdateAccount env updates otp srv of
        (Some e, srv') \<Rightarrow> (Inl (account_answer ''failed to update account'' e), srv')
      | (None, srv') \<Rightarrow> (Inr 204, srv'))"

subsection \<open>Deletion\<close>

definition delCodeExpTime :: int where "delCodeExpTime = 15 * 60 * 1000"

definition GenerateDeletionCode :: "account_env \<Rightarrow> string \<Rightarrow> account_server \<Rightarrow> string \<times> account_server" where
  "GenerateDeletionCode env code srv =
     (code, srv\<lparr>sv_doc := (sv_doc srv)\<lparr>ad_deletionCode := code, ad_deletionExpires := Some (av_now env + delCodeExpTime)\<rparr>\<rparr>)"

record deletion_request =
  dr_deletion_code :: string
  dr_current_password :: "string option"
  dr_reauth_token :: "string option"

text \<open>Everything before the purge; an empty code is refused by the validator.\<close>

definition deletion_allowed ::
  "account_env \<Rightarrow> deletion_request \<Rightarrow> string \<Rightarrow> account_server \<Rightarrow> account_error option \<times> account_server" where
  "deletion_allowed env req otp srv =
     (let acc = sv_doc srv in
      if ad_deletionCode acc \<noteq> dr_deletion_code req then (Some (AccountServiceError ''invalid deletion code''), srv)
      else if (case ad_deletionExpires acc of None \<Rightarrow> True | Some t \<Rightarrow> t < av_now env) then
        (Some (AccountServiceError ''deletion code expired''), srv)
      else (case VerifyOnAccount env TokenTypeReauthAccountDeletion (dr_current_password req) (dr_reauth_token req) otp acc srv of
              (Inl e, srv') \<Rightarrow> (Some e, srv')
            | (Inr _, srv') \<Rightarrow> (None, srv')))"

text \<open>What the purge removes: credentials, profiles, the document and the subscription.\<close>

record account_data =
  pd_credentials :: nat
  pd_profiles :: "string list"
  pd_document :: "string list option"
  pd_subscription :: bool

text \<open>\<open>fails\<close> says which of the calls, counted from 0, fail; a failed call changes nothing.\<close>

fun purge_profiles :: "(nat \<Rightarrow> bool) \<Rightarrow> nat \<Rightarrow> string list \<Rightarrow> account_data \<Rightarrow> bool \<times> nat \<times> account_data" where
  "purge_profiles fails n [] d = (True, n, d)"
| "purge_profiles fails n (p # ps) d =
     (if fails n then (False, Suc n, d)
      else
        let d1 = d\<lparr>pd_profiles := removeAll p (pd_profiles d)\<rparr> in
        if fails (Suc n) then (False, Suc (Suc n), d1)
        else purge_profiles fails (Suc (Suc n)) ps (d1\<lparr>pd_document := map_option (removeAll p) (pd_document d1)\<rparr>))"

definition PurgeAccountData :: "(nat \<Rightarrow> bool) \<Rightarrow> account_data \<Rightarrow> bool \<times> account_data" where
  "PurgeAccountData fails d =
     (if fails 0 then (False, d)
      else
        let d1 = d\<lparr>pd_credentials := 0\<rparr> in
        if fails 1 then (False, d1)
        else case purge_profiles fails 2 (pd_profiles d1) d1 of
          (False, _, d2) \<Rightarrow> (False, d2)
        | (True, n, d2) \<Rightarrow>
            if fails n then (False, d2)
            else if fails (Suc n) then (False, d2\<lparr>pd_document := None\<rparr>)
            else (True, d2\<lparr>pd_document := None, pd_subscription := False\<rparr>))"

subsection \<open>E-mail verification and password reset\<close>

definition emailVerificationOTPExpires :: int where "emailVerificationOTPExpires = 15 * 60 * 1000"

definition RequestEmailVerificationOTP ::
  "account_env \<Rightarrow> string \<Rightarrow> bool \<Rightarrow> account_server \<Rightarrow> account_error option \<times> account_server" where
  "RequestEmailVerificationOTP env code mail_ok srv =
     (let acc = sv_doc srv; n = Suc (sv_resends srv) in
      if ad_emailVerified acc then (Some (AccountServiceError ''email already verified''), srv)
      else if \<not> limiter_allows env n then
        (Some (RateLimitedError ''email verification otp rate limited''), srv\<lparr>sv_resends := n\<rparr>)
      else
        let acc' = acc\<lparr>ad_tokens := filter (\<lambda>t. tk_type t \<noteq> EmailCategoryVerificationOTP) (ad_tokens acc) @
                        [\<lparr>tk_type = EmailCategoryVerificationOTP, tk_value = code,
                          tk_expires = av_now env + emailVerificationOTPExpires\<rparr>]\<rparr>;
            srv' = srv\<lparr>sv_doc := acc', sv_resends := n, sv_mails := sv_mails srv @ [(ad_email acc, code)]\<rparr>
        in (if mail_ok then None else Some (TotpError ''could not send OTP''), srv'))"

text \<open>The loop over the tokens: the last live code, and the tokens of other types.\<close>

fun split_otp :: "int \<Rightarrow> reauth_token list \<Rightarrow> reauth_token option \<times> reauth_token list" where
  "split_otp now [] = (None, [])"
| "split_otp now (t # ts) =
     (let (target, others) = split_otp now ts in
      if tk_type t = EmailCategoryVerificationOTP then
        (if tk_expires t < now then (target, others)
         else (case target of None \<Rightarrow> (Some t, others) | Some t' \<Rightarrow> (Some t', others)))
      else (target, t # others))"

definition VerifyEmailOTP ::
  "account_env \<Rightarrow> string \<Rightarrow> account_server \<Rightarrow> account_error option \<times> account_server" where
  "VerifyEmailOTP env otp srv =
     (if otp = [] then (Some (AccountServiceError ''email verification otp missing''), srv)
      else
        let acc = sv_doc srv in
        if ad_emailVerified acc then (None, srv)
        else (case split_otp (av_now env) (ad_tokens acc) of
            (None, _) \<Rightarrow> (Some (AccountServiceError ''invalid verification token''), srv)
          | (Some target, others) \<Rightarrow>
              if tk_value target \<noteq> otp then
                let n = Suc (sv_verifyFails srv)
                in (Some (if limiter_allows env n then TotpError ''incorrect OTP''
                          else AccountServiceError ''too many invalid email verification attempts''), srv\<lparr>sv_verifyFails := n\<rparr>)
              else (None, srv\<lparr>sv_doc := acc\<lparr>ad_emailVerified := True, ad_tokens := others\<rparr>\<rparr>)))"

definition SendResetPasswordEmail :: "string \<Rightarrow> string \<Rightarrow> int \<Rightarrow> account_server \<Rightarrow> account_server" where
  "SendResetPasswordEmail email token expires srv =
     (let acc = sv_doc srv in
      if ad_email acc \<noteq> NormalizeEmail email \<or> \<not> ad_emailVerified acc then srv
      else srv\<lparr>sv_doc := acc\<lparr>ad_tokens := ad_tokens acc @ [\<lparr>tk_type = TokenTypePasswordReset, tk_value = token, tk_expires = expires\<rparr>]\<rparr>,
               sv_mails := sv_mails srv @ [(email, token)]\<rparr>)"

text \<open>The lookup by token finds an account with a token of that value and one of that type.\<close>

definition VerifyPasswordReset ::
  "account_env \<Rightarrow> string \<Rightarrow> string \<Rightarrow> string \<Rightarrow> account_server \<Rightarrow> account_error option \<times> account_server" where
  "VerifyPasswordReset env token newPassword otp srv =
     (let acc = sv_doc srv in
      if \<not> list_ex (\<lambda>t. tk_value t = token) (ad_tokens acc) \<or> \<not> list_ex (\<lambda>t. tk_type t = TokenTypePasswordReset) (ad_tokens acc)
      then (Some (AccountServiceError ''invalid verification token''), srv)
      else (case account_MfaCheck env acc otp srv of
          (Some e, srv') \<Rightarrow> (Some e, srv')
        | (None, srv') \<Rightarrow>
            (case consume_token (av_now env) TokenTypePasswordReset token (ad_tokens acc) of
               Inl _ \<Rightarrow> (Some (AccountServiceError ''token expired''), srv')
             | Inr (found, others) \<Rightarrow>
                 if \<not> found then (Some (AccountServiceError ''invalid verification token''), srv')
                 else (case SetPassword env newPassword acc of
                     None \<Rightarrow> (Some OtherError, srv')
                   | Some acc' \<Rightarrow> (None, srv'\<lparr>sv_doc := acc'\<lparr>ad_tokens := others\<rparr>\<rparr>)))))"


subsection \<open>What a check of the second factor changes\<close>

text \<open>\<open>spent acc acc'\<close>: at most backup codes were used up.\<close>

definition spent :: "account_doc \<Rightarrow> account_doc \<Rightarrow> bool" where
  "spent acc acc' \<longleftrightarrow> acc' = acc\<lparr>ad_backup := ad_backup acc', ad_backupUsed := ad_backupUsed acc'\<rparr> \<and>
     set (ad_backup acc') \<subseteq> set (ad_backup acc)"

named_theorems spent_facts \<open>what is kept when backup codes are used up\<close>

lemma spent_refl [spent_facts]: "spent acc acc"
  by (simp add: spent_def)

lemma spent_keeps:
  assumes "spent acc acc'"
  shows "ad_email acc' = ad_email acc" "ad_emailVerified acc' = ad_emailVerified acc" "ad_tokens acc' = ad_tokens acc"
    "ad_password acc' = ad_password acc" "ad_profiles acc' = ad_profiles acc" "ad_consent acc' = ad_consent acc"
    "ad_totp acc' = ad_totp acc" "ad_secret acc' = ad_secret acc" "ad_deletionCode acc' = ad_deletionCode acc"
    "ad_deletionExpires acc' = ad_deletionExpires acc" "set (ad_backup acc') \<subseteq> set (ad_backup acc)"
proof -
  from assms have e: "acc' = acc\<lparr>ad_backup := ad_backup acc', ad_backupUsed := ad_backupUsed acc'\<rparr>" by (simp add: spent_def)
  show "ad_email acc' = ad_email acc" "ad_emailVerified acc' = ad_emailVerified acc" "ad_tokens acc' = ad_tokens acc"
    "ad_password acc' = ad_password acc" "ad_profiles acc' = ad_profiles acc" "ad_consent acc' = ad_consent acc"
    "ad_totp acc' = ad_totp acc" "ad_secret acc' = ad_secret acc" "ad_deletionCode acc' = ad_deletionCode acc"
    "ad_deletionExpires acc' = ad_deletionExpires acc"
    by (subst e; simp)+
  show "set (ad_backup acc') \<subseteq> set (ad_backup acc)" using assms by (simp add: spent_def)
qed

lemma spent_trans [spent_facts]: "spent a b \<Longrightarrow> spent b c \<Longrightarrow> spent a c"
proof -
  assume ab: "spent a b" and bc: "spent b c"
  from ab have b: "b = a\<lparr>ad_backup := ad_backup b, ad_backupUsed := ad_backupUsed b\<rparr>" by (simp add: spent_def)
  from bc have c: "c = b\<lparr>ad_backup := ad_backup c, ad_backupUsed := ad_backupUsed c\<rparr>" by (simp add: spent_def)
  have "c = a\<lparr>ad_backup := ad_backup c, ad_backupUsed := ad_backupUsed c\<rparr>" by (subst c, subst b) simp
  with ab bc show "spent a c" by (auto simp: spent_def)
qed

lemma take_code_Some: "take_code otp cs = Some cs' \<Longrightarrow> otp \<in> set cs \<and> cs' = remove1 otp cs"
  by (induction cs arbitrary: cs') (auto split: if_splits)

lemma take_code_None: "take_code otp cs = None \<longleftrightarrow> otp \<notin> set cs"
  by (induction cs) auto

text \<open>\<open>only_doc srv srv'\<close>: nothing but the document, its backup codes, and the failure count changed.\<close>

lemma VerifyTotp_cases:
  assumes "VerifyTotp env otp action srv = (r, srv')"
  shows "spent (sv_doc srv) (sv_doc srv')" and "sv_others srv' = sv_others srv" and "sv_mails srv' = sv_mails srv"
    and "r = Inr acc \<Longrightarrow> acc = sv_doc srv' \<and> ad_totp (sv_doc srv) \<and>
           (av_totp_valid env otp (ad_secret (sv_doc srv)) \<or> otp \<in> set (ad_backup (sv_doc srv)))"
proof -
  let ?a = "sv_doc srv"
  have "spent ?a (sv_doc srv') \<and> sv_others srv' = sv_others srv \<and> sv_mails srv' = sv_mails srv \<and>
     (\<forall>acc. r = Inr acc \<longrightarrow> acc = sv_doc srv' \<and> ad_totp ?a \<and> (av_totp_valid env otp (ad_secret ?a) \<or> otp \<in> set (ad_backup ?a)))"
  proof (cases "ad_totp ?a \<and> \<not> av_totp_valid env otp (ad_secret ?a)")
    case True
    show ?thesis
    proof (cases "verifyTotpBackup ?a otp")
      case (Inl m)
      with True assms show ?thesis by (auto simp: VerifyTotp_def Let_def spent_refl)
    next
      case (Inr b)
      with True assms have r: "r = Inr b" "srv' = srv\<lparr>sv_doc := b\<rparr>" by (auto simp: VerifyTotp_def Let_def)
      from Inr obtain codes where c: "take_code otp (ad_backup ?a) = Some codes"
        "b = ?a\<lparr>ad_backup := codes, ad_backupUsed := ad_backupUsed ?a @ [otp]\<rparr>"
        by (auto simp: verifyTotpBackup_def split: if_splits option.splits)
      with take_code_Some [OF c(1)] have "spent ?a b" "otp \<in> set (ad_backup ?a)"
        by (auto simp: spent_def dest: subsetD [OF set_remove1_subset])
      with r True show ?thesis by simp
    qed
  qed (use assms in \<open>auto simp: VerifyTotp_def Let_def spent_refl split: if_splits\<close>)
  then show "spent (sv_doc srv) (sv_doc srv')" and "sv_others srv' = sv_others srv" and "sv_mails srv' = sv_mails srv"
    and "r = Inr acc \<Longrightarrow> acc = sv_doc srv' \<and> ad_totp (sv_doc srv) \<and>
           (av_totp_valid env otp (ad_secret (sv_doc srv)) \<or> otp \<in> set (ad_backup (sv_doc srv)))"
    by blast+
qed

text \<open>A document that differs from the stored one only in what the request has changed so far.\<close>

lemma MfaCheck_cases:
  assumes "account_MfaCheck env acc otp srv = (r, srv')"
  shows "spent (sv_doc srv) (sv_doc srv')" and "sv_others srv' = sv_others srv" and "sv_mails srv' = sv_mails srv"
    and "r = None \<Longrightarrow> ad_totp acc \<Longrightarrow>
           otp \<noteq> [] \<and> (av_totp_valid env otp (ad_secret (sv_doc srv)) \<or> otp \<in> set (ad_backup (sv_doc srv)))"
proof -
  obtain q srv1 where v: "VerifyTotp env otp TotpLogin srv = (q, srv1)" by fastforce
  note f = VerifyTotp_cases [OF v]
  have "srv' = srv \<or> srv' = srv1" using assms v by (auto simp: account_MfaCheck_def split: if_splits sum.splits)
  with f(1-3) show "spent (sv_doc srv) (sv_doc srv')" and "sv_others srv' = sv_others srv" and "sv_mails srv' = sv_mails srv"
    by (auto simp: spent_refl)
  show "r = None \<Longrightarrow> ad_totp acc \<Longrightarrow>
           otp \<noteq> [] \<and> (av_totp_valid env otp (ad_secret (sv_doc srv)) \<or> otp \<in> set (ad_backup (sv_doc srv)))"
  proof -
    assume r: "r = None" and on: "ad_totp acc"
    with assms v have ne: "otp \<noteq> []" and "\<exists>a. q = Inr a" by (auto simp: account_MfaCheck_def split: if_splits sum.splits)
    with f(4) show ?thesis by blast
  qed
qed


lemma consume_live:
  "consume_token now ty val ts = Inr (m, kept) \<Longrightarrow> t \<in> set ts \<Longrightarrow> tk_type t = ty \<Longrightarrow> tk_value t = val \<Longrightarrow> now \<le> tk_expires t"
  by (induction now ty val ts arbitrary: m kept rule: consume_token.induct) (auto split: if_splits sum.splits)

lemma consume_shrinks:
  assumes "consume_token now ty val ts = Inr (m, kept)"
  shows "set kept \<subseteq> set ts"
    and "m \<Longrightarrow> \<exists>t \<in> set ts. tk_type t = ty \<and> tk_value t = val \<and> now \<le> tk_expires t \<and> t \<notin> set kept"
proof -
  note k = consume_kept [OF assms]
  from k show "set kept \<subseteq> set ts" by auto
  assume m
  with k obtain t where t: "t \<in> set ts" "tk_type t = ty" "tk_value t = val" by blast
  with k have "t \<notin> set kept" by simp
  with t consume_live [OF assms t] show "\<exists>t \<in> set ts. tk_type t = ty \<and> tk_value t = val \<and> now \<le> tk_expires t \<and> t \<notin> set kept"
    by blast
qed

lemma VerifyOnAccount_cases:
  assumes "VerifyOnAccount env ty pw token otp acc srv = (r, srv')"
  shows "spent (sv_doc srv) (sv_doc srv')" "sv_others srv' = sv_others srv" "sv_mails srv' = sv_mails srv"
    and "r = Inr acc' \<Longrightarrow> acc' = acc\<lparr>ad_tokens := ad_tokens acc'\<rparr> \<and> set (ad_tokens acc') \<subseteq> set (ad_tokens acc)"
proof -
  have "spent (sv_doc srv) (sv_doc srv') \<and> sv_others srv' = sv_others srv \<and> sv_mails srv' = sv_mails srv \<and>
     (\<forall>acc'. r = Inr acc' \<longrightarrow> acc' = acc\<lparr>ad_tokens := ad_tokens acc'\<rparr> \<and> set (ad_tokens acc') \<subseteq> set (ad_tokens acc))"
  proof (cases pw)
    case None
    with assms show ?thesis
      by (auto simp: VerifyOnAccount_def spent_refl split: if_splits sum.splits dest: subsetD [OF consume_shrinks(1)])
  next
    case (Some p)
    obtain q srv1 where m: "account_MfaCheck env acc otp srv = (q, srv1)" by fastforce
    have "srv' = srv \<or> srv' = srv1" and "\<And>acc'. r = Inr acc' \<Longrightarrow> acc' = acc"
      using assms m Some by (auto simp: VerifyOnAccount_def split: if_splits option.splits)
    with MfaCheck_cases(1-3) [OF m] show ?thesis by (auto simp: spent_refl)
  qed
  then show "spent (sv_doc srv) (sv_doc srv')" "sv_others srv' = sv_others srv" "sv_mails srv' = sv_mails srv"
    and "r = Inr acc' \<Longrightarrow> acc' = acc\<lparr>ad_tokens := ad_tokens acc'\<rparr> \<and> set (ad_tokens acc') \<subseteq> set (ad_tokens acc)"
    by blast+
qed

text \<open>
  \<open>kept_by_update acc acc'\<close>: an update other than of the password keeps the sign-in, issues no token, and
  keeps verification codes and the verified mark only together with the address.
\<close>

definition kept_by_update :: "account_doc \<Rightarrow> account_doc \<Rightarrow> bool" where
  "kept_by_update acc acc' \<longleftrightarrow>
     ad_password acc' = ad_password acc \<and> ad_totp acc' = ad_totp acc \<and> ad_secret acc' = ad_secret acc \<and>
     ad_backup acc' = ad_backup acc \<and> ad_backupUsed acc' = ad_backupUsed acc \<and>
     set (ad_tokens acc') \<subseteq> set (ad_tokens acc) \<and>
     (ad_email acc' = ad_email acc \<and> ad_emailVerified acc' = ad_emailVerified acc \<or>
      \<not> ad_emailVerified acc' \<and> (\<forall>t \<in> set (ad_tokens acc'). tk_type t \<noteq> EmailCategoryVerificationOTP \<and> tk_type t \<noteq> TokenTypePasswordReset))"

lemma kept_refl: "kept_by_update acc acc"
  by (simp add: kept_by_update_def)

lemma kept_trans: "kept_by_update a b \<Longrightarrow> kept_by_update b c \<Longrightarrow> kept_by_update a c"
  by (auto simp: kept_by_update_def)

lemma handleEmailUpdate_cases:
  assumes "handleEmailUpdate env v otp acc srv = (r, srv')"
  shows "spent (sv_doc srv) (sv_doc srv')" "sv_others srv' = sv_others srv" "sv_mails srv' = sv_mails srv"
    and "r = Inr acc' \<Longrightarrow> kept_by_update acc acc'"
proof -
  have "spent (sv_doc srv) (sv_doc srv') \<and> sv_others srv' = sv_others srv \<and> sv_mails srv' = sv_mails srv \<and>
     (\<forall>acc'. r = Inr acc' \<longrightarrow> kept_by_update acc acc')"
  proof (cases v)
    case (VFields u)
    define e where "e = NormalizeEmail (nullish (uf_new_email u) [])"
    obtain q srv1 where m: "VerifyOnAccount env TokenTypeReauthEmailChange (uf_current_password u) (uf_reauth_token u) otp acc srv = (q, srv1)"
      by fastforce
    note f = VerifyOnAccount_cases [OF m]
    show ?thesis
    proof (cases "email_update_valid env (u\<lparr>uf_new_email := Some e\<rparr>)")
      case True
      show ?thesis
      proof (cases q)
        case (Inl x)
        with True assms m f(1-3) VFields show ?thesis by (auto simp: handleEmailUpdate_def Let_def e_def)
      next
        case (Inr a)
        from f(4) [OF Inr] have a: "a = acc\<lparr>ad_tokens := ad_tokens a\<rparr>" "set (ad_tokens a) \<subseteq> set (ad_tokens acc)" by auto
        have "kept_by_update acc (a\<lparr>ad_email := e, ad_emailVerified := False,
            ad_tokens := filter (\<lambda>t. tk_type t \<noteq> EmailCategoryVerificationOTP \<and> tk_type t \<noteq> TokenTypePasswordReset) (ad_tokens a)\<rparr>)"
          using a(2) by (subst a(1)) (auto simp: kept_by_update_def)
        with True assms m f(1-3) VFields Inr show ?thesis
          by (auto simp: handleEmailUpdate_def Let_def e_def split: if_splits)
      qed
    qed (use assms VFields in \<open>auto simp: handleEmailUpdate_def Let_def e_def spent_refl\<close>)
  qed (use assms in \<open>auto simp: handleEmailUpdate_def spent_refl\<close>)
  then show "spent (sv_doc srv) (sv_doc srv')" "sv_others srv' = sv_others srv" "sv_mails srv' = sv_mails srv"
    and "r = Inr acc' \<Longrightarrow> kept_by_update acc acc'" by blast+
qed

lemma other_ops_cases:
  assumes "other_ops env otp us acc srv = (r, srv')"
  shows "spent (sv_doc srv) (sv_doc srv') \<and> sv_others srv' = sv_others srv \<and> sv_mails srv' = sv_mails srv \<and>
         (\<forall>acc'. r = Inr acc' \<longrightarrow> kept_by_update acc acc')"
  using assms
proof (induction env otp us acc srv rule: other_ops.induct)
  case (1 env otp acc srv)
  then show ?case by (auto simp: spent_refl kept_refl)
next
  case (2 env otp u us acc srv)
  show ?case
  proof (cases "au_path_of u")
    case PathEmail
    obtain q srv1 where m: "handleEmailUpdate env (au_value u) otp acc srv = (q, srv1)" by fastforce
    note f = handleEmailUpdate_cases [OF m]
    show ?thesis
    proof (cases q)
      case (Inl e)
      with "2.prems" PathEmail m f(1-3) show ?thesis by auto
    next
      case (Inr a)
      from "2.prems" PathEmail m Inr have "other_ops env otp us a srv1 = (r, srv')" by simp
      from "2.IH"(4) [OF PathEmail m [symmetric] Inr this] f Inr show ?thesis
        by (metis kept_trans spent_trans)
    qed
  next
    case PathConsent
    with "2.prems" have "other_ops env otp us (acc\<lparr>ad_consent := to_bool (au_value u)\<rparr>) srv = (r, srv')" by simp
    from "2.IH"(2) [OF PathConsent this] show ?thesis by (auto simp: kept_by_update_def)
  next
    case PathPassword
    with "2.prems" have "other_ops env otp us acc srv = (r, srv')" by simp
    from "2.IH"(1) [OF PathPassword this] show ?thesis .
  next
    case PathProfiles
    with "2.prems" have "other_ops env otp us acc srv = (r, srv')" by simp
    from "2.IH"(3) [OF PathProfiles this] show ?thesis .
  qed
qed

lemma profile_ops_doc:
  "\<exists>ps. sv_doc (snd (profile_ops us srv)) = (sv_doc srv)\<lparr>ad_profiles := ps\<rparr> \<and>
        sv_others (snd (profile_ops us srv)) = sv_others srv \<and> sv_mails (snd (profile_ops us srv)) = sv_mails srv"
proof (induction us arbitrary: srv)
  case Nil
  show ?case by (rule exI [of _ "ad_profiles (sv_doc srv)"]) simp
next
  case (Cons u us)
  have same: "\<exists>ps. sv_doc srv = (sv_doc srv)\<lparr>ad_profiles := ps\<rparr>" by (rule exI [of _ "ad_profiles (sv_doc srv)"]) simp
  have IH: "\<exists>ps'. sv_doc (snd (profile_ops us (srv\<lparr>sv_doc := (sv_doc srv)\<lparr>ad_profiles := ps\<rparr>\<rparr>))) = (sv_doc srv)\<lparr>ad_profiles := ps'\<rparr> \<and>
        sv_others (snd (profile_ops us (srv\<lparr>sv_doc := (sv_doc srv)\<lparr>ad_profiles := ps\<rparr>\<rparr>))) = sv_others srv \<and>
        sv_mails (snd (profile_ops us (srv\<lparr>sv_doc := (sv_doc srv)\<lparr>ad_profiles := ps\<rparr>\<rparr>))) = sv_mails srv" for ps
    using Cons [of "srv\<lparr>sv_doc := (sv_doc srv)\<lparr>ad_profiles := ps\<rparr>\<rparr>"] by auto
  show ?case using same IH by (auto simp: Let_def split: option.split)
qed


subsection \<open>Who can set a password\<close>

lemma password_ops_result:
  assumes "password_ops env hp verified us acc = Inr acc'"
  shows "acc' = acc\<lparr>ad_tokens := ad_tokens acc', ad_password := ad_password acc'\<rparr> \<and>
         set (ad_tokens acc') \<subseteq> set (ad_tokens acc) \<and>
         (ad_password acc' = ad_password acc \<or>
          (\<exists>u \<in> set us. \<exists>pw. au_operation u = OpReplace \<and> to_string (au_value u) = Some pw \<and>
             ValidatePassword pw \<and> ad_password acc' = Some (av_hash env pw)))"
  using assms
proof (induction env hp verified us acc rule: password_ops.induct)
  case (1 env hp verified acc)
  then show ?case by simp
next
  case (2 env hp verified u us acc)
  consider "au_operation u = OpTest" | "au_operation u = OpReplace" using "2.prems" by (auto split: if_splits)
  then show ?case
  proof cases
    case 1
    show ?thesis
    proof (cases hp)
      case True
      then obtain pw where pw: "to_string (au_value u) = Some pw" "av_hash_ok env pw (the (ad_password acc))"
        using "2.prems" 1 by (auto split: option.splits if_splits)
      with "2.prems" 1 True have "password_ops env hp True us acc = Inr acc'" by simp
      from "2.IH"(1) [OF 1 True pw this] show ?thesis by auto
    next
      case False
      then obtain tok m kept where t: "password_set_token (au_value u) = Some tok"
        "consume_token (av_now env) TokenTypeReauthPasswordSet tok (ad_tokens acc) = Inr (m, kept)" "m"
        using "2.prems" 1 by (auto split: option.splits sum.splits if_splits)
      with "2.prems" 1 False have r: "password_ops env hp True us (acc\<lparr>ad_tokens := kept\<rparr>) = Inr acc'" by simp
      from "2.IH"(2) [OF 1 False t(1,2) refl t(3) r] consume_shrinks(1) [OF t(2)] show ?thesis by auto
    qed
  next
    case 2
    then obtain pw where pw: "verified" "to_string (au_value u) = Some pw" "ValidatePassword pw"
      and s: "SetPassword env pw acc = Some (acc\<lparr>ad_password := Some (av_hash env pw)\<rparr>)"
      and r: "password_ops env hp False us (acc\<lparr>ad_password := Some (av_hash env pw)\<rparr>) = Inr acc'"
      using "2.prems" by (auto simp: SetPassword_def split: option.splits if_splits)
    have nt: "au_operation u \<noteq> OpTest" using 2 by simp
    from "2.IH"(3) [OF nt 2 _ pw(2) _ s r] pw have
      ih: "acc' = acc\<lparr>ad_password := Some (av_hash env pw), ad_tokens := ad_tokens acc', ad_password := ad_password acc'\<rparr>"
        "set (ad_tokens acc') \<subseteq> set (ad_tokens acc)"
        "ad_password acc' = Some (av_hash env pw) \<or>
          (\<exists>u \<in> set us. \<exists>pw. au_operation u = OpReplace \<and> to_string (au_value u) = Some pw \<and>
             ValidatePassword pw \<and> ad_password acc' = Some (av_hash env pw))" by auto
    have "acc' = acc\<lparr>ad_tokens := ad_tokens acc', ad_password := ad_password acc'\<rparr>" by (subst ih(1)) simp
    with ih(2,3) 2 pw(2,3) show ?thesis by auto
  qed
qed

text \<open>The first operation is a test that passes.\<close>

lemma password_ops_first:
  assumes "password_ops env hp False (u # us) acc = Inr acc'"
  shows "au_operation u = OpTest \<and>
         (if hp then \<exists>pw. to_string (au_value u) = Some pw \<and> av_hash_ok env pw (the (ad_password acc))
          else \<exists>t \<in> set (ad_tokens acc). tk_type t = TokenTypeReauthPasswordSet \<and> av_now env \<le> tk_expires t \<and>
                 password_set_token (au_value u) = Some (tk_value t) \<and> t \<notin> set (ad_tokens acc'))"
proof -
  have test: "au_operation u = OpTest" using assms by (auto split: if_splits)
  show ?thesis
  proof (cases hp)
    case True
    with assms test show ?thesis by (auto split: option.splits if_splits)
  next
    case False
    then obtain tok m kept where t: "password_set_token (au_value u) = Some tok"
      "consume_token (av_now env) TokenTypeReauthPasswordSet tok (ad_tokens acc) = Inr (m, kept)" "m"
      using assms test by (auto split: option.splits sum.splits if_splits)
    with assms test False have r: "password_ops env hp True us (acc\<lparr>ad_tokens := kept\<rparr>) = Inr acc'" by simp
    with password_ops_result [OF r] have "set (ad_tokens acc') \<subseteq> set kept" by simp
    with consume_shrinks(2) [OF t(2,3)] t(1) test False show ?thesis by auto
  qed
qed

text \<open>
  Property C27 (password_change_proved). Whatever the request and whatever other changes it makes, the
  stored password changes only when the request succeeds and proves who the user is: for an account with
  a password, a test operation carries the current one and, with the second factor on, the code is valid
  or an unused backup code; for an account without one, a test carries a live token of a passkey
  ceremony for this purpose, which is gone afterwards. The new password is strong.
\<close>

lemma UpdateAccount_password:
  assumes upd: "UpdateAccount env updates otp srv = (r, srv')"
    and changed: "ad_password (sv_doc srv') \<noteq> ad_password (sv_doc srv)"
  shows "r = None \<and>
         (\<exists>pw. ValidatePassword pw \<and> ad_password (sv_doc srv') = Some (av_hash env pw)) \<and>
         (\<exists>u \<in> set updates. au_path_of u = PathPassword \<and> au_operation u = OpTest \<and>
            (case ad_password (sv_doc srv) of
               Some hash \<Rightarrow>
                 (\<exists>old. to_string (au_value u) = Some old \<and> av_hash_ok env old hash) \<and>
                 (ad_totp (sv_doc srv) \<longrightarrow> otp \<noteq> [] \<and>
                    (av_totp_valid env otp (ad_secret (sv_doc srv)) \<or> otp \<in> set (ad_backup (sv_doc srv))))
             | None \<Rightarrow>
                 (\<exists>t \<in> set (ad_tokens (sv_doc srv)). tk_type t = TokenTypeReauthPasswordSet \<and> av_now env \<le> tk_expires t \<and>
                    password_set_token (au_value u) = Some (tk_value t) \<and> t \<notin> set (ad_tokens (sv_doc srv')))))"
proof -
  define others where "others = filter (\<lambda>u. au_path_of u \<noteq> PathProfiles) updates"
  define ps where "ps = filter (\<lambda>u. au_path_of u = PathPassword) others"
  obtain e1 srv1 where p1: "profile_ops (filter (\<lambda>u. au_path_of u = PathProfiles) updates) srv = (e1, srv1)" by fastforce
  with profile_ops_doc [of "filter (\<lambda>u. au_path_of u = PathProfiles) updates" srv] obtain prof where
    doc1: "sv_doc srv1 = (sv_doc srv)\<lparr>ad_profiles := prof\<rparr>" by auto
  obtain q srv2 where p2: "other_ops env otp others (sv_doc srv1) srv1 = (q, srv2)" by fastforce
  note o = other_ops_cases [OF p2]
  note upd' = upd [unfolded UpdateAccount_def Let_def, folded others_def, folded ps_def, unfolded p1 p2]
  have stays: "\<not> spent (sv_doc srv1) (sv_doc srv')"
    using changed doc1 spent_keeps(4) by fastforce
  have e1: "e1 = None"
  proof (rule ccontr)
    assume "e1 \<noteq> None"
    with upd' have "srv' = srv1" by auto
    with stays spent_refl show False by simp
  qed
  have ne: "others \<noteq> []"
  proof
    assume "others = []"
    with upd' e1 have "srv' = srv1" by simp
    with stays spent_refl show False by simp
  qed
  obtain acc where q: "q = Inr acc"
  proof (cases q)
    case (Inl x)
    with upd' e1 ne p2 have "srv' = srv2" by simp
    with stays o show ?thesis by blast
  qed
  from o q have kept: "kept_by_update (sv_doc srv1) acc" and sp: "spent (sv_doc srv1) (sv_doc srv2)" by auto
  from kept doc1 have same: "ad_password acc = ad_password (sv_doc srv)" "ad_totp acc = ad_totp (sv_doc srv)"
    "set (ad_tokens acc) \<subseteq> set (ad_tokens (sv_doc srv))" by (auto simp: kept_by_update_def)
  have ps: "ps \<noteq> []" using upd' e1 ne p2 q same(1) changed by auto
  obtain w srv3 where p3: "handlePasswordUpdate env ps otp acc srv2 = (w, srv3)" by fastforce
  have sp3: "spent (sv_doc srv2) (sv_doc srv3)"
    using p3 MfaCheck_cases(1) by (auto simp: handlePasswordUpdate_def spent_refl split: if_splits prod.splits option.splits)
  obtain acc' where w: "w = Inr acc'"
  proof (cases w)
    case (Inl x)
    with upd' e1 ne p2 q ps p3 have "srv' = srv3" by simp
    with stays spent_trans [OF sp sp3] show ?thesis by blast
  qed
  from upd' e1 ne p2 q ps p3 w have r: "r = None" and srv': "sv_doc srv' = acc'" by auto
  define hp where "hp = (ad_password acc \<noteq> None)"
  have ops: "password_ops env hp False ps acc = Inr acc'"
    using p3 w by (auto simp: handlePasswordUpdate_def hp_def split: if_splits prod.splits option.splits)
  obtain u us where u: "ps = u # us" using ps by (cases ps) auto
  then have "u \<in> set ps" by simp
  then have mem: "u \<in> set updates" "au_path_of u = PathPassword" by (auto simp: ps_def others_def)
  note first = password_ops_first [OF ops [unfolded u]]
  have new: "\<exists>pw. ValidatePassword pw \<and> ad_password (sv_doc srv') = Some (av_hash env pw)"
    using password_ops_result [OF ops] changed same(1) srv' by auto
  have code: "otp \<noteq> [] \<and> (av_totp_valid env otp (ad_secret (sv_doc srv)) \<or> otp \<in> set (ad_backup (sv_doc srv)))"
    if "hp" "ad_totp (sv_doc srv)"
  proof -
    obtain m srvm where m: "account_MfaCheck env acc otp srv2 = (m, srvm)" by fastforce
    with p3 w that(1) have "m = None" by (auto simp: handlePasswordUpdate_def hp_def split: option.splits)
    from MfaCheck_cases(4) [OF m this] that(2) same(2) spent_keeps(8,11) [OF sp] doc1 show ?thesis by auto
  qed
  show ?thesis
  proof (cases "ad_password (sv_doc srv)")
    case None
    with same(1) have "\<not> hp" by (simp add: hp_def)
    with first same(3) srv' show ?thesis
      using r new mem None by (auto intro!: bexI [of _ u])
  next
    case (Some h)
    with same(1) have "hp" "the (ad_password acc) = h" by (simp_all add: hp_def)
    with first code show ?thesis
      using r new mem Some by (auto intro!: bexI [of _ u])
  qed
qed

theorem password_change_proved:
  assumes "UpdateAccount env updates otp srv = (r, srv')"
    and "ad_password (sv_doc srv') \<noteq> ad_password (sv_doc srv)"
  shows "r = None \<and>
         (\<exists>pw. ValidatePassword pw \<and> ad_password (sv_doc srv') = Some (av_hash env pw)) \<and>
         (\<exists>u \<in> set updates. au_path_of u = PathPassword \<and> au_operation u = OpTest \<and>
            (case ad_password (sv_doc srv) of
               Some hash \<Rightarrow>
                 (\<exists>old. to_string (au_value u) = Some old \<and> av_hash_ok env old hash) \<and>
                 (ad_totp (sv_doc srv) \<longrightarrow> otp \<noteq> [] \<and>
                    (av_totp_valid env otp (ad_secret (sv_doc srv)) \<or> otp \<in> set (ad_backup (sv_doc srv))))
             | None \<Rightarrow>
                 (\<exists>t \<in> set (ad_tokens (sv_doc srv)). tk_type t = TokenTypeReauthPasswordSet \<and> av_now env \<le> tk_expires t \<and>
                    password_set_token (au_value u) = Some (tk_value t) \<and> t \<notin> set (ad_tokens (sv_doc srv')))))"
  using assms by (rule UpdateAccount_password)


definition plain_doc :: account_doc where
  "plain_doc = \<lparr>ad_email = ''u@x.org'', ad_emailVerified = True, ad_tokens = [], ad_password = Some ''h(old)'',
     ad_profiles = [''p1''], ad_consent = False, ad_totp = False, ad_secret = [], ad_backup = [], ad_backupUsed = [],
     ad_deletionCode = [], ad_deletionExpires = None\<rparr>"

definition plain_env :: account_env where
  "plain_env = \<lparr>av_now = 1000, av_totp_valid = (\<lambda>otp secret. otp = secret @ ''1''), av_hash = (\<lambda>p. ''h('' @ p @ '')''),
     av_hash_ok = (\<lambda>p h. h = ''h('' @ p @ '')''), av_email_tag = (\<lambda>e. js_includes e ''@''), av_idLimiterMax = 5\<rparr>"

definition server_of :: "account_doc \<Rightarrow> account_server" where
  "server_of d = \<lparr>sv_doc = d, sv_others = [], sv_setup = None, sv_totpFails = 0, sv_confirmFails = 0, sv_resends = 0,
     sv_verifyFails = 0, sv_mails = []\<rparr>"

definition password_patch :: "update_value \<Rightarrow> string \<Rightarrow> account_update list" where
  "password_patch test new =
     [\<lparr>au_operation = OpTest, au_path_of = PathPassword, au_value = test\<rparr>,
      \<lparr>au_operation = OpReplace, au_path_of = PathPassword, au_value = VText new\<rparr>]"

lemma strong_password: "ValidatePassword ''Secret-word-1''" "\<not> list_all go_space ''Secret-word-1''"
  by code_simp+

theorem password_change_proved_witness:
  "let (r, srv') = UpdateAccount plain_env (password_patch (VText ''old'') ''Secret-word-1'') [] (server_of plain_doc)
   in ad_password (sv_doc srv') = Some ''h(Secret-word-1)'' \<and>
      (\<exists>old. VText ''old'' = VText old \<and> av_hash_ok plain_env old ''h(old)'')"
proof -
  let ?r = "UpdateAccount plain_env (password_patch (VText ''old'') ''Secret-word-1'') [] (server_of plain_doc)"
  have pw: "ad_password (sv_doc (snd ?r)) = Some ''h(Secret-word-1)''"
    using strong_password
    by (simp add: UpdateAccount_def password_patch_def handlePasswordUpdate_def account_MfaCheck_def server_of_def
        plain_doc_def plain_env_def SetPassword_def Let_def)
  have "?r = (fst ?r, snd ?r)" by simp
  from password_change_proved [OF this] pw have
    "\<exists>u \<in> set (password_patch (VText ''old'') ''Secret-word-1''). au_operation u = OpTest \<and>
       (\<exists>old. to_string (au_value u) = Some old \<and> av_hash_ok plain_env old ''h(old)'')"
    by (auto simp: server_of_def plain_doc_def)
  then have "av_hash_ok plain_env ''old'' ''h(old)''" by (auto simp: password_patch_def)
  with pw show ?thesis by (simp add: case_prod_beta)
qed

subsection \<open>Backup codes\<close>

text \<open>
  Fact (backup_code_single_use). In any sequence of checks of the second factor a backup code that
  is not itself a valid one-time code is accepted at most once: a check that accepts it moves it from the
  unused to the used codes for good.
\<close>

fun mfa_checks :: "account_env \<Rightarrow> string list \<Rightarrow> account_server \<Rightarrow> (string \<times> bool) list \<times> account_server" where
  "mfa_checks env [] srv = ([], srv)"
| "mfa_checks env (otp # otps) srv =
     (let (e, srv1) = account_MfaCheck env (sv_doc srv) otp srv; (rs, srv2) = mfa_checks env otps srv1
      in ((otp, e = None) # rs, srv2))"

lemma MfaCheck_used:
  assumes "account_MfaCheck env (sv_doc srv) otp srv = (e, srv')" and "ad_totp (sv_doc srv)"
  shows "set (ad_backupUsed (sv_doc srv)) \<subseteq> set (ad_backupUsed (sv_doc srv'))"
    and "\<not> av_totp_valid env otp (ad_secret (sv_doc srv)) \<Longrightarrow> otp \<in> set (ad_backupUsed (sv_doc srv)) \<Longrightarrow> e \<noteq> None"
    and "\<not> av_totp_valid env otp (ad_secret (sv_doc srv)) \<Longrightarrow> e = None \<Longrightarrow> otp \<in> set (ad_backupUsed (sv_doc srv'))"
  using assms
  by (auto simp: account_MfaCheck_def VerifyTotp_def verifyTotpBackup_def Let_def split: if_splits option.splits sum.splits)

lemma mfa_checks_used:
  assumes "ad_totp (sv_doc srv)" and "\<not> av_totp_valid env otp (ad_secret (sv_doc srv))"
  shows "length (filter (\<lambda>r. r = (otp, True)) (fst (mfa_checks env otps srv))) \<le>
           (if otp \<in> set (ad_backupUsed (sv_doc srv)) then 0 else 1)"
  using assms
proof (induction otps arbitrary: srv)
  case (Cons o1 otps)
  obtain e srv1 where m: "account_MfaCheck env (sv_doc srv) o1 srv = (e, srv1)" by fastforce
  have keep: "ad_totp (sv_doc srv1)" "\<not> av_totp_valid env otp (ad_secret (sv_doc srv1))"
    using Cons.prems spent_keeps(7,8) [OF MfaCheck_cases(1) [OF m]] by simp_all
  note used = MfaCheck_used [OF m Cons.prems(1)]
  from Cons.IH [OF keep] used Cons.prems(2) show ?case
    by (auto simp: m case_prod_beta split: if_splits)
qed simp

theorem backup_code_single_use:
  assumes "ad_totp (sv_doc srv)" and "\<not> av_totp_valid env code (ad_secret (sv_doc srv))"
  shows "length (filter (\<lambda>r. r = (code, True)) (fst (mfa_checks env otps srv))) \<le> 1"
  using mfa_checks_used [OF assms, of otps] by (simp split: if_splits)

definition coded_doc :: account_doc where
  "coded_doc = plain_doc\<lparr>ad_totp := True, ad_secret := ''s'', ad_backup := [''aaaa'', ''bbbb'']\<rparr>"

theorem backup_code_single_use_witness:
  "let rs = fst (mfa_checks plain_env [''aaaa'', ''s1'', ''aaaa''] (server_of coded_doc))
   in rs = [(''aaaa'', True), (''s1'', True), (''aaaa'', False)] \<and> length (filter (\<lambda>r. r = (''aaaa'', True)) rs) \<le> 1"
proof -
  have "fst (mfa_checks plain_env [''aaaa'', ''s1'', ''aaaa''] (server_of coded_doc)) =
      [(''aaaa'', True), (''s1'', True), (''aaaa'', False)]" by code_simp
  moreover have "ad_totp (sv_doc (server_of coded_doc))" "\<not> av_totp_valid plain_env ''aaaa'' (ad_secret (sv_doc (server_of coded_doc)))"
    by code_simp+
  from backup_code_single_use [OF this, of "[''aaaa'', ''s1'', ''aaaa'']"] calculation show ?thesis by (simp add: Let_def)
qed

text \<open>
  Property C29 (backup_code_restored). A password change or a password reset that is confirmed with a backup
  code gives the code back: the check uses it up in the stored document, but the operation goes on with
  the copy it has loaded before and stores that, so the code can be used again and again.
\<close>

lemma VerifyTotp_backup:
  assumes "ad_totp (sv_doc srv)" "\<not> av_totp_valid env otp (ad_secret (sv_doc srv))"
    and "otp \<in> set (ad_backup (sv_doc srv))" "otp \<notin> set (ad_backupUsed (sv_doc srv))"
  shows "\<exists>acc. VerifyTotp env otp a srv = (Inr acc, srv\<lparr>sv_doc := acc\<rparr>) \<and> otp \<in> set (ad_backupUsed acc)"
proof -
  from assms(3) obtain cs where "take_code otp (ad_backup (sv_doc srv)) = Some cs" using take_code_None by fastforce
  with assms show ?thesis by (auto simp: VerifyTotp_def verifyTotpBackup_def Let_def)
qed

theorem backup_code_restored:
  fixes srv :: account_server and env :: account_env and otp old new token hash :: string
  defines "acc \<equiv> sv_doc srv"
  assumes "ad_totp acc" "otp \<noteq> []" "\<not> av_totp_valid env otp (ad_secret acc)"
    and "otp \<in> set (ad_backup acc)" "otp \<notin> set (ad_backupUsed acc)"
    and "ad_password acc = Some hash" "av_hash_ok env old hash" "ValidatePassword new" "\<not> list_all go_space new"
    and "consume_token (av_now env) TokenTypePasswordReset token (ad_tokens acc) = Inr (True, kept)"
  shows "(\<exists>used. account_MfaCheck env acc otp srv = (None, srv\<lparr>sv_doc := used\<rparr>) \<and> otp \<in> set (ad_backupUsed used)) \<and>
         UpdateAccount env (password_patch (VText old) new) otp srv =
           (None, srv\<lparr>sv_doc := acc\<lparr>ad_password := Some (av_hash env new)\<rparr>\<rparr>) \<and>
         VerifyPasswordReset env token new otp srv =
           (None, srv\<lparr>sv_doc := acc\<lparr>ad_tokens := kept, ad_password := Some (av_hash env new)\<rparr>\<rparr>)"
proof -
  obtain used where v: "VerifyTotp env otp TotpLogin srv = (Inr used, srv\<lparr>sv_doc := used\<rparr>)" "otp \<in> set (ad_backupUsed used)"
    using VerifyTotp_backup assms(1-6) by (metis acc_def)
  then have m: "account_MfaCheck env acc otp srv = (None, srv\<lparr>sv_doc := used\<rparr>)"
    using assms(2,3) by (simp add: account_MfaCheck_def)
  have set: "SetPassword env new acc = Some (acc\<lparr>ad_password := Some (av_hash env new)\<rparr>)"
    using assms(10) by (simp add: SetPassword_def)
  have upd: "UpdateAccount env (password_patch (VText old) new) otp srv =
      (None, srv\<lparr>sv_doc := acc\<lparr>ad_password := Some (av_hash env new)\<rparr>\<rparr>)"
    using m assms(7-9) set
    by (simp add: UpdateAccount_def password_patch_def handlePasswordUpdate_def acc_def [symmetric] Let_def)
  have "\<exists>t \<in> set (ad_tokens acc). tk_type t = TokenTypePasswordReset \<and> tk_value t = token"
    using consume_kept [OF assms(11)] by simp
  then have "list_ex (\<lambda>t. tk_value t = token) (ad_tokens acc)" "list_ex (\<lambda>t. tk_type t = TokenTypePasswordReset) (ad_tokens acc)"
    by (auto simp: list_ex_iff)
  then have "VerifyPasswordReset env token new otp srv =
      (None, srv\<lparr>sv_doc := acc\<lparr>ad_tokens := kept, ad_password := Some (av_hash env new)\<rparr>\<rparr>)"
    using m assms(11) set by (simp add: VerifyPasswordReset_def acc_def [symmetric] Let_def)
  with m v(2) upd show ?thesis by blast
qed


definition reset_token :: reauth_token where
  "reset_token = \<lparr>tk_type = TokenTypePasswordReset, tk_value = ''tok'', tk_expires = 2000\<rparr>"

theorem backup_code_restored_witness:
  "let srv = server_of (coded_doc\<lparr>ad_tokens := [reset_token]\<rparr>);
       srv' = snd (UpdateAccount plain_env (password_patch (VText ''old'') ''Secret-word-1'') ''aaaa'' srv)
   in ad_backup (sv_doc srv') = [''aaaa'', ''bbbb''] \<and> ad_password (sv_doc srv') = Some ''h(Secret-word-1)''"
proof -
  let ?srv = "server_of (coded_doc\<lparr>ad_tokens := [reset_token]\<rparr>)"
  have c: "ad_totp (sv_doc ?srv)" "''aaaa'' \<noteq> []" "\<not> av_totp_valid plain_env ''aaaa'' (ad_secret (sv_doc ?srv))"
    "''aaaa'' \<in> set (ad_backup (sv_doc ?srv))" "''aaaa'' \<notin> set (ad_backupUsed (sv_doc ?srv))"
    "ad_password (sv_doc ?srv) = Some ''h(old)''" "av_hash_ok plain_env ''old'' ''h(old)''"
    by (simp_all add: server_of_def coded_doc_def plain_doc_def plain_env_def)
  have t: "consume_token (av_now plain_env) TokenTypePasswordReset ''tok'' (ad_tokens (sv_doc ?srv)) = Inr (True, [])"
    by (simp add: server_of_def reset_token_def plain_env_def)
  from backup_code_restored [OF c strong_password t] show ?thesis
    by (simp add: Let_def server_of_def coded_doc_def plain_doc_def) (simp add: plain_env_def)
qed

text \<open>
  Fact (totp_limiter_never_blocks). The limiters that count failed codes to stop guessing only choose the
  text of a failure: after any number of failures the right code is accepted, when the second factor is
  set up, when it is asked for, and when an address is verified.
\<close>

theorem totp_limiter_never_blocks:
  "(ad_totp (sv_doc srv) \<and> av_totp_valid env otp (ad_secret (sv_doc srv)) \<longrightarrow>
      VerifyTotp env otp a (srv\<lparr>sv_totpFails := n\<rparr>) = (Inr (sv_doc srv), srv\<lparr>sv_totpFails := n\<rparr>)) \<and>
   (sv_setup srv = Some secret \<and> \<not> ad_totp (sv_doc srv) \<and> av_totp_valid env otp secret \<longrightarrow>
      (\<exists>codes'. fst (TotpConfirm env codes otp (srv\<lparr>sv_confirmFails := n\<rparr>)) = Inr codes')) \<and>
   (\<not> ad_emailVerified (sv_doc srv) \<and> otp \<noteq> [] \<and> split_otp (av_now env) (ad_tokens (sv_doc srv)) = (Some t, others) \<and> tk_value t = otp \<longrightarrow>
      fst (VerifyEmailOTP env otp (srv\<lparr>sv_verifyFails := n\<rparr>)) = None)"
  by (simp add: VerifyTotp_def TotpConfirm_def VerifyEmailOTP_def Let_def)

text \<open>
  Fact (second_factor_roundtrip). Confirming a new second factor with the code of the secret that was
  handed out turns it on with that secret and the new backup codes, after which every check asks for a
  code; turning it off with a valid code or one of those backup codes gives back the document before.
\<close>

theorem second_factor_roundtrip:
  fixes srv :: account_server and secret code :: string and codes :: "string list" and env :: account_env
  defines "on \<equiv> snd (TotpConfirm env codes code (snd (TotpEnable secret srv)))"
  assumes "\<not> ad_totp (sv_doc srv)" "ad_secret (sv_doc srv) = []" "ad_backup (sv_doc srv) = []" "ad_backupUsed (sv_doc srv) = []"
    and "av_totp_valid env code secret"
    and "av_totp_valid env otp secret \<or> otp \<in> set codes"
  shows "fst (TotpConfirm env codes code (snd (TotpEnable secret srv))) = Inr codes \<and>
         account_MfaCheck env (sv_doc on) [] on = (Some (TotpError TOTP_REQUIRED), on) \<and>
         fst (TotpDisable env otp on) = Inr (sv_doc srv) \<and> sv_doc (snd (TotpDisable env otp on)) = sv_doc srv"
proof -
  let ?acc = "(sv_doc srv)\<lparr>ad_totp := True, ad_secret := secret, ad_backup := codes\<rparr>"
  have c: "TotpConfirm env codes code (snd (TotpEnable secret srv)) = (Inr codes, srv\<lparr>sv_doc := ?acc, sv_setup := Some secret\<rparr>)"
    using assms(2,4,6) by (simp add: TotpConfirm_def TotpEnable_def)
  then have on: "on = srv\<lparr>sv_doc := ?acc, sv_setup := Some secret\<rparr>" by (simp add: on_def)
  have off: "a\<lparr>ad_totp := False, ad_secret := [], ad_backup := [], ad_backupUsed := []\<rparr> = sv_doc srv"
    if "spent ?acc a" for a
  proof -
    from that have "\<exists>b u. a = ?acc\<lparr>ad_backup := b, ad_backupUsed := u\<rparr>" unfolding spent_def by blast
    then obtain b u where a: "a = ?acc\<lparr>ad_backup := b, ad_backupUsed := u\<rparr>" by blast
    show ?thesis unfolding a using assms(2-5) by (cases "sv_doc srv") simp
  qed
  obtain r srv2 where v: "VerifyTotp env otp TotpDisabling on = (r, srv2)" by fastforce
  have "\<exists>a. r = Inr a"
  proof (cases "av_totp_valid env otp secret")
    case True
    with v show ?thesis by (auto simp: VerifyTotp_def on Let_def)
  next
    case False
    with assms(7) have "otp \<in> set codes" by simp
    with False v VerifyTotp_backup [of on env otp TotpDisabling] assms(5) show ?thesis by (auto simp: on)
  qed
  then obtain a where r: "r = Inr a" by blast
  from VerifyTotp_cases(4) [OF v r] VerifyTotp_cases(1) [OF v] have a: "spent ?acc a" by (simp add: on)
  have "TotpDisable env otp on = (Inr (sv_doc srv), srv2\<lparr>sv_doc := sv_doc srv\<rparr>)"
    by (simp add: TotpDisable_def v r Let_def off [OF a])
  with c show ?thesis by (simp add: on account_MfaCheck_def)
qed

theorem second_factor_roundtrip_witness:
  "let on = snd (TotpConfirm plain_env [''aaaa''] ''s1'' (snd (TotpEnable ''s'' (server_of plain_doc))))
   in ad_totp (sv_doc on) \<and> sv_doc (snd (TotpDisable plain_env ''aaaa'' on)) = plain_doc"
proof -
  have off: "\<not> ad_totp (sv_doc (server_of plain_doc))" "ad_secret (sv_doc (server_of plain_doc)) = []"
    "ad_backup (sv_doc (server_of plain_doc)) = []" "ad_backupUsed (sv_doc (server_of plain_doc)) = []"
    "av_totp_valid plain_env ''s1'' ''s''" "av_totp_valid plain_env ''aaaa'' ''s'' \<or> ''aaaa'' \<in> set [''aaaa'']"
    by (simp_all add: server_of_def plain_doc_def plain_env_def)
  have "ad_totp (sv_doc (snd (TotpConfirm plain_env [''aaaa''] ''s1'' (snd (TotpEnable ''s'' (server_of plain_doc))))))"
    by code_simp
  moreover have "sv_doc (server_of plain_doc) = plain_doc" by (simp add: server_of_def)
  ultimately show ?thesis using second_factor_roundtrip [OF off] by (simp add: Let_def)
qed


subsection \<open>Who verifies an address\<close>

text \<open>\<open>no_new_codes acc acc'\<close>: no verification code is new or moved to another address, and no address became verified.\<close>

definition no_new_codes :: "account_doc \<Rightarrow> account_doc \<Rightarrow> bool" where
  "no_new_codes acc acc' \<longleftrightarrow>
     (\<forall>t \<in> set (ad_tokens acc'). tk_type t = EmailCategoryVerificationOTP \<longrightarrow> t \<in> set (ad_tokens acc) \<and> ad_email acc' = ad_email acc) \<and>
     (ad_emailVerified acc' \<longrightarrow> ad_emailVerified acc)"

lemma no_new_spent: "spent acc acc' \<Longrightarrow> no_new_codes acc acc'"
  by (simp add: no_new_codes_def spent_keeps(1-3))

lemma no_new_kept: "kept_by_update acc acc' \<Longrightarrow> no_new_codes acc acc'"
  by (auto simp: kept_by_update_def no_new_codes_def)

lemma no_new_trans: "no_new_codes a b \<Longrightarrow> no_new_codes b c \<Longrightarrow> no_new_codes a c"
  by (auto simp: no_new_codes_def)

lemma no_new_ops: "password_ops env hp v us acc = Inr acc' \<Longrightarrow> no_new_codes acc acc'"
proof -
  assume "password_ops env hp v us acc = Inr acc'"
  from password_ops_result [OF this] have e: "acc' = acc\<lparr>ad_tokens := ad_tokens acc', ad_password := ad_password acc'\<rparr>"
    and sub: "set (ad_tokens acc') \<subseteq> set (ad_tokens acc)" by blast+
  have "ad_email acc' = ad_email acc" "ad_emailVerified acc' = ad_emailVerified acc" by (subst e, simp)+
  with sub show ?thesis by (auto simp: no_new_codes_def)
qed

lemma UpdateAccount_codes:
  assumes upd: "UpdateAccount env updates otp srv = (r, srv')"
  shows "no_new_codes (sv_doc srv) (sv_doc srv') \<and> sv_mails srv' = sv_mails srv"
proof -
  define others where "others = filter (\<lambda>u. au_path_of u \<noteq> PathProfiles) updates"
  define ps where "ps = filter (\<lambda>u. au_path_of u = PathPassword) others"
  obtain e1 srv1 where p1: "profile_ops (filter (\<lambda>u. au_path_of u = PathProfiles) updates) srv = (e1, srv1)" by fastforce
  with profile_ops_doc [of "filter (\<lambda>u. au_path_of u = PathProfiles) updates" srv] obtain prof where
    doc1: "sv_doc srv1 = (sv_doc srv)\<lparr>ad_profiles := prof\<rparr>" and m1: "sv_mails srv1 = sv_mails srv" by auto
  have n1: "no_new_codes (sv_doc srv) (sv_doc srv1)" by (simp add: doc1 no_new_codes_def)
  obtain q srv2 where p2: "other_ops env otp others (sv_doc srv1) srv1 = (q, srv2)" by fastforce
  from other_ops_cases [OF p2] have sp: "spent (sv_doc srv1) (sv_doc srv2)" and m2: "sv_mails srv2 = sv_mails srv"
    and kept: "\<And>acc. q = Inr acc \<Longrightarrow> kept_by_update (sv_doc srv1) acc" by (auto simp: m1)
  note upd' = upd [unfolded UpdateAccount_def Let_def, folded others_def, folded ps_def, unfolded p1]
  have stop: "no_new_codes (sv_doc srv) (sv_doc x)" if "spent (sv_doc srv1) (sv_doc x)" for x
    using no_new_trans [OF n1 no_new_spent [OF that]] .
  show ?thesis
  proof (cases "e1 \<noteq> None \<or> others = []")
    case True
    with upd' have "srv' = srv1" by (cases e1) (auto split: if_splits)
    with n1 m1 show ?thesis by simp
  next
    case False
    show ?thesis
    proof (cases q)
      case (Inl x)
      with upd' False p2 have "srv' = srv2" by auto
      with stop [OF sp] m2 show ?thesis by simp
    next
      case (Inr acc)
      have n2: "no_new_codes (sv_doc srv) acc" using no_new_trans [OF n1 no_new_kept [OF kept [OF Inr]]] .
      obtain w srv3 where p3: "handlePasswordUpdate env ps otp acc srv2 = (w, srv3)" by fastforce
      obtain m srvm where m: "account_MfaCheck env acc otp srv2 = (m, srvm)" by fastforce
      have "srv3 = srv2 \<or> srv3 = srvm" and n3: "\<And>acc'. w = Inr acc' \<Longrightarrow> no_new_codes acc acc'"
        using p3 m no_new_ops by (auto simp: handlePasswordUpdate_def split: if_splits option.splits)
      then have sp3: "spent (sv_doc srv1) (sv_doc srv3)" and m3: "sv_mails srv3 = sv_mails srv"
        using spent_trans [OF sp MfaCheck_cases(1) [OF m]] MfaCheck_cases(3) [OF m] sp m2 by auto
      from upd' False p2 Inr p3 have
        "srv' = srv2\<lparr>sv_doc := acc\<rparr> \<or> srv' = srv3 \<or> (\<exists>acc'. w = Inr acc' \<and> srv' = srv3\<lparr>sv_doc := acc'\<rparr>)"
        by (auto split: if_splits sum.splits)
      then show ?thesis
      proof (elim disjE exE conjE)
        fix acc' assume "w = Inr acc'" "srv' = srv3\<lparr>sv_doc := acc'\<rparr>"
        with no_new_trans [OF n2 n3] m3 show ?thesis by simp
      qed (use n2 stop [OF sp3] m2 m3 in simp_all)
    qed
  qed
qed

datatype account_event =
    EvUpdate "account_update list" string
  | EvRequestCode string bool
  | EvVerifyCode string
  | EvSendReset string string int
  | EvReset string string string
  | EvTotpEnable string
  | EvTotpConfirm "string list" string
  | EvTotpDisable string
  | EvCheck string
  | EvDeletionCode string
  | EvReauth reauth_token

text \<open>\<open>EvReauth\<close> is the end of a passkey ceremony, which issues a token of its own type.\<close>

fun account_step :: "account_server \<Rightarrow> account_env \<times> account_event \<Rightarrow> account_server" where
  "account_step srv (env, EvUpdate us otp) = snd (UpdateAccount env us otp srv)"
| "account_step srv (env, EvRequestCode code ok) = snd (RequestEmailVerificationOTP env code ok srv)"
| "account_step srv (env, EvVerifyCode otp) = snd (VerifyEmailOTP env otp srv)"
| "account_step srv (env, EvSendReset email token expires) = SendResetPasswordEmail email token expires srv"
| "account_step srv (env, EvReset token pw otp) = snd (VerifyPasswordReset env token pw otp srv)"
| "account_step srv (env, EvTotpEnable secret) = snd (TotpEnable secret srv)"
| "account_step srv (env, EvTotpConfirm codes otp) = snd (TotpConfirm env codes otp srv)"
| "account_step srv (env, EvTotpDisable otp) = snd (TotpDisable env otp srv)"
| "account_step srv (env, EvCheck otp) = snd (account_MfaCheck env (sv_doc srv) otp srv)"
| "account_step srv (env, EvDeletionCode code) = snd (GenerateDeletionCode env code srv)"
| "account_step srv (env, EvReauth t) =
     (if tk_type t = EmailCategoryVerificationOTP then srv
      else srv\<lparr>sv_doc := (sv_doc srv)\<lparr>ad_tokens := ad_tokens (sv_doc srv) @ [t]\<rparr>\<rparr>)"

definition codes_mailed :: "account_server \<Rightarrow> bool" where
  "codes_mailed srv \<longleftrightarrow>
     (\<forall>t \<in> set (ad_tokens (sv_doc srv)). tk_type t = EmailCategoryVerificationOTP \<longrightarrow>
        (ad_email (sv_doc srv), tk_value t) \<in> set (sv_mails srv))"

lemma split_otp_result:
  "split_otp now ts = (target, others) \<Longrightarrow>
     others = filter (\<lambda>t. tk_type t \<noteq> EmailCategoryVerificationOTP) ts \<and>
     (\<forall>t. target = Some t \<longrightarrow> t \<in> set ts \<and> tk_type t = EmailCategoryVerificationOTP \<and> now \<le> tk_expires t)"
  by (induction ts arbitrary: target others) (auto simp: Let_def split: prod.splits if_splits option.splits)

lemma VerifyEmailOTP_cases:
  assumes "VerifyEmailOTP env otp srv = (e, srv')"
  shows "sv_mails srv' = sv_mails srv"
    and "sv_doc srv' = sv_doc srv \<or>
      \<not> ad_emailVerified (sv_doc srv) \<and>
      (\<exists>t \<in> set (ad_tokens (sv_doc srv)). tk_type t = EmailCategoryVerificationOTP \<and> av_now env \<le> tk_expires t \<and> tk_value t = otp) \<and>
      sv_doc srv' = (sv_doc srv)\<lparr>ad_emailVerified := True,
        ad_tokens := filter (\<lambda>t. tk_type t \<noteq> EmailCategoryVerificationOTP) (ad_tokens (sv_doc srv))\<rparr>"
proof -
  obtain target others where sp: "split_otp (av_now env) (ad_tokens (sv_doc srv)) = (target, others)" by fastforce
  from assms sp split_otp_result [OF sp]
  show "sv_mails srv' = sv_mails srv" and "sv_doc srv' = sv_doc srv \<or>
      \<not> ad_emailVerified (sv_doc srv) \<and>
      (\<exists>t \<in> set (ad_tokens (sv_doc srv)). tk_type t = EmailCategoryVerificationOTP \<and> av_now env \<le> tk_expires t \<and> tk_value t = otp) \<and>
      sv_doc srv' = (sv_doc srv)\<lparr>ad_emailVerified := True,
        ad_tokens := filter (\<lambda>t. tk_type t \<noteq> EmailCategoryVerificationOTP) (ad_tokens (sv_doc srv))\<rparr>"
    by (auto simp: VerifyEmailOTP_def Let_def split: if_splits option.splits)
qed


text \<open>A step that is neither a request for a code nor its entry issues no code and verifies nothing.\<close>

lemma account_step_codes:
  assumes "\<forall>code ok. ev \<noteq> EvRequestCode code ok" and "\<forall>otp. ev \<noteq> EvVerifyCode otp"
  shows "no_new_codes (sv_doc srv) (sv_doc (account_step srv (env, ev))) \<and> sv_mails srv = take (length (sv_mails srv)) (sv_mails (account_step srv (env, ev)))"
proof (cases ev)
  case (EvUpdate us otp)
  obtain r srv' where u: "UpdateAccount env us otp srv = (r, srv')" by fastforce
  from UpdateAccount_codes [OF u] u EvUpdate show ?thesis by simp
next
  case (EvReset token pw otp)
  obtain m srvm where m: "account_MfaCheck env (sv_doc srv) otp srv = (m, srvm)" by fastforce
  note f = MfaCheck_cases(1,3) [OF m]
  show ?thesis
  proof (cases "consume_token (av_now env) TokenTypePasswordReset token (ad_tokens (sv_doc srv))")
    case (Inl e)
    with m f no_new_spent [OF f(1)] EvReset show ?thesis
      by (auto simp: VerifyPasswordReset_def Let_def no_new_spent spent_refl split: option.splits)
  next
    case (Inr mk)
    then obtain found kept where c: "consume_token (av_now env) TokenTypePasswordReset token (ad_tokens (sv_doc srv)) = Inr (found, kept)"
      by (cases mk) auto
    have "no_new_codes (sv_doc srv) (acc\<lparr>ad_tokens := kept\<rparr>)" if "SetPassword env pw (sv_doc srv) = Some acc" for acc
      using consume_shrinks(1) [OF c] that by (auto simp: SetPassword_def no_new_codes_def split: if_splits)
    with c m f no_new_spent [OF f(1)] EvReset show ?thesis
      by (auto simp: VerifyPasswordReset_def Let_def no_new_spent spent_refl split: option.splits)
  qed
next
  case (EvTotpDisable otp)
  obtain r srv' where v: "VerifyTotp env otp TotpDisabling srv = (r, srv')" by fastforce
  have "no_new_codes (sv_doc srv) (a\<lparr>ad_totp := False, ad_secret := [], ad_backup := [], ad_backupUsed := []\<rparr>)" if "r = Inr a" for a
    using no_new_spent [OF VerifyTotp_cases(1) [OF v]] VerifyTotp_cases(4) [OF v that] by (simp add: no_new_codes_def)
  with v no_new_spent [OF VerifyTotp_cases(1) [OF v]] VerifyTotp_cases(3) [OF v] EvTotpDisable show ?thesis
    by (auto simp: TotpDisable_def Let_def split: sum.splits)
next
  case (EvCheck otp)
  obtain m srvm where m: "account_MfaCheck env (sv_doc srv) otp srv = (m, srvm)" by fastforce
  from no_new_spent [OF MfaCheck_cases(1) [OF m]] MfaCheck_cases(3) [OF m] m EvCheck show ?thesis by simp
qed (use assms in \<open>auto simp: SendResetPasswordEmail_def TotpEnable_def TotpConfirm_def GenerateDeletionCode_def Let_def
      no_new_codes_def TokenTypePasswordReset_def EmailCategoryVerificationOTP_def split: option.splits\<close>)

lemma account_step_mailed:
  assumes "codes_mailed srv"
  shows "codes_mailed (account_step srv e)"
proof -
  obtain env ev where e: "e = (env, ev)" by fastforce
  consider (req) code ok where "ev = EvRequestCode code ok" | (ver) otp where "ev = EvVerifyCode otp"
    | (rest) "\<forall>code ok. ev \<noteq> EvRequestCode code ok" "\<forall>otp. ev \<noteq> EvVerifyCode otp" by metis
  then show ?thesis
  proof cases
    case req
    with assms e show ?thesis by (auto simp: RequestEmailVerificationOTP_def codes_mailed_def Let_def)
  next
    case ver
    obtain r srv' where v: "VerifyEmailOTP env otp srv = (r, srv')" by fastforce
    from VerifyEmailOTP_cases [OF v] assms v ver e show ?thesis by (auto simp: codes_mailed_def)
  next
    case rest
    note f = account_step_codes [OF rest, of srv env]
    have "set (sv_mails srv) \<subseteq> set (sv_mails (account_step srv (env, ev)))" using f by (metis set_take_subset)
    with f assms e show ?thesis by (auto simp: codes_mailed_def no_new_codes_def)
  qed
qed

interpretation account_machine: machine account_step codes_mailed
  by unfold_locales (rule account_step_mailed)

text \<open>
  Property C28 (only_mailed_code_verifies). Whatever happens to the account, in any order: its address
  becomes verified only when somebody enters a code that is still valid and was sent to this very
  address; a code sent to a former address verifies nothing, and so does every other operation.
\<close>

theorem only_mailed_code_verifies:
  fixes srv0 :: account_server and es :: "(account_env \<times> account_event) list"
  defines "srv \<equiv> foldl account_step srv0 es"
  assumes "codes_mailed srv0"
    and "\<not> ad_emailVerified (sv_doc srv)" and "ad_emailVerified (sv_doc (account_step srv (env, ev)))"
  shows "\<exists>otp. ev = EvVerifyCode otp \<and> (ad_email (sv_doc srv), otp) \<in> set (sv_mails srv) \<and>
           ad_email (sv_doc (account_step srv (env, ev))) = ad_email (sv_doc srv) \<and>
           (\<exists>t \<in> set (ad_tokens (sv_doc srv)). tk_value t = otp \<and> av_now env \<le> tk_expires t)"
proof -
  have ok: "codes_mailed srv" unfolding srv_def using assms(2) by (rule account_machine.run_inv)
  consider (req) code mok where "ev = EvRequestCode code mok" | (ver) otp where "ev = EvVerifyCode otp"
    | (rest) "\<forall>code ok. ev \<noteq> EvRequestCode code ok" "\<forall>otp. ev \<noteq> EvVerifyCode otp" by metis
  then show ?thesis
  proof cases
    case req
    with assms(3,4) show ?thesis by (auto simp: RequestEmailVerificationOTP_def Let_def split: if_splits)
  next
    case ver
    obtain r srv' where v: "VerifyEmailOTP env otp srv = (r, srv')" by fastforce
    from VerifyEmailOTP_cases(2) [OF v] assms(3,4) v ver ok show ?thesis by (auto simp: codes_mailed_def)
  next
    case rest
    with account_step_codes [OF rest, of srv env] assms(3,4) show ?thesis by (simp add: no_new_codes_def)
  qed
qed


theorem only_mailed_code_verifies_witness:
  "let srv0 = server_of (plain_doc\<lparr>ad_emailVerified := False\<rparr>);
       srv = foldl account_step srv0 [(plain_env, EvRequestCode ''123456'' True)]
   in \<exists>otp. EvVerifyCode ''123456'' = EvVerifyCode otp \<and> (''u@x.org'', otp) \<in> set (sv_mails srv)"
proof -
  let ?before = "server_of (plain_doc\<lparr>ad_emailVerified := False\<rparr>)"
  let ?srv = "foldl account_step ?before [(plain_env, EvRequestCode ''123456'' True)]"
  have ok: "codes_mailed ?before" by (simp add: codes_mailed_def server_of_def plain_doc_def)
  have nv: "\<not> ad_emailVerified (sv_doc ?srv)" and to: "ad_email (sv_doc ?srv) = ''u@x.org''"
    and v: "ad_emailVerified (sv_doc (account_step ?srv (plain_env, EvVerifyCode ''123456'')))"
    by (simp_all add: server_of_def plain_doc_def plain_env_def RequestEmailVerificationOTP_def VerifyEmailOTP_def
        limiter_allows_def emailVerificationOTPExpires_def Let_def)
  from only_mailed_code_verifies [OF ok nv v] to show ?thesis unfolding Let_def by metis
qed

subsection \<open>Refused updates\<close>

lemma refused_update_spent:
  assumes "UpdateAccount env updates otp srv = (Some e, srv')"
    and "\<forall>u \<in> set updates. au_path_of u \<noteq> PathProfiles"
  shows "spent (sv_doc srv) (sv_doc srv')"
proof -
  have none: "filter (\<lambda>u. au_path_of u = PathProfiles) updates = []" and all: "filter (\<lambda>u. au_path_of u \<noteq> PathProfiles) updates = updates"
    using assms(2) by (auto simp: filter_empty_conv filter_id_conv)
  define ps where "ps = filter (\<lambda>u. au_path_of u = PathPassword) updates"
  obtain q srv2 where p2: "other_ops env otp updates (sv_doc srv) srv = (q, srv2)" by fastforce
  from other_ops_cases [OF p2] have sp: "spent (sv_doc srv) (sv_doc srv2)" by blast
  note upd = assms(1) [unfolded UpdateAccount_def Let_def none all, folded ps_def]
  show ?thesis
  proof (cases q)
    case (Inl x)
    with upd p2 sp show ?thesis by (auto split: if_splits)
  next
    case (Inr acc)
    obtain m srvm where m: "account_MfaCheck env acc otp srv2 = (m, srvm)" by fastforce
    from upd p2 Inr m have "srv' = srv2 \<or> srv' = srvm"
      by (auto simp: handlePasswordUpdate_def split: if_splits sum.splits option.splits)
    with sp spent_trans [OF sp MfaCheck_cases(1) [OF m]] show ?thesis by auto
  qed
qed

text \<open>
  Fact (refused_update_changes_nothing). A request without profile operations that is refused leaves
  the document as it was, up to backup codes used for its check: the address, the password, the consent
  and every token are kept, so the passkey token it carried can be used again with corrected values.
\<close>

theorem refused_update_changes_nothing:
  assumes "UpdateAccount env updates otp srv = (Some e, srv')"
    and "\<forall>u \<in> set updates. au_path_of u \<noteq> PathProfiles"
  shows "spent (sv_doc srv) (sv_doc srv') \<and> ad_tokens (sv_doc srv') = ad_tokens (sv_doc srv) \<and>
         ad_email (sv_doc srv') = ad_email (sv_doc srv) \<and> ad_password (sv_doc srv') = ad_password (sv_doc srv)"
proof -
  from refused_update_spent [OF assms] show ?thesis by (simp add: spent_keeps)
qed

theorem refused_update_changes_nothing_witness:
  "let r = UpdateAccount plain_env (password_patch (VText ''wrong'') ''Secret-word-1'') [] (server_of plain_doc)
   in fst r = Some (CredentialCheck ErrInvalidPassword) \<and> ad_password (sv_doc (snd r)) = Some ''h(old)''"
proof -
  let ?r = "UpdateAccount plain_env (password_patch (VText ''wrong'') ''Secret-word-1'') [] (server_of plain_doc)"
  have f: "fst ?r = Some (CredentialCheck ErrInvalidPassword)"
    by (simp add: UpdateAccount_def password_patch_def handlePasswordUpdate_def account_MfaCheck_def server_of_def
        plain_doc_def plain_env_def Let_def)
  then have "?r = (Some (CredentialCheck ErrInvalidPassword), snd ?r)" by (metis prod.collapse)
  from refused_update_changes_nothing [OF this] f show ?thesis
    by (simp add: password_patch_def server_of_def plain_doc_def Let_def)
qed

subsection \<open>The purge\<close>

text \<open>
  Fact (purge_retry_completes). However often a purge fails, and at whatever call, the subscription,
  by which the clean-up job finds the account again, stays until everything else is gone; and a later
  attempt that meets no failure removes everything.
\<close>

definition purged :: "account_data \<Rightarrow> bool" where
  "purged d \<longleftrightarrow> pd_credentials d = 0 \<and> pd_profiles d = [] \<and> pd_document d = None \<and> \<not> pd_subscription d"

lemma purge_profiles_rest:
  "pd_subscription (snd (snd (purge_profiles fails n ps d))) = pd_subscription d \<and>
   pd_credentials (snd (snd (purge_profiles fails n ps d))) = pd_credentials d \<and>
   (fst (purge_profiles fails n ps d) \<longrightarrow>
      set (pd_profiles (snd (snd (purge_profiles fails n ps d)))) = set (pd_profiles d) - set ps)"
  by (induction fails n ps d rule: purge_profiles.induct) (auto simp: Let_def)

lemma purge_profiles_ok: "\<forall>i. \<not> fails i \<Longrightarrow> fst (purge_profiles fails n ps d)"
  by (induction fails n ps d rule: purge_profiles.induct) (auto simp: Let_def)

lemma purge_attempt:
  assumes "PurgeAccountData fails d = (ok, d')"
  shows "pd_subscription d \<Longrightarrow> pd_subscription d' \<or> purged d'" and "ok \<Longrightarrow> purged d'" and "\<forall>i. \<not> fails i \<Longrightarrow> ok"
proof -
  let ?d1 = "d\<lparr>pd_credentials := 0\<rparr>"
  obtain k n d2 where p: "purge_profiles fails 2 (pd_profiles d) ?d1 = (k, n, d2)" using prod_cases3 by blast
  from purge_profiles_rest [of fails 2 "pd_profiles d" ?d1] p have
    r: "pd_subscription d2 = pd_subscription d" "pd_credentials d2 = 0" "k \<Longrightarrow> pd_profiles d2 = []" by auto
  show "pd_subscription d \<Longrightarrow> pd_subscription d' \<or> purged d'" and "ok \<Longrightarrow> purged d'"
    using assms p r by (auto simp: PurgeAccountData_def purged_def Let_def split: if_splits bool.splits)
  show "\<forall>i. \<not> fails i \<Longrightarrow> ok"
    using assms p purge_profiles_ok [of fails 2 "pd_profiles d" ?d1]
    by (auto simp: PurgeAccountData_def Let_def split: bool.splits)
qed

definition purge_attempts :: "(nat \<Rightarrow> bool) list \<Rightarrow> account_data \<Rightarrow> account_data" where
  "purge_attempts fs d = foldl (\<lambda>x f. snd (PurgeAccountData f x)) d fs"

theorem purge_retry_completes:
  assumes "pd_subscription d"
  shows "(pd_subscription (purge_attempts fs d) \<or> purged (purge_attempts fs d)) \<and>
         fst (PurgeAccountData (\<lambda>_. False) (purge_attempts fs d)) \<and>
         purged (snd (PurgeAccountData (\<lambda>_. False) (purge_attempts fs d)))"
proof -
  have ended: "purged (snd (PurgeAccountData f x)) \<or> \<not> fst (PurgeAccountData f x) \<and> purged (snd (PurgeAccountData f x))"
    if "purged x" for f x
    using that by (auto simp: PurgeAccountData_def purged_def Let_def)
  have "pd_subscription (purge_attempts fs x) \<or> purged (purge_attempts fs x)" if "pd_subscription x \<or> purged x" for x
    using that
  proof (induction fs arbitrary: x)
    case (Cons f fs)
    have "PurgeAccountData f x = (fst (PurgeAccountData f x), snd (PurgeAccountData f x))" by simp
    from purge_attempt(1) [OF this] ended Cons.prems have
      "pd_subscription (snd (PurgeAccountData f x)) \<or> purged (snd (PurgeAccountData f x))" by blast
    from Cons.IH [OF this] show ?case by (simp add: purge_attempts_def)
  qed (simp add: purge_attempts_def)
  moreover have "fst (PurgeAccountData (\<lambda>_. False) y)" "purged (snd (PurgeAccountData (\<lambda>_. False) y))" for y
    using purge_attempt(2,3) [of "\<lambda>_. False" y] by (metis prod.collapse)+
  ultimately show ?thesis using assms by simp
qed

theorem purge_retry_completes_witness:
  "let d = \<lparr>pd_credentials = 2, pd_profiles = [''p1'', ''p2''], pd_document = Some [''p1'', ''p2''], pd_subscription = True\<rparr>;
       d1 = purge_attempts [\<lambda>n. n = 4, \<lambda>n. n = 4] d
   in pd_subscription d1 \<and> pd_document d1 \<noteq> Some [''p1'', ''p2''] \<and> purged (snd (PurgeAccountData (\<lambda>_. False) d1))"
proof -
  let ?d = "\<lparr>pd_credentials = 2, pd_profiles = [''p1'', ''p2''], pd_document = Some [''p1'', ''p2''], pd_subscription = True\<rparr>"
  have "pd_subscription (purge_attempts [\<lambda>n. n = 4, \<lambda>n. n = 4] ?d)" "pd_document (purge_attempts [\<lambda>n. n = 4, \<lambda>n. n = 4] ?d) \<noteq> Some [''p1'', ''p2'']"
    by (simp_all add: purge_attempts_def PurgeAccountData_def)
  then show ?thesis using purge_retry_completes [of ?d "[\<lambda>n. n = 4, \<lambda>n. n = 4]"] by (simp add: Let_def)
qed

end
