(* ===== verification/AccountDialogs.thy ===== *)
theory AccountDialogs
  imports AccountApi ImportDialog
begin

text \<open>
  The dialogs of the account page that change the password and the e-mail address:
  app/src/pages/account_preferences/UpdatePasswordDialog.tsx, ChangeEmailDialog.tsx,
  with the operations of the API they call.

  An answer is the status or the error thrown. The timer that closes a dialog is a step of its own.
\<close>

subsection \<open>The password dialog\<close>

record password_dialog =
  pwd_open :: bool
  pwd_oldPassword :: string
  pwd_newPassword :: string
  pwd_confirmPassword :: string
  pwd_loading :: bool
  pwd_closing :: bool
  pwd_otp :: string
  pwd_verification :: "IdentityVerification option"
  pwd_auth :: auth

definition pwd_account :: "password_dialog \<Rightarrow> ModelAccount option" where
  "pwd_account d = app_account (au_store (pwd_auth d))"

definition pwd_is2FAEnabled :: "password_dialog \<Rightarrow> bool" where
  "pwd_is2FAEnabled d = (passwordAvailable (pwd_account d) \<and> truthy_bool (Option.bind (pwd_account d) ac_totp_enabled))"

text \<open>The effect that follows a change of the account.\<close>

definition pwd_effect :: "password_dialog \<Rightarrow> password_dialog" where
  "pwd_effect d = (if passwordAvailable (pwd_account d) then d else d\<lparr>pwd_oldPassword := []\<rparr>)"

definition pwd_toast :: "toast_level \<Rightarrow> string \<Rightarrow> password_dialog \<Rightarrow> password_dialog" where
  "pwd_toast l m d = d\<lparr>pwd_auth := add_toast l m (pwd_auth d)\<rparr>"

type_synonym account_request = "account_update list \<times> (string \<times> string list) option"

definition pwd_request :: "password_dialog \<Rightarrow> account_request" where
  "pwd_request d =
     ([\<lparr>au_operation = OpTest, au_path_of = PathPassword,
        au_value = (if passwordAvailable (pwd_account d) then VText (pwd_oldPassword d)
                    else VFields \<lparr>uf_current_password = None,
                                  uf_reauth_token = Option.bind (pwd_verification d) iv_reauthToken, uf_new_email = None\<rparr>)\<rparr>,
       \<lparr>au_operation = OpReplace, au_path_of = PathPassword, au_value = VText (pwd_newPassword d)\<rparr>],
      if pwd_is2FAEnabled d then Some (pwd_otp d, [''totp'']) else None)"

definition pwd_handleSubmit :: "password_dialog \<Rightarrow> password_dialog \<times> account_request option" where
  "pwd_handleSubmit d =
     (if passwordAvailable (pwd_account d) \<and> pwd_oldPassword d = [] then (pwd_toast TError ''Old password is required.'' d, None)
      else if \<not> passwordAvailable (pwd_account d) \<and> \<not> truthy_str (Option.bind (pwd_verification d) iv_reauthToken)
        then (pwd_toast TError ''Verify with your passkey first.'' d, None)
      else if pwd_newPassword d = [] \<or> pwd_newPassword d \<noteq> pwd_confirmPassword d
        then (pwd_toast TError ''Passwords do not match.'' d, None)
      else if pwd_is2FAEnabled d \<and> pwd_otp d = [] then (pwd_toast TError ''2FA code is required.'' d, None)
      else (d\<lparr>pwd_loading := True\<rparr>, Some (pwd_request d)))"

definition PASSWORD_RULES :: string where
  "PASSWORD_RULES = ''Password must be 12-64 characters, contain at least one uppercase letter, one lowercase letter, one number, and one special character.''"

definition pwd_error_text :: "string option \<Rightarrow> string" where
  "pwd_error_text error = (if error = Some WEAK_PASSWORD then PASSWORD_RULES else or_str error ''Failed to update password.'')"

text \<open>The answer, and after a success the answer of the account request that follows it.\<close>

definition pwd_done :: "thrown + nat \<Rightarrow> thrown + ModelAccount \<Rightarrow> password_dialog \<Rightarrow> password_dialog" where
  "pwd_done answer refreshed d =
     (case answer of
        Inl err \<Rightarrow> pwd_toast TError (pwd_error_text (thrown_error err)) (d\<lparr>pwd_loading := False\<rparr>)
      | Inr _ \<Rightarrow>
          (case refreshed of
             Inl err \<Rightarrow> pwd_toast TError (pwd_error_text (thrown_error err)) (d\<lparr>pwd_loading := False\<rparr>)
           | Inr acc \<Rightarrow>
               pwd_toast TSuccess ''Password updated successfully.''
                 (d\<lparr>pwd_loading := False, pwd_closing := True,
                    pwd_auth := (pwd_auth d)\<lparr>au_store := setAccount (Some acc) (au_store (pwd_auth d))\<rparr>\<rparr>)))"

definition pwd_handleClose :: "password_dialog \<Rightarrow> password_dialog" where
  "pwd_handleClose d = d\<lparr>pwd_closing := True\<rparr>"

definition pwd_closed :: "password_dialog \<Rightarrow> password_dialog" where
  "pwd_closed d =
     d\<lparr>pwd_open := False, pwd_oldPassword := [], pwd_newPassword := [], pwd_confirmPassword := [], pwd_closing := False, pwd_otp := []\<rparr>"

text \<open>A request as the API sees it: the code is a header, empty when it is not sent.\<close>

definition send_update :: "account_env \<Rightarrow> account_request \<Rightarrow> account_server \<Rightarrow> (thrown + nat) \<times> account_server" where
  "send_update env req srv = updateAccount env (fst req) (case snd req of None \<Rightarrow> [] | Some (otp, _) \<Rightarrow> otp) srv"

text \<open>The account as the API answers it: its sign-in methods and its second factor.\<close>

definition account_view :: "nat \<Rightarrow> account_doc \<Rightarrow> ModelAccount" where
  "account_view credentials doc =
     \<lparr>ac_auth_methods = Some ((if ad_password doc \<noteq> None then [''password''] else []) @ (if 0 < credentials then [''passkey''] else [])),
      ac_email = Some (ad_email doc), ac_email_verified = (if ad_emailVerified doc then Some True else None),
      ac_error_reports_consent = Some (ad_consent doc), ac_id = None, ac_totp_enabled = Some (ad_totp doc),
      ac_profiles = Some (ad_profiles doc)\<rparr>"

lemma view_password: "0 < credentials \<or> ad_password doc \<noteq> None \<Longrightarrow>
    passwordAvailable (Some (account_view credentials doc)) = (ad_password doc \<noteq> None)"
  by (auto simp: passwordAvailable_def account_view_def)

text \<open>
  Fact (password_dialog_end_to_end). With an up-to-date account in the store, a submitted password
  dialog is accepted by the API exactly when the old password is right (or the passkey token is live) and,
  with the second factor on, the code passes, and the new password is strong; then the stored password is
  the one typed twice and nothing else of the document changes but used tokens. When it is refused, the
  document keeps everything but used backup codes, and the dialog stays open with its fields and a message.
\<close>

definition pwd_accepted :: "account_env \<Rightarrow> password_dialog \<Rightarrow> account_server \<Rightarrow> bool" where
  "pwd_accepted env d srv \<longleftrightarrow>
     ValidatePassword (pwd_newPassword d) \<and> \<not> list_all go_space (pwd_newPassword d) \<and>
     (case ad_password (sv_doc srv) of
        Some hash \<Rightarrow>
          av_hash_ok env (pwd_oldPassword d) hash \<and>
          (ad_totp (sv_doc srv) \<longrightarrow> fst (account_MfaCheck env (sv_doc srv) (pwd_otp d) srv) = None)
      | None \<Rightarrow>
          (\<exists>kept. consume_token (av_now env) TokenTypeReauthPasswordSet
             (the (Option.bind (pwd_verification d) iv_reauthToken)) (ad_tokens (sv_doc srv)) = Inr (True, kept)))"

lemma mfa_no_code: "\<not> ad_totp acc \<Longrightarrow> account_MfaCheck env acc otp srv = (None, srv)"
  by (simp add: account_MfaCheck_def)

lemma submit_Some:
  assumes "pwd_handleSubmit d = (d1, Some req)"
  shows "req = pwd_request d" "d1 = d\<lparr>pwd_loading := True\<rparr>" "pwd_newPassword d = pwd_confirmPassword d"
    "passwordAvailable (pwd_account d) \<Longrightarrow> pwd_oldPassword d \<noteq> []"
    "\<not> passwordAvailable (pwd_account d) \<Longrightarrow> truthy_str (Option.bind (pwd_verification d) iv_reauthToken)"
  using assms by (auto simp: pwd_handleSubmit_def split: if_splits)


lemma other_ops_passwords: "\<forall>u \<in> set us. au_path_of u = PathPassword \<Longrightarrow> other_ops env otp us acc srv = (Inr acc, srv)"
  by (induction us) auto

lemma UpdateAccount_passwords:
  assumes "us \<noteq> []" and "\<forall>u \<in> set us. au_path_of u = PathPassword"
  shows "UpdateAccount env us otp srv =
     (case handlePasswordUpdate env us otp (sv_doc srv) srv of
        (Inl e, s) \<Rightarrow> (Some e, s) | (Inr acc, s) \<Rightarrow> (None, s\<lparr>sv_doc := acc\<rparr>))"
proof -
  have f: "filter (\<lambda>u. au_path_of u = PathProfiles) us = []" "filter (\<lambda>u. au_path_of u \<noteq> PathProfiles) us = us"
    "filter (\<lambda>u. au_path_of u = PathPassword) us = us"
    using assms(2) by (auto simp: filter_empty_conv filter_id_conv)
  show ?thesis by (simp add: UpdateAccount_def Let_def f assms(1) other_ops_passwords [OF assms(2)])
qed

lemma pwd_outcome:
  fixes d :: password_dialog and env :: account_env and srv :: account_server
  assumes sync: "pwd_account d = Some (account_view credentials (sv_doc srv))"
    and "0 < credentials \<or> ad_password (sv_doc srv) \<noteq> None"
    and req: "pwd_handleSubmit d = (d1, Some req)"
  defines "r \<equiv> UpdateAccount env (fst req) (case snd req of None \<Rightarrow> [] | Some (otp, _) \<Rightarrow> otp) srv"
  shows "(fst r = None) = pwd_accepted env d srv \<and>
         (fst r = None \<longrightarrow> sv_doc (snd r) = (sv_doc srv)\<lparr>ad_tokens := ad_tokens (sv_doc (snd r)), ad_password := Some (av_hash env (pwd_newPassword d))\<rparr> \<and>
            set (ad_tokens (sv_doc (snd r))) \<subseteq> set (ad_tokens (sv_doc srv)))"
proof -
  let ?doc = "sv_doc srv"
  note s = submit_Some [OF req]
  have pa: "passwordAvailable (pwd_account d) = (ad_password ?doc \<noteq> None)"
    using view_password [OF assms(2)] sync by simp
  have fa: "pwd_is2FAEnabled d = (ad_password ?doc \<noteq> None \<and> ad_totp ?doc)"
    by (simp add: pwd_is2FAEnabled_def pa) (simp add: sync account_view_def)
  define us where "us = fst req"
  define otp where "otp = (case snd req of None \<Rightarrow> [] | Some (otp, _) \<Rightarrow> otp)"
  have us: "us = fst (pwd_request d)" by (simp add: us_def s(1))
  have otp: "otp = (if ad_password ?doc \<noteq> None \<and> ad_totp ?doc then pwd_otp d else [])"
    by (simp add: otp_def s(1) pwd_request_def fa)
  have upd: "r = (case handlePasswordUpdate env us otp ?doc srv of
        (Inl e, s) \<Rightarrow> (Some e, s) | (Inr acc, s) \<Rightarrow> (None, s\<lparr>sv_doc := acc\<rparr>))"
    unfolding r_def us_def [symmetric] otp_def [symmetric]
    by (rule UpdateAccount_passwords) (auto simp: us pwd_request_def)
  have set: "SetPassword env (pwd_newPassword d) acc =
      (if list_all go_space (pwd_newPassword d) then None else Some (acc\<lparr>ad_password := Some (av_hash env (pwd_newPassword d))\<rparr>))" for acc
    by (simp add: SetPassword_def)
  show ?thesis
  proof (cases "ad_password ?doc")
    case (Some hash)
    obtain m srvm where m: "account_MfaCheck env ?doc otp srv = (m, srvm)" by fastforce
    have code: "m = None \<longleftrightarrow> (ad_totp ?doc \<longrightarrow> fst (account_MfaCheck env ?doc (pwd_otp d) srv) = None)"
      using m Some by (cases "ad_totp ?doc") (auto simp: otp mfa_no_code)
    have ops: "password_ops env True False us ?doc =
        (if av_hash_ok env (pwd_oldPassword d) hash
         then (if \<not> ValidatePassword (pwd_newPassword d) then Inl (AccountServiceError WEAK_PASSWORD)
               else if list_all go_space (pwd_newPassword d) then Inl OtherError
               else Inr (?doc\<lparr>ad_password := Some (av_hash env (pwd_newPassword d))\<rparr>))
         else Inl (CredentialCheck ErrInvalidPassword))"
      using Some pa by (simp add: us pwd_request_def set)
    from upd m Some ops code show ?thesis
      by (cases m) (auto simp: handlePasswordUpdate_def pwd_accepted_def)
  next
    case None
    then have "truthy_str (Option.bind (pwd_verification d) iv_reauthToken)" using s(5) pa by simp
    then obtain tok where tok: "Option.bind (pwd_verification d) iv_reauthToken = Some tok" "tok \<noteq> []"
      by (cases "Option.bind (pwd_verification d) iv_reauthToken") auto
    have ops: "password_ops env False False us ?doc =
        (case consume_token (av_now env) TokenTypeReauthPasswordSet tok (ad_tokens ?doc) of
           Inl e \<Rightarrow> Inl (CredentialCheck e)
         | Inr (matched, kept) \<Rightarrow>
             if matched then (if \<not> ValidatePassword (pwd_newPassword d) then Inl (AccountServiceError WEAK_PASSWORD)
               else if list_all go_space (pwd_newPassword d) then Inl OtherError
               else Inr (?doc\<lparr>ad_tokens := kept, ad_password := Some (av_hash env (pwd_newPassword d))\<rparr>))
             else Inl (CredentialCheck ErrInvalidReauthToken))"
      using None pa tok by (simp add: us pwd_request_def password_set_token_def set split: sum.split)
    show ?thesis
    proof (cases "consume_token (av_now env) TokenTypeReauthPasswordSet tok (ad_tokens ?doc)")
      case (Inl e)
      with upd None ops tok show ?thesis by (simp add: handlePasswordUpdate_def pwd_accepted_def)
    next
      case (Inr mk)
      then obtain matched kept where c: "consume_token (av_now env) TokenTypeReauthPasswordSet tok (ad_tokens ?doc) = Inr (matched, kept)"
        by (cases mk) auto
      from consume_shrinks(1) [OF c] upd None ops tok c show ?thesis
        by (auto simp: handlePasswordUpdate_def pwd_accepted_def)
    qed
  qed
qed

theorem password_dialog_end_to_end:
  fixes d d1 :: password_dialog and env :: account_env and srv srv' :: account_server
  assumes "pwd_account d = Some (account_view credentials (sv_doc srv))"
    and "0 < credentials \<or> ad_password (sv_doc srv) \<noteq> None"
    and "pwd_handleSubmit d = (d1, Some req)" and "send_update env req srv = (answer, srv')"
  shows "(answer = Inr 204 \<longleftrightarrow> pwd_accepted env d srv) \<and>
         (answer = Inr 204 \<longrightarrow> pwd_newPassword d = pwd_confirmPassword d \<and>
            sv_doc srv' = (sv_doc srv)\<lparr>ad_tokens := ad_tokens (sv_doc srv'), ad_password := Some (av_hash env (pwd_newPassword d))\<rparr>) \<and>
         (answer \<noteq> Inr 204 \<longrightarrow> spent (sv_doc srv) (sv_doc srv') \<and>
            (\<exists>msg. pwd_done answer refreshed d1 = pwd_toast TError msg (d\<lparr>pwd_loading := False\<rparr>)))"
proof -
  define r where "r = UpdateAccount env (fst req) (case snd req of None \<Rightarrow> [] | Some (otp, _) \<Rightarrow> otp) srv"
  note out = pwd_outcome [OF assms(1-3), of env, folded r_def]
  note s = submit_Some [OF assms(3)]
  obtain e where r: "r = (e, srv')" and ans: "answer = (case e of None \<Rightarrow> Inr 204 | Some x \<Rightarrow> Inl (account_answer ''failed to update account'' x))"
    using assms(4) by (cases r) (auto simp: send_update_def updateAccount_def r_def split: prod.splits option.splits)
  have acc: "(e = None) = pwd_accepted env d srv"
    "e = None \<Longrightarrow> sv_doc srv' = (sv_doc srv)\<lparr>ad_tokens := ad_tokens (sv_doc srv'), ad_password := Some (av_hash env (pwd_newPassword d))\<rparr>"
    using out r by simp_all
  have nop: "\<forall>u \<in> set (fst req). au_path_of u \<noteq> PathProfiles" by (simp add: s(1) pwd_request_def)
  show ?thesis
  proof (cases e)
    case None
    with ans acc s(3) show ?thesis by simp
  next
    case (Some x)
    with r r_def have u: "UpdateAccount env (fst req) (case snd req of None \<Rightarrow> [] | Some (otp, _) \<Rightarrow> otp) srv = (Some x, srv')" by simp
    have kept: "spent (sv_doc srv) (sv_doc srv')" by (rule refused_update_spent [OF u nop])
    have msg: "\<exists>msg. pwd_done answer refreshed d1 = pwd_toast TError msg (d\<lparr>pwd_loading := False\<rparr>)"
      using ans Some by (auto simp: pwd_done_def s(2) pwd_toast_def)
    from ans Some acc kept msg show ?thesis by auto
  qed
qed


definition sample_pwd :: "account_doc \<Rightarrow> string \<Rightarrow> string \<Rightarrow> password_dialog" where
  "sample_pwd doc old new =
     \<lparr>pwd_open = True, pwd_oldPassword = old, pwd_newPassword = new, pwd_confirmPassword = new, pwd_loading = False,
      pwd_closing = False, pwd_otp = [], pwd_verification = None,
      pwd_auth = signed_in (setAccount (Some (account_view 0 doc)) initial_store)\<rparr>"

lemma sample_pwd_account: "pwd_account (sample_pwd doc old new) = Some (account_view 0 doc)"
  by (simp add: pwd_account_def sample_pwd_def signed_in_def setAccount_def)

lemma sample_pwd_submit:
  fixes d :: password_dialog and srv :: account_server
  defines "d \<equiv> sample_pwd plain_doc ''old'' ''Secret-word-1''" and "srv \<equiv> server_of plain_doc"
  shows "pwd_account d = Some (account_view 0 (sv_doc srv))" "ad_password (sv_doc srv) \<noteq> None"
    "pwd_handleSubmit d = (d\<lparr>pwd_loading := True\<rparr>, Some (pwd_request d))" "pwd_accepted plain_env d srv"
    "\<exists>srv'. send_update plain_env (pwd_request d) srv = (Inr 204, srv')"
proof -
  show sync: "pwd_account d = Some (account_view 0 (sv_doc srv))" by (simp add: d_def srv_def sample_pwd_account server_of_def)
  show has: "ad_password (sv_doc srv) \<noteq> None" by (simp add: srv_def server_of_def plain_doc_def)
  have pa: "passwordAvailable (pwd_account d)" by (simp add: d_def sample_pwd_account passwordAvailable_def account_view_def plain_doc_def)
  have no2: "\<not> pwd_is2FAEnabled d" by (simp add: pwd_is2FAEnabled_def d_def sample_pwd_account account_view_def plain_doc_def)
  show sub: "pwd_handleSubmit d = (d\<lparr>pwd_loading := True\<rparr>, Some (pwd_request d))"
    using pa no2 by (simp add: pwd_handleSubmit_def) (simp add: d_def sample_pwd_def)
  show acc: "pwd_accepted plain_env d srv"
    using strong_password by (simp add: pwd_accepted_def d_def srv_def sample_pwd_def server_of_def plain_doc_def plain_env_def)
  have "fst (UpdateAccount plain_env (fst (pwd_request d)) (case snd (pwd_request d) of None \<Rightarrow> [] | Some (otp, _) \<Rightarrow> otp) srv) = None"
    using pwd_outcome [OF sync _ sub, of plain_env] has acc by blast
  then show "\<exists>srv'. send_update plain_env (pwd_request d) srv = (Inr 204, srv')"
    by (auto simp: send_update_def updateAccount_def split: prod.split)
qed

theorem password_dialog_end_to_end_witness:
  "let d = sample_pwd plain_doc ''old'' ''Secret-word-1'';
       (answer, srv') = send_update plain_env (pwd_request d) (server_of plain_doc)
   in answer = Inr 204 \<and> ad_password (sv_doc srv') = Some ''h(Secret-word-1)''"
proof -
  let ?d = "sample_pwd plain_doc ''old'' ''Secret-word-1''"
  note s = sample_pwd_submit
  from s(5) obtain srv' where r: "send_update plain_env (pwd_request ?d) (server_of plain_doc) = (Inr 204, srv')" by blast
  from password_dialog_end_to_end [OF s(1) disjI2 [OF s(2)] s(3) r]
  have doc: "sv_doc srv' = (sv_doc (server_of plain_doc))\<lparr>ad_tokens := ad_tokens (sv_doc srv'), ad_password := Some (av_hash plain_env (pwd_newPassword ?d))\<rparr>"
    by blast
  have "ad_password (sv_doc srv') = Some ''h(Secret-word-1)''"
    by (subst doc) (simp add: sample_pwd_def plain_env_def)
  with r show ?thesis by simp
qed

text \<open>
  Fact (saved_password_reported_failed). When the password has been changed and only the request for the
  fresh account fails, the dialog reports that the update failed and stays open with the old password, and
  submitting it again is refused because the password it sends is no longer the current one.
\<close>

theorem saved_password_reported_failed:
  fixes d d1 d2 :: password_dialog and env :: account_env and srv srv' :: account_server
  assumes "pwd_account d = Some (account_view credentials (sv_doc srv))" and "ad_password (sv_doc srv) \<noteq> None"
    and "pwd_handleSubmit d = (d1, Some req)" and "send_update env req srv = (Inr 204, srv')"
    and "\<not> av_hash_ok env (pwd_oldPassword d) (av_hash env (pwd_newPassword d))"
  defines "d2 \<equiv> pwd_done (Inr 204) (Inl rate_limited) d1"
  shows "d2 = pwd_toast TError ''Failed to update password.'' (d\<lparr>pwd_loading := False\<rparr>) \<and>
         ad_password (sv_doc srv') = Some (av_hash env (pwd_newPassword d)) \<and> \<not> pwd_accepted env d2 srv'"
proof -
  define r where "r = UpdateAccount env (fst req) (case snd req of None \<Rightarrow> [] | Some (otp, _) \<Rightarrow> otp) srv"
  have "r = (None, srv')"
    using assms(4) by (cases r) (auto simp: send_update_def updateAccount_def r_def split: prod.splits option.splits)
  with pwd_outcome [OF assms(1) _ assms(3), of env, folded r_def] assms(2) have
    doc: "sv_doc srv' = (sv_doc srv)\<lparr>ad_tokens := ad_tokens (sv_doc srv'), ad_password := Some (av_hash env (pwd_newPassword d))\<rparr>" by simp
  have pw: "ad_password (sv_doc srv') = Some (av_hash env (pwd_newPassword d))" by (subst doc) simp
  have d2: "d2 = pwd_toast TError ''Failed to update password.'' (d\<lparr>pwd_loading := False\<rparr>)"
    using submit_Some(2) [OF assms(3)]
    by (simp add: d2_def pwd_done_def pwd_toast_def pwd_error_text_def rate_limited_def thrown_error_def WEAK_PASSWORD_def)
  have "\<not> pwd_accepted env d2 srv'" using pw assms(5) by (simp add: pwd_accepted_def d2 pwd_toast_def)
  with d2 pw show ?thesis by blast
qed

theorem saved_password_reported_failed_witness:
  "let d = sample_pwd plain_doc ''old'' ''Secret-word-1'';
       (answer, srv') = send_update plain_env (pwd_request d) (server_of plain_doc);
       d2 = pwd_done answer (Inl rate_limited) (d\<lparr>pwd_loading := True\<rparr>)
   in ad_password (sv_doc srv') = Some ''h(Secret-word-1)'' \<and> \<not> pwd_accepted plain_env d2 srv'"
proof -
  let ?d = "sample_pwd plain_doc ''old'' ''Secret-word-1''"
  note s = sample_pwd_submit
  from s(5) obtain srv' where r: "send_update plain_env (pwd_request ?d) (server_of plain_doc) = (Inr 204, srv')" by blast
  have "\<not> av_hash_ok plain_env (pwd_oldPassword ?d) (av_hash plain_env (pwd_newPassword ?d))"
    by (simp add: plain_env_def sample_pwd_def)
  from saved_password_reported_failed [OF s(1,2,3) r this]
  have a: "ad_password (sv_doc srv') = Some (av_hash plain_env (pwd_newPassword ?d))"
    and b: "\<not> pwd_accepted plain_env (pwd_done (Inr 204) (Inl rate_limited) (?d\<lparr>pwd_loading := True\<rparr>)) srv'" by blast+
  have "av_hash plain_env (pwd_newPassword ?d) = ''h(Secret-word-1)''" by (simp add: sample_pwd_def plain_env_def)
  with a b show ?thesis unfolding Let_def r prod.case by simp
qed


subsection \<open>The e-mail dialog\<close>

definition js_normalizeEmail :: "string \<Rightarrow> string" where
  "js_normalizeEmail s = js_toLowerCase (js_trim s)"

datatype email_step = EmailDetails | EmailConfirm

text \<open>\<open>eml_account\<close> is the account of the page, \<open>eml_passkeys\<close> whether the store has passkeys.\<close>

record email_dialog =
  eml_open :: bool
  eml_account :: "ModelAccount option"
  eml_passkeys :: bool
  eml_step :: email_step
  eml_newEmail :: string
  eml_confirmEmail :: string
  eml_currentPassword :: string
  eml_reauthToken :: "string option"
  eml_reauthStatus :: reauth_status
  eml_otp :: string
  eml_submitting :: bool
  eml_method :: VerificationMethod
  eml_auth :: auth
  eml_changed :: nat

definition eml_toast :: "toast_level \<Rightarrow> string \<Rightarrow> email_dialog \<Rightarrow> email_dialog" where
  "eml_toast l m d = d\<lparr>eml_auth := add_toast l m (eml_auth d)\<rparr>"

definition eml_showOtp :: "email_dialog \<Rightarrow> bool" where
  "eml_showOtp d = showOtp (eml_account d) (eml_method d)"

definition set_eml_method :: "VerificationMethod \<Rightarrow> email_dialog \<Rightarrow> email_dialog" where
  "set_eml_method m d =
     (if m = eml_method d then d
      else d\<lparr>eml_currentPassword := [], eml_reauthToken := None, eml_reauthStatus := Idle, eml_otp := [], eml_method := m\<rparr>)"

definition emailsMatch :: "email_dialog \<Rightarrow> bool" where
  "emailsMatch d = (eml_confirmEmail d \<noteq> [] \<and> js_normalizeEmail (eml_confirmEmail d) = js_normalizeEmail (eml_newEmail d))"

definition showMismatch :: "email_dialog \<Rightarrow> bool" where
  "showMismatch d = (eml_confirmEmail d \<noteq> [] \<and> \<not> emailsMatch d)"

definition eml_handleContinue :: "email_dialog \<Rightarrow> email_dialog" where
  "eml_handleContinue d =
     (if eml_account d = None then d
      else if \<not> js_includes (eml_newEmail d) ''@'' then eml_toast TError ''Please enter a valid email.'' d
      else if eml_method d = Password \<and> eml_currentPassword d = [] then eml_toast TError ''Current password is required.'' d
      else if eml_method d = Passkey \<and> \<not> truthy_str (eml_reauthToken d) then eml_toast TError ''Passkey verification is required.'' d
      else if eml_showOtp d \<and> eml_otp d = [] then eml_toast TError ''2FA code is required.'' d
      else d\<lparr>eml_step := EmailConfirm\<rparr>)"

text \<open>The passkey ceremony; its end does not look at the method chosen meanwhile.\<close>

definition eml_beginPasskeyReauth :: "email_dialog \<Rightarrow> email_dialog" where
  "eml_beginPasskeyReauth d = (if eml_account d = None then d else d\<lparr>eml_reauthStatus := InProgress\<rparr>)"

definition eml_passkeyDone :: "string + string \<Rightarrow> email_dialog \<Rightarrow> email_dialog" where
  "eml_passkeyDone r d =
     (case r of
        Inr token \<Rightarrow> eml_toast TSuccess ''Identity verified via passkey''
                        (d\<lparr>eml_currentPassword := [], eml_reauthToken := Some token, eml_reauthStatus := Verified\<rparr>)
      | Inl msg \<Rightarrow> eml_toast TError (if msg = [] then ''Passkey verification failed'' else msg) (d\<lparr>eml_reauthStatus := ReauthError\<rparr>))"

definition eml_request :: "email_dialog \<Rightarrow> account_request" where
  "eml_request d =
     ([\<lparr>au_operation = OpReplace, au_path_of = PathEmail,
        au_value = VFields (if eml_method d = Passkey
          then \<lparr>uf_current_password = None, uf_reauth_token = eml_reauthToken d, uf_new_email = Some (eml_newEmail d)\<rparr>
          else \<lparr>uf_current_password = Some (eml_currentPassword d), uf_reauth_token = None, uf_new_email = Some (eml_newEmail d)\<rparr>)\<rparr>],
      if eml_showOtp d then Some (eml_otp d, [''totp'']) else None)"

definition eml_handleSubmit :: "email_dialog \<Rightarrow> email_dialog \<times> account_request option" where
  "eml_handleSubmit d =
     (if eml_account d = None then (d, None)
      else if \<not> emailsMatch d then (eml_toast TError ''Email addresses do not match.'' d, None)
      else (d\<lparr>eml_submitting := True\<rparr>, Some (eml_request d)))"

definition eml_handleOpenChange :: "bool \<Rightarrow> email_dialog \<Rightarrow> email_dialog" where
  "eml_handleOpenChange is_open d =
     (let m = preferredMethod (eml_passkeys d) (passwordAvailable (eml_account d));
          d1 = (if is_open then d
                else d\<lparr>eml_step := EmailDetails, eml_newEmail := [], eml_confirmEmail := [], eml_currentPassword := [],
                       eml_reauthToken := None, eml_reauthStatus := Idle, eml_otp := []\<rparr>)
      in (set_eml_method m d1)\<lparr>eml_open := is_open\<rparr>)"

definition eml_done :: "thrown + nat \<Rightarrow> thrown + ModelAccount \<Rightarrow> email_dialog \<Rightarrow> email_dialog" where
  "eml_done answer refreshed d =
     (case (case answer of Inl err \<Rightarrow> Inl err | Inr _ \<Rightarrow> refreshed) of
        Inl err \<Rightarrow> eml_toast TError (or_str (thrown_error err) ''Failed to update email'') (d\<lparr>eml_submitting := False\<rparr>)
      | Inr acc \<Rightarrow>
          let d1 = eml_handleOpenChange False
                     (eml_toast TSuccess ''Email updated. Please verify your new address.''
                       (d\<lparr>eml_submitting := False,
                          eml_auth := (eml_auth d)\<lparr>au_store := setAccount (Some acc) (au_store (eml_auth d))\<rparr>\<rparr>))
          in d1\<lparr>eml_changed := eml_changed d1 + 1\<rparr>)"

text \<open>The address both fields agree on is the one the API stores.\<close>

definition trim_with :: "(char \<Rightarrow> bool) \<Rightarrow> string \<Rightarrow> string" where
  "trim_with P s = rev (dropWhile P (rev (dropWhile P s)))"

lemma trim_context:
  assumes "\<forall>c \<in> set a. Q c" and "\<forall>c \<in> set b. Q c"
  shows "trim_with Q (a @ m @ b) = trim_with Q m"
proof -
  have one: "dropWhile Q (a @ m @ b) = dropWhile Q (m @ b)" using assms(1) by (intro dropWhile_append2) auto
  show ?thesis
  proof (cases "\<forall>c \<in> set m. Q c")
    case True
    then have e1: "dropWhile Q (a @ m @ b) = []" and e2: "dropWhile Q m = []"
      using assms by (auto simp: dropWhile_eq_Nil_conv)
    show ?thesis by (simp only: trim_with_def e1 e2)
  next
    case False
    then obtain x where "x \<in> set m" "\<not> Q x" by blast
    then have "dropWhile Q (m @ b) = dropWhile Q m @ b" by (rule dropWhile_append1)
    moreover have "dropWhile Q (rev b @ rev (dropWhile Q m)) = dropWhile Q (rev (dropWhile Q m))"
      using assms(2) by (intro dropWhile_append2) auto
    ultimately show ?thesis by (simp only: trim_with_def one rev_append)
  qed
qed

lemma trim_decomp: "\<exists>a b. s = a @ trim_with P s @ b \<and> (\<forall>c \<in> set a. P c) \<and> (\<forall>c \<in> set b. P c)"
proof -
  let ?t = "dropWhile P s"
  have s: "s = takeWhile P s @ ?t" by simp
  have "rev ?t = takeWhile P (rev ?t) @ dropWhile P (rev ?t)" by simp
  then have "?t = trim_with P s @ rev (takeWhile P (rev ?t))"
    unfolding trim_with_def by (metis rev_append rev_rev_ident)
  with s have "s = takeWhile P s @ trim_with P s @ rev (takeWhile P (rev ?t))" by metis
  moreover have "\<forall>c \<in> set (takeWhile P s). P c" "\<forall>c \<in> set (rev (takeWhile P (rev ?t))). P c"
    by (auto dest: set_takeWhileD)
  ultimately show ?thesis by blast
qed

lemma trim_weaker:
  assumes "\<And>c. P c \<Longrightarrow> Q c"
  shows "trim_with Q (trim_with P s) = trim_with Q s"
proof -
  obtain a b where s: "s = a @ trim_with P s @ b" and ab: "\<forall>c \<in> set a. P c" "\<forall>c \<in> set b. P c"
    using trim_decomp [of s P] by blast
  have "trim_with Q (a @ trim_with P s @ b) = trim_with Q (trim_with P s)"
    by (rule trim_context) (use ab assms in auto)
  with s show ?thesis by simp
qed

lemma trim_lower:
  assumes "\<And>c. P (js_lower_char c) = P c"
  shows "js_toLowerCase (trim_with P s) = trim_with P (js_toLowerCase s)"
proof -
  have "dropWhile P (map js_lower_char xs) = map js_lower_char (dropWhile P xs)" for xs
    by (induction xs) (simp_all add: assms)
  then show ?thesis by (simp add: trim_with_def js_toLowerCase_def rev_map)
qed

lemma space_lower: "go_space (js_lower_char c) = go_space c"
  by (auto simp: go_space_def of_char_js_lower Let_def)

lemma js_space_go: "js_space c \<Longrightarrow> go_space c"
  by (auto simp: js_space_def go_space_def Let_def)

text \<open>The address that both fields of the dialog agree on is the one the API stores.\<close>

lemma normalize_agrees:
  assumes "js_normalizeEmail a = js_normalizeEmail b"
  shows "NormalizeEmail a = NormalizeEmail b"
proof -
  have n: "NormalizeEmail x = trim_with go_space (js_normalizeEmail x)" for x
  proof -
    have "NormalizeEmail x = js_toLowerCase (trim_with go_space (trim_with js_space x))"
      using trim_weaker [of js_space go_space x] js_space_go by (simp add: NormalizeEmail_def trim_with_def)
    also have "\<dots> = trim_with go_space (js_toLowerCase (trim_with js_space x))"
      by (rule trim_lower) (rule space_lower)
    finally show ?thesis by (simp add: js_normalizeEmail_def js_trim_def trim_with_def)
  qed
  show ?thesis by (simp add: n assms)
qed


lemma UpdateAccount_email:
  "UpdateAccount env [\<lparr>au_operation = op, au_path_of = PathEmail, au_value = v\<rparr>] otp srv =
     (case handleEmailUpdate env v otp (sv_doc srv) srv of
        (Inl e, s) \<Rightarrow> (Some e, s) | (Inr acc, s) \<Rightarrow> (None, s\<lparr>sv_doc := acc\<rparr>))"
  by (simp add: UpdateAccount_def Let_def split: prod.split sum.split)

lemma VerifyOnAccount_proof:
  assumes "VerifyOnAccount env ty pw token otp acc srv = (Inr acc', srv')"
  shows "case pw of
      Some p \<Rightarrow> acc' = acc \<and> (\<exists>h. ad_password acc = Some h \<and> av_hash_ok env p h) \<and>
                 (ad_totp acc \<longrightarrow> fst (account_MfaCheck env acc otp srv) = None)
    | None \<Rightarrow> (\<exists>tok. token = Some tok \<and>
                 (\<exists>t \<in> set (ad_tokens acc). tk_type t = ty \<and> tk_value t = tok \<and> av_now env \<le> tk_expires t \<and> t \<notin> set (ad_tokens acc')))"
proof (cases pw)
  case None
  with assms obtain tok kept where "token = Some tok"
    and c: "consume_token (av_now env) ty tok (ad_tokens acc) = Inr (True, kept)" and a: "acc' = acc\<lparr>ad_tokens := kept\<rparr>"
    by (auto simp: VerifyOnAccount_def split: if_splits sum.splits)
  with consume_shrinks(2) [OF c] None show ?thesis by simp
next
  case (Some p)
  with assms show ?thesis by (auto simp: VerifyOnAccount_def split: if_splits option.splits prod.splits)
qed

lemma email_update_success:
  assumes "handleEmailUpdate env (VFields u) otp acc srv = (Inr acc', srv')"
  defines "email \<equiv> NormalizeEmail (nullish (uf_new_email u) [])"
  obtains acc1 where
    "VerifyOnAccount env TokenTypeReauthEmailChange (uf_current_password u) (uf_reauth_token u) otp acc srv = (Inr acc1, srv')"
    "email \<noteq> js_toLowerCase (ad_email acc1)" "email \<notin> set (sv_others srv')"
    "acc' = acc1\<lparr>ad_email := email, ad_emailVerified := False,
       ad_tokens := filter (\<lambda>t. tk_type t \<noteq> EmailCategoryVerificationOTP \<and> tk_type t \<noteq> TokenTypePasswordReset) (ad_tokens acc1)\<rparr>"
  using assms by (auto simp: handleEmailUpdate_def Let_def split: if_splits prod.splits sum.splits)

definition eml_proved :: "account_env \<Rightarrow> email_dialog \<Rightarrow> account_server \<Rightarrow> account_server \<Rightarrow> bool" where
  "eml_proved env d srv srv' \<longleftrightarrow>
     (if eml_method d = Passkey
      then (\<exists>t \<in> set (ad_tokens (sv_doc srv)). tk_type t = TokenTypeReauthEmailChange \<and> eml_reauthToken d = Some (tk_value t) \<and>
              av_now env \<le> tk_expires t \<and> t \<notin> set (ad_tokens (sv_doc srv')))
      else (\<exists>h. ad_password (sv_doc srv) = Some h \<and> av_hash_ok env (eml_currentPassword d) h) \<and>
           (ad_totp (sv_doc srv) \<longrightarrow>
              fst (account_MfaCheck env (sv_doc srv) (if eml_showOtp d then eml_otp d else []) srv) = None))"

text \<open>
  Property C30 (email_change_end_to_end). An accepted change stores, in its normal form, the address that
  both fields of the dialog hold; it is a new one, no other account has it, it is unverified, and no code
  or reset link of the old address is left; the request proved the user with the password and a code, or
  with a passkey token that is gone afterwards. After a refusal the document has everything it had but
  used backup codes, so the passkey token is still live, and the dialog shows the error and keeps its
  fields for another try.
\<close>

theorem email_change_end_to_end:
  fixes d d1 :: email_dialog and env :: account_env and srv srv' :: account_server
  assumes "eml_handleSubmit d = (d1, Some req)" and "send_update env req srv = (answer, srv')"
  shows "(answer = Inr 204 \<longrightarrow>
            ad_email (sv_doc srv') = NormalizeEmail (eml_newEmail d) \<and>
            ad_email (sv_doc srv') = NormalizeEmail (eml_confirmEmail d) \<and>
            ad_email (sv_doc srv') \<noteq> js_toLowerCase (ad_email (sv_doc srv)) \<and> ad_email (sv_doc srv') \<notin> set (sv_others srv) \<and>
            \<not> ad_emailVerified (sv_doc srv') \<and>
            (\<forall>t \<in> set (ad_tokens (sv_doc srv')). t \<in> set (ad_tokens (sv_doc srv)) \<and>
               tk_type t \<notin> {EmailCategoryVerificationOTP, TokenTypePasswordReset}) \<and>
            ad_password (sv_doc srv') = ad_password (sv_doc srv) \<and> eml_proved env d srv srv') \<and>
         (answer \<noteq> Inr 204 \<longrightarrow>
            spent (sv_doc srv) (sv_doc srv') \<and> ad_tokens (sv_doc srv') = ad_tokens (sv_doc srv) \<and>
            (\<exists>msg. eml_done answer refreshed d1 = eml_toast TError msg (d\<lparr>eml_submitting := False\<rparr>)))"
proof -
  have req: "req = eml_request d" and d1: "d1 = d\<lparr>eml_submitting := True\<rparr>" and same: "emailsMatch d"
    using assms(1) by (auto simp: eml_handleSubmit_def split: if_splits)
  define otp where "otp = (if eml_showOtp d then eml_otp d else [])"
  define u where "u = (if eml_method d = Passkey
          then \<lparr>uf_current_password = None, uf_reauth_token = eml_reauthToken d, uf_new_email = Some (eml_newEmail d)\<rparr>
          else \<lparr>uf_current_password = Some (eml_currentPassword d), uf_reauth_token = None, uf_new_email = Some (eml_newEmail d)\<rparr>)"
  have upd: "UpdateAccount env (fst req) (case snd req of None \<Rightarrow> [] | Some (otp, _) \<Rightarrow> otp) srv =
      (case handleEmailUpdate env (VFields u) otp (sv_doc srv) srv of
        (Inl e, s) \<Rightarrow> (Some e, s) | (Inr acc, s) \<Rightarrow> (None, s\<lparr>sv_doc := acc\<rparr>))"
    by (simp add: req eml_request_def UpdateAccount_email u_def [symmetric] otp_def)
  obtain q s where h: "handleEmailUpdate env (VFields u) otp (sv_doc srv) srv = (q, s)" by fastforce
  note f = handleEmailUpdate_cases [OF h]
  have email: "nullish (uf_new_email u) [] = eml_newEmail d" by (simp add: u_def)
  show ?thesis
  proof (cases q)
    case (Inl e)
    then have r: "answer = Inl (account_answer ''failed to update account'' e)" "srv' = s"
      using assms(2) upd h by (simp_all add: send_update_def updateAccount_def)
    have "\<exists>msg. eml_done answer refreshed d1 = eml_toast TError msg (d\<lparr>eml_submitting := False\<rparr>)"
      by (auto simp: eml_done_def r(1) d1 eml_toast_def)
    with r f(1) show ?thesis by (simp add: spent_keeps)
  next
    case (Inr acc)
    then have r: "answer = Inr 204" "srv' = s\<lparr>sv_doc := acc\<rparr>"
      using assms(2) upd h by (simp_all add: send_update_def updateAccount_def)
    from email_update_success [OF h [unfolded Inr]] obtain acc1 where
      v: "VerifyOnAccount env TokenTypeReauthEmailChange (uf_current_password u) (uf_reauth_token u) otp (sv_doc srv) srv = (Inr acc1, s)"
      and new: "NormalizeEmail (eml_newEmail d) \<noteq> js_toLowerCase (ad_email acc1)" "NormalizeEmail (eml_newEmail d) \<notin> set (sv_others s)"
      and acc: "acc = acc1\<lparr>ad_email := NormalizeEmail (eml_newEmail d), ad_emailVerified := False,
         ad_tokens := filter (\<lambda>t. tk_type t \<noteq> EmailCategoryVerificationOTP \<and> tk_type t \<noteq> TokenTypePasswordReset) (ad_tokens acc1)\<rparr>"
      unfolding email by blast
    from VerifyOnAccount_cases(4) [OF v refl] have a1: "acc1 = (sv_doc srv)\<lparr>ad_tokens := ad_tokens acc1\<rparr>"
      and sub: "set (ad_tokens acc1) \<subseteq> set (ad_tokens (sv_doc srv))" by blast+
    have a1s: "ad_email acc1 = ad_email (sv_doc srv)" "ad_password acc1 = ad_password (sv_doc srv)" by (subst a1, simp)+
    have toks: "sv_doc srv' = acc" by (simp add: r)
    have proved: "eml_proved env d srv srv'"
    proof (cases "eml_method d = Passkey")
      case True
      from VerifyOnAccount_proof [OF v] obtain t where t: "t \<in> set (ad_tokens (sv_doc srv))"
        "tk_type t = TokenTypeReauthEmailChange" "eml_reauthToken d = Some (tk_value t)" "av_now env \<le> tk_expires t"
        "t \<notin> set (ad_tokens acc1)"
        by (auto simp: u_def True)
      then have "t \<notin> set (ad_tokens acc)" by (simp add: acc)
      with t show ?thesis unfolding eml_proved_def toks by (simp add: True) blast
    next
      case False
      with VerifyOnAccount_proof [OF v] show ?thesis by (simp add: u_def eml_proved_def otp_def)
    qed
    have conf: "NormalizeEmail (eml_confirmEmail d) = NormalizeEmail (eml_newEmail d)"
      by (rule normalize_agrees) (use same in \<open>auto simp: emailsMatch_def\<close>)
    have mail: "ad_email acc = NormalizeEmail (eml_newEmail d)" "\<not> ad_emailVerified acc" "ad_password acc = ad_password (sv_doc srv)"
      by (simp_all add: acc a1s)
    have others: "sv_others s = sv_others srv" by (rule VerifyOnAccount_cases(2) [OF v])
    have gone: "\<forall>t \<in> set (ad_tokens acc). t \<in> set (ad_tokens (sv_doc srv)) \<and>
        tk_type t \<notin> {EmailCategoryVerificationOTP, TokenTypePasswordReset}"
      using sub by (auto simp: acc)
    from new have n: "ad_email acc \<noteq> js_toLowerCase (ad_email (sv_doc srv))" "ad_email acc \<notin> set (sv_others srv)"
      by (simp_all add: mail a1s others)
    show ?thesis unfolding toks r(1) using mail n gone proved conf by simp
  qed
qed

definition sample_eml :: email_dialog where
  "sample_eml =
     \<lparr>eml_open = True, eml_account = Some (account_view 0 plain_doc), eml_passkeys = False, eml_step = EmailConfirm,
      eml_newEmail = ''New@x.org '', eml_confirmEmail = ''new@X.org'', eml_currentPassword = ''old'',
      eml_reauthToken = None, eml_reauthStatus = Idle, eml_otp = [], eml_submitting = False, eml_method = Password,
      eml_auth = signed_in (setAccount (Some (account_view 0 plain_doc)) initial_store), eml_changed = 0\<rparr>"

lemma sample_eml_sent:
  "eml_account sample_eml \<noteq> None" "eml_step sample_eml = EmailConfirm" "eml_method sample_eml = Password"
  "\<not> eml_showOtp sample_eml" "emailsMatch sample_eml"
  "eml_handleSubmit sample_eml = (sample_eml\<lparr>eml_submitting := True\<rparr>, Some (eml_request sample_eml))"
proof -
  show a: "eml_account sample_eml \<noteq> None" "eml_step sample_eml = EmailConfirm" "eml_method sample_eml = Password"
    by (simp_all add: sample_eml_def)
  show "\<not> eml_showOtp sample_eml"
    by (simp add: eml_showOtp_def showOtp_def sample_eml_def account_view_def plain_doc_def)
  have "js_normalizeEmail ''new@X.org'' = js_normalizeEmail ''New@x.org ''" by code_simp
  then show m: "emailsMatch sample_eml" by (simp add: emailsMatch_def sample_eml_def)
  from a m show "eml_handleSubmit sample_eml = (sample_eml\<lparr>eml_submitting := True\<rparr>, Some (eml_request sample_eml))"
    by (simp add: eml_handleSubmit_def)
qed

theorem email_change_end_to_end_witness:
  "let (answer, srv') = send_update plain_env (eml_request sample_eml) (server_of plain_doc)
   in answer = Inr 204 \<and> ad_email (sv_doc srv') = ''new@x.org'' \<and> \<not> ad_emailVerified (sv_doc srv')"
proof -
  note s = sample_eml_sent
  have n: "NormalizeEmail ''New@x.org '' = ''new@x.org''" "js_includes ''new@x.org'' ''@''"
    "js_toLowerCase ''u@x.org'' = ''u@x.org''" by code_simp+
  have "fst (send_update plain_env (eml_request sample_eml) (server_of plain_doc)) = Inr 204"
    using s(3,4) n
    by (simp add: send_update_def eml_request_def updateAccount_def UpdateAccount_email handleEmailUpdate_def Let_def
        email_update_valid_def VerifyOnAccount_def account_MfaCheck_def)
      (simp add: sample_eml_def server_of_def plain_doc_def plain_env_def n)
  then obtain srv' where r: "send_update plain_env (eml_request sample_eml) (server_of plain_doc) = (Inr 204, srv')"
    by (metis prod.collapse)
  have e: "eml_newEmail sample_eml = ''New@x.org ''" by (simp add: sample_eml_def)
  from email_change_end_to_end [OF s(6) r]
  have "ad_email (sv_doc srv') = NormalizeEmail (eml_newEmail sample_eml)" "\<not> ad_emailVerified (sv_doc srv')" by blast+
  with r show ?thesis by (simp add: e n(1))
qed

text \<open>
  Fact (late_ceremony_empties_password). A passkey ceremony that was started before the user switched to
  the password and ends on the confirmation step empties the password that was typed: the update is then
  sent with an empty password and answered with a server error, and the step shows no password field.
\<close>

theorem late_ceremony_empties_password:
  assumes "eml_account d \<noteq> None" "eml_step d = EmailConfirm" "eml_method d = Password" "emailsMatch d"
  shows "\<exists>d1 req. eml_handleSubmit (eml_passkeyDone (Inr token) d) = (d1, Some req) \<and> eml_step d1 = EmailConfirm \<and>
           send_update env req srv = (Inl (api_error 500 ''failed to update account''), srv)"
proof -
  let ?d = "eml_passkeyDone (Inr token) d"
  have d: "eml_account ?d \<noteq> None" "emailsMatch ?d" "eml_method ?d = Password" "eml_currentPassword ?d = []" "eml_step ?d = EmailConfirm"
    using assms by (simp_all add: eml_passkeyDone_def eml_toast_def emailsMatch_def)
  then have "eml_handleSubmit ?d = (?d\<lparr>eml_submitting := True\<rparr>, Some (eml_request ?d))" by (simp add: eml_handleSubmit_def)
  moreover have "send_update env (eml_request ?d) srv = (Inl (api_error 500 ''failed to update account''), srv)"
    using d by (simp add: send_update_def eml_request_def updateAccount_def UpdateAccount_email handleEmailUpdate_def
        email_update_valid_def Let_def)
  ultimately show ?thesis using d(5) by auto
qed

theorem late_ceremony_empties_password_witness:
  "let (d1, req) = eml_handleSubmit (eml_passkeyDone (Inr ''tok'') sample_eml)
   in eml_step d1 = EmailConfirm \<and>
      send_update plain_env (the req) (server_of plain_doc) =
        (Inl (api_error 500 ''failed to update account''), server_of plain_doc)"
proof -
  note s = sample_eml_sent
  from late_ceremony_empties_password [OF s(1,2,3,5), of "''tok''" plain_env "server_of plain_doc"]
  obtain d1 req where r: "eml_handleSubmit (eml_passkeyDone (Inr ''tok'') sample_eml) = (d1, Some req)" "eml_step d1 = EmailConfirm"
    "send_update plain_env req (server_of plain_doc) = (Inl (api_error 500 ''failed to update account''), server_of plain_doc)" by blast
  show ?thesis unfolding Let_def r(1) prod.case option.sel by (rule conjI [OF r(2,3)])
qed

end
