(* ===== verification/DeleteDialog.thy ===== *)
theory DeleteDialog
  imports AccountDialogs
begin

text \<open>
  Deleting the account: app/src/pages/account_preferences/DeleteAccount.tsx with the hook that chooses the
  method, against the deletion of the API.

  A step is an event of the user, an answer, or a change of the store, together with the effects React runs
  after it. \<open>dl_requests\<close> counts the requests for a deletion code sent so far and \<open>dl_inflight\<close> those not
  answered yet. A copy to the clipboard is a step with its outcome.
\<close>

subsection \<open>The dialog\<close>

record delete_dialog =
  dl_open :: bool
  dl_currentPassword :: string
  dl_otp :: string
  dl_reauthToken :: "string option"
  dl_reauthStatus :: reauth_status
  dl_deletionCode :: string
  dl_userCode :: string
  dl_generating :: bool
  dl_deleting :: bool
  dl_copied :: bool
  dl_attempted :: bool
  dl_method :: VerificationMethod
  dl_auth :: auth
  dl_requests :: nat
  dl_inflight :: nat

definition dl_account :: "delete_dialog \<Rightarrow> ModelAccount option" where
  "dl_account d = app_account (au_store (dl_auth d))"

definition dl_hasPasskeys :: "delete_dialog \<Rightarrow> bool" where
  "dl_hasPasskeys d = hasPasskeys (app_passkeys (au_store (dl_auth d)))"

definition dl_passwordAvailable :: "delete_dialog \<Rightarrow> bool" where
  "dl_passwordAvailable d = passwordAvailable (dl_account d)"

definition dl_preferred :: "delete_dialog \<Rightarrow> VerificationMethod" where
  "dl_preferred d = preferredMethod (dl_hasPasskeys d) (dl_passwordAvailable d)"

definition dl_showOtp :: "delete_dialog \<Rightarrow> bool" where
  "dl_showOtp d = showOtp (dl_account d) (dl_method d)"

definition dl_toast :: "toast_level \<Rightarrow> string \<Rightarrow> delete_dialog \<Rightarrow> delete_dialog" where
  "dl_toast l m d = d\<lparr>dl_auth := add_toast l m (dl_auth d)\<rparr>"

definition generateDeletionCode :: "delete_dialog \<Rightarrow> delete_dialog" where
  "generateDeletionCode d =
     d\<lparr>dl_generating := True, dl_attempted := True, dl_requests := Suc (dl_requests d), dl_inflight := Suc (dl_inflight d)\<rparr>"

text \<open>The error shown, when the status and the text of the answer are read.\<close>

definition dl_error_text :: "string \<Rightarrow> thrown \<Rightarrow> string" where
  "dl_error_text fallback err =
     (if thrown_status err = Some 429 then ''Too many requests, please try again later.''
      else or_str (thrown_error err) fallback)"

definition generation_done :: "thrown + string option \<Rightarrow> delete_dialog \<Rightarrow> delete_dialog" where
  "generation_done r d =
     (let d1 = (case r of
          Inr code \<Rightarrow>
            if truthy_str code then d\<lparr>dl_deletionCode := the code, dl_copied := False\<rparr>
            else dl_toast TError ''Failed to generate deletion code.'' d
        | Inl err \<Rightarrow> dl_toast TError (dl_error_text ''Failed to generate deletion code.'' err) d)
      in d1\<lparr>dl_generating := False, dl_inflight := dl_inflight d1 - 1\<rparr>)"

text \<open>What a change of the method and closing empty.\<close>

definition dl_cleared :: "delete_dialog \<Rightarrow> delete_dialog" where
  "dl_cleared d =
     d\<lparr>dl_currentPassword := [], dl_otp := [], dl_reauthToken := None, dl_reauthStatus := Idle, dl_deletionCode := [],
       dl_userCode := [], dl_generating := False, dl_copied := False, dl_attempted := False\<rparr>"

definition dl_setMethod :: "VerificationMethod \<Rightarrow> delete_dialog \<Rightarrow> delete_dialog" where
  "dl_setMethod m d = (if m = dl_method d then d else (dl_cleared d)\<lparr>dl_method := m\<rparr>)"

text \<open>The three effects: the method, closing, and the request for a code.\<close>

definition method_effects :: "delete_dialog \<Rightarrow> delete_dialog" where
  "method_effects d =
     dl_setMethod (method_effect (dl_open d) (dl_hasPasskeys d) (dl_passwordAvailable d) (dl_method d)) d"

definition close_effect :: "delete_dialog \<Rightarrow> delete_dialog" where
  "close_effect d = (if dl_open d then d else dl_setMethod (dl_preferred d) (dl_cleared d))"

definition generate_effect :: "delete_dialog \<Rightarrow> delete_dialog" where
  "generate_effect d =
     (if \<not> dl_open d \<or> dl_deletionCode d \<noteq> [] \<or> dl_generating d \<or> dl_attempted d then d else generateDeletionCode d)"

definition dl_handleOpenChange :: "bool \<Rightarrow> delete_dialog \<Rightarrow> delete_dialog" where
  "dl_handleOpenChange is_open d =
     (if is_open then d else dl_setMethod (dl_preferred d) (dl_cleared d))\<lparr>dl_open := is_open\<rparr>"

definition dl_beginPasskeyReauth :: "delete_dialog \<Rightarrow> delete_dialog" where
  "dl_beginPasskeyReauth d =
     (if dl_reauthStatus d = InProgress \<or> dl_reauthStatus d = Verified then d else d\<lparr>dl_reauthStatus := InProgress\<rparr>)"

definition dl_passkeyDone :: "string + string \<Rightarrow> delete_dialog \<Rightarrow> delete_dialog" where
  "dl_passkeyDone r d =
     (case r of
        Inr token \<Rightarrow> dl_toast TSuccess ''Identity verified via passkey''
                        (d\<lparr>dl_reauthToken := Some token, dl_reauthStatus := Verified\<rparr>)
      | Inl msg \<Rightarrow> dl_toast TError (if msg = [] then ''Passkey verification failed'' else msg) (d\<lparr>dl_reauthStatus := ReauthError\<rparr>))"

definition dl_handleCopy :: "bool \<Rightarrow> delete_dialog \<Rightarrow> delete_dialog" where
  "dl_handleCopy ok d =
     (if ok then dl_toast TSuccess ''Deletion code copied to clipboard.'' (d\<lparr>dl_copied := True\<rparr>)
      else dl_toast TError ''Failed to copy to clipboard.'' d)"

datatype delete_event =
    DlOpenChange bool
  | DlStore "ModelAccount option" "ModelCredential list"
  | DlSwitch VerificationMethod
  | DlTypePassword string
  | DlTypeOtp string
  | DlTypeCode string
  | DlRetry
  | DlGenerated "thrown + string option"
  | DlBeginPasskey
  | DlPasskeyDone "string + string"
  | DlCopy bool
  | DlCopyTimer

text \<open>The retry button is there only without a code and while no request runs.\<close>

fun delete_step :: "delete_dialog \<Rightarrow> delete_event \<Rightarrow> delete_dialog" where
  "delete_step d (DlOpenChange is_open) =
     (if is_open = dl_open d then d
      else generate_effect (close_effect (method_effects (dl_handleOpenChange is_open d))))"
| "delete_step d (DlStore account passkeys) =
     (let a = dl_auth d;
          d1 = d\<lparr>dl_auth := a\<lparr>au_store := setPasskeys passkeys (setAccount account (au_store a))\<rparr>\<rparr>;
          d2 = method_effects d1
      in generate_effect (if dl_preferred d1 = dl_preferred d then d2 else close_effect d2))"
| "delete_step d (DlSwitch m) =
     (if \<not> dl_open d then d
      else generate_effect (dl_setMethod (switchMethod (dl_hasPasskeys d) (dl_passwordAvailable d) m (dl_method d)) d))"
| "delete_step d (DlTypePassword s) = d\<lparr>dl_currentPassword := s\<rparr>"
| "delete_step d (DlTypeOtp s) = d\<lparr>dl_otp := s\<rparr>"
| "delete_step d (DlTypeCode s) = d\<lparr>dl_userCode := s\<rparr>"
| "delete_step d DlRetry =
     (if dl_open d \<and> \<not> dl_generating d \<and> dl_deletionCode d = [] then generateDeletionCode d else d)"
| "delete_step d (DlGenerated r) = (if dl_inflight d = 0 then d else generate_effect (generation_done r d))"
| "delete_step d DlBeginPasskey = dl_beginPasskeyReauth d"
| "delete_step d (DlPasskeyDone r) = dl_passkeyDone r d"
| "delete_step d (DlCopy ok) = dl_handleCopy ok d"
| "delete_step d DlCopyTimer = d\<lparr>dl_copied := False\<rparr>"

subsection \<open>Confirming\<close>

definition dl_confirm_enabled :: "bool \<Rightarrow> delete_dialog \<Rightarrow> bool" where
  "dl_confirm_enabled loading d =
     (\<not> (loading \<or> dl_generating d \<or> dl_deleting d \<or> dl_deletionCode d = [] \<or> js_trim (dl_userCode d) = [] \<or>
         (dl_method d = Password \<and> (js_trim (dl_currentPassword d) = [] \<or> (dl_showOtp d \<and> js_trim (dl_otp d) = []))) \<or>
         (dl_method d = Passkey \<and> dl_reauthStatus d \<noteq> Verified)))"

type_synonym deletion_call = "deletion_request \<times> (string \<times> string) option"

definition dl_request :: "delete_dialog \<Rightarrow> deletion_call" where
  "dl_request d =
     (\<lparr>dr_deletion_code = js_trim (dl_userCode d),
       dr_current_password = (if dl_method d = Password then Some (js_trim (dl_currentPassword d)) else None),
       dr_reauth_token = (if dl_method d = Passkey \<and> truthy_str (dl_reauthToken d) then dl_reauthToken d else None)\<rparr>,
      if dl_method d = Password \<and> dl_showOtp d \<and> js_trim (dl_otp d) \<noteq> [] then Some (js_trim (dl_otp d), ''totp'') else None)"

definition dl_handleConfirm :: "delete_dialog \<Rightarrow> delete_dialog \<times> deletion_call option" where
  "dl_handleConfirm d =
     (if js_trim (dl_userCode d) = [] then (dl_toast TError ''Please enter the deletion code.'' d, None)
      else if dl_method d = Password \<and> \<not> dl_passwordAvailable d then
        (dl_toast TError ''Password verification is not available.'' d, None)
      else if dl_method d = Password \<and> js_trim (dl_currentPassword d) = [] then
        (dl_toast TError ''Current password is required.'' d, None)
      else if dl_method d = Password \<and> dl_showOtp d \<and> js_trim (dl_otp d) = [] then
        (dl_toast TError ''2FA code is required.'' d, None)
      else if dl_method d = Passkey \<and> \<not> dl_hasPasskeys d then
        (dl_toast TError ''Passkey verification is not available.'' d, None)
      else if dl_method d = Passkey \<and> \<not> truthy_str (dl_reauthToken d) then
        (dl_toast TError ''Passkey verification is required.'' d, None)
      else (d\<lparr>dl_deleting := True\<rparr>, Some (dl_request d)))"

text \<open>After a success the dialog is closed by its owner and the user is signed out.\<close>

definition dl_done :: "thrown + nat \<Rightarrow> delete_dialog \<Rightarrow> delete_dialog" where
  "dl_done answer d =
     (case answer of
        Inr _ \<Rightarrow>
          generate_effect (close_effect (method_effects
            (d\<lparr>dl_open := False, dl_deleting := False, dl_auth := logout (Some ''Account deleted.'') TInfo (dl_auth d)\<rparr>)))
      | Inl err \<Rightarrow>
          dl_toast TError
            (if thrown_status err = Some 400 \<and> thrown_error err = Some ''invalid deletion code''
             then ''Failed to delete account - invalid or expired deletion code.''
             else dl_error_text ''Unknown error, please try again later.'' err)
            (d\<lparr>dl_deleting := False\<rparr>))"

text \<open>
  What the API keeps of the account: the document its checks read, the data the purge removes, which say
  whether the document is still there, and the number of sessions.
\<close>

record account_store =
  dn_server :: account_server
  dn_data :: account_data
  dn_sessions :: nat

text \<open>
  The handler of the API: the tags of the request, the checks on the document, the purge and the removal
  of the sessions. \<open>fails\<close> says which calls of the purge fail and \<open>sessions_fail\<close> whether the last one
  does; what a purge has removed before it failed stays removed. \<open>problems\<close> is the text of the validator.
\<close>

definition deletion_valid :: "deletion_request \<Rightarrow> bool" where
  "deletion_valid req =
     (dr_deletion_code req \<noteq> [] \<and> \<not> (dr_current_password req \<noteq> None \<and> dr_reauth_token req \<noteq> None) \<and>
      dr_current_password req \<noteq> Some [] \<and> dr_reauth_token req \<noteq> Some [])"

definition api_deleteAccount ::
  "account_env \<Rightarrow> string \<Rightarrow> (nat \<Rightarrow> bool) \<Rightarrow> bool \<Rightarrow> deletion_request \<Rightarrow> string \<Rightarrow> account_store
     \<Rightarrow> (thrown + nat) \<times> account_store" where
  "api_deleteAccount env problems fails sessions_fail req otp st =
     (if \<not> deletion_valid req then (Inl (api_error 400 (''Validation error: '' @ problems)), st)
      else if pd_document (dn_data st) = None then (Inl (api_error 404 ''resource not found''), st)
      else case deletion_allowed env req otp (dn_server st) of
             (Some e, srv) \<Rightarrow> (Inl (account_answer ''failed to delete account'' e), st\<lparr>dn_server := srv\<rparr>)
           | (None, srv) \<Rightarrow>
               (case PurgeAccountData fails (dn_data st) of
                  (ok, d) \<Rightarrow>
                    let st1 = st\<lparr>dn_server := srv, dn_data := d\<rparr>
                    in if \<not> ok \<or> sessions_fail
                       then (Inl (account_answer ''failed to delete account'' OtherError), st1)
                       else (Inr 204, st1\<lparr>dn_sessions := 0\<rparr>)))"

definition send_deletion ::
  "account_env \<Rightarrow> string \<Rightarrow> (nat \<Rightarrow> bool) \<Rightarrow> bool \<Rightarrow> deletion_call \<Rightarrow> account_store \<Rightarrow> (thrown + nat) \<times> account_store" where
  "send_deletion env problems fails sessions_fail call st =
     api_deleteAccount env problems fails sessions_fail (fst call) (case snd call of None \<Rightarrow> [] | Some (otp, _) \<Rightarrow> otp) st"

subsection \<open>Requests for a code\<close>

fun code_triggers :: "delete_event list \<Rightarrow> nat" where
  "code_triggers [] = 0"
| "code_triggers (e # es) =
     (case e of DlOpenChange True \<Rightarrow> 1 | DlStore _ _ \<Rightarrow> 1 | DlSwitch _ \<Rightarrow> 1 | DlRetry \<Rightarrow> 1 | _ \<Rightarrow> 0) + code_triggers es"

text \<open>A running request is awaited by an open dialog, and an open dialog has a code or has asked for one.\<close>

definition generation_awaited :: "delete_dialog \<Rightarrow> bool" where
  "generation_awaited d \<longleftrightarrow> (dl_generating d \<longrightarrow> dl_open d \<and> 0 < dl_inflight d \<and> dl_attempted d)"

definition generation_ok :: "delete_dialog \<Rightarrow> bool" where
  "generation_ok d \<longleftrightarrow> generation_awaited d \<and> (dl_open d \<longrightarrow> dl_deletionCode d \<noteq> [] \<or> dl_attempted d)"

lemma dl_simps [simp]:
  "dl_open (dl_toast l m d) = dl_open d" "dl_generating (dl_toast l m d) = dl_generating d"
  "dl_deletionCode (dl_toast l m d) = dl_deletionCode d" "dl_attempted (dl_toast l m d) = dl_attempted d"
  "dl_requests (dl_toast l m d) = dl_requests d" "dl_inflight (dl_toast l m d) = dl_inflight d"
  "dl_open (dl_cleared d) = dl_open d" "dl_generating (dl_cleared d) = False" "dl_deletionCode (dl_cleared d) = []"
  "dl_attempted (dl_cleared d) = False" "dl_requests (dl_cleared d) = dl_requests d" "dl_inflight (dl_cleared d) = dl_inflight d"
  by (simp_all add: dl_toast_def dl_cleared_def)

lemma setMethod_keeps [simp]:
  "dl_requests (dl_setMethod m d) = dl_requests d" "dl_inflight (dl_setMethod m d) = dl_inflight d"
  "dl_open (dl_setMethod m d) = dl_open d"
  by (simp_all add: dl_setMethod_def)

lemma setMethod_awaited: "generation_awaited d \<Longrightarrow> generation_awaited (dl_setMethod m d)"
  by (simp add: dl_setMethod_def generation_awaited_def)

lemma generate_effect_ok:
  assumes "generation_awaited d"
  shows "generation_ok (generate_effect d)" "dl_requests (generate_effect d) \<le> Suc (dl_requests d)"
  using assms by (auto simp: generate_effect_def generateDeletionCode_def generation_ok_def generation_awaited_def)

lemma generate_effect_settled: "generation_ok d \<Longrightarrow> generate_effect d = d"
  by (auto simp: generate_effect_def generation_ok_def)

lemma generation_done_facts:
  "dl_open (generation_done r d) = dl_open d" "\<not> dl_generating (generation_done r d)"
  "dl_requests (generation_done r d) = dl_requests d" "dl_attempted (generation_done r d) = dl_attempted d"
  "dl_deletionCode d \<noteq> [] \<Longrightarrow> dl_deletionCode (generation_done r d) \<noteq> []"
  by (auto simp: generation_done_def Let_def truthy_str_def split: sum.splits option.splits)

lemma close_effect_facts:
  "generation_awaited d \<Longrightarrow> generation_awaited (close_effect d)" "dl_requests (close_effect d) = dl_requests d"
  "\<not> dl_open d \<Longrightarrow> generation_ok (close_effect d)"
  by (auto simp: close_effect_def generation_ok_def generation_awaited_def dl_setMethod_def)

lemma quiet_step:
  assumes "generation_ok d" "dl_generating d' = dl_generating d" "dl_inflight d' = dl_inflight d" "dl_open d' = dl_open d"
    "dl_deletionCode d' = dl_deletionCode d" "dl_attempted d' = dl_attempted d" "dl_requests d' = dl_requests d"
  shows "generation_ok d' \<and> dl_requests d' \<le> n + dl_requests d"
  using assms by (auto simp: generation_ok_def generation_awaited_def)

lemma delete_step_ok:
  assumes ok: "generation_ok d"
  shows "generation_ok (delete_step d e) \<and> dl_requests (delete_step d e) \<le> code_triggers [e] + dl_requests d"
proof (cases e)
  case (DlOpenChange b)
  let ?d = "method_effects (dl_handleOpenChange b d)"
  have aw: "generation_awaited ?d" if "b \<noteq> dl_open d"
  proof -
    have "generation_awaited (dl_handleOpenChange b d)"
      using ok that by (cases b) (simp_all add: dl_handleOpenChange_def generation_ok_def generation_awaited_def dl_setMethod_def)
    then show ?thesis unfolding method_effects_def by (rule setMethod_awaited)
  qed
  have r: "dl_requests ?d = dl_requests d" "dl_open ?d = b" by (simp_all add: method_effects_def dl_handleOpenChange_def)
  show ?thesis
  proof (cases b)
    case True
    then have "close_effect ?d = ?d" using r by (simp add: close_effect_def)
    with DlOpenChange True aw generate_effect_ok [of ?d] r ok show ?thesis by auto
  next
    case False
    then have "generation_ok (close_effect ?d)" using r by (intro close_effect_facts(3)) simp
    with generate_effect_settled [OF this] DlOpenChange False r ok show ?thesis by (simp add: close_effect_facts(2))
  qed
next
  case (DlStore account passkeys)
  define d1 where "d1 = d\<lparr>dl_auth := (dl_auth d)\<lparr>au_store := setPasskeys passkeys (setAccount account (au_store (dl_auth d)))\<rparr>\<rparr>"
  define d3 where "d3 = (if dl_preferred d1 = dl_preferred d then method_effects d1 else close_effect (method_effects d1))"
  have "generation_awaited d1" using ok by (simp add: d1_def generation_ok_def generation_awaited_def)
  then have "generation_awaited (method_effects d1)" unfolding method_effects_def by (rule setMethod_awaited)
  then have a: "generation_awaited d3" by (simp add: d3_def close_effect_facts(1))
  have "dl_requests d3 = dl_requests d" by (simp add: d3_def close_effect_facts(2)) (simp add: method_effects_def d1_def)
  moreover have "delete_step d e = generate_effect d3" by (simp add: DlStore Let_def d1_def d3_def)
  ultimately show ?thesis using generate_effect_ok [OF a] DlStore by simp
next
  case (DlSwitch m)
  let ?d = "dl_setMethod (switchMethod (dl_hasPasskeys d) (dl_passwordAvailable d) m (dl_method d)) d"
  have "generation_awaited ?d" by (rule setMethod_awaited) (use ok in \<open>simp add: generation_ok_def\<close>)
  from generate_effect_ok [OF this] ok DlSwitch show ?thesis by simp
next
  case DlRetry
  with ok show ?thesis by (auto simp: generateDeletionCode_def generation_ok_def generation_awaited_def)
next
  case (DlGenerated r)
  let ?d = "generation_done r d"
  have "generation_ok ?d"
    using ok generation_done_facts [where r = r and d = d] by (auto simp: generation_ok_def generation_awaited_def)
  with generate_effect_settled [OF this] ok DlGenerated show ?thesis by (simp add: generation_done_facts(3))
next
  case DlBeginPasskey
  then show ?thesis by (simp only: delete_step.simps) (rule quiet_step [OF ok]; simp add: dl_beginPasskeyReauth_def)
next
  case (DlPasskeyDone r)
  then show ?thesis
    by (simp only: delete_step.simps) (rule quiet_step [OF ok]; cases r; simp add: dl_passkeyDone_def dl_toast_def)
next
  case (DlCopy b)
  then show ?thesis
    by (simp only: delete_step.simps) (rule quiet_step [OF ok]; simp add: dl_handleCopy_def dl_toast_def)
qed (use ok in \<open>simp_all add: generation_ok_def generation_awaited_def\<close>)

lemma code_triggers_append: "code_triggers (es @ fs) = code_triggers es + code_triggers fs"
  by (induction es) auto

definition closed_dialog :: "auth \<Rightarrow> delete_dialog" where
  "closed_dialog a =
     \<lparr>dl_open = False, dl_currentPassword = [], dl_otp = [], dl_reauthToken = None, dl_reauthStatus = Idle,
      dl_deletionCode = [], dl_userCode = [], dl_generating = False, dl_deleting = False, dl_copied = False,
      dl_attempted = False,
      dl_method = preferredMethod (hasPasskeys (app_passkeys (au_store a))) (passwordAvailable (app_account (au_store a))),
      dl_auth = a, dl_requests = 0, dl_inflight = 0\<rparr>"

text \<open>
  Property C32 (code_requests_bounded). Whatever happens, the dialog asks for a deletion code at most once
  per opening, switch of the method, change of the store and retry, so a failing API is not asked in a
  loop; while it is open it has a code, or has asked for one; and while it shows the spinner a request is
  on its way, so the spinner ends.
\<close>

theorem code_requests_bounded:
  fixes a :: auth and es :: "delete_event list"
  defines "d \<equiv> fold (\<lambda>e d. delete_step d e) es (closed_dialog a)"
  shows "dl_requests d \<le> code_triggers es \<and>
         (dl_open d \<longrightarrow> dl_deletionCode d \<noteq> [] \<or> dl_attempted d) \<and> (dl_generating d \<longrightarrow> 0 < dl_inflight d)"
proof -
  have "generation_ok d \<and> dl_requests d \<le> code_triggers es"
    unfolding d_def
  proof (induction es rule: rev_induct)
    case Nil
    show ?case by (simp add: closed_dialog_def generation_ok_def generation_awaited_def)
  next
    case (snoc e es)
    let ?d = "fold (\<lambda>e d. delete_step d e) es (closed_dialog a)"
    from snoc have "generation_ok ?d" by blast
    from delete_step_ok [OF this, of e] snoc show ?case by (simp del: delete_step.simps code_triggers.simps add: code_triggers_append)
  qed
  then show ?thesis by (auto simp: generation_ok_def generation_awaited_def)
qed

theorem code_requests_bounded_witness:
  "let a = signed_in (setAccount (Some (account_view 0 plain_doc)) initial_store);
       d = fold (\<lambda>e d. delete_step d e) [DlOpenChange True, DlGenerated (Inl rate_limited)] (closed_dialog a)
   in dl_open d \<and> (dl_deletionCode d \<noteq> [] \<or> dl_attempted d) \<and> dl_requests d \<le> 1"
proof -
  let ?a = "signed_in (setAccount (Some (account_view 0 plain_doc)) initial_store)"
  let ?es = "[DlOpenChange True, DlGenerated (Inl rate_limited)]"
  let ?d = "fold (\<lambda>e d. delete_step d e) ?es (closed_dialog ?a)"
  have o: "dl_open ?d"
    by (simp add: closed_dialog_def generation_done_facts generate_effect_def generation_done_def close_effect_def
        method_effects_def dl_handleOpenChange_def generateDeletionCode_def)
  with code_requests_bounded [of ?es ?a] show ?thesis by (simp only: Let_def) simp
qed

subsection \<open>The request\<close>

lemma refused_or: "(if P then (a, None) else b) = (d1, Some c) \<longleftrightarrow> \<not> P \<and> b = (d1, Some c)"
  by simp

lemma confirm_Some:
  assumes "dl_handleConfirm d = (d1, Some call)"
  shows "call = dl_request d" "d1 = d\<lparr>dl_deleting := True\<rparr>" "js_trim (dl_userCode d) \<noteq> []"
    "dl_method d = Password \<Longrightarrow> dl_passwordAvailable d \<and> js_trim (dl_currentPassword d) \<noteq> [] \<and>
       (dl_showOtp d \<longrightarrow> js_trim (dl_otp d) \<noteq> [])"
    "dl_method d = Passkey \<Longrightarrow> dl_hasPasskeys d \<and> (\<exists>tok. dl_reauthToken d = Some tok \<and> tok \<noteq> [])"
proof -
  have g: "js_trim (dl_userCode d) \<noteq> []" "\<not> (dl_method d = Password \<and> \<not> dl_passwordAvailable d)"
    "\<not> (dl_method d = Password \<and> js_trim (dl_currentPassword d) = [])"
    "\<not> (dl_method d = Password \<and> dl_showOtp d \<and> js_trim (dl_otp d) = [])"
    "\<not> (dl_method d = Passkey \<and> \<not> dl_hasPasskeys d)" "\<not> (dl_method d = Passkey \<and> \<not> truthy_str (dl_reauthToken d))"
    using assms by (simp_all only: dl_handleConfirm_def refused_or simp_thms)
  show "js_trim (dl_userCode d) \<noteq> []" by (rule g(1))
  have "dl_handleConfirm d = (d\<lparr>dl_deleting := True\<rparr>, Some (dl_request d))" unfolding dl_handleConfirm_def by (simp only: g if_False simp_thms)
  with assms show "call = dl_request d" "d1 = d\<lparr>dl_deleting := True\<rparr>" by simp_all
  from g show "dl_method d = Password \<Longrightarrow> dl_passwordAvailable d \<and> js_trim (dl_currentPassword d) \<noteq> [] \<and>
       (dl_showOtp d \<longrightarrow> js_trim (dl_otp d) \<noteq> [])" by blast
  from g(5,6) show "dl_method d = Passkey \<Longrightarrow> dl_hasPasskeys d \<and> (\<exists>tok. dl_reauthToken d = Some tok \<and> tok \<noteq> [])"
    by (cases "dl_reauthToken d") auto
qed

lemma request_valid:
  assumes "dl_handleConfirm d = (d1, Some call)"
  shows "deletion_valid (fst call)"
proof (cases "dl_method d")
  case Password
  with confirm_Some(3,4) [OF assms] show ?thesis
    unfolding confirm_Some(1) [OF assms] by (simp add: dl_request_def deletion_valid_def)
next
  case Passkey
  with confirm_Some(3,5) [OF assms] show ?thesis
    unfolding confirm_Some(1) [OF assms] by (auto simp: dl_request_def deletion_valid_def)
qed

definition dl_proved :: "account_env \<Rightarrow> delete_dialog \<Rightarrow> account_server \<Rightarrow> bool" where
  "dl_proved env d srv \<longleftrightarrow>
     (case dl_method d of
        Password \<Rightarrow>
          (\<exists>h. ad_password (sv_doc srv) = Some h \<and> av_hash_ok env (js_trim (dl_currentPassword d)) h) \<and>
          (ad_totp (sv_doc srv) \<longrightarrow> fst (account_MfaCheck env (sv_doc srv) (js_trim (dl_otp d)) srv) = None)
      | Passkey \<Rightarrow>
          (\<exists>kept. consume_token (av_now env) TokenTypeReauthAccountDeletion (the (dl_reauthToken d))
             (ad_tokens (sv_doc srv)) = Inr (True, kept)))"

definition dl_accepted :: "account_env \<Rightarrow> delete_dialog \<Rightarrow> account_server \<Rightarrow> bool" where
  "dl_accepted env d srv \<longleftrightarrow>
     js_trim (dl_userCode d) = ad_deletionCode (sv_doc srv) \<and>
     (\<exists>t. ad_deletionExpires (sv_doc srv) = Some t \<and> av_now env \<le> t) \<and> dl_proved env d srv"

lemma deletion_checked:
  fixes d :: delete_dialog and env :: account_env and srv :: account_server
  assumes sync: "dl_account d = Some (account_view credentials (sv_doc srv))"
    and conf: "dl_handleConfirm d = (d1, Some call)"
    and r: "deletion_allowed env (fst call) (case snd call of None \<Rightarrow> [] | Some (otp, _) \<Rightarrow> otp) srv = (e, srv')"
  shows "(e = None \<longleftrightarrow> dl_accepted env d srv) \<and> spent (sv_doc srv) (sv_doc srv')"
proof -
  let ?doc = "sv_doc srv"
  note c = confirm_Some [OF conf]
  define otp where "otp = (if dl_showOtp d then js_trim (dl_otp d) else [])"
  have code: "dr_deletion_code (fst call) = js_trim (dl_userCode d)" by (simp add: c(1) dl_request_def)
  have otp: "(case snd call of None \<Rightarrow> [] | Some (otp, _) \<Rightarrow> otp) = otp"
    using c(4) by (auto simp: c(1) dl_request_def otp_def dl_showOtp_def showOtp_def)
  have totp: "dl_showOtp d = (dl_method d = Password \<and> ad_totp ?doc)"
    by (auto simp: dl_showOtp_def showOtp_def sync account_view_def)
  show ?thesis
  proof (cases "js_trim (dl_userCode d) = ad_deletionCode ?doc \<and> (\<exists>t. ad_deletionExpires ?doc = Some t \<and> av_now env \<le> t)")
    case False
    then have "e \<noteq> None \<and> srv' = srv"
      using r code by (auto simp: deletion_allowed_def Let_def split: if_splits option.splits)
    with False show ?thesis by (auto simp: dl_accepted_def spent_refl)
  next
    case True
    obtain q s where v: "VerifyOnAccount env TokenTypeReauthAccountDeletion (dr_current_password (fst call))
        (dr_reauth_token (fst call)) otp ?doc srv = (q, s)" by fastforce
    with True r code otp have es: "e = (case q of Inl x \<Rightarrow> Some x | Inr _ \<Rightarrow> None)" "srv' = s"
      by (auto simp: deletion_allowed_def Let_def split: sum.splits)
    have "(\<exists>a. q = Inr a) \<longleftrightarrow> dl_proved env d srv"
    proof (cases "dl_method d")
      case Password
      have args: "dr_current_password (fst call) = Some (js_trim (dl_currentPassword d))" "dr_reauth_token (fst call) = None"
        using Password by (simp_all add: c(1) dl_request_def)
      have "otp = (if ad_totp ?doc then js_trim (dl_otp d) else [])" using Password by (simp add: otp_def totp)
      with v Password show ?thesis
        by (cases "ad_totp ?doc")
          (auto simp: VerifyOnAccount_def args dl_proved_def mfa_no_code split: prod.splits option.splits if_splits)
    next
      case Passkey
      with c(5) obtain tok where tok: "dl_reauthToken d = Some tok" "tok \<noteq> []" by blast
      have args: "dr_current_password (fst call) = None" "dr_reauth_token (fst call) = Some tok"
        using Passkey tok by (simp_all add: c(1) dl_request_def)
      from v Passkey tok show ?thesis
        by (auto simp: VerifyOnAccount_def args dl_proved_def split: sum.splits if_splits)
    qed
    with True es VerifyOnAccount_cases(1) [OF v] show ?thesis by (auto simp: dl_accepted_def split: sum.splits)
  qed
qed

lemma logout_facts [simp]:
  "session_clear (au_store (logout m t a))" "\<not> au_isAuthenticated (logout m t a)"
  by (simp_all add: logout_def Let_def)

lemma done_signs_out:
  "session_clear (au_store (dl_auth (dl_done (Inr s) d))) \<and> \<not> au_isAuthenticated (dl_auth (dl_done (Inr s) d)) \<and>
   \<not> dl_open (dl_done (Inr s) d) \<and> dl_currentPassword (dl_done (Inr s) d) = [] \<and> dl_deletionCode (dl_done (Inr s) d) = []"
proof -
  define x where "x = d\<lparr>dl_open := False, dl_deleting := False, dl_auth := logout (Some ''Account deleted.'') TInfo (dl_auth d)\<rparr>"
  have m: "dl_open (dl_setMethod k y) = dl_open y" "dl_auth (dl_setMethod k y) = dl_auth y" for k y
    by (simp_all add: dl_setMethod_def dl_cleared_def)
  have cl: "dl_auth (dl_cleared y) = dl_auth y" "dl_currentPassword (dl_cleared y) = []" for y by (simp_all add: dl_cleared_def)
  have e: "dl_done (Inr s) d = dl_setMethod (dl_preferred (method_effects x)) (dl_cleared (method_effects x))"
    by (simp add: dl_done_def x_def [symmetric] generate_effect_def close_effect_def method_effects_def)
      (simp add: x_def)
  have a: "dl_auth (dl_done (Inr s) d) = logout (Some ''Account deleted.'') TInfo (dl_auth d)"
    unfolding e m cl method_effects_def by (simp add: x_def)
  have c: "dl_currentPassword (dl_setMethod k (dl_cleared y)) = [] \<and> dl_deletionCode (dl_setMethod k (dl_cleared y)) = []" for k y
    by (simp add: dl_setMethod_def dl_cleared_def)
  have "\<not> dl_open (dl_done (Inr s) d)" unfolding e by (simp add: method_effects_def x_def)
  with a c [of "dl_preferred (method_effects x)" "method_effects x", folded e] show ?thesis by simp
qed

lemma failed_purge_profiles:
  "pd_credentials (snd (snd (purge_profiles fails n ps d))) = pd_credentials d \<and>
   set (pd_profiles (snd (snd (purge_profiles fails n ps d)))) \<subseteq> set (pd_profiles d)"
  by (induction fails n ps d rule: purge_profiles.induct) (auto simp: Let_def)

text \<open>What is left of an account's data after a purge that may have failed anywhere.\<close>

definition purge_remainder :: "account_data \<Rightarrow> account_data \<Rightarrow> bool" where
  "purge_remainder d d' \<longleftrightarrow>
     set (pd_profiles d') \<subseteq> set (pd_profiles d) \<and> pd_credentials d' \<in> {0, pd_credentials d} \<and>
     (pd_document d' = None \<longrightarrow> pd_credentials d' = 0 \<and> pd_profiles d' = []) \<and>
     (pd_subscription d \<longrightarrow> pd_subscription d' \<or> purged d')"

lemma document_kept:
  "pd_document (snd (snd (purge_profiles fails n ps d))) = None \<longleftrightarrow> pd_document d = None"
  by (induction fails n ps d rule: purge_profiles.induct) (auto simp: Let_def)

lemma purge_leaves:
  assumes "PurgeAccountData fails d = (ok, d')" and "pd_document d \<noteq> None"
  shows "purge_remainder d d'"
proof -
  let ?d1 = "d\<lparr>pd_credentials := 0\<rparr>"
  obtain k n d2 where p: "purge_profiles fails 2 (pd_profiles d) ?d1 = (k, n, d2)" using prod_cases3 by blast
  have d2: "set (pd_profiles d2) \<subseteq> set (pd_profiles d)" "pd_credentials d2 = 0" "pd_document d2 \<noteq> None"
    "k \<Longrightarrow> pd_profiles d2 = []"
    using failed_purge_profiles [of fails 2 "pd_profiles d" ?d1] document_kept [of fails 2 "pd_profiles d" ?d1]
      purge_profiles_rest [of fails 2 "pd_profiles d" ?d1] p assms(2) by auto
  have "pd_subscription d \<longrightarrow> pd_subscription d' \<or> purged d'" using purge_attempt(1) [OF assms(1)] by blast
  then show ?thesis
    using assms p d2 unfolding purge_remainder_def
    by (auto simp: PurgeAccountData_def Let_def split: if_splits bool.splits)
qed


definition deletable_doc :: account_doc where
  "deletable_doc = plain_doc\<lparr>ad_deletionCode := ''abc'', ad_deletionExpires := Some 2000\<rparr>"

definition sample_delete :: "account_doc \<Rightarrow> string \<Rightarrow> delete_dialog" where
  "sample_delete doc pw =
     (closed_dialog (signed_in (setAccount (Some (account_view 0 doc)) initial_store)))
       \<lparr>dl_open := True, dl_currentPassword := pw, dl_deletionCode := ''abc'', dl_userCode := ''abc '', dl_method := Password\<rparr>"

lemma sample_delete_account: "dl_account (sample_delete doc pw) = Some (account_view 0 doc)"
  by (simp add: dl_account_def sample_delete_def closed_dialog_def signed_in_def setAccount_def)

lemma sample_delete_confirm:
  assumes "js_trim pw \<noteq> []" "ad_password doc \<noteq> None" "\<not> ad_totp doc"
  shows "dl_handleConfirm (sample_delete doc pw) =
     ((sample_delete doc pw)\<lparr>dl_deleting := True\<rparr>, Some (dl_request (sample_delete doc pw)))"
    "dl_method (sample_delete doc pw) = Password"
proof -
  let ?d = "sample_delete doc pw"
  have m: "dl_method ?d = Password" "dl_currentPassword ?d = pw" "dl_userCode ?d = ''abc ''" by (simp_all add: sample_delete_def)
  have pa: "dl_passwordAvailable ?d"
    using assms(2) by (auto simp: dl_passwordAvailable_def sample_delete_account passwordAvailable_def account_view_def)
  have no: "\<not> dl_showOtp ?d" using assms(3) by (simp add: dl_showOtp_def showOtp_def sample_delete_account account_view_def)
  have c: "js_trim ''abc '' \<noteq> []" by code_simp
  show "dl_handleConfirm ?d = (?d\<lparr>dl_deleting := True\<rparr>, Some (dl_request ?d))"
    unfolding dl_handleConfirm_def m by (simp only: c assms(1) pa no simp_thms if_False if_True VerificationMethod.distinct)
  show "dl_method ?d = Password" by (rule m(1))
qed

definition store_of :: "account_server \<Rightarrow> account_store" where
  "store_of srv =
     \<lparr>dn_server = srv, dn_data = \<lparr>pd_credentials = 1, pd_profiles = [''p1''], pd_document = Some [''p1''], pd_subscription = True\<rparr>,
      dn_sessions = 2\<rparr>"


text \<open>
  Fact (blank_password_cannot_delete). The password dialog stores a new password as it was typed, but the
  deletion dialog sends the typed one without the blanks around it. After a password with a blank at an
  end was set, no confirmation of the deletion with the password succeeds, whatever is typed.
\<close>

lemma js_trim_idem: "js_trim (js_trim s) = js_trim s"
  using trim_weaker [of js_space js_space s] by (simp add: js_trim_def trim_with_def)

theorem blank_password_cannot_delete:
  fixes p :: password_dialog and d :: delete_dialog and env :: account_env and srv srv1 srv2 :: account_server
  assumes "pwd_account p = Some (account_view credentials (sv_doc srv))" and "0 < credentials \<or> ad_password (sv_doc srv) \<noteq> None"
    and "pwd_handleSubmit p = (p1, Some req)" and "send_update env req srv = (Inr 204, srv1)"
    and "js_trim (pwd_newPassword p) \<noteq> pwd_newPassword p"
    and "\<forall>pw pw'. av_hash_ok env pw (av_hash env pw') \<longrightarrow> pw = pw'"
    and "sv_doc srv2 = (sv_doc srv1)\<lparr>ad_deletionCode := code, ad_deletionExpires := expires\<rparr>"
    and "dl_account d = Some (account_view credentials (sv_doc srv2))" and "dl_method d = Password"
    and "dl_handleConfirm d = (d1, Some call)"
  shows "fst (send_deletion env problems fails sessions_fail call \<lparr>dn_server = srv2, dn_data = data, dn_sessions = n\<rparr>) \<noteq> Inr 204"
proof -
  define r where "r = UpdateAccount env (fst req) (case snd req of None \<Rightarrow> [] | Some (otp, _) \<Rightarrow> otp) srv"
  have "r = (None, srv1)"
    using assms(4) by (cases r) (auto simp: send_update_def updateAccount_def r_def split: prod.splits option.splits)
  with pwd_outcome [OF assms(1-3), of env, folded r_def]
  have doc: "sv_doc srv1 = (sv_doc srv)\<lparr>ad_tokens := ad_tokens (sv_doc srv1), ad_password := Some (av_hash env (pwd_newPassword p))\<rparr>" by simp
  have "ad_password (sv_doc srv1) = Some (av_hash env (pwd_newPassword p))" by (subst doc) simp
  then have pw: "ad_password (sv_doc srv2) = Some (av_hash env (pwd_newPassword p))" by (simp add: assms(7))
  have "\<not> av_hash_ok env (js_trim (dl_currentPassword d)) (av_hash env (pwd_newPassword p))"
    using assms(5,6) js_trim_idem by metis
  then have no: "\<not> dl_accepted env d srv2" by (simp add: dl_accepted_def dl_proved_def assms(9) pw)
  obtain e s where a: "deletion_allowed env (fst call) (case snd call of None \<Rightarrow> [] | Some (otp, _) \<Rightarrow> otp) srv2 = (e, s)"
    by fastforce
  from deletion_checked [OF assms(8,10) a] no have "e \<noteq> None" by blast
  then show ?thesis using request_valid [OF assms(10)] a by (auto simp: send_deletion_def api_deleteAccount_def)
qed

theorem blank_password_cannot_delete_witness:
  "let p = sample_pwd plain_doc ''old'' ''Secret-word-1 '';
       srv1 = snd (send_update plain_env (pwd_request p) (server_of plain_doc));
       srv2 = srv1\<lparr>sv_doc := (sv_doc srv1)\<lparr>ad_deletionCode := ''abc'', ad_deletionExpires := Some 2000\<rparr>\<rparr>;
       d = sample_delete (sv_doc srv2) ''Secret-word-1 ''
   in ad_password (sv_doc srv1) = Some ''h(Secret-word-1 )'' \<and>
      fst (send_deletion plain_env [] (\<lambda>_. False) False (dl_request d) (store_of srv2)) \<noteq> Inr 204"
proof -
  let ?p = "sample_pwd plain_doc ''old'' ''Secret-word-1 ''"
  let ?srv = "server_of plain_doc"
  have sync: "pwd_account ?p = Some (account_view 0 (sv_doc ?srv))" by (simp add: sample_pwd_account server_of_def)
  have has: "ad_password (sv_doc ?srv) \<noteq> None" by (simp add: server_of_def plain_doc_def)
  have strong: "ValidatePassword ''Secret-word-1 ''" "\<not> list_all go_space ''Secret-word-1 ''" by code_simp+
  have pa: "passwordAvailable (pwd_account ?p)" by (simp add: sample_pwd_account passwordAvailable_def account_view_def plain_doc_def)
  have no2: "\<not> pwd_is2FAEnabled ?p" by (simp add: pwd_is2FAEnabled_def sample_pwd_account account_view_def plain_doc_def)
  have sub: "pwd_handleSubmit ?p = (?p\<lparr>pwd_loading := True\<rparr>, Some (pwd_request ?p))"
    using pa no2 by (simp add: pwd_handleSubmit_def) (simp add: sample_pwd_def)
  have acc: "pwd_accepted plain_env ?p ?srv"
    using strong by (simp add: pwd_accepted_def sample_pwd_def server_of_def plain_doc_def plain_env_def)
  define srv1 where "srv1 = snd (send_update plain_env (pwd_request ?p) ?srv)"
  define r where "r = UpdateAccount plain_env (fst (pwd_request ?p)) (case snd (pwd_request ?p) of None \<Rightarrow> [] | Some (otp, _) \<Rightarrow> otp) ?srv"
  note out = pwd_outcome [OF sync disjI2 [OF has] sub, of plain_env, folded r_def]
  have sent: "send_update plain_env (pwd_request ?p) ?srv = (Inr 204, srv1)" "snd r = srv1"
    using out acc by (auto simp: srv1_def send_update_def updateAccount_def r_def split: prod.split option.split)
  have doc: "sv_doc srv1 = (sv_doc ?srv)\<lparr>ad_tokens := ad_tokens (sv_doc srv1), ad_password := Some (av_hash plain_env (pwd_newPassword ?p))\<rparr>"
    using out acc sent(2) by simp
  have pw: "ad_password (sv_doc srv1) = Some ''h(Secret-word-1 )''" by (subst doc) (simp add: sample_pwd_def plain_env_def)
  have off: "\<not> ad_totp (sv_doc srv1)" by (subst doc) (simp add: server_of_def plain_doc_def)
  define doc2 where "doc2 = (sv_doc srv1)\<lparr>ad_deletionCode := ''abc'', ad_deletionExpires := Some 2000\<rparr>"
  let ?d = "sample_delete doc2 ''Secret-word-1 ''"
  have tr: "js_trim ''Secret-word-1 '' = ''Secret-word-1''" by code_simp
  have n: "pwd_newPassword ?p = ''Secret-word-1 ''" by (simp add: sample_pwd_def)
  have new: "js_trim (pwd_newPassword ?p) \<noteq> pwd_newPassword ?p" unfolding n tr by simp
  have conf: "dl_handleConfirm ?d = (?d\<lparr>dl_deleting := True\<rparr>, Some (dl_request ?d))" and m: "dl_method ?d = Password"
    by (rule sample_delete_confirm; simp add: tr doc2_def pw off)+
  have inj: "\<forall>pw pw'. av_hash_ok plain_env pw (av_hash plain_env pw') \<longrightarrow> pw = pw'" by (simp add: plain_env_def)
  have "fst (send_deletion plain_env [] (\<lambda>_. False) False (dl_request ?d) (store_of (srv1\<lparr>sv_doc := doc2\<rparr>))) \<noteq> Inr 204"
    unfolding store_of_def
    by (rule blank_password_cannot_delete [OF sync disjI2 [OF has] sub sent(1) new inj _ _ m conf])
      (simp_all add: doc2_def sample_delete_account)
  with pw show ?thesis unfolding Let_def srv1_def [symmetric] doc2_def by simp
qed

text \<open>
  Fact (late_code_shown_again). When the dialog is closed while a code is on its way, the answer fills the
  closed dialog, and the next opening shows that code without asking for a new one; if it is opened after
  the fifteen minutes, the API refuses the code that is shown.
\<close>

theorem late_code_shown_again:
  fixes d d2 :: delete_dialog and env later :: account_env
  assumes "dl_open d" and "0 < dl_inflight d" and "c \<noteq> []"
    and "GenerateDeletionCode env c srv = (c, srv')" and "av_now env + delCodeExpTime < av_now later"
  defines "d2 \<equiv> delete_step (delete_step (delete_step d (DlOpenChange False)) (DlGenerated (Inr (Some c)))) (DlOpenChange True)"
  shows "dl_open d2 \<and> dl_deletionCode d2 = c \<and> \<not> dl_generating d2 \<and> dl_requests d2 = dl_requests d \<and>
         (\<forall>req otp. dr_deletion_code req = c \<longrightarrow>
            fst (deletion_allowed later req otp srv') = Some (AccountServiceError ''deletion code expired''))"
proof -
  define d0 where "d0 = delete_step d (DlOpenChange False)"
  have keep: "dl_auth (dl_setMethod m x) = dl_auth x" "dl_auth (dl_cleared x) = dl_auth x" "dl_method (dl_setMethod m x) = m" for m x
    by (simp_all add: dl_setMethod_def dl_cleared_def)
  have same_store: "dl_preferred x = dl_preferred y" "dl_hasPasskeys x = dl_hasPasskeys y" "dl_passwordAvailable x = dl_passwordAvailable y"
    if "dl_auth x = dl_auth y" for x y
    using that by (simp_all add: dl_preferred_def dl_hasPasskeys_def dl_passwordAvailable_def dl_account_def)
  let ?h = "method_effects (dl_handleOpenChange False d)"
  have h: "\<not> dl_open ?h" "dl_auth ?h = dl_auth d" "dl_requests ?h = dl_requests d" "dl_inflight ?h = dl_inflight d"
    by (simp_all add: method_effects_def dl_handleOpenChange_def keep)
  have d0: "d0 = dl_setMethod (dl_preferred ?h) (dl_cleared ?h)"
    using assms(1) h(1) by (simp add: d0_def close_effect_def generate_effect_def)
  have s0: "\<not> dl_open d0" "dl_auth d0 = dl_auth d" "dl_requests d0 = dl_requests d" "dl_inflight d0 = dl_inflight d"
    "dl_method d0 = dl_preferred d" "\<not> dl_generating d0"
    unfolding d0 using same_store(1) [OF h(2)] by (simp_all add: h keep) (simp add: dl_setMethod_def)
  define d1 where "d1 = d0\<lparr>dl_deletionCode := c, dl_copied := False, dl_generating := False, dl_inflight := dl_inflight d0 - 1\<rparr>"
  have d1: "delete_step d0 (DlGenerated (Inr (Some c))) = d1"
    using s0 assms(2,3) by (simp add: generation_done_def d1_def generate_effect_def)
  have pref: "method_effect True (dl_hasPasskeys d) (dl_passwordAvailable d) (dl_preferred d) = dl_preferred d"
    by (simp add: method_effect_def dl_preferred_def)
  have "method_effects (d1\<lparr>dl_open := True\<rparr>) = d1\<lparr>dl_open := True\<rparr>"
    using s0(2,5) same_store [of "d1\<lparr>dl_open := True\<rparr>" d] pref by (simp add: method_effects_def dl_setMethod_def d1_def)
  then have "d2 = d1\<lparr>dl_open := True\<rparr>"
    using s0(1) assms(3)
    by (simp only: d2_def d0_def [symmetric] d1) (simp add: d1_def dl_handleOpenChange_def close_effect_def generate_effect_def)
  then have "dl_open d2 \<and> dl_deletionCode d2 = c \<and> \<not> dl_generating d2 \<and> dl_requests d2 = dl_requests d"
    by (simp add: d1_def s0)
  moreover have "fst (deletion_allowed later req otp srv') = Some (AccountServiceError ''deletion code expired'')"
    if "dr_deletion_code req = c" for req otp
  proof -
    have s: "srv' = snd (GenerateDeletionCode env c srv)" by (simp add: assms(4))
    show ?thesis unfolding s using that assms(5) by (simp add: deletion_allowed_def GenerateDeletionCode_def)
  qed
  ultimately show ?thesis by blast
qed

theorem late_code_shown_again_witness:
  "let d = delete_step (closed_dialog (signed_in initial_store)) (DlOpenChange True);
       d2 = delete_step (delete_step (delete_step d (DlOpenChange False)) (DlGenerated (Inr (Some ''abc'')))) (DlOpenChange True)
   in dl_open d2 \<and> dl_deletionCode d2 = ''abc'' \<and> dl_requests d2 = 1 \<and>
      fst (deletion_allowed (plain_env\<lparr>av_now := 2000000\<rparr>)
             \<lparr>dr_deletion_code = ''abc'', dr_current_password = Some ''old'', dr_reauth_token = None\<rparr> []
             (snd (GenerateDeletionCode plain_env ''abc'' (server_of plain_doc)))) =
        Some (AccountServiceError ''deletion code expired'')"
proof -
  let ?d = "delete_step (closed_dialog (signed_in initial_store)) (DlOpenChange True)"
  have o: "dl_open ?d" "dl_inflight ?d = 1" "dl_requests ?d = 1"
    by (simp_all add: closed_dialog_def generate_effect_def close_effect_def method_effects_def dl_handleOpenChange_def
        generateDeletionCode_def dl_setMethod_def method_effect_def dl_hasPasskeys_def dl_passwordAvailable_def dl_account_def)
  have i: "0 < dl_inflight ?d" by (simp only: o(2) zero_less_one)
  have g: "GenerateDeletionCode plain_env ''abc'' (server_of plain_doc) =
      (''abc'', snd (GenerateDeletionCode plain_env ''abc'' (server_of plain_doc)))"
    by (simp add: GenerateDeletionCode_def)
  have t: "av_now plain_env + delCodeExpTime < av_now (plain_env\<lparr>av_now := 2000000\<rparr>)" by (simp add: plain_env_def delCodeExpTime_def)
  have c: "''abc'' \<noteq> ([] :: string)" by simp
  from late_code_shown_again [OF o(1) i c g t] o(3) show ?thesis
    unfolding Let_def by (metis deletion_request.select_convs(1))
qed

end
