(* ===== verification/AccountPage.thy ===== *)
theory AccountPage
  imports DeleteDialog SentryPrivacy
begin

text \<open>
  The account page (app/src/pages/account_preferences/Account.tsx) with its sessions dialog and the
  passkey settings (DeleteSessions.tsx, PasskeySettings.tsx), the consent that app/src/sentry.ts reads, and
  the deletion of a passkey at the API (api/service/webauthn.go).

  The page keeps its own copy of the account; the store has another one. A failed request is an error.
\<close>

subsection \<open>The page\<close>

record account_page =
  pg_currentAccount :: "ModelAccount option"
  pg_errorReportsConsent :: bool
  pg_updatingConsent :: bool
  pg_showUpdatePassword :: bool
  pg_showDeleteSessions :: bool
  pg_showDeleteAccount :: bool
  pg_showEnable2FA :: bool
  pg_showDisable2FA :: bool
  pg_showVerifyEmail :: bool
  pg_showChangeEmail :: bool
  pg_highlightVerify :: bool
  pg_is2FAEnabled :: "bool option"
  pg_auth :: auth

text \<open>The page as it is first rendered; \<open>highlight\<close> is the parameter of the address.\<close>

definition open_account_page :: "ModelAccount option \<Rightarrow> string option \<Rightarrow> auth \<Rightarrow> account_page" where
  "open_account_page account highlight a =
     \<lparr>pg_currentAccount = account, pg_errorReportsConsent = truthy_bool (Option.bind account ac_error_reports_consent),
      pg_updatingConsent = False, pg_showUpdatePassword = False, pg_showDeleteSessions = False,
      pg_showDeleteAccount = False, pg_showEnable2FA = False, pg_showDisable2FA = False, pg_showVerifyEmail = False,
      pg_showChangeEmail = False,
      pg_highlightVerify = (\<not> truthy_bool (Option.bind account ac_email_verified) \<and> highlight = Some ''verify''),
      pg_is2FAEnabled = Option.bind account ac_totp_enabled, pg_auth = a\<rparr>"

definition pg_toast :: "toast_level \<Rightarrow> string \<Rightarrow> account_page \<Rightarrow> account_page" where
  "pg_toast l m p = p\<lparr>pg_auth := add_toast l m (pg_auth p)\<rparr>"

text \<open>The account read again, in the page and in the store.\<close>

definition account_refreshed :: "ModelAccount \<Rightarrow> account_page \<Rightarrow> account_page" where
  "account_refreshed acc p =
     p\<lparr>pg_currentAccount := Some acc, pg_auth := (pg_auth p)\<lparr>au_store := setAccount (Some acc) (au_store (pg_auth p))\<rparr>\<rparr>"

definition handle2FAChanged :: "bool \<Rightarrow> thrown + ModelAccount \<Rightarrow> account_page \<Rightarrow> account_page" where
  "handle2FAChanged enabled answer p =
     (case answer of
        Inr acc \<Rightarrow> (account_refreshed acc p)\<lparr>pg_is2FAEnabled := ac_totp_enabled acc\<rparr>
      | Inl _ \<Rightarrow> p\<lparr>pg_is2FAEnabled := Some enabled\<rparr>)
     \<lparr>pg_showEnable2FA := False, pg_showDisable2FA := False\<rparr>"

definition toggle_2fa :: "string \<Rightarrow> account_page \<Rightarrow> account_page" where
  "toggle_2fa val p =
     (let p1 = (if val = ''enable'' \<and> \<not> truthy_bool (pg_is2FAEnabled p) then p\<lparr>pg_showEnable2FA := True\<rparr> else p)
      in if val = ''disable'' \<and> truthy_bool (pg_is2FAEnabled p) then p1\<lparr>pg_showDisable2FA := True\<rparr> else p1)"

definition page_emailVerified :: "thrown + ModelAccount \<Rightarrow> account_page \<Rightarrow> account_page" where
  "page_emailVerified answer p =
     (case answer of Inr acc \<Rightarrow> account_refreshed acc p | Inl _ \<Rightarrow> p)\<lparr>pg_showVerifyEmail := False\<rparr>"

definition page_emailChanged :: "thrown + ModelAccount \<Rightarrow> account_page \<Rightarrow> account_page" where
  "page_emailChanged answer p =
     (case answer of Inr acc \<Rightarrow> account_refreshed acc p | Inl _ \<Rightarrow> p)
     \<lparr>pg_showVerifyEmail := False, pg_showChangeEmail := False, pg_highlightVerify := True\<rparr>"

definition accountInfo :: "account_page \<Rightarrow> (string \<times> string) list" where
  "accountInfo p =
     [(''modDNS ID'', or_str (Option.bind (pg_currentAccount p) ac_email) []),
      (''Email status'', if truthy_bool (Option.bind (pg_currentAccount p) ac_email_verified) then ''Verified'' else ''Not verified''),
      (''2FA'', if truthy_bool (pg_is2FAEnabled p) then ''Enabled'' else ''Disabled'')]"

definition sessions_handleConfirm :: "thrown + nat \<Rightarrow> account_page \<Rightarrow> account_page" where
  "sessions_handleConfirm answer p =
     (case answer of
        Inr _ \<Rightarrow> (pg_toast TSuccess ''All other sessions have been logged out.'' p)\<lparr>pg_showDeleteSessions := False\<rparr>
      | Inl _ \<Rightarrow> pg_toast TError ''Failed to log out sessions.'' p)"

subsection \<open>The consent to error reports\<close>

definition consent_request :: "bool \<Rightarrow> account_update list" where
  "consent_request value = [\<lparr>au_operation = OpReplace, au_path_of = PathConsent, au_value = VBool value\<rparr>]"

text \<open>A click while a request runs does nothing.\<close>

definition consent_clicked :: "string \<Rightarrow> account_page \<Rightarrow> account_page \<times> account_update list option" where
  "consent_clicked val p =
     (if pg_updatingConsent p then (p, None)
      else (p\<lparr>pg_updatingConsent := True\<rparr>, Some (consent_request (val = ''enable''))))"

definition consent_done :: "bool \<Rightarrow> thrown + nat \<Rightarrow> account_page \<Rightarrow> account_page" where
  "consent_done value answer p =
     (case answer of
        Inr _ \<Rightarrow> pg_toast TSuccess ''Error reports consent updated.'' (p\<lparr>pg_errorReportsConsent := value, pg_updatingConsent := False\<rparr>)
      | Inl _ \<Rightarrow> pg_toast TError ''Failed to update error reports consent.'' (p\<lparr>pg_updatingConsent := False\<rparr>))"

text \<open>What the hooks of the error reports ask.\<close>

definition hasConsent :: "AppState \<Rightarrow> bool" where
  "hasConsent s = truthy_bool (Option.bind (app_account s) ac_error_reports_consent)"

text \<open>The subscription to the store: the replay is switched when the consent of the stored account changes.\<close>

definition store_changed :: "bool \<Rightarrow> bool \<Rightarrow> AppState \<Rightarrow> AppState \<Rightarrow> replay \<Rightarrow> replay" where
  "store_changed sampled draw prev state r =
     (if hasConsent state \<noteq> hasConsent prev then createReplayConsentSync (hasConsent state) sampled draw r else r)"

lemma UpdateAccount_consent:
  "UpdateAccount env (consent_request value) otp srv = (None, srv\<lparr>sv_doc := (sv_doc srv)\<lparr>ad_consent := value\<rparr>\<rparr>)"
  by (simp add: UpdateAccount_def consent_request_def)

text \<open>
  Fact (consent_switch_saved). A click on the switch that the API answers stores exactly the chosen value,
  leaves the rest of the account alone, and the switch shows it; a failed request leaves the switch.
\<close>

theorem consent_switch_saved:
  fixes p p1 :: account_page and env :: account_env and srv srv' :: account_server
  assumes "consent_clicked val p = (p1, Some req)" and "updateAccount env req [] srv = (answer, srv')"
  shows "answer = Inr 204 \<and> sv_doc srv' = (sv_doc srv)\<lparr>ad_consent := (val = ''enable'')\<rparr> \<and>
         pg_errorReportsConsent (consent_done (val = ''enable'') answer p1) = ad_consent (sv_doc srv') \<and>
         pg_errorReportsConsent (consent_done (val = ''enable'') (Inl err) p1) = pg_errorReportsConsent p"
proof -
  have req: "req = consent_request (val = ''enable'')" and p1: "p1 = p\<lparr>pg_updatingConsent := True\<rparr>"
    using assms(1) by (auto simp: consent_clicked_def split: if_splits)
  have r: "answer = Inr 204" "srv' = srv\<lparr>sv_doc := (sv_doc srv)\<lparr>ad_consent := (val = ''enable'')\<rparr>\<rparr>"
    using assms(2) by (simp_all add: req updateAccount_def UpdateAccount_consent)
  show ?thesis unfolding r(1) by (simp add: r(2) p1 consent_done_def pg_toast_def)
qed

text \<open>
  Property C33 (withdrawn_consent_keeps_reporting). Withdrawing the consent on the account page reaches the
  API and the switch, but not the account in the store, which the hooks read: after the request has
  succeeded, error events are still sent and transactions still sampled, the replay is not stopped, and a
  page whose loader finds the store warm shows the switch as enabled. This ends only when the account is
  read from the API again.
\<close>

theorem withdrawn_consent_keeps_reporting:
  fixes p p1 p2 :: account_page and env :: account_env and srv srv' :: account_server
  assumes "hasConsent (au_store (pg_auth p))" and "app_profiles (au_store (pg_auth p)) \<noteq> []"
    and "consent_clicked ''disable'' p = (p1, Some req)" and "updateAccount env req [] srv = (answer, srv')"
  defines "p2 \<equiv> consent_done False answer p1"
  shows "\<not> ad_consent (sv_doc srv') \<and> \<not> pg_errorReportsConsent p2 \<and>
         (\<forall>e e'. scrubErrorEvent e = Some e' \<longrightarrow> beforeSend (hasConsent (au_store (pg_auth p2))) e = Some (Some e')) \<and>
         tracesSampler (hasConsent (au_store (pg_auth p2))) = 1 \<and>
         store_changed sampled draw (au_store (pg_auth p)) (au_store (pg_auth p2)) r = r \<and>
         (\<exists>acc. fst (run_loader (rootLoader (Some ''true'') ans1 ans2) (pg_auth p2)) =
                  Loaded acc (app_profiles (au_store (pg_auth p))) \<and>
                pg_errorReportsConsent (open_account_page acc None (pg_auth p2))) \<and>
         (ac_error_reports_consent fresh = Some (ad_consent (sv_doc srv')) \<longrightarrow>
            \<not> hasConsent (au_store (run_revalidation (Fulfilled fresh) (Rejected None) (pg_auth p2))))"
proof -
  have req: "req = consent_request False" and p1: "p1 = p\<lparr>pg_updatingConsent := True\<rparr>"
    using assms(3) by (auto simp: consent_clicked_def split: if_splits)
  have r: "answer = Inr 204" "srv' = srv\<lparr>sv_doc := (sv_doc srv)\<lparr>ad_consent := False\<rparr>\<rparr>"
    using assms(4) by (simp_all add: req updateAccount_def UpdateAccount_consent)
  have p2: "pg_errorReportsConsent p2 = False" "au_store (pg_auth p2) = au_store (pg_auth p)"
    by (simp_all add: p2_def r(1) consent_done_def pg_toast_def p1)
  obtain acc where acc: "app_account (au_store (pg_auth p)) = Some acc" "truthy_bool (ac_error_reports_consent acc)"
    using assms(1) by (cases "app_account (au_store (pg_auth p))") (auto simp: hasConsent_def truthy_bool_def)
  have load: "fst (run_loader (rootLoader (Some ''true'') ans1 ans2) (pg_auth p2)) =
      Loaded (Some acc) (app_profiles (au_store (pg_auth p)))"
    using assms(2) by (simp add: run_loader_def rootLoader_def p2(2) acc(1))
  have page: "pg_errorReportsConsent (open_account_page (Some acc) None (pg_auth p2))"
    using acc(2) by (simp add: open_account_page_def)
  have fresh: "\<not> hasConsent (au_store (run_revalidation (Fulfilled fresh) (Rejected None) (pg_auth p2)))"
    if "ac_error_reports_consent fresh = Some (ad_consent (sv_doc srv'))"
    using that by (simp add: run_revalidation_def revalidateAccountAndProfiles_def isAuthExpiryError_def hasConsent_def
        setAccount_def r(2) truthy_bool_def)
  have send: "beforeSend (hasConsent (au_store (pg_auth p2))) e = Some (Some e')" if "scrubErrorEvent e = Some e'" for e e'
    using assms(1) that by (simp add: p2(2) beforeSend_def)
  show ?thesis
    using assms(1) p2 send load page fresh by (auto simp: r(2) tracesSampler_def store_changed_def)
qed

definition consenting_page :: account_page where
  "consenting_page =
     (let acc = account_view 0 (plain_doc\<lparr>ad_consent := True\<rparr>)
      in open_account_page (Some acc) None
           (signed_in (setAccount (Some acc) (setProfiles [plain_profile ''p1'' ''Home''] initial_store))))"

lemma consenting_page_facts:
  "hasConsent (au_store (pg_auth consenting_page))" "app_profiles (au_store (pg_auth consenting_page)) \<noteq> []"
  "pg_updatingConsent consenting_page = False" "pg_errorReportsConsent consenting_page"
  by (simp_all add: consenting_page_def open_account_page_def signed_in_def hasConsent_def account_view_def
      setAccount_def setProfiles_def Let_def truthy_bool_def)

lemma consenting_click:
  "consent_clicked val consenting_page = (consenting_page\<lparr>pg_updatingConsent := True\<rparr>, Some (consent_request (val = ''enable'')))"
  by (simp add: consent_clicked_def consenting_page_facts)

theorem consent_switch_saved_witness:
  "let srv = server_of (plain_doc\<lparr>ad_consent := True\<rparr>);
       (answer, srv') = updateAccount plain_env (consent_request False) [] srv
   in answer = Inr 204 \<and> \<not> ad_consent (sv_doc srv') \<and>
      pg_errorReportsConsent (consent_done False (Inl rate_limited) (consenting_page\<lparr>pg_updatingConsent := True\<rparr>))"
proof -
  let ?srv = "server_of (plain_doc\<lparr>ad_consent := True\<rparr>)"
  have c: "consent_clicked ''disable'' consenting_page = (consenting_page\<lparr>pg_updatingConsent := True\<rparr>, Some (consent_request False))"
    by (simp add: consenting_click)
  obtain answer srv' where r: "updateAccount plain_env (consent_request False) [] ?srv = (answer, srv')" by fastforce
  from consent_switch_saved [OF c r, of rate_limited] have
    f: "answer = Inr 204" "sv_doc srv' = (sv_doc ?srv)\<lparr>ad_consent := False\<rparr>"
      "pg_errorReportsConsent (consent_done False (Inl rate_limited) (consenting_page\<lparr>pg_updatingConsent := True\<rparr>)) =
         pg_errorReportsConsent consenting_page" by simp_all
  show ?thesis unfolding Let_def r prod.case f(3) using f(1) consenting_page_facts(4) by (simp add: f(2))
qed

theorem withdrawn_consent_keeps_reporting_witness:
  "let (answer, srv') = updateAccount plain_env (consent_request False) [] (server_of (plain_doc\<lparr>ad_consent := True\<rparr>));
       p2 = consent_done False answer (consenting_page\<lparr>pg_updatingConsent := True\<rparr>);
       e = \<lparr>err_url = None, err_breadcrumbs = None, err_rest = []\<rparr>
   in \<not> ad_consent (sv_doc srv') \<and> \<not> pg_errorReportsConsent p2 \<and>
      beforeSend (hasConsent (au_store (pg_auth p2))) e = Some (Some e)"
proof -
  let ?e = "\<lparr>err_url = None, err_breadcrumbs = None, err_rest = []\<rparr> :: error_event"
  have c: "consent_clicked ''disable'' consenting_page = (consenting_page\<lparr>pg_updatingConsent := True\<rparr>, Some (consent_request False))"
    by (simp add: consenting_click)
  obtain answer srv' where
    r: "updateAccount plain_env (consent_request False) [] (server_of (plain_doc\<lparr>ad_consent := True\<rparr>)) = (answer, srv')" by fastforce
  have e: "scrubErrorEvent ?e = Some ?e" by (simp add: scrubErrorEvent_def opt_try_def)
  from withdrawn_consent_keeps_reporting [OF consenting_page_facts(1,2) c r] e show ?thesis
    unfolding Let_def r prod.case by blast
qed

subsection \<open>Passkeys\<close>

record passkey_settings =
  pk_loading :: bool
  pk_registering :: bool
  pk_deletingId :: "string option"
  pk_supported :: bool
  pk_addDialogOpen :: bool
  pk_deleteDialogOpen :: bool
  pk_passkeyToDelete :: "(string \<times> string) option"
  pk_auth :: auth

definition pk_toast :: "toast_level \<Rightarrow> string \<Rightarrow> passkey_settings \<Rightarrow> passkey_settings" where
  "pk_toast l m k = k\<lparr>pk_auth := add_toast l m (pk_auth k)\<rparr>"

definition pk_hasPassword :: "passkey_settings \<Rightarrow> bool" where
  "pk_hasPassword k = passwordAvailable (app_account (au_store (pk_auth k)))"

definition isOnlySignInMethod :: "passkey_settings \<Rightarrow> bool" where
  "isOnlySignInMethod k = (\<not> pk_hasPassword k \<and> length (app_passkeys (au_store (pk_auth k))) \<le> 1)"

definition pk_setPasskeys :: "ModelCredential list \<Rightarrow> passkey_settings \<Rightarrow> passkey_settings" where
  "pk_setPasskeys ps k = k\<lparr>pk_auth := (pk_auth k)\<lparr>au_store := setPasskeys ps (au_store (pk_auth k))\<rparr>\<rparr>"

text \<open>The list read again: a missing list is empty, and so is the list after an error.\<close>

definition loadPasskeys :: "thrown + ModelCredential list option \<Rightarrow> passkey_settings \<Rightarrow> passkey_settings" where
  "loadPasskeys answer k =
     (case answer of
        Inr ps \<Rightarrow> pk_setPasskeys (nullish ps []) k
      | Inl _ \<Rightarrow> pk_setPasskeys [] (pk_toast TError ''Failed to load passkeys'' k))\<lparr>pk_loading := False\<rparr>"

definition handleAddPasskey ::
  "string + unit \<Rightarrow> thrown + ModelCredential list option \<Rightarrow> passkey_settings \<Rightarrow> passkey_settings" where
  "handleAddPasskey added reloaded k =
     (case added of
        Inr _ \<Rightarrow> loadPasskeys reloaded (pk_toast TSuccess ''Passkey added successfully.'' (k\<lparr>pk_addDialogOpen := False\<rparr>))
      | Inl msg \<Rightarrow> pk_toast TError (if msg = [] then ''Failed to add passkey'' else msg) k)\<lparr>pk_registering := False\<rparr>"

definition handleDeletePasskey :: "string \<Rightarrow> string option \<Rightarrow> passkey_settings \<Rightarrow> passkey_settings" where
  "handleDeletePasskey i name k = k\<lparr>pk_deleteDialogOpen := True, pk_passkeyToDelete := Some (i, or_str name i)\<rparr>"

definition delete_enabled :: "ModelCredential \<Rightarrow> passkey_settings \<Rightarrow> bool" where
  "delete_enabled c k =
     (\<not> (pk_deletingId k = cd_id c \<or> \<not> truthy_str (cd_id c) \<or> isOnlySignInMethod k))"

text \<open>The start of a deletion gives the passkey to delete; its end closes the dialog.\<close>

definition confirmDeletePasskey :: "passkey_settings \<Rightarrow> passkey_settings \<times> string option" where
  "confirmDeletePasskey k =
     (case pk_passkeyToDelete k of None \<Rightarrow> (k, None) | Some (i, _) \<Rightarrow> (k\<lparr>pk_deletingId := Some i\<rparr>, Some i))"

definition deletePasskey_done ::
  "thrown + nat \<Rightarrow> thrown + ModelCredential list option \<Rightarrow> passkey_settings \<Rightarrow> passkey_settings" where
  "deletePasskey_done answer reloaded k =
     (case answer of
        Inr _ \<Rightarrow> loadPasskeys reloaded (pk_toast TSuccess ''Passkey deleted successfully'' k)
      | Inl err \<Rightarrow> pk_toast TError (or_str (thrown_error err) ''Failed to delete passkey'') k)
     \<lparr>pk_deletingId := None, pk_deleteDialogOpen := False, pk_passkeyToDelete := None\<rparr>"

text \<open>
  The API: the credentials of the account with their ids. A request first looks for the credential, then
  counts, then checks the proof of the user, \<open>proof\<close>, and then deletes.
\<close>

definition ensureAnotherSignInMethod :: "account_doc \<Rightarrow> string list \<Rightarrow> bool" where
  "ensureAnotherSignInMethod doc creds = (1 < length creds \<or> ad_password doc \<noteq> None)"

definition LAST_SIGN_IN :: string where
  "LAST_SIGN_IN = ''This passkey is your only way to sign in. Set a password or add another passkey before deleting it.''"

definition DeletePasskeyByID ::
  "string \<Rightarrow> thrown option \<Rightarrow> account_doc \<Rightarrow> string list \<Rightarrow> (thrown + nat) \<times> string list" where
  "DeletePasskeyByID i proof doc creds =
     (if i \<notin> set creds then (Inl (api_error 500 ''Failed to delete passkey''), creds)
      else if \<not> ensureAnotherSignInMethod doc creds then (Inl (api_error 400 LAST_SIGN_IN), creds)
      else case proof of Some e \<Rightarrow> (Inl e, creds) | None \<Rightarrow> (Inr 204, filter (\<lambda>c. c \<noteq> i) creds))"

definition credential_view :: "string \<Rightarrow> ModelCredential" where
  "credential_view i = \<lparr>cd_created_at = None, cd_id = Some i\<rparr>"

definition can_sign_in :: "account_doc \<Rightarrow> string list \<Rightarrow> bool" where
  "can_sign_in doc creds = (ad_password doc \<noteq> None \<or> creds \<noteq> [])"

lemma remove_keeps_sign_in:
  assumes "can_sign_in doc creds" "distinct creds" "ensureAnotherSignInMethod doc creds"
  shows "can_sign_in doc (filter (\<lambda>c. c \<noteq> i) creds)"
proof (cases "ad_password doc = None")
  case True
  with assms obtain a b rest where "creds = a # b # rest" "a \<noteq> b"
    by (cases creds; cases "tl creds") (auto simp: ensureAnotherSignInMethod_def)
  then show ?thesis by (auto simp: can_sign_in_def filter_empty_conv)
qed (simp add: can_sign_in_def)

text \<open>
  Property C34 (only_passkey_guarded). With an up-to-date store, the delete button of a passkey is enabled
  exactly when the API would not refuse its deletion as the last way to sign in. Whatever the answer, the
  account keeps a way to sign in, the dialog is closed, and after a success the list shown is the stored one.
\<close>

theorem only_passkey_guarded:
  fixes k :: passkey_settings and doc :: account_doc and creds creds' :: "string list"
  assumes "app_account (au_store (pk_auth k)) = Some (account_view (length creds) doc)"
    and "app_passkeys (au_store (pk_auth k)) = map credential_view creds"
    and "can_sign_in doc creds" "distinct creds" "i \<in> set creds" "i \<noteq> []" "pk_deletingId k = None"
    and "DeletePasskeyByID i proof doc creds = (answer, creds')"
  defines "k' \<equiv> deletePasskey_done answer (Inr (Some (map credential_view creds'))) k"
  shows "(delete_enabled (credential_view i) k \<longleftrightarrow> fst (DeletePasskeyByID i None doc creds) = Inr 204) \<and>
         can_sign_in doc creds' \<and> \<not> pk_deleteDialogOpen k' \<and> pk_passkeyToDelete k' = None \<and>
         app_passkeys (au_store (pk_auth k')) = map credential_view creds'"
proof -
  have "0 < length creds" using assms(5) by (cases creds) auto
  then have pw: "pk_hasPassword k = (ad_password doc \<noteq> None)"
    unfolding pk_hasPassword_def assms(1) by (rule view_password [OF disjI1])
  have only: "isOnlySignInMethod k = (\<not> ensureAnotherSignInMethod doc creds)"
    by (auto simp: isOnlySignInMethod_def pw assms(2) ensureAnotherSignInMethod_def)
  have en: "delete_enabled (credential_view i) k = ensureAnotherSignInMethod doc creds"
    using assms(6,7) by (simp add: delete_enabled_def credential_view_def only)
  have api: "(fst (DeletePasskeyByID i None doc creds) = Inr 204) = ensureAnotherSignInMethod doc creds"
    using assms(5) by (simp add: DeletePasskeyByID_def)
  have out: "creds' = (if answer = Inr 204 then filter (\<lambda>c. c \<noteq> i) creds else creds)"
    "answer = Inr 204 \<Longrightarrow> ensureAnotherSignInMethod doc creds" "answer \<noteq> Inr 204 \<Longrightarrow> \<exists>e. answer = Inl e"
    using assms(8) by (auto simp: DeletePasskeyByID_def split: if_splits option.splits)
  have keep: "can_sign_in doc creds'" using out remove_keeps_sign_in [OF assms(3,4)] assms(3) by auto
  have list: "app_passkeys (au_store (pk_auth k')) = map credential_view creds'"
  proof (cases "answer = Inr 204")
    case True
    then show ?thesis by (simp add: k'_def deletePasskey_done_def loadPasskeys_def pk_setPasskeys_def setPasskeys_def)
  next
    case False
    with out obtain e where e: "answer = Inl e" by blast
    with out(1) show ?thesis by (simp add: k'_def deletePasskey_done_def pk_toast_def assms(2))
  qed
  show ?thesis using en api keep list by (simp add: k'_def deletePasskey_done_def)
qed

theorem only_passkey_guarded_witness:
  "let doc = plain_doc\<lparr>ad_password := None\<rparr>;
       k = \<lparr>pk_loading = False, pk_registering = False, pk_deletingId = None, pk_supported = True, pk_addDialogOpen = False,
            pk_deleteDialogOpen = True, pk_passkeyToDelete = Some (''a'', ''a''),
            pk_auth = signed_in (setPasskeys [credential_view ''a''] (setAccount (Some (account_view 1 doc)) initial_store))\<rparr>
   in \<not> delete_enabled (credential_view ''a'') k \<and> fst (DeletePasskeyByID ''a'' None doc [''a'']) \<noteq> Inr 204"
proof -
  let ?doc = "plain_doc\<lparr>ad_password := None\<rparr>"
  let ?k = "\<lparr>pk_loading = False, pk_registering = False, pk_deletingId = None, pk_supported = True, pk_addDialogOpen = False,
            pk_deleteDialogOpen = True, pk_passkeyToDelete = Some (''a'', ''a''),
            pk_auth = signed_in (setPasskeys [credential_view ''a''] (setAccount (Some (account_view 1 ?doc)) initial_store))\<rparr>"
  have a: "app_account (au_store (pk_auth ?k)) = Some (account_view (length [''a'']) ?doc)"
    "app_passkeys (au_store (pk_auth ?k)) = map credential_view [''a'']"
    "can_sign_in ?doc [''a'']" "distinct [''a'']" "''a'' \<in> set [''a'']" "''a'' \<noteq> []" "pk_deletingId ?k = None"
    by (simp_all add: signed_in_def setPasskeys_def setAccount_def can_sign_in_def)
  have r: "DeletePasskeyByID ''a'' None ?doc [''a''] = (Inl (api_error 400 LAST_SIGN_IN), [''a''])"
    by (simp add: DeletePasskeyByID_def ensureAnotherSignInMethod_def)
  from only_passkey_guarded [OF a r] show ?thesis unfolding Let_def r by simp
qed

text \<open>Two requests at once: the check and the deletion of each are steps; \<open>snd\<close> are the requests that passed the check.\<close>

datatype removal = CheckRemoval string | DoRemoval string

fun removal_step :: "account_doc \<Rightarrow> string list \<times> string list \<Rightarrow> removal \<Rightarrow> string list \<times> string list" where
  "removal_step doc (creds, passed) (CheckRemoval i) =
     (creds, if i \<in> set creds \<and> ensureAnotherSignInMethod doc creds then i # passed else passed)"
| "removal_step doc (creds, passed) (DoRemoval i) =
     (if i \<in> set passed then filter (\<lambda>c. c \<noteq> i) creds else creds, removeAll i passed)"

definition removals :: "account_doc \<Rightarrow> removal list \<Rightarrow> string list \<Rightarrow> string list" where
  "removals doc es creds = fst (fold (\<lambda>e s. removal_step doc s e) es (creds, []))"

text \<open>
  Fact (concurrent_removals_lock_out). Requests served one after the other never remove the last way to sign
  in, but the check is not tied to the deletion: on an account without a password, two requests for its two
  passkeys that are both checked before either deletes remove both, and nobody can sign in any more.
\<close>

theorem concurrent_removals_lock_out:
  "(can_sign_in doc creds \<longrightarrow> distinct creds \<longrightarrow>
      can_sign_in doc (removals doc (concat (map (\<lambda>i. [CheckRemoval i, DoRemoval i]) is)) creds)) \<and>
   (ad_password doc = None \<longrightarrow> a \<noteq> b \<longrightarrow>
      \<not> can_sign_in doc (removals doc [CheckRemoval a, CheckRemoval b, DoRemoval a, DoRemoval b] [a, b]))"
proof
  show "can_sign_in doc creds \<longrightarrow> distinct creds \<longrightarrow>
      can_sign_in doc (removals doc (concat (map (\<lambda>i. [CheckRemoval i, DoRemoval i]) is)) creds)"
  proof (induction "is" arbitrary: creds)
    case Nil
    show ?case by (simp add: removals_def)
  next
    case (Cons i "is")
    let ?c = "if i \<in> set creds \<and> ensureAnotherSignInMethod doc creds then filter (\<lambda>c. c \<noteq> i) creds else creds"
    have "removals doc (concat (map (\<lambda>i. [CheckRemoval i, DoRemoval i]) (i # is))) creds =
        removals doc (concat (map (\<lambda>i. [CheckRemoval i, DoRemoval i]) is)) ?c"
      by (auto simp: removals_def)
    moreover have "can_sign_in doc creds \<Longrightarrow> distinct creds \<Longrightarrow> can_sign_in doc ?c \<and> distinct ?c"
      using remove_keeps_sign_in by auto
    ultimately show ?case using Cons.IH [of ?c] by (simp only:) blast
  qed
  show "ad_password doc = None \<longrightarrow> a \<noteq> b \<longrightarrow>
      \<not> can_sign_in doc (removals doc [CheckRemoval a, CheckRemoval b, DoRemoval a, DoRemoval b] [a, b])"
    by (auto simp: removals_def can_sign_in_def ensureAnotherSignInMethod_def)
qed

theorem concurrent_removals_lock_out_witness:
  "\<not> can_sign_in (plain_doc\<lparr>ad_password := None\<rparr>)
       (removals (plain_doc\<lparr>ad_password := None\<rparr>)
          [CheckRemoval ''a'', CheckRemoval ''b'', DoRemoval ''a'', DoRemoval ''b''] [''a'', ''b''])"
  using concurrent_removals_lock_out [of "plain_doc\<lparr>ad_password := None\<rparr>" "[]" "[]" "''a''" "''b''"] by simp

end
