(* ===== verification/TwoFactor.thy ===== *)
theory TwoFactor
  imports AccountPage
begin

text \<open>
  The dialogs of the account page around codes: app/src/pages/account_preferences/Enable2FA.tsx,
  Disable2FA.tsx and VerifyEmailDialog.tsx, with the handlers of the API they call (api/api/totp.go,
  api/api/verify_email_otp.go).

  The dialogs hold the page they belong to, so whether one is open is a field of that page. An effect of
  opening or closing is part of the step; a timer is a step of its own.
\<close>

subsection \<open>The handlers\<close>

text \<open>The tags of the request, and the text of the validator for another one.\<close>

definition totp_req_valid :: "string \<Rightarrow> bool" where
  "totp_req_valid otp = (6 \<le> length otp \<and> length otp \<le> 8)"

definition totp_problem :: "string \<Rightarrow> string" where
  "totp_problem text = ''Validation error: '' @ text"

definition api_confirm2FA ::
  "account_env \<Rightarrow> string \<Rightarrow> string list \<Rightarrow> string \<Rightarrow> account_server \<Rightarrow> (thrown + string list) \<times> account_server" where
  "api_confirm2FA env problems codes otp srv =
     (if \<not> totp_req_valid otp then (Inl (api_error 400 (totp_problem problems)), srv)
      else (case TotpConfirm env codes otp srv of
              (Inl e, srv') \<Rightarrow> (Inl (account_answer ''failed to confirm 2FA'' e), srv')
            | (Inr cs, srv') \<Rightarrow> (Inr cs, srv')))"

definition api_disable2FA ::
  "account_env \<Rightarrow> string \<Rightarrow> string \<Rightarrow> account_server \<Rightarrow> (thrown + account_doc) \<times> account_server" where
  "api_disable2FA env problems otp srv =
     (if \<not> totp_req_valid otp then (Inl (api_error 400 (totp_problem problems)), srv)
      else (case TotpDisable env otp srv of
              (Inl e, srv') \<Rightarrow> (Inl (account_answer ''failed to disable 2FA'' e), srv')
            | (Inr acc, srv') \<Rightarrow> (Inr acc, srv')))"

definition api_requestOTP ::
  "account_env \<Rightarrow> string \<Rightarrow> bool \<Rightarrow> account_server \<Rightarrow> (thrown + nat) \<times> account_server" where
  "api_requestOTP env code mail_ok srv =
     (case RequestEmailVerificationOTP env code mail_ok srv of
        (Some e, srv') \<Rightarrow> (Inl (account_answer ''failed to request email verification otp'' e), srv')
      | (None, srv') \<Rightarrow> (Inr 204, srv'))"

definition api_verifyOTP :: "account_env \<Rightarrow> string \<Rightarrow> account_server \<Rightarrow> (thrown + nat) \<times> account_server" where
  "api_verifyOTP env otp srv =
     (if length otp \<noteq> 6 then (Inl (api_error 400 ''invalid request''), srv)
      else (case VerifyEmailOTP env otp srv of
              (Some e, srv') \<Rightarrow> (Inl (account_answer ''failed to verify email otp'' e), srv')
            | (None, srv') \<Rightarrow> (Inr 204, srv')))"

text \<open>The field of the body these dialogs read.\<close>

definition thrown_detail :: "thrown \<Rightarrow> string option" where
  "thrown_detail e = (case e of ThrownObject err \<Rightarrow> Option.bind (ae_data err) ed_detail | _ \<Rightarrow> None)"

subsection \<open>Turning the second factor on\<close>

record enable_dialog =
  en_copied :: bool
  en_loading :: bool
  en_secret :: string
  en_uri :: string
  en_otp :: string
  en_backupCodes :: "string list option"
  en_enabling :: bool
  en_visible :: bool
  en_confirmed :: bool
  en_page :: account_page

definition en_open :: "enable_dialog \<Rightarrow> bool" where
  "en_open d = pg_showEnable2FA (en_page d)"

definition en_toast :: "toast_level \<Rightarrow> string \<Rightarrow> enable_dialog \<Rightarrow> enable_dialog" where
  "en_toast l m d = d\<lparr>en_page := pg_toast l m (en_page d)\<rparr>"

text \<open>The effect of a change of \<open>open\<close>; opening asks the API for a secret.\<close>

definition en_effect :: "enable_dialog \<Rightarrow> enable_dialog" where
  "en_effect d =
     (if en_open d
      then d\<lparr>en_loading := True, en_otp := [], en_backupCodes := None, en_visible := True, en_confirmed := False\<rparr>
      else d\<lparr>en_otp := []\<rparr>)"

definition en_setOpen :: "bool \<Rightarrow> enable_dialog \<Rightarrow> enable_dialog" where
  "en_setOpen is_open d =
     (if is_open = en_open d then d else en_effect (d\<lparr>en_page := (en_page d)\<lparr>pg_showEnable2FA := is_open\<rparr>\<rparr>))"

definition en_toggle :: "enable_dialog \<Rightarrow> enable_dialog" where
  "en_toggle d =
     (let d1 = d\<lparr>en_page := toggle_2fa ''enable'' (en_page d)\<rparr> in if en_open d1 = en_open d then d1 else en_effect d1)"

definition en_faded :: "enable_dialog \<Rightarrow> enable_dialog" where
  "en_faded d = (if en_open d then d else d\<lparr>en_visible := False\<rparr>)"

definition en_setup :: "thrown + (string option \<times> string option) \<Rightarrow> enable_dialog \<Rightarrow> enable_dialog" where
  "en_setup answer d =
     (case answer of
        Inr (secret, uri) \<Rightarrow> d\<lparr>en_secret := or_str secret [], en_uri := or_str uri []\<rparr>
      | Inl _ \<Rightarrow> en_setOpen False (en_toast TError ''Failed to fetch 2FA setup data.'' d))\<lparr>en_loading := False\<rparr>"

definition en_handleCopy :: "bool \<Rightarrow> enable_dialog \<Rightarrow> enable_dialog" where
  "en_handleCopy ok d =
     (if ok then en_toast TSuccess ''Secret copied to clipboard'' (d\<lparr>en_copied := True\<rparr>) else en_toast TError ''Failed to copy'' d)"

definition en_can_submit :: "enable_dialog \<Rightarrow> bool" where
  "en_can_submit d = (\<not> en_loading d \<and> en_secret d \<noteq> [] \<and> en_otp d \<noteq> [] \<and> \<not> en_enabling d)"

definition handleEnable2FA :: "enable_dialog \<Rightarrow> enable_dialog \<times> string option" where
  "handleEnable2FA d = (if en_can_submit d then (d\<lparr>en_enabling := True\<rparr>, Some (en_otp d)) else (d, None))"

definition enable_answered :: "thrown + string list \<Rightarrow> enable_dialog \<Rightarrow> enable_dialog" where
  "enable_answered answer d =
     (case answer of
        Inr codes \<Rightarrow> en_toast TSuccess ''2FA enabled successfully.'' (d\<lparr>en_otp := [], en_backupCodes := Some codes\<rparr>)
      | Inl err \<Rightarrow> en_toast TError (or_str (thrown_detail err) ''Failed to enable 2FA.'') d)\<lparr>en_enabling := False\<rparr>"

text \<open>A request of the dialog to close itself, by its cross, the escape key or a click outside.\<close>

definition en_dismiss :: "enable_dialog \<Rightarrow> enable_dialog" where
  "en_dismiss d = (if en_backupCodes d \<noteq> None \<and> \<not> en_confirmed d then d else en_setOpen False d)"

definition en_cancel :: "enable_dialog \<Rightarrow> enable_dialog" where
  "en_cancel d = (if en_enabling d \<or> en_backupCodes d \<noteq> None then d else en_setOpen False d)"

text \<open>The store is refreshed first, then the page reads the account once more.\<close>

definition handleBackupCodesConfirmed :: "thrown + ModelAccount \<Rightarrow> thrown + ModelAccount \<Rightarrow> enable_dialog \<Rightarrow> enable_dialog" where
  "handleBackupCodesConfirmed refreshed fetched d =
     (let d1 = d\<lparr>en_confirmed := True\<rparr>;
          d2 = (case refreshed of
                  Inr acc \<Rightarrow> d1\<lparr>en_page := (en_page d1)\<lparr>pg_auth := (pg_auth (en_page d1))
                               \<lparr>au_store := setAccount (Some acc) (au_store (pg_auth (en_page d1)))\<rparr>\<rparr>\<rparr>
                | Inl _ \<Rightarrow> d1);
          d3 = en_setOpen False d2
      in d3\<lparr>en_page := handle2FAChanged True fetched (en_page d3)\<rparr>)"

definition codes_shown :: "enable_dialog \<Rightarrow> string list option" where
  "codes_shown d = (if en_open d \<and> en_visible d then en_backupCodes d else None)"

lemma detail_api [simp]: "thrown_detail (api_error n m) = None"
  by (simp add: thrown_detail_def api_error_def)

lemma detail_answer [simp]: "thrown_detail (account_answer fallback e) = None"
  by (cases e) simp_all

lemma en_setOpen_simps [simp]:
  "en_open (en_setOpen b d) = b" "en_backupCodes (en_setOpen False d) = en_backupCodes d"
  "pg_is2FAEnabled (en_page (en_setOpen b d)) = pg_is2FAEnabled (en_page d)"
  "pg_auth (en_page (en_setOpen b d)) = pg_auth (en_page d)"
  by (simp_all add: en_setOpen_def en_open_def en_effect_def)

lemma en_toast_simps [simp]:
  "en_open (en_toast l m d) = en_open d" "en_backupCodes (en_toast l m d) = en_backupCodes d"
  "pg_is2FAEnabled (en_page (en_toast l m d)) = pg_is2FAEnabled (en_page d)" "en_visible (en_toast l m d) = en_visible d"
  "en_confirmed (en_toast l m d) = en_confirmed d"
  by (simp_all add: en_toast_def en_open_def pg_toast_def)

lemma submitted:
  assumes "handleEnable2FA d = (d1, Some otp)"
  shows "d1 = d\<lparr>en_enabling := True\<rparr>" "otp = en_otp d" "en_can_submit d"
  using assms by (auto simp: handleEnable2FA_def split: if_splits)

text \<open>
  Property C35 (second_factor_enabled_end_to_end). On an open dialog whose secret is the one the API waits
  for, with the second factor off and a typed code that belongs to the secret: when nothing else happens to
  the dialog until the answer, the account has that secret as its second factor, the dialog shows exactly
  the backup codes the API stored and cannot be closed before they are confirmed; and when both reads of the
  account that follow the confirmation succeed, dialog, page and store agree that the second factor is on.
  The conditions are needed: the facts below show a dialog closed while the confirmation runs, and one
  opened again, whose secret the API no longer waits for.
\<close>

theorem second_factor_enabled_end_to_end:
  fixes d d1 d2 d3 :: enable_dialog and env :: account_env and srv srv' :: account_server and n :: nat
    and answer :: "thrown + string list"
  assumes "en_open d" "en_visible d" "\<not> en_confirmed d" and "handleEnable2FA d = (d1, Some otp)"
    and "sv_setup srv = Some (en_secret d)" "\<not> ad_totp (sv_doc srv)" and "totp_req_valid otp" "av_totp_valid env otp (en_secret d)"
    and "api_confirm2FA env problems codes otp srv = (answer, srv')"
  defines "d2 \<equiv> enable_answered answer d1"
    and "d3 \<equiv> handleBackupCodesConfirmed (Inr (account_view n (sv_doc srv'))) (Inr (account_view n (sv_doc srv'))) (enable_answered answer d1)"
  shows "ad_totp (sv_doc srv') \<and> ad_secret (sv_doc srv') = en_secret d \<and>
         codes_shown d2 = Some (ad_backup (sv_doc srv')) \<and> en_dismiss d2 = d2 \<and> en_cancel d2 = d2 \<and>
         \<not> en_open d3 \<and> pg_is2FAEnabled (en_page d3) = Some True \<and>
         app_account (au_store (pg_auth (en_page d3))) = Some (account_view n (sv_doc srv'))"
proof -
  note s = submitted [OF assms(4)]
  let ?doc = "(sv_doc srv)\<lparr>ad_totp := True, ad_secret := en_secret d, ad_backup := ad_backup (sv_doc srv) @ codes\<rparr>"
  have r: "answer = Inr (ad_backup ?doc)" "sv_doc srv' = ?doc"
    using assms(5-9) by (auto simp: api_confirm2FA_def TotpConfirm_def Let_def split: if_splits)
  have d2: "en_open d2" "en_visible d2" "en_backupCodes d2 = Some (ad_backup ?doc)" "\<not> en_confirmed d2"
    unfolding d2_def r(1) using assms(1-3)
    by (simp_all add: enable_answered_def en_toast_def s(1) en_open_def pg_toast_def)
  have view: "ac_totp_enabled (account_view n ?doc) = Some True" by (simp add: account_view_def)
  have d3: "\<not> en_open d3" "pg_is2FAEnabled (en_page d3) = Some True"
    "app_account (au_store (pg_auth (en_page d3))) = Some (account_view n ?doc)"
    unfolding d3_def r(2)
    by (simp_all add: handleBackupCodesConfirmed_def Let_def handle2FAChanged_def account_refreshed_def en_open_def view setAccount_def)
  show ?thesis using d2 d3 by (simp add: r(2) codes_shown_def en_dismiss_def en_cancel_def)
qed

definition sample_page :: "account_doc \<Rightarrow> account_page" where
  "sample_page doc =
     (let acc = account_view 0 doc in open_account_page (Some acc) None (signed_in (setAccount (Some acc) initial_store)))"

lemma sample_page_simps [simp]:
  "pg_showEnable2FA (sample_page doc) = False" "pg_showDisable2FA (sample_page doc) = False"
  "pg_showVerifyEmail (sample_page doc) = False" "pg_is2FAEnabled (sample_page doc) = Some (ad_totp doc)"
  by (simp_all add: sample_page_def open_account_page_def Let_def account_view_def)

definition sample_enable :: enable_dialog where
  "sample_enable =
     \<lparr>en_copied = False, en_loading = False, en_secret = ''abcde'', en_uri = [], en_otp = ''abcde1'', en_backupCodes = None,
      en_enabling = False, en_visible = True, en_confirmed = False, en_page = (sample_page plain_doc)\<lparr>pg_showEnable2FA := True\<rparr>\<rparr>"

lemma sample_enable_facts:
  "en_open sample_enable" "en_visible sample_enable" "\<not> en_confirmed sample_enable" "en_backupCodes sample_enable = None"
  "handleEnable2FA sample_enable = (sample_enable\<lparr>en_enabling := True\<rparr>, Some ''abcde1'')"
  "\<not> truthy_bool (pg_is2FAEnabled (en_page sample_enable))" "en_secret sample_enable = ''abcde''"
  by (simp_all add: sample_enable_def en_open_def handleEnable2FA_def en_can_submit_def plain_doc_def truthy_bool_def)

definition setup_server :: account_server where
  "setup_server = (server_of plain_doc)\<lparr>sv_setup := Some ''abcde''\<rparr>"

lemma setup_server_facts:
  "sv_setup setup_server = Some ''abcde''" "\<not> ad_totp (sv_doc setup_server)" "totp_req_valid ''abcde1''"
  "av_totp_valid plain_env ''abcde1'' ''abcde''"
  by (simp_all add: setup_server_def server_of_def plain_doc_def totp_req_valid_def plain_env_def)

lemma setup_confirmed: "\<exists>srv'. api_confirm2FA plain_env [] [''c''] ''abcde1'' setup_server = (Inr [''c''], srv')"
  using setup_server_facts by (simp add: api_confirm2FA_def TotpConfirm_def Let_def)
    (simp add: setup_server_def server_of_def plain_doc_def)

theorem second_factor_enabled_end_to_end_witness:
  "let (answer, srv') = api_confirm2FA plain_env [] [''c''] ''abcde1'' setup_server;
       d2 = enable_answered answer (sample_enable\<lparr>en_enabling := True\<rparr>)
   in ad_totp (sv_doc srv') \<and> codes_shown d2 = Some (ad_backup (sv_doc srv')) \<and> en_dismiss d2 = d2"
proof -
  note f = sample_enable_facts and s = setup_server_facts
  obtain answer srv' where r: "api_confirm2FA plain_env [] [''c''] ''abcde1'' setup_server = (answer, srv')" by fastforce
  have "sv_setup setup_server = Some (en_secret sample_enable)" "av_totp_valid plain_env ''abcde1'' (en_secret sample_enable)"
    by (simp_all add: s f(7))
  from second_factor_enabled_end_to_end [OF f(1-3,5) this(1) s(2,3) this(2) r]
  show ?thesis unfolding Let_def r prod.case by blast
qed

text \<open>
  Fact (closed_confirmation_loses_codes). When the dialog is closed by its cross while the confirmation is on
  its way and the API accepts it, the second factor is on, but the backup codes are never shown: the page
  still says it is off, opening the dialog again drops the codes, and no later confirmation gives any.
\<close>

theorem closed_confirmation_loses_codes:
  fixes d d1 d3 d4 :: enable_dialog and env :: account_env and srv srv' :: account_server
  assumes "en_backupCodes d = None" and "handleEnable2FA d = (d1, Some otp)"
    and "\<not> truthy_bool (pg_is2FAEnabled (en_page d))"
    and "api_confirm2FA env problems codes otp srv = (Inr given, srv')"
  defines "d3 \<equiv> enable_answered (Inr given) (en_dismiss d1)" and "d4 \<equiv> en_toggle (enable_answered (Inr given) (en_dismiss d1))"
  shows "ad_totp (sv_doc srv') \<and> ad_backup (sv_doc srv') = given \<and>
         codes_shown d3 = None \<and> \<not> truthy_bool (pg_is2FAEnabled (en_page d3)) \<and>
         en_open d4 \<and> en_backupCodes d4 = None \<and>
         (\<forall>env' problems' codes' otp' awaited. \<exists>e.
            fst (api_confirm2FA env' problems' codes' otp' (srv'\<lparr>sv_setup := awaited\<rparr>)) = Inl e)"
proof -
  note s = submitted [OF assms(2)]
  have r: "ad_totp (sv_doc srv')" "ad_backup (sv_doc srv') = given"
    using assms(4) by (auto simp: api_confirm2FA_def TotpConfirm_def Let_def split: if_splits option.splits)
  have dis: "en_dismiss d1 = en_setOpen False d1" using assms(1) by (simp add: en_dismiss_def s(1))
  have off: "\<not> truthy_bool (pg_is2FAEnabled (en_page d3))" using assms(3) by (simp add: d3_def enable_answered_def dis) (simp add: s(1))
  have closed: "\<not> en_open d3"
    by (simp add: d3_def enable_answered_def dis en_open_def [of "_\<lparr>en_enabling := _\<rparr>"])
      (simp add: en_open_def [symmetric] en_toast_def pg_toast_def)
  let ?p = "toggle_2fa ''enable'' (en_page d3)"
  have p: "pg_showEnable2FA ?p" using off by (simp add: toggle_2fa_def)
  have d4: "d4 = en_effect (d3\<lparr>en_page := ?p\<rparr>)"
    unfolding d4_def d3_def [symmetric] using p closed by (simp add: en_toggle_def en_open_def)
  have "en_open d4 \<and> en_backupCodes d4 = None" unfolding d4 using p by (simp add: en_effect_def en_open_def)
  moreover have "\<exists>e. fst (api_confirm2FA env' problems' codes' otp' (srv'\<lparr>sv_setup := awaited\<rparr>)) = Inl e" for env' problems' codes' otp' awaited
    using r(1) by (simp add: api_confirm2FA_def TotpConfirm_def split: option.split)
  ultimately show ?thesis using r off closed by (simp add: codes_shown_def)
qed

theorem closed_confirmation_loses_codes_witness:
  "let srv' = snd (api_confirm2FA plain_env [] [''c''] ''abcde1'' setup_server);
       d3 = enable_answered (Inr [''c'']) (en_dismiss (sample_enable\<lparr>en_enabling := True\<rparr>))
   in ad_totp (sv_doc srv') \<and> ad_backup (sv_doc srv') = [''c''] \<and> codes_shown d3 = None \<and>
      en_backupCodes (en_toggle d3) = None"
proof -
  note f = sample_enable_facts
  from setup_confirmed obtain srv' where r: "api_confirm2FA plain_env [] [''c''] ''abcde1'' setup_server = (Inr [''c''], srv')" by blast
  from closed_confirmation_loses_codes [OF f(4,5,6) r] show ?thesis unfolding Let_def r snd_conv by blast
qed

text \<open>
  Fact (reopened_dialog_shows_dead_secret). When the dialog is closed and opened again before the first secret
  has arrived, and the answers come in the other order, it shows a secret the API no longer waits for: a code
  of it is refused, and the message does not say why.
\<close>

theorem reopened_dialog_shows_dead_secret:
  fixes d d2 :: enable_dialog and env :: account_env and srv srv2 :: account_server and s1 s2 :: string and u1 u2 :: "string option"
  assumes "s1 \<noteq> []" and "totp_req_valid otp" and "av_totp_valid env otp s1" "\<not> av_totp_valid env otp s2" and "\<not> ad_totp (sv_doc srv)"
  defines "d2 \<equiv> en_setup (Inr (Some s1, u1)) (en_setup (Inr (Some s2, u2)) d)"
    and "srv2 \<equiv> snd (TotpEnable s2 (snd (TotpEnable s1 srv)))"
  shows "en_secret d2 = s1 \<and> \<not> en_loading d2 \<and>
         fst (api_confirm2FA env problems codes otp srv2) = Inl (api_error 401 ''incorrect OTP'') \<and>
         enable_answered (Inl (api_error 401 ''incorrect OTP'')) d2 =
           (en_toast TError ''Failed to enable 2FA.'' d2)\<lparr>en_enabling := False\<rparr>"
  using assms(1-5)
  by (simp add: d2_def srv2_def en_setup_def TotpEnable_def api_confirm2FA_def TotpConfirm_def enable_answered_def)

theorem reopened_dialog_shows_dead_secret_witness:
  "let d2 = en_setup (Inr (Some ''abcde'', None)) (en_setup (Inr (Some ''fghij'', None)) sample_enable);
       srv2 = snd (TotpEnable ''fghij'' (snd (TotpEnable ''abcde'' (server_of plain_doc))))
   in en_secret d2 = ''abcde'' \<and>
      fst (api_confirm2FA plain_env [] [] ''abcde1'' srv2) = Inl (api_error 401 ''incorrect OTP'')"
proof -
  note s = setup_server_facts
  have "''abcde'' \<noteq> ([] :: string)" "\<not> av_totp_valid plain_env ''abcde1'' ''fghij''" "\<not> ad_totp (sv_doc (server_of plain_doc))"
    by (simp_all add: plain_env_def server_of_def plain_doc_def)
  from reopened_dialog_shows_dead_secret [OF this(1) s(3,4) this(2,3)] show ?thesis unfolding Let_def by blast
qed

subsection \<open>Turning the second factor off\<close>

record disable_dialog =
  di_otp :: string
  di_loading :: bool
  di_page :: account_page

definition di_open :: "disable_dialog \<Rightarrow> bool" where
  "di_open d = pg_showDisable2FA (di_page d)"

text \<open>The effect of a change of \<open>open\<close>, and what can be typed: the field takes six characters.\<close>

definition di_setOpen :: "bool \<Rightarrow> disable_dialog \<Rightarrow> disable_dialog" where
  "di_setOpen is_open d =
     (let d1 = d\<lparr>di_page := (di_page d)\<lparr>pg_showDisable2FA := is_open\<rparr>\<rparr> in if is_open then d1\<lparr>di_otp := []\<rparr> else d1)"

definition di_type :: "string \<Rightarrow> disable_dialog \<Rightarrow> disable_dialog" where
  "di_type s d = d\<lparr>di_otp := take 6 s\<rparr>"

definition di_toast :: "toast_level \<Rightarrow> string \<Rightarrow> disable_dialog \<Rightarrow> disable_dialog" where
  "di_toast l m d = d\<lparr>di_page := pg_toast l m (di_page d)\<rparr>"

definition handleDisable2FA :: "disable_dialog \<Rightarrow> disable_dialog \<times> string option" where
  "handleDisable2FA d =
     (if \<not> di_loading d \<and> length (di_otp d) = 6 then (d\<lparr>di_loading := True\<rparr>, Some (di_otp d)) else (d, None))"

text \<open>After a success: the account for the store, then the one the page reads.\<close>

definition disable_answered ::
  "thrown + account_doc \<Rightarrow> thrown + ModelAccount \<Rightarrow> thrown + ModelAccount \<Rightarrow> disable_dialog \<Rightarrow> disable_dialog" where
  "disable_answered answer refreshed fetched d =
     (case answer of
        Inr _ \<Rightarrow>
          let d1 = di_toast TSuccess ''2FA disabled successfully.'' d;
              d2 = (case refreshed of
                      Inr acc \<Rightarrow> d1\<lparr>di_page := (di_page d1)\<lparr>pg_auth := (pg_auth (di_page d1))
                                   \<lparr>au_store := setAccount (Some acc) (au_store (pg_auth (di_page d1)))\<rparr>\<rparr>\<rparr>
                    | Inl _ \<Rightarrow> d1);
              d3 = di_setOpen False d2
          in d3\<lparr>di_page := handle2FAChanged False fetched (di_page d3)\<rparr>
      | Inl err \<Rightarrow> di_toast TError (or_str (thrown_detail err) ''Failed to disable 2FA.'') d)\<lparr>di_loading := False\<rparr>"

text \<open>
  Fact (second_factor_disabled_end_to_end). A submitted code is accepted exactly when it is a valid
  one-time code of the account, as a backup code is too long for the field; then the second factor, its
  secret and the backup codes are gone, and with the account read again, page and store say so. A refused
  code changes nothing of the account, and the dialog stays open with one message, whatever the reason.
\<close>

theorem second_factor_disabled_end_to_end:
  fixes d d1 :: disable_dialog and env :: account_env and srv srv' :: account_server and n :: nat
    and answer :: "thrown + account_doc"
  assumes "handleDisable2FA d = (d1, Some otp)" and "ad_totp (sv_doc srv)"
    and "\<forall>c \<in> set (ad_backup (sv_doc srv)). length c = 16"
    and "api_disable2FA env problems otp srv = (answer, srv')"
  defines "fresh \<equiv> Inr (account_view n (sv_doc srv'))"
  shows "((\<exists>acc. answer = Inr acc) \<longleftrightarrow> av_totp_valid env otp (ad_secret (sv_doc srv))) \<and>
         (\<forall>acc. answer = Inr acc \<longrightarrow>
            sv_doc srv' = (sv_doc srv)\<lparr>ad_totp := False, ad_secret := [], ad_backup := [], ad_backupUsed := []\<rparr> \<and>
            (let p = di_page (disable_answered answer fresh fresh d1)
             in pg_is2FAEnabled p = Some False \<and> \<not> pg_showDisable2FA p \<and>
                app_account (au_store (pg_auth p)) = Some (account_view n (sv_doc srv')))) \<and>
         (\<forall>err. answer = Inl err \<longrightarrow> sv_doc srv' = sv_doc srv \<and>
            disable_answered answer fresh fresh d1 = (di_toast TError ''Failed to disable 2FA.'' d)\<lparr>di_loading := False\<rparr>)"
proof -
  have s: "otp = di_otp d" "length otp = 6" "d1 = d\<lparr>di_loading := True\<rparr>"
    using assms(1) by (auto simp: handleDisable2FA_def split: if_splits)
  have v: "totp_req_valid otp" using s(2) by (simp add: totp_req_valid_def)
  have nb: "otp \<notin> set (ad_backup (sv_doc srv))" using assms(3) s(2) by auto
  have "take_code otp cs = None" if "otp \<notin> set cs" for cs using that by (induction cs) auto
  with nb have bk: "\<exists>m. verifyTotpBackup (sv_doc srv) otp = Inl m" by (simp add: verifyTotpBackup_def)
  show ?thesis
  proof (cases "av_totp_valid env otp (ad_secret (sv_doc srv))")
    case True
    let ?doc = "(sv_doc srv)\<lparr>ad_totp := False, ad_secret := [], ad_backup := [], ad_backupUsed := []\<rparr>"
    have r: "answer = Inr ?doc" "sv_doc srv' = ?doc"
      using assms(2,4) v True by (auto simp: api_disable2FA_def TotpDisable_def VerifyTotp_def Let_def)
    have view: "ac_totp_enabled (account_view n ?doc) = Some False" by (simp add: account_view_def)
    show ?thesis unfolding fresh_def r
      by (simp add: True Let_def disable_answered_def handle2FAChanged_def account_refreshed_def view setAccount_def)
  next
    case False
    from bk obtain m where m: "verifyTotpBackup (sv_doc srv) otp = Inl m" by blast
    obtain msg where r: "answer = Inl (api_error 401 msg)" "sv_doc srv' = sv_doc srv"
      using assms(2,4) v False m by (auto simp: api_disable2FA_def TotpDisable_def VerifyTotp_def Let_def)
    show ?thesis by (simp add: r False disable_answered_def s(3) di_toast_def)
  qed
qed

definition factor_doc :: account_doc where
  "factor_doc = plain_doc\<lparr>ad_totp := True, ad_secret := ''abcde'', ad_backup := [''0123456789abcdef'']\<rparr>"

theorem second_factor_disabled_end_to_end_witness:
  "let d = \<lparr>di_otp = ''abcde1'', di_loading = False, di_page = (sample_page factor_doc)\<lparr>pg_showDisable2FA := True\<rparr>\<rparr>;
       (answer, srv') = api_disable2FA plain_env [] ''abcde1'' (server_of factor_doc)
   in (\<exists>acc. answer = Inr acc) \<and> sv_doc srv' = plain_doc"
proof -
  let ?d = "\<lparr>di_otp = ''abcde1'', di_loading = False, di_page = (sample_page factor_doc)\<lparr>pg_showDisable2FA := True\<rparr>\<rparr>"
  have s: "handleDisable2FA ?d = (?d\<lparr>di_loading := True\<rparr>, Some ''abcde1'')" by (simp add: handleDisable2FA_def)
  have f: "ad_totp (sv_doc (server_of factor_doc))" "\<forall>c \<in> set (ad_backup (sv_doc (server_of factor_doc))). length c = 16"
    "av_totp_valid plain_env ''abcde1'' (ad_secret (sv_doc (server_of factor_doc)))"
    by (simp_all add: server_of_def factor_doc_def plain_env_def)
  obtain answer srv' where r: "api_disable2FA plain_env [] ''abcde1'' (server_of factor_doc) = (answer, srv')" by fastforce
  note out = second_factor_disabled_end_to_end [OF s f(1,2) r]
  from out f(3) have acc: "\<exists>acc. answer = Inr acc" by blast
  with out have "sv_doc srv' = (sv_doc (server_of factor_doc))\<lparr>ad_totp := False, ad_secret := [], ad_backup := [], ad_backupUsed := []\<rparr>"
    by blast
  also have "\<dots> = plain_doc" by (simp add: server_of_def factor_doc_def plain_doc_def)
  finally show ?thesis using acc unfolding Let_def r prod.case by blast
qed

text \<open>
  Fact (backup_code_cannot_disable). The operation of the API takes a backup code for turning the second
  factor off, but the codes have sixteen characters, its request allows eight, and the dialog six: whoever
  has lost the authenticator cannot turn the second factor off with a backup code.
\<close>

theorem backup_code_cannot_disable:
  assumes "ad_totp (sv_doc srv)" and "c \<in> set (ad_backup (sv_doc srv))" "c \<notin> set (ad_backupUsed (sv_doc srv))" and "length c = 16"
  shows "(\<exists>acc. fst (TotpDisable env c srv) = Inr acc) \<and>
         api_disable2FA env problems c srv = (Inl (api_error 400 (totp_problem problems)), srv) \<and>
         snd (handleDisable2FA (di_type c d)) \<noteq> Some c"
proof -
  have "c \<in> set cs \<Longrightarrow> take_code c cs \<noteq> None" for cs by (induction cs) auto
  with assms(2) obtain cs where cs: "take_code c (ad_backup (sv_doc srv)) = Some cs" by blast
  have acc: "\<exists>acc. fst (TotpDisable env c srv) = Inr acc"
    using assms(1,3) cs by (simp add: TotpDisable_def VerifyTotp_def verifyTotpBackup_def Let_def)
  have api: "api_disable2FA env problems c srv = (Inl (api_error 400 (totp_problem problems)), srv)"
    using assms(4) by (simp add: api_disable2FA_def totp_req_valid_def)
  have "length (take 6 c) \<noteq> length c" using assms(4) by simp
  then have "take 6 c \<noteq> c" by fastforce
  then have "snd (handleDisable2FA (di_type c d)) \<noteq> Some c" by (simp add: handleDisable2FA_def di_type_def)
  with acc api show ?thesis by blast
qed

theorem backup_code_cannot_disable_witness:
  "(\<exists>acc. fst (TotpDisable plain_env ''0123456789abcdef'' (server_of factor_doc)) = Inr acc) \<and>
   fst (api_disable2FA plain_env [] ''0123456789abcdef'' (server_of factor_doc)) = Inl (api_error 400 ''Validation error: '')"
proof -
  have f: "ad_totp (sv_doc (server_of factor_doc))" "''0123456789abcdef'' \<in> set (ad_backup (sv_doc (server_of factor_doc)))"
    "''0123456789abcdef'' \<notin> set (ad_backupUsed (sv_doc (server_of factor_doc)))" "length ''0123456789abcdef'' = 16"
    by (simp_all add: server_of_def factor_doc_def plain_doc_def)
  from backup_code_cannot_disable [OF f, of plain_env "[]"] show ?thesis by (simp add: totp_problem_def)
qed

subsection \<open>Verifying the e-mail address\<close>

datatype verify_phase = PhaseIdle | CodeSent

record verify_dialog =
  ve_phase :: verify_phase
  ve_otp :: string
  ve_sending :: bool
  ve_verifying :: bool
  ve_cooldown :: nat
  ve_page :: account_page

definition ve_toast :: "toast_level \<Rightarrow> string \<Rightarrow> verify_dialog \<Rightarrow> verify_dialog" where
  "ve_toast l m d = d\<lparr>ve_page := pg_toast l m (ve_page d)\<rparr>"

definition ve_close_effect :: "verify_dialog \<Rightarrow> verify_dialog" where
  "ve_close_effect d =
     (if pg_showVerifyEmail (ve_page d) then d
      else d\<lparr>ve_phase := PhaseIdle, ve_otp := [], ve_sending := False, ve_verifying := False, ve_cooldown := 0\<rparr>)"

definition ve_tick :: "verify_dialog \<Rightarrow> verify_dialog" where
  "ve_tick d = (if ve_cooldown d = 0 then d else d\<lparr>ve_cooldown := ve_cooldown d - 1\<rparr>)"

text \<open>The start of a request, and its end.\<close>

definition ve_requestCode :: "verify_dialog \<Rightarrow> verify_dialog" where
  "ve_requestCode d = d\<lparr>ve_sending := True\<rparr>"

definition ve_codeRequested :: "thrown + nat \<Rightarrow> verify_dialog \<Rightarrow> verify_dialog" where
  "ve_codeRequested answer d =
     (case answer of
        Inr _ \<Rightarrow> ve_toast TSuccess ''Verification code sent.'' (d\<lparr>ve_phase := CodeSent, ve_cooldown := 30\<rparr>)
      | Inl err \<Rightarrow> ve_toast TError (if thrown_status err = Some 429 then ''Too many requests. Please wait.'' else ''Failed to send code.'') d)
     \<lparr>ve_sending := False\<rparr>"

definition ve_resendCode :: "verify_dialog \<Rightarrow> verify_dialog \<times> bool" where
  "ve_resendCode d =
     (if 0 < ve_cooldown d \<or> ve_sending d then (d, False) else (ve_requestCode (d\<lparr>ve_otp := []\<rparr>), True))"

definition ve_type :: "string \<Rightarrow> verify_dialog \<Rightarrow> verify_dialog" where
  "ve_type s d = d\<lparr>ve_otp := take 6 (filter (\<lambda>c. let n = of_char c :: nat in 48 \<le> n \<and> n \<le> 57) s)\<rparr>"

definition ve_verifyCode :: "verify_dialog \<Rightarrow> verify_dialog \<times> string option" where
  "ve_verifyCode d =
     (if ve_verifying d then (d, None)
      else if length (ve_otp d) \<noteq> 6 then (ve_toast TError ''Enter the 6-digit code.'' d, None)
      else (d\<lparr>ve_verifying := True\<rparr>, Some (ve_otp d)))"

definition VERIFICATION_FAILED :: string where
  "VERIFICATION_FAILED = ''Verification failed. If the code is incorrect or expired, request a new one.''"

definition ve_error_text :: "nat option \<Rightarrow> string" where
  "ve_error_text status =
     (if status = Some 422 then ''Invalid code.''
      else if status = Some 410 then ''Code expired. Request a new one.''
      else if status = Some 429 then ''Too many attempts. Please wait.''
      else VERIFICATION_FAILED)"

text \<open>After a success the page reads the account and closes the dialog.\<close>

definition ve_codeVerified :: "thrown + nat \<Rightarrow> thrown + ModelAccount \<Rightarrow> verify_dialog \<Rightarrow> verify_dialog" where
  "ve_codeVerified answer fetched d =
     (case answer of
        Inr _ \<Rightarrow>
          let d1 = (ve_toast TSuccess ''Email verified successfully.'' d)\<lparr>ve_verifying := False\<rparr>
          in ve_close_effect (d1\<lparr>ve_page := page_emailVerified fetched (ve_page d1)\<rparr>)
      | Inl err \<Rightarrow> (ve_toast TError (ve_error_text (thrown_status err)) d)\<lparr>ve_verifying := False\<rparr>)"

lemma split_otp_last:
  assumes "\<forall>t \<in> set ts. tk_type t \<noteq> EmailCategoryVerificationOTP" and "tk_type x = EmailCategoryVerificationOTP" "\<not> tk_expires x < now"
  shows "split_otp now (ts @ [x]) = (Some x, ts)"
  using assms by (induction ts) auto

text \<open>
  Property C36 (email_verified_end_to_end). The code the API mailed, typed with whatever around its digits
  within fifteen minutes, verifies the address: the account is verified, no code is left, and with the account
  read again page and store say so and the dialog is closed and empty.
\<close>

theorem email_verified_end_to_end:
  fixes d d1 :: verify_dialog and env later :: account_env and srv srv1 srv2 :: account_server
    and answer :: "thrown + nat" and typed :: string and n :: nat
  assumes "\<not> ad_emailVerified (sv_doc srv)" and "api_requestOTP env code True srv = (Inr 204, srv1)"
    and "filter (\<lambda>c. let n = of_char c :: nat in 48 \<le> n \<and> n \<le> 57) typed = code" "length code = 6"
    and "av_now later \<le> av_now env + emailVerificationOTPExpires"
    and "ve_verifyCode (ve_type typed d) = (d1, Some otp)" and "api_verifyOTP later otp srv1 = (answer, srv2)"
  defines "fresh \<equiv> Inr (account_view n (sv_doc srv2))"
  shows "sv_mails srv1 = sv_mails srv @ [(ad_email (sv_doc srv), code)] \<and> answer = Inr 204 \<and>
         sv_doc srv2 = (sv_doc srv)\<lparr>ad_emailVerified := True,
           ad_tokens := filter (\<lambda>t. tk_type t \<noteq> EmailCategoryVerificationOTP) (ad_tokens (sv_doc srv))\<rparr> \<and>
         (let d2 = ve_codeVerified answer fresh d1
          in \<not> pg_showVerifyEmail (ve_page d2) \<and> ve_otp d2 = [] \<and> ve_phase d2 = PhaseIdle \<and>
             app_account (au_store (pg_auth (ve_page d2))) = Some (account_view n (sv_doc srv2)) \<and>
             (''Email status'', ''Verified'') \<in> set (accountInfo (ve_page d2)))"
proof -
  let ?t = "\<lparr>tk_type = EmailCategoryVerificationOTP, tk_value = code, tk_expires = av_now env + emailVerificationOTPExpires\<rparr>"
  let ?kept = "filter (\<lambda>t. tk_type t \<noteq> EmailCategoryVerificationOTP) (ad_tokens (sv_doc srv))"
  have srv1: "sv_doc srv1 = (sv_doc srv)\<lparr>ad_tokens := ?kept @ [?t]\<rparr>"
    "sv_mails srv1 = sv_mails srv @ [(ad_email (sv_doc srv), code)]"
    using assms(1,2) by (auto simp: api_requestOTP_def RequestEmailVerificationOTP_def Let_def split: if_splits)
  have otp: "otp = code"
    using assms(3,4,6) by (auto simp: ve_verifyCode_def ve_type_def split: if_splits)
  have sp: "split_otp (av_now later) (?kept @ [?t]) = (Some ?t, ?kept)"
    by (rule split_otp_last) (use assms(5) in auto)
  have ne: "code \<noteq> []" using assms(4) by auto
  let ?doc = "(sv_doc srv)\<lparr>ad_emailVerified := True, ad_tokens := ?kept\<rparr>"
  have r: "answer = Inr 204" "sv_doc srv2 = ?doc"
    using assms(1,4,7) ne by (auto simp: api_verifyOTP_def VerifyEmailOTP_def otp srv1(1) sp)
  have view: "ac_email_verified (account_view n ?doc) = Some True" by (simp add: account_view_def)
  show ?thesis unfolding fresh_def r srv1(2)
    by (simp add: Let_def ve_codeVerified_def page_emailVerified_def account_refreshed_def ve_close_effect_def
        accountInfo_def view setAccount_def)
qed

definition unverified_doc :: account_doc where
  "unverified_doc = plain_doc\<lparr>ad_emailVerified := False\<rparr>"

definition sample_verify :: verify_dialog where
  "sample_verify =
     \<lparr>ve_phase = CodeSent, ve_otp = [], ve_sending = False, ve_verifying = False, ve_cooldown = 30,
      ve_page = (sample_page unverified_doc)\<lparr>pg_showVerifyEmail := True\<rparr>\<rparr>"

lemma sample_code_sent: "\<exists>srv1. api_requestOTP plain_env ''123456'' True (server_of unverified_doc) = (Inr 204, srv1)"
  by (simp add: api_requestOTP_def RequestEmailVerificationOTP_def Let_def)
    (simp add: server_of_def unverified_doc_def plain_env_def limiter_allows_def)

theorem email_verified_end_to_end_witness:
  "let srv1 = snd (api_requestOTP plain_env ''123456'' True (server_of unverified_doc));
       (answer, srv2) = api_verifyOTP plain_env ''123456'' srv1
   in answer = Inr 204 \<and> ad_emailVerified (sv_doc srv2)"
proof -
  from sample_code_sent obtain srv1 where q: "api_requestOTP plain_env ''123456'' True (server_of unverified_doc) = (Inr 204, srv1)" by blast
  have u: "\<not> ad_emailVerified (sv_doc (server_of unverified_doc))" by (simp add: server_of_def unverified_doc_def)
  have typed: "filter (\<lambda>c. let n = of_char c :: nat in 48 \<le> n \<and> n \<le> 57) ''123 456'' = ''123456''" by code_simp
  have len: "length ''123456'' = 6" by simp
  have now: "av_now plain_env \<le> av_now plain_env + emailVerificationOTPExpires" by (simp add: emailVerificationOTPExpires_def)
  have v: "ve_verifyCode (ve_type ''123 456'' sample_verify) = ((ve_type ''123 456'' sample_verify)\<lparr>ve_verifying := True\<rparr>, Some ''123456'')"
    by (simp add: ve_verifyCode_def ve_type_def typed [unfolded Let_def]) (simp add: sample_verify_def)
  obtain answer srv2 where r: "api_verifyOTP plain_env ''123456'' srv1 = (answer, srv2)" by fastforce
  from email_verified_end_to_end [OF u q typed len now v r] have
    "answer = Inr 204" "sv_doc srv2 = (sv_doc (server_of unverified_doc))\<lparr>ad_emailVerified := True,
       ad_tokens := filter (\<lambda>t. tk_type t \<noteq> EmailCategoryVerificationOTP) (ad_tokens (sv_doc (server_of unverified_doc)))\<rparr>" by blast+
  then show ?thesis unfolding Let_def q snd_conv r prod.case by simp
qed

text \<open>
  Fact (verification_reason_never_shown). The dialog has messages for an invalid code, an expired code and too
  many attempts, but the API answers those with other statuses: whatever the reason of a refusal, the dialog
  shows the general message.
\<close>

theorem verification_reason_never_shown:
  assumes "api_verifyOTP env otp srv = (Inl err, srv')"
  shows "ve_codeVerified (Inl err) fetched d = (ve_toast TError VERIFICATION_FAILED d)\<lparr>ve_verifying := False\<rparr>"
proof -
  have "thrown_status err \<in> {Some 400, Some 401}"
    using assms by (auto simp: api_verifyOTP_def VerifyEmailOTP_def Let_def thrown_status_def api_error_def
        split: if_splits option.splits prod.splits)
  then show ?thesis by (auto simp: ve_codeVerified_def ve_error_text_def)
qed

theorem verification_reason_never_shown_witness:
  "\<exists>err. fst (api_verifyOTP plain_env ''000000'' (server_of unverified_doc)) = Inl err \<and>
     ve_codeVerified (Inl err) (Inl rate_limited) sample_verify = (ve_toast TError VERIFICATION_FAILED sample_verify)\<lparr>ve_verifying := False\<rparr>"
proof -
  have "\<exists>err. api_verifyOTP plain_env ''000000'' (server_of unverified_doc) = (Inl err, server_of unverified_doc)"
    by (simp add: api_verifyOTP_def VerifyEmailOTP_def) (simp add: server_of_def unverified_doc_def plain_doc_def)
  then obtain err where r: "api_verifyOTP plain_env ''000000'' (server_of unverified_doc) = (Inl err, server_of unverified_doc)" by blast
  from verification_reason_never_shown [OF r, of "Inl rate_limited" sample_verify] r show ?thesis by simp
qed

end
