(* ===== verification/PasswordResets.thy ===== *)
theory PasswordResets
  imports TwoFactor
begin

text \<open>
  Resetting a forgotten password: app/src/pages/auth/PasswordReset.tsx and PasswordResetConfirm.tsx, with the
  handlers of the API (api/api/reset_password.go).

  An answer to the second page has the fields of an error the page reads, with the details of the validator.
\<close>

subsection \<open>Asking for a link\<close>

record reset_page =
  rp_email :: string
  rp_loading :: bool
  rp_sent :: bool
  rp_resending :: bool
  rp_toasts :: "(toast_level \<times> string) list"

definition rp_toast :: "toast_level \<Rightarrow> string \<Rightarrow> reset_page \<Rightarrow> reset_page" where
  "rp_toast l m p = p\<lparr>rp_toasts := rp_toasts p @ [(l, m)]\<rparr>"

definition rp_handleReset :: "thrown + nat \<Rightarrow> reset_page \<Rightarrow> reset_page" where
  "rp_handleReset answer p =
     (case answer of
        Inr status \<Rightarrow>
          if status = 204 then rp_toast TSuccess ''Reset instructions sent to your email.'' (p\<lparr>rp_sent := True\<rparr>) else p
      | Inl err \<Rightarrow> rp_toast TError (or_str (thrown_error err) ''Failed to send reset instructions.'') p)\<lparr>rp_loading := False\<rparr>"

definition rp_handleResend :: "thrown + nat \<Rightarrow> reset_page \<Rightarrow> reset_page" where
  "rp_handleResend answer p =
     (case answer of
        Inr status \<Rightarrow> if status = 204 then rp_toast TSuccess ''Reset instructions resent.'' p else p
      | Inl err \<Rightarrow> rp_toast TError (or_str (thrown_error err) ''Failed to resend reset instructions.'') p)\<lparr>rp_resending := False\<rparr>"

text \<open>The handler; the mail and its token are made up by the server.\<close>

definition api_sendResetPasswordEmail ::
  "account_env \<Rightarrow> string \<Rightarrow> string \<Rightarrow> int \<Rightarrow> account_server \<Rightarrow> (thrown + nat) \<times> account_server" where
  "api_sendResetPasswordEmail env email token expires srv =
     (if email = [] \<or> \<not> av_email_tag env email then (Inl (api_error 400 ''invalid request''), srv)
      else (Inr 204, SendResetPasswordEmail email token expires srv))"

text \<open>
  Fact (reset_request_reveals_nothing). The answer to a request for a link, and so what the page shows, does
  not depend on the account: whether the address has one, and whether it is verified, cannot be told.
\<close>

theorem reset_request_reveals_nothing:
  "fst (api_sendResetPasswordEmail env email token expires srv) = fst (api_sendResetPasswordEmail env email token' expires' srv') \<and>
   rp_handleReset (fst (api_sendResetPasswordEmail env email token expires srv)) p =
     rp_handleReset (fst (api_sendResetPasswordEmail env email token' expires' srv')) p"
  by (simp add: api_sendResetPasswordEmail_def)

subsection \<open>Setting the new password\<close>

datatype error_details = NoDetails | DetailText string | DetailList "string list"

record reset_error =
  re_status :: "nat option"
  re_error :: "string option"
  re_details :: error_details

record reset_form =
  rf_token :: "string option"
  rf_newPassword :: string
  rf_confirmPassword :: string
  rf_otp :: string
  rf_showOtp :: bool
  rf_loading :: bool
  rf_path :: string
  rf_passwordResetSuccess :: bool
  rf_toasts :: "(toast_level \<times> string) list"

definition rf_toast :: "toast_level \<Rightarrow> string \<Rightarrow> reset_form \<Rightarrow> reset_form" where
  "rf_toast l m f = f\<lparr>rf_toasts := rf_toasts f @ [(l, m)]\<rparr>"

text \<open>The field of the code is there once it was asked for, and takes eight characters.\<close>

definition rf_type_otp :: "string \<Rightarrow> reset_form \<Rightarrow> reset_form" where
  "rf_type_otp s f = (if rf_showOtp f then f\<lparr>rf_otp := take 8 s\<rparr> else f)"

text \<open>The request: the token, the password, and the headers of the second factor.\<close>

definition rf_handleReset :: "reset_form \<Rightarrow> reset_form \<times> (string \<times> string \<times> string \<times> string list) option" where
  "rf_handleReset f =
     (case rf_token f of
        None \<Rightarrow> (rf_toast TError ''Invalid or missing token.'' f, None)
      | Some token \<Rightarrow>
          if token = [] then (rf_toast TError ''Invalid or missing token.'' f, None)
          else if rf_newPassword f = [] \<or> rf_confirmPassword f = [] then (rf_toast TError ''Please fill in all fields.'' f, None)
          else if rf_newPassword f \<noteq> rf_confirmPassword f then (rf_toast TError ''Passwords do not match.'' f, None)
          else (f\<lparr>rf_loading := True\<rparr>, Some (token, rf_newPassword f, rf_otp f, [''totp''])))"

definition mentions_password :: "error_details \<Rightarrow> bool" where
  "mentions_password ds =
     (case ds of
        DetailText t \<Rightarrow> js_includes t ''password''
      | DetailList l \<Rightarrow> list_ex (\<lambda>d. js_includes (js_toLowerCase d) ''password'') l
      | NoDetails \<Rightarrow> False)"

definition rf_refused :: "reset_error \<Rightarrow> reset_form \<Rightarrow> reset_form" where
  "rf_refused e f =
     (if re_status e = Some 400 then
        rf_toast TError
          (if re_error e = Some ''token expired'' then ''Reset password token has expired. Please request a new one.''
           else if re_error e = Some ''invalid request'' then
             (if mentions_password (re_details e) then PASSWORD_RULES else ''Invalid request. Please check your input.'')
           else or_str (re_error e) ''Invalid request. Please check your input.'') f
      else if re_status e = Some 401 then
        (if re_error e = Some ''TOTP is required''
         then rf_toast TInfo ''Two-factor authentication required. Please enter your code.'' (f\<lparr>rf_showOtp := True\<rparr>) else f)
      else if re_status e = Some 500 then rf_toast TError ''Server error. Please try again later.'' f
      else rf_toast TError (or_str (re_error e) ''Failed to reset password.'') f)"

definition rf_answered :: "reset_error + nat \<Rightarrow> reset_form \<Rightarrow> reset_form" where
  "rf_answered answer f =
     (case answer of
        Inr _ \<Rightarrow> f\<lparr>rf_path := ''/login'', rf_passwordResetSuccess := True\<rparr>
      | Inl e \<Rightarrow> rf_refused e f)\<lparr>rf_loading := False\<rparr>"

text \<open>The handler: the validator names the fields it refuses.\<close>

definition reset_problems :: "string \<Rightarrow> string \<Rightarrow> string list" where
  "reset_problems token pw =
     (if token = [] then [''token is required''] else []) @
     (if pw = [] then [''new_password is required''] else if \<not> ValidatePassword pw then [''new_password is invalid''] else [])"

definition plain_error :: "thrown \<Rightarrow> reset_error" where
  "plain_error e = \<lparr>re_status = thrown_status e, re_error = thrown_error e, re_details = NoDetails\<rparr>"

definition api_verifyPasswordReset ::
  "account_env \<Rightarrow> string \<Rightarrow> string \<Rightarrow> string \<Rightarrow> account_server \<Rightarrow> (reset_error + nat) \<times> account_server" where
  "api_verifyPasswordReset env token pw otp srv =
     (if reset_problems token pw \<noteq> []
      then (Inl \<lparr>re_status = Some 400, re_error = Some ''invalid request'', re_details = DetailList (reset_problems token pw)\<rparr>, srv)
      else (case VerifyPasswordReset env token pw otp srv of
              (Some e, srv') \<Rightarrow> (Inl (plain_error (account_answer ''failed to reset password'' e)), srv')
            | (None, srv') \<Rightarrow> (Inr 204, srv')))"

text \<open>What the page sends, and the refusals of the handler.\<close>

lemma rf_sent:
  assumes "rf_handleReset f = (f1, Some (token, pw, otp, methods))"
  shows "f1 = f\<lparr>rf_loading := True\<rparr>" and "rf_token f = Some token" and "token \<noteq> []" and "pw = rf_newPassword f"
    and "rf_confirmPassword f = pw" and "pw \<noteq> []" and "otp = rf_otp f"
  using assms by (simp_all add: rf_handleReset_def split: option.splits if_splits)

lemma reset_problems_ok: "reset_problems token pw = [] \<longleftrightarrow> token \<noteq> [] \<and> pw \<noteq> [] \<and> ValidatePassword pw"
  by (simp add: reset_problems_def)

lemma VerifyPasswordReset_refused:
  assumes "VerifyPasswordReset env token pw otp srv = (Some e, srv')"
  shows "spent (sv_doc srv) (sv_doc srv')"
proof -
  obtain r s where m: "account_MfaCheck env (sv_doc srv) otp srv = (r, s)" by fastforce
  have "srv' = srv \<or> srv' = s"
    using assms m by (auto simp: VerifyPasswordReset_def Let_def split: if_splits option.splits sum.splits prod.splits)
  with MfaCheck_cases(1) [OF m] show ?thesis by (auto simp: spent_refl)
qed

lemma VerifyPasswordReset_done:
  assumes "VerifyPasswordReset env token pw otp srv = (None, srv')"
  obtains kept where "consume_token (av_now env) TokenTypePasswordReset token (ad_tokens (sv_doc srv)) = Inr (True, kept)"
    and "sv_doc srv' = (sv_doc srv)\<lparr>ad_tokens := kept, ad_password := Some (av_hash env pw)\<rparr>"
    and "account_MfaCheck env (sv_doc srv) otp srv = (None, snd (account_MfaCheck env (sv_doc srv) otp srv))"
proof -
  obtain r s where m: "account_MfaCheck env (sv_doc srv) otp srv = (r, s)" by fastforce
  have r: "r = None"
    using assms m by (cases r) (auto simp: VerifyPasswordReset_def Let_def split: if_splits)
  obtain found kept where c: "consume_token (av_now env) TokenTypePasswordReset token (ad_tokens (sv_doc srv)) = Inr (found, kept)"
    using assms m r by (cases "consume_token (av_now env) TokenTypePasswordReset token (ad_tokens (sv_doc srv))")
      (auto simp: VerifyPasswordReset_def Let_def split: if_splits)
  have found: "found" using assms m r c by (auto simp: VerifyPasswordReset_def Let_def split: if_splits)
  have "sv_doc srv' = (sv_doc srv)\<lparr>ad_tokens := kept, ad_password := Some (av_hash env pw)\<rparr>"
    using assms m r c found
    by (auto simp: VerifyPasswordReset_def SetPassword_def Let_def split: if_splits option.splits)
  with that c found m r show thesis by simp
qed

text \<open>
  Property C37 (reset_end_to_end). The page and the API together: only with a live token for a reset, two equal
  passwords that satisfy the rules and, on an account with the second factor, a code of it, does a submit
  succeed; then the password typed is the one stored, the token is gone and the page goes to the log-in. A
  refused submit leaves the password and the page where they were.
\<close>

theorem reset_end_to_end:
  assumes "rf_handleReset f = (f1, Some (token, pw, otp, methods))"
    and "api_verifyPasswordReset env token pw otp srv = (answer, srv')"
  shows "case answer of
      Inr status \<Rightarrow> status = 204 \<and> ad_password (sv_doc srv') = Some (av_hash env (rf_newPassword f)) \<and>
        rf_confirmPassword f = rf_newPassword f \<and> ValidatePassword (rf_newPassword f) \<and>
        (\<exists>t \<in> set (ad_tokens (sv_doc srv)). tk_type t = TokenTypePasswordReset \<and> rf_token f = Some (tk_value t) \<and>
           av_now env \<le> tk_expires t \<and> t \<notin> set (ad_tokens (sv_doc srv'))) \<and>
        (ad_totp (sv_doc srv) \<longrightarrow> rf_otp f \<noteq> [] \<and>
           (av_totp_valid env (rf_otp f) (ad_secret (sv_doc srv)) \<or> rf_otp f \<in> set (ad_backup (sv_doc srv)))) \<and>
        rf_answered answer f1 = f\<lparr>rf_path := ''/login'', rf_passwordResetSuccess := True, rf_loading := False\<rparr>
    | Inl e \<Rightarrow> ad_password (sv_doc srv') = ad_password (sv_doc srv) \<and> ad_tokens (sv_doc srv') = ad_tokens (sv_doc srv) \<and>
        rf_path (rf_answered answer f1) = rf_path f \<and> \<not> rf_loading (rf_answered answer f1) \<and>
        rf_newPassword (rf_answered answer f1) = rf_newPassword f"
proof (cases answer)
  note sent = rf_sent [OF assms(1)]
  case (Inl e)
  have "spent (sv_doc srv) (sv_doc srv')"
    using assms(2) VerifyPasswordReset_refused unfolding Inl
    by (auto simp: api_verifyPasswordReset_def spent_refl split: if_splits prod.splits option.splits)
  moreover have "rf_path (rf_refused e f1) = rf_path f" "rf_newPassword (rf_refused e f1) = rf_newPassword f"
    by (simp_all add: rf_refused_def rf_toast_def sent(1))
  ultimately show ?thesis by (simp add: Inl rf_answered_def spent_keeps)
next
  note sent = rf_sent [OF assms(1)]
  case (Inr status)
  with assms(2) have v: "VerifyPasswordReset env token pw otp srv = (None, srv')" "status = 204" "ValidatePassword pw"
    by (auto simp: api_verifyPasswordReset_def reset_problems_ok split: if_splits prod.splits option.splits)
  from VerifyPasswordReset_done [OF v(1)] obtain kept
    where c: "consume_token (av_now env) TokenTypePasswordReset token (ad_tokens (sv_doc srv)) = Inr (True, kept)"
    and doc: "sv_doc srv' = (sv_doc srv)\<lparr>ad_tokens := kept, ad_password := Some (av_hash env pw)\<rparr>"
    and m: "account_MfaCheck env (sv_doc srv) otp srv = (None, snd (account_MfaCheck env (sv_doc srv) otp srv))" .
  have live: "\<exists>t \<in> set (ad_tokens (sv_doc srv)). tk_type t = TokenTypePasswordReset \<and> rf_token f = Some (tk_value t) \<and>
      av_now env \<le> tk_expires t \<and> t \<notin> set (ad_tokens (sv_doc srv'))"
    using consume_shrinks(2) [OF c] sent(2) by (auto simp: doc)
  have code: "ad_totp (sv_doc srv) \<longrightarrow> rf_otp f \<noteq> [] \<and>
      (av_totp_valid env (rf_otp f) (ad_secret (sv_doc srv)) \<or> rf_otp f \<in> set (ad_backup (sv_doc srv)))"
    using MfaCheck_cases(4) [OF m] sent(7) by simp
  show ?thesis using v live code sent(4,5) by (simp add: Inr doc rf_answered_def sent(1))
qed

text \<open>
  Fact (wrong_code_silent). A wrong code is refused with 401 and a text of its own, and the page has a message
  only for the code that is missing: after a wrong code nothing is shown, and the form is as it was.
\<close>

theorem wrong_code_silent:
  assumes "rf_handleReset f = (f1, Some (token, pw, otp, methods))" and "api_verifyPasswordReset env token pw otp srv = (answer, srv')"
    and "ValidatePassword pw" and "\<exists>t \<in> set (ad_tokens (sv_doc srv)). tk_value t = token"
    and "\<exists>t \<in> set (ad_tokens (sv_doc srv)). tk_type t = TokenTypePasswordReset"
    and "ad_totp (sv_doc srv)" "otp \<noteq> []" "\<not> av_totp_valid env otp (ad_secret (sv_doc srv))" "otp \<notin> set (ad_backup (sv_doc srv))"
  shows "\<exists>msg. answer = Inl (plain_error (api_error 401 msg)) \<and> msg \<noteq> TOTP_REQUIRED \<and>
           rf_answered answer f1 = f\<lparr>rf_loading := False\<rparr>"
proof -
  note sent = rf_sent [OF assms(1)]
  have none: "c \<notin> set cs \<Longrightarrow> take_code c cs = None" for c cs by (induction cs) auto
  obtain m0 where b: "verifyTotpBackup (sv_doc srv) otp = Inl m0" and m0: "m0 = BACKUP_USED \<or> m0 = INVALID_CODE"
    using none [OF assms(9)] by (cases "otp \<in> set (ad_backupUsed (sv_doc srv))") (simp_all add: verifyTotpBackup_def)
  obtain msg s where m: "account_MfaCheck env (sv_doc srv) otp srv = (Some (TotpError msg), s)" and msg: "msg = BACKUP_USED \<or> msg = INVALID_CODE"
    using assms(6-8) m0 by (cases "limiter_allows env (Suc (sv_totpFails srv))")
      (simp_all add: account_MfaCheck_def VerifyTotp_def b Let_def)
  have ne: "msg \<noteq> TOTP_REQUIRED" using msg by (auto simp: BACKUP_USED_def INVALID_CODE_def TOTP_REQUIRED_def)
  have tok: "list_ex (\<lambda>t. tk_value t = token) (ad_tokens (sv_doc srv))" "list_ex (\<lambda>t. tk_type t = TokenTypePasswordReset) (ad_tokens (sv_doc srv))"
    using assms(4,5) by (auto simp: list_ex_iff)
  have "VerifyPasswordReset env token pw otp srv = (Some (TotpError msg), s)"
    using tok m by (simp add: VerifyPasswordReset_def Let_def)
  then have a: "answer = Inl (plain_error (api_error 401 msg))"
    using assms(2,3) sent(3,6) by (simp add: api_verifyPasswordReset_def reset_problems_ok [THEN iffD2])
  have "rf_refused (plain_error (api_error 401 msg)) f1 = f1"
    using ne by (simp add: rf_refused_def plain_error_def thrown_status_def thrown_error_def api_error_def TOTP_REQUIRED_def)
  then have "rf_answered answer f1 = f\<lparr>rf_loading := False\<rparr>" by (simp add: rf_answered_def a sent(1))
  with a ne show ?thesis by blast
qed

text \<open>
  Fact (backup_code_cannot_reset). The API takes a backup code for the reset, but the codes have sixteen
  characters and the field takes eight: whatever is typed, only a code of the authenticator gets through.
\<close>

theorem backup_code_cannot_reset:
  assumes "rf_showOtp f" and "rf_handleReset (rf_type_otp typed f) = (f1, Some (token, pw, otp, methods))"
    and "\<forall>c \<in> set (ad_backup (sv_doc srv)). length c = 16" and "ad_totp (sv_doc srv)"
    and "api_verifyPasswordReset env token pw otp srv = (Inr status, srv')"
  shows "av_totp_valid env (take 8 typed) (ad_secret (sv_doc srv))"
proof -
  have otp: "otp = take 8 typed" using rf_sent(7) [OF assms(2)] assms(1) by (simp add: rf_type_otp_def)
  have v: "VerifyPasswordReset env token pw otp srv = (None, srv')"
    using assms(5) by (auto simp: api_verifyPasswordReset_def split: if_splits prod.splits option.splits)
  from VerifyPasswordReset_done [OF v]
  have m: "account_MfaCheck env (sv_doc srv) otp srv = (None, snd (account_MfaCheck env (sv_doc srv) otp srv))" by blast
  have "length (take 8 typed) \<le> 8" by simp
  then have "take 8 typed \<notin> set (ad_backup (sv_doc srv))" using assms(3) by fastforce
  with MfaCheck_cases(4) [OF m refl assms(4)] otp show ?thesis by blast
qed


text \<open>A submit on an account with the second factor.\<close>

definition reset_doc :: account_doc where
  "reset_doc = plain_doc\<lparr>ad_totp := True, ad_secret := ''123'', ad_backup := [''0123456789abcdef''], ad_tokens := [reset_token]\<rparr>"

definition reset_link :: reset_form where
  "reset_link =
     \<lparr>rf_token = Some ''tok'', rf_newPassword = ''Secret-word-1'', rf_confirmPassword = ''Secret-word-1'', rf_otp = ''1231'',
      rf_showOtp = True, rf_loading = False, rf_path = ''/reset-password/tok'', rf_passwordResetSuccess = False, rf_toasts = []\<rparr>"

lemma reset_link_sent:
  "rf_handleReset (rf_type_otp s reset_link) =
     ((rf_type_otp s reset_link)\<lparr>rf_loading := True\<rparr>, Some (''tok'', ''Secret-word-1'', take 8 s, [''totp'']))"
  by (simp add: rf_handleReset_def rf_type_otp_def reset_link_def)

lemma reset_link_accepted: "\<exists>srv'. api_verifyPasswordReset plain_env ''tok'' ''Secret-word-1'' ''1231'' (server_of reset_doc) = (Inr 204, srv')"
proof -
  let ?srv = "server_of reset_doc"
  have p: "reset_problems ''tok'' ''Secret-word-1'' = []" using strong_password by (simp add: reset_problems_ok)
  have set: "SetPassword env ''Secret-word-1'' acc = Some (acc\<lparr>ad_password := Some (av_hash env ''Secret-word-1'')\<rparr>)" for env acc
    unfolding SetPassword_def using strong_password(2) by (simp only: if_False)
  have m: "account_MfaCheck plain_env (sv_doc ?srv) ''1231'' ?srv = (None, ?srv)"
    by (simp add: account_MfaCheck_def VerifyTotp_def Let_def server_of_def reset_doc_def plain_env_def)
  have t: "list_ex (\<lambda>t. tk_value t = ''tok'') (ad_tokens (sv_doc ?srv))" "list_ex (\<lambda>t. tk_type t = TokenTypePasswordReset) (ad_tokens (sv_doc ?srv))"
    "consume_token (av_now plain_env) TokenTypePasswordReset ''tok'' (ad_tokens (sv_doc ?srv)) = Inr (True, [])"
    by (simp_all add: server_of_def reset_doc_def reset_token_def plain_env_def)
  have "fst (VerifyPasswordReset plain_env ''tok'' ''Secret-word-1'' ''1231'' ?srv) = None"
    by (simp only: VerifyPasswordReset_def Let_def m t set prod.case option.case sum.case not_True_eq_False if_False if_True disj_ac simp_thms fst_conv)
  then obtain s where "VerifyPasswordReset plain_env ''tok'' ''Secret-word-1'' ''1231'' ?srv = (None, s)"
    by (metis prod.collapse)
  then show ?thesis by (simp only: api_verifyPasswordReset_def p) simp
qed

theorem reset_end_to_end_witness:
  "\<exists>srv'. api_verifyPasswordReset plain_env ''tok'' ''Secret-word-1'' ''1231'' (server_of reset_doc) = (Inr 204, srv') \<and>
     ad_password (sv_doc srv') = Some ''h(Secret-word-1)''"
proof -
  from reset_link_accepted obtain srv'
    where r: "api_verifyPasswordReset plain_env ''tok'' ''Secret-word-1'' ''1231'' (server_of reset_doc) = (Inr 204, srv')" by blast
  have "rf_handleReset (rf_type_otp ''1231'' reset_link) =
     ((rf_type_otp ''1231'' reset_link)\<lparr>rf_loading := True\<rparr>, Some (''tok'', ''Secret-word-1'', ''1231'', [''totp'']))"
    by (simp add: reset_link_sent)
  from reset_end_to_end [OF this r] have "ad_password (sv_doc srv') = Some (av_hash plain_env (rf_newPassword (rf_type_otp ''1231'' reset_link)))"
    by simp
  with r show ?thesis by (simp add: rf_type_otp_def reset_link_def) (simp add: plain_env_def)
qed

theorem wrong_code_silent_witness:
  "\<exists>answer. fst (api_verifyPasswordReset plain_env ''tok'' ''Secret-word-1'' ''999'' (server_of reset_doc)) = answer \<and>
     rf_answered answer ((rf_type_otp ''999'' reset_link)\<lparr>rf_loading := True\<rparr>) = (rf_type_otp ''999'' reset_link)\<lparr>rf_loading := False\<rparr>"
proof -
  obtain answer srv' where r: "api_verifyPasswordReset plain_env ''tok'' ''Secret-word-1'' ''999'' (server_of reset_doc) = (answer, srv')"
    by fastforce
  have s: "rf_handleReset (rf_type_otp ''999'' reset_link) =
     ((rf_type_otp ''999'' reset_link)\<lparr>rf_loading := True\<rparr>, Some (''tok'', ''Secret-word-1'', ''999'', [''totp'']))"
    by (simp add: reset_link_sent)
  have d: "\<exists>t \<in> set (ad_tokens (sv_doc (server_of reset_doc))). tk_value t = ''tok''"
    "\<exists>t \<in> set (ad_tokens (sv_doc (server_of reset_doc))). tk_type t = TokenTypePasswordReset"
    "ad_totp (sv_doc (server_of reset_doc))" "''999'' \<noteq> []"
    "\<not> av_totp_valid plain_env ''999'' (ad_secret (sv_doc (server_of reset_doc)))"
    "''999'' \<notin> set (ad_backup (sv_doc (server_of reset_doc)))"
    by (simp_all add: server_of_def reset_doc_def plain_doc_def plain_env_def reset_token_def)
  from wrong_code_silent [OF s r strong_password(1) d] r show ?thesis by auto
qed

theorem backup_code_cannot_reset_witness:
  "\<exists>srv'. api_verifyPasswordReset plain_env ''tok'' ''Secret-word-1'' ''1231'' (server_of reset_doc) = (Inr 204, srv') \<and>
     av_totp_valid plain_env (take 8 ''1231'') ''123''"
proof -
  from reset_link_accepted obtain srv'
    where r: "api_verifyPasswordReset plain_env ''tok'' ''Secret-word-1'' ''1231'' (server_of reset_doc) = (Inr 204, srv')" by blast
  have s: "rf_handleReset (rf_type_otp ''1231'' reset_link) =
     ((rf_type_otp ''1231'' reset_link)\<lparr>rf_loading := True\<rparr>, Some (''tok'', ''Secret-word-1'', ''1231'', [''totp'']))"
    by (simp add: reset_link_sent)
  have d: "rf_showOtp reset_link" "\<forall>c \<in> set (ad_backup (sv_doc (server_of reset_doc))). length c = 16"
    "ad_totp (sv_doc (server_of reset_doc))" "ad_secret (sv_doc (server_of reset_doc)) = ''123''"
    by (simp_all add: server_of_def reset_doc_def reset_link_def)
  from backup_code_cannot_reset [OF d(1) s d(2,3) r] r d(4) show ?thesis by simp
qed

end
