(* ===== verification/Indicators.thy ===== *)
theory Indicators
  imports AccountPage
begin

text \<open>
  The announcements and the connection status: app/src/hooks/useAnnouncementsIndicator.ts,
  app/src/pages/announcements/Announcements.tsx and app/src/hooks/useDnsConnectionStatus.ts.

  Times are milliseconds; the reading of a date is a parameter, \<open>None\<close> for an invalid one. Requests are
  numbered, so that a shared promise is its number. Colours are left out.
\<close>

subsection \<open>The unread indicator\<close>

record announcement =
  an_published_at :: "string option"
  an_severity :: "string option"
  an_title :: "string option"

record announcements_indicator =
  ai_hasUnread :: bool
  ai_hasCriticalUnread :: bool

definition CLEAN_BROWSER_UNREAD_WINDOW_MS :: int where
  "CLEAN_BROWSER_UNREAD_WINDOW_MS = 48 * 60 * 60 * 1000"

definition last_seen_ms :: "time_parser \<Rightarrow> string option \<Rightarrow> int \<Rightarrow> int option" where
  "last_seen_ms parse lastSeenAt now =
     (if truthy_str lastSeenAt then parse (the lastSeenAt) else Some (now - CLEAN_BROWSER_UNREAD_WINDOW_MS))"

text \<open>A comparison with an invalid date is false.\<close>

definition is_unread :: "time_parser \<Rightarrow> int option \<Rightarrow> announcement \<Rightarrow> bool" where
  "is_unread parse lastSeenMs a =
     (case (Option.bind (an_published_at a) parse, lastSeenMs) of (Some t, Some l) \<Rightarrow> l < t | _ \<Rightarrow> False)"

definition computeAnnouncementsIndicator ::
  "time_parser \<Rightarrow> announcement list option \<Rightarrow> string option \<Rightarrow> int \<Rightarrow> announcements_indicator" where
  "computeAnnouncementsIndicator parse items lastSeenAt now =
     (let unread = filter (is_unread parse (last_seen_ms parse lastSeenAt now)) (nullish items [])
      in \<lparr>ai_hasUnread = (0 < length unread),
          ai_hasCriticalUnread = list_ex (\<lambda>a. an_severity a = Some ''critical'') unread\<rparr>)"

text \<open>The cache both navigation bars share: when it was filled, and the number of its request.\<close>

record announcements_cache =
  ac_cache :: "(int \<times> nat) option"
  ac_requests :: nat

definition CACHE_TTL_MS :: int where "CACHE_TTL_MS = 60000"

definition fetchAnnouncements :: "int \<Rightarrow> announcements_cache \<Rightarrow> nat \<times> announcements_cache" where
  "fetchAnnouncements now c =
     (case ac_cache c of
        Some (ts, r) \<Rightarrow>
          if now - ts < CACHE_TTL_MS then (r, c)
          else (ac_requests c, \<lparr>ac_cache = Some (now, ac_requests c), ac_requests = Suc (ac_requests c)\<rparr>)
      | None \<Rightarrow> (ac_requests c, \<lparr>ac_cache = Some (now, ac_requests c), ac_requests = Suc (ac_requests c)\<rparr>))"

text \<open>What an answer gives the bars: an error or another shape is no announcement.\<close>

definition announcements_of :: "thrown + announcement list option \<Rightarrow> announcement list" where
  "announcements_of answer = (case answer of Inr data \<Rightarrow> nullish data [] | Inl _ \<Rightarrow> [])"

text \<open>
  Fact (announcement_requests_bounded). However often the bars load, on a timer, on a focus or on a second
  bar, the requests sent in a span of time are at most one more than the minutes in it.
\<close>

fun loads :: "int list \<Rightarrow> announcements_cache \<Rightarrow> announcements_cache" where
  "loads [] c = c"
| "loads (t # ts) c = loads ts (snd (fetchAnnouncements t c))"

definition cache_spaced :: "int \<Rightarrow> announcements_cache \<Rightarrow> bool" where
  "cache_spaced t0 c \<longleftrightarrow>
     (case ac_cache c of None \<Rightarrow> ac_requests c = 0 | Some (ts, _) \<Rightarrow> t0 + (int (ac_requests c) - 1) * CACHE_TTL_MS \<le> ts)"

lemma fetch_spaced:
  assumes "cache_spaced t0 c" and "t0 \<le> t"
  shows "cache_spaced t0 (snd (fetchAnnouncements t c))"
proof (cases "ac_cache c")
  case None
  with assms show ?thesis by (simp add: cache_spaced_def fetchAnnouncements_def)
next
  case (Some p)
  obtain ts r where p: "p = (ts, r)" by fastforce
  with Some assms(1) have "t0 + (int (ac_requests c) - 1) * CACHE_TTL_MS \<le> ts" by (simp add: cache_spaced_def)
  then have "CACHE_TTL_MS \<le> t - ts \<Longrightarrow> t0 + int (ac_requests c) * CACHE_TTL_MS \<le> t"
    by (simp add: left_diff_distrib)
  with Some p assms(1) show ?thesis by (auto simp: cache_spaced_def fetchAnnouncements_def)
qed

lemma fetch_cached:
  "\<exists>ts r. ac_cache (snd (fetchAnnouncements t c)) = Some (ts, r) \<and> (ac_cache c = Some (ts, r) \<or> ts = t)"
  by (auto simp: fetchAnnouncements_def split: option.split prod.split)

theorem announcement_requests_bounded:
  assumes "\<forall>t \<in> set ts. t0 \<le> t \<and> t \<le> t0 + span" and "0 \<le> span"
  shows "int (ac_requests (loads ts \<lparr>ac_cache = None, ac_requests = 0\<rparr>)) \<le> 1 + span div CACHE_TTL_MS"
proof -
  define ok where "ok c \<longleftrightarrow> cache_spaced t0 c \<and> (\<forall>s r. ac_cache c = Some (s, r) \<longrightarrow> s \<le> t0 + span)" for c
  have step: "ok (loads us c)" if "ok c" "\<forall>t \<in> set us. t0 \<le> t \<and> t \<le> t0 + span" for us c
    using that
  proof (induction us arbitrary: c)
    case (Cons u us)
    have "ok (snd (fetchAnnouncements u c))"
      using Cons.prems fetch_spaced [of t0 c u] fetch_cached [of u c] by (fastforce simp: ok_def)
    with Cons show ?case by simp
  qed simp
  let ?c = "loads ts \<lparr>ac_cache = None, ac_requests = 0\<rparr>"
  have ok: "ok ?c" by (rule step) (use assms(1) in \<open>auto simp: ok_def cache_spaced_def\<close>)
  show ?thesis
  proof (cases "ac_cache ?c")
    case None
    with ok have "ac_requests ?c = 0" by (simp add: ok_def cache_spaced_def)
    moreover have "0 \<le> span div CACHE_TTL_MS" using assms(2) by (simp add: CACHE_TTL_MS_def)
    ultimately show ?thesis by simp
  next
    case (Some p)
    obtain s r where p: "p = (s, r)" by fastforce
    with ok Some have "(int (ac_requests ?c) - 1) * CACHE_TTL_MS \<le> span" by (fastforce simp: ok_def cache_spaced_def)
    then have "(int (ac_requests ?c) - 1) * CACHE_TTL_MS div CACHE_TTL_MS \<le> span div CACHE_TTL_MS"
      by (rule zdiv_mono1) (simp add: CACHE_TTL_MS_def)
    then show ?thesis by (simp add: CACHE_TTL_MS_def)
  qed
qed

theorem announcement_requests_bounded_witness:
  "int (ac_requests (loads [0, 10, 60000, 60001, 119999] \<lparr>ac_cache = None, ac_requests = 0\<rparr>)) \<le> 1 + 119999 div CACHE_TTL_MS"
  by (rule announcement_requests_bounded [of _ 0]) simp_all

subsection \<open>The announcements page\<close>

definition PAGE_SIZE :: nat where "PAGE_SIZE = 15"

record announcements_page =
  ap_items :: "announcement list"
  ap_loading :: bool
  ap_error :: string
  ap_visibleCount :: nat
  ap_store :: AppState

text \<open>Opening the page; \<open>now\<close> is the text of the time.\<close>

definition open_announcements :: "string \<Rightarrow> AppState \<Rightarrow> announcements_page" where
  "open_announcements now s =
     \<lparr>ap_items = [], ap_loading = True, ap_error = [], ap_visibleCount = PAGE_SIZE, ap_store = markAnnouncementsSeen now s\<rparr>"

definition LOAD_FAILED :: string where
  "LOAD_FAILED = ''Unable to load announcements right now. Please try again later.''"

definition announcements_loaded :: "thrown + announcement list option \<Rightarrow> announcements_page \<Rightarrow> announcements_page" where
  "announcements_loaded answer p =
     (case answer of
        Inr data \<Rightarrow> p\<lparr>ap_items := nullish data [], ap_error := [], ap_visibleCount := PAGE_SIZE\<rparr>
      | Inl _ \<Rightarrow> p\<lparr>ap_error := LOAD_FAILED\<rparr>)\<lparr>ap_loading := False\<rparr>"

definition visibleItems :: "announcements_page \<Rightarrow> announcement list" where
  "visibleItems p = take (ap_visibleCount p) (ap_items p)"

definition ap_hasMore :: "announcements_page \<Rightarrow> bool" where
  "ap_hasMore p = (ap_visibleCount p < length (ap_items p))"

text \<open>The last card scrolls into view.\<close>

definition last_card_seen :: "announcements_page \<Rightarrow> announcements_page" where
  "last_card_seen p =
     (if \<not> ap_loading p \<and> ap_hasMore p then p\<lparr>ap_visibleCount := ap_visibleCount p + PAGE_SIZE\<rparr> else p)"

definition announcement_cards :: "announcements_page \<Rightarrow> announcement list" where
  "announcement_cards p = (if \<not> ap_loading p \<and> ap_error p = [] then visibleItems p else [])"

lemma list_ex_filter: "list_ex Q (filter P xs) = (\<exists>a \<in> set xs. P a \<and> Q a)"
  by (induction xs) auto

lemma indicator_spec:
  "ai_hasUnread (computeAnnouncementsIndicator parse items s now) =
     (\<exists>a \<in> set (nullish items []). is_unread parse (last_seen_ms parse s now) a)"
  "ai_hasCriticalUnread (computeAnnouncementsIndicator parse items s now) =
     (\<exists>a \<in> set (nullish items []). is_unread parse (last_seen_ms parse s now) a \<and> an_severity a = Some ''critical'')"
  by (auto simp: computeAnnouncementsIndicator_def Let_def list_ex_filter filter_empty_conv)

text \<open>
  Fact (opening_clears_the_dot). After the announcements page was opened, the dot of the navigation
  shows exactly the announcements published later, and its critical colour the critical ones among them; on
  a browser that never opened it, those of the last two days. Scrolling shows every announcement in the end,
  fifteen more at a time, and never more than there are.
\<close>

lemma reveal_progress:
  assumes "\<not> ap_loading p" "ap_error p = []" "length (ap_items p) \<le> ap_visibleCount p + n * PAGE_SIZE"
  shows "announcement_cards ((last_card_seen ^^ n) p) = ap_items p"
  using assms
proof (induction n arbitrary: p)
  case 0
  then show ?case by (simp add: announcement_cards_def visibleItems_def)
next
  case (Suc n)
  let ?p = "last_card_seen p"
  have s: "\<not> ap_loading ?p" "ap_error ?p = []" "ap_items ?p = ap_items p" using Suc.prems(1,2) by (simp_all add: last_card_seen_def)
  have "length (ap_items ?p) \<le> ap_visibleCount ?p + n * PAGE_SIZE"
    using Suc.prems by (auto simp: last_card_seen_def ap_hasMore_def)
  from Suc.IH [OF s(1,2) this] s(3) show ?case by (simp add: funpow_swap1)
qed

theorem opening_clears_the_dot:
  fixes parse :: time_parser and s s' :: AppState and items :: "announcement list" and p :: announcements_page and opened_at :: string
  assumes "parse opened_at = Some opened" and "opened_at \<noteq> []" and "app_announcementsLastSeenAt s = None"
  defines "p \<equiv> announcements_loaded (Inr (Some items)) (open_announcements opened_at s)"
  shows "(ai_hasUnread (computeAnnouncementsIndicator parse (Some items) (app_announcementsLastSeenAt (ap_store p)) now) \<longleftrightarrow>
            (\<exists>a \<in> set items. \<exists>t. Option.bind (an_published_at a) parse = Some t \<and> opened < t)) \<and>
         (ai_hasCriticalUnread (computeAnnouncementsIndicator parse (Some items) (app_announcementsLastSeenAt (ap_store p)) now) \<longleftrightarrow>
            (\<exists>a \<in> set items. an_severity a = Some ''critical'' \<and> (\<exists>t. Option.bind (an_published_at a) parse = Some t \<and> opened < t))) \<and>
         (ai_hasUnread (computeAnnouncementsIndicator parse (Some items) (app_announcementsLastSeenAt s) now) \<longleftrightarrow>
            (\<exists>a \<in> set items. \<exists>t. Option.bind (an_published_at a) parse = Some t \<and> now - CLEAN_BROWSER_UNREAD_WINDOW_MS < t)) \<and>
         announcement_cards ((last_card_seen ^^ (length items div PAGE_SIZE)) p) = items"
proof -
  have seen: "app_announcementsLastSeenAt (ap_store p) = Some opened_at"
    by (simp add: p_def announcements_loaded_def open_announcements_def markAnnouncementsSeen_def)
  have u: "is_unread parse (Some l) a = (\<exists>t. Option.bind (an_published_at a) parse = Some t \<and> l < t)" for l a
    by (auto simp: is_unread_def split: option.split)
  have l: "last_seen_ms parse (Some opened_at) now = Some opened"
    "last_seen_ms parse None now = Some (now - CLEAN_BROWSER_UNREAD_WINDOW_MS)"
    using assms(1,2) by (simp_all add: last_seen_ms_def)
  have "length items \<le> PAGE_SIZE + (length items div PAGE_SIZE) * PAGE_SIZE"
    using div_mult_mod_eq [of "length items" PAGE_SIZE] mod_less_divisor [of PAGE_SIZE "length items"]
    by (simp add: PAGE_SIZE_def)
  then have "announcement_cards ((last_card_seen ^^ (length items div PAGE_SIZE)) p) = ap_items p"
    by (intro reveal_progress) (simp_all add: p_def announcements_loaded_def open_announcements_def)
  then have cards: "announcement_cards ((last_card_seen ^^ (length items div PAGE_SIZE)) p) = items"
    by (simp add: p_def announcements_loaded_def)
  show ?thesis
    unfolding indicator_spec seen assms(3) l u using cards by auto
qed

theorem opening_clears_the_dot_witness:
  "let items = [\<lparr>an_published_at = Some ''2025-01-02T00:00:00Z'', an_severity = Some ''critical'', an_title = None\<rparr>];
       p = announcements_loaded (Inr (Some items)) (open_announcements ''2025-01-03T00:00:00.000Z'' initial_store)
   in \<not> ai_hasUnread (computeAnnouncementsIndicator iso_parse (Some items) (app_announcementsLastSeenAt (ap_store p)) 0) \<and>
      announcement_cards ((last_card_seen ^^ (length items div PAGE_SIZE)) p) = items"
proof -
  let ?a = "\<lparr>an_published_at = Some ''2025-01-02T00:00:00Z'', an_severity = Some ''critical'', an_title = None\<rparr>"
  have t: "iso_parse ''2025-01-03T00:00:00.000Z'' = Some 1735862400000" "iso_parse ''2025-01-02T00:00:00Z'' = Some 1735776000000"
    by code_simp+
  have "\<not> (\<exists>a \<in> set [?a]. \<exists>t. Option.bind (an_published_at a) iso_parse = Some t \<and> (1735862400000 :: int) < t)"
    by (simp add: t(2))
  with opening_clears_the_dot [where parse = iso_parse and items = "[?a]" and now = 0, OF t(1), of initial_store]
  show ?thesis unfolding Let_def by (simp only: initial_store_def AppState.select_convs) blast
qed

text \<open>
  Fact (failed_load_marks_seen). The page marks everything as seen when it opens, before it has loaded
  anything: when its request fails nothing is shown, and the dot is off for every announcement published so
  far, critical ones included.
\<close>

theorem failed_load_marks_seen:
  fixes parse :: time_parser and s :: AppState and items :: "announcement list" and p :: announcements_page and opened_at :: string and err :: thrown
  assumes "parse opened_at = Some opened" and "opened_at \<noteq> []"
    and "\<forall>a \<in> set items. \<forall>t. Option.bind (an_published_at a) parse = Some t \<longrightarrow> t \<le> opened"
  defines "p \<equiv> announcements_loaded (Inl err) (open_announcements opened_at s)"
  shows "announcement_cards p = [] \<and> ap_error p = LOAD_FAILED \<and>
         computeAnnouncementsIndicator parse (Some items) (app_announcementsLastSeenAt (ap_store p)) now =
           \<lparr>ai_hasUnread = False, ai_hasCriticalUnread = False\<rparr>"
proof -
  have p: "announcement_cards p = [] \<and> ap_error p = LOAD_FAILED" "app_announcementsLastSeenAt (ap_store p) = Some opened_at"
    by (simp_all add: p_def announcements_loaded_def open_announcements_def markAnnouncementsSeen_def announcement_cards_def LOAD_FAILED_def)
  have l: "last_seen_ms parse (Some opened_at) now = Some opened" using assms(1,2) by (simp add: last_seen_ms_def)
  have "filter (is_unread parse (Some opened)) items = []"
    using assms(3) by (auto simp: filter_empty_conv is_unread_def split: option.splits)
  with p show ?thesis by (simp add: computeAnnouncementsIndicator_def l)
qed

theorem failed_load_marks_seen_witness:
  "let p = announcements_loaded (Inl rate_limited) (open_announcements ''2025-01-03T00:00:00.000Z'' initial_store);
       items = [\<lparr>an_published_at = Some ''2025-01-02T00:00:00Z'', an_severity = Some ''critical'', an_title = None\<rparr>]
   in announcement_cards p = [] \<and>
      computeAnnouncementsIndicator iso_parse (Some items) (app_announcementsLastSeenAt (ap_store p)) 0 =
        \<lparr>ai_hasUnread = False, ai_hasCriticalUnread = False\<rparr>"
proof -
  let ?a = "\<lparr>an_published_at = Some ''2025-01-02T00:00:00Z'', an_severity = Some ''critical'', an_title = None\<rparr>"
  have t: "iso_parse ''2025-01-03T00:00:00.000Z'' = Some 1735862400000" "iso_parse ''2025-01-02T00:00:00Z'' = Some 1735776000000"
    by code_simp+
  have "''2025-01-03T00:00:00.000Z'' \<noteq> ([] :: string)" by simp
  moreover have "\<forall>a \<in> set [?a]. \<forall>t. Option.bind (an_published_at a) iso_parse = Some t \<longrightarrow> t \<le> 1735862400000" by (simp add: t(2))
  ultimately show ?thesis
    using failed_load_marks_seen [where parse = iso_parse and err = rate_limited and s = initial_store and now = 0, OF t(1)]
    unfolding Let_def by blast
qed

subsection \<open>The connection status\<close>

record DnsCheckResponse =
  dc_status :: string
  dc_profile_id :: string

record StatusInfo =
  si_badge :: string
  si_message :: string
  si_isCurrentProfile :: bool

record dns_connection =
  dn_response :: DnsCheckResponse
  dn_isLoading :: bool
  dn_error :: string
  dn_lastStable :: "StatusInfo option"

definition fresh_dns :: dns_connection where
  "fresh_dns = \<lparr>dn_response = \<lparr>dc_status = [], dc_profile_id = []\<rparr>, dn_isLoading = True, dn_error = [], dn_lastStable = None\<rparr>"

text \<open>A check starts, and its answer: the status and the body, or the error thrown.\<close>

definition dns_check_started :: "dns_connection \<Rightarrow> dns_connection" where
  "dns_check_started d = d\<lparr>dn_error := []\<rparr>"

definition dns_checked :: "thrown + (nat \<times> DnsCheckResponse) \<Rightarrow> dns_connection \<Rightarrow> dns_connection" where
  "dns_checked answer d =
     (case answer of
        Inr (status, resp) \<Rightarrow> (if status = 200 then d\<lparr>dn_response := resp, dn_isLoading := False\<rparr> else d)
      | Inl err \<Rightarrow>
          if thrown_status err = Some 404 \<and> thrown_error err = Some ''disconnected''
          then d\<lparr>dn_response := \<lparr>dc_status = ''disconnected'', dc_profile_id = []\<rparr>, dn_isLoading := False, dn_error := []\<rparr>
          else d\<lparr>dn_isLoading := False, dn_error := ''Failed to check DNS status''\<rparr>)"

definition getCurrentProfileName :: "ModelProfile list \<Rightarrow> string \<Rightarrow> string" where
  "getCurrentProfileName profiles i =
     (if i = [] then ''Unknown Profile''
      else case find (\<lambda>p. pf_profile_id p = i) profiles of
             None \<Rightarrow> ''Unknown Profile''
           | Some p \<Rightarrow> if pf_name p = [] then ''Unknown Profile'' else pf_name p)"

definition stable_status :: "AppState \<Rightarrow> dns_connection \<Rightarrow> StatusInfo" where
  "stable_status s d =
     (let r = dn_response d in
      if dn_error d \<noteq> [] then \<lparr>si_badge = ''Error'', si_message = ''Unable to check DNS status.'', si_isCurrentProfile = False\<rparr>
      else if dc_status r = ''ok'' then
        (if map_option pf_profile_id (app_activeProfile s) = Some (dc_profile_id r)
         then \<lparr>si_badge = ''Connected'', si_message = ''This device or browser is currently using modDNS with this profile.'',
               si_isCurrentProfile = True\<rparr>
         else \<lparr>si_badge = ''Different Profile'',
               si_message = ''This device or browser is using modDNS with profile: '' @ getCurrentProfileName (app_profiles s) (dc_profile_id r),
               si_isCurrentProfile = False\<rparr>)
      else if dc_status r = ''disconnected'' then
        \<lparr>si_badge = ''Disconnected'', si_message = ''This device or browser is not using modDNS.'', si_isCurrentProfile = False\<rparr>
      else \<lparr>si_badge = ''Checking...'', si_message = ''Checking DNS configuration...'', si_isCurrentProfile = False\<rparr>)"

text \<open>A render: what is shown, and the status kept for later.\<close>

definition getStatusInfo :: "AppState \<Rightarrow> dns_connection \<Rightarrow> StatusInfo \<times> dns_connection" where
  "getStatusInfo s d =
     (if \<not> dn_isLoading d then (stable_status s d, d\<lparr>dn_lastStable := Some (stable_status s d)\<rparr>)
      else case dn_lastStable d of
             Some l \<Rightarrow> (l\<lparr>si_badge := ''Checking...''\<rparr>, d)
           | None \<Rightarrow> (\<lparr>si_badge = ''Checking...'', si_message = ''Checking DNS configuration...'', si_isCurrentProfile = False\<rparr>, d))"

datatype dns_event = DnsPoll | DnsAnswer "thrown + (nat \<times> DnsCheckResponse)" | DnsRender AppState

fun dns_step :: "dns_connection \<Rightarrow> dns_event \<Rightarrow> dns_connection" where
  "dns_step d DnsPoll = dns_check_started d"
| "dns_step d (DnsAnswer a) = dns_checked a d"
| "dns_step d (DnsRender s) = snd (getStatusInfo s d)"

definition dns_ok :: "dns_connection \<Rightarrow> bool" where
  "dns_ok d \<longleftrightarrow> (dn_isLoading d \<longrightarrow> dn_lastStable d = None \<and> dn_error d = [] \<and> dn_response d = dn_response fresh_dns)"

text \<open>
  Fact (dns_status_truthful). Whatever polls, answers and renders came before, the badge says Connected
  only when the last body that arrived names the active profile, Different Profile only when it names another
  one, and Disconnected only when the last answer taken over said so. The kept status is never the one shown.
\<close>

lemma dns_step_ok: "dns_ok d \<Longrightarrow> dns_ok (dns_step d e)"
  by (cases e) (auto simp: dns_ok_def dns_check_started_def dns_checked_def getStatusInfo_def split: sum.split)

interpretation dns_machine: machine dns_step dns_ok
  by unfold_locales (rule dns_step_ok)

fun last_body :: "dns_event list \<Rightarrow> DnsCheckResponse" where
  "last_body [] = dn_response fresh_dns"
| "last_body (e # es) =
     (case e of
        DnsAnswer (Inr (status, resp)) \<Rightarrow> if status = 200 then resp else last_body es
      | DnsAnswer (Inl err) \<Rightarrow>
          if thrown_status err = Some 404 \<and> thrown_error err = Some ''disconnected''
          then \<lparr>dc_status = ''disconnected'', dc_profile_id = []\<rparr> else last_body es
      | _ \<Rightarrow> last_body es)"

lemma dns_response_last: "dn_response (foldl dns_step fresh_dns es) = last_body (rev es)"
proof (induction es rule: rev_induct)
  case (snoc e es)
  then show ?case
    by (cases e) (auto simp: dns_check_started_def dns_checked_def getStatusInfo_def split: sum.split option.split)
qed simp

theorem dns_status_truthful:
  fixes d :: dns_connection and es :: "dns_event list" and s :: AppState
  defines "d \<equiv> foldl dns_step fresh_dns es"
  shows "(si_badge (fst (getStatusInfo s d)) = ''Connected'' \<longrightarrow> dc_status (last_body (rev es)) = ''ok'' \<and>
            map_option pf_profile_id (app_activeProfile s) = Some (dc_profile_id (last_body (rev es)))) \<and>
         (si_badge (fst (getStatusInfo s d)) = ''Different Profile'' \<longrightarrow> dc_status (last_body (rev es)) = ''ok'' \<and>
            map_option pf_profile_id (app_activeProfile s) \<noteq> Some (dc_profile_id (last_body (rev es)))) \<and>
         (si_badge (fst (getStatusInfo s d)) = ''Disconnected'' \<longrightarrow> dc_status (last_body (rev es)) = ''disconnected'') \<and>
         (dn_isLoading d \<longrightarrow> dn_lastStable d = None)"
proof -
  have "dns_ok (foldl dns_step fresh_dns es)" by (rule dns_machine.run_inv) (simp add: dns_ok_def fresh_dns_def)
  then have ok: "dns_ok d" by (simp add: d_def)
  have r: "dn_response d = last_body (rev es)" by (simp add: d_def dns_response_last)
  have load: "dn_isLoading d \<longrightarrow> dn_lastStable d = None" using ok by (simp add: dns_ok_def)
  show ?thesis
  proof (cases "dn_isLoading d")
    case True
    with load show ?thesis by (simp add: getStatusInfo_def)
  next
    case False
    then have g: "fst (getStatusInfo s d) = stable_status s d" by (simp add: getStatusInfo_def)
    show ?thesis unfolding g using False by (simp add: stable_status_def Let_def r)
  qed
qed

definition home_store :: AppState where
  "home_store = setActiveProfile (Some (plain_profile ''p1'' ''Home'')) (setProfiles [plain_profile ''p1'' ''Home''] initial_store)"

lemma home_store_active: "map_option pf_profile_id (app_activeProfile home_store) = Some ''p1''"
  by (simp add: home_store_def setActiveProfile_def plain_profile_def)

definition ok_answer :: dns_event where
  "ok_answer = DnsAnswer (Inr (200, \<lparr>dc_status = ''ok'', dc_profile_id = ''p1''\<rparr>))"

theorem dns_status_truthful_witness:
  "let d = foldl dns_step fresh_dns [DnsPoll, ok_answer]
   in si_badge (fst (getStatusInfo home_store d)) = ''Connected'' \<and> dc_status (last_body [ok_answer, DnsPoll]) = ''ok''"
proof -
  let ?d = "foldl dns_step fresh_dns [DnsPoll, ok_answer]"
  have "si_badge (fst (getStatusInfo home_store ?d)) = ''Connected''"
    by (simp add: ok_answer_def dns_checked_def dns_check_started_def getStatusInfo_def stable_status_def Let_def home_store_active)
  with dns_status_truthful [where es = "[DnsPoll, ok_answer]" and s = home_store] show ?thesis
    unfolding Let_def by (simp only: rev.simps append.simps)
qed

text \<open>
  Fact (failed_check_hidden_while_polling). Every check clears the error of the one before it and keeps its
  response, so while a check is on its way after a failed one, the badge goes back to what an older
  response said, for instance Connected.
\<close>

theorem failed_check_hidden_while_polling:
  fixes d d1 d2 :: dns_connection and err :: thrown
  assumes "dc_status (dn_response d) = ''ok''" and "map_option pf_profile_id (app_activeProfile s) = Some (dc_profile_id (dn_response d))"
    and "thrown_status err \<noteq> Some 404"
  defines "d1 \<equiv> dns_checked (Inl err) d" and "d2 \<equiv> dns_check_started (dns_checked (Inl err) d)"
  shows "si_badge (fst (getStatusInfo s d1)) = ''Error'' \<and> si_badge (fst (getStatusInfo s d2)) = ''Connected''"
  using assms(1-3) by (simp add: d1_def d2_def dns_checked_def dns_check_started_def getStatusInfo_def stable_status_def Let_def)

theorem failed_check_hidden_while_polling_witness:
  "let d = foldl dns_step fresh_dns [DnsPoll, ok_answer, DnsPoll];
       d1 = dns_checked (Inl network_error) d
   in si_badge (fst (getStatusInfo home_store d1)) = ''Error'' \<and>
      si_badge (fst (getStatusInfo home_store (dns_check_started d1))) = ''Connected''"
proof -
  let ?d = "foldl dns_step fresh_dns [DnsPoll, ok_answer, DnsPoll]"
  have r: "dc_status (dn_response ?d) = ''ok''" "dc_profile_id (dn_response ?d) = ''p1''"
    by (simp_all add: ok_answer_def dns_checked_def dns_check_started_def)
  have a: "map_option pf_profile_id (app_activeProfile home_store) = Some (dc_profile_id (dn_response ?d))"
    unfolding r(2) by (rule home_store_active)
  have n: "thrown_status network_error \<noteq> Some 404" by (simp add: thrown_status_def network_error_def)
  from failed_check_hidden_while_polling [OF r(1) a n] show ?thesis unfolding Let_def .
qed

end
