(* ===== verification/QuickRule.thy ===== *)
theory QuickRule
  imports RuleComposer SettingsPage Session
begin

text \<open>
  The sheet that makes a rule out of a domain of the query logs or of the statistics:
  app/src/components/custom-rules/QuickRuleSheet.tsx with its openings in app/src/pages/logs/Logs.tsx and
  app/src/pages/statistics/groups.tsx, against the bulk creation of the API.

  The server is the list of the account's profiles. What the closure of a submit remembers is a record of its
  own, so that the sheet may be closed, opened again or get another profile before the answer comes.
\<close>

subsection \<open>The sheet\<close>

definition ACTION_TO_API :: "RuleList \<Rightarrow> string" where
  "ACTION_TO_API a = (case a of Denylist \<Rightarrow> ''block'' | Allowlist \<Rightarrow> ''allow'')"

definition ACTION_LABEL :: "RuleList \<Rightarrow> string" where
  "ACTION_LABEL a = (case a of Denylist \<Rightarrow> ''Denylist'' | Allowlist \<Rightarrow> ''Allowlist'')"

definition prefillDomain :: "string \<Rightarrow> string \<Rightarrow> string" where
  "prefillDomain raw mode =
     (if mode = ''exact'' then raw else ''*.'' @ (if js_startsWith raw ''www.'' then drop 4 raw else raw))"

text \<open>\<open>qs_statistics\<close>: the sheet belongs to the statistics page, which remembers the rules added.\<close>

record quick_sheet =
  qs_statistics :: bool
  qs_open :: bool
  qs_domain :: "string option"
  qs_defaultAction :: "RuleList option"
  qs_action :: RuleList
  qs_domainValue :: string
  qs_isSubmitting :: bool
  qs_inputError :: "string option"
  qs_duplicateValue :: "string option"
  qs_store :: AppState
  qs_toasts :: "(toast_level \<times> string) list"
  qs_added :: "string set"

definition qs_toast :: "toast_level \<Rightarrow> string \<Rightarrow> quick_sheet \<Rightarrow> quick_sheet" where
  "qs_toast l m d = d\<lparr>qs_toasts := qs_toasts d @ [(l, m)]\<rparr>"

definition subdomains_rule :: "AppState \<Rightarrow> string" where
  "subdomains_rule s =
     nullish (Option.bind (Option.bind (app_activeProfile s) pf_settings) (\<lambda>t. pv_custom_rules_subdomains_rule (ps_privacy t))) ''include''"

text \<open>The effect of opening, of another domain and of another profile object.\<close>

definition qs_effect :: "quick_sheet \<Rightarrow> quick_sheet" where
  "qs_effect d =
     (if \<not> qs_open d then d
      else d\<lparr>qs_action := nullish (qs_defaultAction d) Denylist,
             qs_domainValue := (if truthy_str (qs_domain d) then prefillDomain (the (qs_domain d)) (subdomains_rule (qs_store d)) else []),
             qs_inputError := None, qs_duplicateValue := None\<rparr>)"

definition handleOpenQuickRule :: "bool \<Rightarrow> string \<Rightarrow> RuleList \<Rightarrow> quick_sheet \<Rightarrow> quick_sheet" where
  "handleOpenQuickRule restricted domain action d =
     (if (domain = [] \<and> \<not> qs_statistics d) \<or> restricted then d
      else qs_effect (d\<lparr>qs_domain := Some domain, qs_defaultAction := Some action, qs_open := True\<rparr>))"

definition qs_close :: "quick_sheet \<Rightarrow> quick_sheet" where
  "qs_close d =
     d\<lparr>qs_open := False, qs_domain := None, qs_defaultAction := (if qs_statistics d then None else qs_defaultAction d)\<rparr>"

definition active_id :: "AppState \<Rightarrow> string option" where
  "active_id s = map_option pf_profile_id (app_activeProfile s)"

text \<open>The active profile is written: the effect of the sheet, and the one of the page, which closes it.\<close>

definition qs_profile_written :: "AppState \<Rightarrow> quick_sheet \<Rightarrow> quick_sheet" where
  "qs_profile_written s d =
     (let d1 = qs_effect (d\<lparr>qs_store := s\<rparr>)
      in if truthy_str (active_id (qs_store d)) \<and> active_id (qs_store d) \<noteq> active_id s then qs_close d1 else d1)"

definition qs_disabled :: "quick_sheet \<Rightarrow> bool" where
  "qs_disabled d \<longleftrightarrow> js_trim (qs_domainValue d) = [] \<or> qs_isSubmitting d"

definition ACTION_SEQUENCE :: "RuleList list" where "ACTION_SEQUENCE = [Denylist, Allowlist]"

text \<open>Keys on the choice of the action, and its button.\<close>

definition handleActionKeyDown :: "string \<Rightarrow> quick_sheet \<Rightarrow> quick_sheet" where
  "handleActionKeyDown key d =
     (if js_toLowerCase key \<in> {''b'', ''d''} then d\<lparr>qs_action := Denylist\<rparr>
      else if js_toLowerCase key = ''a'' then d\<lparr>qs_action := Allowlist\<rparr>
      else if key \<in> {''ArrowLeft'', ''ArrowRight''} then
        (let currentIndex = (if qs_action d = Denylist then 0 else 1 :: int);
             delta = (if key = ''ArrowRight'' then 1 else -1);
             nextIndex = (currentIndex + delta + int (length ACTION_SEQUENCE)) mod int (length ACTION_SEQUENCE)
         in d\<lparr>qs_action := ACTION_SEQUENCE ! nat nextIndex\<rparr>)
      else d)"

subsection \<open>The submit\<close>

record quick_request =
  qr_pid :: string
  qr_action :: RuleList
  qr_value :: string
  qr_sheetDomain :: "string option"

definition qs_submit :: "quick_sheet \<Rightarrow> quick_sheet \<times> quick_request option" where
  "qs_submit d =
     (case normalizeRuleValue (qs_domainValue d) of
        None \<Rightarrow> (d\<lparr>qs_inputError := Some ''Enter a valid domain or hostname.''\<rparr>, None)
      | Some v \<Rightarrow>
          if v = [] then (d\<lparr>qs_inputError := Some ''Enter a valid domain or hostname.''\<rparr>, None)
          else if \<not> truthy_str (active_id (qs_store d)) then (qs_toast TError ''Select a profile before adding custom rules.'' d, None)
          else (d\<lparr>qs_isSubmitting := True, qs_inputError := None, qs_duplicateValue := None\<rparr>,
                Some \<lparr>qr_pid = the (active_id (qs_store d)), qr_action = qs_action d, qr_value = v, qr_sheetDomain = qs_domain d\<rparr>))"

text \<open>The answer; the flag says that the profile is read next.\<close>

definition qs_answered ::
  "thrown + ModelCustomRule list \<times> (string \<times> skip_reason) list \<Rightarrow> quick_request \<Rightarrow> quick_sheet \<Rightarrow> quick_sheet \<times> bool" where
  "qs_answered answer r d =
     (case answer of
        Inl e \<Rightarrow> ((qs_toast TError (formatApiError e ''Failed to add custom rule.'') d)\<lparr>qs_isSubmitting := False\<rparr>, False)
      | Inr (created, skipped) \<Rightarrow>
          if created \<noteq> [] then (d, True)
          else
            ((case skipped of
                [] \<Rightarrow> qs_toast TInfo ''No changes were applied.'' d
              | (_, reason) # _ \<Rightarrow>
                  if qs_statistics d \<and> reason_text reason = ''duplicate_existing'' then d\<lparr>qs_duplicateValue := Some (qr_value r)\<rparr>
                  else qs_toast TWarning ''Review the highlighted entry before trying again.''
                         (d\<lparr>qs_inputError := Some (reason_message reason)\<rparr>))\<lparr>qs_isSubmitting := False\<rparr>, False))"

definition qs_refetched :: "thrown + ModelProfile \<Rightarrow> quick_request \<Rightarrow> quick_sheet \<Rightarrow> quick_sheet" where
  "qs_refetched fetched r d =
     (case fetched of
        Inl e \<Rightarrow> (qs_toast TError (formatApiError e ''Failed to add custom rule.'') d)\<lparr>qs_isSubmitting := False\<rparr>
      | Inr p \<Rightarrow>
          (qs_close (qs_toast TSuccess (qr_value r @ '' added to the '' @ ACTION_LABEL (qr_action r) @ ''.'')
             (d\<lparr>qs_store := setActiveProfile (Some p) (qs_store d),
                qs_added := (if qs_statistics d \<and> qr_sheetDomain r \<noteq> None
                             then insert (qr_pid r @ ''|'' @ the (qr_sheetDomain r)) (qs_added d) else qs_added d)\<rparr>)))
          \<lparr>qs_isSubmitting := False\<rparr>)"

text \<open>The link of the notice about a rule that exists already.\<close>

definition customRulesPath :: "RuleList \<Rightarrow> string" where
  "customRulesPath a = ''/custom-rules?list='' @ (case a of Denylist \<Rightarrow> ''denylist'' | Allowlist \<Rightarrow> ''allowlist'')"

definition duplicate_link :: "quick_sheet \<Rightarrow> string option" where
  "duplicate_link d = (if qs_statistics d \<and> truthy_str (qs_duplicateValue d) then Some (customRulesPath (qs_action d)) else None)"

subsection \<open>The API\<close>

definition profile_of :: "string \<Rightarrow> ModelProfile list \<Rightarrow> ModelProfile option" where
  "profile_of pid srv = find (\<lambda>p. pf_profile_id p = pid) srv"

definition exact_rules :: "ModelProfile \<Rightarrow> bool" where
  "exact_rules p = (Option.bind (pf_settings p) (\<lambda>t. pv_custom_rules_subdomains_rule (ps_privacy t)) = Some ''exact'')"

definition add_rules :: "ModelCustomRule list \<Rightarrow> ModelProfile \<Rightarrow> ModelProfile" where
  "add_rules created p = p\<lparr>pf_settings := map_option (\<lambda>t. t\<lparr>ps_custom_rules := Some (rules_of p @ created)\<rparr>) (pf_settings p)\<rparr>"

definition api_createRules ::
  "rule_checks \<Rightarrow> string \<Rightarrow> string \<Rightarrow> string list \<Rightarrow> ModelProfile list \<Rightarrow>
   (thrown + ModelCustomRule list \<times> (string \<times> skip_reason) list) \<times> ModelProfile list" where
  "api_createRules ck pid action values srv =
     (case profile_of pid srv of
        None \<Rightarrow> (Inl (api_error 404 ''resource not found''), srv)
      | Some p \<Rightarrow>
          (case CreateCustomRulesBulk ck (exact_rules p)
                  (sum_list (map (\<lambda>q. length (rules_of q)) (filter (\<lambda>q. pf_profile_id q \<noteq> pid) srv))) action values (rules_of p) of
             Inl e \<Rightarrow> (Inl e, srv)
           | Inr (created, skipped) \<Rightarrow>
               (Inr (created, skipped),
                if created = [] then srv else map (\<lambda>q. if pf_profile_id q = pid then add_rules created q else q) srv)))"

definition api_getProfile :: "string \<Rightarrow> ModelProfile list \<Rightarrow> thrown + ModelProfile" where
  "api_getProfile pid srv =
     (case profile_of pid srv of None \<Rightarrow> Inl (api_error 404 ''resource not found'') | Some p \<Rightarrow> Inr p)"

lemma profile_of_Some: "profile_of pid srv = Some p \<Longrightarrow> p \<in> set srv \<and> pf_profile_id p = pid"
  by (auto simp: profile_of_def find_Some_iff)

lemma find_other: "find P (map (\<lambda>q. if P q then f q else q) xs) = map_option f (find P xs)" if "\<And>q. P (f q) = P q"
  by (induction xs) (simp_all add: that)

lemma add_rules_id [simp]: "pf_profile_id (add_rules created p) = pf_profile_id p"
  by (simp add: add_rules_def)

lemma add_rules_rules: "pf_settings p \<noteq> None \<Longrightarrow> rules_of (add_rules created p) = rules_of p @ created"
  by (auto simp: add_rules_def rules_of_def)

text \<open>The bulk creation of one value.\<close>

lemma create_one:
  assumes "CreateCustomRulesBulk ck exact others action [v] rules = Inr (created, skipped)"
  defines "n \<equiv> api_normalizeRuleValue ck exact v"
  shows "(created \<noteq> [] \<and> n \<notin> cr_value ` set rules \<and> skipped = [] \<and>
            (\<exists>rule. created = [rule] \<and> cr_value rule = n \<and> cr_action rule = action)) \<or>
         (created = [] \<and> (\<exists>x reason. skipped = [(x, reason)] \<and> (reason = DuplicateExisting \<longrightarrow> n \<in> cr_value ` set rules) \<and>
            (n \<noteq> [] \<and> ck_syntax_ok ck n \<and> n \<in> cr_value ` set rules \<longrightarrow> reason = DuplicateExisting)))"
  using create_cases [OF assms(1)] unfolding n_def
  by (auto simp: bulk_loop_def bulk_step_def Let_def split: if_splits)

lemma qs_sent:
  assumes "qs_submit d = (d1, Some r)"
  shows "d1 = d\<lparr>qs_isSubmitting := True, qs_inputError := None, qs_duplicateValue := None\<rparr>"
    and "normalizeRuleValue (qs_domainValue d) = Some (qr_value r)" and "active_id (qs_store d) = Some (qr_pid r)"
    and "qr_action r = qs_action d" and "qr_sheetDomain r = qs_domain d"
  using assms by (auto simp: qs_submit_def truthy_str_def split: option.splits if_splits)


text \<open>
  Fact (quick_rule_value). Opened for a domain on a profile that includes subdomains, the sheet asks for the
  wildcard of the site without its \<open>www.\<close>, and that is the value the API stores.
\<close>

lemma wildcard_normal:
  assumes "\<forall>c \<in> set w. \<not> js_space c" and "w \<noteq> []" "\<not> js_endsWith w ''.''"
  shows "normalizeRuleValue (''*.'' @ w) = Some (''*.'' @ w)" and "api_normalizeRuleValue ck exact (''*.'' @ w) = ''*.'' @ w"
proof -
  have sp: "\<forall>c \<in> set (''*.'' @ w). \<not> js_space c" using assms(1) by (auto simp: js_space_def)
  note t = js_trim_word [OF sp]
  have e: "\<not> js_endsWith (''*.'' @ w) ''.''" using assms(2,3) by (cases w rule: rev_cases) (auto simp: js_endsWith_iff)
  show "normalizeRuleValue (''*.'' @ w) = Some (''*.'' @ w)" unfolding normalizeRuleValue_def t using e by simp
  have s: "\<not> js_startsWith (''*.'' @ w) ''.''" by (simp add: js_startsWith_iff)
  have "\<not> js_startsWith (map go_upper_char (''*.'' @ w)) ''AS''" by (simp add: js_startsWith_iff go_upper_char_def)
  then have asn: "normalizeASN (''*.'' @ w) = None" unfolding normalizeASN_def t by (simp add: Let_def)
  show "api_normalizeRuleValue ck exact (''*.'' @ w) = ''*.'' @ w"
    unfolding api_normalizeRuleValue_def t Let_def using e s asn by simp
qed

theorem quick_rule_value:
  fixes d :: quick_sheet and raw w :: string
  defines "w \<equiv> if js_startsWith raw ''www.'' then drop 4 raw else raw"
  assumes "\<forall>c \<in> set raw. \<not> js_space c" and "w \<noteq> []" "\<not> js_endsWith w ''.''"
    and "subdomains_rule (qs_store d) \<noteq> ''exact''" and "active_id (qs_store d) = Some pid" "pid \<noteq> []"
  shows "\<exists>r. snd (qs_submit (handleOpenQuickRule False raw act d)) = Some r \<and> qr_pid r = pid \<and> qr_action r = act \<and>
           qr_value r = ''*.'' @ w \<and> api_normalizeRuleValue ck False (qr_value r) = ''*.'' @ w"
proof -
  have sp: "\<forall>c \<in> set w. \<not> js_space c" using assms(2) set_drop_subset [of 4 raw] by (auto simp: w_def)
  have raw: "raw \<noteq> []" using assms(3) by (auto simp: w_def)
  have v: "qs_domainValue (handleOpenQuickRule False raw act d) = ''*.'' @ w" "qs_action (handleOpenQuickRule False raw act d) = act"
    "qs_store (handleOpenQuickRule False raw act d) = qs_store d"
    using raw assms(5) by (simp_all add: handleOpenQuickRule_def qs_effect_def prefillDomain_def w_def)
  note n = wildcard_normal [OF sp assms(3,4)]
  show ?thesis
    unfolding qs_submit_def v n(1) using assms(6,7) n(2) by simp
qed

text \<open>
  Fact (duplicate_link_wrong_tab). A value is refused when any list has it, but the notice links to the list
  that was chosen: when the existing rule is in the other list, the link opens the list without it.
\<close>

theorem duplicate_link_wrong_tab:
  fixes d d1 d2 :: quick_sheet and r :: quick_request and p :: ModelProfile and v :: string and ck :: rule_checks
  defines "v \<equiv> api_normalizeRuleValue ck (exact_rules p) (qr_value r)"
  assumes "qs_submit d = (d1, Some r)" and "qs_statistics d"
    and "api_createRules ck (qr_pid r) (ACTION_TO_API (qr_action r)) [qr_value r] srv = (answer, srv')"
    and "qs_answered answer r d1 = (d2, fetch)" and "profile_of (qr_pid r) srv = Some p"
    and "ck_request_ok ck (qr_value r)" "ck_syntax_ok ck v" "v \<noteq> []" "v \<in> cr_value ` set (rules_of p)"
    and "\<forall>x \<in> set (rules_of p). cr_value x = v \<longrightarrow> cr_action x \<noteq> ACTION_TO_API (qs_action d)"
  shows "srv' = srv \<and> duplicate_link d2 = Some (customRulesPath (qs_action d)) \<and>
         v \<notin> cr_value ` set (filter (\<lambda>x. cr_action x = ACTION_TO_API (qs_action d)) (rules_of p))"
proof -
  note sent = qs_sent [OF assms(2)]
  have ne: "truthy_str (Some (qr_value r))" using assms(2) by (auto simp: qs_submit_def split: option.splits if_splits)
  let ?others = "sum_list (map (\<lambda>x. length (rules_of x)) (filter (\<lambda>x. pf_profile_id x \<noteq> qr_pid r) srv))"
  have "CreateCustomRulesBulk ck (exact_rules p) ?others (ACTION_TO_API (qr_action r)) [qr_value r] (rules_of p) = Inr ([], [(v, DuplicateExisting)])"
    using assms(7-10) by (simp add: CreateCustomRulesBulk_def bulk_loop_def bulk_step_def v_def [symmetric] Let_def)
  then have a: "answer = Inr ([], [(v, DuplicateExisting)])" "srv' = srv"
    using assms(4,6) by (simp_all add: api_createRules_def)
  have "d2 = d1\<lparr>qs_duplicateValue := Some (qr_value r), qs_isSubmitting := False\<rparr>"
    using assms(3,5) a(1) by (simp add: qs_answered_def sent(1))
  then have "duplicate_link d2 = Some (customRulesPath (qs_action d))"
    using ne assms(3) by (simp add: duplicate_link_def sent(1))
  with a(2) assms(11) show ?thesis by auto
qed

text \<open>
  Fact (created_rule_reported_failed). When the rule is created but the profile cannot be read again, the
  sheet says that adding it failed and stays open, while the rule is stored; another submit is then refused
  because the rule exists.
\<close>

theorem created_rule_reported_failed:
  fixes d d1 d2 d3 :: quick_sheet and r :: quick_request and p :: ModelProfile and v :: string and ck :: rule_checks
    and srv srv' :: "ModelProfile list" and e :: thrown
  assumes "qs_submit d = (d1, Some r)" and "qs_open d"
    and "api_createRules ck (qr_pid r) (ACTION_TO_API (qr_action r)) [qr_value r] srv = (answer, srv')"
    and "qs_answered answer r d1 = (d2, True)"
    and "profile_of (qr_pid r) srv = Some p" "pf_settings p \<noteq> None"
  defines "v \<equiv> api_normalizeRuleValue ck (exact_rules p) (qr_value r)" and "d3 \<equiv> qs_refetched (Inl e) r d2"
  shows "qs_open d3 \<and> qs_toasts d3 = qs_toasts d @ [(TError, formatApiError e ''Failed to add custom rule.'')] \<and>
         qs_store d3 = qs_store d \<and> qs_added d3 = qs_added d \<and>
         (\<exists>p'. profile_of (qr_pid r) srv' = Some p' \<and> v \<in> cr_value ` set (rules_of p')) \<and>
         api_createRules ck (qr_pid r) (ACTION_TO_API (qr_action r)) [qr_value r] srv' = (Inr ([], [(v, DuplicateExisting)]), srv')"
proof -
  note sent = qs_sent [OF assms(1)]
  let ?others = "sum_list (map (\<lambda>x. length (rules_of x)) (filter (\<lambda>x. pf_profile_id x \<noteq> qr_pid r) srv))"
  let ?bulk = "CreateCustomRulesBulk ck (exact_rules p) ?others (ACTION_TO_API (qr_action r)) [qr_value r] (rules_of p)"
  obtain created skipped where a: "answer = Inr (created, skipped)" "created \<noteq> []" and d2: "d2 = d1"
    using assms(4) by (auto simp: qs_answered_def split: sum.splits if_splits prod.splits)
  have bulk: "?bulk = Inr (created, skipped)" and
    srv': "srv' = map (\<lambda>x. if pf_profile_id x = qr_pid r then add_rules created x else x) srv"
    using assms(3,5) a by (auto simp: api_createRules_def split: sum.splits prod.splits)
  from create_one [OF bulk] a(2) obtain rule where rule: "created = [rule]" "cr_value rule = v" by (auto simp: v_def)
  have req: "ck_request_ok ck (qr_value r)" using bulk by (simp add: CreateCustomRulesBulk_def split: if_splits)
  have ok: "v \<noteq> []" "ck_syntax_ok ck v"
    using bulk a(2) create_cases(1) [OF bulk] by (auto simp: bulk_loop_def bulk_step_def v_def Let_def split: if_splits)
  let ?p = "add_rules created p"
  have p': "profile_of (qr_pid r) srv' = Some ?p"
    using assms(5) unfolding profile_of_def srv' by (subst find_other) simp_all
  have rules: "rules_of ?p = rules_of p @ [rule]" using add_rules_rules [OF assms(6)] rule(1) by simp
  have ex: "exact_rules ?p = exact_rules p" using assms(6) by (auto simp: exact_rules_def add_rules_def)
  have again: "CreateCustomRulesBulk ck (exact_rules ?p) n act [qr_value r] (rules_of ?p) = Inr ([], [(v, DuplicateExisting)])" for n act
    using req ok rule(2) by (simp add: CreateCustomRulesBulk_def bulk_loop_def bulk_step_def v_def [symmetric] Let_def ex rules)
  have "api_createRules ck (qr_pid r) (ACTION_TO_API (qr_action r)) [qr_value r] srv' = (Inr ([], [(v, DuplicateExisting)]), srv')"
    by (simp add: api_createRules_def p' again)
  moreover have "v \<in> cr_value ` set (rules_of ?p)" using rule(2) by (simp add: rules)
  ultimately show ?thesis using assms(2) p' by (simp add: d3_def d2 sent(1) qs_refetched_def qs_toast_def)
qed

text \<open>
  Fact (late_answer_hits_new_sheet). Cancel closes the sheet but not its request: opened again for another
  domain, the sheet gets the answer of the first one. A success closes it before anything was submitted, a
  refusal is shown under the other domain.
\<close>

theorem late_answer_hits_new_sheet:
  fixes d d1 d2 :: quick_sheet and r :: quick_request and raw :: string and act :: RuleList
  assumes "qs_submit d = (d1, Some r)" and "raw \<noteq> []"
  defines "d2 \<equiv> handleOpenQuickRule False raw act (qs_close d1)"
  shows "qs_open d2 \<and> qs_domain d2 = Some raw \<and> \<not> qs_open (qs_refetched (Inr p) r d2) \<and>
         (\<not> qs_statistics d \<longrightarrow>
            qs_inputError (fst (qs_answered (Inr ([], [(x, reason)])) r d2)) = Some (reason_message reason) \<and>
            qs_domain (fst (qs_answered (Inr ([], [(x, reason)])) r d2)) = Some raw)"
  using assms(2) qs_sent(1) [OF assms(1)]
  by (simp add: d2_def handleOpenQuickRule_def qs_effect_def qs_close_def qs_refetched_def qs_answered_def qs_toast_def)

text \<open>
  Fact (late_answer_switches_back). When the user switches to another profile while a rule is being added, the
  page closes the sheet, but its answer makes the old profile the active one again.
\<close>

theorem late_answer_switches_back:
  fixes d d1 d2 :: quick_sheet and r :: quick_request and s :: AppState
  assumes "qs_submit d = (d1, Some r)" and "pf_profile_id p = qr_pid r" and "qr_pid r \<noteq> []" and "active_id s \<noteq> Some (qr_pid r)"
  defines "d2 \<equiv> qs_profile_written s d1"
  shows "active_id (qs_store d2) = active_id s \<and> \<not> qs_open d2 \<and> active_id (qs_store (qs_refetched (Inr p) r d2)) = Some (qr_pid r)"
proof -
  have d1: "active_id (qs_store d1) = Some (qr_pid r)" using qs_sent(1,3) [OF assms(1)] by simp
  have "d2 = qs_close (qs_effect (d1\<lparr>qs_store := s\<rparr>))"
    using assms(3,4) d1 by (auto simp: d2_def qs_profile_written_def Let_def)
  then show ?thesis
    using assms(2) by (simp add: qs_close_def qs_effect_def qs_refetched_def qs_toast_def active_id_def setActiveProfile_def)
qed

text \<open>
  Fact (refresh_resets_choice). The effect that fills the sheet also runs when the active profile is read
  again: an open sheet forgets that the user chose Allow and goes back to its default.
\<close>

theorem refresh_resets_choice:
  fixes d d' :: quick_sheet and s :: AppState
  assumes "raw \<noteq> []" and "active_id s = active_id (qs_store d)"
  defines "d' \<equiv> handleActionKeyDown ''a'' (handleOpenQuickRule False raw Denylist d)"
  shows "qs_action d' = Allowlist \<and> qs_open (qs_profile_written s d') \<and> qs_action (qs_profile_written s d') = Denylist"
proof -
  have "js_toLowerCase ''a'' = ''a''" by code_simp
  then have "d' = (handleOpenQuickRule False raw Denylist d)\<lparr>qs_action := Allowlist\<rparr>"
    unfolding d'_def handleActionKeyDown_def by (simp only:) simp
  with assms(1,2) show ?thesis by (simp add: handleOpenQuickRule_def qs_effect_def qs_profile_written_def Let_def)
qed

subsection \<open>Witnesses\<close>

definition ruled_profile :: ModelProfile where
  "ruled_profile = default_profile\<lparr>pf_settings := map_option (\<lambda>t. t\<lparr>ps_custom_rules := Some [sample_rule ''1'' ''*.a.b'']\<rparr>) (pf_settings default_profile)\<rparr>"

lemma ruled_simps [simp]:
  "pf_profile_id ruled_profile = ''p''" "rules_of ruled_profile = [sample_rule ''1'' ''*.a.b'']" "pf_settings ruled_profile \<noteq> None"
  "\<not> exact_rules ruled_profile" "profile_of ''p'' [ruled_profile] = Some ruled_profile"
  by (simp_all add: ruled_profile_def default_profile_def rules_of_def exact_rules_def profile_of_def)

definition quick_start :: "bool \<Rightarrow> quick_sheet" where
  "quick_start statistics =
     \<lparr>qs_statistics = statistics, qs_open = False, qs_domain = None, qs_defaultAction = None, qs_action = Denylist, qs_domainValue = [],
      qs_isSubmitting = False, qs_inputError = None, qs_duplicateValue = None,
      qs_store = initial_store\<lparr>app_activeProfile := Some ruled_profile, app_profiles := [ruled_profile]\<rparr>, qs_toasts = [], qs_added = {}\<rparr>"

lemma quick_start_simps [simp]:
  "qs_statistics (quick_start b) = b" "active_id (qs_store (quick_start b)) = Some ''p''" "subdomains_rule (qs_store (quick_start b)) = ''include''"
  "app_activeProfile (qs_store (quick_start b)) = Some ruled_profile"
  by (simp_all add: quick_start_def active_id_def subdomains_rule_def ruled_profile_def default_profile_def)

lemma quick_opened:
  "\<exists>d1. qs_submit (handleOpenQuickRule False ''www.c.d'' act (quick_start b)) =
     (d1, Some \<lparr>qr_pid = ''p'', qr_action = act, qr_value = ''*.c.d'', qr_sheetDomain = Some ''www.c.d''\<rparr>)"
  "\<exists>d1. qs_submit (handleOpenQuickRule False ''a.b'' act (quick_start b)) =
     (d1, Some \<lparr>qr_pid = ''p'', qr_action = act, qr_value = ''*.a.b'', qr_sheetDomain = Some ''a.b''\<rparr>)"
proof -
  have n: "normalizeRuleValue ''*.c.d'' = Some ''*.c.d''" "normalizeRuleValue ''*.a.b'' = Some ''*.a.b''" by code_simp+
  show "\<exists>d1. qs_submit (handleOpenQuickRule False ''www.c.d'' act (quick_start b)) =
     (d1, Some \<lparr>qr_pid = ''p'', qr_action = act, qr_value = ''*.c.d'', qr_sheetDomain = Some ''www.c.d''\<rparr>)"
    by (simp add: handleOpenQuickRule_def qs_effect_def prefillDomain_def js_startsWith_iff qs_submit_def n)
  show "\<exists>d1. qs_submit (handleOpenQuickRule False ''a.b'' act (quick_start b)) =
     (d1, Some \<lparr>qr_pid = ''p'', qr_action = act, qr_value = ''*.a.b'', qr_sheetDomain = Some ''a.b''\<rparr>)"
    by (simp add: handleOpenQuickRule_def qs_effect_def prefillDomain_def js_startsWith_iff qs_submit_def n)
qed

lemma code_normal: "api_normalizeRuleValue sample_checks False ''*.c.d'' = ''*.c.d''"
  by code_simp

lemma quick_created:
  "\<exists>rule. CreateCustomRulesBulk sample_checks False 0 act [''*.c.d''] [sample_rule ''1'' ''*.a.b''] = Inr ([rule], [])"
proof -
  have "api_normalizeRuleValue sample_checks False ''*.c.d'' = ''*.c.d''" by code_simp
  then show ?thesis by (simp add: CreateCustomRulesBulk_def bulk_loop_def bulk_step_def Let_def)
qed

lemma quick_answer:
  "\<exists>rule srv'. api_createRules sample_checks ''p'' ''allow'' [''*.c.d''] [ruled_profile] = (Inr ([rule], []), srv')"
  using quick_created [of "''allow''"] by (auto simp: api_createRules_def)


theorem quick_rule_value_witness:
  "\<exists>r. snd (qs_submit (handleOpenQuickRule False ''www.c.d'' Denylist (quick_start False))) = Some r \<and> qr_value r = ''*.c.d''"
proof -
  have w: "\<forall>c \<in> set ''www.c.d''. \<not> js_space c"
    "(if js_startsWith ''www.c.d'' ''www.'' then drop 4 ''www.c.d'' else ''www.c.d'') = ''c.d''" "\<not> js_endsWith ''c.d'' ''.''" by code_simp+
  from quick_rule_value [where raw = "''www.c.d''" and d = "quick_start False" and pid = "''p''" and act = Denylist, unfolded w(2), OF w(1) _ w(3)]
  show ?thesis by auto
qed

theorem duplicate_link_wrong_tab_witness:
  "\<exists>(d1 :: quick_sheet) (d2 :: quick_sheet). snd (qs_submit (handleOpenQuickRule False ''a.b'' Allowlist (quick_start True))) \<noteq> None \<and>
     d1 = fst (qs_submit (handleOpenQuickRule False ''a.b'' Allowlist (quick_start True))) \<and> duplicate_link d2 = Some ''/custom-rules?list=allowlist'' \<and>
     ''*.a.b'' \<notin> cr_value ` set (filter (\<lambda>x. cr_action x = ''allow'') (rules_of ruled_profile))"
proof -
  let ?d = "handleOpenQuickRule False ''a.b'' Allowlist (quick_start True)"
  let ?r = "\<lparr>qr_pid = ''p'', qr_action = Allowlist, qr_value = ''*.a.b'', qr_sheetDomain = Some ''a.b''\<rparr>"
  from quick_opened(2) obtain d1 where s: "qs_submit ?d = (d1, Some ?r)" by blast
  have o: "qs_statistics ?d" "qs_action ?d = Allowlist" by (simp_all add: handleOpenQuickRule_def qs_effect_def)
  obtain answer srv' where c: "api_createRules sample_checks (qr_pid ?r) (ACTION_TO_API (qr_action ?r)) [qr_value ?r] [ruled_profile] = (answer, srv')"
    by fastforce
  obtain d2 fetch where a: "qs_answered answer ?r d1 = (d2, fetch)" by fastforce
  have p: "profile_of (qr_pid ?r) [ruled_profile] = Some ruled_profile" by simp
  have "api_normalizeRuleValue sample_checks False ''*.a.b'' = ''*.a.b''" by code_simp
  then have n: "api_normalizeRuleValue sample_checks (exact_rules ruled_profile) (qr_value ?r) = ''*.a.b''" by simp
  have h: "ck_request_ok sample_checks (qr_value ?r)" "ck_syntax_ok sample_checks ''*.a.b''" "''*.a.b'' \<noteq> []"
    "''*.a.b'' \<in> cr_value ` set (rules_of ruled_profile)"
    "\<forall>x \<in> set (rules_of ruled_profile). cr_value x = ''*.a.b'' \<longrightarrow> cr_action x \<noteq> ACTION_TO_API (qs_action ?d)"
    by (simp_all add: o(2) ACTION_TO_API_def)
  from duplicate_link_wrong_tab [OF s o(1) c a p, unfolded n, OF h] show ?thesis
    unfolding s by (auto simp: o(2) customRulesPath_def ACTION_TO_API_def)
qed

theorem created_rule_reported_failed_witness:
  "\<exists>d :: quick_sheet. qs_open d \<and> qs_toasts d = [(TError, ''Failed'')] \<and>
     (\<exists>p'. profile_of ''p'' (snd (api_createRules sample_checks ''p'' ''allow'' [''*.c.d''] [ruled_profile])) = Some p' \<and>
        ''*.c.d'' \<in> cr_value ` set (rules_of p'))"
proof -
  let ?d = "handleOpenQuickRule False ''www.c.d'' Allowlist (quick_start True)"
  let ?r = "\<lparr>qr_pid = ''p'', qr_action = Allowlist, qr_value = ''*.c.d'', qr_sheetDomain = Some ''www.c.d''\<rparr>"
  from quick_opened(1) obtain d1 where s: "qs_submit ?d = (d1, Some ?r)" by blast
  have o: "qs_open ?d" "qs_toasts ?d = []" by (simp_all add: handleOpenQuickRule_def qs_effect_def quick_start_def)
  from quick_answer obtain rule srv' where c: "api_createRules sample_checks ''p'' ''allow'' [''*.c.d''] [ruled_profile] = (Inr ([rule], []), srv')" by blast
  then have c': "api_createRules sample_checks (qr_pid ?r) (ACTION_TO_API (qr_action ?r)) [qr_value ?r] [ruled_profile] = (Inr ([rule], []), srv')"
    by (simp add: ACTION_TO_API_def)
  have a: "qs_answered (Inr ([rule], [])) ?r d1 = (d1, True)" by (simp add: qs_answered_def)
  have p: "profile_of (qr_pid ?r) [ruled_profile] = Some ruled_profile" by simp
  have "api_normalizeRuleValue sample_checks False ''*.c.d'' = ''*.c.d''" by code_simp
  then have n: "api_normalizeRuleValue sample_checks (exact_rules ruled_profile) (qr_value ?r) = ''*.c.d''" by simp
  from created_rule_reported_failed [OF s o(1) c' a p ruled_simps(3), of "ThrownString ''Failed''", unfolded n] show ?thesis
    unfolding c snd_conv by (auto simp: o(2) formatApiError_def)
qed

theorem late_answer_hits_new_sheet_witness:
  "\<exists>d :: quick_sheet. qs_open d \<and> qs_domain d = Some ''e.f'' \<and> (\<exists>r p. \<not> qs_open (qs_refetched (Inr p) r d))"
proof -
  from quick_opened(1) obtain d1 where
    s: "qs_submit (handleOpenQuickRule False ''www.c.d'' Allowlist (quick_start False)) =
      (d1, Some \<lparr>qr_pid = ''p'', qr_action = Allowlist, qr_value = ''*.c.d'', qr_sheetDomain = Some ''www.c.d''\<rparr>)" by blast
  have "''e.f'' \<noteq> []" by simp
  from late_answer_hits_new_sheet [OF s this] show ?thesis by blast
qed

theorem late_answer_switches_back_witness:
  "\<exists>d :: quick_sheet. active_id (qs_store d) = None \<and> \<not> qs_open d \<and> (\<exists>r. active_id (qs_store (qs_refetched (Inr ruled_profile) r d)) = Some ''p'')"
proof -
  from quick_opened(1) obtain d1 where
    s: "qs_submit (handleOpenQuickRule False ''www.c.d'' Allowlist (quick_start False)) =
      (d1, Some \<lparr>qr_pid = ''p'', qr_action = Allowlist, qr_value = ''*.c.d'', qr_sheetDomain = Some ''www.c.d''\<rparr>)" by blast
  have "active_id initial_store \<noteq> Some ''p''" "active_id initial_store = None" by (simp_all add: active_id_def initial_store_def)
  with late_answer_switches_back [OF s, of ruled_profile initial_store] show ?thesis by fastforce
qed

theorem refresh_resets_choice_witness:
  "let d' = handleActionKeyDown ''a'' (handleOpenQuickRule False ''c.d'' Denylist (quick_start True))
   in qs_action d' = Allowlist \<and> qs_action (qs_profile_written (qs_store (quick_start True)) d') = Denylist"
proof -
  have "''c.d'' \<noteq> []" by simp
  from refresh_resets_choice [OF this, of "qs_store (quick_start True)" "quick_start True"] show ?thesis unfolding Let_def by blast
qed

end
