(* ===== verification/Services.thy ===== *)
theory Services
  imports QuickRule "HOL-Library.Multiset"
begin

text \<open>
  Blocking services: app/src/pages/blocklists/ServicesContentSection.tsx with the operations of the API
  (api/api/services.go, api/service/profile/services.go, api/db/mongodb/profile.go, api/cache/redis.go).

  The server keeps the list of a profile twice: in the stored document and in the cache, which is what the
  resolver reads. Whether the cache can be written is an argument of an operation.
\<close>

subsection \<open>The API\<close>

record services_server =
  ss_profile :: ModelProfile
  ss_cache :: "string list"

definition services_of :: "ModelProfile \<Rightarrow> string list" where
  "services_of p = nullish (Option.bind (pf_settings p) (\<lambda>t. pv_services (ps_privacy t))) []"

definition set_services :: "string list \<Rightarrow> ModelProfile \<Rightarrow> ModelProfile" where
  "set_services l p =
     p\<lparr>pf_settings := map_option (\<lambda>t. t\<lparr>ps_privacy := (ps_privacy t)\<lparr>pv_services := Some l\<rparr>\<rparr>) (pf_settings p)\<rparr>"

definition request_ids_ok :: "string list \<Rightarrow> bool" where
  "request_ids_ok ids \<longleftrightarrow> ids \<noteq> [] \<and> length ids \<le> 100 \<and> list_all (\<lambda>i. i \<noteq> []) ids"

text \<open>\<open>$addToSet\<close> with \<open>$each\<close>.\<close>

fun add_to_set :: "string list \<Rightarrow> string list \<Rightarrow> string list" where
  "add_to_set l [] = l"
| "add_to_set l (i # is) = add_to_set (if i \<in> set l then l else l @ [i]) is"

definition EnableServices :: "bool \<Rightarrow> string list \<Rightarrow> services_server \<Rightarrow> thrown option \<times> services_server" where
  "EnableServices cacheOk ids srv =
     (if \<not> request_ids_ok ids then (Some (api_error 400 ''invalid request''), srv)
      else if list_ex (\<lambda>i. i \<in> set (services_of (ss_profile srv))) ids then (Some (api_error 400 ''service already enabled''), srv)
      else
        let srv1 = srv\<lparr>ss_profile := set_services (add_to_set (services_of (ss_profile srv)) ids) (ss_profile srv)\<rparr>
        in if cacheOk then (None, srv1\<lparr>ss_cache := ss_cache srv @ ids\<rparr>) else (Some (api_error 500 ''Failed to enable services''), srv1))"

definition DisableServices :: "bool \<Rightarrow> string list \<Rightarrow> services_server \<Rightarrow> thrown option \<times> services_server" where
  "DisableServices cacheOk ids srv =
     (if \<not> request_ids_ok ids then (Some (api_error 400 ''invalid request''), srv)
      else
        let srv1 = srv\<lparr>ss_profile := set_services (filter (\<lambda>i. i \<notin> set ids) (services_of (ss_profile srv))) (ss_profile srv)\<rparr>
        in if cacheOk then (None, srv1\<lparr>ss_cache := filter (\<lambda>i. i \<notin> set ids) (ss_cache srv)\<rparr>)
           else (Some (api_error 500 ''Failed to disable services''), srv1))"

subsection \<open>The page\<close>

record catalog_service =
  cs_id :: "string option"
  cs_name :: "string option"
  cs_asns :: "nat list option"

datatype status_filter = AllServices | Blocked | Unblocked

record services_page =
  sp_services :: "catalog_service list"
  sp_loading :: bool
  sp_updating :: "string option"
  sp_searchValue :: string
  sp_statusFilter :: status_filter
  sp_store :: AppState
  sp_toasts :: "(toast_level \<times> string) list"

definition blockedServices :: "services_page \<Rightarrow> string list" where
  "blockedServices p = (case app_activeProfile (sp_store p) of None \<Rightarrow> [] | Some q \<Rightarrow> services_of q)"

definition catalog_loaded :: "thrown + catalog_service list option \<Rightarrow> services_page \<Rightarrow> services_page" where
  "catalog_loaded answer p =
     p\<lparr>sp_services := (case answer of Inr data \<Rightarrow> nullish data [] | Inl _ \<Rightarrow> []), sp_loading := False\<rparr>"

text \<open>The last entry with an id, as in a \<open>Map\<close> filled in order.\<close>

definition serviceById :: "catalog_service list \<Rightarrow> string \<Rightarrow> catalog_service option" where
  "serviceById services i = find (\<lambda>s. cs_id s = Some i) (rev (filter (\<lambda>s. truthy_str (cs_id s)) services))"

definition handleServiceSwitch :: "string \<Rightarrow> services_page \<Rightarrow> services_page \<times> bool" where
  "handleServiceSwitch serviceId p =
     (if \<not> truthy_str (active_id (sp_store p)) \<or> serviceId = [] then (p, False) else (p\<lparr>sp_updating := Some serviceId\<rparr>, True))"

definition SERVICE_FAILED :: string where "SERVICE_FAILED = ''Failed to update service. Please try again.''"

text \<open>The end of a switch: its first request was refused, or the profile was read again, or could not be.\<close>

definition switch_done :: "string \<Rightarrow> bool \<Rightarrow> thrown + ModelProfile \<Rightarrow> services_page \<Rightarrow> services_page" where
  "switch_done serviceId checked fetched p =
     (case fetched of
        Inl _ \<Rightarrow> p\<lparr>sp_toasts := sp_toasts p @ [(TError, SERVICE_FAILED)]\<rparr>
      | Inr q \<Rightarrow>
          let svcName = or_str (Option.bind (serviceById (sp_services p) serviceId) cs_name) serviceId
          in p\<lparr>sp_store := setActiveProfile (Some q) (sp_store p),
               sp_toasts := sp_toasts p @
                 [(TSuccess, svcName @ (if checked then '' has been blocked successfully.'' else '' has been unblocked successfully.''))]\<rparr>)
     \<lparr>sp_updating := None\<rparr>"

definition isBlocked :: "services_page \<Rightarrow> catalog_service \<Rightarrow> bool" where
  "isBlocked p svc \<longleftrightarrow> truthy_str (cs_id svc) \<and> the (cs_id svc) \<in> set (blockedServices p)"

definition matchesSearch :: "services_page \<Rightarrow> catalog_service \<Rightarrow> bool" where
  "matchesSearch p svc \<longleftrightarrow>
     js_trim (sp_searchValue p) = [] \<or> js_includes (js_toLowerCase (nullish (cs_name svc) [])) (js_toLowerCase (sp_searchValue p))"

definition filteredServices :: "services_page \<Rightarrow> catalog_service list" where
  "filteredServices p =
     filter (\<lambda>svc. matchesSearch p svc \<and>
         (sp_statusFilter p = AllServices \<or> sp_statusFilter p = Blocked \<and> isBlocked p svc \<or> sp_statusFilter p = Unblocked \<and> \<not> isBlocked p svc))
       (sp_services p)"

text \<open>The card of a service: its switch, and whether it can be used.\<close>

definition switch_disabled :: "bool \<Rightarrow> services_page \<Rightarrow> catalog_service \<Rightarrow> bool" where
  "switch_disabled restricted p svc \<longleftrightarrow>
     sp_updating p = Some (nullish (cs_id svc) []) \<or> nullish (cs_id svc) [] = [] \<or> restricted"

definition formatASNs :: "nat list option \<Rightarrow> string" where
  "formatASNs asns =
     (case asns of None \<Rightarrow> ''No ASN'' | Some [] \<Rightarrow> ''No ASN''
      | Some l \<Rightarrow> ''ASN: '' @ js_join '', '' (map show_nat (take 5 l)) @ (if length l \<le> 5 then [] else '' +'' @ show_nat (length l - 5)))"

text \<open>A switch as a whole: the request, and the profile read when it was accepted.\<close>

definition flip_service ::
  "bool \<Rightarrow> bool \<Rightarrow> string \<Rightarrow> bool \<Rightarrow> services_server \<times> services_page \<Rightarrow> services_server \<times> services_page" where
  "flip_service cacheOk fetchOk i checked sp =
     (let (srv, p) = sp; (p1, sent) = handleServiceSwitch i p
      in if \<not> sent then (srv, p1)
         else case (if checked then EnableServices else DisableServices) cacheOk [i] srv of
                (Some e, srv') \<Rightarrow> (srv', switch_done i checked (Inl e) p1)
              | (None, srv') \<Rightarrow> (srv', switch_done i checked (if fetchOk then Inr (ss_profile srv') else Inl network_error) p1))"

subsection \<open>Lemmas\<close>

lemma services_set [simp]: "pf_settings p \<noteq> None \<Longrightarrow> services_of (set_services l p) = l"
  by (auto simp: services_of_def set_services_def)

lemma set_services_id [simp]: "pf_profile_id (set_services l p) = pf_profile_id p"
  by (simp add: set_services_def)

lemma set_services_settings [simp]: "pf_settings (set_services l p) \<noteq> None \<longleftrightarrow> pf_settings p \<noteq> None"
  by (simp add: set_services_def)

text \<open>The page shows what is stored, and the cache has it.\<close>

definition services_in_sync :: "services_server \<Rightarrow> services_page \<Rightarrow> bool" where
  "services_in_sync srv p \<longleftrightarrow>
     pf_settings (ss_profile srv) \<noteq> None \<and> pf_profile_id (ss_profile srv) \<noteq> [] \<and>
     active_id (sp_store p) = Some (pf_profile_id (ss_profile srv)) \<and>
     blockedServices p = services_of (ss_profile srv) \<and> set (ss_cache srv) = set (services_of (ss_profile srv))"

lemma flip_synced:
  assumes "services_in_sync srv p" and "i \<noteq> []" and "(i \<in> set (blockedServices p)) = (\<not> checked)"
    and "flip_service True True i checked (srv, p) = (srv', p')"
  shows "services_in_sync srv' p'" and "set (services_of (ss_profile srv')) =
      (if checked then insert i (set (services_of (ss_profile srv))) else set (services_of (ss_profile srv)) - {i})"
    and "sp_updating p' = None" and "sp_services p' = sp_services p"
proof -
  have on: "truthy_str (active_id (sp_store p))" "pf_settings (ss_profile srv) \<noteq> None"
    using assms(1) by (auto simp: services_in_sync_def)
  have b: "blockedServices p = services_of (ss_profile srv)" using assms(1) by (simp add: services_in_sync_def)
  let ?l = "if checked then add_to_set (services_of (ss_profile srv)) [i] else filter (\<lambda>j. j \<notin> set [i]) (services_of (ss_profile srv))"
  have srv': "ss_profile srv' = set_services ?l (ss_profile srv)"
      "set (ss_cache srv') = (if checked then insert i (set (ss_cache srv)) else set (ss_cache srv) - {i})"
    and p': "p' = switch_done i checked (Inr (ss_profile srv')) (p\<lparr>sp_updating := Some i\<rparr>)"
    using assms(2-4) on(1) b
    by (auto simp: flip_service_def handleServiceSwitch_def EnableServices_def DisableServices_def request_ids_ok_def Let_def
        split: if_splits)
  have l: "set ?l = (if checked then insert i (set (services_of (ss_profile srv))) else set (services_of (ss_profile srv)) - {i})" by auto
  have s: "services_of (ss_profile srv') = ?l" unfolding srv'(1) using on(2) by (rule services_set)
  show "set (services_of (ss_profile srv')) =
      (if checked then insert i (set (services_of (ss_profile srv))) else set (services_of (ss_profile srv)) - {i})"
    unfolding s by (rule l)
  show "sp_updating p' = None" "sp_services p' = sp_services p" by (simp_all add: p' switch_done_def Let_def)
  have "app_activeProfile (sp_store p') = Some (ss_profile srv')" by (simp add: p' switch_done_def setActiveProfile_def Let_def)
  then have "blockedServices p' = services_of (ss_profile srv')" "active_id (sp_store p') = Some (pf_profile_id (ss_profile srv'))"
    by (simp_all add: blockedServices_def active_id_def)
  moreover have "set (ss_cache srv') = set (services_of (ss_profile srv'))"
    using assms(1) srv'(2) unfolding s l by (simp add: services_in_sync_def)
  moreover have "pf_settings (ss_profile srv') \<noteq> None" unfolding srv'(1) set_services_settings by (rule on(2))
  moreover have "pf_profile_id (ss_profile srv') \<noteq> []" using assms(1) srv'(1) by (simp add: services_in_sync_def)
  ultimately show "services_in_sync srv' p'" by (simp add: services_in_sync_def)
qed

text \<open>
  Property C39 (service_switches_end_to_end). Whatever switches the user flips, in any order, while the requests
  succeed: the stored list, the cache and the switches shown agree throughout, and a service is blocked in the
  end exactly when its switch was flipped an odd number of times from being free, or an even number from being
  blocked.
\<close>

definition flip_shown :: "services_server \<times> services_page \<Rightarrow> string \<Rightarrow> services_server \<times> services_page" where
  "flip_shown sp i = flip_service True True i (i \<notin> set (blockedServices (snd sp))) sp"

theorem service_switches_end_to_end:
  fixes p p' :: services_page and srv srv' :: services_server and ids :: "string list"
  assumes "services_in_sync srv p" and "[] \<notin> set ids" and "foldl flip_shown (srv, p) ids = (srv', p')"
  shows "services_in_sync srv' p' \<and> sp_services p' = sp_services p \<and>
         (\<forall>j. j \<in> set (services_of (ss_profile srv')) \<longleftrightarrow> (j \<in> set (services_of (ss_profile srv))) \<noteq> odd (count_list ids j))"
  using assms
proof (induction ids arbitrary: srv p)
  case (Cons i ids)
  obtain srv1 p1 where f: "flip_shown (srv, p) i = (srv1, p1)" by fastforce
  have b: "blockedServices p = services_of (ss_profile srv)" using Cons.prems(1) by (simp add: services_in_sync_def)
  have i: "i \<noteq> []" "(i \<in> set (blockedServices p)) = (\<not> i \<notin> set (blockedServices p))" using Cons.prems(2) by auto
  note one = flip_synced [OF Cons.prems(1) i f [unfolded flip_shown_def snd_conv]]
  have "foldl flip_shown (srv1, p1) ids = (srv', p')" using Cons.prems(3) f by simp
  from Cons.IH [OF one(1) _ this] Cons.prems(2) one(2,4) b show ?case by (auto split: if_splits)
qed simp

text \<open>
  Fact (uncached_service_sticks). A service is stored before the cache is written. When the cache fails, the
  page keeps the switch off, and however often the user tries again, with everything working, the API answers
  that the service is on already: the resolver never learns of it.
\<close>

theorem uncached_service_sticks:
  fixes p p1 :: services_page and srv srv1 :: services_server
  assumes "services_in_sync srv p" and "i \<noteq> []" "i \<notin> set (blockedServices p)" and "flip_service False fetchOk i True (srv, p) = (srv1, p1)"
  defines "sp \<equiv> \<lambda>n. ((\<lambda>sp. flip_shown sp i) ^^ n) (srv1, p1)"
  shows "i \<in> set (services_of (ss_profile (fst (sp n)))) \<and> i \<notin> set (ss_cache (fst (sp n))) \<and> i \<notin> set (blockedServices (snd (sp n))) \<and>
         length (sp_toasts (snd (sp n))) = length (sp_toasts p) + Suc n"
proof -
  have on: "truthy_str (active_id (sp_store p))" "pf_settings (ss_profile srv) \<noteq> None" "i \<notin> set (services_of (ss_profile srv))"
      "i \<notin> set (ss_cache srv)"
    using assms(1,3) by (auto simp: services_in_sync_def)
  let ?l = "add_to_set (services_of (ss_profile srv)) [i]"
  have f: "srv1 = srv\<lparr>ss_profile := set_services ?l (ss_profile srv)\<rparr>"
    "p1 = p\<lparr>sp_toasts := sp_toasts p @ [(TError, SERVICE_FAILED)], sp_updating := None\<rparr>"
    using assms(2,4) on(1,3)
    by (auto simp: flip_service_def handleServiceSwitch_def EnableServices_def request_ids_ok_def switch_done_def Let_def)
  have s1: "i \<in> set (services_of (ss_profile srv1))" using services_set [OF on(2), of ?l] by (simp add: f(1))
  have inv: "fst (sp n) = srv1 \<and> sp_store (snd (sp n)) = sp_store p \<and> length (sp_toasts (snd (sp n))) = length (sp_toasts p) + Suc n" for n
  proof (induction n)
    case 0
    then show ?case by (simp add: sp_def f(2))
  next
    case (Suc n)
    obtain q where q: "sp n = (srv1, q)" "sp_store q = sp_store p" "length (sp_toasts q) = length (sp_toasts p) + Suc n"
      using Suc by (metis prod.collapse)
    have "blockedServices q = blockedServices p" by (simp add: blockedServices_def q(2))
    then have "flip_shown (srv1, q) i = (srv1, switch_done i True (Inl (api_error 400 ''service already enabled'')) (q\<lparr>sp_updating := Some i\<rparr>))"
      using assms(2,3) on(1) s1
      by (simp add: flip_shown_def flip_service_def handleServiceSwitch_def EnableServices_def request_ids_ok_def q(2) Let_def)
    then show ?case using q by (simp add: sp_def switch_done_def)
  qed
  have "blockedServices (snd (sp n)) = blockedServices p" using inv [of n] by (simp add: blockedServices_def)
  with inv [of n] s1 on(4) assms(3) show ?thesis by (simp add: f(1))
qed

text \<open>
  Fact (status_filters_partition). For every search, the services listed as blocked and those listed as not
  blocked are together the ones listed under All.
\<close>

theorem status_filters_partition:
  "mset (filteredServices (p\<lparr>sp_statusFilter := Blocked\<rparr>)) + mset (filteredServices (p\<lparr>sp_statusFilter := Unblocked\<rparr>)) =
   mset (filteredServices (p\<lparr>sp_statusFilter := AllServices\<rparr>))"
proof -
  have split: "mset (filter (\<lambda>s. P s \<and> Q s) xs) + mset (filter (\<lambda>s. P s \<and> \<not> Q s) xs) = mset (filter P xs)" for P Q and xs :: "catalog_service list"
    by (induction xs) auto
  have same: "matchesSearch (p\<lparr>sp_statusFilter := f\<rparr>) = matchesSearch p" "isBlocked (p\<lparr>sp_statusFilter := f\<rparr>) = isBlocked p" for f
    by (simp_all add: fun_eq_iff matchesSearch_def isBlocked_def blockedServices_def)
  from split [of "matchesSearch p" "isBlocked p" "sp_services p"] show ?thesis by (simp add: filteredServices_def same)
qed

text \<open>
  Fact (padded_search_hides). A search is tested for being blank without its spaces but compared with them:
  the name of a service with a space typed after it does not find the service.
\<close>

theorem padded_search_hides:
  assumes "cs_name svc = Some name" and "js_trim name \<noteq> []" and "\<not> js_space (hd name)"
  shows "matchesSearch (p\<lparr>sp_searchValue := name\<rparr>) svc \<and> \<not> matchesSearch (p\<lparr>sp_searchValue := name @ '' ''\<rparr>) svc"
proof -
  have "js_includes (js_toLowerCase name) (js_toLowerCase name)" by (metis append_Nil append_Nil2 js_includes_iff)
  moreover have "\<not> js_includes (js_toLowerCase name) (js_toLowerCase (name @ '' ''))"
    by (auto simp: js_includes_iff js_toLowerCase_def dest: arg_cong [of _ _ length])
  moreover have "js_trim (name @ '' '') \<noteq> []"
  proof -
    have "name \<noteq> []" using assms(2) by (auto simp: js_trim_def)
    then have "dropWhile js_space (name @ '' '') = name @ '' ''" using assms(3) by (cases name) auto
    then have "js_trim (name @ '' '') = rev (dropWhile js_space (rev (name @ '' '')))" by (simp add: js_trim_def)
    moreover have "hd name \<in> set (name @ '' '')" "\<not> js_space (hd name)" using \<open>name \<noteq> []\<close> assms(3) by auto
    ultimately show ?thesis by (auto simp: dropWhile_eq_Nil_conv)
  qed
  ultimately show ?thesis using assms(1) by (simp add: matchesSearch_def)
qed

text \<open>
  Fact (overlapping_switches_unlocked). One cell remembers the switch under way: flipping a second one unlocks
  the first while its request runs, and the end of the first unlocks the second.
\<close>

theorem overlapping_switches_unlocked:
  assumes "cs_id a = Some i" "cs_id b = Some j" "i \<noteq> j" "i \<noteq> []" "j \<noteq> []" and "truthy_str (active_id (sp_store p))"
  defines "p2 \<equiv> fst (handleServiceSwitch j (fst (handleServiceSwitch i p)))"
  shows "\<not> switch_disabled False p2 a \<and> switch_disabled False p2 b \<and> \<not> switch_disabled False (switch_done i c fetched p2) b"
  using assms(1-6) by (simp add: p2_def handleServiceSwitch_def switch_disabled_def switch_done_def)

subsection \<open>Witnesses\<close>

definition catalog :: "catalog_service list" where
  "catalog = [\<lparr>cs_id = Some ''google'', cs_name = Some ''Google'', cs_asns = Some [15169]\<rparr>,
              \<lparr>cs_id = Some ''meta'', cs_name = Some ''Meta'', cs_asns = None\<rparr>]"

definition services_start :: "services_server \<times> services_page" where
  "services_start =
     (\<lparr>ss_profile = default_profile, ss_cache = []\<rparr>,
      \<lparr>sp_services = catalog, sp_loading = False, sp_updating = None, sp_searchValue = [], sp_statusFilter = AllServices,
       sp_store = initial_store\<lparr>app_activeProfile := Some default_profile\<rparr>, sp_toasts = []\<rparr>)"

lemma start_synced: "services_in_sync (fst services_start) (snd services_start)" "blockedServices (snd services_start) = []"
  by (simp_all add: services_start_def services_in_sync_def blockedServices_def services_of_def active_id_def default_profile_def)

theorem service_switches_end_to_end_witness:
  "let (srv', p') = foldl flip_shown services_start [''google'', ''meta'', ''google'']
   in ''meta'' \<in> set (ss_cache srv') \<and> ''google'' \<notin> set (ss_cache srv')"
proof -
  obtain srv' p' where r: "foldl flip_shown services_start [''google'', ''meta'', ''google''] = (srv', p')" by fastforce
  have e: "[] \<notin> set [''google'', ''meta'', ''google'']" by simp
  have s: "services_of (ss_profile (fst services_start)) = []" by (simp add: services_start_def services_of_def default_profile_def)
  from service_switches_end_to_end [OF start_synced(1) e, of srv' p'] r
  have "services_in_sync srv' p'" "''meta'' \<in> set (services_of (ss_profile srv'))" "''google'' \<notin> set (services_of (ss_profile srv'))"
    by (simp_all add: s)
  then show ?thesis unfolding r by (simp add: services_in_sync_def)
qed

theorem uncached_service_sticks_witness:
  "let (srv1, p1) = flip_service False True ''google'' True services_start; (srv3, p3) = flip_shown (flip_shown (srv1, p1) ''google'') ''google''
   in ''google'' \<in> set (services_of (ss_profile srv3)) \<and> ''google'' \<notin> set (ss_cache srv3)"
proof -
  obtain srv1 p1 where r: "flip_service False True ''google'' True services_start = (srv1, p1)" by fastforce
  then have r': "flip_service False True ''google'' True (fst services_start, snd services_start) = (srv1, p1)" by simp
  obtain srv3 p3 where r3: "flip_shown (flip_shown (srv1, p1) ''google'') ''google'' = (srv3, p3)" by fastforce
  have g: "''google'' \<noteq> []" "''google'' \<notin> set (blockedServices (snd services_start))" by (simp_all add: start_synced(2))
  from uncached_service_sticks [OF start_synced(1) g r', of 2] show ?thesis
    unfolding r Let_def prod.case r3 by (simp add: numeral_2_eq_2 r3)
qed

theorem padded_search_hides_witness:
  "let p = snd services_start
   in matchesSearch (p\<lparr>sp_searchValue := ''Meta''\<rparr>) (catalog ! 1) \<and> \<not> matchesSearch (p\<lparr>sp_searchValue := ''Meta ''\<rparr>) (catalog ! 1)"
proof -
  have n: "cs_name (catalog ! 1) = Some ''Meta''" by (simp add: catalog_def)
  have t: "js_trim ''Meta'' \<noteq> []" "\<not> js_space (hd ''Meta'')" by code_simp+
  from padded_search_hides [OF n t, of "snd services_start"] show ?thesis by (simp add: Let_def)
qed

theorem overlapping_switches_unlocked_witness:
  "let p2 = fst (handleServiceSwitch ''meta'' (fst (handleServiceSwitch ''google'' (snd services_start))))
   in \<not> switch_disabled False p2 (catalog ! 0) \<and> switch_disabled False p2 (catalog ! 1)"
proof -
  have c: "cs_id (catalog ! 0) = Some ''google''" "cs_id (catalog ! 1) = Some ''meta''" "''google'' \<noteq> ''meta''" "''google'' \<noteq> []" "''meta'' \<noteq> []"
    "truthy_str (active_id (sp_store (snd services_start)))"
    using start_synced(1) by (auto simp: catalog_def services_in_sync_def)
  from overlapping_switches_unlocked [OF c] show ?thesis unfolding Let_def by blast
qed

end
